(* ===== verification/Py_Prelude.thy ===== *)
theory Py_Prelude
  imports Main "HOL-Library.List_Lexorder" "HOL-Library.Char_ord" "HOL-Library.Sublist"
begin

text \<open>
  Shared vocabulary of the development: results of Python code that may raise
  (a sum whose left side is the exception), sequencing of such results, Python's
  list slices for non-negative bounds, and the generic list lemmas the components use.

  The collections \<open>res_simps\<close> (equations that evaluate sequencing) and \<open>res_iff\<close>
  (when a sequenced computation returns normally) are used by every component.
\<close>

named_theorems res_simps "evaluation of sequenced results"
named_theorems res_iff "when a sequenced computation returns normally"

section \<open>Results that may raise\<close>

type_synonym ('e, 'a) res = "'e + 'a"

definition bindR :: "('e, 'a) res \<Rightarrow> ('a \<Rightarrow> ('e, 'b) res) \<Rightarrow> ('e, 'b) res" where
  "bindR m f = (case m of Inl e \<Rightarrow> Inl e | Inr x \<Rightarrow> f x)"

text \<open>\<open>guardR b e k\<close> is \<open>if not b: raise e\<close> followed by \<open>k\<close>.\<close>

definition guardR :: "bool \<Rightarrow> 'e \<Rightarrow> ('e, 'a) res \<Rightarrow> ('e, 'a) res" where
  "guardR b e k = (if b then k else Inl e)"

lemma bindR_simps [simp, res_simps]:
  "bindR (Inl e) f = Inl e"
  "bindR (Inr x) f = f x"
  by (simp_all add: bindR_def)

lemma guardR_simps [simp, res_simps]:
  "guardR True e k = k"
  "guardR False e k = Inl e"
  by (simp_all add: guardR_def)

lemma bindR_Inr_iff [res_iff]:
  "bindR m f = Inr y \<longleftrightarrow> (\<exists>x. m = Inr x \<and> f x = Inr y)"
  by (cases m) auto

lemma bindR_Inl_iff:
  "bindR m f = Inl e \<longleftrightarrow> m = Inl e \<or> (\<exists>x. m = Inr x \<and> f x = Inl e)"
  by (cases m) auto

lemma guardR_Inr_iff [res_iff]: "guardR b e k = Inr y \<longleftrightarrow> b \<and> k = Inr y"
  by (simp add: guardR_def)

lemma guardR_Inl_iff: "guardR b e k = Inl d \<longleftrightarrow> (\<not> b \<and> d = e) \<or> (b \<and> k = Inl d)"
  by (auto simp: guardR_def)

lemma bindR_cong [fundef_cong]:
  "m = m' \<Longrightarrow> (\<And>x. m' = Inr x \<Longrightarrow> f x = g x) \<Longrightarrow> bindR m f = bindR m' g"
  by (cases m') auto

lemma guardR_cong [fundef_cong]:
  "b = b' \<Longrightarrow> e = e' \<Longrightarrow> (b' \<Longrightarrow> k = k') \<Longrightarrow> guardR b e k = guardR b' e' k'"
  by (simp add: guardR_def)

lemma bindR_Inr_right [simp, res_simps]: "bindR m Inr = m"
  by (cases m) auto

lemma bindR_assoc: "bindR (bindR m f) g = bindR m (\<lambda>x. bindR (f x) g)"
  by (cases m) auto

text \<open>A loop that collects one value per element and stops at the first exception.\<close>

fun mapR :: "('a \<Rightarrow> ('e, 'b) res) \<Rightarrow> 'a list \<Rightarrow> ('e, 'b list) res" where
  "mapR f [] = Inr []"
| "mapR f (x # xs) = bindR (f x) (\<lambda>y. bindR (mapR f xs) (\<lambda>ys. Inr (y # ys)))"

lemma mapR_Inr_iff [res_iff]:
  "mapR f xs = Inr ys \<longleftrightarrow> list_all2 (\<lambda>x y. f x = Inr y) xs ys"
  by (induction xs arbitrary: ys) (auto simp: bindR_Inr_iff list_all2_Cons1)

lemma mapR_append:
  "mapR f (xs @ ys) = bindR (mapR f xs) (\<lambda>us. bindR (mapR f ys) (\<lambda>vs. Inr (us @ vs)))"
  by (induction xs) (simp_all add: bindR_assoc)

lemma mapR_all_Inr: "(\<And>x. x \<in> set xs \<Longrightarrow> f x = Inr (g x)) \<Longrightarrow> mapR f xs = Inr (map g xs)"
  by (induction xs) auto

lemma mapR_length: "mapR f xs = Inr ys \<Longrightarrow> length ys = length xs"
  by (simp add: mapR_Inr_iff list_all2_lengthD)

text \<open>A loop that threads a state and stops at the first exception.\<close>

fun foldR :: "('a \<Rightarrow> 's \<Rightarrow> ('e, 's) res) \<Rightarrow> 'a list \<Rightarrow> 's \<Rightarrow> ('e, 's) res" where
  "foldR f [] s = Inr s"
| "foldR f (x # xs) s = bindR (f x s) (foldR f xs)"

lemma foldR_append: "foldR f (xs @ ys) s = bindR (foldR f xs s) (foldR f ys)"
proof (induction xs arbitrary: s)
  case (Cons x xs)
  then show ?case by (cases "f x s") simp_all
qed simp

lemma foldR_invariant:
  assumes "foldR f xs s = Inr t" and "P s"
    and "\<And>x s t. x \<in> set xs \<Longrightarrow> P s \<Longrightarrow> f x s = Inr t \<Longrightarrow> P t"
  shows "P t"
  using assms
  by (induction xs arbitrary: s) (auto simp: bindR_Inr_iff)

text \<open>
  Checks that append messages to a list: each check returns its messages or raises, and
  the checks run in order.
\<close>

fun catR :: "('e, 'a list) res list \<Rightarrow> ('e, 'a list) res" where
  "catR [] = Inr []"
| "catR (c # cs) = bindR c (\<lambda>xs. bindR (catR cs) (\<lambda>ys. Inr (xs @ ys)))"

lemma catR_Nil_iff [res_iff]: "catR cs = Inr [] \<longleftrightarrow> (\<forall>c \<in> set cs. c = Inr [])"
  by (induction cs) (auto simp: bindR_Inr_iff)

lemma catR_total_iff: "(\<exists>xs. catR cs = Inr xs) \<longleftrightarrow> (\<forall>c \<in> set cs. \<exists>xs. c = Inr xs)"
  by (induction cs) (auto simp: bindR_Inr_iff)

lemma catR_all_Inr: "catR (map Inr xss) = Inr (concat xss)"
  by (induction xss) auto

text \<open>One check: \<open>if cond: errors.append(msg)\<close>, where evaluating the condition may raise.\<close>

definition flag :: "bool \<Rightarrow> 'a \<Rightarrow> 'a list" where
  "flag b e = (if b then [e] else [])"

definition flagR :: "('e, bool) res \<Rightarrow> 'a \<Rightarrow> ('e, 'a list) res" where
  "flagR c e = bindR c (\<lambda>b. Inr (flag b e))"

definition notR :: "('e, bool) res \<Rightarrow> ('e, bool) res" where
  "notR m = bindR m (\<lambda>b. Inr (\<not> b))"

lemma notR_simps [simp]: "notR (Inr b) = Inr (\<not> b)" "notR (Inl e) = Inl e"
  by (simp_all add: notR_def)

lemma notR_Inr_iff [res_iff]: "notR m = Inr b \<longleftrightarrow> m = Inr (\<not> b)"
  by (cases m) auto

lemma flag_simps [simp]: "flag True e = [e]" "flag False e = []"
  by (simp_all add: flag_def)

lemma flag_Nil_iff [simp]: "flag b e = [] \<longleftrightarrow> \<not> b" "[] = flag b e \<longleftrightarrow> \<not> b"
  by (simp_all add: flag_def)

lemma flagR_simps [simp]: "flagR (Inr b) e = Inr (flag b e)" "flagR (Inl x) e = Inl x"
  by (simp_all add: flagR_def)

lemma flagR_Nil_iff [res_iff]: "flagR c e = Inr [] \<longleftrightarrow> c = Inr False"
  by (cases c) auto

lemma set_flag: "set (flag b e) = (if b then {e} else {})"
  by simp

section \<open>Slices and lists\<close>

text \<open>\<open>xs[i:j]\<close> for non-negative bounds: out-of-range bounds are clipped, as Python does.\<close>

definition pyslice :: "'a list \<Rightarrow> nat \<Rightarrow> nat \<Rightarrow> 'a list" where
  "pyslice xs i j = take (j - i) (drop i xs)"

lemma length_pyslice: "length (pyslice xs i j) = min (j - i) (length xs - i)"
  by (simp add: pyslice_def min.commute)

lemma length_pyslice_le [simp]: "j \<le> length xs \<Longrightarrow> length (pyslice xs i j) = j - i"
  by (simp add: length_pyslice)

lemma pyslice_append_right:
  "length us \<le> i \<Longrightarrow> pyslice (us @ xs) i j = pyslice xs (i - length us) (j - length us)"
  by (simp add: pyslice_def)

lemma pyslice_append_left: "j \<le> length us \<Longrightarrow> pyslice (us @ xs) i j = pyslice us i j"
  by (simp add: pyslice_def)

lemma pyslice_full: "length xs \<le> j \<Longrightarrow> pyslice xs 0 j = xs"
  by (simp add: pyslice_def)

lemma pyslice_append_exact:
  "pyslice (us @ xs @ vs) (length us) (length us + length xs) = xs"
  by (simp add: pyslice_def)

lemma pyslice_pyslice: "b \<le> d - c \<Longrightarrow> pyslice (pyslice xs c d) a b = pyslice xs (c + a) (c + b)"
proof (cases "a \<le> b")
  case True
  then show "b \<le> d - c \<Longrightarrow> ?thesis"
    by (simp add: pyslice_def take_drop add.commute min_def)
qed (simp add: pyslice_def)

text \<open>\<open>dict.fromkeys(xs)\<close>: the distinct elements in order of first occurrence.\<close>

fun dedup_on :: "'a list \<Rightarrow> 'a list \<Rightarrow> 'a list" where
  "dedup_on seen [] = []"
| "dedup_on seen (x # xs) =
     (if x \<in> set seen then dedup_on seen xs else x # dedup_on (x # seen) xs)"

lemma dedup_on_set: "set (dedup_on seen xs) = set xs - set seen"
  by (induction seen xs rule: dedup_on.induct) auto

lemma dedup_on_distinct: "distinct (dedup_on seen xs)"
  by (induction seen xs rule: dedup_on.induct) (auto simp: dedup_on_set)

lemma dedup_set [simp]: "set (dedup_on [] xs) = set xs"
  by (simp add: dedup_on_set)

text \<open>Adjacent pairs: Python's \<open>zip(xs, xs[1:])\<close>.\<close>

definition pairs :: "'a list \<Rightarrow> ('a \<times> 'a) list" where
  "pairs xs = zip xs (tl xs)"

lemma pairs_simps [simp]:
  "pairs [] = []" "pairs [x] = []" "pairs (x # y # ys) = (x, y) # pairs (y # ys)"
  by (simp_all add: pairs_def)

lemma pairs_sorted: "(\<forall>(a, b) \<in> set (pairs xs). a \<le> b) \<longleftrightarrow> sorted (xs :: 'a :: linorder list)"
proof (induction xs rule: induct_list012)
  case (3 x y zs)
  then have "(\<forall>(a, b) \<in> set (pairs (x # y # zs)). a \<le> b) \<longleftrightarrow> x \<le> y \<and> sorted (y # zs)"
    by (simp add: split_def)
  then show ?case by force
qed simp_all

text \<open>\<open>sorted(set(xs))\<close>.\<close>

definition sorted_set :: "'a :: linorder list \<Rightarrow> 'a list" where
  "sorted_set xs = sort (remdups xs)"

lemma sorted_set_props [simp]:
  "set (sorted_set xs) = set xs" "sorted (sorted_set xs)" "distinct (sorted_set xs)"
  by (simp_all add: sorted_set_def)

lemma sorted_set_cong: "set xs = set ys \<Longrightarrow> sorted_set xs = sorted_set ys"
  by (metis sorted_distinct_set_unique sorted_set_props)

end
