(* ===== verification/Py_Bytes.thy ===== *)
theory Py_Bytes
  imports Py_Prelude "HOL-Library.Word"
begin

text \<open>
  Byte strings and the part of Python's \<open>struct\<close> module the tools use: unsigned integers
  of 4 and 8 bytes, big and little endian, read with \<open>unpack_from\<close> and written with
  \<open>pack_into\<close>. The locale \<open>uint_codec\<close> is the contract of such a field format; it is
  interpreted for the four formats, and the table lemmas (a row of fields is read back
  field by field) are proved once inside it.
\<close>

type_synonym byte = "8 word"

section \<open>Encoding and decoding\<close>

text \<open>\<open>int.from_bytes(bs, "big")\<close> and its inverse on \<open>n\<close> bytes.\<close>

fun be_nat_acc :: "nat \<Rightarrow> byte list \<Rightarrow> nat" where
  "be_nat_acc a [] = a"
| "be_nat_acc a (b # bs) = be_nat_acc (a * 256 + unat b) bs"

definition be_nat :: "byte list \<Rightarrow> nat" where "be_nat bs = be_nat_acc 0 bs"
definition le_nat :: "byte list \<Rightarrow> nat" where "le_nat bs = be_nat (rev bs)"

fun be_bytes :: "nat \<Rightarrow> nat \<Rightarrow> byte list" where
  "be_bytes 0 v = []"
| "be_bytes (Suc n) v = be_bytes n (v div 256) @ [word_of_nat v]"

definition le_bytes :: "nat \<Rightarrow> nat \<Rightarrow> byte list" where "le_bytes n v = rev (be_bytes n v)"

lemma unat_byte [simp]: "unat (word_of_nat v :: byte) = v mod 256"
  by (simp add: unat_of_nat)

lemma unat_byte_lt [simp]: "unat (b :: byte) < 256"
  using unsigned_less [of b] by simp

lemma be_nat_acc_snoc: "be_nat_acc a (bs @ [b]) = be_nat_acc a bs * 256 + unat b"
  by (induction a bs rule: be_nat_acc.induct) simp_all

lemma be_nat_snoc [simp]: "be_nat (bs @ [b]) = be_nat bs * 256 + unat b"
  by (simp add: be_nat_def be_nat_acc_snoc)

lemma be_nat_Nil [simp]: "be_nat [] = 0"
  by (simp add: be_nat_def)

lemma length_be_bytes [simp]: "length (be_bytes n v) = n"
  by (induction n v rule: be_bytes.induct) simp_all

lemma be_nat_be_bytes: "be_nat (be_bytes n v) = v mod 256 ^ n"
proof (induction n v rule: be_bytes.induct)
  case (2 n v)
  then show ?case by (simp add: mod_mult2_eq add.commute mult.commute)
qed simp

lemma be_nat_bound: "be_nat bs < 256 ^ length bs"
proof (induction bs rule: rev_induct)
  case (snoc b bs)
  have "be_nat bs * 256 + unat b < (be_nat bs + 1) * 256"
    by (simp add: distrib_right)
  also have "\<dots> \<le> 256 ^ length bs * 256"
    using snoc by (intro mult_right_mono) simp_all
  finally show ?case by (simp add: mult.commute)
qed simp

lemma be_bytes_be_nat: "be_bytes (length bs) (be_nat bs) = bs"
proof (induction bs rule: rev_induct)
  case (snoc b bs)
  have "unat (word_of_nat (be_nat bs * 256 + unat b) :: byte) = unat b"
    by (simp only: unat_byte) simp
  then have "(word_of_nat (be_nat bs * 256 + unat b) :: byte) = b"
    by (rule word_unat_eq_iff [THEN iffD2])
  moreover have "(be_nat bs * 256 + unat b) div 256 = be_nat bs"
    by simp
  ultimately show ?case using snoc by simp
qed simp

section \<open>The field contract\<close>

locale uint_codec =
  fixes width :: nat
    and enc :: "nat \<Rightarrow> byte list"
    and dec :: "byte list \<Rightarrow> nat"
  assumes width_pos: "0 < width"
    and length_enc: "length (enc v) = width"
    and dec_enc: "v < 256 ^ width \<Longrightarrow> dec (enc v) = v"
    and dec_bound: "length bs = width \<Longrightarrow> dec bs < 256 ^ width"
    and enc_dec: "length bs = width \<Longrightarrow> enc (dec bs) = bs"
begin

lemma enc_inj: "v < 256 ^ width \<Longrightarrow> w < 256 ^ width \<Longrightarrow> enc v = enc w \<Longrightarrow> v = w"
  by (metis dec_enc)

lemma length_row: "length (concat (map enc vs)) = width * length vs"
  by (induction vs) (simp_all add: length_enc)

lemma pyslice_row:
  "i < length vs \<Longrightarrow> pyslice (concat (map enc vs)) (width * i) (width * i + width) = enc (vs ! i)"
proof (induction vs arbitrary: i)
  case (Cons v vs)
  show ?case
  proof (cases i)
    case 0
    then show ?thesis by (simp add: pyslice_def length_enc)
  next
    case (Suc j)
    with Cons show ?thesis by (simp add: pyslice_append_right length_enc add.commute [of width])
  qed
qed simp

lemma decode_row:
  assumes "\<forall>v \<in> set vs. v < 256 ^ width"
  shows "map (\<lambda>i. dec (pyslice (concat (map enc vs)) (width * i) (width * i + width)))
           [0..<length vs] = vs"
  using assms by (intro nth_equalityI) (simp_all add: pyslice_row dec_enc)

lemma decode_embedded_row:
  assumes "\<forall>v \<in> set vs. v < 256 ^ width" and "off = length us"
  shows "map (\<lambda>i. dec (pyslice (us @ concat (map enc vs) @ ws)
             (off + width * i) (off + width * i + width))) [0..<length vs] = vs"
proof -
  have "pyslice (us @ concat (map enc vs) @ ws) (off + width * i) (off + width * i + width)
      = pyslice (concat (map enc vs)) (width * i) (width * i + width)" if "i < length vs" for i
  proof -
    from that have "width * i + width \<le> width * length vs"
      by (metis Suc_leI mult_Suc_right add.commute mult_le_mono2)
    then show ?thesis
      using assms(2) by (simp add: pyslice_append_right pyslice_append_left length_row)
  qed
  then have "map (\<lambda>i. dec (pyslice (us @ concat (map enc vs) @ ws)
        (off + width * i) (off + width * i + width))) [0..<length vs]
      = map (\<lambda>i. dec (pyslice (concat (map enc vs)) (width * i) (width * i + width))) [0..<length vs]"
    by (intro map_cong refl) (simp add: atLeast0LessThan)
  then show ?thesis
    using decode_row [OF assms(1)] by simp
qed

end

abbreviation be32 :: "nat \<Rightarrow> byte list" where "be32 \<equiv> be_bytes 4"
abbreviation be64 :: "nat \<Rightarrow> byte list" where "be64 \<equiv> be_bytes 8"
abbreviation le32 :: "nat \<Rightarrow> byte list" where "le32 \<equiv> le_bytes 4"
abbreviation le64 :: "nat \<Rightarrow> byte list" where "le64 \<equiv> le_bytes 8"

lemma be_codec: "0 < n \<Longrightarrow> uint_codec n (be_bytes n) be_nat"
  by unfold_locales (auto simp: be_nat_be_bytes dest: sym intro: be_nat_bound be_bytes_be_nat)

lemma le_codec: "0 < n \<Longrightarrow> uint_codec n (le_bytes n) le_nat"
proof unfold_locales
  fix bs :: "byte list" assume "length bs = n"
  then show "le_nat bs < 256 ^ n" and "le_bytes n (le_nat bs) = bs"
    using be_nat_bound [of "rev bs"] be_bytes_be_nat [of "rev bs"]
    by (simp_all add: le_nat_def le_bytes_def)
qed (simp_all add: le_nat_def le_bytes_def be_nat_be_bytes)

interpretation be32: uint_codec 4 be32 be_nat
  by (rule be_codec) simp

interpretation be64: uint_codec 8 be64 be_nat
  by (rule be_codec) simp

interpretation le32: uint_codec 4 le32 le_nat
  by (rule le_codec) simp

interpretation le64: uint_codec 8 le64 le_nat
  by (rule le_codec) simp

section \<open>struct.unpack_from and struct.pack_into\<close>

text \<open>
  \<open>struct.unpack_from(fmt, data, off)\<close> for a format of \<open>n\<close> unsigned fields of
  \<open>w\<close> bytes (no padding occurs in the formats used) and a non-negative offset. It
  raises \<open>struct.error\<close> when fewer than \<open>w * n\<close> bytes are left.
\<close>

definition unpack_fields ::
    "'e \<Rightarrow> (byte list \<Rightarrow> nat) \<Rightarrow> nat \<Rightarrow> nat \<Rightarrow> byte list \<Rightarrow> nat \<Rightarrow> ('e, nat list) res" where
  "unpack_fields e dec w n data off =
     (if off + w * n \<le> length data
      then Inr (map (\<lambda>i. dec (pyslice data (off + w * i) (off + w * i + w))) [0..<n])
      else Inl e)"

text \<open>A single field, and the value it has when the bounds check passes.\<close>

definition field_at :: "(byte list \<Rightarrow> nat) \<Rightarrow> nat \<Rightarrow> byte list \<Rightarrow> nat \<Rightarrow> nat" where
  "field_at dec w data off = dec (pyslice data off (off + w))"

lemma unpack_fields_eq:
  "off + w * n \<le> length data \<Longrightarrow>
   unpack_fields e dec w n data off = Inr (map (\<lambda>i. field_at dec w data (off + w * i)) [0..<n])"
  by (simp add: unpack_fields_def field_at_def)

lemma unpack_fields_Inr_iff [res_iff]:
  "unpack_fields e dec w n data off = Inr vs \<longleftrightarrow>
   off + w * n \<le> length data \<and> vs = map (\<lambda>i. field_at dec w data (off + w * i)) [0..<n]"
  by (auto simp: unpack_fields_def field_at_def)

lemma unpack_fields_Inl_iff:
  "unpack_fields e dec w n data off = Inl d \<longleftrightarrow> length data < off + w * n \<and> d = e"
  by (auto simp: unpack_fields_def)

text \<open>Reading fields of a buffer that is given as a concatenation.\<close>

named_theorems layout "fields and slices of concatenated buffers"

lemma field_at_skip [layout]:
  "length us \<le> off \<Longrightarrow> field_at dec w (us @ xs) off = field_at dec w xs (off - length us)"
  by (simp add: field_at_def pyslice_append_right)

lemma field_at_here [layout]: "length bs = w \<Longrightarrow> field_at dec w (bs @ xs) 0 = dec bs"
  by (simp add: field_at_def pyslice_append_left pyslice_full)

lemma pyslice_skip [layout]:
  "length us \<le> i \<Longrightarrow> pyslice (us @ xs) i j = pyslice xs (i - length us) (j - length us)"
  by (rule pyslice_append_right)

lemma pyslice_here [layout]: "length bs = n \<Longrightarrow> pyslice (bs @ xs) 0 n = bs"
  by (simp add: pyslice_append_left pyslice_full)

lemma field_at_Cons [layout]: "0 < off \<Longrightarrow> field_at dec w (x # xs) off = field_at dec w xs (off - 1)"
  using field_at_skip [of "[x]" off dec w xs] by simp

lemma pyslice_Cons [layout]: "0 < i \<Longrightarrow> pyslice (x # xs) i j = pyslice xs (i - 1) (j - 1)"
  using pyslice_skip [of "[x]" i xs j] by simp

lemma pyslice_one [layout]: "pyslice (x # xs) 0 (Suc 0) = [x]"
  by (simp add: pyslice_def)

lemmas [layout] = pyslice_full

lemma length_le_bytes [simp]: "length (le_bytes n v) = n"
  by (simp add: le_bytes_def)

lemmas [layout] = be32.dec_enc be64.dec_enc le32.dec_enc le64.dec_enc

definition is_u32 :: "nat \<Rightarrow> bool" where "is_u32 n = (n < 2 ^ 32)"

lemma field_at_be32_u32: "off + 4 \<le> length data \<Longrightarrow> is_u32 (field_at be_nat 4 data off)"
  using be32.dec_bound [of "pyslice data off (off + 4)"] by (simp add: field_at_def is_u32_def)

lemma field_at_le32_u32: "off + 4 \<le> length data \<Longrightarrow> is_u32 (field_at le_nat 4 data off)"
  using le32.dec_bound [of "pyslice data off (off + 4)"] by (simp add: field_at_def is_u32_def)

lemma dec_be32 [layout]: "is_u32 v \<Longrightarrow> be_nat (be32 v) = v"
  by (rule be32.dec_enc) (simp add: is_u32_def)

text \<open>\<open>struct.pack\<close> of one unsigned 32-bit field: out of range raises \<open>struct.error\<close>.\<close>

definition pack_u32 :: "'e \<Rightarrow> (nat \<Rightarrow> byte list) \<Rightarrow> int \<Rightarrow> ('e, byte list) res" where
  "pack_u32 e enc v = (if 0 \<le> v \<and> v < 2 ^ 32 then Inr (enc (nat v)) else Inl e)"

definition pack_u32s :: "'e \<Rightarrow> (nat \<Rightarrow> byte list) \<Rightarrow> int list \<Rightarrow> ('e, byte list) res" where
  "pack_u32s e enc vs = bindR (mapR (pack_u32 e enc) vs) (\<lambda>bss. Inr (concat bss))"

lemma pack_u32_Inr_iff [res_iff]:
  "pack_u32 e enc v = Inr bs \<longleftrightarrow> 0 \<le> v \<and> v < 2 ^ 32 \<and> bs = enc (nat v)"
  by (auto simp: pack_u32_def)

lemma mapR_pack_u32_Inr:
  "mapR (pack_u32 e enc) vs = Inr bss \<longleftrightarrow>
     (\<forall>v \<in> set vs. 0 \<le> v \<and> v < 2 ^ 32) \<and> bss = map (enc \<circ> nat) vs"
  by (induction vs arbitrary: bss) (auto simp: bindR_Inr_iff pack_u32_Inr_iff)

lemma pack_u32s_Inr_iff [res_iff]:
  "pack_u32s e enc vs = Inr bs \<longleftrightarrow>
     (\<forall>v \<in> set vs. 0 \<le> v \<and> v < 2 ^ 32) \<and> bs = concat (map enc (map nat vs))"
  by (auto simp: pack_u32s_def bindR_Inr_iff mapR_pack_u32_Inr)

text \<open>\<open>buf[off:off + len(bs)] = bs\<close> on a \<open>bytearray\<close> that is long enough.\<close>

definition splice :: "byte list \<Rightarrow> nat \<Rightarrow> byte list \<Rightarrow> byte list" where
  "splice buf off bs = take off buf @ bs @ drop (off + length bs) buf"

lemma length_splice [simp]: "off + length bs \<le> length buf \<Longrightarrow> length (splice buf off bs) = length buf"
  by (simp add: splice_def)

lemma splice_append_exact:
  "length us = off \<Longrightarrow> length old = length bs \<Longrightarrow> splice (us @ old @ vs) off bs = us @ bs @ vs"
  by (simp add: splice_def)

section \<open>Magic numbers\<close>

text \<open>\<open>data.startswith(magic)\<close>, and ASCII literals as bytes.\<close>

definition starts_with :: "'a list \<Rightarrow> 'a list \<Rightarrow> bool" where
  "starts_with data p = (take (length p) data = p)"

lemma starts_with_prefix: "starts_with data p \<longleftrightarrow> prefix p data"
  by (metis append_take_drop_id prefix_def starts_with_def append_eq_conv_conj)

definition ascii :: "string \<Rightarrow> byte list" where
  "ascii s = map (\<lambda>c. word_of_nat (of_char c)) s"

lemma length_ascii [simp]: "length (ascii s) = length s"
  by (simp add: ascii_def)

text \<open>The ranges \<open>[a, a+m)\<close> and \<open>[b, b+n)\<close> share no position.\<close>

definition disjoint_ranges :: "nat \<Rightarrow> nat \<Rightarrow> nat \<Rightarrow> nat \<Rightarrow> bool" where
  "disjoint_ranges a m b n = ({a..<a + m} \<inter> {b..<b + n} = {})"

lemma disjoint_rangesI: "a + m \<le> b \<or> b + n \<le> a \<Longrightarrow> disjoint_ranges a m b n"
  by (auto simp: disjoint_ranges_def)

end
