(* ===== verification/Py_Format.thy ===== *)
theory Py_Format
  imports Py_Prelude
begin

text \<open>
  Python's integer formatting as the tools use it: decimal and hexadecimal digits of a
  non-negative integer, zero-padded to a minimal width (\<open>{n:02d}\<close>, \<open>{n:08x}\<close>). The
  digits are read back by \<open>digits_value\<close>, so formatted numbers are equal only when the
  numbers are.
\<close>

definition digit_char :: "nat \<Rightarrow> char" where
  "digit_char d = (if d < 10 then char_of (48 + d) else char_of (87 + d))"

definition char_digit :: "char \<Rightarrow> nat" where
  "char_digit c = (let n = of_char c :: nat in if n < 58 then n - 48 else n - 87)"

lemma char_digit_digit_char: "d < 16 \<Longrightarrow> char_digit (digit_char d) = d"
  by (auto simp: char_digit_def digit_char_def Let_def)

function base_digits :: "nat \<Rightarrow> nat \<Rightarrow> string" where
  "base_digits b n =
     (if n < b \<or> b < 2 then [digit_char n]
      else base_digits b (n div b) @ [digit_char (n mod b)])"
  by pat_completeness auto
termination by (relation "measure snd") auto

declare base_digits.simps [simp del]

definition digits_value :: "nat \<Rightarrow> string \<Rightarrow> nat" where
  "digits_value b s = foldl (\<lambda>a c. a * b + char_digit c) 0 s"

lemma digits_value_snoc [simp]: "digits_value b (s @ [c]) = digits_value b s * b + char_digit c"
  by (simp add: digits_value_def)

lemma digits_value_Nil [simp]: "digits_value b [] = 0"
  by (simp add: digits_value_def)

lemma digits_value_zeros: "digits_value b (replicate n (digit_char 0) @ s) = digits_value b s"
  by (induction n) (simp_all add: digits_value_def char_digit_digit_char)

lemma digits_value_base_digits:
  "2 \<le> b \<Longrightarrow> b \<le> 16 \<Longrightarrow> digits_value b (base_digits b n) = n"
proof (induction b n rule: base_digits.induct)
  case (1 b n)
  show ?case
  proof (cases "n < b")
    case True
    with 1 have "digits_value b ([] @ [digit_char n]) = n"
      by (simp only: digits_value_snoc) (simp add: char_digit_digit_char)
    with True show ?thesis by (simp add: base_digits.simps [of b n])
  next
    case False
    moreover from 1 have "n mod b < 16"
      by (metis le_trans less_le_trans mod_less_divisor zero_less_numeral)
    ultimately show ?thesis
      using 1 by (simp add: base_digits.simps [of b n] char_digit_digit_char)
  qed
qed

definition zfill :: "nat \<Rightarrow> string \<Rightarrow> string" where
  "zfill w s = replicate (w - length s) (digit_char 0) @ s"

definition fmt_dec :: "nat \<Rightarrow> nat \<Rightarrow> string" where
  "fmt_dec w n = zfill w (base_digits 10 n)"

definition fmt_hex :: "nat \<Rightarrow> nat \<Rightarrow> string" where
  "fmt_hex w n = zfill w (base_digits 16 n)"

lemma digits_value_zfill [simp]: "digits_value b (zfill w s) = digits_value b s"
  by (simp add: zfill_def digits_value_zeros)

lemma digits_value_fmt_dec: "digits_value 10 (fmt_dec w n) = n"
  by (simp add: fmt_dec_def digits_value_base_digits)

lemma fmt_dec_inject [simp]: "fmt_dec w m = fmt_dec w n \<longleftrightarrow> m = n"
  by (metis digits_value_fmt_dec)

lemma digits_value_fmt_hex: "digits_value 16 (fmt_hex w n) = n"
  by (simp add: fmt_hex_def digits_value_base_digits)

lemma fmt_hex_inject [simp]: "fmt_hex w m = fmt_hex w n \<longleftrightarrow> m = n"
  by (metis digits_value_fmt_hex)

lemma base_digits_charset:
  "2 \<le> b \<Longrightarrow> b \<le> 16 \<Longrightarrow> set (base_digits b n) \<subseteq> digit_char ` {..<b}"
proof (induction b n rule: base_digits.induct)
  case (1 b n)
  then have "n mod b < b" by simp
  with 1 show ?case by (subst base_digits.simps) auto
qed

lemma zfill_charset:
  "set s \<subseteq> digit_char ` {..<b} \<Longrightarrow> 0 < b \<Longrightarrow> set (zfill w s) \<subseteq> digit_char ` {..<b}"
  by (auto simp: zfill_def)

lemma fmt_dec_charset: "set (fmt_dec w n) \<subseteq> digit_char ` {..<10}"
  by (simp add: fmt_dec_def zfill_charset base_digits_charset)

lemma fmt_hex_charset: "set (fmt_hex w n) \<subseteq> digit_char ` {..<16}"
  by (simp add: fmt_hex_def zfill_charset base_digits_charset)

lemma of_char_digit_char:
  "d < 16 \<Longrightarrow> of_char (digit_char d) = (if d < 10 then 48 + d else 87 + d)"
  by (simp add: digit_char_def)

lemma digit_char_ne: "d < 16 \<Longrightarrow> digit_char d \<noteq> CHR ''-''"
  using of_char_digit_char [of d] by (auto split: if_splits)

text \<open>A formatted number contains no dash, which therefore separates it from what follows.\<close>

lemma fmt_dec_no_dash: "\<forall>c \<in> set (fmt_dec w n). c \<noteq> CHR ''-''"
proof
  fix c assume "c \<in> set (fmt_dec w n)"
  then obtain d where "d < 10" "c = digit_char d" using fmt_dec_charset [of w n] by auto
  then show "c \<noteq> CHR ''-''" by (simp add: digit_char_ne)
qed

end
