(* ===== verification/Py_Float.thy ===== *)
theory Py_Float
  imports Complex_Main Py_Prelude
begin

text \<open>
  Python's \<open>float\<close>: IEEE 754 binary64 values and the correctly rounded operations the
  tools use (conversion from \<open>int\<close>, subtraction, division). A finite value is the rational
  number it denotes; the sign of zero is not represented, since no comparison sees it. The
  lemmas give what the threshold checks rely on: rounding is monotone, odd, and exact on
  every \<open>m * 2 ^ k\<close> whose \<open>m\<close> fits in 53 bits.
\<close>

datatype pyfloat = Fin rat | PosInf | NegInf | NaN

section \<open>Rounding to 53 bits, ties to even\<close>

fun nlog2 :: "nat \<Rightarrow> nat" where
  "nlog2 n = (if n < 2 then 0 else Suc (nlog2 (n div 2)))"

declare nlog2.simps [simp del]

definition ilog2 :: "rat \<Rightarrow> int" where
  "ilog2 x =
     (let (a, b) = quotient_of x; k = int (nlog2 (nat a)) - int (nlog2 (nat b))
      in if 2 powi k \<le> x then k else k - 1)"

definition round_half_even :: "rat \<Rightarrow> int" where
  "round_half_even x =
     (let f = \<lfloor>x\<rfloor>; r = x - of_int f
      in if r < 1 / 2 then f else if r > 1 / 2 then f + 1 else if even f then f else f + 1)"

definition ulp_exp :: "rat \<Rightarrow> int" where
  "ulp_exp x = max (ilog2 \<bar>x\<bar> - 52) (-1074)"

definition rnd :: "rat \<Rightarrow> rat" where
  "rnd x = (if x = 0 then 0
            else of_int (round_half_even (x / 2 powi ulp_exp x)) * 2 powi ulp_exp x)"

definition float_of_rat :: "rat \<Rightarrow> pyfloat" where
  "float_of_rat x =
     (let r = rnd x in if 2 ^ 1024 \<le> r then PosInf else if r \<le> - (2 ^ 1024) then NegInf else Fin r)"

lemma nlog2_bounds: "0 < n \<Longrightarrow> 2 ^ nlog2 n \<le> n \<and> n < 2 ^ Suc (nlog2 n)"
proof (induction n rule: nlog2.induct)
  case (1 n)
  show ?case
  proof (cases "n < 2")
    case True
    with "1.prems" show ?thesis by (simp add: nlog2.simps [of n])
  next
    case False
    with 1 have "2 ^ nlog2 (n div 2) \<le> n div 2 \<and> n div 2 < 2 * 2 ^ nlog2 (n div 2)"
      by simp
    then have "2 * 2 ^ nlog2 (n div 2) \<le> n \<and> n < 2 * (2 * 2 ^ nlog2 (n div 2))"
      by linarith
    with False show ?thesis by (simp add: nlog2.simps [of n])
  qed
qed

lemma ilog2_bounds:
  assumes "0 < x"
  shows "2 powi ilog2 x \<le> x" and "x < 2 powi (ilog2 x + 1)"
proof -
  obtain a b where q: "quotient_of x = (a, b)" by (cases "quotient_of x")
  have b: "0 < b" and x: "x = of_int a / of_int b"
    using q by (auto simp: quotient_of_denom_pos quotient_of_div)
  with assms have a: "0 < a" by (simp add: zero_less_divide_iff)
  define m n where "m = nat a" and "n = nat b"
  have mn: "0 < m" "0 < n" "x = of_nat m / of_nat n"
    using a b x by (simp_all add: m_def n_def of_nat_nat)
  let ?k = "int (nlog2 m) - int (nlog2 n)"
  have p: "(2::rat) powi ?k = 2 ^ nlog2 m / 2 ^ nlog2 n"
    by (simp add: power_int_diff)
  have bm: "(2::rat) ^ nlog2 m \<le> of_nat m" "of_nat m < (2::rat) ^ Suc (nlog2 m)"
    using nlog2_bounds [OF mn(1)] by (metis of_nat_le_iff of_nat_numeral of_nat_power,
      metis of_nat_less_iff of_nat_numeral of_nat_power)
  have bn: "(2::rat) ^ nlog2 n \<le> of_nat n" "of_nat n < (2::rat) ^ Suc (nlog2 n)"
    using nlog2_bounds [OF mn(2)] by (metis of_nat_le_iff of_nat_numeral of_nat_power,
      metis of_nat_less_iff of_nat_numeral of_nat_power)
  have "x < 2 ^ Suc (nlog2 m) / 2 ^ nlog2 n"
    unfolding mn(3) by (rule frac_less) (use bm bn mn in auto)
  then have up: "x < 2 powi (?k + 1)"
    by (simp add: power_int_add p mult.commute)
  have "2 ^ nlog2 m / 2 ^ Suc (nlog2 n) \<le> x"
    unfolding mn(3) by (rule frac_le) (use bm bn mn in auto)
  then have lo: "2 powi (?k - 1) \<le> x"
    by (simp add: power_int_diff p)
  have il: "ilog2 x = (if 2 powi ?k \<le> x then ?k else ?k - 1)"
    by (simp add: ilog2_def q Let_def m_def n_def)
  show "2 powi ilog2 x \<le> x" using lo by (simp add: il)
  show "x < 2 powi (ilog2 x + 1)" using up by (simp add: il)
qed

lemma powi_le_iff: "(2::rat) powi a \<le> 2 powi b \<longleftrightarrow> a \<le> b"
  by (metis linorder_not_less one_less_numeral_iff order_less_imp_le power_int_increasing
      power_int_strict_increasing semiring_norm(76) numeral_One one_le_numeral)

lemma powi_less_iff: "(2::rat) powi a < 2 powi b \<longleftrightarrow> a < b"
  using powi_le_iff [of b a] by linarith

lemma ilog2_mono:
  assumes "0 < x" "x \<le> y"
  shows "ilog2 x \<le> ilog2 y"
proof -
  have "(2::rat) powi ilog2 x < 2 powi (ilog2 y + 1)"
    using ilog2_bounds(1) [of x] ilog2_bounds(2) [of y] assms by linarith
  then show ?thesis by (simp add: powi_less_iff)
qed

lemma round_half_even_of_int [simp]: "round_half_even (of_int n) = n"
  by (simp add: round_half_even_def)

lemma round_half_even_near: "\<bar>of_int (round_half_even x) - x\<bar> \<le> 1 / 2"
proof -
  define f r where "f = \<lfloor>x\<rfloor>" and "r = x - of_int \<lfloor>x\<rfloor>"
  have "x = of_int f + r" "0 \<le> r" "r < 1"
    using floor_correct [of x] by (auto simp: f_def r_def)
  moreover have "round_half_even x = (if r < 1 / 2 \<or> (r = 1 / 2 \<and> even f) then f else f + 1)"
    by (auto simp: round_half_even_def Let_def f_def r_def)
  ultimately show ?thesis by (auto simp: abs_if)
qed

lemma round_half_even_mono:
  assumes "x \<le> y"
  shows "round_half_even x \<le> round_half_even y"
proof (cases "\<lfloor>x\<rfloor> = \<lfloor>y\<rfloor>")
  case True
  with assms show ?thesis by (auto simp: round_half_even_def Let_def)
next
  case False
  then have "\<lfloor>x\<rfloor> + 1 \<le> \<lfloor>y\<rfloor>" using floor_mono [OF assms] by linarith
  moreover have "round_half_even x \<le> \<lfloor>x\<rfloor> + 1" "\<lfloor>y\<rfloor> \<le> round_half_even y"
    by (simp_all add: round_half_even_def Let_def)
  ultimately show ?thesis by linarith
qed

lemma round_half_even_minus: "round_half_even (- x) = - round_half_even x"
proof (cases "x \<in> \<int>")
  case True
  then obtain n where "x = of_int n" by (elim Ints_cases)
  then show ?thesis by (metis of_int_minus round_half_even_of_int)
next
  case False
  define f r where "f = \<lfloor>x\<rfloor>" and "r = x - of_int \<lfloor>x\<rfloor>"
  have fm: "\<lfloor>- x\<rfloor> = - f - 1"
    using False by (simp add: floor_minus ceiling_altdef f_def)
      (metis Ints_of_int)
  have "- x - of_int \<lfloor>- x\<rfloor> = 1 - r"
    by (simp add: fm r_def f_def)
  then show ?thesis
    by (auto simp: round_half_even_def Let_def fm simp flip: f_def r_def)
qed

section \<open>Properties of rounding\<close>

lemma ulp_exp_pos: "(0::rat) < 2 powi ulp_exp x"
  by simp

lemma rnd_0 [simp]: "rnd 0 = 0"
  by (simp add: rnd_def)

lemma rnd_minus: "rnd (- x) = - rnd x"
  by (simp add: rnd_def ulp_exp_def round_half_even_minus)

lemma rnd_nonneg: "0 \<le> x \<Longrightarrow> 0 \<le> rnd x"
proof -
  assume "0 \<le> x"
  then have "round_half_even 0 \<le> round_half_even (x / 2 powi ulp_exp x)"
    by (intro round_half_even_mono) simp
  then show ?thesis
    using round_half_even_of_int [of 0] by (simp add: rnd_def)
qed

lemma rnd_representable:
  assumes "\<bar>m\<bar> \<le> 2 ^ 53" "-1074 \<le> k"
  shows "rnd (of_int m * 2 powi k) = of_int m * 2 powi k"
proof (cases "m = 0")
  case False
  let ?x = "(of_int m * 2 powi k) :: rat"
  have x0: "?x \<noteq> 0" using False by simp
  have ax: "\<bar>?x\<bar> = of_int \<bar>m\<bar> * 2 powi k" by (simp add: abs_mult)
  have "(of_int \<bar>m\<bar> :: rat) \<le> 2 ^ 53"
    using assms(1) by (metis of_int_le_iff of_int_numeral of_int_power)
  then have bnd: "\<bar>?x\<bar> \<le> 2 powi (53 + k)"
    by (simp add: ax power_int_add)
  have il: "2 powi ilog2 \<bar>?x\<bar> \<le> \<bar>?x\<bar>"
    using ilog2_bounds(1) [of "\<bar>?x\<bar>"] x0 by simp
  have "\<exists>n. ?x / 2 powi ulp_exp ?x = of_int n"
  proof (cases "ulp_exp ?x \<le> k")
    case True
    define u where "u = ulp_exp ?x"
    obtain d where "k = u + int d" using True unfolding u_def by (metis zle_iff_zadd)
    then have "(2::rat) powi k = 2 powi u * 2 ^ d" by (simp add: power_int_add)
    then have "of_int m * 2 powi k / 2 powi u = (of_int (m * 2 ^ d) :: rat)" by simp
    then have "?x / 2 powi ulp_exp ?x = of_int (m * 2 ^ d)" by (simp only: u_def)
    then show ?thesis by blast
  next
    case F: False
    then have "ulp_exp ?x = ilog2 \<bar>?x\<bar> - 52" using assms(2) by (simp add: ulp_exp_def)
    then have "53 + k \<le> ilog2 \<bar>?x\<bar>" using F by linarith
    moreover have "ilog2 \<bar>?x\<bar> \<le> 53 + k"
      using il bnd by (metis order_trans powi_le_iff)
    ultimately have e: "ilog2 \<bar>?x\<bar> = 53 + k" by simp
    then have "\<bar>?x\<bar> = 2 powi (53 + k)" using il bnd by simp
    moreover have "ulp_exp ?x = k + 1" using e assms(2) by (simp add: ulp_exp_def)
    moreover have "\<bar>?x / 2 powi ulp_exp ?x\<bar> = \<bar>?x\<bar> / 2 powi ulp_exp ?x"
      by (simp only: abs_divide abs_of_pos [OF ulp_exp_pos])
    ultimately have "\<bar>?x / 2 powi ulp_exp ?x\<bar> = 2 powi (53 + k) / 2 powi (k + 1)"
      by (simp only:)
    also have "\<dots> = of_int (2 ^ 52)" by (simp add: power_int_add)
    finally have "\<bar>?x / 2 powi ulp_exp ?x\<bar> = of_int (2 ^ 52)" .
    then have "?x / 2 powi ulp_exp ?x = of_int (2 ^ 52) \<or> ?x / 2 powi ulp_exp ?x = of_int (- (2 ^ 52))"
      by (simp only: of_int_minus) linarith
    then show ?thesis by blast
  qed
  then obtain n where n: "?x / 2 powi ulp_exp ?x = of_int n" by blast
  then have "rnd ?x = of_int n * 2 powi ulp_exp ?x"
    using x0 by (simp only: rnd_def if_False round_half_even_of_int)
  also have "\<dots> = ?x" by (simp flip: n)
  finally show ?thesis .
qed simp

lemma rnd_of_int: "\<bar>m\<bar> \<le> 2 ^ 53 \<Longrightarrow> rnd (of_int m) = of_int m"
  using rnd_representable [of m 0] by simp

lemma rnd_mono_pos:
  assumes "0 < x" "x \<le> y"
  shows "rnd x \<le> rnd y"
proof (cases "ulp_exp x = ulp_exp y")
  case True
  have "round_half_even (x / 2 powi ulp_exp y) \<le> round_half_even (y / 2 powi ulp_exp y)"
    using assms(2) by (intro round_half_even_mono divide_right_mono) simp_all
  then have "(of_int (round_half_even (x / 2 powi ulp_exp y)) :: rat)
      \<le> of_int (round_half_even (y / 2 powi ulp_exp y))" by simp
  then show ?thesis
    using assms True by (simp add: rnd_def mult_right_mono)
next
  case False
  let ?a = "ulp_exp x" and ?b = "ulp_exp y"
  have "ilog2 x \<le> ilog2 y" by (rule ilog2_mono [OF assms])
  then have ab: "?a < ?b" and b: "?b = ilog2 y - 52"
    using False assms by (auto simp: ulp_exp_def)
  have ax: "ilog2 x + 1 \<le> ?a + 53" using assms by (simp add: ulp_exp_def)
  have "x \<le> 2 powi (?a + 53)"
    using ilog2_bounds(2) [OF assms(1)] ax by (meson less_imp_le order_trans powi_le_iff)
  then have "x / 2 powi ?a \<le> of_int (2 ^ 53)"
    by (simp add: power_int_add field_simps)
  then have "round_half_even (x / 2 powi ?a) \<le> 2 ^ 53"
    using round_half_even_mono round_half_even_of_int by metis
  then have "rnd x \<le> of_int (2 ^ 53) * 2 powi ?a"
    using assms by (simp only: rnd_def if_False of_int_le_iff mult_right_mono)
      (simp add: mult_right_mono del: of_int_power)
  also have "\<dots> = 2 powi (?a + 53)" by (simp add: power_int_add)
  also have "\<dots> \<le> 2 powi (?b + 52)" using ab by (simp add: powi_le_iff)
  also have "\<dots> = of_int (2 ^ 52) * 2 powi ?b" by (simp add: power_int_add)
  also have "\<dots> \<le> rnd y"
  proof -
    have "2 powi (?b + 52) \<le> y"
      using ilog2_bounds(1) [of y] assms b by simp
    then have "of_int (2 ^ 52) \<le> y / 2 powi ?b"
      by (simp add: power_int_add field_simps)
    then have "2 ^ 52 \<le> round_half_even (y / 2 powi ?b)"
      using round_half_even_mono round_half_even_of_int by metis
    then have "(of_int (2 ^ 52) :: rat) \<le> of_int (round_half_even (y / 2 powi ?b))"
      by (simp only: of_int_le_iff)
    then show ?thesis using assms by (simp add: rnd_def mult_right_mono)
  qed
  finally show ?thesis .
qed

lemma rnd_mono: "x \<le> y \<Longrightarrow> rnd x \<le> rnd y"
proof -
  assume xy: "x \<le> y"
  consider "0 < x" | "x \<le> 0" "0 \<le> y" | "y < 0" using xy by linarith
  then show ?thesis
  proof cases
    case 2
    then show ?thesis using rnd_nonneg [of y] rnd_nonneg [of "- x"] by (simp add: rnd_minus)
  next
    case 3
    then show ?thesis using rnd_mono_pos [of "- y" "- x"] xy by (simp add: rnd_minus)
  qed (use xy in \<open>simp add: rnd_mono_pos\<close>)
qed

text \<open>A threshold that is itself representable is never crossed by rounding.\<close>

lemma rnd_le_of_int: "\<bar>t\<bar> \<le> 2 ^ 53 \<Longrightarrow> x \<le> of_int t \<Longrightarrow> rnd x \<le> of_int t"
  using rnd_mono [of x "of_int t"] rnd_of_int by simp

lemma rnd_ge_of_int: "\<bar>t\<bar> \<le> 2 ^ 53 \<Longrightarrow> of_int t \<le> x \<Longrightarrow> of_int t \<le> rnd x"
  using rnd_mono [of "of_int t" x] rnd_of_int by simp

section \<open>Operations\<close>

text \<open>\<open>float(n)\<close> for an integer: the nearest double, \<open>None\<close> where Python raises \<open>OverflowError\<close>.\<close>

definition float_of_int :: "int \<Rightarrow> pyfloat option" where
  "float_of_int n = (case float_of_rat (of_int n) of Fin r \<Rightarrow> Some (Fin r) | _ \<Rightarrow> None)"

fun f_uminus :: "pyfloat \<Rightarrow> pyfloat" where
  "f_uminus (Fin a) = Fin (- a)"
| "f_uminus PosInf = NegInf"
| "f_uminus NegInf = PosInf"
| "f_uminus NaN = NaN"

fun f_add :: "pyfloat \<Rightarrow> pyfloat \<Rightarrow> pyfloat" where
  "f_add (Fin a) (Fin b) = float_of_rat (a + b)"
| "f_add NaN _ = NaN"
| "f_add _ NaN = NaN"
| "f_add PosInf NegInf = NaN"
| "f_add NegInf PosInf = NaN"
| "f_add PosInf _ = PosInf"
| "f_add NegInf _ = NegInf"
| "f_add _ PosInf = PosInf"
| "f_add _ NegInf = NegInf"

definition f_sub :: "pyfloat \<Rightarrow> pyfloat \<Rightarrow> pyfloat" where
  "f_sub x y = f_add x (f_uminus y)"

text \<open>Division by a finite positive constant (the tools divide by \<open>1e9\<close> only).\<close>

fun f_div_pos :: "pyfloat \<Rightarrow> rat \<Rightarrow> pyfloat" where
  "f_div_pos (Fin a) b = float_of_rat (a / b)"
| "f_div_pos x b = x"

fun f_abs :: "pyfloat \<Rightarrow> pyfloat" where
  "f_abs (Fin a) = Fin \<bar>a\<bar>"
| "f_abs NaN = NaN"
| "f_abs _ = PosInf"

fun f_less :: "pyfloat \<Rightarrow> pyfloat \<Rightarrow> bool" where
  "f_less (Fin a) (Fin b) = (a < b)"
| "f_less (Fin a) y = (y = PosInf)"
| "f_less NegInf y = (y \<noteq> NegInf \<and> y \<noteq> NaN)"
| "f_less _ _ = False"

fun f_eq :: "pyfloat \<Rightarrow> pyfloat \<Rightarrow> bool" where
  "f_eq (Fin a) (Fin b) = (a = b)"
| "f_eq PosInf PosInf = True"
| "f_eq NegInf NegInf = True"
| "f_eq _ _ = False"

definition f_le :: "pyfloat \<Rightarrow> pyfloat \<Rightarrow> bool" where
  "f_le x y = (f_less x y \<or> f_eq x y)"

lemma f_le_Fin [simp]: "f_le (Fin a) (Fin b) \<longleftrightarrow> a \<le> b"
  by (auto simp: f_le_def)

lemma f_less_PosInf_self: "\<not> f_less PosInf PosInf"
  by simp

lemma float_of_rat_Fin:
  "\<bar>x\<bar> \<le> of_int m \<Longrightarrow> m \<le> 2 ^ 53 \<Longrightarrow> float_of_rat x = Fin (rnd x)"
proof -
  assume a: "\<bar>x\<bar> \<le> of_int m" "m \<le> 2 ^ 53"
  then have "0 \<le> m" by (metis abs_ge_zero of_int_0_le_iff order_trans)
  with a have "rnd x \<le> of_int m" "rnd (- x) \<le> of_int m"
    by (auto intro!: rnd_le_of_int)
  moreover have "(of_int m :: rat) \<le> 2 ^ 53"
    using a(2) by (metis of_int_le_iff of_int_numeral of_int_power)
  moreover have "(2::rat) ^ 53 < 2 ^ 1024" by (rule power_strict_increasing) simp_all
  ultimately show ?thesis by (simp add: float_of_rat_def Let_def rnd_minus)
qed

lemma float_of_int_exact: "\<bar>n\<bar> \<le> 2 ^ 53 \<Longrightarrow> float_of_int n = Some (Fin (of_int n))"
  by (simp add: float_of_int_def float_of_rat_Fin [of _ "\<bar>n\<bar>"] rnd_of_int)

end
