(* ===== verification/Py_Value.thy ===== *)
theory Py_Value
  imports Py_Float
begin

text \<open>
  Python's dynamically typed values as \<open>json.loads\<close> produces them, and the built-in
  operations the analysis tools apply to them: attribute and membership tests, equality,
  ordering, subtraction and \<open>int()\<close>, each with the exception the operation raises on a
  value of the wrong type. A dict is an association list with distinct string keys, in
  insertion order. Strings are lists of 8-bit characters (code points below 256).
\<close>

datatype pyexc =
    AttributeError
  | TypeError
  | KeyError
  | ValueError
  | IndexError
  | OverflowError
  | StructError

datatype pyval =
    PNone
  | PBool bool
  | PInt int
  | PFloat pyfloat
  | PStr string
  | PList "pyval list"
  | PDict "(string \<times> pyval) list"

section \<open>Types and truth\<close>

text \<open>\<open>isinstance(v, int)\<close>: booleans are integers in Python.\<close>

fun is_int :: "pyval \<Rightarrow> bool" where
  "is_int (PInt i) = True"
| "is_int (PBool b) = True"
| "is_int _ = False"

text \<open>\<open>isinstance(v, int) and not isinstance(v, bool)\<close>.\<close>

fun is_int_strict :: "pyval \<Rightarrow> bool" where
  "is_int_strict (PInt i) = True"
| "is_int_strict _ = False"

fun is_str :: "pyval \<Rightarrow> bool" where
  "is_str (PStr s) = True"
| "is_str _ = False"

fun is_list :: "pyval \<Rightarrow> bool" where
  "is_list (PList xs) = True"
| "is_list _ = False"

fun is_dict :: "pyval \<Rightarrow> bool" where
  "is_dict (PDict kvs) = True"
| "is_dict _ = False"

fun truthy :: "pyval \<Rightarrow> bool" where
  "truthy PNone = False"
| "truthy (PBool b) = b"
| "truthy (PInt i) = (i \<noteq> 0)"
| "truthy (PFloat f) = (\<not> f_eq f (Fin 0))"
| "truthy (PStr s) = (s \<noteq> [])"
| "truthy (PList xs) = (xs \<noteq> [])"
| "truthy (PDict kvs) = (kvs \<noteq> [])"

section \<open>Numbers\<close>

text \<open>The exact numeric value: Python compares an \<open>int\<close> with a \<open>float\<close> without rounding.\<close>

fun num_of :: "pyval \<Rightarrow> pyfloat option" where
  "num_of (PBool b) = Some (Fin (if b then 1 else 0))"
| "num_of (PInt i) = Some (Fin (of_int i))"
| "num_of (PFloat f) = Some f"
| "num_of _ = None"

fun int_of :: "pyval \<Rightarrow> int" where
  "int_of (PBool b) = (if b then 1 else 0)"
| "int_of (PInt i) = i"
| "int_of _ = 0"

text \<open>Ordering: numbers with numbers, strings with strings, \<open>TypeError\<close> otherwise.\<close>

definition py_less :: "pyval \<Rightarrow> pyval \<Rightarrow> (pyexc, bool) res" where
  "py_less a b =
     (case (num_of a, num_of b) of
        (Some x, Some y) \<Rightarrow> Inr (f_less x y)
      | _ \<Rightarrow> (case (a, b) of (PStr s, PStr t) \<Rightarrow> Inr (s < t) | _ \<Rightarrow> Inl TypeError))"

definition py_le :: "pyval \<Rightarrow> pyval \<Rightarrow> (pyexc, bool) res" where
  "py_le a b =
     (case (num_of a, num_of b) of
        (Some x, Some y) \<Rightarrow> Inr (f_le x y)
      | _ \<Rightarrow> (case (a, b) of (PStr s, PStr t) \<Rightarrow> Inr (s \<le> t) | _ \<Rightarrow> Inl TypeError))"

text \<open>The operand of mixed arithmetic: an \<open>int\<close> is converted to \<open>float\<close> first.\<close>

fun as_float :: "pyval \<Rightarrow> (pyexc, pyfloat) res" where
  "as_float (PFloat f) = Inr f"
| "as_float (PInt i) = (case float_of_int i of None \<Rightarrow> Inl OverflowError | Some f \<Rightarrow> Inr f)"
| "as_float (PBool b) = Inr (Fin (if b then 1 else 0))"
| "as_float _ = Inl TypeError"

definition py_minus :: "pyval \<Rightarrow> pyval \<Rightarrow> (pyexc, pyval) res" where
  "py_minus a b =
     (if is_int a \<and> is_int b then Inr (PInt (int_of a - int_of b))
      else bindR (as_float a) (\<lambda>x. bindR (as_float b) (\<lambda>y. Inr (PFloat (f_sub x y)))))"

text \<open>\<open>v / 1e9\<close>.\<close>

definition py_div_1e9 :: "pyval \<Rightarrow> (pyexc, pyfloat) res" where
  "py_div_1e9 v = bindR (as_float v) (\<lambda>x. Inr (f_div_pos x 1000000000))"

section \<open>Equality\<close>

fun py_eq :: "pyval \<Rightarrow> pyval \<Rightarrow> bool"
  and py_eq_list :: "pyval list \<Rightarrow> pyval list \<Rightarrow> bool"
  and py_eq_items :: "(string \<times> pyval) list \<Rightarrow> (string \<times> pyval) list \<Rightarrow> bool"
where
  "py_eq (PStr s) v = (case v of PStr t \<Rightarrow> s = t | _ \<Rightarrow> False)"
| "py_eq PNone v = (v = PNone)"
| "py_eq (PList xs) v = (case v of PList ys \<Rightarrow> py_eq_list xs ys | _ \<Rightarrow> False)"
| "py_eq (PDict kvs) v =
     (case v of PDict lws \<Rightarrow> length kvs = length lws \<and> py_eq_items kvs lws | _ \<Rightarrow> False)"
| "py_eq (PBool b) v =
     (case num_of v of None \<Rightarrow> False | Some y \<Rightarrow> f_eq (Fin (if b then 1 else 0)) y)"
| "py_eq (PInt i) v = (case num_of v of None \<Rightarrow> False | Some y \<Rightarrow> f_eq (Fin (of_int i)) y)"
| "py_eq (PFloat f) v = (case num_of v of None \<Rightarrow> False | Some y \<Rightarrow> f_eq f y)"
| "py_eq_list [] ys = (ys = [])"
| "py_eq_list (x # xs) ys =
     (case ys of [] \<Rightarrow> False | y # ys' \<Rightarrow> py_eq x y \<and> py_eq_list xs ys')"
| "py_eq_items [] lws = True"
| "py_eq_items ((k, v) # kvs) lws =
     ((case map_of lws k of None \<Rightarrow> False | Some w \<Rightarrow> py_eq v w) \<and> py_eq_items kvs lws)"

text \<open>\<open>v in ("a", "b", ...)\<close>: membership in a tuple or list of strings, by equality.\<close>

definition py_in_strs :: "pyval \<Rightarrow> string list \<Rightarrow> bool" where
  "py_in_strs v ss = (case v of PStr s \<Rightarrow> s \<in> set ss | _ \<Rightarrow> False)"

lemma py_eq_PStr_right [simp]: "py_eq v (PStr s) \<longleftrightarrow> v = PStr s"
  by (cases v) auto

lemma f_eq_Fin_iff [simp]: "f_eq (Fin a) x \<longleftrightarrow> x = Fin a" "f_eq x (Fin a) \<longleftrightarrow> x = Fin a"
  by (cases x; auto)+

lemma py_eq_PInt_right: "py_eq v (PInt i) \<longleftrightarrow> num_of v = Some (Fin (of_int i))"
  by (cases v) auto

lemma py_in_strs_iff: "py_in_strs v ss \<longleftrightarrow> (\<exists>s \<in> set ss. v = PStr s)"
  by (auto simp: py_in_strs_def split: pyval.splits)

section \<open>Dicts and membership\<close>

text \<open>\<open>v.get(k)\<close>: only dicts have \<open>get\<close>.\<close>

fun py_get :: "pyval \<Rightarrow> string \<Rightarrow> (pyexc, pyval option) res" where
  "py_get (PDict kvs) k = Inr (map_of kvs k)"
| "py_get _ k = Inl AttributeError"

definition py_get_default :: "pyval \<Rightarrow> string \<Rightarrow> pyval \<Rightarrow> (pyexc, pyval) res" where
  "py_get_default v k d =
     bindR (py_get v k) (\<lambda>r. Inr (case r of None \<Rightarrow> d | Some w \<Rightarrow> w))"

text \<open>\<open>k in v\<close> for a string \<open>k\<close>: a dict key, a list element or a substring.\<close>

definition contains_sub :: "string \<Rightarrow> string \<Rightarrow> bool" where
  "contains_sub k s = list_ex (\<lambda>t. prefix k t) (suffixes s)"

fun py_contains :: "string \<Rightarrow> pyval \<Rightarrow> (pyexc, bool) res" where
  "py_contains k (PDict kvs) = Inr (k \<in> fst ` set kvs)"
| "py_contains k (PList xs) = Inr (PStr k \<in> set xs)"
| "py_contains k (PStr s) = Inr (contains_sub k s)"
| "py_contains k _ = Inl TypeError"

text \<open>\<open>v in d\<close> for a dict with string keys: a list or dict is not hashable.\<close>

fun py_key_in :: "pyval \<Rightarrow> string list \<Rightarrow> (pyexc, bool) res" where
  "py_key_in (PStr s) ks = Inr (s \<in> set ks)"
| "py_key_in (PList _) ks = Inl TypeError"
| "py_key_in (PDict _) ks = Inl TypeError"
| "py_key_in _ ks = Inr False"

section \<open>Conversion to int\<close>

definition py_space :: "char \<Rightarrow> bool" where
  "py_space c = (let n = of_char c :: nat in (9 \<le> n \<and> n \<le> 13) \<or> (28 \<le> n \<and> n \<le> 32) \<or> n = 133 \<or> n = 160)"

definition py_strip :: "string \<Rightarrow> string" where
  "py_strip s = rev (dropWhile py_space (rev (dropWhile py_space s)))"

definition is_digit_char :: "char \<Rightarrow> bool" where
  "is_digit_char c = (let n = of_char c :: nat in 48 \<le> n \<and> n \<le> 57)"

text \<open>Digits with single underscores between them; \<open>acc\<close> is the value read so far.\<close>

fun dec_digits :: "nat \<Rightarrow> nat \<Rightarrow> string \<Rightarrow> (nat \<times> nat) option" where
  "dec_digits acc n [] = None"
| "dec_digits acc n [c] =
     (if is_digit_char c then Some (acc * 10 + (of_char c - 48), Suc n) else None)"
| "dec_digits acc n (c # d # cs) =
     (if \<not> is_digit_char c then None
      else if d = CHR ''_'' then dec_digits (acc * 10 + (of_char c - 48)) (Suc n) cs
      else dec_digits (acc * 10 + (of_char c - 48)) (Suc n) (d # cs))"

text \<open>\<open>int(s)\<close>, with the interpreter's limit of 4300 digits.\<close>

definition int_of_string :: "string \<Rightarrow> int option" where
  "int_of_string s =
     (let t = py_strip s;
          neg = (t \<noteq> [] \<and> hd t = CHR ''-'');
          body = (if t \<noteq> [] \<and> (hd t = CHR ''-'' \<or> hd t = CHR ''+'') then tl t else t)
      in case dec_digits 0 0 body of
           None \<Rightarrow> None
         | Some (v, n) \<Rightarrow> if 4300 < n then None else Some (if neg then - int v else int v))"

fun py_int :: "pyval \<Rightarrow> (pyexc, int) res" where
  "py_int (PInt i) = Inr i"
| "py_int (PBool b) = Inr (if b then 1 else 0)"
| "py_int (PFloat (Fin r)) = Inr (if 0 \<le> r then \<lfloor>r\<rfloor> else \<lceil>r\<rceil>)"
| "py_int (PFloat NaN) = Inl ValueError"
| "py_int (PFloat _) = Inl OverflowError"
| "py_int (PStr s) = (case int_of_string s of None \<Rightarrow> Inl ValueError | Some i \<Rightarrow> Inr i)"
| "py_int _ = Inl TypeError"

section \<open>Lemmas\<close>

lemma py_get_Inr_iff [res_iff]: "py_get v k = Inr r \<longleftrightarrow> (\<exists>kvs. v = PDict kvs \<and> r = map_of kvs k)"
  by (cases v) auto

lemma py_get_dict: "is_dict v \<Longrightarrow> \<exists>r. py_get v k = Inr r"
  by (cases v) auto

lemma py_get_default_Inr_iff [res_iff]:
  "py_get_default v k d = Inr w \<longleftrightarrow>
   (\<exists>kvs. v = PDict kvs \<and> w = (case map_of kvs k of None \<Rightarrow> d | Some x \<Rightarrow> x))"
  by (cases v) (auto simp: py_get_default_def)

lemma py_get_default_PDict [simp]:
  "py_get_default (PDict kvs) k d = Inr (case map_of kvs k of None \<Rightarrow> d | Some w \<Rightarrow> w)"
  by (simp add: py_get_default_def)

lemma is_int_num_of: "is_int v \<Longrightarrow> num_of v = Some (Fin (of_int (int_of v)))"
  by (cases v) auto

lemma is_int_less: "is_int a \<Longrightarrow> is_int b \<Longrightarrow> py_less a b = Inr (int_of a < int_of b)"
  by (simp add: py_less_def is_int_num_of)

lemma is_int_le: "is_int a \<Longrightarrow> is_int b \<Longrightarrow> py_le a b = Inr (int_of a \<le> int_of b)"
  by (simp add: py_le_def is_int_num_of)

lemma is_int_minus: "is_int a \<Longrightarrow> is_int b \<Longrightarrow> py_minus a b = Inr (PInt (int_of a - int_of b))"
  by (simp add: py_minus_def)

lemma is_int_eq_int: "is_int a \<Longrightarrow> py_eq a (PInt i) \<longleftrightarrow> int_of a = i"
  by (simp add: py_eq_PInt_right is_int_num_of)

lemma py_eq_ints: "is_int a \<Longrightarrow> is_int b \<Longrightarrow> py_eq a b \<longleftrightarrow> int_of a = int_of b"
  by (cases a; cases b) (auto split: if_splits)

section \<open>Nanoseconds as seconds\<close>

text \<open>
  A duration in integer nanoseconds, divided by \<open>1e9\<close> in doubles, compares with a small
  whole number of seconds exactly as the integers do: neither rounding crosses it.
\<close>

lemma py_div_1e9_PInt:
  assumes "py_div_1e9 (PInt d) = Inr s"
  shows "s = float_of_rat (rnd (of_int d) / 1000000000)"
  using assms
  by (auto simp: py_div_1e9_def bindR_Inr_iff float_of_int_def float_of_rat_def Let_def
      split: option.splits pyfloat.splits if_splits)

lemma f_less_float_of_rat:
  assumes "\<bar>T\<bar> \<le> 2 ^ 53"
  shows "f_less (Fin (of_int T)) (float_of_rat x) \<longleftrightarrow> of_int T < rnd x"
    and "f_less (float_of_rat x) (Fin (of_int T)) \<longleftrightarrow> rnd x < of_int T"
proof -
  have "of_int \<bar>T\<bar> \<le> (of_int (2 ^ 53) :: rat)" using assms by (simp only: of_int_le_iff)
  then have "- (2 ^ 1024) < (of_int T :: rat)" "(of_int T :: rat) < 2 ^ 1024" by auto
  then show "f_less (Fin (of_int T)) (float_of_rat x) \<longleftrightarrow> of_int T < rnd x"
    and "f_less (float_of_rat x) (Fin (of_int T)) \<longleftrightarrow> rnd x < of_int T"
    by (auto simp: float_of_rat_def Let_def)
qed

lemma rnd_next: "\<bar>T\<bar> \<le> 4000 \<Longrightarrow> rnd (of_int T + 1 / 2 ^ 41) = of_int T + 1 / 2 ^ 41"
  "\<bar>T\<bar> \<le> 4000 \<Longrightarrow> rnd (of_int T - 1 / 2 ^ 41) = of_int T - 1 / 2 ^ 41"
  using rnd_representable [of "T * 2 ^ 41 + 1" "-41"] rnd_representable [of "T * 2 ^ 41 - 1" "-41"]
  by (simp_all add: power_int_minus field_simps)

lemma seconds_compare:
  assumes s: "py_div_1e9 (PInt d) = Inr s" and T: "0 \<le> T" "T \<le> 4000"
  shows "f_less (Fin (of_int T)) s \<longleftrightarrow> T * 1000000000 < d"
    and "f_less s (Fin (of_int T)) \<longleftrightarrow> d < T * 1000000000"
proof -
  let ?n = "T * 1000000000"
  let ?x = "rnd (of_int d) / 1000000000"
  have n: "\<bar>?n + 1\<bar> \<le> 2 ^ 53" "\<bar>?n - 1\<bar> \<le> 2 ^ 53" "\<bar>?n\<bar> \<le> 2 ^ 53" using T by auto
  have up: "?x \<ge> of_int T" if "?n \<le> d"
    using rnd_ge_of_int [OF n(3), of "of_int d"] that by (simp add: field_simps flip: of_int_le_iff [where 'a=rat])
  have down: "?x \<le> of_int T" if "d \<le> ?n"
    using rnd_le_of_int [OF n(3), of "of_int d"] that by (simp add: field_simps flip: of_int_le_iff [where 'a=rat])
  have gt: "of_int T < rnd ?x" if "?n < d"
  proof -
    have "of_int (?n + 1) \<le> rnd (of_int d)"
      using that by (intro rnd_ge_of_int n(1)) linarith
    then have "of_int T + 1 / 2 ^ 41 \<le> ?x" by (simp add: field_simps)
    from rnd_mono [OF this] have "of_int T + 1 / 2 ^ 41 \<le> rnd ?x" using rnd_next(1) T by simp
    then show ?thesis by (rule less_le_trans [rotated]) simp
  qed
  have lt: "rnd ?x < of_int T" if "d < ?n"
  proof -
    have "rnd (of_int d) \<le> of_int (?n - 1)"
      using that by (intro rnd_le_of_int n(2)) linarith
    then have "?x \<le> of_int T - 1 / 2 ^ 41" by (simp add: field_simps)
    from rnd_mono [OF this] have "rnd ?x \<le> of_int T - 1 / 2 ^ 41" using rnd_next(2) T by simp
    then show ?thesis by (rule le_less_trans) simp
  qed
  have T53: "\<bar>T\<bar> \<le> 2 ^ 53" using T by simp
  show "f_less (Fin (of_int T)) s \<longleftrightarrow> ?n < d"
    unfolding py_div_1e9_PInt [OF s] f_less_float_of_rat [OF T53]
    using gt down rnd_le_of_int [OF T53, of ?x] by (cases "?n < d") auto
  show "f_less s (Fin (of_int T)) \<longleftrightarrow> d < ?n"
    unfolding py_div_1e9_PInt [OF s] f_less_float_of_rat [OF T53]
    using lt up rnd_ge_of_int [OF T53, of ?x] by (cases "d < ?n") auto
qed

end
