(* ===== verification/Bootimg.thy ===== *)
theory Bootimg
  imports Py_Bytes
begin

text \<open>
  \<open>tools/bootimg_info.py\<close>: inspection of Android boot and vendor_boot images (header
  versions 3 and 4) and of the AVB footer. Python's unbounded integers that the code only
  ever computes non-negative are \<open>nat\<close>; each \<open>raise\<close> is a constructor of
  \<open>boot_error\<close>, \<open>struct.error\<close> included. The lemmas show that an accepted image
  has all its sections inside the file, page aligned and disjoint, that no input makes
  \<open>struct\<close> raise, and that the checks accept exactly the layouts they describe.
\<close>

section \<open>Data\<close>

datatype boot_error =
    Avb_Incoherent
  | Vbmeta_Range
  | Boot_Truncated
  | Boot_Version nat
  | Boot_Header_Size
  | Boot_Payload_Range
  | Vendor_Truncated
  | Vendor_Version_Or_Page
  | Vendor_Header_Size
  | Vendor_Payload_Range
  | Vendor_V4_Truncated
  | Vendor_Table_Zero_Entry
  | Vendor_Table_Small
  | Vendor_Table_Range
  | Unknown_Magic
  | Struct_Error

record avb_footer =
  version_major :: nat
  version_minor :: nat
  original_image_size :: nat
  vbmeta_offset :: nat
  vbmeta_size :: nat
  partition_image_size :: nat
  partition_slack :: nat

record boot_report =
  b_header_version :: nat
  b_header_size :: nat
  b_page_size :: nat
  b_kernel_size :: nat
  b_kernel_offset :: nat
  b_ramdisk_size :: nat
  b_ramdisk_offset :: nat
  b_ramdisk_compression :: string
  b_os_version_raw :: nat
  b_signature_size :: "nat option"

record vendor_table =
  t_size :: nat
  t_entry_count :: nat
  t_entry_size :: nat
  t_bootconfig_size :: nat
  t_table_offset :: nat
  t_bootconfig_offset :: nat

record vendor_report =
  v_header_version :: nat
  v_header_size :: nat
  v_page_size :: nat
  v_ramdisk_size :: nat
  v_ramdisk_offset :: nat
  v_ramdisk_compression :: string
  v_dtb_size :: nat
  v_dtb_offset :: nat
  v_table :: "vendor_table option"

datatype image_report = Boot boot_report | Vendor_Boot vendor_report

record inspection =
  i_image :: image_report
  i_path :: string
  i_file_size :: nat
  i_avb_footer :: "avb_footer option"

definition boot_magic :: "byte list" where "boot_magic = ascii ''ANDROID!''"
definition vendor_boot_magic :: "byte list" where "vendor_boot_magic = ascii ''VNDRBOOT''"
definition avb_footer_magic :: "byte list" where "avb_footer_magic = ascii ''AVBf''"

definition boot_header_min :: "nat \<Rightarrow> nat" where
  "boot_header_min v = (if v = 3 then 1580 else 1584)"

definition vendor_boot_header_min :: "nat \<Rightarrow> nat" where
  "vendor_boot_header_min v = (if v = 3 then 2112 else 2128)"

section \<open>Operations\<close>

definition align :: "nat \<Rightarrow> nat \<Rightarrow> nat" where
  "align value page_size = (value + page_size - 1) div page_size * page_size"

definition compression_signatures :: "(byte list \<times> string) list" where
  "compression_signatures =
     [([0x02, 0x21, 0x4c, 0x18], ''lz4-legacy''),
      ([0x04, 0x22, 0x4d, 0x18], ''lz4-frame''),
      ([0x1f, 0x8b], ''gzip''),
      ([0xfd, 0x37, 0x7a, 0x58, 0x5a, 0x00], ''xz''),
      (ascii ''070701'', ''cpio-newc'')]"

definition compression_name :: "byte list \<Rightarrow> string" where
  "compression_name p =
     (case find (\<lambda>(magic, name). starts_with p magic) compression_signatures of
        Some (magic, name) \<Rightarrow> name | None \<Rightarrow> ''unknown'')"

definition parse_avb_footer :: "byte list \<Rightarrow> (boot_error, avb_footer option) res" where
  "parse_avb_footer data =
     (if length data < 64
         \<or> pyslice data (length data - 64) (length data - 60) \<noteq> avb_footer_magic
      then Inr None
      else
        bindR (unpack_fields Struct_Error be_nat 4 2 data (length data - 60)) (\<lambda>ver.
        bindR (unpack_fields Struct_Error be_nat 8 3 data (length data - 52)) (\<lambda>sz.
        let major = ver ! 0; minor = ver ! 1;
            original_size = sz ! 0; vb_offset = sz ! 1; vb_size = sz ! 2;
            footer_offset = length data - 64
        in guardR (\<not> (major \<noteq> 1 \<or> original_size > length data)) Avb_Incoherent
          (guardR (\<not> (original_size > vb_offset \<or> vb_size = 0 \<or> vb_offset > footer_offset
                       \<or> vb_size > footer_offset - vb_offset)) Vbmeta_Range
            (Inr (Some \<lparr> version_major = major, version_minor = minor,
                         original_image_size = original_size, vbmeta_offset = vb_offset,
                         vbmeta_size = vb_size, partition_image_size = length data,
                         partition_slack = length data - original_size \<rparr>))))))"

definition ramdisk_compression :: "byte list \<Rightarrow> nat \<Rightarrow> nat \<Rightarrow> string" where
  "ramdisk_compression data off sz =
     (if sz \<noteq> 0 then compression_name (pyslice data off (off + min sz 16)) else ''none'')"

definition parse_boot :: "byte list \<Rightarrow> (boot_error, boot_report) res" where
  "parse_boot data =
     guardR (\<not> length data < 44) Boot_Truncated
     (bindR (unpack_fields Struct_Error le_nat 4 4 data 8) (\<lambda>fs.
      bindR (unpack_fields Struct_Error le_nat 4 1 data 40) (\<lambda>vs.
      let kernel_size = fs ! 0; ramdisk_size = fs ! 1; os_version = fs ! 2;
          header_size = fs ! 3; header_version = vs ! 0
      in guardR (header_version \<in> {3, 4}) (Boot_Version header_version)
        (guardR (\<not> (header_size < boot_header_min header_version \<or> header_size > length data))
           Boot_Header_Size
          (let page_size = 4096;
               kernel_offset = align header_size page_size;
               ramdisk_offset = align (kernel_offset + kernel_size) page_size
           in guardR (\<not> ramdisk_offset + ramdisk_size > length data) Boot_Payload_Range
             (let result =
                \<lparr> b_header_version = header_version, b_header_size = header_size,
                  b_page_size = page_size, b_kernel_size = kernel_size,
                  b_kernel_offset = kernel_offset, b_ramdisk_size = ramdisk_size,
                  b_ramdisk_offset = ramdisk_offset,
                  b_ramdisk_compression = ramdisk_compression data ramdisk_offset ramdisk_size,
                  b_os_version_raw = os_version, b_signature_size = None \<rparr>
              in if header_version = 4 \<and> header_size \<ge> 1584
                 then bindR (unpack_fields Struct_Error le_nat 4 1 data 1580) (\<lambda>sg.
                        Inr (result \<lparr> b_signature_size := Some (sg ! 0) \<rparr>))
                 else Inr result))))))"

text \<open>The version 4 extension of \<open>parse_vendor_boot\<close>: ramdisk table and bootconfig.\<close>

definition vendor_v4_extension ::
    "byte list \<Rightarrow> nat \<Rightarrow> nat \<Rightarrow> nat \<Rightarrow> (boot_error, vendor_table) res" where
  "vendor_v4_extension data page_size dtb_offset dtb_size =
     guardR (\<not> length data < 2128) Vendor_V4_Truncated
     (bindR (unpack_fields Struct_Error le_nat 4 4 data 2112) (\<lambda>ts.
      let table_size = ts ! 0; entry_count = ts ! 1; entry_size = ts ! 2;
          bootconfig_size = ts ! 3
      in guardR (\<not> (entry_count \<noteq> 0 \<and> entry_size = 0)) Vendor_Table_Zero_Entry
        (guardR (\<not> entry_count * entry_size > table_size) Vendor_Table_Small
          (let table_offset = align (dtb_offset + dtb_size) page_size;
               bootconfig_offset = align (table_offset + table_size) page_size
           in guardR (\<not> bootconfig_offset + bootconfig_size > length data) Vendor_Table_Range
                (Inr \<lparr> t_size = table_size, t_entry_count = entry_count,
                       t_entry_size = entry_size, t_bootconfig_size = bootconfig_size,
                       t_table_offset = table_offset,
                       t_bootconfig_offset = bootconfig_offset \<rparr>)))))"

definition parse_vendor_boot :: "byte list \<Rightarrow> (boot_error, vendor_report) res" where
  "parse_vendor_boot data =
     guardR (\<not> length data < 2112) Vendor_Truncated
     (bindR (unpack_fields Struct_Error le_nat 4 2 data 8) (\<lambda>hp.
      let header_version = hp ! 0; page_size = hp ! 1
      in guardR (\<not> (header_version \<notin> {3, 4} \<or> page_size = 0)) Vendor_Version_Or_Page
        (bindR (unpack_fields Struct_Error le_nat 4 1 data 24) (\<lambda>rs.
         bindR (unpack_fields Struct_Error le_nat 4 2 data 2096) (\<lambda>hd.
         let ramdisk_size = rs ! 0; header_size = hd ! 0; dtb_size = hd ! 1
         in guardR (\<not> (header_size < vendor_boot_header_min header_version
                         \<or> header_size > length data)) Vendor_Header_Size
           (let ramdisk_offset = align header_size page_size;
                dtb_offset = align (ramdisk_offset + ramdisk_size) page_size
            in guardR (\<not> dtb_offset + dtb_size > length data) Vendor_Payload_Range
              (let result =
                 \<lparr> v_header_version = header_version, v_header_size = header_size,
                   v_page_size = page_size, v_ramdisk_size = ramdisk_size,
                   v_ramdisk_offset = ramdisk_offset,
                   v_ramdisk_compression = ramdisk_compression data ramdisk_offset ramdisk_size,
                   v_dtb_size = dtb_size, v_dtb_offset = dtb_offset, v_table = None \<rparr>
               in if header_version = 4
                  then bindR (vendor_v4_extension data page_size dtb_offset dtb_size) (\<lambda>t.
                         Inr (result \<lparr> v_table := Some t \<rparr>))
                  else Inr result)))))))"

definition inspect :: "string \<Rightarrow> byte list \<Rightarrow> (boot_error, inspection) res" where
  "inspect path data =
     bindR (if starts_with data boot_magic
            then bindR (parse_boot data) (\<lambda>r. Inr (Boot r))
            else if starts_with data vendor_boot_magic
            then bindR (parse_vendor_boot data) (\<lambda>r. Inr (Vendor_Boot r))
            else Inl Unknown_Magic) (\<lambda>image.
     bindR (parse_avb_footer data) (\<lambda>footer.
       Inr \<lparr> i_image = image, i_path = path, i_file_size = length data,
             i_avb_footer = footer \<rparr>))"

section \<open>Alignment\<close>

lemma align_ge: "0 < p \<Longrightarrow> v \<le> align v p"
proof -
  assume p: "0 < p"
  have "v + p - 1 < ((v + p - 1) div p) * p + p"
    using p by (metis add_less_cancel_left div_mult_mod_eq mod_less_divisor)
  then show ?thesis using p by (simp add: align_def)
qed

lemma align_dvd: "p dvd align v p"
  by (simp add: align_def)

lemma align_le_multiple:
  assumes "0 < p" "v \<le> k * p"
  shows "align v p \<le> k * p"
proof -
  have "(v + p - 1) div p \<le> (p - 1 + k * p) div p"
    using assms by (intro div_le_mono) linarith
  also have "\<dots> = k" using assms by (simp only: div_mult_self1) simp
  finally show ?thesis by (simp add: align_def)
qed

lemma align_lt: "0 < p \<Longrightarrow> align v p < v + p"
  by (metis Suc_pred' add_gr_0 align_def div_times_less_eq_dividend less_Suc_eq_le)

section \<open>Accepted layouts\<close>

text \<open>
  The sections of an image, as \<open>(offset, size)\<close> pairs in file order, starting with the
  header at offset 0. \<open>sections_ok p n ss\<close>: every section after the header starts on
  a multiple of the page size, sections do not overlap and follow each other in order, and
  the last one ends inside a file of \<open>n\<close> bytes.
\<close>

fun sections_ok :: "nat \<Rightarrow> nat \<Rightarrow> nat \<Rightarrow> (nat \<times> nat) list \<Rightarrow> bool" where
  "sections_ok p n start [] = (start \<le> n)"
| "sections_ok p n start ((off, sz) # ss) =
     (start \<le> off \<and> p dvd off \<and> off < start + p \<and> sections_ok p n (off + sz) ss)"

definition boot_sections :: "boot_report \<Rightarrow> (nat \<times> nat) list" where
  "boot_sections r =
     [(b_kernel_offset r, b_kernel_size r), (b_ramdisk_offset r, b_ramdisk_size r)]"

definition vendor_sections :: "vendor_report \<Rightarrow> (nat \<times> nat) list" where
  "vendor_sections r =
     [(v_ramdisk_offset r, v_ramdisk_size r), (v_dtb_offset r, v_dtb_size r)] @
     (case v_table r of None \<Rightarrow> []
      | Some t \<Rightarrow> [(t_table_offset t, t_size t), (t_bootconfig_offset t, t_bootconfig_size t)])"

lemma sections_ok_start_le: "sections_ok p n start ss \<Longrightarrow> start \<le> n"
  by (induction p n start ss rule: sections_ok.induct) auto

lemma sections_ok_in_range:
  "sections_ok p n start ss \<Longrightarrow> (off, sz) \<in> set ss \<Longrightarrow> start \<le> off \<and> off + sz \<le> n \<and> p dvd off"
proof (induction p n start ss rule: sections_ok.induct)
  case (2 p n start o1 s1 ss)
  then show ?case using sections_ok_start_le by fastforce
qed simp

lemma sections_ok_disjoint:
  "sections_ok p n start ss \<Longrightarrow>
   sorted_wrt (\<lambda>(o1, s1) (o2, s2). disjoint_ranges o1 s1 o2 s2) ss"
proof (induction p n start ss rule: sections_ok.induct)
  case (2 p n start o1 s1 ss)
  then have "\<forall>(o2, s2) \<in> set ss. disjoint_ranges o1 s1 o2 s2"
    by (auto intro!: disjoint_rangesI dest: sections_ok_in_range)
  with 2 show ?case by auto
qed simp

lemmas align_facts = align_ge align_dvd align_lt

lemmas parse_boot_defs = parse_boot_def Let_def

lemma parse_boot_fields:
  assumes "parse_boot data = Inr r"
  shows "44 \<le> length data"
    and "b_header_version r = field_at le_nat 4 data 40" "b_header_version r \<in> {3, 4}"
    and "b_header_size r = field_at le_nat 4 data 20"
    and "boot_header_min (b_header_version r) \<le> b_header_size r" "b_header_size r \<le> length data"
    and "b_kernel_size r = field_at le_nat 4 data 8"
    and "b_ramdisk_size r = field_at le_nat 4 data 12"
    and "b_kernel_offset r = align (b_header_size r) 4096"
    and "b_ramdisk_offset r = align (b_kernel_offset r + b_kernel_size r) 4096"
    and "b_ramdisk_offset r + b_ramdisk_size r \<le> length data"
    and "b_page_size r = 4096"
    and "b_signature_size r
         = (if b_header_version r = 4 then Some (field_at le_nat 4 data 1580) else None)"
  using assms
  by (auto simp: parse_boot_defs res_iff boot_header_min_def split: if_splits)

lemma vendor_v4_extension_fields:
  assumes "vendor_v4_extension data p off sz = Inr t"
  shows "t_table_offset t = align (off + sz) p"
    and "t_bootconfig_offset t = align (t_table_offset t + t_size t) p"
    and "t_bootconfig_offset t + t_bootconfig_size t \<le> length data"
    and "t_entry_count t * t_entry_size t \<le> t_size t"
  using assms
  by (auto simp: vendor_v4_extension_def Let_def res_iff)

lemma parse_vendor_boot_fields:
  assumes "parse_vendor_boot data = Inr r"
  shows "0 < v_page_size r" "v_header_version r \<in> {3, 4}"
    and "vendor_boot_header_min (v_header_version r) \<le> v_header_size r"
    and "v_ramdisk_offset r = align (v_header_size r) (v_page_size r)"
    and "v_dtb_offset r = align (v_ramdisk_offset r + v_ramdisk_size r) (v_page_size r)"
    and "v_dtb_offset r + v_dtb_size r \<le> length data"
    and "v_table r = None \<longleftrightarrow> v_header_version r = 3"
    and "\<And>t. v_table r = Some t \<Longrightarrow>
           vendor_v4_extension data (v_page_size r) (v_dtb_offset r) (v_dtb_size r) = Inr t"
  using assms
  by (auto simp: parse_vendor_boot_def Let_def res_iff split: if_splits)

text \<open>
  An accepted boot image: kernel and ramdisk start on page boundaries, lie
  inside the file after the header, in order and without overlap, and no alignment gap
  reaches a full page.
\<close>
theorem parse_boot_layout:
  assumes "parse_boot data = Inr r"
  shows "sections_ok (b_page_size r) (length data) (b_header_size r) (boot_sections r)"
  using parse_boot_fields [OF assms] align_facts
  by (simp add: boot_sections_def)

text \<open>
  Claim C38. An accepted vendor_boot image: ramdisk, device tree and, in version 4, the
  ramdisk table and bootconfig are page aligned, in order, disjoint and inside the file,
  and the table's entries fit in the table.
\<close>
theorem parse_vendor_boot_layout:
  assumes "parse_vendor_boot data = Inr r"
  shows "sections_ok (v_page_size r) (length data) (v_header_size r) (vendor_sections r)
    \<and> (case v_table r of None \<Rightarrow> v_header_version r = 3
       | Some t \<Rightarrow> v_header_version r = 4 \<and> t_entry_count t * t_entry_size t \<le> t_size t)"
proof (cases "v_table r")
  case None
  with parse_vendor_boot_fields [OF assms] align_facts show ?thesis
    by (simp add: vendor_sections_def)
next
  case (Some t)
  note f = parse_vendor_boot_fields [OF assms]
  note g = vendor_v4_extension_fields [OF f(8) [OF Some]]
  have "v_header_version r = 4" using f(2,7) Some by simp
  with f(1,4,5,6) g Some align_facts show ?thesis
    by (simp add: vendor_sections_def)
qed

lemma parse_boot_no_struct_error: "parse_boot data \<noteq> Inl Struct_Error"
  by (auto simp: parse_boot_defs bindR_Inl_iff guardR_Inl_iff unpack_fields_Inl_iff
      unpack_fields_Inr_iff boot_header_min_def split: if_splits)

lemma vendor_v4_extension_no_struct_error:
  "vendor_v4_extension data p off sz \<noteq> Inl Struct_Error"
  by (auto simp: vendor_v4_extension_def Let_def bindR_Inl_iff guardR_Inl_iff
      unpack_fields_Inl_iff)

lemma parse_vendor_boot_no_struct_error: "parse_vendor_boot data \<noteq> Inl Struct_Error"
  by (auto simp: parse_vendor_boot_def Let_def bindR_Inl_iff guardR_Inl_iff
      unpack_fields_Inl_iff vendor_v4_extension_no_struct_error split: if_splits)

lemma parse_avb_footer_no_struct_error: "parse_avb_footer data \<noteq> Inl Struct_Error"
  by (auto simp: parse_avb_footer_def Let_def bindR_Inl_iff guardR_Inl_iff
      unpack_fields_Inl_iff split: if_splits)

text \<open>
  Whatever the bytes, \<open>inspect\<close> never fails inside \<open>struct\<close>: each read is
  covered by an explicit length check before it, so every rejection is one of the
  tool's own messages.
\<close>
theorem inspect_no_struct_error: "inspect path data \<noteq> Inl Struct_Error"
  by (auto simp: inspect_def bindR_Inl_iff parse_boot_no_struct_error
      parse_vendor_boot_no_struct_error parse_avb_footer_no_struct_error)

lemma parse_vendor_boot_v4_check_dead: "parse_vendor_boot data \<noteq> Inl Vendor_V4_Truncated"
  by (auto simp: parse_vendor_boot_def vendor_v4_extension_def Let_def bindR_Inl_iff
      guardR_Inl_iff unpack_fields_Inl_iff vendor_boot_header_min_def split: if_splits)

text \<open>
  A footer that is reported describes a VBMeta blob that lies after the original
  image and before the footer, so the three regions of the partition are disjoint; the
  slack is what the partition holds beyond the original image.
\<close>
theorem parse_avb_footer_ranges:
  assumes "parse_avb_footer data = Inr (Some f)"
  shows "version_major f = 1 \<and> 0 < vbmeta_size f
    \<and> original_image_size f \<le> vbmeta_offset f
    \<and> vbmeta_offset f + vbmeta_size f \<le> length data - 64
    \<and> partition_slack f + original_image_size f = partition_image_size f
    \<and> partition_image_size f = length data"
proof -
  have "vbmeta_offset f \<le> length data - 64 \<and> vbmeta_size f \<le> length data - 64 - vbmeta_offset f
    \<and> version_major f = 1 \<and> 0 < vbmeta_size f \<and> original_image_size f \<le> vbmeta_offset f
    \<and> partition_slack f + original_image_size f = partition_image_size f
    \<and> partition_image_size f = length data"
    using assms by (auto simp: parse_avb_footer_def Let_def res_iff split: if_splits)
  then show ?thesis by linarith
qed

section \<open>Witnesses\<close>

text \<open>A version 3 boot image: a 1580-byte header, a 2-byte kernel and a 2-byte gzip ramdisk.\<close>

definition sample_boot :: "byte list" where
  "sample_boot = boot_magic @ le32 2 @ le32 2 @ le32 0 @ le32 1580 @ replicate 16 0 @ le32 3
     @ replicate 4052 0 @ [1, 2] @ replicate 4094 0 @ [0x1f, 0x8b]"

definition sample_vendor_boot :: "byte list" where
  "sample_vendor_boot = vendor_boot_magic @ le32 4 @ le32 4096 @ replicate 8 0 @ le32 1
     @ replicate 2068 0 @ le32 2128 @ le32 1 @ replicate 8 0
     @ le32 8 @ le32 2 @ le32 4 @ le32 0 @ replicate 1968 0
     @ [7] @ replicate 4095 0 @ [9] @ replicate 4095 0 @ replicate 4096 0"

definition sample_footer :: "byte list" where
  "sample_footer = [1, 2] @ avb_footer_magic @ be32 1 @ be32 0 @ be64 1 @ be64 1 @ be64 1
     @ replicate 28 0"

lemmas magic_defs = boot_magic_def vendor_boot_magic_def avb_footer_magic_def

lemma sample_boot_parses:
  "parse_boot sample_boot = Inr
     \<lparr> b_header_version = 3, b_header_size = 1580, b_page_size = 4096, b_kernel_size = 2,
       b_kernel_offset = 4096, b_ramdisk_size = 2, b_ramdisk_offset = 8192,
       b_ramdisk_compression = ''gzip'', b_os_version_raw = 0, b_signature_size = None \<rparr>"
  by (simp add: parse_boot_defs sample_boot_def magic_defs unpack_fields_eq layout align_def
      boot_header_min_def ramdisk_compression_def compression_name_def
      compression_signatures_def starts_with_def ascii_def)

lemma sample_vendor_boot_parses:
  "parse_vendor_boot sample_vendor_boot = Inr
     \<lparr> v_header_version = 4, v_header_size = 2128, v_page_size = 4096, v_ramdisk_size = 1,
       v_ramdisk_offset = 4096, v_ramdisk_compression = ''unknown'', v_dtb_size = 1,
       v_dtb_offset = 8192, v_table = Some \<lparr> t_size = 8, t_entry_count = 2, t_entry_size = 4,
         t_bootconfig_size = 0, t_table_offset = 12288, t_bootconfig_offset = 16384 \<rparr> \<rparr>"
  by (simp add: parse_vendor_boot_def vendor_v4_extension_def Let_def sample_vendor_boot_def
      magic_defs unpack_fields_eq layout align_def vendor_boot_header_min_def
      ramdisk_compression_def compression_name_def compression_signatures_def starts_with_def ascii_def)

lemma sample_footer_parses:
  "parse_avb_footer sample_footer = Inr (Some
     \<lparr> version_major = 1, version_minor = 0, original_image_size = 1, vbmeta_offset = 1,
       vbmeta_size = 1, partition_image_size = 66, partition_slack = 65 \<rparr>)"
  by (simp add: parse_avb_footer_def Let_def sample_footer_def magic_defs unpack_fields_eq
      layout)

theorem parse_boot_layout_witness:
  "\<exists>r. parse_boot sample_boot = Inr r
     \<and> sections_ok (b_page_size r) (length sample_boot) (b_header_size r) (boot_sections r)"
  using sample_boot_parses parse_boot_layout [OF sample_boot_parses] by blast

theorem parse_vendor_boot_layout_witness:
  "\<exists>r. parse_vendor_boot sample_vendor_boot = Inr r \<and> v_header_version r = 4
     \<and> sections_ok (v_page_size r) (length sample_vendor_boot) (v_header_size r)
         (vendor_sections r)"
  using sample_vendor_boot_parses parse_vendor_boot_layout [OF sample_vendor_boot_parses]
  by fastforce

theorem parse_avb_footer_ranges_witness:
  "\<exists>f. parse_avb_footer sample_footer = Inr (Some f)
     \<and> vbmeta_offset f + vbmeta_size f \<le> length sample_footer - 64"
  using sample_footer_parses parse_avb_footer_ranges [OF sample_footer_parses] by blast

end
