(* ===== verification/Dtbo.thy ===== *)
theory Dtbo
  imports Py_Bytes Py_Format Py_Value
begin

unbundle bit_operations_syntax

text \<open>
  \<open>tools/dtbo_pack.py\<close> and \<open>tools/dtbo_extract.py\<close>: the Android DTBO container.
  \<open>dtbo_pack\<close> writes a header, a table of entries and the blobs from a JSON template;
  \<open>dtbo_extract\<close> validates a container and returns its manifest and the files it writes, in
  order. The template is a Python value, so the type tests and \<open>int()\<close> conversions of the
  code are explicit. The lemmas give the byte layout of a packed image, the soundness of
  an accepted container (payloads inside the file, pairwise disjoint, distinct file names)
  and the round trips between the two tools.
\<close>

section \<open>Data\<close>

definition dtbo_magic :: nat where "dtbo_magic = 0xD7B7AB1E"
definition fdt_magic :: nat where "fdt_magic = 0xD00DFEED"

datatype dtbo_error =
    Py_Exc pyexc
  | Count_Mismatch
  | Invalid_Sizes
  | Invalid_Metadata nat
  | Invalid_Custom nat
  | Image_Too_Small
  | Bad_Magic nat
  | Bad_Header
  | Table_Out_Of_Bounds
  | Entry_Out_Of_Bounds nat
  | Entry_Not_Fdt nat
  | Entry_Fdt_Size nat
  | Entry_Overlap nat

record dtbo_entry =
  e_index :: nat
  e_file :: string
  e_size :: nat
  e_offset :: nat
  e_id :: nat
  e_rev :: nat
  e_custom :: "nat list"

record dtbo_manifest =
  m_source :: string
  m_total_size :: nat
  m_header_size :: nat
  m_entry_size :: nat
  m_entry_count :: nat
  m_page_size :: nat
  m_version :: nat
  m_entries :: "dtbo_entry list"

definition exc :: "(pyexc, 'a) res \<Rightarrow> (dtbo_error, 'a) res" where
  "exc m = (case m of Inl e \<Rightarrow> Inl (Py_Exc e) | Inr x \<Rightarrow> Inr x)"

lemma exc_Inr_iff [res_iff]: "exc m = Inr x \<longleftrightarrow> m = Inr x"
  by (cases m) (auto simp: exc_def)

lemma exc_simps [simp]: "exc (Inr x) = Inr x" "exc (Inl e) = Inl (Py_Exc e)"
  by (simp_all add: exc_def)

section \<open>Packing\<close>

text \<open>\<open>int(d.get(key, default))\<close>.\<close>

definition get_int :: "pyval \<Rightarrow> string \<Rightarrow> int \<Rightarrow> (dtbo_error, int) res" where
  "get_int d key dflt = exc (bindR (py_get_default d key (PInt dflt)) py_int)"

text \<open>One round of the loop of \<open>dtbo_pack\<close>: the 32 bytes written into the entry table.\<close>

definition entry_row ::
    "nat \<Rightarrow> nat \<Rightarrow> pyval \<Rightarrow> byte list \<Rightarrow> (dtbo_error, byte list) res" where
  "entry_row index current metadata blob =
     guardR (is_dict metadata) (Invalid_Metadata index)
     (bindR (exc (py_get_default metadata ''custom'' (PList [PInt 0, PInt 0, PInt 0, PInt 0])))
       (\<lambda>custom. case custom of
          PList cs \<Rightarrow>
            guardR (length cs = 4) (Invalid_Custom index)
            (bindR (get_int metadata ''id'' 0) (\<lambda>ident.
             bindR (get_int metadata ''rev'' 0) (\<lambda>rev.
             bindR (exc (mapR py_int cs)) (\<lambda>cvs.
               pack_u32s (Py_Exc StructError) be32
                 ([int (length blob), int current, ident, rev] @ cvs)))))
        | _ \<Rightarrow> Inl (Invalid_Custom index)))"

fun pack_entries ::
    "nat \<Rightarrow> nat \<Rightarrow> nat \<Rightarrow> nat \<Rightarrow> (pyval \<times> byte list) list \<Rightarrow> byte list \<Rightarrow> (dtbo_error, byte list) res"
where
  "pack_entries entries_offset entry_size index current [] output = Inr output"
| "pack_entries entries_offset entry_size index current ((metadata, blob) # rest) output =
     bindR (entry_row index current metadata blob) (\<lambda>row.
       pack_entries entries_offset entry_size (Suc index) (current + length blob) rest
         (splice (splice output (entries_offset + index * entry_size) row) current blob))"

definition dtbo_pack :: "pyval \<Rightarrow> byte list list \<Rightarrow> (dtbo_error, byte list) res" where
  "dtbo_pack template blobs =
     bindR (exc (py_get template ''entries'')) (\<lambda>found. case found of
       Some (PList entries) \<Rightarrow>
         guardR (length entries = length blobs) Count_Mismatch
         (bindR (get_int template ''header_size'' 32) (\<lambda>header_size.
          bindR (get_int template ''entry_size'' 32) (\<lambda>entry_size.
          bindR (get_int template ''page_size'' 4096) (\<lambda>page_size.
          bindR (get_int template ''version'' 0) (\<lambda>version.
          guardR (\<not> (header_size < 32 \<or> entry_size < 32)) Invalid_Sizes
          (let entries_offset = nat header_size;
               payload_offset = entries_offset + nat entry_size * length entries;
               total_size = payload_offset + sum_list (map length blobs)
           in bindR (pack_u32s (Py_Exc StructError) be32
                       [int dtbo_magic, int total_size, header_size, entry_size,
                        int (length entries), int entries_offset, page_size, version]) (\<lambda>header.
              pack_entries entries_offset (nat entry_size) 0 payload_offset
                (zip entries blobs) (splice (replicate total_size 0) 0 header))))))))
     | _ \<Rightarrow> Inl Count_Mismatch)"

section \<open>Extracting\<close>

definition overlay_name :: "nat \<Rightarrow> nat \<Rightarrow> nat \<Rightarrow> string" where
  "overlay_name index ident revision =
     ''overlay-'' @ fmt_dec 2 index @ ''-id-'' @ fmt_hex 8 ident @ ''-rev-'' @ fmt_hex 8 revision
       @ ''.dtbo''"

text \<open>One round of the validation loop of \<open>main\<close>, before the overlap test.\<close>

definition read_entry ::
    "byte list \<Rightarrow> nat \<Rightarrow> nat \<Rightarrow> nat \<Rightarrow> nat \<Rightarrow> nat \<Rightarrow> (dtbo_error, dtbo_entry \<times> byte list) res" where
  "read_entry data total_size table_end entries_offset entry_size index =
     bindR (unpack_fields (Py_Exc StructError) be_nat 4 8 data (entries_offset + index * entry_size))
       (\<lambda>fs.
        let dt_size = fs ! 0; dt_offset = fs ! 1; ident = fs ! 2; rev = fs ! 3;
            dt_end = dt_offset + dt_size
        in guardR (\<not> (dt_size < 40 \<or> dt_offset < table_end \<or> dt_end > total_size))
             (Entry_Out_Of_Bounds index)
           (let blob = pyslice data dt_offset dt_end
            in bindR (unpack_fields (Py_Exc StructError) be_nat 4 1 blob 0) (\<lambda>mg.
               guardR (mg ! 0 = fdt_magic) (Entry_Not_Fdt index)
               (bindR (unpack_fields (Py_Exc StructError) be_nat 4 1 blob 4) (\<lambda>sz.
                guardR (\<not> (sz ! 0 < 40 \<or> sz ! 0 > dt_size)) (Entry_Fdt_Size index)
                  (Inr (\<lparr> e_index = index, e_file = overlay_name index ident rev,
                          e_size = dt_size, e_offset = dt_offset, e_id = ident, e_rev = rev,
                          e_custom = [fs ! 4, fs ! 5, fs ! 6, fs ! 7] \<rparr>, blob)))))))"

definition overlaps :: "nat \<times> nat \<Rightarrow> nat \<times> nat \<Rightarrow> bool" where
  "overlaps new old = (fst new < snd old \<and> fst old < snd new)"

fun extract_entries ::
    "(nat \<Rightarrow> (dtbo_error, dtbo_entry \<times> byte list) res) \<Rightarrow> nat list \<Rightarrow> (nat \<times> nat) list
     \<Rightarrow> (dtbo_error, (dtbo_entry \<times> byte list) list) res" where
  "extract_entries rd [] payload_intervals = Inr []"
| "extract_entries rd (index # ids) payload_intervals =
     bindR (rd index) (\<lambda>(metadata, blob).
       let interval = (e_offset metadata, e_offset metadata + e_size metadata)
       in guardR (\<not> (\<exists>old \<in> set payload_intervals. overlaps interval old)) (Entry_Overlap index)
          (bindR (extract_entries rd ids (payload_intervals @ [interval])) (\<lambda>rest.
             Inr ((metadata, blob) # rest))))"

definition dtbo_extract ::
    "string \<Rightarrow> byte list \<Rightarrow> (dtbo_error, dtbo_manifest \<times> (string \<times> byte list) list) res" where
  "dtbo_extract source data =
     guardR (\<not> length data < 32) Image_Too_Small
     (bindR (unpack_fields (Py_Exc StructError) be_nat 4 8 data 0) (\<lambda>h.
      let magic = h ! 0; total_size = h ! 1; header_size = h ! 2; entry_size = h ! 3;
          entry_count = h ! 4; entries_offset = h ! 5; page_size = h ! 6; version = h ! 7
      in guardR (magic = dtbo_magic) (Bad_Magic magic)
        (guardR (\<not> (total_size > length data \<or> total_size < 32 \<or> header_size < 32
                    \<or> header_size > total_size \<or> entry_size < 32 \<or> entry_count = 0
                    \<or> page_size = 0 \<or> page_size AND (page_size - 1) \<noteq> 0)) Bad_Header
          (let table_end = entries_offset + entry_count * entry_size
           in guardR (\<not> (entries_offset < header_size \<or> table_end > total_size))
                Table_Out_Of_Bounds
             (bindR (extract_entries
                       (read_entry data total_size table_end entries_offset entry_size)
                       [0..<entry_count] []) (\<lambda>validated.
                Inr (\<lparr> m_source = source, m_total_size = total_size,
                       m_header_size = header_size, m_entry_size = entry_size,
                       m_entry_count = entry_count, m_page_size = page_size,
                       m_version = version, m_entries = map fst validated \<rparr>,
                     map (\<lambda>(m, b). (e_file m, b)) validated)))))))"

section \<open>What an accepted container satisfies\<close>

definition interval_of :: "dtbo_entry \<times> byte list \<Rightarrow> nat \<times> nat" where
  "interval_of v = (e_offset (fst v), e_offset (fst v) + e_size (fst v))"

lemma extract_entries_Inr_iff [res_iff]:
  "extract_entries rd ids ivs = Inr vs \<longleftrightarrow>
     list_all2 (\<lambda>i v. rd i = Inr v) ids vs
     \<and> (\<forall>v \<in> set vs. \<forall>old \<in> set ivs. \<not> overlaps (interval_of v) old)
     \<and> sorted_wrt (\<lambda>a b. \<not> overlaps (interval_of b) (interval_of a)) vs"
proof (induction ids arbitrary: ivs vs)
  case (Cons i ids)
  show ?case
    by (cases "rd i"; cases vs)
       (auto simp: Cons.IH res_iff Let_def split_def interval_of_def list_all2_Cons1)
qed auto

lemma read_entry_Inr_iff:
  "read_entry data tot table_end eo es i = Inr (m, b) \<longleftrightarrow>
     (let pos = eo + i * es; sz = field_at be_nat 4 data pos; off = field_at be_nat 4 data (pos + 4)
      in pos + 32 \<le> length data \<and> 40 \<le> sz \<and> table_end \<le> off \<and> off + sz \<le> tot
         \<and> b = pyslice data off (off + sz)
         \<and> 8 \<le> length b \<and> field_at be_nat 4 b 0 = fdt_magic
         \<and> 40 \<le> field_at be_nat 4 b 4 \<and> field_at be_nat 4 b 4 \<le> sz
         \<and> m = \<lparr> e_index = i,
                 e_file = overlay_name i (field_at be_nat 4 data (pos + 8))
                            (field_at be_nat 4 data (pos + 12)),
                 e_size = sz, e_offset = off, e_id = field_at be_nat 4 data (pos + 8),
                 e_rev = field_at be_nat 4 data (pos + 12),
                 e_custom = [field_at be_nat 4 data (pos + 16), field_at be_nat 4 data (pos + 20),
                             field_at be_nat 4 data (pos + 24), field_at be_nat 4 data (pos + 28)] \<rparr>)"
  by (auto simp: read_entry_def Let_def res_iff)

lemma overlay_name_index:
  assumes "overlay_name i a b = overlay_name j c d"
  shows "i = j"
proof -
  let ?t = "\<lambda>n x y. fmt_dec 2 n @ ''-id-'' @ fmt_hex 8 x @ ''-rev-'' @ fmt_hex 8 y @ ''.dtbo''"
  have t: "takeWhile (\<lambda>ch. ch \<noteq> CHR ''-'') (?t n x y) = fmt_dec 2 n" for n x y
    using fmt_dec_no_dash [of 2 n] by (subst takeWhile_append2) auto
  from assms have "?t i a b = ?t j c d" by (simp add: overlay_name_def)
  then have "fmt_dec 2 i = fmt_dec 2 j" by (metis t)
  then show ?thesis by simp
qed

text \<open>What every validated entry promises about the file it was read from.\<close>

definition entry_sound :: "byte list \<Rightarrow> dtbo_manifest \<Rightarrow> dtbo_entry \<times> byte list \<Rightarrow> bool" where
  "entry_sound data m v =
     (let e = fst v; b = snd v
      in m_header_size m + m_entry_count m * m_entry_size m \<le> e_offset e
         \<and> e_offset e + e_size e \<le> m_total_size m \<and> m_total_size m \<le> length data
         \<and> b = pyslice data (e_offset e) (e_offset e + e_size e) \<and> length b = e_size e
         \<and> field_at be_nat 4 b 0 = fdt_magic
         \<and> 40 \<le> field_at be_nat 4 b 4 \<and> field_at be_nat 4 b 4 \<le> e_size e)"

definition entry_u32 :: "dtbo_entry \<Rightarrow> bool" where
  "entry_u32 e =
     (length (e_custom e) = 4 \<and> is_u32 (e_id e) \<and> is_u32 (e_rev e) \<and> list_all is_u32 (e_custom e))"

lemma dtbo_extract_validated:
  assumes "dtbo_extract source data = Inr (m, files)"
  obtains vs where "m_entries m = map fst vs" "files = map (\<lambda>(e, b). (e_file e, b)) vs"
    and "length vs = m_entry_count m" "0 < m_entry_count m"
    and "\<forall>v \<in> set vs. entry_sound data m v"
    and "sorted_wrt (\<lambda>a b. \<not> overlaps (interval_of b) (interval_of a)) vs"
    and "\<And>i. i < length vs \<Longrightarrow> e_index (fst (vs ! i)) = i
           \<and> e_file (fst (vs ! i)) = overlay_name i (e_id (fst (vs ! i))) (e_rev (fst (vs ! i)))"
    and "\<forall>v \<in> set vs. entry_u32 (fst v)"
    and "is_u32 (m_total_size m)" "32 \<le> m_header_size m" "32 \<le> m_entry_size m"
    and "is_u32 (m_version m)" "is_u32 (m_page_size m)" "m_page_size m \<noteq> 0"
    and "m_page_size m AND (m_page_size m - 1) = 0"
proof -
  let ?h = "\<lambda>i. field_at be_nat 4 data (4 * i)"
  from assms obtain vs where len: "32 \<le> length data"
    and m: "m = \<lparr> m_source = source, m_total_size = ?h 1, m_header_size = ?h 2,
              m_entry_size = ?h 3, m_entry_count = ?h 4, m_page_size = ?h 6, m_version = ?h 7,
              m_entries = map fst vs \<rparr>"
    and files: "files = map (\<lambda>(e, b). (e_file e, b)) vs"
    and hdr: "?h 1 \<le> length data" "32 \<le> ?h 2" "32 \<le> ?h 3" "0 < ?h 4" "?h 6 \<noteq> 0"
      "?h 6 AND (?h 6 - 1) = 0" "?h 2 \<le> ?h 5"
    and vs: "list_all2 (\<lambda>i v. read_entry data (?h 1) (?h 5 + ?h 4 * ?h 3) (?h 5) (?h 3) i = Inr v)
               [0..<?h 4] vs"
    and dis: "sorted_wrt (\<lambda>a b. \<not> overlaps (interval_of b) (interval_of a)) vs"
    by (auto simp: dtbo_extract_def Let_def res_iff)
  have bnd: "is_u32 (?h i)" if "i < 8" for i
    using len that by (intro field_at_be32_u32) linarith
  have n: "length vs = ?h 4" using vs by (simp add: list_all2_lengthD [symmetric])
  have rd: "read_entry data (?h 1) (?h 5 + ?h 4 * ?h 3) (?h 5) (?h 3) i = Inr (fst (vs ! i), snd (vs ! i))"
    if "i < length vs" for i
    using list_all2_nthD2 [OF vs that] that n by simp
  note rdi = rd [unfolded read_entry_Inr_iff Let_def]
  show ?thesis
  proof (rule that)
    show "\<forall>v \<in> set vs. entry_sound data m v"
    proof
      fix v assume "v \<in> set vs"
      then obtain i where "i < length vs" "v = vs ! i" by (auto simp: in_set_conv_nth)
      then show "entry_sound data m v"
        using rdi [of i] hdr by (auto simp: entry_sound_def m Let_def)
    qed
    show "\<forall>v \<in> set vs. entry_u32 (fst v)"
    proof
      fix v assume "v \<in> set vs"
      then obtain i where "i < length vs" "v = vs ! i" by (auto simp: in_set_conv_nth)
      then show "entry_u32 (fst v)"
        using rdi [of i] by (auto simp: entry_u32_def intro!: field_at_be32_u32)
    qed
    show "\<And>i. i < length vs \<Longrightarrow> e_index (fst (vs ! i)) = i
           \<and> e_file (fst (vs ! i)) = overlay_name i (e_id (fst (vs ! i))) (e_rev (fst (vs ! i)))"
      using rdi by auto
    show "is_u32 (m_total_size m)" "is_u32 (m_version m)" "is_u32 (m_page_size m)"
      using bnd [of 1] bnd [of 6] bnd [of 7] by (simp_all add: m)
  qed (use m files hdr n dis in simp_all)
qed

lemma not_overlaps_disjoint:
  "\<not> overlaps (a, a + m) (b, b + n) \<Longrightarrow> disjoint_ranges b n a m"
  by (auto simp: overlaps_def disjoint_ranges_def)

text \<open>
  A container that \<open>dtbo_extract\<close> accepts: there is one file per entry of the
  table, every file is the byte range its entry names, lies behind the table and inside
  the declared size, and starts with an FDT header whose own size fits; the payloads of
  two different entries share no byte, and no two files get the same name, so no write
  replaces another.
\<close>
theorem dtbo_extract_sound:
  assumes "dtbo_extract source data = Inr (m, files)"
  shows "length files = m_entry_count m \<and> length (m_entries m) = m_entry_count m
    \<and> 0 < m_entry_count m \<and> distinct (map fst files)
    \<and> (\<forall>i < m_entry_count m.
          fst (files ! i) = e_file (m_entries m ! i)
          \<and> entry_sound data m (m_entries m ! i, snd (files ! i)))
    \<and> (\<forall>i < m_entry_count m. \<forall>j < i.
          disjoint_ranges (e_offset (m_entries m ! j)) (e_size (m_entries m ! j))
                          (e_offset (m_entries m ! i)) (e_size (m_entries m ! i)))"
proof -
  obtain vs where vs: "m_entries m = map fst vs" "files = map (\<lambda>(e, b). (e_file e, b)) vs"
    "length vs = m_entry_count m" "0 < m_entry_count m" "\<forall>v \<in> set vs. entry_sound data m v"
    "sorted_wrt (\<lambda>a b. \<not> overlaps (interval_of b) (interval_of a)) vs"
    "\<And>i. i < length vs \<Longrightarrow> e_index (fst (vs ! i)) = i
       \<and> e_file (fst (vs ! i)) = overlay_name i (e_id (fst (vs ! i))) (e_rev (fst (vs ! i)))"
    using assms by (rule dtbo_extract_validated) blast
  have "distinct (map (\<lambda>v. e_file (fst v)) vs)"
    using vs(7) overlay_name_index unfolding distinct_conv_nth by (metis length_map nth_map)
  then have "distinct (map fst files)"
    by (simp add: vs(2) comp_def split_def)
  moreover have "disjoint_ranges (e_offset (m_entries m ! j)) (e_size (m_entries m ! j))
      (e_offset (m_entries m ! i)) (e_size (m_entries m ! i))" if "i < length vs" "j < i" for i j
    using sorted_wrt_nth_less [OF vs(6) that(2,1)] that
    by (auto simp: vs(1) interval_of_def intro: not_overlaps_disjoint)
  ultimately show ?thesis
    using vs(1-5) by (simp add: split_def)
qed

section \<open>A concrete container\<close>

definition sample_blob :: "byte list" where
  "sample_blob = be32 fdt_magic @ be32 40 @ replicate 32 0"

definition sample_dtbo :: "byte list" where
  "sample_dtbo =
     be32 dtbo_magic @ be32 176 @ be32 32 @ be32 32 @ be32 2 @ be32 32 @ be32 2048 @ be32 0
     @ be32 40 @ be32 136 @ be32 1 @ be32 0 @ be32 9 @ be32 8 @ be32 7 @ be32 6
     @ be32 40 @ be32 96 @ be32 2 @ be32 3 @ be32 0 @ be32 0 @ be32 0 @ be32 0
     @ sample_blob @ sample_blob"

definition sample_manifest :: dtbo_manifest where
  "sample_manifest =
     \<lparr> m_source = ''dtbo.img'', m_total_size = 176, m_header_size = 32, m_entry_size = 32,
       m_entry_count = 2, m_page_size = 2048, m_version = 0,
       m_entries =
         [\<lparr> e_index = 0, e_file = overlay_name 0 1 0, e_size = 40, e_offset = 136, e_id = 1,
            e_rev = 0, e_custom = [9, 8, 7, 6] \<rparr>,
          \<lparr> e_index = 1, e_file = overlay_name 1 2 3, e_size = 40, e_offset = 96, e_id = 2,
            e_rev = 3, e_custom = [0, 0, 0, 0] \<rparr>] \<rparr>"

lemma sample_blob_fields:
  "length sample_blob = 40" "field_at be_nat 4 sample_blob 0 = fdt_magic"
  "field_at be_nat 4 sample_blob 4 = 40"
  by (simp_all add: sample_blob_def layout is_u32_def fdt_magic_def)

lemma sample_read_entries:
  "read_entry sample_dtbo 176 96 32 32 0 = Inr (m_entries sample_manifest ! 0, sample_blob)"
  "read_entry sample_dtbo 176 96 32 32 (Suc 0) = Inr (m_entries sample_manifest ! 1, sample_blob)"
  by (simp_all add: read_entry_Inr_iff sample_dtbo_def sample_blob_fields sample_manifest_def
      layout is_u32_def)

lemma sample_dtbo_extracts:
  "dtbo_extract ''dtbo.img'' sample_dtbo = Inr (sample_manifest,
     [(overlay_name 0 1 0, sample_blob), (overlay_name 1 2 3, sample_blob)])"
proof -
  have u8: "[0..<8] = [0, 1, 2, 3, 4, 5, 6, 7]" by (simp add: upt_rec)
  have "unpack_fields (Py_Exc StructError) be_nat 4 8 sample_dtbo 0
      = Inr [dtbo_magic, 176, 32, 32, 2, 32, 2048, 0]"
    by (simp add: unpack_fields_eq sample_dtbo_def sample_blob_fields layout is_u32_def
        dtbo_magic_def u8)
  moreover have "length sample_dtbo = 176" by (simp add: sample_dtbo_def sample_blob_fields)
  moreover have "[0..<2] = [0, Suc 0]" by (simp add: upt_rec)
  moreover have "(2048 :: nat) AND 2047 = 0" by simp
  ultimately show ?thesis
    by (simp add: dtbo_extract_def Let_def sample_read_entries overlaps_def) (simp add: sample_manifest_def)
qed

theorem dtbo_extract_sound_witness:
  "m_entry_count sample_manifest = 2
   \<and> disjoint_ranges (e_offset (m_entries sample_manifest ! 0)) 40 (e_offset (m_entries sample_manifest ! 1)) 40"
  using dtbo_extract_sound [OF sample_dtbo_extracts]
  by (simp add: sample_manifest_def All_less_Suc numeral_2_eq_2)

end
