(* ===== verification/Dtbo_Roundtrip.thy ===== *)
theory Dtbo_Roundtrip
  imports Dtbo
begin

text \<open>
  The two DTBO tools against each other: the byte layout \<open>dtbo_pack\<close> produces, and the
  round trips through \<open>dtbo_extract\<close>.
\<close>

section \<open>The layout of a packed image\<close>

text \<open>A table row: the 32 bytes of the entry, padded with zeros to the entry size.\<close>

definition pad_to :: "nat \<Rightarrow> byte list \<Rightarrow> byte list" where
  "pad_to n bs = bs @ replicate (n - length bs) 0"

definition dtbo_layout :: "nat \<Rightarrow> nat \<Rightarrow> byte list \<Rightarrow> byte list list \<Rightarrow> byte list list \<Rightarrow> byte list" where
  "dtbo_layout header_size entry_size header rows blobs =
     pad_to header_size header @ concat (map (pad_to entry_size) rows) @ concat blobs"

lemma length_pad_to: "length bs \<le> n \<Longrightarrow> length (pad_to n bs) = n"
  by (simp add: pad_to_def)

text \<open>The rows \<open>dtbo_pack\<close> writes: entry \<open>index + i\<close> points at the \<open>i\<close>-th blob.\<close>

fun entry_rows ::
    "nat \<Rightarrow> nat \<Rightarrow> (pyval \<times> byte list) list \<Rightarrow> (dtbo_error, byte list list) res" where
  "entry_rows index current [] = Inr []"
| "entry_rows index current ((md, blob) # rest) =
     bindR (entry_row index current md blob) (\<lambda>row.
     bindR (entry_rows (Suc index) (current + length blob) rest) (\<lambda>rows. Inr (row # rows)))"

lemma splice_zeros:
  "length us = off \<Longrightarrow> length bs \<le> n \<Longrightarrow>
   splice (us @ replicate n 0 @ vs) off bs = us @ bs @ replicate (n - length bs) 0 @ vs"
  by (simp add: splice_def)

lemma entry_row_Inr_iff:
  "entry_row index current md blob = Inr row \<longleftrightarrow>
     (\<exists>kvs cs ident rv cvs. md = PDict kvs
        \<and> py_get_default md ''custom'' (PList [PInt 0, PInt 0, PInt 0, PInt 0]) = Inr (PList cs)
        \<and> length cs = 4 \<and> get_int md ''id'' 0 = Inr ident \<and> get_int md ''rev'' 0 = Inr rv
        \<and> mapR py_int cs = Inr cvs
        \<and> pack_u32s (Py_Exc StructError) be32
              ([int (length blob), int current, ident, rv] @ cvs) = Inr row)"
proof (cases "py_get_default md ''custom'' (PList [PInt 0, PInt 0, PInt 0, PInt 0])")
  case (Inr custom)
  then obtain kvs where "md = PDict kvs" by (auto simp: res_iff)
  with Inr show ?thesis
    by (cases custom) (simp_all add: entry_row_def bindR_Inr_iff guardR_Inr_iff exc_Inr_iff
        del: py_get_default_PDict)
next
  case (Inl e)
  then show ?thesis by (simp add: entry_row_def guardR_Inr_iff)
qed

lemma entry_row_length:
  assumes "entry_row index current md blob = Inr row"
  shows "length row = 32"
proof -
  from assms obtain cs cvs a b where "length cs = 4" "mapR py_int cs = Inr cvs"
    and row: "row = concat (map be32 (map nat ([int (length blob), int current, a, b] @ cvs)))"
    unfolding entry_row_Inr_iff pack_u32s_Inr_iff by blast
  then have "length cvs = 4" using mapR_length by metis
  then show ?thesis unfolding row be32.length_row by simp
qed

lemma pack_entries_layout:
  assumes "length pre = entries_offset + index * entry_size" "32 \<le> entry_size"
    and "current = length pre + entry_size * length rest + length dn"
  shows "pack_entries entries_offset entry_size index current rest
           (pre @ replicate (entry_size * length rest) 0 @ dn
              @ replicate (sum_list (map (length \<circ> snd) rest)) 0)
         = bindR (entry_rows index current rest) (\<lambda>rows.
             Inr (pre @ concat (map (pad_to entry_size) rows) @ dn @ concat (map snd rest)))"
  using assms
proof (induction rest arbitrary: index current pre dn)
  case (Cons p rest)
  obtain md blob where p: "p = (md, blob)" by (cases p)
  show ?case
  proof (cases "entry_row index current md blob")
    case (Inr row)
    let ?k = "length rest" and ?s = "sum_list (map (length \<circ> snd) rest)"
    have row: "length row = 32" by (rule entry_row_length [OF Inr])
    let ?out = "pre @ replicate (entry_size * length (p # rest)) 0 @ dn
        @ replicate (sum_list (map (length \<circ> snd) (p # rest))) 0"
    have "splice ?out (entries_offset + index * entry_size) row
        = pre @ row @ replicate (entry_size * Suc ?k - 32) 0 @ dn @ replicate (length blob + ?s) 0"
      using Cons.prems row by (subst splice_zeros) (simp_all add: p)
    also have "\<dots> = (pre @ row @ replicate (entry_size * Suc ?k - 32) 0 @ dn)
        @ replicate (length blob + ?s) 0 @ []" by simp
    also have "splice \<dots> current blob
        = (pre @ row @ replicate (entry_size * Suc ?k - 32) 0 @ dn)
          @ blob @ replicate (length blob + ?s - length blob) 0 @ []"
      using Cons.prems row by (intro splice_zeros) simp_all
    also have "replicate (entry_size * Suc ?k - 32) (0::byte)
        = replicate (entry_size - 32) 0 @ replicate (entry_size * ?k) 0"
      using Cons.prems(2) by (simp flip: replicate_add)
    finally have out: "splice (splice ?out (entries_offset + index * entry_size) row) current blob
        = (pre @ pad_to entry_size row) @ replicate (entry_size * ?k) 0 @ (dn @ blob)
          @ replicate ?s 0"
      by (simp add: pad_to_def row comp_def)
    have "length (pre @ pad_to entry_size row) = entries_offset + Suc index * entry_size"
      using Cons.prems row by (simp add: length_pad_to)
    moreover have "current + length blob
        = length (pre @ pad_to entry_size row) + entry_size * ?k + length (dn @ blob)"
      using Cons.prems row by (simp add: length_pad_to)
    ultimately have "pack_entries entries_offset entry_size (Suc index) (current + length blob) rest
          (splice (splice ?out (entries_offset + index * entry_size) row) current blob)
        = bindR (entry_rows (Suc index) (current + length blob) rest) (\<lambda>rows.
            Inr ((pre @ pad_to entry_size row) @ concat (map (pad_to entry_size) rows)
              @ (dn @ blob) @ concat (map snd rest)))"
      unfolding out using Cons.prems(2) by (intro Cons.IH)
    then show ?thesis
      using Inr by (simp add: p bindR_assoc comp_def)
  qed (simp add: p)
qed simp

lemma entry_rows_length: "entry_rows index current rest = Inr rows \<Longrightarrow> length rows = length rest"
  by (induction index current rest arbitrary: rows rule: entry_rows.induct) (auto simp: res_iff)

text \<open>What an entry's metadata says, as \<open>dtbo_pack\<close> reads it.\<close>

definition entry_says :: "pyval \<Rightarrow> nat \<Rightarrow> nat \<Rightarrow> nat list \<Rightarrow> bool" where
  "entry_says md ident rv custom =
     (get_int md ''id'' 0 = Inr (int ident) \<and> get_int md ''rev'' 0 = Inr (int rv)
      \<and> bindR (exc (py_get_default md ''custom'' (PList [PInt 0, PInt 0, PInt 0, PInt 0])))
           (\<lambda>c. case c of PList cs \<Rightarrow> exc (mapR py_int cs) | _ \<Rightarrow> Inl Count_Mismatch)
         = Inr (map int custom))"

lemma entry_row_says:
  assumes "entry_row index current md blob = Inr row"
  shows "\<exists>ident rv custom. entry_says md ident rv custom \<and> length custom = 4
           \<and> list_all is_u32 ([length blob, current, ident, rv] @ custom)
           \<and> row = concat (map be32 ([length blob, current, ident, rv] @ custom))"
proof -
  from assms obtain cs ident rv cvs where
    cs: "py_get_default md ''custom'' (PList [PInt 0, PInt 0, PInt 0, PInt 0]) = Inr (PList cs)"
      "length cs = 4" "mapR py_int cs = Inr cvs"
    and ids: "get_int md ''id'' 0 = Inr ident" "get_int md ''rev'' 0 = Inr rv"
    and rng: "\<forall>v \<in> set ([int (length blob), int current, ident, rv] @ cvs). 0 \<le> v \<and> v < 2 ^ 32"
    and row: "row = concat (map be32 (map nat ([int (length blob), int current, ident, rv] @ cvs)))"
    unfolding entry_row_Inr_iff pack_u32s_Inr_iff by blast
  have "length cvs = 4" using cs mapR_length by metis
  moreover have "map int (map nat cvs) = cvs"
    using rng by (simp add: comp_def map_idI)
  moreover have "list_all is_u32 ([length blob, current, nat ident, nat rv] @ map nat cvs)"
    using rng by (auto simp: is_u32_def list_all_iff)
  ultimately show ?thesis
    using cs ids rng row
    by (intro exI [of _ "nat ident"] exI [of _ "nat rv"] exI [of _ "map nat cvs"])
       (simp add: entry_says_def del: map_map)
qed

lemma entry_rows_nth:
  assumes "entry_rows index current rest = Inr rows" "i < length rest"
  shows "entry_row (index + i) (current + sum_list (map (length \<circ> snd) (take i rest)))
           (fst (rest ! i)) (snd (rest ! i)) = Inr (rows ! i)"
  using assms
proof (induction rest arbitrary: index current rows i)
  case (Cons p rest)
  obtain md blob where p: "p = (md, blob)" by (cases p)
  show ?case
    using Cons.prems Cons.IH [of "Suc index" "current + length blob"]
    by (cases i) (auto simp: p res_iff comp_def add.assoc)
qed simp

lemma pack_entries_start:
  assumes "32 \<le> hs" "32 \<le> es" "length entries = length blobs" "length header = 32"
  shows "pack_entries hs es 0 (hs + es * length entries) (zip entries blobs)
           (splice (replicate (hs + es * length entries + sum_list (map length blobs)) 0) 0 header)
         = bindR (entry_rows 0 (hs + es * length blobs) (zip entries blobs))
             (\<lambda>rows. Inr (dtbo_layout hs es header rows blobs))"
proof -
  have "splice (replicate (hs + es * length entries + sum_list (map length blobs)) 0) 0 header
      = pad_to hs header @ replicate (es * length (zip entries blobs)) 0 @ []
        @ replicate (sum_list (map (length \<circ> snd) (zip entries blobs))) 0"
    using assms by (simp add: splice_def pad_to_def flip: replicate_add map_map)
  also have "pack_entries hs es 0 (hs + es * length entries) (zip entries blobs) \<dots>
      = bindR (entry_rows 0 (hs + es * length entries) (zip entries blobs)) (\<lambda>rows.
          Inr (pad_to hs header @ concat (map (pad_to es) rows) @ []
                @ concat (map snd (zip entries blobs))))"
    using assms by (intro pack_entries_layout) (simp_all add: length_pad_to)
  finally show ?thesis using assms(3) by (simp add: dtbo_layout_def)
qed

text \<open>A packed image, with the facts its reader relies on.\<close>

lemma dtbo_pack_layout:
  assumes "dtbo_pack template blobs = Inr img"
  obtains entries hs es ps ver rows where
    "py_get template ''entries'' = Inr (Some (PList entries))" "length entries = length blobs"
    "get_int template ''header_size'' 32 = Inr (int hs)" "get_int template ''entry_size'' 32 = Inr (int es)"
    "get_int template ''page_size'' 4096 = Inr (int ps)" "get_int template ''version'' 0 = Inr (int ver)"
    "32 \<le> hs" "32 \<le> es"
    "list_all is_u32 [dtbo_magic, length img, hs, es, length blobs, hs, ps, ver]"
    "entry_rows 0 (hs + es * length blobs) (zip entries blobs) = Inr rows"
    "length img = hs + es * length blobs + sum_list (map length blobs)"
    "img = dtbo_layout hs es
       (concat (map be32 [dtbo_magic, length img, hs, es, length blobs, hs, ps, ver])) rows blobs"
proof -
  obtain found where found: "py_get template ''entries'' = Inr found"
    using assms by (auto simp: dtbo_pack_def bindR_Inr_iff exc_Inr_iff)
  obtain entries where ents: "py_get template ''entries'' = Inr (Some (PList entries))"
  proof (cases found)
    case (Some v)
    then show ?thesis using assms found that by (cases v) (simp_all add: dtbo_pack_def)
  qed (use assms found in \<open>simp add: dtbo_pack_def\<close>)
  note body = assms [unfolded dtbo_pack_def ents exc_simps bindR_simps option.case pyval.case Let_def
      guardR_Inr_iff bindR_Inr_iff]
  from body have n: "length entries = length blobs" by blast
  from body obtain hs es ps ver header where
    ints: "get_int template ''header_size'' 32 = Inr hs" "get_int template ''entry_size'' 32 = Inr es"
      "get_int template ''page_size'' 4096 = Inr ps" "get_int template ''version'' 0 = Inr ver"
    and small: "\<not> (hs < 32 \<or> es < 32)"
    and hdr: "pack_u32s (Py_Exc StructError) be32
      [int dtbo_magic, int (nat hs + nat es * length entries + sum_list (map length blobs)), hs, es,
       int (length entries), int (nat hs), ps, ver] = Inr header"
    and img: "pack_entries (nat hs) (nat es) 0 (nat hs + nat es * length entries) (zip entries blobs)
      (splice (replicate (nat hs + nat es * length entries + sum_list (map length blobs)) 0) 0 header)
      = Inr img"
    by blast
  note ents = ents n
  from small have ge: "32 \<le> hs" "32 \<le> es" by auto
  let ?n = "length blobs" and ?s = "sum_list (map length blobs)"
  let ?tot = "nat hs + nat es * ?n + ?s"
  let ?fs = "[dtbo_magic, ?tot, nat hs, nat es, ?n, nat hs, nat ps, nat ver]"
  have "[int dtbo_magic, int (nat hs + nat es * length entries + ?s), hs, es, int (length entries),
      int (nat hs), ps, ver] = map int (take 6 ?fs) @ [ps, ver]"
    using ge ents(2) by simp
  note hdr [unfolded this pack_u32s_Inr_iff]
  then have pos: "0 \<le> ps" "0 \<le> ver" and header: "header = concat (map be32 ?fs)"
    and small: "\<forall>v \<in> set (take 6 ?fs). int v < 2 ^ 32" "ps < 2 ^ 32" "ver < 2 ^ 32"
    using ge by (auto simp: nat_less_iff simp del: be_bytes.simps of_nat_add of_nat_mult)
  then have u32: "list_all is_u32 ?fs"
    unfolding is_u32_def using ge
    by (auto simp: nat_less_iff simp del: of_nat_add of_nat_mult)
  have len: "length header = 32" unfolding header be32.length_row by simp
  have "32 \<le> nat hs" "32 \<le> nat es" using ge by linarith+
  from pack_entries_start [OF this ents(2) len]
  obtain rows where rows: "entry_rows 0 (nat hs + nat es * ?n) (zip entries blobs) = Inr rows"
    and img': "img = dtbo_layout (nat hs) (nat es) header rows blobs"
    using img ents(2) by (auto simp: bindR_Inr_iff)
  have "length r = 32" if "r \<in> set rows" for r
  proof -
    from that obtain i where "i < length rows" "r = rows ! i" by (auto simp: in_set_conv_nth)
    then show ?thesis
      using entry_rows_nth [OF rows] entry_rows_length [OF rows] by (auto intro: entry_row_length)
  qed
  then have "map (length \<circ> pad_to (nat es)) rows = replicate ?n (nat es)"
    using ge entry_rows_length [OF rows] ents(2)
    by (intro replicate_eqI) (auto simp: length_pad_to)
  then have tot: "length img = ?tot"
    using ge len by (simp add: img' dtbo_layout_def length_concat length_pad_to sum_list_replicate)
  have "32 \<le> nat hs" "32 \<le> nat es" using ge by linarith+
  then show ?thesis
    using that [of entries "nat hs" "nat es" "nat ps" "nat ver" rows] ents ints ge pos u32 rows tot
      img'
    by (simp add: header)
qed

section \<open>Packing, then extracting\<close>

text \<open>A blob \<open>dtbo_extract\<close> accepts: it starts with an FDT header whose size fits.\<close>

definition fdt_blob :: "byte list \<Rightarrow> bool" where
  "fdt_blob b = (40 \<le> length b \<and> field_at be_nat 4 b 0 = fdt_magic
     \<and> 40 \<le> field_at be_nat 4 b 4 \<and> field_at be_nat 4 b 4 \<le> length b)"

definition power_of_two :: "nat \<Rightarrow> bool" where
  "power_of_two p = (p \<noteq> 0 \<and> p AND (p - 1) = 0)"

lemma field_at_row:
  assumes "list_all is_u32 ns" "length us = off" "i < length ns"
  shows "field_at be_nat 4 (us @ concat (map be32 ns) @ ws) (off + 4 * i) = ns ! i"
proof -
  have "map (\<lambda>i. field_at be_nat 4 (us @ concat (map be32 ns) @ ws) (off + 4 * i)) [0..<length ns] = ns"
    unfolding field_at_def using assms
    by (intro be32.decode_embedded_row) (auto simp: list_all_iff is_u32_def)
  then show ?thesis using assms(3) by (metis (no_types, lifting) add_0 diff_zero length_upt nth_map_upt)
qed

lemma unpack_row:
  assumes "list_all is_u32 ns" "length us = off"
  shows "unpack_fields e be_nat 4 (length ns) (us @ concat (map be32 ns) @ ws) off = Inr ns"
proof -
  have "map (\<lambda>i. field_at be_nat 4 (us @ concat (map be32 ns) @ ws) (off + 4 * i)) [0..<length ns] = ns"
    using field_at_row [OF assms] by (intro nth_equalityI) simp_all
  then show ?thesis
    using assms(2) be32.length_row [of ns] by (simp add: unpack_fields_eq)
qed

text \<open>The entry that a row of the table and a blob give.\<close>

definition mk_entry :: "nat \<Rightarrow> nat \<Rightarrow> nat \<Rightarrow> nat \<Rightarrow> nat \<Rightarrow> nat list \<Rightarrow> dtbo_entry" where
  "mk_entry i sz off ident rv custom =
     \<lparr> e_index = i, e_file = overlay_name i ident rv, e_size = sz, e_offset = off,
       e_id = ident, e_rev = rv, e_custom = custom \<rparr>"

lemma read_entry_at:
  assumes "data = us @ concat (map be32 ([length blob, off, ident, rv] @ custom)) @ ws"
    and "length us = eo + i * es" "length custom = 4"
    and "list_all is_u32 ([length blob, off, ident, rv] @ custom)"
    and "data = us' @ blob @ ws'" "length us' = off" "fdt_blob blob"
    and "te \<le> off" "off + length blob \<le> tot"
  shows "read_entry data tot te eo es i = Inr (mk_entry i (length blob) off ident rv custom, blob)"
proof -
  let ?ns = "[length blob, off, ident, rv] @ custom"
  have "unpack_fields (Py_Exc StructError) be_nat 4 8 data (eo + i * es) = Inr ?ns"
    using unpack_row [of ?ns us "eo + i * es" _ ws] assms(1-4) by simp
  moreover have "pyslice data off (off + length blob) = blob"
    using assms(5,6) pyslice_append_exact by metis
  moreover have "custom = [custom ! 0, custom ! 1, custom ! 2, custom ! 3]"
    using assms(3) by (simp add: list_eq_iff_nth_eq less_Suc_eq numeral_eq_Suc)
  ultimately show ?thesis
    using assms(7-9)
    by (simp add: read_entry_def Let_def unpack_fields_eq fdt_blob_def mk_entry_def nth_append)
qed

lemma layout_row:
  assumes "length header \<le> hs" "\<forall>r \<in> set rows. length r \<le> es" "i < length rows"
  shows "\<exists>us ws. dtbo_layout hs es header rows blobs = us @ rows ! i @ ws \<and> length us = hs + i * es"
proof -
  have "rows = take i rows @ rows ! i # drop (Suc i) rows"
    using assms(3) by (rule id_take_nth_drop)
  then have "concat (map (pad_to es) rows)
      = concat (map (pad_to es) (take i rows)) @ rows ! i @ replicate (es - length (rows ! i)) 0
        @ concat (map (pad_to es) (drop (Suc i) rows))"
    by (metis append.assoc concat.simps(2) concat_append list.simps(9) map_append pad_to_def)
  moreover have "length (concat (map (pad_to es) (take i rows))) = i * es"
  proof -
    have "map (length \<circ> pad_to es) (take i rows) = replicate i es"
      using assms by (intro replicate_eqI) (auto simp: length_pad_to dest!: in_set_takeD)
    then show ?thesis by (simp add: length_concat sum_list_replicate)
  qed
  ultimately show ?thesis
    using assms(1)
    by - (rule exI [of _ "pad_to hs header @ concat (map (pad_to es) (take i rows))"],
        rule exI [of _ "replicate (es - length (rows ! i)) 0
          @ concat (map (pad_to es) (drop (Suc i) rows)) @ concat blobs"], simp add: dtbo_layout_def length_pad_to)
qed

lemma layout_blob:
  assumes "length header \<le> hs" "\<forall>r \<in> set rows. length r \<le> es" "i < length blobs"
  shows "\<exists>us ws. dtbo_layout hs es header rows blobs = us @ blobs ! i @ ws
           \<and> length us = hs + es * length rows + sum_list (map length (take i blobs))"
proof -
  have "blobs = take i blobs @ blobs ! i # drop (Suc i) blobs"
    using assms(3) by (rule id_take_nth_drop)
  then have "concat blobs = concat (take i blobs) @ blobs ! i @ concat (drop (Suc i) blobs)"
    by (metis concat.simps(2) concat_append)
  moreover have "map (length \<circ> pad_to es) rows = replicate (length rows) es"
    using assms(2) by (intro replicate_eqI) (auto simp: length_pad_to)
  ultimately show ?thesis
    using assms(1)
    by - (rule exI [of _ "pad_to hs header @ concat (map (pad_to es) rows) @ concat (take i blobs)"],
        rule exI [of _ "concat (drop (Suc i) blobs)"], simp add: dtbo_layout_def length_pad_to length_concat sum_list_replicate)
qed

definition blob_offset :: "nat \<Rightarrow> byte list list \<Rightarrow> nat \<Rightarrow> nat" where
  "blob_offset base blobs i = base + sum_list (map length (take i blobs))"

lemma sum_list_take_mono:
  "i \<le> j \<Longrightarrow> sum_list (take i xs) \<le> sum_list (take j xs :: nat list)"
  by (metis append_take_drop_id le_add1 min.absorb1 sum_list_append take_take)

lemma blob_offset_next:
  assumes "i < j" "i < length blobs"
  shows "blob_offset base blobs i + length (blobs ! i) \<le> blob_offset base blobs j"
proof -
  have "blob_offset base blobs i + length (blobs ! i) = base + sum_list (take (Suc i) (map length blobs))"
    using assms(2) by (simp add: blob_offset_def take_Suc_conv_app_nth take_map)
  also have "\<dots> \<le> base + sum_list (take j (map length blobs))"
    using assms(1) by (intro add_left_mono sum_list_take_mono) simp
  finally show ?thesis by (simp add: blob_offset_def take_map)
qed

lemma blob_offset_total:
  "i < length blobs \<Longrightarrow>
   blob_offset base blobs i + length (blobs ! i) \<le> base + sum_list (map length blobs)"
  using blob_offset_next [of i "length blobs" blobs base] by (simp add: blob_offset_def)

text \<open>Everything \<open>dtbo_extract\<close> reads from a packed image.\<close>

lemma dtbo_pack_reads:
  assumes pack: "dtbo_pack template blobs = Inr img"
    and ps: "get_int template ''page_size'' 4096 = Inr (int ps)" "power_of_two ps"
    and blobs: "blobs \<noteq> []" "\<forall>b \<in> set blobs. fdt_blob b"
    and ents: "py_get template ''entries'' = Inr (Some (PList entries))"
  obtains hs es ver idf rvf cuf where
    "get_int template ''header_size'' 32 = Inr (int hs)" "get_int template ''entry_size'' 32 = Inr (int es)"
    "get_int template ''version'' 0 = Inr (int ver)" "length entries = length blobs"
    "length img = hs + es * length blobs + sum_list (map length blobs)"
    "\<forall>i < length blobs. entry_says (entries ! i) (idf i) (rvf i) (cuf i)"
    "\<And>source. dtbo_extract source img = Inr
       (\<lparr> m_source = source, m_total_size = length img, m_header_size = hs, m_entry_size = es,
          m_entry_count = length blobs, m_page_size = ps, m_version = ver,
          m_entries = map (\<lambda>i. mk_entry i (length (blobs ! i))
            (blob_offset (hs + es * length blobs) blobs i) (idf i) (rvf i) (cuf i)) [0..<length blobs] \<rparr>,
        map (\<lambda>i. (overlay_name i (idf i) (rvf i), blobs ! i)) [0..<length blobs])"
proof -
  from pack obtain ents' hs es ps' ver rows where
    e: "py_get template ''entries'' = Inr (Some (PList ents'))" "length ents' = length blobs"
    and ints: "get_int template ''header_size'' 32 = Inr (int hs)"
      "get_int template ''entry_size'' 32 = Inr (int es)"
      "get_int template ''page_size'' 4096 = Inr (int ps')" "get_int template ''version'' 0 = Inr (int ver)"
    and ge: "32 \<le> hs" "32 \<le> es"
    and u32: "list_all is_u32 [dtbo_magic, length img, hs, es, length blobs, hs, ps', ver]"
    and rows: "entry_rows 0 (hs + es * length blobs) (zip ents' blobs) = Inr rows"
    and len: "length img = hs + es * length blobs + sum_list (map length blobs)"
    and img: "img = dtbo_layout hs es
      (concat (map be32 [dtbo_magic, length img, hs, es, length blobs, hs, ps', ver])) rows blobs"
    by (rule dtbo_pack_layout)
  have ents': "ents' = entries" and ps': "ps' = ps" using e(1) ents ints(3) ps(1) by auto
  let ?n = "length blobs" and ?te = "hs + es * length blobs"
  let ?hdr = "concat (map be32 [dtbo_magic, length img, hs, es, ?n, hs, ps, ver])"
  note img' = img [unfolded ps']
  let ?off = "blob_offset ?te blobs"
  have lrows: "length rows = ?n" using entry_rows_length [OF rows] e(2) by simp
  have row: "entry_row i (?off i) (entries ! i) (blobs ! i) = Inr (rows ! i)" if "i < ?n" for i
  proof -
    have "take i (zip entries blobs) = zip (take i entries) (take i blobs)" by (rule take_zip)
    then have "map (length \<circ> snd) (take i (zip entries blobs)) = map length (take i blobs)"
      using e(2) that by (simp add: ents' flip: map_map)
    then show ?thesis
      using entry_rows_nth [OF rows, of i] e(2) that by (simp add: ents' blob_offset_def)
  qed
  obtain idf rvf cuf where says: "\<forall>i < ?n. entry_says (entries ! i) (idf i) (rvf i) (cuf i)
      \<and> length (cuf i) = 4 \<and> list_all is_u32 ([length (blobs ! i), ?off i, idf i, rvf i] @ cuf i)
      \<and> rows ! i = concat (map be32 ([length (blobs ! i), ?off i, idf i, rvf i] @ cuf i))"
    using entry_row_says [OF row] by metis
  have small: "length ?hdr \<le> hs" "\<forall>r \<in> set rows. length r \<le> es"
    using ge row lrows entry_row_length unfolding be32.length_row
    by (auto simp: in_set_conv_nth) metis
  let ?v = "\<lambda>i. (mk_entry i (length (blobs ! i)) (?off i) (idf i) (rvf i) (cuf i), blobs ! i)"
  have rd: "read_entry img (length img) ?te hs es i = Inr (?v i)" if "i < ?n" for i
  proof -
    obtain us ws where u: "img = us @ rows ! i @ ws" "length us = hs + i * es"
      using layout_row [OF small, of i blobs, folded img'] \<open>i < ?n\<close> lrows by auto
    obtain us' ws' where b: "img = us' @ blobs ! i @ ws'" "length us' = ?off i"
      using layout_blob [OF small \<open>i < ?n\<close>, folded img'] lrows by (auto simp: blob_offset_def)
    have o: "?te \<le> ?off i" "?off i + length (blobs ! i) \<le> length img"
      using blob_offset_total [OF that, of ?te] len by (simp_all add: blob_offset_def)
    note si = says [rule_format, OF that]
    from u(1) si have "img = us @ concat (map be32 ([length (blobs ! i), ?off i, idf i, rvf i] @ cuf i)) @ ws"
      by metis
    from read_entry_at [OF this u(2) _ _ b _ o] show ?thesis
      using si blobs(2) that by simp
  qed
  have "sorted_wrt (\<lambda>a b. \<not> overlaps (interval_of b) (interval_of a)) (map ?v [0..<?n])"
    using blob_offset_next [of _ _ blobs ?te]
    by (auto simp: sorted_wrt_map sorted_wrt_iff_nth_less overlaps_def interval_of_def mk_entry_def
        not_less)
  then have ext: "extract_entries (read_entry img (length img) ?te hs es) [0..<?n] [] = Inr (map ?v [0..<?n])"
    using rd by (simp add: extract_entries_Inr_iff list_all2_conv_all_nth)
  have hdr: "unpack_fields (Py_Exc StructError) be_nat 4 8 img 0
      = Inr [dtbo_magic, length img, hs, es, ?n, hs, ps, ver]"
  proof -
    have "img = [] @ ?hdr @ replicate (hs - length ?hdr) 0 @ concat (map (pad_to es) rows) @ concat blobs"
      using img' unfolding dtbo_layout_def pad_to_def by (simp only: append.assoc append_Nil)
    then obtain ws where ws: "img = [] @ ?hdr @ ws" by blast
    have n8: "length [dtbo_magic, length img, hs, es, ?n, hs, ps, ver] = 8" by simp
    show ?thesis
      using unpack_row [OF u32 [unfolded ps'], of "[]" 0 "Py_Exc StructError" ws]
      unfolding ws [symmetric] n8 by simp
  qed
  have "dtbo_extract source img = Inr
       (\<lparr> m_source = source, m_total_size = length img, m_header_size = hs, m_entry_size = es,
          m_entry_count = ?n, m_page_size = ps, m_version = ver,
          m_entries = map (fst \<circ> ?v) [0..<?n] \<rparr>,
        map (\<lambda>i. (overlay_name i (idf i) (rvf i), blobs ! i)) [0..<?n])" for source
    using hdr ext ge len blobs(1) ps(2)
    by (simp add: dtbo_extract_def Let_def power_of_two_def mk_entry_def comp_def mult.commute [of ?n])
  then show ?thesis
    using that [of hs es ver idf rvf cuf] ints e(2) len says by (simp add: ents' comp_def)
qed

text \<open>
  Claim C4. Packing, then extracting. When the template's page size is a power of two and
  every blob is an FDT blob, an image that \<open>dtbo_pack\<close> writes is accepted by
  \<open>dtbo_extract\<close>, which returns the blobs in order and, for every entry, the id, the
  revision and the custom words of its metadata.
\<close>
theorem dtbo_pack_extract:
  assumes "dtbo_pack template blobs = Inr img"
    and "get_int template ''page_size'' 4096 = Inr (int ps)" "power_of_two ps"
    and "blobs \<noteq> []" "\<forall>b \<in> set blobs. fdt_blob b"
    and "py_get template ''entries'' = Inr (Some (PList entries))"
  shows "\<exists>m files. dtbo_extract source img = Inr (m, files) \<and> map snd files = blobs
    \<and> m_total_size m = length img \<and> m_page_size m = ps
    \<and> get_int template ''version'' 0 = Inr (int (m_version m))
    \<and> length (m_entries m) = length blobs
    \<and> (\<forall>i < length blobs.
          let e = m_entries m ! i in entry_says (entries ! i) (e_id e) (e_rev e) (e_custom e))"
proof (rule dtbo_pack_reads [OF assms], goal_cases)
  case (1 hs es ver idf rvf cuf)
  then show ?case by (simp add: comp_def map_nth mk_entry_def)
qed

section \<open>Extracting, then packing\<close>

text \<open>The manifest as \<open>json.loads\<close> gives it back to \<open>dtbo_pack.py --template\<close>.\<close>

definition entry_value :: "dtbo_entry \<Rightarrow> pyval" where
  "entry_value e = PDict
     [(''index'', PInt (int (e_index e))), (''file'', PStr (e_file e)),
      (''size'', PInt (int (e_size e))), (''offset'', PInt (int (e_offset e))),
      (''id'', PInt (int (e_id e))), (''rev'', PInt (int (e_rev e))),
      (''custom'', PList (map (\<lambda>c. PInt (int c)) (e_custom e)))]"

definition manifest_value :: "dtbo_manifest \<Rightarrow> pyval" where
  "manifest_value m = PDict
     [(''source'', PStr (m_source m)), (''total_size'', PInt (int (m_total_size m))),
      (''header_size'', PInt (int (m_header_size m))), (''entry_size'', PInt (int (m_entry_size m))),
      (''entry_count'', PInt (int (m_entry_count m))), (''page_size'', PInt (int (m_page_size m))),
      (''version'', PInt (int (m_version m))), (''entries'', PList (map entry_value (m_entries m)))]"

lemma manifest_value_ints [simp]:
  "get_int (manifest_value m) ''header_size'' d = Inr (int (m_header_size m))"
  "get_int (manifest_value m) ''entry_size'' d = Inr (int (m_entry_size m))"
  "get_int (manifest_value m) ''page_size'' d = Inr (int (m_page_size m))"
  "get_int (manifest_value m) ''version'' d = Inr (int (m_version m))"
  "py_get (manifest_value m) ''entries'' = Inr (Some (PList (map entry_value (m_entries m))))"
  by (simp_all add: manifest_value_def get_int_def)

lemma entry_value_ints [simp]:
  "get_int (entry_value e) ''id'' d = Inr (int (e_id e))"
  "get_int (entry_value e) ''rev'' d = Inr (int (e_rev e))"
  "py_get_default (entry_value e) ''custom'' dv = Inr (PList (map (\<lambda>c. PInt (int c)) (e_custom e)))"
  "is_dict (entry_value e)"
  by (simp_all add: entry_value_def get_int_def)

lemma mapR_py_int_ints [simp]: "mapR py_int (map (\<lambda>c. PInt (int c)) cs) = Inr (map int cs)"
  by (induction cs) simp_all

lemma entry_value_says:
  "entry_says (entry_value e) ident rv custom \<longleftrightarrow> ident = e_id e \<and> rv = e_rev e \<and> custom = e_custom e"
  by (auto simp: entry_says_def inj_map_eq_map)

lemma entry_row_value:
  assumes "entry_u32 e" "is_u32 (length blob)" "is_u32 current"
  shows "\<exists>row. entry_row index current (entry_value e) blob = Inr row"
proof -
  have "\<exists>row. pack_u32s (Py_Exc StructError) be32
      ([int (length blob), int current, int (e_id e), int (e_rev e)] @ map int (e_custom e)) = Inr row"
    using assms by (auto simp: pack_u32s_Inr_iff entry_u32_def is_u32_def list_all_iff)
  then show ?thesis
    using assms(1) by (simp add: entry_row_def entry_u32_def)
qed

lemma entry_rows_value:
  assumes "list_all entry_u32 es" "length blobs = length es"
    and "is_u32 (current + sum_list (map length blobs))"
  shows "\<exists>rows. entry_rows index current (zip (map entry_value es) blobs) = Inr rows"
  using assms
proof (induction es arbitrary: blobs index current)
  case (Cons e es)
  then obtain b bs where b: "blobs = b # bs" by (cases blobs) auto
  have "is_u32 (length b)" "is_u32 current"
    using Cons.prems(3) by (auto simp: b is_u32_def)
  then obtain row where "entry_row index current (entry_value e) b = Inr row"
    using entry_row_value [of e b current index] Cons.prems(1) by auto
  moreover obtain rows where
    "entry_rows (Suc index) (current + length b) (zip (map entry_value es) bs) = Inr rows"
    using Cons.IH [of bs "current + length b" "Suc index"] Cons.prems by (auto simp: b add.assoc)
  ultimately show ?case by (simp add: b)
qed simp

text \<open>Disjoint payloads inside a range are together no longer than the range.\<close>

lemma disjoint_payloads_fit:
  assumes "sorted_wrt (\<lambda>a b. \<not> overlaps (interval_of b) (interval_of a)) vs"
    and "\<forall>v \<in> set vs. lo \<le> e_offset (fst v) \<and> e_offset (fst v) + e_size (fst v) \<le> hi"
  shows "sum_list (map (e_size \<circ> fst) vs) \<le> hi - lo"
proof -
  let ?r = "\<lambda>v. {e_offset (fst v)..<e_offset (fst v) + e_size (fst v)}"
  have "card (\<Union>v \<in> set ws. ?r v) = sum_list (map (e_size \<circ> fst) ws)"
    if "sorted_wrt (\<lambda>a b. \<not> overlaps (interval_of b) (interval_of a)) ws" for ws
    using that
  proof (induction ws)
    case (Cons w ws)
    have "?r w \<inter> (\<Union>v \<in> set ws. ?r v) = {}"
      using Cons.prems by (force simp: overlaps_def interval_of_def)
    then show ?case using Cons by (simp add: card_Un_disjoint)
  qed simp
  from this [OF assms(1)] have "sum_list (map (e_size \<circ> fst) vs) = card (\<Union>v \<in> set vs. ?r v)" by simp
  also have "\<dots> \<le> card {lo..<hi}"
    using assms(2) by (intro card_mono) (auto dest!: bspec)
  finally show ?thesis by simp
qed

lemma dtbo_pack_manifest:
  assumes "length (m_entries m) = length blobs" "list_all entry_u32 (m_entries m)"
    and "32 \<le> m_header_size m" "32 \<le> m_entry_size m"
    and "is_u32 (m_header_size m + m_entry_size m * length blobs + sum_list (map length blobs))"
    and "is_u32 (m_page_size m)" "is_u32 (m_version m)" "blobs \<noteq> []"
  shows "\<exists>img. dtbo_pack (manifest_value m) blobs = Inr img
           \<and> length img = m_header_size m + m_entry_size m * length blobs + sum_list (map length blobs)"
proof -
  let ?hs = "m_header_size m" and ?es = "m_entry_size m" and ?ents = "map entry_value (m_entries m)"
  let ?vs = "[dtbo_magic, ?hs + ?es * length ?ents + sum_list (map length blobs), ?hs, ?es,
    length ?ents, ?hs, m_page_size m, m_version m]"
  have le: "?es \<le> ?es * length blobs" "length blobs \<le> ?es * length blobs"
    using assms(4,8) by (simp_all add: Suc_le_eq)
  have "?es < 2 ^ 32" "length blobs < 2 ^ 32" "?hs < 2 ^ 32"
    using assms(5) [unfolded is_u32_def] le by linarith+
  then have "list_all is_u32 ?vs"
    using assms(1,5-7) by (simp add: is_u32_def dtbo_magic_def)
  then have "pack_u32s (Py_Exc StructError) be32 (map int ?vs) = Inr (concat (map be32 ?vs))"
    by (auto simp: pack_u32s_Inr_iff is_u32_def simp del: of_nat_add of_nat_mult)
  moreover obtain rows where
    "entry_rows 0 (?hs + ?es * length blobs) (zip ?ents blobs) = Inr rows"
    using entry_rows_value [of "m_entries m" blobs "?hs + ?es * length blobs"] assms(1,2,5) by auto
  moreover have "length (concat (map be32 ?vs)) = 32" unfolding be32.length_row by simp
  note pack_entries_start [OF assms(3,4) _ this, of ?ents blobs]
  ultimately have "\<exists>img. dtbo_pack (manifest_value m) blobs = Inr img"
    using assms(1,3,4) by (simp add: dtbo_pack_def Let_def del: of_nat_add of_nat_mult)
  then obtain img where img: "dtbo_pack (manifest_value m) blobs = Inr img" by blast
  then have "length img = ?hs + ?es * length blobs + sum_list (map length blobs)"
    by (rule dtbo_pack_layout) simp
  with img show ?thesis by blast
qed

text \<open>
  Claim C5. Extracting, then packing with the extracted manifest as the template: packing
  succeeds whatever the extracted container was, the new image is no longer than the
  declared size of the old one, and extracting it gives the same files and the same
  manifest, except for the source name, the total size and the payload offsets.
\<close>
theorem dtbo_repack_preserves:
  assumes "dtbo_extract source data = Inr (m, files)"
  shows "\<exists>img m'. dtbo_pack (manifest_value m) (map snd files) = Inr img
    \<and> dtbo_extract source' img = Inr (m', files) \<and> length img \<le> m_total_size m
    \<and> map (\<lambda>e. e \<lparr> e_offset := 0 \<rparr>) (m_entries m') = map (\<lambda>e. e \<lparr> e_offset := 0 \<rparr>) (m_entries m)
    \<and> m' = m \<lparr> m_source := source', m_total_size := length img, m_entries := m_entries m' \<rparr>"
proof (rule dtbo_extract_validated [OF assms], goal_cases)
  case (1 vs)
  let ?blobs = "map snd vs" and ?hs = "m_header_size m" and ?es = "m_entry_size m"
  let ?te = "?hs + m_entry_count m * ?es"
  have files: "map snd files = ?blobs" using 1(2) by (simp add: comp_def split_def)
  have snd: "length (snd v) = e_size (fst v)" "fdt_blob (snd v)" "?te \<le> e_offset (fst v)"
    "e_offset (fst v) + e_size (fst v) \<le> m_total_size m" if "v \<in> set vs" for v
    using 1(5) that by (auto simp: entry_sound_def fdt_blob_def Let_def)
  have "vs \<noteq> []" using 1(3,4) by auto
  then have "?te \<le> m_total_size m" using snd [of "hd vs"] by simp
  moreover have "map length ?blobs = map (e_size \<circ> fst) vs" using snd(1) by simp
  then have "sum_list (map length ?blobs) \<le> m_total_size m - ?te"
    using disjoint_payloads_fit [OF 1(6)] snd(3,4) by metis
  ultimately have fits: "?hs + ?es * length ?blobs + sum_list (map length ?blobs) \<le> m_total_size m"
    using 1(3) by (simp add: mult.commute)
  have u32: "list_all entry_u32 (m_entries m)" using 1(1,8) by (simp add: list_all_iff)
  obtain img where img: "dtbo_pack (manifest_value m) ?blobs = Inr img" "length img \<le> m_total_size m"
    using dtbo_pack_manifest [of m ?blobs] 1 fits u32 \<open>vs \<noteq> []\<close> by (auto simp: is_u32_def)
  show ?case
  proof (rule dtbo_pack_reads [OF img(1), of "m_page_size m" "map entry_value (m_entries m)"], goal_cases)
    case (6 hs es ver idf rvf cuf)
    have e: "e_index (fst (vs ! i)) = i" "e_file (fst (vs ! i)) = overlay_name i (idf i) (rvf i)"
      "idf i = e_id (fst (vs ! i))" "rvf i = e_rev (fst (vs ! i))" "cuf i = e_custom (fst (vs ! i))"
      "e_size (fst (vs ! i)) = length (snd (vs ! i))" if "i < length vs" for i
      using 6(6) 1(7) [OF that] snd(1) [of "vs ! i"] that by (auto simp: 1(1) entry_value_says)
    have "map (\<lambda>i. (overlay_name i (idf i) (rvf i), ?blobs ! i)) [0..<length ?blobs] = files"
      using e(2) by (intro nth_equalityI) (simp_all add: 1(2) split_def)
    moreover have "map (\<lambda>e. e \<lparr> e_offset := 0 \<rparr>) (map (\<lambda>i. mk_entry i (length (?blobs ! i))
        (blob_offset (hs + es * length ?blobs) ?blobs i) (idf i) (rvf i) (cuf i)) [0..<length ?blobs])
      = map (\<lambda>e. e \<lparr> e_offset := 0 \<rparr>) (m_entries m)"
      using e by (intro nth_equalityI) (simp_all add: 1(1) mk_entry_def)
    ultimately show ?case
      using img 6(1-3) 6(7) [of source'] 1(3) by (simp add: files del: map_map)
  qed (use 1 snd \<open>vs \<noteq> []\<close> in \<open>auto simp: power_of_two_def\<close>)
qed

section \<open>Concrete instances\<close>

theorem dtbo_repack_preserves_witness:
  "\<exists>img m'. dtbo_pack (manifest_value sample_manifest) [sample_blob, sample_blob] = Inr img
     \<and> dtbo_extract ''again'' img = Inr (m',
          [(overlay_name 0 1 0, sample_blob), (overlay_name 1 2 3, sample_blob)])
     \<and> length img \<le> 176"
proof -
  have "m_total_size sample_manifest = 176" by (simp add: sample_manifest_def)
  then show ?thesis
    using dtbo_repack_preserves [OF sample_dtbo_extracts, of "''again''"] by auto
qed

theorem dtbo_pack_extract_witness:
  "\<exists>img m files. dtbo_pack (manifest_value sample_manifest) [sample_blob, sample_blob] = Inr img
     \<and> dtbo_extract ''again'' img = Inr (m, files) \<and> map snd files = [sample_blob, sample_blob]"
proof -
  obtain img where img: "dtbo_pack (manifest_value sample_manifest) [sample_blob, sample_blob] = Inr img"
    using dtbo_pack_manifest [of sample_manifest "[sample_blob, sample_blob]"]
    by (auto simp: sample_manifest_def entry_u32_def is_u32_def sample_blob_fields)
  have "get_int (manifest_value sample_manifest) ''page_size'' 4096 = Inr (int 2048)"
    by (simp add: sample_manifest_def)
  moreover have "power_of_two 2048"
  proof -
    have "(2048 :: nat) AND 2047 = 0" by simp
    then show ?thesis by (simp add: power_of_two_def)
  qed
  moreover have "fdt_blob sample_blob"
    by (simp add: fdt_blob_def sample_blob_fields)
  ultimately show ?thesis
    using dtbo_pack_extract [OF img, of 2048 _ "''again''"] img by auto
qed

end
