(* ===== verification/Fdt_Scan.thy ===== *)
theory Fdt_Scan
  imports Py_Bytes Py_Format Py_Value
begin

text \<open>
  \<open>tools/fdt_scan.py\<close>: finds the flattened device trees embedded in a binary image. The
  loop of \<open>main\<close> searches the magic from a cursor, reads the header and either skips the
  magic or records the blob and continues behind it. The reference definition is a greedy
  selection over all positions; the loop computes it although it only visits the
  positions where the magic occurs, because the magic does not overlap itself.
\<close>

section \<open>The scanner\<close>

definition fdt_magic_bytes :: "byte list" where
  "fdt_magic_bytes = [0xd0, 0x0d, 0xfe, 0xed]"

definition min_header :: nat where "min_header = 40"
definition max_dtb :: nat where "max_dtb = 64 * 1024 * 1024"

text \<open>\<open>data.find(pat, cursor)\<close> for a non-empty pattern: \<open>None\<close> is the code's -1.\<close>

fun find_at :: "byte list \<Rightarrow> nat \<Rightarrow> byte list \<Rightarrow> nat option" where
  "find_at pat pos [] = None"
| "find_at pat pos (x # xs) =
     (if starts_with (x # xs) pat then Some pos else find_at pat (Suc pos) xs)"

definition find_from :: "byte list \<Rightarrow> byte list \<Rightarrow> nat \<Rightarrow> nat option" where
  "find_from pat data cursor = find_at pat cursor (drop cursor data)"

record fdt_entry =
  f_file :: string
  f_offset :: nat
  f_size :: nat
  f_version :: nat
  f_last_compatible :: nat

definition fdt_name :: "nat \<Rightarrow> nat \<Rightarrow> string" where
  "fdt_name index off = ''fdt-'' @ fmt_dec 2 index @ ''-offset-'' @ fmt_hex 8 off @ ''.dtb''"

definition fdt_header :: "byte list \<Rightarrow> nat \<Rightarrow> (pyexc, nat \<times> nat \<times> nat) res" where
  "fdt_header data off =
     bindR (unpack_fields StructError be_nat 4 1 data (off + 4)) (\<lambda>sz.
     bindR (unpack_fields StructError be_nat 4 1 data (off + 20)) (\<lambda>ver.
     bindR (unpack_fields StructError be_nat 4 1 data (off + 24)) (\<lambda>last_comp.
       Inr (sz ! 0, ver ! 0, last_comp ! 0))))"

lemma find_at_Some:
  assumes "find_at pat pos xs = Some off"
  shows "pos \<le> off \<and> off < pos + length xs \<and> starts_with (drop (off - pos) xs) pat
    \<and> (\<forall>p. pos \<le> p \<longrightarrow> p < off \<longrightarrow> \<not> starts_with (drop (p - pos) xs) pat)"
  using assms
proof (induction pat pos xs rule: find_at.induct)
  case (2 pat pos x xs)
  show ?case
  proof (cases "starts_with (x # xs) pat")
    case False
    with 2 have "find_at pat (Suc pos) xs = Some off" by simp
    note ih = 2(1) [OF False this]
    have "drop (p - pos) (x # xs) = drop (p - Suc pos) xs" if "Suc pos \<le> p" for p
      using that by (simp add: drop_Cons' )
    with ih have "\<forall>p. Suc pos \<le> p \<longrightarrow> p < off \<longrightarrow> \<not> starts_with (drop (p - pos) (x # xs)) pat"
      and "starts_with (drop (off - pos) (x # xs)) pat" by auto
    then show ?thesis
      using ih False by (auto simp: le_eq_less_or_eq [of pos])
  qed (use 2 in auto)
qed simp

lemma find_at_None:
  "find_at pat pos xs = None \<Longrightarrow> i < length xs \<Longrightarrow> \<not> starts_with (drop i xs) pat"
proof (induction pat pos xs arbitrary: i rule: find_at.induct)
  case (2 pat pos x xs)
  then show ?case by (cases i) (auto split: if_splits)
qed simp

lemma find_from_Some:
  assumes "find_from pat data cursor = Some off"
  shows "cursor \<le> off" "off < length data" "starts_with (drop off data) pat"
    and "\<And>p. cursor \<le> p \<Longrightarrow> p < off \<Longrightarrow> \<not> starts_with (drop p data) pat"
  using find_at_Some [OF assms [unfolded find_from_def]] by (auto simp: add.commute)

lemma find_from_bounds: "find_from pat data cursor = Some off \<Longrightarrow> cursor \<le> off \<and> off < length data"
  using find_from_Some by blast

lemma find_from_None:
  assumes "find_from pat data cursor = None" "cursor \<le> p" "p < length data"
  shows "\<not> starts_with (drop p data) pat"
  using find_at_None [of pat cursor "drop cursor data" "p - cursor"] assms
  by (simp add: find_from_def)

lemma starts_with_length: "starts_with xs pat \<Longrightarrow> length pat \<le> length xs"
  by (metis starts_with_def length_take min.cobounded1)

function scan ::
    "byte list \<Rightarrow> nat \<Rightarrow> (fdt_entry \<times> byte list) list \<Rightarrow> (pyexc, (fdt_entry \<times> byte list) list) res"
where
  "scan data cursor found =
     (case find_from fdt_magic_bytes data cursor of
        None \<Rightarrow> Inr found
      | Some off \<Rightarrow>
          if off + min_header > length data then scan data (off + 4) found
          else bindR (fdt_header data off) (\<lambda>(total_size, version, last_compatible).
            if \<not> (min_header \<le> total_size \<and> total_size \<le> max_dtb) then scan data (off + 4) found
            else if off + total_size > length data \<or> \<not> (1 \<le> version \<and> version \<le> 17)
            then scan data (off + 4) found
            else scan data (off + total_size)
                   (found @ [(\<lparr> f_file = fdt_name (length found) off, f_offset = off,
                                f_size = total_size, f_version = version,
                                f_last_compatible = last_compatible \<rparr>,
                              pyslice data off (off + total_size))])))"
  by pat_completeness auto
termination
  by (relation "measure (\<lambda>(data, cursor, found). length data - cursor)")
     (auto dest!: find_from_bounds simp: min_header_def)

declare scan.simps [simp del]

text \<open>
  \<open>main\<close>: mapping an empty file raises \<open>ValueError\<close>; the exit status is 1 when nothing
  was found.
\<close>

definition fdt_scan :: "byte list \<Rightarrow> (pyexc, nat \<times> (fdt_entry \<times> byte list) list) res" where
  "fdt_scan data =
     guardR (data \<noteq> []) ValueError
       (bindR (scan data 0 []) (\<lambda>found. Inr (if found = [] then 1 else 0, found)))"

section \<open>The greedy selection\<close>

definition size_at :: "byte list \<Rightarrow> nat \<Rightarrow> nat" where
  "size_at data off = field_at be_nat 4 data (off + 4)"

definition valid_fdt :: "byte list \<Rightarrow> nat \<Rightarrow> bool" where
  "valid_fdt data off =
     (starts_with (drop off data) fdt_magic_bytes
      \<and> 40 \<le> size_at data off \<and> size_at data off \<le> max_dtb
      \<and> off + size_at data off \<le> length data
      \<and> 1 \<le> field_at be_nat 4 data (off + 20) \<and> field_at be_nat 4 data (off + 20) \<le> 17)"

fun greedy :: "byte list \<Rightarrow> nat \<Rightarrow> nat list \<Rightarrow> nat list" where
  "greedy data free [] = []"
| "greedy data free (p # ps) =
     (if free \<le> p \<and> valid_fdt data p then p # greedy data (p + size_at data p) ps
      else greedy data free ps)"

definition fdt_entry_at :: "byte list \<Rightarrow> nat \<Rightarrow> nat \<Rightarrow> fdt_entry \<times> byte list" where
  "fdt_entry_at data index off =
     (\<lparr> f_file = fdt_name index off, f_offset = off, f_size = size_at data off,
        f_version = field_at be_nat 4 data (off + 20),
        f_last_compatible = field_at be_nat 4 data (off + 24) \<rparr>,
      pyslice data off (off + size_at data off))"

lemma fdt_header_eq:
  "off + 40 \<le> length data \<Longrightarrow> fdt_header data off =
     Inr (size_at data off, field_at be_nat 4 data (off + 20), field_at be_nat 4 data (off + 24))"
  by (simp add: fdt_header_def unpack_fields_eq size_at_def)

text \<open>The magic does not overlap itself.\<close>

lemma magic_no_overlap:
  assumes "starts_with (drop off data) fdt_magic_bytes" "off < p" "p < off + 4"
  shows "\<not> starts_with (drop p data) fdt_magic_bytes"
proof
  assume "starts_with (drop p data) fdt_magic_bytes"
  then have "data ! p = 0xd0"
    using starts_with_length [of "drop p data" fdt_magic_bytes]
    by (auto simp: starts_with_def fdt_magic_bytes_def take_Suc_conv_app_nth numeral_eq_Suc)
  moreover have "data ! (off + 1) = 0x0d" "data ! (off + 2) = 0xfe" "data ! (off + 3) = 0xed"
    using assms(1) starts_with_length [of "drop off data" fdt_magic_bytes]
    by (auto simp: starts_with_def fdt_magic_bytes_def take_Suc_conv_app_nth numeral_eq_Suc)
  moreover have "p = off + 1 \<or> p = off + 2 \<or> p = off + 3" using assms(2,3) by linarith
  ultimately show False by auto
qed

lemma greedy_skip:
  "a \<le> b \<Longrightarrow> b \<le> n \<Longrightarrow> (\<And>p. a \<le> p \<Longrightarrow> p < b \<Longrightarrow> \<not> (free \<le> p \<and> valid_fdt data p)) \<Longrightarrow>
   greedy data free [a..<n] = greedy data free [b..<n]"
proof (induction "b - a" arbitrary: a)
  case (Suc k)
  then have "[a..<n] = a # [Suc a..<n]" by (simp add: upt_conv_Cons)
  with Suc show ?case by auto
qed simp

lemma greedy_free: "free \<le> a \<Longrightarrow> free' \<le> a \<Longrightarrow> greedy data free [a..<n] = greedy data free' [a..<n]"
proof (induction "n - a" arbitrary: a)
  case (Suc k)
  then have "[a..<n] = a # [Suc a..<n]" by (simp add: upt_conv_Cons)
  with Suc show ?case by auto
qed simp

lemma greedy_subset: "set (greedy data free ps) \<subseteq> {p \<in> set ps. free \<le> p \<and> valid_fdt data p}"
proof (induction data free ps rule: greedy.induct)
  case (2 data free p ps)
  show ?case
  proof (cases "free \<le> p \<and> valid_fdt data p")
    case True
    then show ?thesis using "2.IH"(1) [OF True] by force
  qed (use 2 in auto)
qed simp

lemma greedy_spaced: "sorted_wrt (\<lambda>a b. a + size_at data a \<le> b) (greedy data free ps)"
proof (induction data free ps rule: greedy.induct)
  case (2 data free p ps)
  then show ?case using greedy_subset [of data "p + size_at data p" ps] by auto
qed simp

lemma greedy_covers:
  "sorted_wrt (<) ps \<Longrightarrow> p \<in> set ps \<Longrightarrow> free \<le> p \<Longrightarrow> valid_fdt data p \<Longrightarrow>
   \<exists>a \<in> set (greedy data free ps). a \<le> p \<and> p < a + size_at data a"
proof (induction data free ps rule: greedy.induct)
  case (2 data free q ps)
  show ?case
  proof (cases "free \<le> q \<and> valid_fdt data q")
    case True
    then have "0 < size_at data q" by (simp add: valid_fdt_def)
    moreover have "q \<le> p" using 2(3,4) by auto
    ultimately show ?thesis
      using "2.IH"(1) [OF True] 2(3,4,6) True by (cases "p < q + size_at data q") auto
  qed (use 2 in auto)
qed simp

lemma scan_skip:
  assumes "find_from fdt_magic_bytes data cursor = Some off" "\<not> valid_fdt data off"
    and "off + 4 \<le> length data"
  shows "greedy data cursor [cursor..<length data] = greedy data (off + 4) [off + 4..<length data]"
proof -
  note f = find_from_Some [OF assms(1)]
  have "\<not> valid_fdt data p" if "cursor \<le> p" "p < off + 4" for p
    using f(4) [of p] magic_no_overlap [OF f(3)] assms(2) that
    by (cases p off rule: linorder_cases) (auto simp: valid_fdt_def)
  then have "greedy data cursor [cursor..<length data] = greedy data cursor [off + 4..<length data]"
    using f(1) assms(3) by (intro greedy_skip) auto
  also have "\<dots> = greedy data (off + 4) [off + 4..<length data]"
    using f(1) by (intro greedy_free) auto
  finally show ?thesis .
qed

lemma scan_take:
  assumes "find_from fdt_magic_bytes data cursor = Some off" "valid_fdt data off"
  shows "greedy data cursor [cursor..<length data]
    = off # greedy data (off + size_at data off) [off + size_at data off..<length data]"
proof -
  note f = find_from_Some [OF assms(1)]
  let ?e = "off + size_at data off"
  have "greedy data cursor [cursor..<length data] = greedy data cursor [off..<length data]"
    using f by (intro greedy_skip) (auto simp: valid_fdt_def)
  also have "\<dots> = off # greedy data ?e [Suc off..<length data]"
    using f(1,2) assms(2) by (simp add: upt_conv_Cons)
  also have "greedy data ?e [Suc off..<length data] = greedy data ?e [?e..<length data]"
    using assms(2) by (intro greedy_skip) (auto simp: valid_fdt_def)
  finally show ?thesis .
qed

lemma scan_greedy:
  "scan data cursor found = Inr (found @ map (\<lambda>(i, off). fdt_entry_at data i off)
     (enumerate (length found) (greedy data cursor [cursor..<length data])))"
proof (induction data cursor found rule: scan.induct)
  case (1 data cursor found)
  show ?case
  proof (cases "find_from fdt_magic_bytes data cursor")
    case None
    have "greedy data cursor [cursor..<length data] = []"
    proof (cases "cursor \<le> length data")
      case True
      then have "greedy data cursor [cursor..<length data] = greedy data cursor [length data..<length data]"
        using find_from_None [OF None] by (intro greedy_skip) (auto simp: valid_fdt_def)
      then show ?thesis by simp
    qed simp
    with None show ?thesis by (simp add: scan.simps [of data cursor])
  next
    case (Some off)
    note f = find_from_Some [OF Some]
    have four: "off + 4 \<le> length data"
      using starts_with_length [OF f(3)] f(2) by (simp add: fdt_magic_bytes_def)
    show ?thesis
    proof (cases "valid_fdt data off")
      case True
      then have "off + 40 \<le> length data" by (auto simp: valid_fdt_def)
      with True show ?thesis
        using 1(4) [OF Some _ fdt_header_eq] Some scan_take [OF Some True]
        by (simp add: scan.simps [of data cursor] fdt_header_eq min_header_def valid_fdt_def
            fdt_entry_at_def)
    next
      case False
      have "scan data cursor found = scan data (off + 4) found"
        using False Some f(3)
        by (auto simp: scan.simps [of data cursor] fdt_header_eq min_header_def valid_fdt_def)
      also have "\<dots> = Inr (found @ map (\<lambda>(i, off). fdt_entry_at data i off)
          (enumerate (length found) (greedy data (off + 4) [off + 4..<length data])))"
        using 1(1) [OF Some] 1(2,3) [OF Some _ fdt_header_eq] False f(3)
        by (cases "off + 40 \<le> length data"; cases "size_at data off \<le> max_dtb")
           (auto simp: min_header_def valid_fdt_def)
      finally show ?thesis
        unfolding scan_skip [OF Some False four] .
    qed
  qed
qed

section \<open>Properties\<close>

definition fdt_offsets :: "byte list \<Rightarrow> nat list" where
  "fdt_offsets data = greedy data 0 [0..<length data]"

lemma fdt_scan_eq:
  "fdt_scan data =
     (if data = [] then Inl ValueError
      else Inr (if fdt_offsets data = [] then 1 else 0,
                map (\<lambda>(i, off). fdt_entry_at data i off) (enumerate 0 (fdt_offsets data))))"
proof (cases "fdt_offsets data")
  case (Cons off offs)
  then show ?thesis by (simp add: fdt_scan_def scan_greedy fdt_offsets_def)
qed (simp add: fdt_scan_def scan_greedy fdt_offsets_def)

text \<open>
  Claim C20. The scan loop terminates on every image, never raises \<open>struct.error\<close>, and
  returns exactly the greedy selection of the valid device trees, named and numbered in
  order; the exit status is 1 exactly when there is none, and an empty file raises
  \<open>ValueError\<close>.
\<close>
theorem fdt_scan_is_greedy:
  "fdt_scan data =
     (if data = [] then Inl ValueError
      else Inr (if fdt_offsets data = [] then 1 else 0,
                map (\<lambda>(i, off). fdt_entry_at data i off) (enumerate 0 (fdt_offsets data))))"
  by (rule fdt_scan_eq)

lemma fdt_name_index: "fdt_name i a = fdt_name j b \<Longrightarrow> i = j"
proof -
  let ?t = "\<lambda>n x. fmt_dec 2 n @ ''-offset-'' @ fmt_hex 8 x @ ''.dtb''"
  have t: "takeWhile (\<lambda>ch. ch \<noteq> CHR ''-'') (?t n x) = fmt_dec 2 n" for n x
    using fmt_dec_no_dash [of 2 n] by (subst takeWhile_append2) auto
  assume "fdt_name i a = fdt_name j b"
  then have "?t i a = ?t j b" by (simp add: fdt_name_def)
  then have "fmt_dec 2 i = fmt_dec 2 j" by (metis t)
  then show ?thesis by simp
qed

lemma fdt_scan_found:
  assumes "fdt_scan data = Inr (status, found)"
  shows "length found = length (fdt_offsets data)"
    and "i < length found \<Longrightarrow> found ! i = fdt_entry_at data i (fdt_offsets data ! i)"
proof -
  have "found = map (\<lambda>(i, off). fdt_entry_at data i off) (enumerate 0 (fdt_offsets data))"
    using assms by (simp add: fdt_scan_eq split: if_splits)
  then show "length found = length (fdt_offsets data)"
    and "i < length found \<Longrightarrow> found ! i = fdt_entry_at data i (fdt_offsets data ! i)"
    by (simp_all add: nth_enumerate_eq)
qed

text \<open>
  What a finished scan reports: every blob written is a valid device tree of the
  image (magic, declared size between 40 bytes and 64 MiB and inside the image, version
  1 to 17) and is the byte range its entry names; the blobs come in increasing order
  without sharing a byte and under distinct names; and no valid device tree is missed: each one
  starts inside a reported blob.
\<close>
theorem fdt_scan_sound_complete:
  assumes "fdt_scan data = Inr (status, found)"
  shows "(\<forall>(e, blob) \<in> set found.
        valid_fdt data (f_offset e) \<and> f_size e = size_at data (f_offset e)
        \<and> blob = pyslice data (f_offset e) (f_offset e + f_size e) \<and> length blob = f_size e)
    \<and> sorted_wrt (\<lambda>a b. f_offset (fst a) + f_size (fst a) \<le> f_offset (fst b)) found
    \<and> distinct (map (\<lambda>(e, _). f_file e) found)
    \<and> (\<forall>p. valid_fdt data p \<longrightarrow>
         (\<exists>(e, _) \<in> set found. f_offset e \<le> p \<and> p < f_offset e + f_size e))"
proof -
  let ?o = "fdt_offsets data"
  note found = fdt_scan_found [OF assms]
  have f: "found ! i = fdt_entry_at data i (?o ! i)" if "i < length ?o" for i
    using found(1,2) that by simp
  have valid: "valid_fdt data p" if "p \<in> set ?o" for p
    using greedy_subset that by (auto simp: fdt_offsets_def)
  have "\<forall>(e, blob) \<in> set found. valid_fdt data (f_offset e) \<and> f_size e = size_at data (f_offset e)
      \<and> blob = pyslice data (f_offset e) (f_offset e + f_size e) \<and> length blob = f_size e"
  proof
    fix x assume "x \<in> set found"
    then obtain i where i: "i < length ?o" "x = fdt_entry_at data i (?o ! i)"
      using found(1) f by (metis in_set_conv_nth)
    then show "case x of (e, blob) \<Rightarrow> valid_fdt data (f_offset e) \<and> f_size e = size_at data (f_offset e)
        \<and> blob = pyslice data (f_offset e) (f_offset e + f_size e) \<and> length blob = f_size e"
      using valid [of "?o ! i"] by (simp add: fdt_entry_at_def) (simp add: valid_fdt_def)
  qed
  moreover have "sorted_wrt (\<lambda>a b. f_offset (fst a) + f_size (fst a) \<le> f_offset (fst b)) found"
    using greedy_spaced [of data 0 "[0..<length data]"] found(1) f
    by (simp add: sorted_wrt_iff_nth_less fdt_offsets_def fdt_entry_at_def)
  moreover have "distinct (map (\<lambda>(e, _). f_file e) found)"
    using found(1) f fdt_name_index
    by (auto simp: distinct_conv_nth fdt_entry_at_def)
  moreover have "\<exists>(e, _) \<in> set found. f_offset e \<le> p \<and> p < f_offset e + f_size e"
    if p: "valid_fdt data p" for p
  proof -
    have "p < length data" using p by (simp add: valid_fdt_def)
    then obtain i where i: "i < length ?o" "?o ! i \<le> p" "p < ?o ! i + size_at data (?o ! i)"
      using greedy_covers [of "[0..<length data]" p 0 data] p
      by (auto simp: fdt_offsets_def in_set_conv_nth)
    then show ?thesis
      using found(1) f [OF i(1)] nth_mem [of i found] by (force simp: fdt_entry_at_def)
  qed
  ultimately show ?thesis by blast
qed

text \<open>An image with two device trees, the second behind a header that is too short.\<close>

definition sample_fdt :: "byte list" where
  "sample_fdt = fdt_magic_bytes @ be32 40 @ replicate 12 0 @ be32 17 @ be32 16 @ replicate 12 0"

definition sample_image :: "byte list" where
  "sample_image = [1, 2, 3] @ sample_fdt @ fdt_magic_bytes @ be32 39 @ sample_fdt"

lemma sample_image_valid: "valid_fdt sample_image 51"
proof -
  have "drop 51 sample_image = sample_fdt"
    by (simp add: sample_image_def sample_fdt_def fdt_magic_bytes_def)
  moreover have "starts_with sample_fdt fdt_magic_bytes"
    by (simp add: starts_with_def sample_fdt_def fdt_magic_bytes_def)
  moreover have "length sample_image = 91"
    by (simp add: sample_image_def sample_fdt_def fdt_magic_bytes_def)
  ultimately show ?thesis
    by (simp add: valid_fdt_def size_at_def max_dtb_def)
      (simp add: sample_image_def sample_fdt_def layout is_u32_def fdt_magic_bytes_def)
qed

theorem fdt_scan_sound_complete_witness:
  "\<exists>status found. fdt_scan sample_image = Inr (status, found)
     \<and> (\<exists>(e, blob) \<in> set found. f_offset e \<le> 51 \<and> 51 < f_offset e + f_size e)"
proof -
  have "sample_image \<noteq> []" by (simp add: sample_image_def)
  then obtain status found where f: "fdt_scan sample_image = Inr (status, found)"
    by (simp add: fdt_scan_eq)
  show ?thesis
    using fdt_scan_sound_complete [OF f] sample_image_valid f by fast
qed

end
