(* ===== verification/P0_Fingerprint.thy ===== *)
theory P0_Fingerprint
  imports Py_Bytes Py_Format Py_Value
begin

text \<open>
  \<open>tools/rmg-eze4/generate_p0_fingerprint.py\<close>, extraction and checks: the loop over the
  slides (a partial function, since a step of zero never ends), the readback, and the
  part of \<open>main\<close> that decides whether a table is accepted.
\<close>

section \<open>Extraction\<close>

definition p0_offsets :: "nat list" where
  "p0_offsets = [0x000, 0x200, 0x400, 0x600, 0x800, 0xa00, 0xc00, 0xe00]"

definition p0_words :: nat where "p0_words = length p0_offsets"

datatype p0_error =
    Slide_Exceeds_Probe int
  | Source_Out_Of_Range nat nat
  | P0_Struct_Error
  | Zero_Division
  | Row_Count nat int
  | Short_Read nat int
  | Readback_Mismatch int nat nat nat
  | P0_Index_Error

type_synonym p0_row = "int \<times> int \<times> nat list"

definition read_word :: "byte list \<Rightarrow> nat \<Rightarrow> nat \<Rightarrow> (p0_error, nat) res" where
  "read_word img page_source page_offset =
     (let source_offset = page_source + page_offset
      in guardR (\<not> source_offset + 8 > length img) (Source_Out_Of_Range source_offset (length img))
           (bindR (unpack_fields P0_Struct_Error le_nat 8 1 img source_offset)
              (\<lambda>fs. Inr (fs ! 0))))"

definition read_words :: "byte list \<Rightarrow> nat \<Rightarrow> (p0_error, nat list) res" where
  "read_words img page_source = mapR (read_word img page_source) p0_offsets"

partial_function (option) extract_rows ::
    "byte list \<Rightarrow> int \<Rightarrow> int \<Rightarrow> int \<Rightarrow> p0_row list \<Rightarrow> (p0_error, p0_row list) res option"
where
  "extract_rows img probe_offset step slide rows =
     (if slide \<le> probe_offset then
        (let page_source = probe_offset - slide
         in if page_source < 0 then Some (Inl (Slide_Exceeds_Probe slide))
            else case read_words img (nat page_source) of
                   Inl e \<Rightarrow> Some (Inl e)
                 | Inr words \<Rightarrow>
                     extract_rows img probe_offset step (slide + step)
                       (rows @ [(slide, page_source, words)]))
      else Some (Inr rows))"

definition extract_fingerprints ::
    "byte list \<Rightarrow> int \<Rightarrow> int \<Rightarrow> (p0_error, p0_row list) res option" where
  "extract_fingerprints img probe_offset step = extract_rows img probe_offset step 0 []"

section \<open>Readback\<close>

definition verify_word ::
    "byte list \<Rightarrow> int \<Rightarrow> nat \<Rightarrow> nat list \<Rightarrow> nat \<Rightarrow> (p0_error, unit) res" where
  "verify_word img slide page_source words idx =
     (let src_off = page_source + p0_offsets ! idx;
          chunk = pyslice img src_off (src_off + 8)
      in guardR (length chunk = 8) (Short_Read src_off slide)
           (guardR (idx < length words) P0_Index_Error
             (guardR (le_nat chunk = words ! idx)
                (Readback_Mismatch slide src_off (words ! idx) (le_nat chunk)) (Inr ()))))"

definition verify_row :: "byte list \<Rightarrow> p0_row \<Rightarrow> (p0_error, unit) res" where
  "verify_row img row =
     (case row of (slide, page_source, words) \<Rightarrow>
        bindR (mapR (verify_word img slide (nat page_source) words) [0..<p0_words]) (\<lambda>_. Inr ()))"

definition verify_readback :: "byte list \<Rightarrow> p0_row list \<Rightarrow> (p0_error, bool) res" where
  "verify_readback img rows = bindR (mapR (verify_row img) rows) (\<lambda>_. Inr True)"

section \<open>The checks of \<open>main\<close>\<close>

text \<open>
  \<open>main\<close> from the computation of the expected number of rows to the readback. \<open>//\<close> is
  Python's floor division; the program reads the image file a second time for the
  readback, so the second content is an argument of its own.
\<close>

definition p0_run ::
    "byte list \<Rightarrow> byte list \<Rightarrow> int \<Rightarrow> int \<Rightarrow> (p0_error, p0_row list) res option" where
  "p0_run img reread probe_offset step =
     (if step = 0 then Some (Inl Zero_Division)
      else let expected_rows = probe_offset div step + 1
           in case extract_fingerprints img probe_offset step of
                None \<Rightarrow> None
              | Some (Inl e) \<Rightarrow> Some (Inl e)
              | Some (Inr rows) \<Rightarrow>
                  Some (guardR (int (length rows) = expected_rows) (Row_Count (length rows) expected_rows)
                         (bindR (verify_readback reread rows) (\<lambda>_. Inr rows))))"

section \<open>What the loop computes\<close>

definition word_at :: "byte list \<Rightarrow> nat \<Rightarrow> nat" where
  "word_at img off = field_at le_nat 8 img off"

definition row_at :: "byte list \<Rightarrow> int \<Rightarrow> int \<Rightarrow> p0_row" where
  "row_at img probe slide =
     (slide, probe - slide, map (\<lambda>d. word_at img (nat (probe - slide) + d)) p0_offsets)"

lemma read_word_eq:
  "read_word img ps po =
     (if ps + po + 8 \<le> length img then Inr (word_at img (ps + po))
      else Inl (Source_Out_Of_Range (ps + po) (length img)))"
  by (simp add: read_word_def Let_def guardR_def unpack_fields_eq word_at_def)

lemma read_words_ok:
  "ps + 0xe08 \<le> length img \<Longrightarrow>
   read_words img ps = Inr (map (\<lambda>d. word_at img (ps + d)) p0_offsets)"
  unfolding read_words_def
  by (rule mapR_all_Inr) (auto simp: read_word_eq p0_offsets_def)

lemma read_words_Inr: "read_words img ps = Inr ws \<Longrightarrow> ps + 0xe08 \<le> length img"
  by (auto simp: read_words_def p0_offsets_def read_word_eq bindR_Inr_iff split: if_splits)

lemma extract_rows_up:
  assumes "0 < step" "probe - slide + 0xe08 \<le> int (length img)" "0 \<le> slide"
  shows "extract_rows img probe step slide rows =
    Some (Inr (rows @ map (\<lambda>k. row_at img probe (slide + int k * step))
                        [0..<nat ((probe - slide) div step + 1)]))"
  using assms(2,3)
proof (induction "nat (probe - slide + 1)" arbitrary: slide rows rule: less_induct)
  case less
  show ?case
  proof (cases "slide \<le> probe")
    case True
    let ?n = "nat ((probe - slide) div step)"
    have div: "0 \<le> (probe - slide) div step" using True assms(1) by (simp add: pos_imp_zdiv_nonneg_iff)
    have "(probe - (slide + step)) div step + 1 = (probe - slide) div step"
      using assms(1) div_add_self2 [of step "probe - (slide + step)"] by simp
    then have ih: "extract_rows img probe step (slide + step) rows' =
        Some (Inr (rows' @ map (\<lambda>k. row_at img probe (slide + step + int k * step)) [0..<?n]))" for rows'
      using less.hyps [of "slide + step" rows'] less.prems True assms(1) by simp
    have "[0..<nat ((probe - slide) div step + 1)] = 0 # map Suc [0..<?n]"
      using div by (simp add: nat_add_distrib upt_conv_Cons map_Suc_upt del: upt_Suc)
    moreover have "read_words img (nat (probe - slide))
        = Inr (map (\<lambda>d. word_at img (nat (probe - slide) + d)) p0_offsets)"
      using less.prems True by (intro read_words_ok) linarith
    ultimately show ?thesis
      using True by (subst extract_rows.simps) (simp add: ih row_at_def comp_def algebra_simps Let_def)
  next
    case False
    then have "(probe - slide) div step + 1 \<le> 0"
      using assms(1) div_neg_pos_less0 [of "probe - slide" step] by simp
    with False show ?thesis by (subst extract_rows.simps) simp
  qed
qed

text \<open>The first slide reads highest: when it fails, its first failing word is reported.\<close>

definition first_out_of_range :: "byte list \<Rightarrow> nat \<Rightarrow> nat" where
  "first_out_of_range img page_source = page_source + hd (filter (\<lambda>d. length img < page_source + d + 8) p0_offsets)"

lemma read_words_fail:
  assumes "\<not> ps + 0xe08 \<le> length img"
  shows "read_words img ps = Inl (Source_Out_Of_Range (first_out_of_range img ps) (length img))"
proof -
  have "mapR (read_word img ps) ds = Inl (Source_Out_Of_Range
      (ps + hd (filter (\<lambda>d. length img < ps + d + 8) ds)) (length img))"
    if "\<exists>d \<in> set ds. length img < ps + d + 8" for ds
    using that by (induction ds) (fastforce simp: read_word_eq)+
  moreover have "\<exists>d \<in> set p0_offsets. length img < ps + d + 8"
    using assms by (auto simp: p0_offsets_def)
  ultimately show ?thesis
    unfolding read_words_def first_out_of_range_def by blast
qed

lemma extract_fingerprints_eq:
  assumes "0 < step"
  shows "extract_fingerprints img probe step = Some
    (if probe < 0 then Inr []
     else if nat probe + 0xe08 \<le> length img
       then Inr (map (\<lambda>k. row_at img probe (int k * step)) [0..<nat (probe div step + 1)])
       else Inl (Source_Out_Of_Range (first_out_of_range img (nat probe)) (length img)))"
proof -
  consider "probe < 0" | "0 \<le> probe" "nat probe + 0xe08 \<le> length img"
    | "0 \<le> probe" "\<not> nat probe + 0xe08 \<le> length img" by linarith
  then show ?thesis
  proof cases
    case 1
    then show ?thesis unfolding extract_fingerprints_def by (subst extract_rows.simps) simp
  next
    case 2
    then show ?thesis
      using extract_rows_up [OF assms, of probe 0 img "[]"] by (simp add: extract_fingerprints_def)
  next
    case 3
    then show ?thesis
      unfolding extract_fingerprints_def
      by (subst extract_rows.simps) (simp add: read_words_fail del: One_nat_def)
  qed
qed

text \<open>A negative step reads ever higher and runs out of the image.\<close>

lemma extract_rows_down:
  assumes "step < 0" "slide \<le> probe"
  shows "\<exists>e. extract_rows img probe step slide rows = Some (Inl e)"
  using assms(2)
proof (induction "nat (int (length img) - (probe - slide))" arbitrary: slide rows rule: less_induct)
  case less
  show ?case
  proof (cases "read_words img (nat (probe - slide))")
    case (Inl e)
    with less.prems show ?thesis by (subst extract_rows.simps) simp
  next
    case (Inr ws)
    then have "nat (probe - slide) + 0xe08 \<le> length img" by (rule read_words_Inr)
    then have "\<exists>e. extract_rows img probe step (slide + step) rows' = Some (Inl e)" for rows'
      using less.prems assms(1) by (intro less.hyps) linarith+
    with Inr less.prems show ?thesis by (subst extract_rows.simps) simp
  qed
qed

text \<open>A step of zero on a readable image: the loop never ends.\<close>

lemma extract_rows_stuck:
  assumes "read_words img (nat probe) = Inr ws" "0 \<le> probe"
  shows "extract_rows img probe 0 0 rows = None"
proof (rule ccontr)
  assume "extract_rows img probe 0 0 rows \<noteq> None"
  then obtain r where r: "extract_rows img probe 0 0 rows = Some r" by blast
  let ?P = "\<lambda>i p st sl (rs :: p0_row list) (y :: (p0_error, p0_row list) res). i = img \<longrightarrow> p = probe \<longrightarrow> st = (0 :: int) \<longrightarrow> sl \<noteq> (0 :: int)"
  have "?P img probe 0 0 rows r"
    by (rule extract_rows.raw_induct [of ?P, OF _ r])
       (use assms in \<open>fastforce simp: Let_def split: if_splits sum.splits\<close>)
  then show False by simp
qed

section \<open>Properties\<close>

text \<open>The table of all slides.\<close>

definition p0_table :: "byte list \<Rightarrow> int \<Rightarrow> int \<Rightarrow> p0_row list" where
  "p0_table img probe step = map (\<lambda>k. row_at img probe (int k * step)) [0..<nat (probe div step + 1)]"

text \<open>The 64 bytes a row covers are the same in another file.\<close>

definition same_bytes :: "byte list \<Rightarrow> byte list \<Rightarrow> nat \<Rightarrow> bool" where
  "same_bytes img reread off =
     (off + 8 \<le> length reread \<and> pyslice reread off (off + 8) = pyslice img off (off + 8))"

lemma le_nat_8_inj:
  "length a = 8 \<Longrightarrow> length b = 8 \<Longrightarrow> le_nat a = le_nat b \<longleftrightarrow> a = b"
  by (metis le64.enc_dec)

lemma verify_word_iff:
  assumes "idx < p0_words" "nat (probe - slide) + 0xe08 \<le> length img"
  shows "verify_word reread slide (nat (probe - slide)) (snd (snd (row_at img probe slide))) idx = Inr ()
    \<longleftrightarrow> same_bytes img reread (nat (probe - slide) + p0_offsets ! idx)"
proof -
  let ?s = "nat (probe - slide) + p0_offsets ! idx"
  have "p0_offsets ! idx \<le> 0xe00"
    using assms(1) by (auto simp: p0_words_def p0_offsets_def less_Suc_eq numeral_eq_Suc)
  then have "length (pyslice img ?s (?s + 8)) = 8" using assms(2) by simp
  moreover have "length (pyslice reread ?s (?s + 8)) = 8 \<longleftrightarrow> ?s + 8 \<le> length reread"
    by (auto simp: length_pyslice)
  ultimately show ?thesis
    using assms(1) le_nat_8_inj [of "pyslice reread ?s (?s + 8)" "pyslice img ?s (?s + 8)"]
    by (auto simp: verify_word_def Let_def guardR_Inr_iff row_at_def same_bytes_def word_at_def
        field_at_def p0_words_def)
qed

lemma mapR_unit_iff: "(\<exists>us. mapR f xs = Inr us) \<longleftrightarrow> (\<forall>x \<in> set xs. \<exists>u. f x = Inr u)"
  by (induction xs) (auto simp: bindR_Inr_iff)

lemma verify_readback_iff:
  assumes "\<forall>r \<in> set rows. \<exists>slide. r = row_at img probe slide \<and> nat (probe - slide) + 0xe08 \<le> length img"
  shows "verify_readback reread rows = Inr b \<longleftrightarrow> b \<and>
    (\<forall>(_, ps, _) \<in> set rows. \<forall>d \<in> set p0_offsets. same_bytes img reread (nat ps + d))"
proof -
  have "verify_row reread r = Inr u \<longleftrightarrow>
      (\<forall>d \<in> set p0_offsets. same_bytes img reread (nat (fst (snd r)) + d))" if "r \<in> set rows" for r u
  proof -
    obtain slide where r: "r = row_at img probe slide" "nat (probe - slide) + 0xe08 \<le> length img"
      using bspec [OF assms \<open>r \<in> set rows\<close>] by auto
    have "verify_row reread r = Inr u \<longleftrightarrow> (\<exists>us. mapR (verify_word reread slide (nat (probe - slide))
        (snd (snd (row_at img probe slide)))) [0..<p0_words] = Inr us)"
      unfolding verify_row_def r(1) split_def bindR_Inr_iff by (simp add: row_at_def)
    also have "\<dots> \<longleftrightarrow> (\<forall>idx < p0_words. same_bytes img reread (nat (probe - slide) + p0_offsets ! idx))"
      unfolding mapR_unit_iff using verify_word_iff [OF _ r(2)] by auto
    finally show ?thesis
      by (auto simp: r(1) row_at_def p0_words_def all_set_conv_all_nth)
  qed
  then have "(\<exists>us. mapR (verify_row reread) rows = Inr us) \<longleftrightarrow>
      (\<forall>r \<in> set rows. \<forall>d \<in> set p0_offsets. same_bytes img reread (nat (fst (snd r)) + d))"
    unfolding mapR_unit_iff by auto
  then show ?thesis
    by (auto simp: verify_readback_def bindR_Inr_iff split_def)
qed

lemma p0_table_rows:
  assumes "0 < step" "0 \<le> probe" "nat probe + 0xe08 \<le> length img" "r \<in> set (p0_table img probe step)"
  shows "\<exists>slide. r = row_at img probe slide \<and> nat (probe - slide) + 0xe08 \<le> length img"
proof -
  from assms(4) obtain k where "r = row_at img probe (int k * step)" by (auto simp: p0_table_def)
  moreover have "0 \<le> int k * step" using assms(1) by simp
  then have "nat (probe - int k * step) \<le> nat probe" by linarith
  then have "nat (probe - int k * step) + 0xe08 \<le> length img" using assms(3) by linarith
  ultimately show ?thesis by blast
qed

text \<open>
  The extraction loop on a positive step: it returns (it does not run forever);
  it fails exactly when the last word of slide 0 lies outside the image, naming the first
  offset that does; otherwise the table has \<open>probe div step + 1\<close> rows, row \<open>k\<close> for slide
  \<open>k * step\<close> holding the eight little-endian words of its page.
\<close>
theorem extract_fingerprints_spec:
  assumes "0 < step" "0 \<le> probe"
  shows "extract_fingerprints img probe step = Some
    (if nat probe + 0xe08 \<le> length img then Inr (p0_table img probe step)
     else Inl (Source_Out_Of_Range (first_out_of_range img (nat probe)) (length img)))
   \<and> length (p0_table img probe step) = nat (probe div step) + 1
   \<and> (\<forall>k < length (p0_table img probe step).
        p0_table img probe step ! k = row_at img probe (int k * step) \<and> int k * step \<le> probe)"
proof -
  have div: "0 \<le> probe div step" using assms by (simp add: pos_imp_zdiv_nonneg_iff)
  then have len: "length (p0_table img probe step) = nat (probe div step) + 1"
    by (simp add: p0_table_def nat_add_distrib)
  have "int k * step \<le> probe" if "k < nat (probe div step) + 1" for k
  proof -
    have "int k * step \<le> probe div step * step"
      using that div assms by (intro mult_right_mono) auto
    also have "\<dots> \<le> probe" using assms by (simp add: minus_mod_eq_div_mult [symmetric])
    finally show ?thesis .
  qed
  moreover have "p0_table img probe step ! k = row_at img probe (int k * step)"
    if "k < length (p0_table img probe step)" for k
    using that by (simp add: p0_table_def del: upt_Suc)
  moreover have "extract_fingerprints img probe step = Some
    (if nat probe + 0xe08 \<le> length img then Inr (p0_table img probe step)
     else Inl (Source_Out_Of_Range (first_out_of_range img (nat probe)) (length img)))"
    using assms by (simp add: extract_fingerprints_eq p0_table_def)
  ultimately show ?thesis
    by (simp add: len)
qed

text \<open>
  The whole run always ends, although the extraction loop alone would not for a
  step of zero (the division that computes the expected number of rows raises first). It
  accepts a table exactly when the step is positive and either the probe offset is
  negative and at least \<open>- step\<close> (an empty table, which passes unnoticed), or the image
  is long enough, the rows are the full table, and the second read of the file shows the
  same bytes at every word of the table.
\<close>
theorem p0_run_accepts:
  "(\<exists>r. p0_run img reread probe step = Some r)
   \<and> (p0_run img reread probe step = Some (Inr rows) \<longleftrightarrow>
        0 < step \<and> (if probe < 0 then - step \<le> probe \<and> rows = []
          else nat probe + 0xe08 \<le> length img \<and> rows = p0_table img probe step
               \<and> (\<forall>(_, ps, _) \<in> set rows. \<forall>d \<in> set p0_offsets.
                     same_bytes img reread (nat ps + d))))
   \<and> (0 \<le> probe \<longrightarrow> nat probe + 0xe08 \<le> length img \<longrightarrow> extract_fingerprints img probe 0 = None)"
proof -
  have stuck: "extract_fingerprints img probe 0 = None" if "0 \<le> probe" "nat probe + 0xe08 \<le> length img"
    unfolding extract_fingerprints_def by (rule extract_rows_stuck [OF read_words_ok [OF that(2)] that(1)])
  consider "step = 0" | "step < 0" "0 \<le> probe" | "step < 0" "probe < 0" | "0 < step" "probe < 0"
    | "0 < step" "0 \<le> probe" by linarith
  then show ?thesis
  proof cases
    case 1
    with stuck show ?thesis by (simp add: p0_run_def)
  next
    case 2
    then obtain e where "extract_fingerprints img probe step = Some (Inl e)"
      using extract_rows_down unfolding extract_fingerprints_def by blast
    with 2 stuck show ?thesis by (simp add: p0_run_def Let_def)
  next
    case 3
    then have "extract_fingerprints img probe step = Some (Inr [])"
      unfolding extract_fingerprints_def by (subst extract_rows.simps) simp
    moreover have "0 \<le> probe div step" using 3 by (simp add: neg_imp_zdiv_nonneg_iff)
    ultimately show ?thesis using 3 by (simp add: p0_run_def Let_def guardR_def)
  next
    case 4
    then have "extract_fingerprints img probe step = Some (Inr [])"
      by (simp add: extract_fingerprints_eq)
    moreover have "probe div step + 1 = 0 \<longleftrightarrow> - step \<le> probe"
    proof -
      have "probe div step + 1 = (probe + step) div step" using 4 by simp
      then show ?thesis using 4 zdiv_eq_0_iff [of "probe + step" step] by auto
    qed
    ultimately show ?thesis
      using 4 by (auto simp: p0_run_def Let_def guardR_def verify_readback_def)
  next
    case 5
    then have "int (length (p0_table img probe step)) = probe div step + 1"
      by (simp add: p0_table_def pos_imp_zdiv_nonneg_iff)
    moreover have "nat probe + 0xe08 \<le> length img \<Longrightarrow> verify_readback reread (p0_table img probe step) = Inr b \<longleftrightarrow> b \<and>
        (\<forall>(_, ps, _) \<in> set (p0_table img probe step). \<forall>d \<in> set p0_offsets. same_bytes img reread (nat ps + d))" for b
      using p0_table_rows [OF 5] by (intro verify_readback_iff) blast
    ultimately show ?thesis
      using 5 stuck by (auto simp: p0_run_def Let_def extract_fingerprints_eq p0_table_def [symmetric]
          guardR_Inr_iff bindR_Inr_iff)
  qed
qed

section \<open>Concrete instances\<close>

definition zero_image :: "byte list" where "zero_image = replicate 0x2000 0"

lemma length_zero_image: "length zero_image = 0x2000"
  by (simp add: zero_image_def)

theorem extract_fingerprints_spec_witness:
  "\<exists>rows. extract_fingerprints zero_image 0x1000 0x400 = Some (Inr rows) \<and> length rows = 5"
  using extract_fingerprints_spec [of "0x400" "0x1000" zero_image]
  by (simp add: length_zero_image)

theorem p0_run_accepts_witness:
  "p0_run zero_image zero_image 0 0x4000 = Some (Inr [row_at zero_image 0 0])
   \<and> extract_fingerprints zero_image 0 0 = None"
proof -
  have "p0_table zero_image 0 0x4000 = [row_at zero_image 0 0]" by (simp add: p0_table_def)
  moreover have "\<forall>d \<in> set p0_offsets. same_bytes zero_image zero_image d"
    by (simp add: p0_offsets_def same_bytes_def length_zero_image)
  ultimately show ?thesis
    using p0_run_accepts [of zero_image zero_image 0 "0x4000" "[row_at zero_image 0 0]"]
    by (simp add: length_zero_image) (simp add: row_at_def)
qed

end
