(* ===== verification/Py_Text.thy ===== *)
theory Py_Text
  imports Py_Value Py_Format Py_Bytes "HOL-Library.List_Lexorder" "HOL-Library.Char_ord"
begin

text \<open>
  Python's string operations as the tools use them: joining, splitting, stripping, lower
  case, hexadecimal digits, decimal and hexadecimal formatting of an \<open>int\<close>, \<open>repr\<close> and
  the string literals of \<open>json.dumps\<close>. Strings are lists of 8-bit characters, and their
  order is the order of code points, so \<open>sort\<close> is Python's \<open>sorted\<close>.
\<close>

section \<open>Lines and pieces\<close>

definition nl :: string where "nl = [CHR 0x0A]"

text \<open>\<open>{v:0wx}\<close>: the sign counts towards the width.\<close>

definition fmt_hex_int :: "nat \<Rightarrow> int \<Rightarrow> string" where
  "fmt_hex_int w v = (if v < 0 then CHR ''-'' # fmt_hex (w - 1) (nat (- v)) else fmt_hex w (nat v))"

fun join :: "string \<Rightarrow> string list \<Rightarrow> string" where
  "join sep [] = []"
| "join sep [s] = s"
| "join sep (s # t # ss) = s @ sep @ join sep (t # ss)"

text \<open>\<open>s.split(c)\<close> for a one-character separator.\<close>

fun split_char :: "char \<Rightarrow> string \<Rightarrow> string list" where
  "split_char c [] = [[]]"
| "split_char c (d # ds) =
     (if d = c then [] # split_char c ds
      else case split_char c ds of [] \<Rightarrow> [[d]] | p # ps \<Rightarrow> (d # p) # ps)"

lemma split_char_not_Nil [simp]: "split_char c s \<noteq> []"
  by (induction s) (auto split: list.splits)

lemma join_split_char: "join [c] (split_char c s) = s"
proof (induction s)
  case (Cons d ds)
  then show ?case
    by (cases "split_char c ds"; cases "tl (split_char c ds)") auto
qed simp

lemma split_char_free: "p \<in> set (split_char c s) \<Longrightarrow> c \<notin> set p"
  by (induction s arbitrary: p) (auto split: list.splits if_splits)

definition py_rstrip :: "string \<Rightarrow> string" where
  "py_rstrip s = rev (dropWhile py_space (rev s))"

text \<open>\<open>s.lower()\<close> on code points below 256.\<close>

definition lower_char :: "char \<Rightarrow> char" where
  "lower_char c =
     (let n = of_char c :: nat
      in if (65 \<le> n \<and> n \<le> 90) \<or> (192 \<le> n \<and> n \<le> 222 \<and> n \<noteq> 215) then char_of (n + 32) else c)"

definition py_lower :: "string \<Rightarrow> string" where "py_lower s = map lower_char s"

definition ends_with :: "string \<Rightarrow> string \<Rightarrow> bool" where
  "ends_with s suf = (length suf \<le> length s \<and> drop (length s - length suf) s = suf)"

section \<open>Numbers\<close>

definition is_hex :: "char \<Rightarrow> bool" where
  "is_hex c = (let n = of_char c :: nat
     in (48 \<le> n \<and> n \<le> 57) \<or> (97 \<le> n \<and> n \<le> 102) \<or> (65 \<le> n \<and> n \<le> 70))"

definition hex_digit :: "char \<Rightarrow> nat" where
  "hex_digit c = (let n = of_char c :: nat
     in if n \<le> 57 then n - 48 else if n \<le> 70 then n - 55 else n - 87)"

definition hex_value :: "string \<Rightarrow> nat" where
  "hex_value s = foldl (\<lambda>a c. a * 16 + hex_digit c) 0 s"

definition fmt_int :: "int \<Rightarrow> string" where
  "fmt_int i = (if i < 0 then CHR ''-'' # fmt_dec 0 (nat (- i)) else fmt_dec 0 (nat i))"

definition fmt_nat :: "nat \<Rightarrow> string" where "fmt_nat n = fmt_dec 0 n"

section \<open>Literals\<close>

text \<open>\<open>repr(s)\<close>: what is not printable is written as an escape.\<close>

definition printable :: "char \<Rightarrow> bool" where
  "printable c = (let n = of_char c :: nat in 32 \<le> n \<and> \<not> (127 \<le> n \<and> n \<le> 160) \<and> n \<noteq> 173)"

definition repr_char :: "char \<Rightarrow> char \<Rightarrow> string" where
  "repr_char q c =
     (if c = q \<or> c = CHR 0x5C then [CHR 0x5C, c]
      else if c = CHR 0x09 then [CHR 0x5C, CHR ''t''] else if c = CHR 0x0A then [CHR 0x5C, CHR ''n'']
      else if c = CHR 0x0D then [CHR 0x5C, CHR ''r'']
      else if printable c then [c] else [CHR 0x5C, CHR ''x''] @ fmt_hex 2 (of_char c))"

definition py_repr :: "string \<Rightarrow> string" where
  "py_repr s =
     (let q = (if CHR 0x27 \<in> set s \<and> CHR 0x22 \<notin> set s then CHR 0x22 else CHR 0x27)
      in [q] @ concat (map (repr_char q) s) @ [q])"

text \<open>\<open>json.dumps(s, ensure_ascii=False)\<close>.\<close>

definition json_char :: "char \<Rightarrow> string" where
  "json_char c =
     (if c = CHR 0x22 \<or> c = CHR 0x5C then [CHR 0x5C, c]
      else if c = CHR 0x0A then [CHR 0x5C, CHR ''n''] else if c = CHR 0x0D then [CHR 0x5C, CHR ''r'']
      else if c = CHR 0x09 then [CHR 0x5C, CHR ''t''] else if c = CHR 0x08 then [CHR 0x5C, CHR ''b'']
      else if c = CHR 0x0C then [CHR 0x5C, CHR ''f'']
      else if of_char c < (32 :: nat) then [CHR 0x5C, CHR ''u''] @ fmt_hex 4 (of_char c) else [c])"

definition json_str :: "string \<Rightarrow> string" where
  "json_str s = [CHR 0x22] @ concat (map json_char s) @ [CHR 0x22]"

end
