(* ===== verification/P0_Header.thy ===== *)
theory P0_Header
  imports P0_Fingerprint Py_Text
begin

text \<open>
  The text side of \<open>tools/rmg-eze4/generate_p0_fingerprint.py\<close>: \<open>format_header\<close>,
  \<open>format_csv\<close>, the regular expressions of \<open>parse_header_file\<close> and the comparison of a
  table with a reference header. The two patterns are written out as matchers: no two of
  their adjacent parts accept the same character, so they match in one way only and no
  backtracking is needed. The main result is that a generated header parses back to the
  table it was made from.
\<close>

section \<open>Formatting\<close>

definition word_lit :: "nat list \<Rightarrow> nat \<Rightarrow> string" where
  "word_lit words i = ''0x'' @ fmt_hex 16 (words ! i) @ ''ULL''"

definition row_lines :: "p0_row \<Rightarrow> string list" where
  "row_lines row = (case row of (slide, _, words) \<Rightarrow>
     [''  { 0x'' @ fmt_hex_int 6 slide @ ''ULL, { '' @ word_lit words 0 @ '', '' @ word_lit words 1 @ '','',
      ''    '' @ word_lit words 2 @ '', '' @ word_lit words 3 @ '','',
      ''    '' @ word_lit words 4 @ '', '' @ word_lit words 5 @ '','',
      ''    '' @ word_lit words 6 @ '', '' @ word_lit words 7 @ '' } },''])"

definition header_preamble :: "nat \<Rightarrow> int \<Rightarrow> int \<Rightarrow> string list" where
  "header_preamble n probe_offset step =
     [''// Generated from the exact raw Image.'',
      ''// Probe offset 0x'' @ fmt_hex_int 0 probe_offset @ '', step 0x'' @ fmt_hex_int 0 step
        @ '' ('' @ fmt_dec 0 n @ '' candidates).'',
      ''#ifndef P0_FINGERPRINT_H'',
      ''#define P0_FINGERPRINT_H'',
      '''',
      ''#define P0_FINGERPRINT_WORDS '' @ fmt_dec 0 p0_words,
      '''',
      ''static const uint16_t p0_fingerprint_offsets[P0_FINGERPRINT_WORDS] = {'',
      ''  0x000, 0x200, 0x400, 0x600, 0x800, 0xa00, 0xc00, 0xe00,'',
      ''};'',
      '''',
      ''struct p0_fingerprint {'',
      ''  uintptr_t slide;'',
      ''  uint64_t words[P0_FINGERPRINT_WORDS];'',
      ''};'',
      '''',
      ''static const struct p0_fingerprint p0_fingerprints[] = {'']"

definition format_header :: "p0_row list \<Rightarrow> int \<Rightarrow> int \<Rightarrow> string" where
  "format_header rows probe_offset step =
     join nl (header_preamble (length rows) probe_offset step
              @ concat (map row_lines rows) @ [''};'', '''', ''#endif'', ''''])"

definition csv_header :: string where
  "csv_header = ''slide,image_offset,word_000,word_200,word_400,word_600,word_800,word_a00,word_c00,word_e00'' @ nl"

definition format_csv :: "p0_row list \<Rightarrow> string" where
  "format_csv rows = csv_header @ concat (map (\<lambda>(slide, page_source, words).
     ''0x'' @ fmt_hex_int 6 slide @ '',0x'' @ fmt_hex_int 6 page_source @ '',''
       @ join '','' (map (\<lambda>w. ''0x'' @ fmt_hex 16 w) words) @ nl) rows)"

section \<open>Parsing\<close>

text \<open>\<open>(0x[0-9a-fA-F]+)ULL\<close> at the start of the text: the value and the rest.\<close>

definition match_hex :: "string \<Rightarrow> (nat \<times> string) option" where
  "match_hex s =
     (if \<not> starts_with s ''0x'' then None
      else let digits = takeWhile is_hex (drop 2 s); rest = dropWhile is_hex (drop 2 s)
           in if digits \<noteq> [] \<and> starts_with rest ''ULL'' then Some (hex_value digits, drop 3 rest)
              else None)"

definition eat :: "char \<Rightarrow> string \<Rightarrow> string option" where
  "eat c s = (case s of [] \<Rightarrow> None | d # ds \<Rightarrow> if d = c then Some ds else None)"

text \<open>The entry pattern: slide, brace-free body, closing braces.\<close>

definition match_entry :: "string \<Rightarrow> (nat \<times> string \<times> string) option" where
  "match_entry s =
     Option.bind (eat (CHR ''{'') s) (\<lambda>s1.
     Option.bind (match_hex (dropWhile py_space s1)) (\<lambda>(slide, s2).
     Option.bind (eat (CHR '','') (dropWhile py_space s2)) (\<lambda>s3.
     Option.bind (eat (CHR ''{'') (dropWhile py_space s3)) (\<lambda>s4.
     let body = takeWhile (\<lambda>c. c \<noteq> CHR ''}'') s4
     in if body = [] then None
        else Option.bind (eat (CHR ''}'') (dropWhile (\<lambda>c. c \<noteq> CHR ''}'') s4)) (\<lambda>s5.
             Option.bind (eat (CHR ''}'') (dropWhile py_space s5)) (\<lambda>s6.
               Some (slide, body, s6)))))))"

lemma eat_length: "eat c s = Some t \<Longrightarrow> length t < length s"
  by (auto simp: eat_def split: list.splits if_splits)

lemma match_hex_length: "match_hex s = Some (v, t) \<Longrightarrow> length t < length s"
proof -
  assume m: "match_hex s = Some (v, t)"
  then have "t = drop 3 (dropWhile is_hex (drop 2 s))" "2 \<le> length s"
    using m by (auto simp: match_hex_def Let_def starts_with_prefix split: if_splits dest: prefix_length_le)
  moreover have "length (dropWhile is_hex (drop 2 s)) \<le> length (drop 2 s)"
    by (rule length_dropWhile_le)
  ultimately show ?thesis by auto
qed

lemma match_entry_length: "match_entry s = Some (v, b, t) \<Longrightarrow> length t < length s"
  by (auto simp: match_entry_def Let_def bind_eq_Some_conv split: if_splits
      dest!: eat_length match_hex_length)
    (metis (no_types, lifting) length_dropWhile_le less_le_trans less_trans)

function find_words :: "string \<Rightarrow> nat list" where
  "find_words s =
     (if s = [] then []
      else case match_hex s of
             None \<Rightarrow> find_words (tl s)
           | Some (v, rest) \<Rightarrow> v # find_words rest)"
  by pat_completeness auto
termination by (relation "measure length") (auto dest: match_hex_length)

function find_entries :: "string \<Rightarrow> (nat \<times> string) list" where
  "find_entries s =
     (if s = [] then []
      else case match_entry s of
             None \<Rightarrow> find_entries (tl s)
           | Some (slide, body, rest) \<Rightarrow> (slide, body) # find_entries rest)"
  by pat_completeness auto
termination by (relation "measure length") (auto dest: match_entry_length)

declare find_words.simps [simp del] find_entries.simps [simp del]

definition add_entry :: "(nat \<rightharpoonup> nat list) \<Rightarrow> nat \<times> string \<Rightarrow> (nat \<rightharpoonup> nat list)" where
  "add_entry m e =
     (let words = find_words (snd e) in if length words \<noteq> p0_words then m else m(fst e \<mapsto> words))"

definition parse_header_file :: "string \<Rightarrow> (nat \<rightharpoonup> nat list)" where
  "parse_header_file content = foldl add_entry Map.empty (find_entries content)"

section \<open>The matchers on formatted text\<close>

lemma digit_char_hex: "d < 16 \<Longrightarrow> is_hex (digit_char d)" "d < 16 \<Longrightarrow> hex_digit (digit_char d) = d"
  by (auto simp: is_hex_def hex_digit_def of_char_digit_char)

lemma fmt_hex_is_hex: "\<forall>c \<in> set (fmt_hex w n). is_hex c"
  using fmt_hex_charset [of w n] digit_char_hex(1) by auto

lemma hex_value_fmt_hex: "hex_value (fmt_hex w n) = n"
proof -
  have eq: "\<forall>c \<in> set s. c \<in> digit_char ` {..<16} \<Longrightarrow> hex_value s = digits_value 16 s" for s
    unfolding hex_value_def digits_value_def
    by (induction s rule: rev_induct) (auto simp: digit_char_hex char_digit_digit_char)
  have "hex_value (fmt_hex w n) = digits_value 16 (fmt_hex w n)"
    using fmt_hex_charset [of w n] by (intro eq) auto
  then show ?thesis by (simp add: digits_value_fmt_hex)
qed

lemma fmt_hex_not_Nil [simp]: "fmt_hex w n \<noteq> []"
  by (subst fmt_hex_def, subst base_digits.simps) (simp add: zfill_def)

lemma hex_chars [simp]: "\<not> is_hex (CHR ''U'')" "\<not> is_hex (CHR '','')" "\<not> is_hex (CHR ''x'')"
  by (simp_all add: is_hex_def)

lemma match_hex_fmt: "match_hex (CHR ''0'' # CHR ''x'' # fmt_hex w n @ CHR ''U'' # CHR ''L'' # CHR ''L'' # r) = Some (n, r)"
proof -
  let ?r = "CHR ''U'' # CHR ''L'' # CHR ''L'' # r"
  have "takeWhile is_hex (fmt_hex w n @ ?r) = fmt_hex w n" "dropWhile is_hex (fmt_hex w n @ ?r) = ?r"
    using fmt_hex_is_hex [of w n] by (simp_all add: takeWhile_append2 dropWhile_append2)
  then show ?thesis
    by (simp add: match_hex_def starts_with_def Let_def hex_value_fmt_hex)
qed

lemma match_hex_other: "c \<noteq> CHR ''0'' \<Longrightarrow> match_hex (c # s) = None" "match_hex [] = None"
  by (simp_all add: match_hex_def starts_with_def)

lemma find_words_fmt:
  "find_words (CHR ''0'' # CHR ''x'' # fmt_hex w n @ CHR ''U'' # CHR ''L'' # CHR ''L'' # r) = n # find_words r"
  by (subst find_words.simps) (simp add: match_hex_fmt)

lemma find_words_skip: "c \<noteq> CHR ''0'' \<Longrightarrow> find_words (c # s) = find_words s"
  by (subst find_words.simps) (simp add: match_hex_other)

lemma find_words_Nil: "find_words [] = []"
  by (subst find_words.simps) simp

lemma find_entries_skip: "c \<noteq> CHR ''{'' \<Longrightarrow> find_entries (c # s) = find_entries s"
  by (subst find_entries.simps) (simp add: match_entry_def eat_def)

lemma find_entries_skips: "CHR ''{'' \<notin> set xs \<Longrightarrow> find_entries (xs @ s) = find_entries s"
  by (induction xs) (auto simp: find_entries_skip)

lemma find_entries_Nil: "find_entries [] = []"
  by (subst find_entries.simps) simp

text \<open>A brace that is not followed by \<open>0x\<close> starts no entry.\<close>

lemma find_entries_brace:
  "match_hex (dropWhile py_space s) = None \<Longrightarrow> find_entries (CHR ''{'' # s) = find_entries s"
  by (subst find_entries.simps) (simp add: match_entry_def eat_def)

definition lines_of :: "string list \<Rightarrow> string" where
  "lines_of xs = concat (map (\<lambda>x. x @ nl) xs)"

lemma join_append: "ys \<noteq> [] \<Longrightarrow> join nl (xs @ ys) = lines_of xs @ join nl ys"
proof (induction xs rule: induct_list012)
  case (2 s)
  then show ?case by (cases ys) (auto simp: lines_of_def)
qed (auto simp: lines_of_def)

lemma spaces [simp]:
  "py_space (CHR '' '')" "py_space (CHR 0x0A)" "\<not> py_space (CHR ''0'')"
  "\<not> py_space (CHR '','')" "\<not> py_space (CHR ''{'')" "\<not> py_space (CHR ''}'')" "\<not> py_space (CHR ''u'')"
  by (simp_all add: py_space_def)

lemma hex_no_brace: "CHR ''{'' \<notin> set (fmt_hex w n)" "CHR ''}'' \<notin> set (fmt_hex w n)"
  using fmt_hex_is_hex [of w n] by (auto simp: is_hex_def)

lemma dec_no_brace: "CHR ''{'' \<notin> set (fmt_dec w n)"
proof
  assume "CHR ''{'' \<in> set (fmt_dec w n)"
  then obtain d where "d < 10" "CHR ''{'' = digit_char d" using fmt_dec_charset [of w n] by auto
  then have "of_char (CHR ''{'') = (48 + d :: nat)" using of_char_digit_char [of d] by simp
  with \<open>d < 10\<close> show False by simp
qed

text \<open>The body of an entry: the part between the braces.\<close>

definition row_body :: "nat list \<Rightarrow> string" where
  "row_body ws = '' '' @ word_lit ws 0 @ '', '' @ word_lit ws 1 @ '','' @ nl
     @ ''    '' @ word_lit ws 2 @ '', '' @ word_lit ws 3 @ '','' @ nl
     @ ''    '' @ word_lit ws 4 @ '', '' @ word_lit ws 5 @ '','' @ nl
     @ ''    '' @ word_lit ws 6 @ '', '' @ word_lit ws 7 @ '' ''"

lemma find_words_body:
  assumes "length ws = 8"
  shows "find_words (row_body ws) = ws"
proof -
  have "find_words (row_body ws) = [ws ! 0, ws ! 1, ws ! 2, ws ! 3, ws ! 4, ws ! 5, ws ! 6, ws ! 7]"
    unfolding row_body_def word_lit_def nl_def
    by (simp add: find_words_fmt find_words_skip find_words_Nil)
  also have "\<dots> = ws"
    using assms by (auto simp: list_eq_iff_nth_eq less_Suc_eq numeral_eq_Suc)
  finally show ?thesis .
qed

lemma row_body_no_brace: "CHR ''}'' \<notin> set (row_body ws)"
  by (simp add: row_body_def word_lit_def nl_def hex_no_brace)

lemma row_lines_text:
  "lines_of (row_lines (slide, ps, ws)) = ''  { 0x'' @ fmt_hex_int 6 slide @ ''ULL, {''
     @ row_body ws @ ''} },'' @ nl"
  by (simp add: lines_of_def row_lines_def row_body_def)

lemma find_entries_row:
  assumes "0 \<le> slide"
  shows "find_entries (lines_of (row_lines (slide, ps, ws)) @ r) = (nat slide, row_body ws) # find_entries r"
proof -
  have b: "takeWhile (\<lambda>c. c \<noteq> CHR ''}'') (row_body ws @ CHR ''}'' # x) = row_body ws"
    "dropWhile (\<lambda>c. c \<noteq> CHR ''}'') (row_body ws @ CHR ''}'' # x) = CHR ''}'' # x" for x
    using row_body_no_brace [of ws]
    by (subst takeWhile_append2 dropWhile_append2; auto)+
  have "row_body ws \<noteq> []" by (simp add: row_body_def)
  then have m: "match_entry (CHR ''{'' # '' 0x'' @ fmt_hex 6 (nat slide) @ ''ULL, {'' @ row_body ws @ ''} },'' @ nl @ r)
      = Some (nat slide, row_body ws, CHR '','' # nl @ r)"
    by (simp add: match_entry_def eat_def match_hex_fmt b Let_def)
  have "find_entries (lines_of (row_lines (slide, ps, ws)) @ r)
      = find_entries (CHR ''{'' # '' 0x'' @ fmt_hex 6 (nat slide) @ ''ULL, {'' @ row_body ws @ ''} },'' @ nl @ r)"
    using assms by (simp add: row_lines_text fmt_hex_int_def find_entries_skip)
  also have "\<dots> = (nat slide, row_body ws) # find_entries (CHR '','' # nl @ r)"
    by (subst find_entries.simps, subst m) simp
  also have "find_entries (CHR '','' # nl @ r) = find_entries r"
    by (simp add: nl_def find_entries_skip)
  finally show ?thesis .
qed

lemma find_entries_rows:
  "\<forall>(slide, _, _) \<in> set rows. 0 \<le> slide \<Longrightarrow>
   find_entries (lines_of (concat (map row_lines rows)) @ r)
     = map (\<lambda>(slide, _, ws). (nat slide, row_body ws)) rows @ find_entries r"
proof (induction rows)
  case (Cons row rows)
  obtain slide ps ws where row: "row = (slide, ps, ws)" by (cases row)
  have "lines_of (concat (map row_lines (row # rows))) @ r
      = lines_of (row_lines (slide, ps, ws)) @ lines_of (concat (map row_lines rows)) @ r"
    by (simp add: row lines_of_def)
  then show ?case
    using Cons by (simp add: row find_entries_row)
qed (simp add: lines_of_def)

text \<open>The preamble holds three opening braces and no entry.\<close>

lemma find_entries_block:
  assumes "CHR ''{'' \<notin> set a" "match_hex (dropWhile py_space t) = None"
  shows "find_entries (a @ CHR ''{'' # nl @ t) = find_entries t"
proof -
  have "find_entries (a @ CHR ''{'' # nl @ t) = find_entries (CHR ''{'' # nl @ t)"
    using assms(1) by (rule find_entries_skips)
  also have "\<dots> = find_entries (nl @ t)"
    using assms(2) by (intro find_entries_brace) (simp add: nl_def)
  also have "\<dots> = find_entries t" by (simp add: nl_def find_entries_skip)
  finally show ?thesis .
qed

definition preamble_1 :: "nat \<Rightarrow> int \<Rightarrow> int \<Rightarrow> string" where
  "preamble_1 n probe step = join nl
     [''// Generated from the exact raw Image.'',
      ''// Probe offset 0x'' @ fmt_hex_int 0 probe @ '', step 0x'' @ fmt_hex_int 0 step
        @ '' ('' @ fmt_dec 0 n @ '' candidates).'',
      ''#ifndef P0_FINGERPRINT_H'', ''#define P0_FINGERPRINT_H'', [],
      ''#define P0_FINGERPRINT_WORDS '' @ fmt_dec 0 p0_words, [],
      ''static const uint16_t p0_fingerprint_offsets[P0_FINGERPRINT_WORDS] = '']"

definition preamble_2 :: string where
  "preamble_2 = join nl
     [''  0x000, 0x200, 0x400, 0x600, 0x800, 0xa00, 0xc00, 0xe00,'', ''};'', [],
      ''struct p0_fingerprint '']"

definition preamble_3 :: string where
  "preamble_3 = join nl
     [''  uintptr_t slide;'', ''  uint64_t words[P0_FINGERPRINT_WORDS];'', ''};'', [],
      ''static const struct p0_fingerprint p0_fingerprints[] = '']"

lemma preamble_no_brace:
  "CHR ''{'' \<notin> set (preamble_1 n probe step)" "CHR ''{'' \<notin> set preamble_2"
  "CHR ''{'' \<notin> set preamble_3"
  by (simp_all add: preamble_1_def preamble_2_def preamble_3_def nl_def fmt_hex_int_def hex_no_brace
      dec_no_brace)

lemma preamble_text:
  "lines_of (header_preamble n probe step) @ s
     = preamble_1 n probe step @ CHR ''{'' # nl @ preamble_2 @ CHR ''{'' # nl
         @ preamble_3 @ CHR ''{'' # nl @ s"
  by (simp add: header_preamble_def lines_of_def preamble_1_def preamble_2_def preamble_3_def)

lemma find_entries_preamble:
  assumes "match_hex (dropWhile py_space s) = None"
  shows "find_entries (lines_of (header_preamble n probe step) @ s) = find_entries s"
proof -
  have 2: "match_hex (dropWhile py_space (preamble_2 @ t)) = None" for t
    by (simp add: preamble_2_def match_hex_def starts_with_def is_hex_def)
  have 3: "match_hex (dropWhile py_space (preamble_3 @ t)) = None" for t
    by (simp add: preamble_3_def match_hex_other)
  show ?thesis
    by (simp only: preamble_text find_entries_block preamble_no_brace 2 3 assms not_False_eq_True)
qed

section \<open>Round trip\<close>

lemma foldl_add_entry:
  "\<forall>(slide, _, ws) \<in> set rows. length ws = p0_words \<Longrightarrow>
   foldl add_entry m (map (\<lambda>(slide, _, ws). (nat slide, row_body ws)) rows)
     = m ++ map_of (rev (map (\<lambda>(slide, _, ws). (nat slide, ws)) rows))"
proof (induction rows arbitrary: m)
  case (Cons row rows)
  obtain slide ps ws where row: "row = (slide, ps, ws)" by (cases row)
  have "find_words (row_body ws) = ws"
    using Cons.prems by (intro find_words_body) (simp add: row p0_words_def p0_offsets_def)
  then have "add_entry m (nat slide, row_body ws) = m(nat slide \<mapsto> ws)"
    using Cons.prems by (simp add: add_entry_def row)
  then show ?case
    using Cons by (simp add: row)
qed simp

lemma parse_format_header:
  assumes "\<forall>(slide, _, ws) \<in> set rows. 0 \<le> slide \<and> length ws = p0_words"
  shows "parse_header_file (format_header rows probe step)
    = map_of (rev (map (\<lambda>(slide, _, ws). (nat slide, ws)) rows))"
proof -
  let ?tail = "join nl [''};'', [], ''#endif'', []]"
  have "match_hex (dropWhile py_space (lines_of (concat (map row_lines rows)) @ ?tail)) = None"
  proof (cases rows)
    case Nil
    then show ?thesis by (simp add: lines_of_def match_hex_other)
  next
    case (Cons row rest)
    then show ?thesis by (cases row) (simp add: lines_of_def row_lines_def match_hex_other)
  qed
  then have "find_entries (format_header rows probe step)
      = find_entries (lines_of (concat (map row_lines rows)) @ ?tail)"
    by (simp add: format_header_def join_append find_entries_preamble del: join.simps)
  also have "\<dots> = map (\<lambda>(slide, _, ws). (nat slide, row_body ws)) rows"
    using assms find_entries_rows [of rows ?tail]
    by (auto simp: nl_def find_entries_skip find_entries_Nil)
  finally have "parse_header_file (format_header rows probe step)
      = foldl add_entry Map.empty (map (\<lambda>(slide, _, ws). (nat slide, row_body ws)) rows)"
    by (simp add: parse_header_file_def)
  moreover have "\<forall>(slide, _, ws) \<in> set rows. length ws = p0_words" using assms by auto
  ultimately show ?thesis using foldl_add_entry [of rows Map.empty] by simp
qed

section \<open>Comparison with a reference header\<close>

text \<open>
  The loop of \<open>main\<close> over the rows: the number of rows all of whose words match, and the
  number of matching words. The report divides by the number of rows, so an empty table
  raises \<open>ZeroDivisionError\<close> there; \<open>words[i]\<close> and \<open>ref_words[i]\<close> have eight elements.
\<close>

definition score :: "nat list \<Rightarrow> nat list \<Rightarrow> nat" where
  "score words ref_words = length (filter (\<lambda>i. words ! i = ref_words ! i) [0..<p0_words])"

definition compare_row :: "(nat \<rightharpoonup> nat list) \<Rightarrow> nat \<times> nat \<Rightarrow> p0_row \<Rightarrow> nat \<times> nat" where
  "compare_row ref_table acc row =
     (case (acc, row) of ((exact_rows, total_matched_words), (slide, _, words)) \<Rightarrow>
        case (if slide < 0 then None else ref_table (nat slide)) of
          None \<Rightarrow> (exact_rows, total_matched_words)
        | Some ref_words \<Rightarrow>
            (if score words ref_words = p0_words then exact_rows + 1 else exact_rows,
             total_matched_words + score words ref_words))"

definition compare_header :: "(nat \<rightharpoonup> nat list) \<Rightarrow> p0_row list \<Rightarrow> (p0_error, nat \<times> nat) res" where
  "compare_header ref_table rows =
     guardR (rows \<noteq> []) Zero_Division (Inr (foldl (compare_row ref_table) (0, 0) rows))"

lemma score_self: "score ws ws = p0_words"
  by (simp add: score_def)

lemma compare_all_match:
  "\<forall>(slide, _, ws) \<in> set rows. 0 \<le> slide \<and> tbl (nat slide) = Some ws \<Longrightarrow>
   foldl (compare_row tbl) (a, b) rows = (a + length rows, b + p0_words * length rows)"
  by (induction rows arbitrary: a b) (auto simp: compare_row_def score_self)

lemma p0_table_slides:
  assumes "0 < step"
  shows "\<forall>(slide, _, ws) \<in> set (p0_table img probe step). 0 \<le> slide \<and> length ws = p0_words"
    and "distinct (map fst (map (\<lambda>(slide, _, ws). (nat slide, ws)) (p0_table img probe step)))"
proof -
  show "\<forall>(slide, _, ws) \<in> set (p0_table img probe step). 0 \<le> slide \<and> length ws = p0_words"
    using assms by (auto simp: p0_table_def row_at_def p0_words_def)
  have "inj_on (\<lambda>k. nat (int k * step)) A" for A
    using assms by (auto simp: inj_on_def nat_eq_iff)
  then show "distinct (map fst (map (\<lambda>(slide, _, ws). (nat slide, ws)) (p0_table img probe step)))"
    by (simp add: p0_table_def row_at_def comp_def distinct_map del: upt_Suc)
qed

lemma parse_format_table:
  assumes "0 < step"
  shows "parse_header_file (format_header (p0_table img probe step) probe step)
    = map_of (map (\<lambda>(slide, _, ws). (nat slide, ws)) (p0_table img probe step))"
proof -
  let ?kvs = "map (\<lambda>(slide, _, ws). (nat slide, ws)) (p0_table img probe step)"
  have "map_of (rev ?kvs) = map_of ?kvs"
    using p0_table_slides(2) [OF assms]
    by (subst map_of_inject_set) (simp_all only: rev_map [symmetric] set_rev distinct_rev)
  then show ?thesis using parse_format_header [OF p0_table_slides(1) [OF assms]] by simp
qed

text \<open>
  Claim C26. A generated header is read back without loss: parsing the text of
  \<open>format_header\<close> gives exactly the slides and words of the table, and comparing the
  table with it reports every row exact and every word matched.
\<close>
theorem header_round_trip:
  assumes "0 < step" "0 \<le> probe"
  shows "parse_header_file (format_header (p0_table img probe step) probe step)
      = map_of (map (\<lambda>(slide, _, ws). (nat slide, ws)) (p0_table img probe step))
    \<and> compare_header (parse_header_file (format_header (p0_table img probe step) probe step))
        (p0_table img probe step)
      = Inr (length (p0_table img probe step), 8 * length (p0_table img probe step))"
proof -
  let ?rows = "p0_table img probe step"
  let ?tbl = "map_of (map (\<lambda>(slide, _, ws). (nat slide, ws)) ?rows)"
  have "?tbl (nat slide) = Some ws" if "(slide, ps, ws) \<in> set ?rows" for slide ps ws
    using p0_table_slides(2) [OF assms(1)] that by (intro map_of_is_SomeI) force+
  then have "foldl (compare_row ?tbl) (0, 0) ?rows = (0 + length ?rows, 0 + p0_words * length ?rows)"
    using p0_table_slides(1) [OF assms(1), of img probe] by (intro compare_all_match) fastforce
  moreover have "?rows \<noteq> []"
    using assms pos_imp_zdiv_nonneg_iff [of step probe] by (simp add: p0_table_def not_le)
  ultimately show ?thesis
    by (simp add: parse_format_table [OF assms(1)] compare_header_def p0_words_def p0_offsets_def)
qed

theorem header_round_trip_witness:
  "parse_header_file (format_header (p0_table zero_image 0 0x4000) 0 0x4000) 0
     = Some [0, 0, 0, 0, 0, 0, 0, 0]"
proof -
  have t: "p0_table zero_image 0 0x4000 = [row_at zero_image 0 0]" by (simp add: p0_table_def)
  have "le_nat [0, 0, 0, 0, 0, 0, 0, 0] = 0" by (simp add: le_nat_def be_nat_def)
  moreover have "replicate 8 (0 :: byte) = [0, 0, 0, 0, 0, 0, 0, 0]" by (simp add: numeral_eq_Suc)
  ultimately have "\<forall>d \<in> set p0_offsets. word_at zero_image d = 0"
    by (simp add: p0_offsets_def word_at_def field_at_def pyslice_def zero_image_def min_def)
  with t show ?thesis
    using header_round_trip [of "0x4000" 0 zero_image] by (simp add: row_at_def p0_offsets_def)
qed

end
