(* ===== verification/J2_Validator.thy ===== *)
theory J2_Validator
  imports Py_Value
begin

text \<open>
  \<open>tools/rmg-eze4/analysis/validator.py\<close>: \<open>validate_observation_record\<close>. A record is a
  dict (an association list with string keys); everything below the root is an arbitrary
  Python value, so every attribute access, comparison and subtraction of the code is an
  operation that may raise. The result is \<open>Inl\<close> the exception that leaves the function,
  or \<open>Inr\<close> the list of errors (the code's first component is that the list is empty).
  An error message keeps the literal text of the code and the value the f-string appends
  to it: nothing, a field name, a Python value, an event index, or the text behind
  \<open>EVENT_<idx>_\<close>.

  The event grammar the function loads is a parameter; \<open>j2_grammar\<close> is the content of
  \<open>docs/rmg-eze4/phase_j2_event_grammar.json\<close> (event types and required payload fields).
\<close>

datatype verr =
    Msg string
  | Msg_Str string string
  | Msg_Val string pyval
  | Msg_Idx string nat
  | Msg_Event nat string

type_synonym record_dict = "(string \<times> pyval) list"
type_synonym grammar = "(string \<times> string list) list"

section \<open>Constants\<close>

definition canonical_schema_version :: string where "canonical_schema_version = ''2.2.1''"
definition canonical_grammar_version :: string where "canonical_grammar_version = ''2.1.1''"
definition canonical_device_model :: string where "canonical_device_model = ''SM-X510''"
definition canonical_device_name :: string where "canonical_device_name = ''gts9fewifi''"
definition canonical_incremental :: string where "canonical_incremental = ''X510XXUCEZE4''"
definition canonical_build_fingerprint :: string where
  "canonical_build_fingerprint =
     ''samsung/gts9fewifieea/gts9fewifi:16/BP4A.251205.006/X510XXUCEZE4:user/release-keys''"
definition canonical_kernel_identity :: string where
  "canonical_kernel_identity = ''5.15.189-android13-3-33478785''"
definition canonical_stock_image_sha256 :: string where
  "canonical_stock_image_sha256 =
     ''ca56baf428a3f334d90f5d366f02e6cb36cf70fec23a2055b4f80c29cbe6ede9''"

definition j2_grammar :: grammar where
  "j2_grammar =
     [(''TRIAL_INIT'', [''experiment_id'', ''session_id'', ''condition_class'']),
      (''ATTEMPT_SPAWN'', [''assigned_pid'', ''executable_path'']),
      (''P0_ENTER'', []),
      (''P0_EXIT_SLIDE_READY'', [''p0_duration_ns'', ''handshake_status'']),
      (''OVERALL_SLIDE_ENTER'', [''candidate_watchdog_seconds'', ''watchdog_epoch_start_monotonic_ns'']),
      (''HEARTBEAT_PROGRESS'', [''progress_phase'', ''iteration_count'']),
      (''TERMINAL_COMPLETION'', [''exit_code'', ''total_monotonic_ns'']),
      (''WATCHDOG_EXPIRY'', [''target_pid'', ''elapsed_seconds'']),
      (''PROCESS_SIGNAL'', [''target_pid'', ''signal_number'', ''signal_name'']),
      (''PROCESS_REAP'', [''reaped_pid'', ''exit_status'']),
      (''CONFOUNDER_SAMPLE'', [''confounder_type'', ''metric_name'', ''metric_value''])]"

text \<open>The double constants of the code.\<close>

definition eps_1e6 :: pyfloat where "eps_1e6 = float_of_rat (1 / 1000000)"
definition desync_1_1 :: pyfloat where "desync_1_1 = float_of_rat (11 / 10)"

section \<open>Patterns\<close>

text \<open>
  \<open>^<prefix>[<class>]{n}$\<close> under \<open>match\<close>: \<open>$\<close> also matches before a final newline.
  A value that is no string raises \<open>TypeError\<close>.
\<close>

definition id_match :: "string \<Rightarrow> (char \<Rightarrow> bool) \<Rightarrow> nat \<Rightarrow> string \<Rightarrow> bool" where
  "id_match pre cls n s =
     (prefix pre s
      \<and> (let body = drop (length pre) s
         in n \<le> length body \<and> list_all cls (take n body)
            \<and> (drop n body = [] \<or> drop n body = [CHR 0x0A])))"

definition py_id_match :: "string \<Rightarrow> (char \<Rightarrow> bool) \<Rightarrow> nat \<Rightarrow> pyval \<Rightarrow> (pyexc, bool) res" where
  "py_id_match pre cls n v = (case v of PStr s \<Rightarrow> Inr (id_match pre cls n s) | _ \<Rightarrow> Inl TypeError)"

definition lower_hex :: "char \<Rightarrow> bool" where
  "lower_hex c = (let n = of_char c :: nat in (48 \<le> n \<and> n \<le> 57) \<or> (97 \<le> n \<and> n \<le> 102))"

definition upper_hex :: "char \<Rightarrow> bool" where
  "upper_hex c = (let n = of_char c :: nat in (48 \<le> n \<and> n \<le> 57) \<or> (65 \<le> n \<and> n \<le> 70))"

section \<open>Root, identity and artifact\<close>

definition required_root :: "string list" where
  "required_root =
     [''schema_version'', ''event_grammar_version'', ''candidate_identity'',
      ''experiment_id'', ''session_id'', ''boot_id'', ''trial_id'',
      ''attempt_ordinal'', ''pid'', ''artifact_identity'', ''condition_vector'',
      ''timing_metrics'', ''confounder_observations'', ''state_transitions'',
      ''observables'', ''classification'']"

definition rget :: "record_dict \<Rightarrow> string \<Rightarrow> pyval \<Rightarrow> pyval" where
  "rget r k dflt = (case map_of r k of None \<Rightarrow> dflt | Some v \<Rightarrow> v)"

text \<open>\<open>v.get(k)\<close>, with \<open>None\<close> for a missing key.\<close>

definition vget :: "pyval \<Rightarrow> string \<Rightarrow> (pyexc, pyval) res" where
  "vget v k = py_get_default v k PNone"

text \<open>\<open>for f in fs: if f not in v: errors.append(...)\<close>.\<close>

definition missing_fields :: "(string \<Rightarrow> verr) \<Rightarrow> string list \<Rightarrow> pyval \<Rightarrow> (pyexc, verr list) res" where
  "missing_fields err fs v = catR (map (\<lambda>f. flagR (notR (py_contains f v)) (err f)) fs)"

definition identity_checks :: "record_dict \<Rightarrow> (pyexc, verr list) res" where
  "identity_checks r =
     (let schema = rget r ''schema_version'' PNone;
          grammar = rget r ''event_grammar_version'' PNone;
          cand_ident = rget r ''candidate_identity'' (PDict [])
      in catR
        [Inr (map (Msg_Str ''FORBIDDEN_FIELD_'') (filter (\<lambda>k. k \<notin> set required_root) (map fst r))),
         Inr (flag (\<not> py_eq schema (PStr canonical_schema_version)) (Msg_Val ''INVALID_SCHEMA_VERSION_'' schema)),
         Inr (flag (\<not> py_eq grammar (PStr canonical_grammar_version))
               (Msg_Val ''INVALID_EVENT_GRAMMAR_VERSION_'' grammar)),
         bindR (vget cand_ident ''candidate_parameter'') (\<lambda>p.
           Inr (flag (\<not> py_eq p (PStr ''DEFAULT_ATTEMPT_TIMEOUT_SEC'')) (Msg_Val ''INVALID_CANDIDATE_PARAM_'' p))),
         bindR (vget cand_ident ''candidate_value'') (\<lambda>v.
           Inr (flag (\<not> py_eq v (PInt 2200)) (Msg_Val ''INVALID_CANDIDATE_VALUE_'' v)))])"

definition pattern_checks :: "record_dict \<Rightarrow> (pyexc, verr list) res" where
  "pattern_checks r =
     (let ordinal = rget r ''attempt_ordinal'' PNone; pid = rget r ''pid'' PNone
      in catR
        [flagR (notR (py_id_match ''EXP-'' upper_hex 8 (rget r ''experiment_id'' (PStr []))))
           (Msg ''INVALID_EXPERIMENT_ID_FORMAT''),
         flagR (notR (py_id_match ''SES-'' upper_hex 8 (rget r ''session_id'' (PStr []))))
           (Msg ''INVALID_SESSION_ID_FORMAT''),
         flagR (notR (py_id_match [] lower_hex 64 (rget r ''boot_id'' (PStr []))))
           (Msg ''INVALID_BOOT_ID_SHA256_FORMAT''),
         flagR (notR (py_id_match ''TRL-'' is_digit_char 4 (rget r ''trial_id'' (PStr []))))
           (Msg ''INVALID_TRIAL_ID_FORMAT''),
         Inr (flag (\<not> is_int ordinal \<or> int_of ordinal < 1) (Msg ''INVALID_ATTEMPT_ORDINAL'')),
         Inr (flag (\<not> is_int pid \<or> int_of pid < 1) (Msg ''INVALID_PID''))])"

text \<open>\<open>if v.get(k) != expected: errors.append(f"..._{v.get(k)}")\<close>.\<close>

definition expect_str :: "pyval \<Rightarrow> string \<Rightarrow> string \<Rightarrow> (pyval \<Rightarrow> verr) \<Rightarrow> (pyexc, verr list) res" where
  "expect_str v k expected err =
     bindR (vget v k) (\<lambda>x. Inr (flag (\<not> py_eq x (PStr expected)) (err x)))"

text \<open>\<open>if v.get(k) not in (...): errors.append(f"..._{v.get(k)}")\<close>.\<close>

definition expect_in :: "pyval \<Rightarrow> string \<Rightarrow> string list \<Rightarrow> (pyval \<Rightarrow> verr) \<Rightarrow> (pyexc, verr list) res" where
  "expect_in v k allowed err =
     bindR (vget v k) (\<lambda>x. Inr (flag (\<not> py_in_strs x allowed) (err x)))"

definition required_artifact :: "string list" where
  "required_artifact =
     [''schema_defined'', ''device_model'', ''device_name'', ''incremental_version'',
      ''build_fingerprint'', ''stock_image_sha256'', ''kernel_identity'',
      ''run_package_identity'', ''raw_evidence_identity'']"

definition artifact_checks :: "record_dict \<Rightarrow> (pyexc, verr list) res" where
  "artifact_checks r =
     (let art_ident = rget r ''artifact_identity'' (PDict [])
      in if py_eq art_ident (PDict []) then Inr [Msg ''EMPTY_ARTIFACT_IDENTITY'']
         else catR
           [missing_fields (Msg_Str ''MISSING_ARTIFACT_FIELD_'') required_artifact art_ident,
            bindR (vget art_ident ''schema_defined'') (\<lambda>v.
              Inr (flag (v \<noteq> PBool True) (Msg ''ARTIFACT_SCHEMA_DEFINED_NOT_TRUE''))),
            expect_str art_ident ''device_model'' canonical_device_model (Msg_Val ''WRONG_DEVICE_MODEL_''),
            expect_str art_ident ''device_name'' canonical_device_name (Msg_Val ''WRONG_DEVICE_NAME_''),
            expect_str art_ident ''incremental_version'' canonical_incremental (Msg_Val ''WRONG_INCREMENTAL_VERSION_''),
            expect_str art_ident ''build_fingerprint'' canonical_build_fingerprint
              (Msg_Val ''WRONG_BUILD_FINGERPRINT_''),
            expect_str art_ident ''kernel_identity'' canonical_kernel_identity (Msg_Val ''WRONG_KERNEL_IDENTITY_''),
            expect_str art_ident ''stock_image_sha256'' canonical_stock_image_sha256
              (\<lambda>_. Msg ''WRONG_STOCK_IMAGE_SHA256''),
            bindR (py_get_default art_ident ''run_package_identity'' (PDict [])) (\<lambda>run_pkg.
              expect_in run_pkg ''binding_status'' [''UNBOUND_PENDING_J3'', ''BOUND_FROZEN'']
                (\<lambda>_. Msg ''INVALID_RUN_PACKAGE_BINDING_STATUS'')),
            bindR (py_get_default art_ident ''raw_evidence_identity'' (PDict [])) (\<lambda>raw_ev.
              expect_in raw_ev ''binding_status'' [''UNBOUND_PENDING_SESSION_CLOSE'', ''BOUND_CLOSED'']
                (\<lambda>_. Msg ''INVALID_RAW_EVIDENCE_BINDING_STATUS''))])"

section \<open>Condition and timing\<close>

definition required_condition :: "string list" where
  "required_condition =
     [''condition_class'', ''threshold_profile_id'', ''detector_version'',
      ''freezer_state'', ''thermal_state'', ''load_class'', ''memory_pressure_class'',
      ''collector_health'', ''raw_telemetry'']"

definition condition_classes :: "string list" where
  "condition_classes = [''SETTLED_NOMINAL'', ''ELEVATED_VALID'']"

definition condition_checks :: "record_dict \<Rightarrow> (pyexc, verr list) res" where
  "condition_checks r =
     (let cond_vec = rget r ''condition_vector'' (PDict [])
      in catR
        [missing_fields (Msg_Str ''MISSING_CONDITION_FIELD_'') required_condition cond_vec,
         expect_in cond_vec ''condition_class'' condition_classes (Msg_Val ''ILLEGAL_CONDITION_CLASS_''),
         expect_in cond_vec ''threshold_profile_id'' [''TEMPLATE_UNBOUND'', ''J3_PROFILE_S9FE_CALIBRATED'']
           (Msg_Val ''ILLEGAL_THRESHOLD_PROFILE_''),
         expect_in cond_vec ''freezer_state'' [''THAWED'', ''FROZEN'', ''TRANSITIONING'', ''UNKNOWN'']
           (Msg_Val ''ILLEGAL_FREEZER_STATE_'')])"

definition required_timing :: "string list" where
  "required_timing =
     [''clock_source'', ''post_fork_monotonic_ns'', ''slide_ready_monotonic_ns'',
      ''terminal_monotonic_ns'', ''p0_duration_seconds'', ''candidate_elapsed_duration_ns'',
      ''candidate_elapsed_duration_seconds'', ''canonical_headroom_seconds'',
      ''supervisor_integer_elapsed_sec'']"

text \<open>\<open>abs(x - y) > bound\<close> where one side is a float.\<close>

definition far_apart :: "pyval \<Rightarrow> pyval \<Rightarrow> pyfloat \<Rightarrow> (pyexc, bool) res" where
  "far_apart x y bound =
     bindR (as_float x) (\<lambda>a. bindR (as_float y) (\<lambda>b. Inr (f_less bound (f_abs (f_sub a b)))))"

text \<open>
  The timing section returns its messages and \<open>expected_duration_sec\<close>, which the voting
  rules use.
\<close>

definition timing_checks :: "record_dict \<Rightarrow> (pyexc, verr list \<times> pyfloat) res" where
  "timing_checks r =
     (let tm = rget r ''timing_metrics'' (PDict [])
      in bindR (missing_fields (Msg_Str ''MISSING_TIMING_FIELD_'') required_timing tm) (\<lambda>e1.
         bindR (expect_str tm ''clock_source'' ''CLOCK_MONOTONIC'' (Msg_Val ''ILLEGAL_CLOCK_SOURCE_'')) (\<lambda>e2.
         bindR (py_get_default tm ''post_fork_monotonic_ns'' (PInt 0)) (\<lambda>t_start.
         bindR (py_get_default tm ''terminal_monotonic_ns'' (PInt 0)) (\<lambda>t_end.
         bindR (py_less t_end t_start) (\<lambda>reversal.
         bindR (py_minus t_end t_start) (\<lambda>expected_duration_ns.
         bindR (vget tm ''candidate_elapsed_duration_ns'') (\<lambda>elapsed_ns.
         bindR (py_div_1e9 expected_duration_ns) (\<lambda>expected_duration_sec.
         bindR (py_get_default tm ''candidate_elapsed_duration_seconds'' (PFloat (Fin 0))) (\<lambda>elapsed_sec.
         bindR (far_apart elapsed_sec (PFloat expected_duration_sec) eps_1e6) (\<lambda>sec_off.
         bindR (py_get_default tm ''canonical_headroom_seconds'' (PFloat (Fin 0))) (\<lambda>headroom.
         bindR (far_apart headroom (PFloat (f_sub (Fin 2200) expected_duration_sec)) eps_1e6) (\<lambda>room_off.
         bindR (py_get_default tm ''supervisor_integer_elapsed_sec'' (PInt 0)) (\<lambda>sup_int.
         bindR (far_apart (PFloat expected_duration_sec) sup_int desync_1_1) (\<lambda>desync.
           Inr (e1 @ e2
                @ flag (\<not> is_int t_start \<or> int_of t_start < 0) (Msg ''INVALID_POST_FORK_MONOTONIC_NS'')
                @ flag (\<not> is_int t_end \<or> int_of t_end < 0) (Msg ''INVALID_TERMINAL_MONOTONIC_NS'')
                @ flag reversal (Msg ''TIME_REVERSAL_TERMINAL_BEFORE_POST_FORK'')
                @ flag (\<not> py_eq elapsed_ns expected_duration_ns) (Msg ''DERIVED_DURATION_NS_MISMATCH'')
                @ flag sec_off (Msg ''DERIVED_DURATION_SECONDS_MISMATCH'')
                @ flag room_off (Msg ''CANONICAL_HEADROOM_MISMATCH'')
                @ flag desync (Msg ''CLOCK_CORRELATION_DESYNC_EXCEEDS_1_1_SEC''),
                expected_duration_sec))))))))))))))))"

section \<open>State transitions\<close>

definition required_event :: "string list" where
  "required_event =
     [''sequence'', ''event_type'', ''device_monotonic_ns'', ''boot_id'',
      ''session_id'', ''trial_id'', ''attempt_ordinal'', ''pid'', ''producer'', ''payload'']"

text \<open>One binding check: \<open>if ev.get(k) != record.get(k)\<close>.\<close>

definition binding_check :: "record_dict \<Rightarrow> pyval \<Rightarrow> nat \<Rightarrow> string \<Rightarrow> string \<Rightarrow> (pyexc, verr list) res" where
  "binding_check r ev idx k msg =
     bindR (vget ev k) (\<lambda>v. Inr (flag (\<not> py_eq v (rget r k PNone)) (Msg_Idx msg idx)))"

definition binding_checks :: "record_dict \<Rightarrow> pyval \<Rightarrow> nat \<Rightarrow> (pyexc, verr list) res" where
  "binding_checks r ev idx =
     catR [binding_check r ev idx ''boot_id'' ''BOOT_MUTATION_DETECTED_AT_EVENT_'',
           binding_check r ev idx ''session_id'' ''SESSION_MISMATCH_AT_EVENT_'',
           binding_check r ev idx ''trial_id'' ''TRIAL_ID_MISMATCH_AT_EVENT_'',
           binding_check r ev idx ''attempt_ordinal'' ''ATTEMPT_ORDINAL_MISMATCH_AT_EVENT_'',
           binding_check r ev idx ''pid'' ''PID_MISMATCH_AT_EVENT_'']"

text \<open>The event type: its messages, and the types appended to \<open>event_types\<close>.\<close>

definition event_type_checks ::
    "grammar \<Rightarrow> pyval \<Rightarrow> nat \<Rightarrow> (pyexc, verr list \<times> string list) res" where
  "event_type_checks g ev idx =
     bindR (vget ev ''event_type'') (\<lambda>etype.
     bindR (py_key_in etype (map fst g)) (\<lambda>known.
       if \<not> known then Inr ([Msg_Val ''UNKNOWN_EVENT_TYPE_'' etype], [])
       else case etype of
              PStr e \<Rightarrow>
                bindR (py_get_default ev ''payload'' (PDict [])) (\<lambda>payload.
                bindR (missing_fields (\<lambda>f. Msg_Event idx (''PAYLOAD_MISSING_'' @ f))
                         (case map_of g e of None \<Rightarrow> [] | Some fs \<Rightarrow> fs) payload) (\<lambda>errs.
                  Inr (errs, [e])))
            | _ \<Rightarrow> Inr ([], [])))"

fun event_checks ::
    "grammar \<Rightarrow> record_dict \<Rightarrow> nat \<Rightarrow> pyval \<Rightarrow> pyval \<Rightarrow> pyval list \<Rightarrow>
     (pyexc, verr list \<times> string list) res" where
  "event_checks g r idx prev_seq prev_time [] = Inr ([], [])"
| "event_checks g r idx prev_seq prev_time (ev # evs) =
     bindR (missing_fields (\<lambda>f. Msg_Event idx (''MISSING_FIELD_'' @ f)) required_event ev) (\<lambda>e1.
     bindR (py_get_default ev ''sequence'' (PInt 0)) (\<lambda>seq.
     bindR (py_le seq prev_seq) (\<lambda>not_increasing.
     bindR (py_get_default ev ''device_monotonic_ns'' (PInt 0)) (\<lambda>ev_time.
     bindR (py_less ev_time prev_time) (\<lambda>earlier.
     bindR (binding_checks r ev idx) (\<lambda>e2.
     bindR (event_type_checks g ev idx) (\<lambda>(e3, ty).
     bindR (event_checks g r (Suc idx) seq ev_time evs) (\<lambda>(es, tys).
       Inr (e1 @ flag not_increasing (Msg_Event idx ''SEQUENCE_NOT_STRICTLY_INCREASING'')
               @ flag earlier (Msg_Event idx ''TIME_NOT_MONOTONIC'') @ e2 @ e3 @ es,
            ty @ tys)))))))))"

text \<open>\<open>event_types.index(t)\<close>: raises \<open>ValueError\<close> when the type is absent.\<close>

fun py_index :: "'a \<Rightarrow> 'a list \<Rightarrow> (pyexc, nat) res" where
  "py_index x [] = Inl ValueError"
| "py_index x (y # ys) = (if x = y then Inr 0 else bindR (py_index x ys) (\<lambda>i. Inr (Suc i)))"

definition ordering_checks :: "string list \<Rightarrow> (pyexc, verr list) res" where
  "ordering_checks event_types =
     catR [Inr (flag (''ATTEMPT_SPAWN'' \<notin> set event_types) (Msg ''MISSING_ATTEMPT_SPAWN_EVENT'')),
           if ''PROCESS_REAP'' \<in> set event_types then
             bindR (py_index ''PROCESS_REAP'' event_types) (\<lambda>reap_idx.
             bindR (py_index ''ATTEMPT_SPAWN'' event_types) (\<lambda>spawn_idx.
               Inr (flag (reap_idx < spawn_idx) (Msg ''ILLEGAL_REAP_BEFORE_SPAWN''))))
           else Inr []]"

definition transition_checks :: "grammar \<Rightarrow> record_dict \<Rightarrow> (pyexc, verr list) res" where
  "transition_checks g r =
     (case rget r ''state_transitions'' (PList []) of
        PList evs \<Rightarrow>
          if length evs < 2 then Inr [Msg ''STATE_TRANSITIONS_MUST_HAVE_AT_LEAST_2_EVENTS'']
          else bindR (event_checks g r 0 (PInt (-1)) (PInt (-1)) evs) (\<lambda>(errs, event_types).
               bindR (ordering_checks event_types) (\<lambda>e. Inr (errs @ e)))
      | _ \<Rightarrow> Inr [Msg ''STATE_TRANSITIONS_MUST_HAVE_AT_LEAST_2_EVENTS''])"

section \<open>Confounders, classification and votes\<close>

definition terminal_classes :: "string list" where
  "terminal_classes =
     [''QUALIFYING_COMPLETION'', ''EXPECTED_P0_TIMEOUT'', ''SUPERVISOR_OVERALL_TIMEOUT'',
      ''CHILD_EXPLICIT_FAILURE'', ''CHILD_SIGNAL_FAILURE'', ''WRONG_STATE_TERMINATION'',
      ''EXTERNAL_INTERRUPTION'', ''MEASUREMENT_FAILURE'']"

definition trial_validities :: "string list" where
  "trial_validities = [''VALID'', ''INVALID'', ''INCONCLUSIVE'']"

definition evidence_votes :: "string list" where
  "evidence_votes = [''COMPATIBLE_VOTE'', ''INCOMPATIBLE_VOTE'', ''NO_VOTE'']"

text \<open>\<open>c_obs.get(name, {}).get("classification")\<close>.\<close>

definition confounder :: "pyval \<Rightarrow> string \<Rightarrow> (pyexc, pyval) res" where
  "confounder c_obs name =
     bindR (py_get_default c_obs name (PDict [])) (\<lambda>c. vget c ''classification'')"

definition vote_checks :: "pyval \<Rightarrow> pyval \<Rightarrow> pyval \<Rightarrow> pyfloat \<Rightarrow> verr list" where
  "vote_checks t_term t_valid t_vote expected_duration_sec =
     (if t_vote = PStr ''COMPATIBLE_VOTE'' then
        flag (t_valid \<noteq> PStr ''VALID'') (Msg ''COMPATIBLE_VOTE_REQUIRES_VALID'')
        @ flag (t_term \<noteq> PStr ''QUALIFYING_COMPLETION'')
            (Msg ''COMPATIBLE_VOTE_REQUIRES_QUALIFYING_COMPLETION'')
        @ flag (f_less (Fin 2195) expected_duration_sec)
            (Msg ''COMPATIBLE_VOTE_EXCEEDS_2195_SEC_HEADROOM'')
      else [])
     @ (if t_vote = PStr ''INCOMPATIBLE_VOTE'' then
          flag (t_valid \<noteq> PStr ''VALID'') (Msg ''INCOMPATIBLE_VOTE_REQUIRES_VALID'')
          @ flag (t_term \<noteq> PStr ''SUPERVISOR_OVERALL_TIMEOUT'')
              (Msg ''INCOMPATIBLE_VOTE_REQUIRES_SUPERVISOR_OVERALL_TIMEOUT'')
          @ flag (f_less expected_duration_sec (Fin 2200)) (Msg ''INCOMPATIBLE_VOTE_UNDER_2200_SEC'')
        else [])"

definition classification_checks :: "record_dict \<Rightarrow> pyfloat \<Rightarrow> (pyexc, verr list) res" where
  "classification_checks r expected_duration_sec =
     (let cls = rget r ''classification'' (PDict []);
          c_obs = rget r ''confounder_observations'' (PDict [])
      in bindR (vget cls ''trial_terminal_class'') (\<lambda>t_term.
         bindR (vget cls ''trial_validity'') (\<lambda>t_valid.
         bindR (vget cls ''trial_evidence_vote'') (\<lambda>t_vote.
         bindR (confounder c_obs ''c1_p0_delay'') (\<lambda>c1.
         bindR (confounder c_obs ''c2_cgroup_freezer'') (\<lambda>c2.
         bindR (confounder c_obs ''c3_thermal_throttling'') (\<lambda>c3.
         let valid = (t_valid = PStr ''VALID'')
         in Inr
          (flag (\<not> py_in_strs t_term terminal_classes) (Msg_Val ''ILLEGAL_TERMINAL_CLASS_'' t_term)
           @ flag (\<not> py_in_strs t_valid trial_validities)
               (Msg_Val ''ILLEGAL_TRIAL_VALIDITY_'' t_valid)
           @ flag (\<not> py_in_strs t_vote evidence_votes)
               (Msg_Val ''ILLEGAL_EVIDENCE_VOTE_'' t_vote)
           @ flag (c1 = PStr ''C1_PRESENT'' \<and> valid) (Msg ''CONFOUNDER_C1_PRESENT_CONFLICTS_WITH_VALID'')
           @ flag (c2 = PStr ''C2_PRESENT'' \<and> valid) (Msg ''CONFOUNDER_C2_PRESENT_CONFLICTS_WITH_VALID'')
           @ flag (c3 = PStr ''C3_PRESENT'' \<and> valid \<and> t_term = PStr ''SUPERVISOR_OVERALL_TIMEOUT'')
               (Msg ''CONFOUNDER_C3_PRESENT_CONFLICTS_WITH_VALID'')
           @ flag ((c1 = PStr ''C1_UNKNOWN'' \<or> c2 = PStr ''C2_UNKNOWN'' \<or> c3 = PStr ''C3_UNKNOWN'') \<and> valid)
               (Msg ''UNKNOWN_CONFOUNDER_CONFLICTS_WITH_VALID'')
           @ vote_checks t_term t_valid t_vote expected_duration_sec))))))))"

section \<open>The whole function\<close>

definition missing_root :: "record_dict \<Rightarrow> string list" where
  "missing_root r = filter (\<lambda>f. f \<notin> fst ` set r) required_root"

definition validate_observation_record :: "grammar \<Rightarrow> record_dict \<Rightarrow> (pyexc, verr list) res" where
  "validate_observation_record g r =
     (if missing_root r \<noteq> [] then Inr (map (Msg_Str ''MISSING_ROOT_FIELD_'') (missing_root r))
      else bindR (catR [identity_checks r, pattern_checks r, artifact_checks r, condition_checks r])
        (\<lambda>e1.
         bindR (timing_checks r) (\<lambda>(e2, expected_duration_sec).
         bindR (transition_checks g r) (\<lambda>e3.
         bindR (classification_checks r expected_duration_sec) (\<lambda>e4.
           Inr (e1 @ e2 @ e3 @ e4))))))"

section \<open>What an accepted record satisfies\<close>

lemma missing_fields_Nil [res_iff]:
  "missing_fields err fs v = Inr [] \<longleftrightarrow> (\<forall>f \<in> set fs. py_contains f v = Inr True)"
  by (auto simp: missing_fields_def res_iff)

lemma vget_Inr_iff [res_iff]: "vget v k = Inr x \<longleftrightarrow> (\<exists>kvs. v = PDict kvs \<and> x = rget kvs k PNone)"
  by (auto simp: vget_def rget_def res_iff split: option.splits)

lemma expect_str_Nil [res_iff]:
  "expect_str v k s err = Inr [] \<longleftrightarrow> (\<exists>kvs. v = PDict kvs \<and> rget kvs k PNone = PStr s)"
  by (auto simp: expect_str_def res_iff)

lemma expect_in_Nil [res_iff]:
  "expect_in v k ss err = Inr [] \<longleftrightarrow> (\<exists>kvs s. v = PDict kvs \<and> s \<in> set ss \<and> rget kvs k PNone = PStr s)"
  by (auto simp: expect_in_def res_iff py_in_strs_iff) (metis)

lemma validate_accepts:
  assumes "validate_observation_record g r = Inr []"
  obtains sec where "missing_root r = []"
    and "identity_checks r = Inr []" "pattern_checks r = Inr []" "artifact_checks r = Inr []"
    and "condition_checks r = Inr []" "timing_checks r = Inr ([], sec)"
    and "transition_checks g r = Inr []" "classification_checks r sec = Inr []"
proof -
  have "missing_root r = []" using assms by (auto simp: validate_observation_record_def split: if_splits)
  with assms that show ?thesis
    by (auto simp: validate_observation_record_def res_iff)
qed

text \<open>The timing section, when it has no message.\<close>

definition tm_field :: "record_dict \<Rightarrow> string \<Rightarrow> pyval" where
  "tm_field r k = (case rget r ''timing_metrics'' (PDict []) of PDict tm \<Rightarrow> rget tm k PNone | _ \<Rightarrow> PNone)"

lemma rget_present: "k \<in> fst ` set kvs \<Longrightarrow> rget kvs k d = rget kvs k d'"
  by (auto simp: rget_def split: option.splits dest!: map_of_eq_None_iff [THEN iffD1])

lemma get_present:
  "k \<in> fst ` set kvs \<Longrightarrow> py_get_default (PDict kvs) k d = Inr (rget kvs k PNone)"
  using rget_present [of k kvs d PNone] by (simp add: rget_def)

lemma timing_accepts:
  assumes "timing_checks r = Inr ([], sec)"
  obtains t0 t1 where "is_int (tm_field r ''post_fork_monotonic_ns'')"
    "is_int (tm_field r ''terminal_monotonic_ns'')"
    "t0 = int_of (tm_field r ''post_fork_monotonic_ns'')"
    "t1 = int_of (tm_field r ''terminal_monotonic_ns'')"
    "0 \<le> t0" "t0 \<le> t1" "py_div_1e9 (PInt (t1 - t0)) = Inr sec"
    "num_of (tm_field r ''candidate_elapsed_duration_ns'') = Some (Fin (of_int (t1 - t0)))"
proof -
  let ?tm = "rget r ''timing_metrics'' (PDict [])"
  from assms obtain t_start t_end reversal dur elapsed where
    fields: "missing_fields (Msg_Str ''MISSING_TIMING_FIELD_'') required_timing ?tm = Inr []"
    and t_start: "py_get_default ?tm ''post_fork_monotonic_ns'' (PInt 0) = Inr t_start"
    and t_end: "py_get_default ?tm ''terminal_monotonic_ns'' (PInt 0) = Inr t_end"
    and rev: "py_less t_end t_start = Inr reversal" "\<not> reversal"
    and dur: "py_minus t_end t_start = Inr dur"
    and elapsed: "vget ?tm ''candidate_elapsed_duration_ns'' = Inr elapsed" "py_eq elapsed dur"
    and sec: "py_div_1e9 dur = Inr sec"
    and ints: "is_int t_start" "0 \<le> int_of t_start" "is_int t_end" "0 \<le> int_of t_end"
    unfolding timing_checks_def Let_def bindR_Inr_iff by (auto simp del: py_get_default_PDict)
  from t_start obtain tm where tm: "?tm = PDict tm" by (auto simp: res_iff)
  with fields have keys: "\<forall>f \<in> set required_timing. f \<in> fst ` set tm" by (simp add: res_iff)
  have get: "t_start = rget tm ''post_fork_monotonic_ns'' PNone" "t_end = rget tm ''terminal_monotonic_ns'' PNone"
    using t_start t_end keys
      get_present [of "''post_fork_monotonic_ns''" tm] get_present [of "''terminal_monotonic_ns''" tm]
    by (simp_all add: tm required_timing_def del: py_get_default_PDict)
  have d: "dur = PInt (int_of t_end - int_of t_start)" using dur is_int_minus [OF ints(3,1)] by simp
  have "int_of t_start \<le> int_of t_end" using rev is_int_less [OF ints(3,1)] by simp
  then show ?thesis
    using that [of "int_of t_start" "int_of t_end"] ints sec elapsed
    by (simp add: tm_field_def tm d get [symmetric] py_eq_PInt_right vget_Inr_iff)
qed

text \<open>The event loop, when it has no message.\<close>

definition ev_field :: "pyval \<Rightarrow> string \<Rightarrow> pyval" where
  "ev_field ev k = (case ev of PDict kvs \<Rightarrow> rget kvs k PNone | _ \<Rightarrow> PNone)"

definition ev_type :: "pyval \<Rightarrow> string" where
  "ev_type ev = (case ev_field ev ''event_type'' of PStr s \<Rightarrow> s | _ \<Rightarrow> [])"

definition binding_keys :: "string list" where
  "binding_keys = [''boot_id'', ''session_id'', ''trial_id'', ''attempt_ordinal'', ''pid'']"

text \<open>An event that carries the whole envelope, is bound to the trial and has its payload.\<close>

definition event_ok :: "grammar \<Rightarrow> record_dict \<Rightarrow> pyval \<Rightarrow> bool" where
  "event_ok g r ev \<longleftrightarrow>
     (is_dict ev \<and> list_all (\<lambda>k. py_contains k ev = Inr True) required_event
      \<and> list_all (\<lambda>k. py_eq (ev_field ev k) (rget r k PNone)) binding_keys
      \<and> ev_field ev ''event_type'' = PStr (ev_type ev) \<and> ev_type ev \<in> fst ` set g
      \<and> list_all (\<lambda>k. py_contains k (ev_field ev ''payload'') = Inr True)
          (case map_of g (ev_type ev) of None \<Rightarrow> [] | Some fs \<Rightarrow> fs))"

lemma event_checks_accepts:
  assumes "event_checks g r idx prev_seq prev_time evs = Inr ([], tys)"
  shows "list_all (event_ok g r) evs \<and> tys = map ev_type evs
    \<and> successively (\<lambda>a b. py_le b a = Inr False) (prev_seq # map (\<lambda>ev. ev_field ev ''sequence'') evs)
    \<and> successively (\<lambda>a b. py_less b a = Inr False)
        (prev_time # map (\<lambda>ev. ev_field ev ''device_monotonic_ns'') evs)"
  using assms
proof (induction evs arbitrary: idx prev_seq prev_time tys)
  case (Cons ev evs)
  from Cons.prems obtain seq ev_time ty tys' payload where
    fields: "missing_fields (\<lambda>f. Msg_Event idx (''MISSING_FIELD_'' @ f)) required_event ev = Inr []"
    and seq: "py_get_default ev ''sequence'' (PInt 0) = Inr seq" "py_le seq prev_seq = Inr False"
    and time: "py_get_default ev ''device_monotonic_ns'' (PInt 0) = Inr ev_time" "py_less ev_time prev_time = Inr False"
    and bind: "binding_checks r ev idx = Inr []"
    and type: "event_type_checks g ev idx = Inr ([], ty)"
    and rest: "event_checks g r (Suc idx) seq ev_time evs = Inr ([], tys')"
    and tys: "tys = ty @ tys'"
    by (auto simp: bindR_Inr_iff simp del: py_get_default_PDict)
  from seq(1) obtain kvs where ev: "ev = PDict kvs" by (auto simp: res_iff)
  have keys: "\<forall>f \<in> set required_event. f \<in> fst ` set kvs" using fields by (simp add: ev res_iff)
  have get: "seq = ev_field ev ''sequence''" "ev_time = ev_field ev ''device_monotonic_ns''"
    "\<And>d. py_get_default ev ''payload'' d = Inr (ev_field ev ''payload'')"
    using seq(1) time(1) keys get_present [of "''sequence''" kvs]
      get_present [of "''device_monotonic_ns''" kvs] get_present [of "''payload''" kvs]
    by (simp_all add: ev ev_field_def required_event_def del: py_get_default_PDict)
  have "ev_field ev ''event_type'' = PStr (ev_type ev) \<and> ty = [ev_type ev] \<and> ev_type ev \<in> fst ` set g
      \<and> (\<forall>k \<in> set (case map_of g (ev_type ev) of None \<Rightarrow> [] | Some fs \<Rightarrow> fs).
          py_contains k (ev_field ev ''payload'') = Inr True)"
    using type
    by (cases "ev_field ev ''event_type''")
       (auto simp: event_type_checks_def bindR_Inr_iff vget_Inr_iff ev ev_field_def ev_type_def
         get(3) [unfolded ev ev_field_def pyval.case] missing_fields_Nil
         simp del: py_get_default_PDict split: if_splits)
  moreover have "\<forall>k \<in> set binding_keys. py_eq (ev_field ev k) (rget r k PNone)"
    using bind by (auto simp: binding_checks_def binding_check_def res_iff binding_keys_def ev ev_field_def)
  ultimately have "event_ok g r ev" "ty = [ev_type ev]"
    using fields by (auto simp: event_ok_def list_all_iff ev res_iff)
  then show ?case
    using Cons.IH [OF rest] seq(2) time(2) tys get(1,2) by simp
qed simp

lemma py_index_Inr_iff [res_iff]:
  "py_index x xs = Inr i \<longleftrightarrow> i < length xs \<and> xs ! i = x \<and> (\<forall>j < i. xs ! j \<noteq> x)"
proof (induction xs arbitrary: i)
  case (Cons y ys)
  show ?case
    by (cases i) (auto simp: bindR_Inr_iff Cons.IH All_less_Suc2)
qed simp

lemma py_index_ex: "(\<exists>i. py_index x xs = Inr i) \<longleftrightarrow> x \<in> set xs"
  by (induction xs) (auto simp: bindR_Inr_iff)

text \<open>The trial spawned, and no \<open>PROCESS_REAP\<close> precedes the first \<open>ATTEMPT_SPAWN\<close>.\<close>

definition spawn_before_reap :: "string list \<Rightarrow> bool" where
  "spawn_before_reap tys =
     (\<exists>i < length tys. tys ! i = ''ATTEMPT_SPAWN'' \<and> (\<forall>j < i. tys ! j \<noteq> ''PROCESS_REAP''))"

lemma ordering_accepts: "ordering_checks tys = Inr [] \<longleftrightarrow> spawn_before_reap tys"
proof (cases "''ATTEMPT_SPAWN'' \<in> set tys")
  case True
  then obtain s where s: "py_index ''ATTEMPT_SPAWN'' tys = Inr s" using py_index_ex by metis
  note si = s [unfolded py_index_Inr_iff]
  have min: "s \<le> i" if "tys ! i = ''ATTEMPT_SPAWN''" for i using si that by (meson not_le)
  show ?thesis
  proof (cases "''PROCESS_REAP'' \<in> set tys")
    case reap: True
    then obtain p where p: "py_index ''PROCESS_REAP'' tys = Inr p" using py_index_ex by metis
    note pi = p [unfolded py_index_Inr_iff]
    have "ordering_checks tys = Inr [] \<longleftrightarrow> s \<le> p"
      using True reap by (auto simp: ordering_checks_def s p not_less)
    also have "\<dots> \<longleftrightarrow> spawn_before_reap tys"
    proof
      assume "s \<le> p"
      then show "spawn_before_reap tys"
        unfolding spawn_before_reap_def using si pi by (intro exI [of _ s]) auto
    next
      assume "spawn_before_reap tys"
      then obtain i where "tys ! i = ''ATTEMPT_SPAWN''" "\<forall>j < i. tys ! j \<noteq> ''PROCESS_REAP''"
        by (auto simp: spawn_before_reap_def)
      then show "s \<le> p" using min [of i] pi by (meson le_trans not_le)
    qed
    finally show ?thesis .
  next
    case False
    then show ?thesis
      using True si unfolding ordering_checks_def spawn_before_reap_def by (auto simp: in_set_conv_nth)
  qed
next
  case False
  then have "\<not> spawn_before_reap tys" by (auto simp: spawn_before_reap_def dest: nth_mem)
  with False show ?thesis by (auto simp: ordering_checks_def bindR_Inr_iff)
qed

definition record_events :: "record_dict \<Rightarrow> pyval list" where
  "record_events r = (case rget r ''state_transitions'' (PList []) of PList evs \<Rightarrow> evs | _ \<Rightarrow> [])"

lemma transition_accepts:
  assumes "transition_checks g r = Inr []"
  shows "2 \<le> length (record_events r)" "list_all (event_ok g r) (record_events r)"
    "spawn_before_reap (map ev_type (record_events r))"
    "successively (\<lambda>a b. py_le b a = Inr False)
       (PInt (-1) # map (\<lambda>ev. ev_field ev ''sequence'') (record_events r))"
    "successively (\<lambda>a b. py_less b a = Inr False)
       (PInt (-1) # map (\<lambda>ev. ev_field ev ''device_monotonic_ns'') (record_events r))"
proof -
  obtain evs where evs: "rget r ''state_transitions'' (PList []) = PList evs" "2 \<le> length evs"
    using assms by (auto simp: transition_checks_def split: pyval.splits if_splits)
  then obtain tys where c: "event_checks g r 0 (PInt (-1)) (PInt (-1)) evs = Inr ([], tys)"
    "ordering_checks tys = Inr []"
    using assms by (auto simp: transition_checks_def bindR_Inr_iff)
  note a = event_checks_accepts [OF c(1)]
  have r: "record_events r = evs" by (simp add: record_events_def evs(1))
  show "2 \<le> length (record_events r)" "list_all (event_ok g r) (record_events r)"
    "spawn_before_reap (map ev_type (record_events r))"
    "successively (\<lambda>a b. py_le b a = Inr False)
       (PInt (-1) # map (\<lambda>ev. ev_field ev ''sequence'') (record_events r))"
    "successively (\<lambda>a b. py_less b a = Inr False)
       (PInt (-1) # map (\<lambda>ev. ev_field ev ''device_monotonic_ns'') (record_events r))"
    using a evs(2) c(2) ordering_accepts by (simp_all add: r)
qed

end
