(* ===== verification/J2_Records.thy ===== *)
theory J2_Records
  imports J2_Validator
begin

text \<open>
  Concrete observation records, and the properties of the validator: what an accepted
  record satisfies, when validation raises, and where it accepts more than it should.
\<close>

section \<open>Concrete records\<close>

text \<open>A well-formed record; the arguments are the parts the campaign rules look at.\<close>

definition bindings :: "string \<Rightarrow> string \<Rightarrow> record_dict" where
  "bindings boot trial =
     [(''boot_id'', PStr boot), (''session_id'', PStr ''SES-0000000A''), (''trial_id'', PStr trial),
      (''attempt_ordinal'', PInt 1), (''pid'', PInt 77)]"

definition mk_event :: "string \<Rightarrow> string \<Rightarrow> int \<Rightarrow> string \<Rightarrow> record_dict \<Rightarrow> pyval" where
  "mk_event boot trial seq ty payload = PDict
     ([(''sequence'', PInt seq), (''event_type'', PStr ty), (''device_monotonic_ns'', PInt seq)]
      @ bindings boot trial @ [(''producer'', PStr ''SUPERVISOR''), (''payload'', PDict payload)])"

definition mk_artifact :: pyval where
  "mk_artifact = PDict
     [(''schema_defined'', PBool True), (''device_model'', PStr canonical_device_model),
      (''device_name'', PStr canonical_device_name),
      (''incremental_version'', PStr canonical_incremental),
      (''build_fingerprint'', PStr canonical_build_fingerprint),
      (''stock_image_sha256'', PStr canonical_stock_image_sha256),
      (''kernel_identity'', PStr canonical_kernel_identity),
      (''run_package_identity'', PDict [(''binding_status'', PStr ''BOUND_FROZEN'')]),
      (''raw_evidence_identity'', PDict [(''binding_status'', PStr ''BOUND_CLOSED'')])]"

definition mk_condition :: "string \<Rightarrow> pyval" where
  "mk_condition cond = PDict
     [(''condition_class'', PStr cond), (''threshold_profile_id'', PStr ''TEMPLATE_UNBOUND''),
      (''detector_version'', PNone), (''freezer_state'', PStr ''THAWED''), (''thermal_state'', PNone),
      (''load_class'', PNone), (''memory_pressure_class'', PNone), (''collector_health'', PNone),
      (''raw_telemetry'', PNone)]"

definition mk_timing :: "int \<Rightarrow> pyfloat \<Rightarrow> pyfloat \<Rightarrow> pyval" where
  "mk_timing secs elapsed room = PDict
     [(''clock_source'', PStr ''CLOCK_MONOTONIC''), (''post_fork_monotonic_ns'', PInt 0),
      (''slide_ready_monotonic_ns'', PInt 0),
      (''terminal_monotonic_ns'', PInt (secs * 1000000000)), (''p0_duration_seconds'', PInt 0),
      (''candidate_elapsed_duration_ns'', PInt (secs * 1000000000)),
      (''candidate_elapsed_duration_seconds'', PFloat elapsed),
      (''canonical_headroom_seconds'', PFloat room),
      (''supervisor_integer_elapsed_sec'', PInt secs)]"

definition mk_record ::
    "string \<Rightarrow> string \<Rightarrow> string \<Rightarrow> pyval \<Rightarrow> pyval list \<Rightarrow> string \<Rightarrow> string \<Rightarrow> string \<Rightarrow> record_dict"
where
  "mk_record boot trial cond timing events tclass validity vote =
     [(''schema_version'', PStr canonical_schema_version),
      (''event_grammar_version'', PStr canonical_grammar_version),
      (''candidate_identity'', PDict
         [(''candidate_parameter'', PStr ''DEFAULT_ATTEMPT_TIMEOUT_SEC''), (''candidate_value'', PInt 2200)]),
      (''experiment_id'', PStr ''EXP-0000000A'')]
     @ bindings boot trial @
     [(''artifact_identity'', mk_artifact), (''condition_vector'', mk_condition cond),
      (''timing_metrics'', timing), (''confounder_observations'', PDict []),
      (''state_transitions'', PList events), (''observables'', PNone),
      (''classification'', PDict
         [(''trial_terminal_class'', PStr tclass), (''trial_validity'', PStr validity),
          (''trial_evidence_vote'', PStr vote)])]"

definition spawn_payload :: record_dict where
  "spawn_payload = [(''assigned_pid'', PInt 77), (''executable_path'', PStr ''/x'')]"

definition reap_payload :: record_dict where
  "reap_payload = [(''reaped_pid'', PInt 77), (''exit_status'', PInt 0)]"

definition normal_events :: "string \<Rightarrow> string \<Rightarrow> pyval list" where
  "normal_events boot trial =
     [mk_event boot trial 0 ''ATTEMPT_SPAWN'' spawn_payload, mk_event boot trial 1 ''PROCESS_REAP'' reap_payload]"

definition good_record :: "string \<Rightarrow> string \<Rightarrow> string \<Rightarrow> record_dict" where
  "good_record boot trial cond =
     mk_record boot trial cond (mk_timing 1 (Fin 1) (Fin 2199)) (normal_events boot trial)
       ''QUALIFYING_COMPLETION'' ''VALID'' ''COMPATIBLE_VOTE''"

definition timeout_record :: "string \<Rightarrow> string \<Rightarrow> string \<Rightarrow> record_dict" where
  "timeout_record boot trial cond =
     mk_record boot trial cond (mk_timing 2200 (Fin 2200) (Fin 0)) (normal_events boot trial)
       ''SUPERVISOR_OVERALL_TIMEOUT'' ''VALID'' ''INCOMPATIBLE_VOTE''"

definition orphan_reap_record :: record_dict where
  "orphan_reap_record =
     mk_record (replicate 64 CHR ''a'') ''TRL-0001'' ''SETTLED_NOMINAL'' (mk_timing 1 (Fin 1) (Fin 2199))
       [mk_event (replicate 64 CHR ''a'') ''TRL-0001'' 0 ''P0_ENTER'' [],
        mk_event (replicate 64 CHR ''a'') ''TRL-0001'' 1 ''PROCESS_REAP'' reap_payload]
       ''CHILD_EXPLICIT_FAILURE'' ''INVALID'' ''NO_VOTE''"

lemma float_consts: "eps_1e6 = Fin (rnd (1 / 1000000))" "desync_1_1 = Fin (rnd (11 / 10))"
  "0 \<le> rnd (1 / 1000000)" "0 \<le> rnd (11 / 10)"
  using float_of_rat_Fin [of "1 / 1000000" 1] float_of_rat_Fin [of "11 / 10" 2]
  by (simp_all add: eps_1e6_def desync_1_1_def rnd_nonneg)

text \<open>Small whole numbers of seconds are exact; a NaN passes every tolerance test.\<close>

lemma mk_timing_passes:
  assumes tm: "rget r ''timing_metrics'' (PDict []) = mk_timing secs elapsed room"
    and secs: "0 \<le> secs" "secs \<le> 9000"
    and vals: "elapsed \<in> {Fin (of_int secs), NaN}" "room \<in> {Fin (2200 - of_int secs), NaN}"
  shows "timing_checks r = Inr ([], Fin (of_int secs))"
proof -
  let ?ns = "secs * 1000000000"
  have "\<bar>?ns\<bar> \<le> 2 ^ 53" using secs by simp
  then have "float_of_int ?ns = Some (Fin (of_int ?ns))" by (rule float_of_int_exact)
  moreover have small: "float_of_rat (of_int m) = Fin (of_int m)" if "\<bar>m\<bar> \<le> 9000" for m
    using that float_of_rat_Fin [of "of_int m" "9000"] rnd_of_int [of m]
    by (simp flip: of_int_abs)
  have s: "float_of_rat (of_int secs) = Fin (of_int secs)" using secs by (intro small) simp
  ultimately have div: "py_div_1e9 (PInt ?ns) = Inr (Fin (of_int secs))"
    by (simp add: py_div_1e9_def)
  have room: "float_of_rat (2200 - of_int secs) = Fin (2200 - of_int secs)"
    using small [of "2200 - secs"] secs by simp
  have zero: "float_of_rat 0 = Fin 0" using small [of 0] by simp
  have fi: "float_of_int secs = Some (Fin (of_int secs))"
    using secs by (intro float_of_int_exact) simp
  have "missing_fields (Msg_Str ''MISSING_TIMING_FIELD_'') required_timing (mk_timing secs elapsed room) = Inr []"
    unfolding missing_fields_Nil by (simp add: required_timing_def mk_timing_def)
  moreover have "expect_str (mk_timing secs elapsed room) ''clock_source'' ''CLOCK_MONOTONIC''
      (Msg_Val ''ILLEGAL_CLOCK_SOURCE_'') = Inr []"
    unfolding expect_str_Nil by (simp add: mk_timing_def rget_def)
  ultimately show ?thesis
    using vals secs
    by (auto simp: timing_checks_def Let_def tm div)
       (auto simp: mk_timing_def is_int_less is_int_minus vget_def div far_apart_def room zero fi
          f_sub_def float_consts py_eq_PInt_right not_less)
qed

text \<open>Every other section is evaluated.\<close>

lemma validate_mk_record:
  assumes r: "r = mk_record boot trial cond timing events tclass validity vote"
    and "timing = mk_timing secs elapsed room" "0 \<le> secs" "secs \<le> 9000"
    and "elapsed \<in> {Fin (of_int secs), NaN}" "room \<in> {Fin (2200 - of_int secs), NaN}"
    and "missing_root r = []" "identity_checks r = Inr []" "pattern_checks r = Inr []"
    and "artifact_checks r = Inr []" "condition_checks r = Inr []"
  shows "validate_observation_record g r =
    bindR (transition_checks g r) (\<lambda>e3. bindR (classification_checks r (Fin (of_int secs))) (\<lambda>e4. Inr (e3 @ e4)))"
proof -
  have "rget r ''timing_metrics'' (PDict []) = mk_timing secs elapsed room"
    by (simp add: r assms(2) mk_record_def bindings_def rget_def)
  from mk_timing_passes [OF this assms(3-6)] show ?thesis
    by (simp add: validate_observation_record_def assms(7-11))
qed

section \<open>What acceptance means\<close>

lemma classification_accepts:
  assumes "classification_checks r sec = Inr []"
  obtains kvs t_term t_valid t_vote where "rget r ''classification'' (PDict []) = PDict kvs"
    "rget kvs ''trial_terminal_class'' PNone = PStr t_term" "t_term \<in> set terminal_classes"
    "rget kvs ''trial_validity'' PNone = PStr t_valid" "t_valid \<in> set trial_validities"
    "rget kvs ''trial_evidence_vote'' PNone = PStr t_vote" "t_vote \<in> set evidence_votes"
    "vote_checks (PStr t_term) (PStr t_valid) (PStr t_vote) sec = []"
proof -
  let ?cls = "rget r ''classification'' (PDict [])"
  from assms obtain tclass valid vote where
    get: "vget ?cls ''trial_terminal_class'' = Inr tclass" "vget ?cls ''trial_validity'' = Inr valid"
    "vget ?cls ''trial_evidence_vote'' = Inr vote"
    and str: "py_in_strs tclass terminal_classes" "py_in_strs valid trial_validities"
      "py_in_strs vote evidence_votes"
    and checks: "vote_checks tclass valid vote sec = []"
    unfolding classification_checks_def Let_def bindR_Inr_iff
    by - (elim exE conjE, rule that, assumption, assumption, assumption, simp_all)
  from str obtain a b c where v: "tclass = PStr a" "a \<in> set terminal_classes"
    "valid = PStr b" "b \<in> set trial_validities" "vote = PStr c" "c \<in> set evidence_votes"
    unfolding py_in_strs_iff by blast
  from get obtain kvs where "?cls = PDict kvs" by (auto simp: vget_Inr_iff)
  with get v checks show ?thesis
    using that [of kvs a b c] by (simp add: vget_Inr_iff)
qed

definition cls_field :: "record_dict \<Rightarrow> string \<Rightarrow> pyval" where
  "cls_field r k = (case rget r ''classification'' (PDict []) of PDict kvs \<Rightarrow> rget kvs k PNone | _ \<Rightarrow> PNone)"

lemma accepted_vote:
  assumes "validate_observation_record g r = Inr []"
  shows "\<exists>t0 t1 tclass validity vote.
      0 \<le> t0 \<and> t0 \<le> t1
      \<and> int_of (tm_field r ''post_fork_monotonic_ns'') = t0 \<and> int_of (tm_field r ''terminal_monotonic_ns'') = t1
      \<and> num_of (tm_field r ''candidate_elapsed_duration_ns'') = Some (Fin (of_int (t1 - t0)))
      \<and> cls_field r ''trial_terminal_class'' = PStr tclass \<and> tclass \<in> set terminal_classes
      \<and> cls_field r ''trial_validity'' = PStr validity
      \<and> cls_field r ''trial_evidence_vote'' = PStr vote
      \<and> (vote = ''COMPATIBLE_VOTE'' \<and> validity = ''VALID'' \<and> tclass = ''QUALIFYING_COMPLETION''
            \<and> t1 - t0 \<le> 2195 * 10 ^ 9
         \<or> vote = ''INCOMPATIBLE_VOTE'' \<and> validity = ''VALID'' \<and> tclass = ''SUPERVISOR_OVERALL_TIMEOUT''
            \<and> 2200 * 10 ^ 9 \<le> t1 - t0
         \<or> vote = ''NO_VOTE'' \<and> validity \<in> set trial_validities)"
proof (rule validate_accepts [OF assms], goal_cases)
  case (1 sec)
  obtain t0 t1 where t: "t0 = int_of (tm_field r ''post_fork_monotonic_ns'')"
    "t1 = int_of (tm_field r ''terminal_monotonic_ns'')" "0 \<le> t0" "t0 \<le> t1"
    "py_div_1e9 (PInt (t1 - t0)) = Inr sec"
    "num_of (tm_field r ''candidate_elapsed_duration_ns'') = Some (Fin (of_int (t1 - t0)))"
    using timing_accepts [OF 1(6)] by metis
  obtain kvs tclass valid vote where c: "rget r ''classification'' (PDict []) = PDict kvs"
    "rget kvs ''trial_terminal_class'' PNone = PStr tclass" "tclass \<in> set terminal_classes"
    "rget kvs ''trial_validity'' PNone = PStr valid" "valid \<in> set trial_validities"
    "rget kvs ''trial_evidence_vote'' PNone = PStr vote" "vote \<in> set evidence_votes"
    "vote_checks (PStr tclass) (PStr valid) (PStr vote) sec = []"
    by (rule classification_accepts [OF 1(8)])
  have thr: "f_less (Fin 2195) sec \<longleftrightarrow> 2195 * 10 ^ 9 < t1 - t0" "f_less sec (Fin 2200) \<longleftrightarrow> t1 - t0 < 2200 * 10 ^ 9"
    using seconds_compare(1) [OF t(5), of 2195] seconds_compare(2) [OF t(5), of 2200] by simp_all
  consider "vote = ''COMPATIBLE_VOTE''" | "vote = ''INCOMPATIBLE_VOTE''" | "vote = ''NO_VOTE''"
    using c(7) by (auto simp: evidence_votes_def)
  then have v: "vote = ''COMPATIBLE_VOTE'' \<and> valid = ''VALID'' \<and> tclass = ''QUALIFYING_COMPLETION''
        \<and> t1 - t0 \<le> 2195 * 10 ^ 9
      \<or> vote = ''INCOMPATIBLE_VOTE'' \<and> valid = ''VALID'' \<and> tclass = ''SUPERVISOR_OVERALL_TIMEOUT''
        \<and> 2200 * 10 ^ 9 \<le> t1 - t0
      \<or> vote = ''NO_VOTE'' \<and> valid \<in> set trial_validities"
    using c(5,8) thr by cases (simp_all add: vote_checks_def not_less)
  have f: "cls_field r ''trial_terminal_class'' = PStr tclass" "cls_field r ''trial_validity'' = PStr valid"
    "cls_field r ''trial_evidence_vote'' = PStr vote"
    using c(1,2,4,6) by (simp_all add: cls_field_def)
  show ?case
    using v f t c(3) by blast
qed

text \<open>
  Claim C3. An accepted record counts for the campaign exactly as its integer timestamps
  say, although the code decides in doubles: the elapsed time is the difference of two
  non-negative integer timestamps in order; a compatible vote is a valid qualifying
  completion within 2195 seconds to the nanosecond, an incompatible vote a valid
  supervisor timeout of at least 2200 seconds; and the class, the validity and the vote are from
  the closed lists.
\<close>
theorem accepted_vote_exact:
  assumes "validate_observation_record g r = Inr []"
  shows "\<exists>t0 t1 tclass validity vote.
      0 \<le> t0 \<and> t0 \<le> t1
      \<and> int_of (tm_field r ''post_fork_monotonic_ns'') = t0 \<and> int_of (tm_field r ''terminal_monotonic_ns'') = t1
      \<and> num_of (tm_field r ''candidate_elapsed_duration_ns'') = Some (Fin (of_int (t1 - t0)))
      \<and> cls_field r ''trial_terminal_class'' = PStr tclass \<and> tclass \<in> set terminal_classes
      \<and> cls_field r ''trial_validity'' = PStr validity
      \<and> cls_field r ''trial_evidence_vote'' = PStr vote
      \<and> (vote = ''COMPATIBLE_VOTE'' \<and> validity = ''VALID'' \<and> tclass = ''QUALIFYING_COMPLETION''
            \<and> t1 - t0 \<le> 2195 * 10 ^ 9
         \<or> vote = ''INCOMPATIBLE_VOTE'' \<and> validity = ''VALID'' \<and> tclass = ''SUPERVISOR_OVERALL_TIMEOUT''
            \<and> 2200 * 10 ^ 9 \<le> t1 - t0
         \<or> vote = ''NO_VOTE'' \<and> validity \<in> set trial_validities)"
  using assms by (rule accepted_vote)

text \<open>
  Claim C29. The lifecycle of an accepted record: at least two events; every event carries
  the whole envelope, is bound to the trial's boot, session, trial, attempt and process,
  has a type of the grammar and that type's payload fields; a spawn is present and no
  reap precedes it; and when the sequence numbers (the timestamps) are integers, they are
  non-negative and strictly increasing (non-decreasing, from -1 on).
\<close>
theorem accepted_transitions:
  assumes "validate_observation_record g r = Inr []"
  defines "evs \<equiv> record_events r"
  shows "2 \<le> length evs \<and> list_all (event_ok g r) evs \<and> spawn_before_reap (map ev_type evs)
    \<and> (list_all (\<lambda>ev. is_int (ev_field ev ''sequence'')) evs \<longrightarrow>
         sorted_wrt (<) (-1 # map (\<lambda>ev. int_of (ev_field ev ''sequence'')) evs))
    \<and> (list_all (\<lambda>ev. is_int (ev_field ev ''device_monotonic_ns'')) evs \<longrightarrow>
         sorted (-1 # map (\<lambda>ev. int_of (ev_field ev ''device_monotonic_ns'')) evs))"
proof -
  have t: "transition_checks g r = Inr []" using assms(1) by (rule validate_accepts)
  have strict: "successively (<) (int_of p # map (int_of \<circ> f) xs)"
    if "successively (\<lambda>a b. py_le b a = Inr False) (p # map f xs)" "is_int p" "list_all (is_int \<circ> f) xs"
    for p and f :: "pyval \<Rightarrow> pyval" and xs
    using that by (induction xs arbitrary: p) (auto simp: is_int_le)
  have weak: "successively (\<le>) (int_of p # map (int_of \<circ> f) xs)"
    if "successively (\<lambda>a b. py_less b a = Inr False) (p # map f xs)" "is_int p" "list_all (is_int \<circ> f) xs"
    for p and f :: "pyval \<Rightarrow> pyval" and xs
    using that by (induction xs arbitrary: p) (auto simp: is_int_less)
  have "successively (<) (-1 # map (\<lambda>ev. int_of (ev_field ev ''sequence'')) evs)"
    if "list_all (\<lambda>ev. is_int (ev_field ev ''sequence'')) evs"
    using strict [OF transition_accepts(4) [OF t]] that by (simp add: evs_def comp_def)
  moreover have "successively (\<le>) (-1 # map (\<lambda>ev. int_of (ev_field ev ''device_monotonic_ns'')) evs)"
    if "list_all (\<lambda>ev. is_int (ev_field ev ''device_monotonic_ns'')) evs"
    using weak [OF transition_accepts(5) [OF t]] that by (simp add: evs_def comp_def)
  ultimately show ?thesis
    using transition_accepts(1-3) [OF t]
    unfolding evs_def [symmetric] by (simp add: successively_conv_sorted_wrt)
qed

section \<open>Identity\<close>

definition id_shape :: "string \<Rightarrow> (char \<Rightarrow> bool) \<Rightarrow> nat \<Rightarrow> string \<Rightarrow> bool" where
  "id_shape pre cls n s =
     (\<exists>body. length body = n \<and> list_all cls body \<and> (s = pre @ body \<or> s = pre @ body @ [CHR 0x0A]))"

lemma id_match_shape: "id_match pre cls n s \<longleftrightarrow> id_shape pre cls n s"
proof
  assume m: "id_match pre cls n s"
  then have s: "s = pre @ drop (length pre) s" by (auto simp: id_match_def prefix_def)
  let ?b = "drop (length pre) s"
  have "?b = take n ?b @ drop n ?b" by (simp only: append_take_drop_id)
  with s have "s = pre @ take n ?b @ drop n ?b" by metis
  then show "id_shape pre cls n s"
    using m by (auto simp: id_match_def id_shape_def Let_def intro!: exI [of _ "take n ?b"])
next
  assume "id_shape pre cls n s"
  then show "id_match pre cls n s" by (auto simp: id_shape_def id_match_def Let_def)
qed

lemma py_id_match_Inr_True [res_iff]:
  "py_id_match pre cls n v = Inr True \<longleftrightarrow> (\<exists>s. v = PStr s \<and> id_shape pre cls n s)"
  by (auto simp: py_id_match_def id_match_shape split: pyval.splits)

lemma missing_root_Nil: "missing_root r = [] \<Longrightarrow> k \<in> set required_root \<Longrightarrow> rget r k d = rget r k PNone"
  by (rule rget_present) (auto simp: missing_root_def filter_empty_conv)

lemma pattern_accepts:
  assumes "pattern_checks r = Inr []" "missing_root r = []"
  shows "\<exists>s. rget r ''experiment_id'' PNone = PStr s \<and> id_shape ''EXP-'' upper_hex 8 s"
    "\<exists>s. rget r ''session_id'' PNone = PStr s \<and> id_shape ''SES-'' upper_hex 8 s"
    "\<exists>s. rget r ''boot_id'' PNone = PStr s \<and> id_shape [] lower_hex 64 s"
    "\<exists>s. rget r ''trial_id'' PNone = PStr s \<and> id_shape ''TRL-'' is_digit_char 4 s"
    "is_int (rget r ''attempt_ordinal'' PNone)" "1 \<le> int_of (rget r ''attempt_ordinal'' PNone)"
    "is_int (rget r ''pid'' PNone)" "1 \<le> int_of (rget r ''pid'' PNone)"
  using assms(1) missing_root_Nil [OF assms(2), of "''experiment_id''" "PStr []"]
    missing_root_Nil [OF assms(2), of "''session_id''" "PStr []"]
    missing_root_Nil [OF assms(2), of "''boot_id''" "PStr []"]
    missing_root_Nil [OF assms(2), of "''trial_id''" "PStr []"]
  by (simp_all add: pattern_checks_def Let_def res_iff required_root_def not_less)

definition art_field :: "record_dict \<Rightarrow> string \<Rightarrow> pyval" where
  "art_field r k = (case rget r ''artifact_identity'' (PDict []) of PDict kvs \<Rightarrow> rget kvs k PNone | _ \<Rightarrow> PNone)"

definition cond_class :: "record_dict \<Rightarrow> pyval" where
  "cond_class r =
     (case rget r ''condition_vector'' (PDict []) of PDict kvs \<Rightarrow> rget kvs ''condition_class'' PNone
      | _ \<Rightarrow> PNone)"

lemma artifact_accepts:
  assumes "artifact_checks r = Inr []"
  shows "art_field r ''device_model'' = PStr canonical_device_model"
    "art_field r ''incremental_version'' = PStr canonical_incremental"
    "art_field r ''build_fingerprint'' = PStr canonical_build_fingerprint"
    "art_field r ''kernel_identity'' = PStr canonical_kernel_identity"
    "art_field r ''stock_image_sha256'' = PStr canonical_stock_image_sha256"
    "art_field r ''schema_defined'' = PBool True"
  using assms
  by (auto simp: artifact_checks_def Let_def expect_str_Nil catR_Nil_iff bindR_Inr_iff vget_Inr_iff art_field_def
      split: if_splits)

lemma condition_accepts:
  "condition_checks r = Inr [] \<Longrightarrow> \<exists>c \<in> set condition_classes. cond_class r = PStr c"
  by (auto simp: condition_checks_def Let_def expect_in_Nil catR_Nil_iff cond_class_def
      simp del: catR.simps)

text \<open>
  The identity of an accepted record: its four ids have the documented shape,
  except that each may carry one trailing newline; the attempt ordinal and the process id
  are positive integers; the condition class is one of the two; and the artifact is the
  canonical EZE4 device, build, kernel and stock image.
\<close>
theorem accepted_identity:
  assumes "validate_observation_record g r = Inr []"
  shows "(\<exists>s. rget r ''experiment_id'' PNone = PStr s \<and> id_shape ''EXP-'' upper_hex 8 s)
    \<and> (\<exists>s. rget r ''session_id'' PNone = PStr s \<and> id_shape ''SES-'' upper_hex 8 s)
    \<and> (\<exists>s. rget r ''boot_id'' PNone = PStr s \<and> id_shape [] lower_hex 64 s)
    \<and> (\<exists>s. rget r ''trial_id'' PNone = PStr s \<and> id_shape ''TRL-'' is_digit_char 4 s)
    \<and> 1 \<le> int_of (rget r ''attempt_ordinal'' PNone) \<and> 1 \<le> int_of (rget r ''pid'' PNone)
    \<and> (\<exists>c \<in> set condition_classes. cond_class r = PStr c)
    \<and> art_field r ''device_model'' = PStr canonical_device_model
    \<and> art_field r ''incremental_version'' = PStr canonical_incremental
    \<and> art_field r ''build_fingerprint'' = PStr canonical_build_fingerprint
    \<and> art_field r ''kernel_identity'' = PStr canonical_kernel_identity
    \<and> art_field r ''stock_image_sha256'' = PStr canonical_stock_image_sha256"
proof (rule validate_accepts [OF assms], goal_cases)
  case (1 sec)
  then show ?case
    using pattern_accepts artifact_accepts condition_accepts by simp
qed

section \<open>Exceptions\<close>

text \<open>
  A record whose events pass the loop and hold a \<open>PROCESS_REAP\<close> but no
  \<open>ATTEMPT_SPAWN\<close> is not reported: \<open>event_types.index\<close> raises \<open>ValueError\<close>, which leaves the
  validator, although the missing spawn was noticed two lines before.
\<close>
theorem reap_without_spawn_raises:
  assumes "missing_root r = []"
    and "catR [identity_checks r, pattern_checks r, artifact_checks r, condition_checks r] = Inr e1"
    and "timing_checks r = Inr (e2, sec)"
    and "rget r ''state_transitions'' (PList []) = PList evs" "2 \<le> length evs"
    and "event_checks g r 0 (PInt (-1)) (PInt (-1)) evs = Inr (e3, tys)"
    and "''PROCESS_REAP'' \<in> set tys" "''ATTEMPT_SPAWN'' \<notin> set tys"
  shows "validate_observation_record g r = Inl ValueError"
proof -
  have none: "py_index x xs = Inl ValueError" if "x \<notin> set xs" for x :: string and xs
    using that by (induction xs) auto
  obtain i where "py_index ''PROCESS_REAP'' tys = Inr i" using assms(7) py_index_ex by metis
  then have "ordering_checks tys = Inl ValueError"
    using assms(7,8) by (simp add: ordering_checks_def none)
  then have "transition_checks g r = Inl ValueError"
    using assms(4-6) by (simp add: transition_checks_def)
  then show ?thesis
    using assms(1-3) by (simp add: validate_observation_record_def)
qed

section \<open>Records on which nothing raises\<close>

definition opt_field :: "(pyval \<Rightarrow> bool) \<Rightarrow> record_dict \<Rightarrow> string \<Rightarrow> bool" where
  "opt_field P kvs k = (case map_of kvs k of None \<Rightarrow> True | Some v \<Rightarrow> P v)"

definition dict_with :: "(record_dict \<Rightarrow> bool) \<Rightarrow> pyval \<Rightarrow> bool" where
  "dict_with P v = (case v of PDict kvs \<Rightarrow> P kvs | _ \<Rightarrow> False)"

text \<open>Numbers whose conversion to a double cannot overflow.\<close>

definition wt_num :: "pyval \<Rightarrow> bool" where
  "wt_num v = (case v of PInt i \<Rightarrow> \<bar>i\<bar> \<le> 2 ^ 53 | PFloat f \<Rightarrow> True | PBool b \<Rightarrow> True | _ \<Rightarrow> False)"

definition wt_ns :: "pyval \<Rightarrow> bool" where
  "wt_ns v \<longleftrightarrow> is_int v \<and> \<bar>int_of v\<bar> \<le> 2 ^ 52"

definition wt_event :: "pyval \<Rightarrow> bool" where
  "wt_event = dict_with (\<lambda>kvs. opt_field (\<lambda>v. num_of v \<noteq> None) kvs ''sequence''
     \<and> opt_field (\<lambda>v. num_of v \<noteq> None) kvs ''device_monotonic_ns''
     \<and> opt_field (\<lambda>v. \<not> is_list v \<and> \<not> is_dict v) kvs ''event_type'' \<and> opt_field is_dict kvs ''payload'')"

definition known_types :: "grammar \<Rightarrow> pyval list \<Rightarrow> string list" where
  "known_types g evs =
     concat (map (\<lambda>ev. case ev_field ev ''event_type'' of
       PStr e \<Rightarrow> if e \<in> fst ` set g then [e] else [] | _ \<Rightarrow> []) evs)"

definition wt_record :: "grammar \<Rightarrow> record_dict \<Rightarrow> bool" where
  "wt_record g r \<longleftrightarrow>
     is_dict (rget r ''candidate_identity'' (PDict []))
     \<and> list_all (\<lambda>k. is_str (rget r k (PStr []))) [''experiment_id'', ''session_id'', ''boot_id'', ''trial_id'']
     \<and> dict_with (\<lambda>kvs. opt_field is_dict kvs ''run_package_identity''
          \<and> opt_field is_dict kvs ''raw_evidence_identity'') (rget r ''artifact_identity'' (PDict []))
     \<and> is_dict (rget r ''condition_vector'' (PDict []))
     \<and> dict_with (\<lambda>kvs. opt_field wt_ns kvs ''post_fork_monotonic_ns''
          \<and> opt_field wt_ns kvs ''terminal_monotonic_ns''
          \<and> opt_field wt_num kvs ''candidate_elapsed_duration_seconds''
          \<and> opt_field wt_num kvs ''canonical_headroom_seconds''
          \<and> opt_field wt_num kvs ''supervisor_integer_elapsed_sec'') (rget r ''timing_metrics'' (PDict []))
     \<and> (case rget r ''state_transitions'' (PList []) of
          PList evs \<Rightarrow> list_all wt_event evs
            \<and> (''PROCESS_REAP'' \<in> set (known_types g evs) \<longrightarrow> ''ATTEMPT_SPAWN'' \<in> set (known_types g evs))
        | _ \<Rightarrow> True)
     \<and> is_dict (rget r ''classification'' (PDict []))
     \<and> dict_with (\<lambda>kvs. opt_field is_dict kvs ''c1_p0_delay'' \<and> opt_field is_dict kvs ''c2_cgroup_freezer''
          \<and> opt_field is_dict kvs ''c3_thermal_throttling'') (rget r ''confounder_observations'' (PDict []))"

definition returns :: "('e, 'a) res \<Rightarrow> bool" where
  "returns m = (case m of Inl e \<Rightarrow> False | Inr x \<Rightarrow> True)"

lemma returns_iff: "returns m \<longleftrightarrow> (\<exists>x. m = Inr x)"
  by (cases m) (auto simp: returns_def)

lemma returns_simps [simp]: "returns (Inr x)" "\<not> returns (Inl e)"
  by (simp_all add: returns_def)

lemma returns_bind: "returns (bindR m f) \<longleftrightarrow> returns m \<and> (\<forall>x. m = Inr x \<longrightarrow> returns (f x))"
  by (cases m) auto

lemma returns_catR: "returns (catR cs) \<longleftrightarrow> list_all returns cs"
  unfolding returns_iff catR_total_iff by (simp add: list_all_iff returns_iff)

lemma returns_flagR [simp]: "returns (flagR c e) \<longleftrightarrow> returns c"
  by (cases c) auto

lemma returns_notR [simp]: "returns (notR c) \<longleftrightarrow> returns c"
  by (cases c) auto

lemma returns_dict [simp]:
  "returns (py_get_default v k d) \<longleftrightarrow> is_dict v" "returns (vget v k) \<longleftrightarrow> is_dict v"
  "is_dict v \<Longrightarrow> returns (py_contains k v)"
  by (cases v; simp add: py_get_default_def vget_def)+

lemma returns_expect [simp]:
  "returns (expect_str v k s err) \<longleftrightarrow> is_dict v" "returns (expect_in v k ss err) \<longleftrightarrow> is_dict v"
  by (simp_all add: expect_str_def expect_in_def returns_bind)

lemma returns_missing [simp]: "is_dict v \<Longrightarrow> returns (missing_fields err fs v)"
  by (simp add: missing_fields_def returns_catR list_all_iff)

lemma opt_field_get:
  "opt_field P kvs k \<Longrightarrow> P d \<Longrightarrow> py_get_default (PDict kvs) k d = Inr x \<Longrightarrow> P x"
  by (auto simp: opt_field_def split: option.splits)

lemma dict_withE: "dict_with P v \<Longrightarrow> (\<And>kvs. v = PDict kvs \<Longrightarrow> P kvs \<Longrightarrow> thesis) \<Longrightarrow> thesis"
  by (cases v) (auto simp: dict_with_def)

lemma wt_num_as_float: "wt_num v \<Longrightarrow> returns (as_float v)"
  by (cases v) (auto simp: wt_num_def float_of_int_exact)

lemma returns_far_apart: "wt_num x \<Longrightarrow> wt_num y \<Longrightarrow> returns (far_apart x y b)"
  by (simp add: far_apart_def returns_bind wt_num_as_float)

lemma returns_timing:
  assumes "dict_with (\<lambda>kvs. opt_field wt_ns kvs ''post_fork_monotonic_ns''
          \<and> opt_field wt_ns kvs ''terminal_monotonic_ns''
          \<and> opt_field wt_num kvs ''candidate_elapsed_duration_seconds''
          \<and> opt_field wt_num kvs ''canonical_headroom_seconds''
          \<and> opt_field wt_num kvs ''supervisor_integer_elapsed_sec'') (rget r ''timing_metrics'' (PDict []))"
  shows "returns (timing_checks r)"
proof -
  obtain kvs where tm: "rget r ''timing_metrics'' (PDict []) = PDict kvs"
    and f: "opt_field wt_ns kvs ''post_fork_monotonic_ns''" "opt_field wt_ns kvs ''terminal_monotonic_ns''"
      "opt_field wt_num kvs ''candidate_elapsed_duration_seconds''"
      "opt_field wt_num kvs ''canonical_headroom_seconds''"
      "opt_field wt_num kvs ''supervisor_integer_elapsed_sec''"
    using assms by (elim dict_withE) auto
  note g = opt_field_get [OF f(1), of "PInt 0"] opt_field_get [OF f(2), of "PInt 0"]
    opt_field_get [OF f(3), of "PFloat (Fin 0)"] opt_field_get [OF f(4), of "PFloat (Fin 0)"]
    opt_field_get [OF f(5), of "PInt 0"]
  have d: "returns (py_div_1e9 (PInt (int_of b - int_of a)))" if "wt_ns a" "wt_ns b" for a b
  proof -
    have "wt_num (PInt (int_of b - int_of a))" using that by (auto simp: wt_ns_def wt_num_def abs_le_iff)
    from wt_num_as_float [OF this] show ?thesis by (simp add: py_div_1e9_def returns_bind)
  qed
  show ?thesis
    unfolding timing_checks_def Let_def tm returns_bind
    using g d
    by (auto simp: wt_ns_def wt_num_def is_int_less is_int_minus returns_far_apart
        simp del: py_get_default_PDict)
qed

lemma returns_event_type:
  assumes "wt_event ev"
  shows "returns (event_type_checks g ev idx)"
proof -
  obtain kvs where ev: "ev = PDict kvs"
    and f: "opt_field (\<lambda>v. \<not> is_list v \<and> \<not> is_dict v) kvs ''event_type''" "opt_field is_dict kvs ''payload''"
    using assms unfolding wt_event_def by (elim dict_withE) auto
  have p: "is_dict x" if "py_get_default (PDict kvs) ''payload'' (PDict []) = Inr x" for x
    using opt_field_get [OF f(2) _ that] by simp
  have "returns (py_key_in (rget kvs ''event_type'' PNone) ks)" for ks
    using f(1) by (cases "rget kvs ''event_type'' PNone") (auto simp: opt_field_def rget_def split: option.splits)
  then show ?thesis
    using p unfolding event_type_checks_def ev returns_bind
    by (auto simp: returns_bind vget_Inr_iff simp del: py_get_default_PDict split: pyval.splits)
qed

lemma returns_events:
  assumes "list_all wt_event evs" "num_of prev_seq \<noteq> None" "num_of prev_time \<noteq> None"
  shows "returns (event_checks g r idx prev_seq prev_time evs)"
  using assms
proof (induction evs arbitrary: idx prev_seq prev_time)
  case (Cons ev evs)
  obtain kvs where ev: "ev = PDict kvs"
    and f: "opt_field (\<lambda>v. num_of v \<noteq> None) kvs ''sequence''"
      "opt_field (\<lambda>v. num_of v \<noteq> None) kvs ''device_monotonic_ns''"
    using Cons.prems(1) unfolding wt_event_def by (auto elim: dict_withE)
  note g = opt_field_get [OF f(1), of "PInt 0"] opt_field_get [OF f(2), of "PInt 0"]
  have "returns (binding_checks r ev idx)"
    by (simp add: binding_checks_def returns_catR binding_check_def returns_bind ev)
  moreover have "returns (py_le a b)" "returns (py_less a b)" if "num_of a \<noteq> None" "num_of b \<noteq> None" for a b
    using that by (auto simp: py_le_def py_less_def)
  ultimately show ?case
    using Cons.prems g returns_event_type [of ev] unfolding event_checks.simps returns_bind
    by (auto simp: ev returns_bind Cons.IH simp del: py_get_default_PDict)
qed simp

lemma event_checks_types:
  "event_checks g r idx ps pt evs = Inr (es, tys) \<Longrightarrow> tys = known_types g evs"
proof (induction evs arbitrary: idx ps pt es tys)
  case (Cons ev evs)
  then obtain e3 ty es' tys' where ty: "event_type_checks g ev idx = Inr (e3, ty)" "tys = ty @ tys'"
    and seq: "is_dict ev" and "tys' = known_types g evs"
    by (auto simp: bindR_Inr_iff py_get_default_Inr_iff)
  moreover have "ty = known_types g [ev]"
    using ty(1) seq by (cases ev; cases "ev_field ev ''event_type''")
      (auto simp: event_type_checks_def bindR_Inr_iff vget_Inr_iff known_types_def ev_field_def split: if_splits)
  ultimately show ?case by (simp add: known_types_def)
qed (simp add: known_types_def)

lemma returns_transitions:
  assumes "case rget r ''state_transitions'' (PList []) of
      PList evs \<Rightarrow> list_all wt_event evs
        \<and> (''PROCESS_REAP'' \<in> set (known_types g evs) \<longrightarrow> ''ATTEMPT_SPAWN'' \<in> set (known_types g evs))
    | _ \<Rightarrow> True"
  shows "returns (transition_checks g r)"
proof (cases "rget r ''state_transitions'' (PList [])")
  case (PList evs)
  have idx: "returns (py_index x xs)" if "x \<in> set xs" for x :: string and xs
    using that py_index_ex returns_iff by metis
  have "returns (event_checks g r 0 (PInt (-1)) (PInt (-1)) evs)"
    using assms PList by (intro returns_events) auto
  moreover have "returns (ordering_checks tys)" if "tys = known_types g evs" for tys
    using assms PList that by (auto simp: ordering_checks_def returns_catR returns_bind idx simp del: catR.simps)
  ultimately show ?thesis
    using event_checks_types by (auto simp: transition_checks_def PList returns_bind)
qed (simp_all add: transition_checks_def)

lemma returns_nested:
  assumes "dict_with P v" "\<And>kvs. P kvs \<Longrightarrow> opt_field is_dict kvs k" "py_get_default v k (PDict []) = Inr x"
  shows "is_dict x"
proof -
  obtain kvs where "v = PDict kvs" "P kvs" using assms(1) by (rule dict_withE)
  then show ?thesis using opt_field_get [OF assms(2), of kvs "PDict []" x] assms(3) by simp
qed

text \<open>
  On every record whose parts have the types the schema gives them (ids are
  strings, sub-objects are dicts, timestamps are integers below 2^52, the other numbers
  convert to doubles) and that does not reap without a spawn, validation returns a list of
  messages and raises nothing, however wrong the values are.
\<close>
theorem validate_returns:
  assumes "wt_record g r"
  shows "\<exists>errs. validate_observation_record g r = Inr errs"
proof -
  note wt = assms [unfolded wt_record_def]
  have "returns (identity_checks r)"
    using wt by (simp add: identity_checks_def Let_def returns_catR returns_bind del: catR.simps)
  moreover have "returns (py_id_match p c n (rget r k (PStr [])))"
    if "k \<in> {''experiment_id'', ''session_id'', ''boot_id'', ''trial_id''}" for p c n k
    using wt that by (cases "rget r k (PStr [])") (auto simp: py_id_match_def)
  then have "returns (pattern_checks r)"
    by (simp add: pattern_checks_def Let_def returns_catR del: catR.simps)
  moreover have "is_dict (rget r ''artifact_identity'' (PDict []))"
    using wt by (auto elim: dict_withE)
  then have "returns (artifact_checks r)"
    using wt returns_nested [of _ "rget r ''artifact_identity'' (PDict [])" "''run_package_identity''"]
      returns_nested [of _ "rget r ''artifact_identity'' (PDict [])" "''raw_evidence_identity''"]
    by (auto simp: artifact_checks_def Let_def returns_catR returns_bind simp del: catR.simps)
  moreover have "returns (condition_checks r)"
    using wt by (simp add: condition_checks_def Let_def returns_catR del: catR.simps)
  moreover have "returns (timing_checks r)" using wt by (intro returns_timing) blast
  moreover have "returns (transition_checks g r)" using wt by (intro returns_transitions) blast
  moreover have "returns (confounder (rget r ''confounder_observations'' (PDict [])) k)"
    if "k \<in> {''c1_p0_delay'', ''c2_cgroup_freezer'', ''c3_thermal_throttling''}" for k
    using wt that returns_nested [of _ "rget r ''confounder_observations'' (PDict [])" k]
    by (auto simp: confounder_def returns_bind elim: dict_withE)
  then have "returns (classification_checks r sec)" for sec
    using wt by (simp add: classification_checks_def Let_def returns_bind)
  ultimately have "returns (validate_observation_record g r)"
    by (simp add: validate_observation_record_def returns_bind returns_catR split_def del: catR.simps)
  then show ?thesis by (simp add: returns_iff)
qed

section \<open>Instances\<close>

definition boot_a :: string where "boot_a = replicate 64 CHR ''a''"

lemma good_record_accepted:
  "validate_observation_record j2_grammar (good_record boot_a ''TRL-0001'' ''SETTLED_NOMINAL'') = Inr []"
proof -
  let ?r = "good_record boot_a ''TRL-0001'' ''SETTLED_NOMINAL''"
  have "missing_root ?r = []" "identity_checks ?r = Inr []" "pattern_checks ?r = Inr []"
    "artifact_checks ?r = Inr []" "condition_checks ?r = Inr []"
    "transition_checks j2_grammar ?r = Inr []" "classification_checks ?r (Fin 1) = Inr []"
    by code_simp+
  then show ?thesis
    by (subst validate_mk_record [OF good_record_def refl]) simp_all
qed

lemma timeout_record_accepted:
  "validate_observation_record j2_grammar (timeout_record boot_a ''TRL-0001'' ''SETTLED_NOMINAL'') = Inr []"
proof -
  let ?r = "timeout_record boot_a ''TRL-0001'' ''SETTLED_NOMINAL''"
  have "missing_root ?r = []" "identity_checks ?r = Inr []" "pattern_checks ?r = Inr []"
    "artifact_checks ?r = Inr []" "condition_checks ?r = Inr []"
    "transition_checks j2_grammar ?r = Inr []" "classification_checks ?r (Fin 2200) = Inr []"
    by code_simp+
  then show ?thesis
    by (subst validate_mk_record [OF timeout_record_def refl]) simp_all
qed

theorem accepted_vote_exact_witness:
  "validate_observation_record j2_grammar (timeout_record boot_a ''TRL-0001'' ''SETTLED_NOMINAL'') = Inr []
   \<and> (\<exists>t0 t1. num_of (tm_field (timeout_record boot_a ''TRL-0001'' ''SETTLED_NOMINAL'')
         ''candidate_elapsed_duration_ns'') = Some (Fin (of_int (t1 - t0))) \<and> 2200 * 10 ^ 9 \<le> t1 - t0)"
proof -
  have "cls_field (timeout_record boot_a ''TRL-0001'' ''SETTLED_NOMINAL'') ''trial_evidence_vote''
      = PStr ''INCOMPATIBLE_VOTE''" by code_simp
  then show ?thesis
    using accepted_vote_exact [OF timeout_record_accepted] timeout_record_accepted by auto
qed

theorem accepted_transitions_witness:
  "spawn_before_reap (map ev_type (record_events (good_record boot_a ''TRL-0001'' ''SETTLED_NOMINAL'')))
   \<and> sorted_wrt (<) (-1 # map (\<lambda>ev. int_of (ev_field ev ''sequence''))
        (record_events (good_record boot_a ''TRL-0001'' ''SETTLED_NOMINAL'')))"
proof -
  have "list_all (\<lambda>ev. is_int (ev_field ev ''sequence''))
      (record_events (good_record boot_a ''TRL-0001'' ''SETTLED_NOMINAL''))" by code_simp
  then show ?thesis using accepted_transitions [OF good_record_accepted] by blast
qed

theorem accepted_identity_witness:
  "\<exists>s. rget (good_record boot_a ''TRL-0001'' ''SETTLED_NOMINAL'') ''boot_id'' PNone = PStr s
     \<and> id_shape [] lower_hex 64 s"
  using accepted_identity [OF good_record_accepted] by blast

theorem reap_without_spawn_raises_witness:
  "validate_observation_record j2_grammar orphan_reap_record = Inl ValueError"
proof -
  let ?r = orphan_reap_record
  have "missing_root ?r = []"
    "catR [identity_checks ?r, pattern_checks ?r, artifact_checks ?r, condition_checks ?r] = Inr []"
    by code_simp+
  moreover have "rget ?r ''timing_metrics'' (PDict []) = mk_timing 1 (Fin 1) (Fin 2199)" by code_simp
  then have "timing_checks ?r = Inr ([], Fin (of_int 1))"
    by (rule mk_timing_passes) simp_all
  moreover obtain evs where "rget ?r ''state_transitions'' (PList []) = PList evs" "2 \<le> length evs"
    "event_checks j2_grammar ?r 0 (PInt (-1)) (PInt (-1)) evs = Inr ([], [''P0_ENTER'', ''PROCESS_REAP''])"
  proof
    let ?e = "[mk_event (replicate 64 CHR ''a'') ''TRL-0001'' 0 ''P0_ENTER'' [],
        mk_event (replicate 64 CHR ''a'') ''TRL-0001'' 1 ''PROCESS_REAP'' reap_payload]"
    show "rget ?r ''state_transitions'' (PList []) = PList ?e" by code_simp
    show "2 \<le> length ?e" by simp
    show "event_checks j2_grammar ?r 0 (PInt (-1)) (PInt (-1)) ?e = Inr ([], [''P0_ENTER'', ''PROCESS_REAP''])"
      by code_simp
  qed
  ultimately show ?thesis
    by - (rule reap_without_spawn_raises, assumption+, simp_all)
qed

theorem validate_returns_witness:
  "\<exists>errs. validate_observation_record j2_grammar (good_record [] ''x'' ''y'') = Inr errs"
proof -
  have "wt_record j2_grammar (good_record [] ''x'' ''y'')" by code_simp
  then show ?thesis by (rule validate_returns)
qed

section \<open>Accepted by mistake\<close>

text \<open>
  A NaN compares false with every tolerance, so a record whose elapsed seconds and
  headroom are NaN (which \<open>json.loads\<close> accepts) passes the derived-value checks.
\<close>

definition nan_record :: record_dict where
  "nan_record = mk_record boot_a ''TRL-0001'' ''SETTLED_NOMINAL'' (mk_timing 1 NaN NaN)
     (normal_events boot_a ''TRL-0001'') ''QUALIFYING_COMPLETION'' ''VALID'' ''COMPATIBLE_VOTE''"

lemma nan_record_accepted:
  "validate_observation_record j2_grammar nan_record = Inr []
   \<and> tm_field nan_record ''candidate_elapsed_duration_seconds'' = PFloat NaN"
proof -
  have "missing_root nan_record = []" "identity_checks nan_record = Inr []" "pattern_checks nan_record = Inr []"
    "artifact_checks nan_record = Inr []" "condition_checks nan_record = Inr []"
    "transition_checks j2_grammar nan_record = Inr []" "classification_checks nan_record (Fin 1) = Inr []"
    "tm_field nan_record ''candidate_elapsed_duration_seconds'' = PFloat NaN"
    by code_simp+
  then show ?thesis
    by (subst validate_mk_record [OF nan_record_def refl]) simp_all
qed

text \<open>The same boot id with a trailing newline is accepted as well, and is a different string.\<close>

lemma newline_boot_accepted:
  "validate_observation_record j2_grammar (good_record (boot_a @ [CHR 0x0A]) ''TRL-0001'' ''SETTLED_NOMINAL'') = Inr []"
proof -
  let ?r = "good_record (boot_a @ [CHR 0x0A]) ''TRL-0001'' ''SETTLED_NOMINAL''"
  have "missing_root ?r = []" "identity_checks ?r = Inr []" "pattern_checks ?r = Inr []"
    "artifact_checks ?r = Inr []" "condition_checks ?r = Inr []"
    "transition_checks j2_grammar ?r = Inr []" "classification_checks ?r (Fin 1) = Inr []"
    by code_simp+
  then show ?thesis
    by (subst validate_mk_record [OF good_record_def refl]) simp_all
qed

end
