(* ===== verification/J2_Aggregator.thy ===== *)
theory J2_Aggregator
  imports J2_Records
begin

text \<open>
  \<open>tools/rmg-eze4/analysis/aggregator.py\<close>: \<open>aggregate_campaign\<close>, the decision contract of
  the campaign. The validator is an argument; the locale \<open>record_validator\<close> states what
  the aggregation relies on, and is interpreted on the model of the real validator.

  The loops over the set \<open>boots_seen\<close> visit it in an order Python does not fix; the order
  is the argument \<open>order\<close>, a function from the boots in order of first occurrence to the
  boots in order of iteration.
\<close>

section \<open>Data\<close>

datatype reason =
    No_Records
  | Record_Not_An_Object nat
  | Record_Invalid nat verr
  | Duplicate_Trial_Record nat
  | Boot_Exceeded_Invalid_Cap pyval nat
  | Total_Invalid_Exceeded_Cap nat
  | Repeated_Attributable_Timeouts pyval nat nat
  | Insufficient_Boots nat
  | Missing_Required_Conditions pyval "pyval list"
  | Cell_Has_Few_Valid_Trials pyval string nat
  | Total_Valid_Trials nat
  | Timeout_Without_Threshold
  | Valid_Trials_Without_Compatible_Vote nat

datatype verdict =
    Compatible nat nat
  | Incompatible "reason list"
  | Inconclusive "reason list"
  | Invalid_Experiment "reason list"

text \<open>What the aggregation reads of one record. The code reads boot and condition twice,
  with different defaults.\<close>

record trial =
  t_boot :: pyval
  t_cond :: pyval
  t_validity :: pyval
  t_vote :: pyval
  t_terminal :: pyval
  t_boot_opt :: pyval
  t_cond_opt :: pyval

record tally =
  boot_invalid_counts :: "(pyval \<times> nat) list"
  total_invalid :: nat
  valid_trials :: "trial list"
  timeout_trials :: "trial list"
  partitions :: "pyval \<times> pyval \<Rightarrow> trial list"
  boots_seen :: "pyval list"
  boot_conditions :: "pyval \<Rightarrow> pyval list"

section \<open>Validation and duplicate detection\<close>

type_synonym validator = "record_dict \<Rightarrow> (pyexc, verr list) res"

definition trial_key :: "record_dict \<Rightarrow> pyval \<times> pyval \<times> pyval \<times> pyval" where
  "trial_key r = (rget r ''experiment_id'' PNone, rget r ''session_id'' PNone,
                  rget r ''boot_id'' PNone, rget r ''trial_id'' PNone)"

text \<open>The first loop: \<open>Inr (Some v)\<close> when it returns the verdict \<open>v\<close>.\<close>

fun check_records ::
    "validator \<Rightarrow> nat \<Rightarrow> (pyval \<times> pyval \<times> pyval \<times> pyval) list \<Rightarrow> pyval list \<Rightarrow> (pyexc, verdict option) res"
where
  "check_records validate index seen [] = Inr None"
| "check_records validate index seen (rec # rest) =
     (case rec of
        PDict r \<Rightarrow>
          bindR (validate r) (\<lambda>errors.
            if errors \<noteq> [] then Inr (Some (Invalid_Experiment (map (Record_Invalid index) errors)))
            else if trial_key r \<in> set seen
              then Inr (Some (Invalid_Experiment [Duplicate_Trial_Record index]))
            else check_records validate (Suc index) (trial_key r # seen) rest)
      | _ \<Rightarrow> Inr (Some (Invalid_Experiment [Record_Not_An_Object index])))"

section \<open>Tallying\<close>

definition trial_of :: "pyval \<Rightarrow> (pyexc, trial) res" where
  "trial_of v =
     bindR (py_get_default v ''boot_id'' (PStr ''UNKNOWN_BOOT'')) (\<lambda>boot.
     bindR (py_get_default v ''condition_vector'' (PDict [])) (\<lambda>cv.
     bindR (py_get_default cv ''condition_class'' (PStr ''UNKNOWN_COND'')) (\<lambda>cond.
     bindR (py_get_default v ''classification'' (PDict [])) (\<lambda>cls.
     bindR (vget cls ''trial_validity'') (\<lambda>validity.
     bindR (vget cls ''trial_evidence_vote'') (\<lambda>vote.
     bindR (vget cls ''trial_terminal_class'') (\<lambda>terminal.
     bindR (vget v ''boot_id'') (\<lambda>boot_opt.
     bindR (vget cv ''condition_class'') (\<lambda>cond_opt.
       Inr \<lparr> t_boot = boot, t_cond = cond, t_validity = validity, t_vote = vote,
             t_terminal = terminal, t_boot_opt = boot_opt, t_cond_opt = cond_opt \<rparr>)))))))))"

text \<open>\<open>counter[k] += 1\<close> on a counter in insertion order.\<close>

fun bump :: "'a \<Rightarrow> ('a \<times> nat) list \<Rightarrow> ('a \<times> nat) list" where
  "bump k [] = [(k, 1)]"
| "bump k ((l, n) # cs) = (if k = l then (l, n + 1) # cs else (l, n) # bump k cs)"

definition add_new :: "'a \<Rightarrow> 'a list \<Rightarrow> 'a list" where
  "add_new x xs = (if x \<in> set xs then xs else xs @ [x])"

definition is_timeout :: "trial \<Rightarrow> bool" where
  "is_timeout t \<longleftrightarrow> t_vote t = PStr ''INCOMPATIBLE_VOTE'' \<and> t_terminal t = PStr ''SUPERVISOR_OVERALL_TIMEOUT''"

definition tally_step :: "tally \<Rightarrow> trial \<Rightarrow> tally" where
  "tally_step s t =
     (let s1 = s \<lparr> boots_seen := add_new (t_boot t) (boots_seen s),
                   boot_conditions := (boot_conditions s)
                     (t_boot t := add_new (t_cond t) (boot_conditions s (t_boot t))) \<rparr>
      in if t_validity t = PStr ''INVALID'' then
           s1 \<lparr> boot_invalid_counts := bump (t_boot t) (boot_invalid_counts s),
                total_invalid := total_invalid s + 1 \<rparr>
         else if t_validity t = PStr ''VALID'' then
           s1 \<lparr> valid_trials := valid_trials s @ [t],
                partitions := (partitions s)
                  ((t_boot t, t_cond t) := partitions s (t_boot t, t_cond t) @ [t]),
                timeout_trials := (if is_timeout t then timeout_trials s @ [t] else timeout_trials s) \<rparr>
         else s1)"

definition tally_start :: tally where
  "tally_start = \<lparr> boot_invalid_counts = [], total_invalid = 0, valid_trials = [], timeout_trials = [],
     partitions = (\<lambda>_. []), boots_seen = [], boot_conditions = (\<lambda>_. []) \<rparr>"

definition tally_of :: "trial list \<Rightarrow> tally" where
  "tally_of ts = foldl tally_step tally_start ts"

section \<open>The verdict\<close>

text \<open>\<open>for cond, timeouts in condition_timeouts.items()\<close>: the first group over the threshold.\<close>

definition timeout_group :: "trial list \<Rightarrow> pyval \<Rightarrow> trial list" where
  "timeout_group ts c = filter (\<lambda>t. t_cond_opt t = c) ts"

definition distinct_boots :: "trial list \<Rightarrow> nat" where
  "distinct_boots ts = length (dedup_on [] (map t_boot_opt ts))"

definition over_threshold :: "trial list \<Rightarrow> pyval \<Rightarrow> bool" where
  "over_threshold ts c \<longleftrightarrow> 3 \<le> length (timeout_group ts c) \<and> 2 \<le> distinct_boots (timeout_group ts c)"

definition required_conditions :: "string list" where
  "required_conditions = [''SETTLED_NOMINAL'', ''ELEVATED_VALID'']"

definition lacks_condition :: "tally \<Rightarrow> pyval \<Rightarrow> bool" where
  "lacks_condition s b \<longleftrightarrow>
     PStr ''SETTLED_NOMINAL'' \<notin> set (boot_conditions s b) \<or> PStr ''ELEVATED_VALID'' \<notin> set (boot_conditions s b)"

definition cell_deficits :: "tally \<Rightarrow> pyval list \<Rightarrow> reason list" where
  "cell_deficits s boots =
     concat (map (\<lambda>b. concat (map (\<lambda>c.
        let cell_count = length (partitions s (b, PStr c))
        in if cell_count < 2 then [Cell_Has_Few_Valid_Trials b c cell_count] else [])
      required_conditions)) boots)"

definition non_compat_votes :: "tally \<Rightarrow> trial list" where
  "non_compat_votes s = filter (\<lambda>t. t_vote t \<noteq> PStr ''COMPATIBLE_VOTE'') (valid_trials s)"

definition judge :: "(pyval list \<Rightarrow> pyval list) \<Rightarrow> tally \<Rightarrow> verdict" where
  "judge order s =
     (case find (\<lambda>(b, n). n > 1) (boot_invalid_counts s) of
        Some (b, n) \<Rightarrow> Invalid_Experiment [Boot_Exceeded_Invalid_Cap b n]
      | None \<Rightarrow>
     if total_invalid s > 2 then Invalid_Experiment [Total_Invalid_Exceeded_Cap (total_invalid s)]
     else case find (over_threshold (timeout_trials s)) (dedup_on [] (map t_cond_opt (timeout_trials s))) of
        Some c \<Rightarrow> Incompatible [Repeated_Attributable_Timeouts c
            (length (timeout_group (timeout_trials s) c))
            (distinct_boots (timeout_group (timeout_trials s) c))]
      | None \<Rightarrow>
     if length (boots_seen s) < 3 then Inconclusive [Insufficient_Boots (length (boots_seen s))]
     else case find (lacks_condition s) (order (boots_seen s)) of
        Some b \<Rightarrow> Inconclusive [Missing_Required_Conditions b (boot_conditions s b)]
      | None \<Rightarrow>
     if cell_deficits s (order (boots_seen s)) \<noteq> []
       then Inconclusive (cell_deficits s (order (boots_seen s)))
     else if length (valid_trials s) < 12 then Inconclusive [Total_Valid_Trials (length (valid_trials s))]
     else if length (timeout_trials s) > 0 then Inconclusive [Timeout_Without_Threshold]
     else if non_compat_votes s \<noteq> []
       then Inconclusive [Valid_Trials_Without_Compatible_Vote (length (non_compat_votes s))]
     else Compatible (length (valid_trials s)) (length (boots_seen s)))"

definition aggregate_campaign ::
    "validator \<Rightarrow> (pyval list \<Rightarrow> pyval list) \<Rightarrow> pyval list \<Rightarrow> (pyexc, verdict) res" where
  "aggregate_campaign validate order records =
     (if records = [] then Inr (Inconclusive [No_Records])
      else bindR (check_records validate 0 [] records) (\<lambda>early. case early of
             Some v \<Rightarrow> Inr v
           | None \<Rightarrow> bindR (mapR trial_of records) (\<lambda>ts. Inr (judge order (tally_of ts)))))"

section \<open>What the tally counts\<close>

definition valid_of :: "trial list \<Rightarrow> trial list" where
  "valid_of ts = filter (\<lambda>t. t_validity t = PStr ''VALID'') ts"

definition invalid_of :: "trial list \<Rightarrow> pyval \<Rightarrow> nat" where
  "invalid_of ts b = length (filter (\<lambda>t. t_validity t = PStr ''INVALID'' \<and> t_boot t = b) ts)"

definition cell_of :: "trial list \<Rightarrow> pyval \<Rightarrow> pyval \<Rightarrow> trial list" where
  "cell_of ts b c = filter (\<lambda>t. t_boot t = b \<and> t_cond t = c) (valid_of ts)"

lemma add_new_set [simp]: "set (add_new x xs) = insert x (set xs)"
  by (auto simp: add_new_def)

lemma add_new_distinct [simp]: "distinct xs \<Longrightarrow> distinct (add_new x xs)"
  by (auto simp: add_new_def)

lemma bump_map_of:
  "map_of (bump k cs) l = (if l = k then Some (case map_of cs k of None \<Rightarrow> 1 | Some n \<Rightarrow> n + 1)
                           else map_of cs l)"
  by (induction k cs rule: bump.induct) auto

lemma bump_keys: "fst ` set (bump k cs) = insert k (fst ` set cs)"
  by (induction k cs rule: bump.induct) auto

lemma bump_distinct: "distinct (map fst cs) \<Longrightarrow> distinct (map fst (bump k cs))"
proof (induction k cs rule: bump.induct)
  case (2 k l n cs)
  have "l \<notin> fst ` set (bump k cs)" if "k \<noteq> l" using 2 that by (simp add: bump_keys)
  with 2 show ?case by auto
qed simp

lemma tally_snoc: "tally_of (ts @ [t]) = tally_step (tally_of ts) t"
  by (simp add: tally_of_def)

text \<open>The invariant of the tallying loop: every counter is a function of the trials read so far.\<close>

lemma tally_inv:
  "set (boots_seen (tally_of ts)) = t_boot ` set ts \<and> distinct (boots_seen (tally_of ts))
   \<and> (\<forall>b. set (boot_conditions (tally_of ts) b) = t_cond ` {t \<in> set ts. t_boot t = b})
   \<and> valid_trials (tally_of ts) = valid_of ts
   \<and> timeout_trials (tally_of ts) = filter is_timeout (valid_of ts)
   \<and> (\<forall>b c. partitions (tally_of ts) (b, c) = cell_of ts b c)
   \<and> total_invalid (tally_of ts) = length (filter (\<lambda>t. t_validity t = PStr ''INVALID'') ts)
   \<and> distinct (map fst (boot_invalid_counts (tally_of ts)))
   \<and> (\<forall>b. map_of (boot_invalid_counts (tally_of ts)) b =
          (if invalid_of ts b = 0 then None else Some (invalid_of ts b)))"
proof (induction ts rule: rev_induct)
  case Nil
  show ?case by (simp add: tally_of_def tally_start_def valid_of_def cell_of_def invalid_of_def)
next
  case (snoc t ts)
  define s where "s = tally_of ts"
  note IH = snoc.IH [folded s_def]
  have sets: "set (boots_seen (tally_step s t)) = t_boot ` set (ts @ [t])"
    "distinct (boots_seen (tally_step s t))"
    "\<forall>b. set (boot_conditions (tally_step s t) b) = t_cond ` {u \<in> set (ts @ [t]). t_boot u = b}"
    using IH by (auto simp: tally_step_def Let_def)
  consider "t_validity t = PStr ''INVALID''" | "t_validity t = PStr ''VALID''"
    | "t_validity t \<noteq> PStr ''INVALID''" "t_validity t \<noteq> PStr ''VALID''" by blast
  then have "valid_trials (tally_step s t) = valid_of (ts @ [t])
      \<and> timeout_trials (tally_step s t) = filter is_timeout (valid_of (ts @ [t]))
      \<and> (\<forall>b c. partitions (tally_step s t) (b, c) = cell_of (ts @ [t]) b c)
      \<and> total_invalid (tally_step s t) = length (filter (\<lambda>t. t_validity t = PStr ''INVALID'') (ts @ [t]))
      \<and> distinct (map fst (boot_invalid_counts (tally_step s t)))
      \<and> (\<forall>b. map_of (boot_invalid_counts (tally_step s t)) b =
          (if invalid_of (ts @ [t]) b = 0 then None else Some (invalid_of (ts @ [t]) b)))"
    using IH
    by cases (simp_all add: tally_step_def Let_def valid_of_def cell_of_def invalid_of_def
        bump_map_of bump_distinct)
  with sets show ?case by (simp add: tally_snoc s_def)
qed

lemma tally_simps:
  "set (boots_seen (tally_of ts)) = t_boot ` set ts" "distinct (boots_seen (tally_of ts))"
  "set (boot_conditions (tally_of ts) b) = t_cond ` {t \<in> set ts. t_boot t = b}"
  "valid_trials (tally_of ts) = valid_of ts"
  "timeout_trials (tally_of ts) = filter is_timeout (valid_of ts)"
  "partitions (tally_of ts) (b, c) = cell_of ts b c"
  "total_invalid (tally_of ts) = length (filter (\<lambda>t. t_validity t = PStr ''INVALID'') ts)"
  "length (boots_seen (tally_of ts)) = card (t_boot ` set ts)"
  using tally_inv [of ts] by (auto simp: distinct_card [symmetric])

section \<open>The contract, over the trials\<close>

definition caps_ok :: "trial list \<Rightarrow> bool" where
  "caps_ok ts \<longleftrightarrow> (\<forall>b. invalid_of ts b \<le> 1)
     \<and> length (filter (\<lambda>t. t_validity t = PStr ''INVALID'') ts) \<le> 2"

definition timeouts_of :: "trial list \<Rightarrow> trial list" where
  "timeouts_of ts = filter is_timeout (valid_of ts)"

definition falsified :: "trial list \<Rightarrow> bool" where
  "falsified ts \<longleftrightarrow> (\<exists>c. 3 \<le> length (timeout_group (timeouts_of ts) c)
     \<and> 2 \<le> card (t_boot_opt ` set (timeout_group (timeouts_of ts) c)))"

definition e4_contract :: "trial list \<Rightarrow> bool" where
  "e4_contract ts \<longleftrightarrow> 3 \<le> card (t_boot ` set ts)
     \<and> (\<forall>b \<in> t_boot ` set ts. \<forall>c \<in> set required_conditions. 2 \<le> length (cell_of ts b (PStr c)))
     \<and> timeouts_of ts = [] \<and> (\<forall>t \<in> set (valid_of ts). t_vote t = PStr ''COMPATIBLE_VOTE'')"

lemma no_cap_exceeded: "find (\<lambda>(b, n). n > 1) (boot_invalid_counts (tally_of ts)) = None \<longleftrightarrow> (\<forall>b. invalid_of ts b \<le> 1)"
proof -
  let ?cs = "boot_invalid_counts (tally_of ts)"
  have inv: "distinct (map fst ?cs)" "\<And>b. map_of ?cs b = (if invalid_of ts b = 0 then None else Some (invalid_of ts b))"
    using tally_inv [of ts] by auto
  have mem: "(b, n) \<in> set ?cs \<longleftrightarrow> invalid_of ts b = n \<and> n \<noteq> 0" for b n
    using inv(2) [of b] map_of_eq_Some_iff [OF inv(1), of b n] by (auto split: if_splits)
  have "find (\<lambda>(b, n). n > 1) ?cs = None \<longleftrightarrow> (\<forall>b n. (b, n) \<in> set ?cs \<longrightarrow> \<not> n > 1)"
    by (auto simp: find_None_iff)
  also have "\<dots> \<longleftrightarrow> (\<forall>b. invalid_of ts b \<noteq> 0 \<longrightarrow> \<not> invalid_of ts b > 1)"
    by (simp add: mem)
  also have "\<dots> \<longleftrightarrow> (\<forall>b. invalid_of ts b \<le> 1)"
    by (intro arg_cong [where f = All] ext) auto
  finally show ?thesis .
qed

lemma distinct_boots_card: "distinct_boots ts = card (t_boot_opt ` set ts)"
  by (simp add: distinct_boots_def distinct_card [symmetric] dedup_on_distinct)

lemma threshold_found:
  "find (over_threshold (timeouts_of ts)) (dedup_on [] (map t_cond_opt (timeouts_of ts))) = None
     \<longleftrightarrow> \<not> falsified ts"
proof -
  have "c \<in> t_cond_opt ` set us" if "over_threshold us c" for us c
  proof -
    have "timeout_group us c \<noteq> []" using that by (auto simp: over_threshold_def)
    then show ?thesis by (auto simp: timeout_group_def filter_empty_conv)
  qed
  then show ?thesis
    by (auto simp: find_None_iff falsified_def over_threshold_def distinct_boots_card)
qed

section \<open>The verdict is the contract\<close>

lemma if_sing_Nil: "(if P then [a] else []) = [] \<longleftrightarrow> \<not> P"
  by simp

lemma concat_map_Nil: "concat (map f xs) = [] \<longleftrightarrow> (\<forall>x \<in> set xs. f x = [])"
  by (induction xs) auto

lemma deficits_Nil:
  "set (order (boots_seen (tally_of ts))) = t_boot ` set ts \<Longrightarrow>
   cell_deficits (tally_of ts) (order (boots_seen (tally_of ts))) = [] \<longleftrightarrow>
     (\<forall>b \<in> t_boot ` set ts. \<forall>c \<in> set required_conditions. 2 \<le> length (cell_of ts b (PStr c)))"
  unfolding cell_deficits_def Let_def tally_simps(6) by (simp only: concat_map_Nil if_sing_Nil not_less)

lemma full_cells_conditions:
  assumes "\<forall>c \<in> set required_conditions. 2 \<le> length (cell_of ts b (PStr c))"
  shows "\<not> lacks_condition (tally_of ts) b"
proof -
  have "PStr c \<in> t_cond ` {t \<in> set ts. t_boot t = b}" if "c \<in> set required_conditions" for c
  proof -
    have "cell_of ts b (PStr c) \<noteq> []" using assms that by auto
    then show ?thesis by (force simp: cell_of_def valid_of_def filter_empty_conv)
  qed
  then show ?thesis
    unfolding lacks_condition_def tally_simps(3) by (simp add: required_conditions_def)
qed

text \<open>Two disjoint cells with two trials for each of three boots are twelve trials.\<close>

lemma full_cells_total:
  assumes "\<forall>b \<in> B. \<forall>c \<in> set required_conditions. 2 \<le> length (cell_of ts b (PStr c))" "finite B"
  shows "4 * card B \<le> length (valid_of ts)"
proof -
  have "4 * card B \<le> length (filter (\<lambda>t. t_boot t \<in> B) (valid_of ts))"
    using assms(2,1)
  proof (induction B)
    case (insert b B)
    have disj: "length (filter (\<lambda>t. t_boot t = b \<or> t_boot t \<in> B) xs)
        = length (filter (\<lambda>t. t_boot t = b) xs) + length (filter (\<lambda>t. t_boot t \<in> B) xs)" for xs
      using insert.hyps(2) by (induction xs) auto
    have "length (cell_of ts b (PStr ''SETTLED_NOMINAL'')) + length (cell_of ts b (PStr ''ELEVATED_VALID''))
        \<le> length (filter (\<lambda>t. t_boot t = b) (valid_of ts))"
    proof -
      have "length (filter (\<lambda>t. t_boot t = b \<and> t_cond t = PStr ''SETTLED_NOMINAL'') xs)
          + length (filter (\<lambda>t. t_boot t = b \<and> t_cond t = PStr ''ELEVATED_VALID'') xs)
        \<le> length (filter (\<lambda>t. t_boot t = b) xs)" for xs
        by (induction xs) auto
      then show ?thesis by (simp add: cell_of_def)
    qed
    moreover have "2 \<le> length (cell_of ts b (PStr ''SETTLED_NOMINAL''))"
      "2 \<le> length (cell_of ts b (PStr ''ELEVATED_VALID''))"
      using insert.prems by (auto simp: required_conditions_def)
    ultimately show ?case
      using insert by (simp add: disj)
  qed simp
  also have "\<dots> \<le> length (valid_of ts)" by simp
  finally show ?thesis .
qed

lemmas judge_simps = judge_def tally_simps no_cap_exceeded threshold_found

lemma find_Some_not_None: "find P xs = Some x \<Longrightarrow> find P xs \<noteq> None"
  by simp

text \<open>
  The four verdicts, for every iteration order: the invalid caps first, then the
  falsification threshold, then the compatibility contract.
\<close>

lemma judge_verdict:
  assumes order: "\<And>xs. set (order xs) = set xs"
  shows "caps_ok ts \<Longrightarrow> \<not> falsified ts \<Longrightarrow> e4_contract ts \<Longrightarrow>
      judge order (tally_of ts) = Compatible (length (valid_of ts)) (card (t_boot ` set ts))"
  and "\<not> caps_ok ts \<Longrightarrow> \<exists>rs. judge order (tally_of ts) = Invalid_Experiment rs"
  and "caps_ok ts \<Longrightarrow> falsified ts \<Longrightarrow> \<exists>rs. judge order (tally_of ts) = Incompatible rs"
  and "caps_ok ts \<Longrightarrow> \<not> falsified ts \<Longrightarrow> \<not> e4_contract ts \<Longrightarrow> \<exists>rs. judge order (tally_of ts) = Inconclusive rs"
proof -
  let ?s = "tally_of ts"
  have set: "set (order (boots_seen ?s)) = t_boot ` set ts" by (simp add: order tally_simps)
  have tmo: "timeout_trials ?s = timeouts_of ts" by (simp add: tally_simps timeouts_of_def)
  have caps: "caps_ok ts \<longleftrightarrow> find (\<lambda>(b, n). n > 1) (boot_invalid_counts ?s) = None \<and> \<not> total_invalid ?s > 2"
    using no_cap_exceeded [of ts] by (simp add: caps_ok_def tally_simps not_less)
  show "\<not> caps_ok ts \<Longrightarrow> \<exists>rs. judge order ?s = Invalid_Experiment rs"
    unfolding caps judge_def by (auto split: option.splits)
  show "caps_ok ts \<Longrightarrow> falsified ts \<Longrightarrow> \<exists>rs. judge order ?s = Incompatible rs"
    unfolding caps judge_def tmo using threshold_found [of ts] by (auto split: option.splits)
  have rest: "judge order ?s =
     (if card (t_boot ` set ts) < 3 then Inconclusive [Insufficient_Boots (card (t_boot ` set ts))]
      else case find (lacks_condition ?s) (order (boots_seen ?s)) of
        Some b \<Rightarrow> Inconclusive [Missing_Required_Conditions b (boot_conditions ?s b)]
      | None \<Rightarrow>
     if cell_deficits ?s (order (boots_seen ?s)) \<noteq> []
       then Inconclusive (cell_deficits ?s (order (boots_seen ?s)))
     else if length (valid_of ts) < 12 then Inconclusive [Total_Valid_Trials (length (valid_of ts))]
     else if length (timeouts_of ts) > 0 then Inconclusive [Timeout_Without_Threshold]
     else if non_compat_votes ?s \<noteq> []
       then Inconclusive [Valid_Trials_Without_Compatible_Vote (length (non_compat_votes ?s))]
     else Compatible (length (valid_of ts)) (card (t_boot ` set ts)))"
    if "caps_ok ts" "\<not> falsified ts"
    using that threshold_found [of ts] unfolding caps judge_def tmo tally_simps(4,8) by simp
  have cells: "cell_deficits ?s (order (boots_seen ?s)) = [] \<longleftrightarrow>
      (\<forall>b \<in> t_boot ` set ts. \<forall>c \<in> set required_conditions. 2 \<le> length (cell_of ts b (PStr c)))"
    by (rule deficits_Nil) (rule set)
  have votes: "non_compat_votes ?s = [] \<longleftrightarrow> (\<forall>t \<in> set (valid_of ts). t_vote t = PStr ''COMPATIBLE_VOTE'')"
    by (auto simp: non_compat_votes_def tally_simps(4) filter_empty_conv)
  show "judge order ?s = Compatible (length (valid_of ts)) (card (t_boot ` set ts))"
    if "caps_ok ts" "\<not> falsified ts" "e4_contract ts"
  proof -
    note c = that(3) [unfolded e4_contract_def]
    have "find (lacks_condition ?s) (order (boots_seen ?s)) = None"
      using c full_cells_conditions by (auto simp: find_None_iff set)
    moreover have "12 \<le> length (valid_of ts)"
      using full_cells_total [of "t_boot ` set ts" ts] c by simp
    ultimately show ?thesis using rest [OF that(1,2)] c cells votes by simp
  qed
  show "\<exists>rs. judge order ?s = Inconclusive rs" if "caps_ok ts" "\<not> falsified ts" "\<not> e4_contract ts"
    using rest [OF that(1,2)] that(3) cells votes unfolding e4_contract_def
    by (auto split: option.splits)
qed

text \<open>The first two verdicts do not look at the iteration order.\<close>

lemma judge_early:
  assumes "\<not> caps_ok ts \<or> falsified ts"
  shows "judge order (tally_of ts) = judge order' (tally_of ts)"
proof (cases "find (\<lambda>(b, n). n > 1) (boot_invalid_counts (tally_of ts))")
  case None
  show ?thesis
  proof (cases "total_invalid (tally_of ts) > 2")
    case False
    with None assms have "falsified ts"
      using no_cap_exceeded [of ts] by (auto simp: caps_ok_def tally_simps(7))
    then have "find (over_threshold (timeout_trials (tally_of ts)))
        (dedup_on [] (map t_cond_opt (timeout_trials (tally_of ts)))) \<noteq> None"
      using threshold_found [of ts] by (simp add: tally_simps(5) timeouts_of_def)
    with None False show ?thesis unfolding judge_def by (auto simp del: find_None_iff)
  qed (simp add: judge_def None)
qed (auto simp: judge_def)

section \<open>Accepted records\<close>

text \<open>The trial of an accepted record, read off its fields.\<close>

definition rec_trial :: "record_dict \<Rightarrow> trial" where
  "rec_trial r = \<lparr> t_boot = rget r ''boot_id'' PNone, t_cond = cond_class r,
     t_validity = cls_field r ''trial_validity'', t_vote = cls_field r ''trial_evidence_vote'',
     t_terminal = cls_field r ''trial_terminal_class'', t_boot_opt = rget r ''boot_id'' PNone,
     t_cond_opt = cond_class r \<rparr>"

lemma check_records_None:
  "check_records validate i seen rs = Inr None \<longleftrightarrow>
     (\<exists>ds. rs = map PDict ds \<and> (\<forall>d \<in> set ds. validate d = Inr []) \<and> distinct (map trial_key ds)
        \<and> set (map trial_key ds) \<inter> set seen = {})"
proof (induction rs arbitrary: i seen)
  case (Cons v rs)
  show ?case
  proof (cases v)
    case (PDict r)
    have "check_records validate i seen (v # rs) = Inr None \<longleftrightarrow>
        validate r = Inr [] \<and> trial_key r \<notin> set seen
        \<and> check_records validate (Suc i) (trial_key r # seen) rs = Inr None"
      by (cases "validate r") (auto simp: PDict)
    also have "\<dots> \<longleftrightarrow> (\<exists>ds. v # rs = map PDict (r # ds) \<and> (\<forall>d \<in> set (r # ds). validate d = Inr [])
        \<and> distinct (map trial_key (r # ds)) \<and> set (map trial_key (r # ds)) \<inter> set seen = {})"
      unfolding Cons.IH by (auto simp: PDict)
    also have "\<dots> \<longleftrightarrow> (\<exists>ds. v # rs = map PDict ds \<and> (\<forall>d \<in> set ds. validate d = Inr [])
        \<and> distinct (map trial_key ds) \<and> set (map trial_key ds) \<inter> set seen = {})"
      (is "?L \<longleftrightarrow> ?R")
    proof
      assume ?R
      then obtain ds where ds: "v # rs = map PDict ds" "\<forall>d \<in> set ds. validate d = Inr []"
        "distinct (map trial_key ds)" "set (map trial_key ds) \<inter> set seen = {}" by (elim exE conjE)
      then obtain e es where "ds = e # es" by (cases ds) auto
      moreover from this ds(1) have "e = r" by (simp add: PDict)
      ultimately show ?L using ds by (intro exI [of _ es]) auto
    next
      assume ?L
      then obtain ds where "v # rs = map PDict (r # ds) \<and> (\<forall>d \<in> set (r # ds). validate d = Inr [])
        \<and> distinct (map trial_key (r # ds)) \<and> set (map trial_key (r # ds)) \<inter> set seen = {}"
        by (elim exE)
      then show ?R by (rule exI [of _ "r # ds"])
    qed
    finally show ?thesis .
  qed (auto simp: Cons_eq_map_conv)
qed auto

lemma check_records_early:
  "check_records validate i seen rs = Inr (Some v) \<Longrightarrow> \<exists>reasons. v = Invalid_Experiment reasons"
  by (induction rs arbitrary: i seen)
     (auto simp: bindR_Inr_iff split: pyval.splits if_splits)

definition usable :: "validator \<Rightarrow> record_dict list \<Rightarrow> bool" where
  "usable validate ds \<longleftrightarrow>
     ds \<noteq> [] \<and> (\<forall>d \<in> set ds. validate d = Inr []) \<and> distinct (map trial_key ds)"

text \<open>
  What the aggregation relies on: the fields it reads of an accepted record are there, and
  the votes are tied to validity and terminal class.
\<close>

locale record_validator =
  fixes validate :: validator
  assumes accepted_trial: "validate r = Inr [] \<Longrightarrow> trial_of (PDict r) = Inr (rec_trial r)"
    and accepted_condition: "validate r = Inr [] \<Longrightarrow> \<exists>c \<in> set condition_classes. cond_class r = PStr c"
    and accepted_compatible: "validate r = Inr [] \<Longrightarrow> cls_field r ''trial_evidence_vote'' = PStr ''COMPATIBLE_VOTE'' \<Longrightarrow>
      cls_field r ''trial_validity'' = PStr ''VALID'' \<and> cls_field r ''trial_terminal_class'' = PStr ''QUALIFYING_COMPLETION''"
    and accepted_incompatible: "validate r = Inr [] \<Longrightarrow> cls_field r ''trial_evidence_vote'' = PStr ''INCOMPATIBLE_VOTE'' \<Longrightarrow>
      cls_field r ''trial_validity'' = PStr ''VALID'' \<and> cls_field r ''trial_terminal_class'' = PStr ''SUPERVISOR_OVERALL_TIMEOUT''"
begin

lemma trials_of_accepted:
  "\<forall>d \<in> set ds. validate d = Inr [] \<Longrightarrow> mapR trial_of (map PDict ds) = Inr (map rec_trial ds)"
  by (induction ds) (auto simp: accepted_trial)

text \<open>After the first loop the aggregation cannot raise and judges the records' trials.\<close>

lemma aggregate_usable:
  "usable validate ds \<Longrightarrow> aggregate_campaign validate order (map PDict ds) = Inr (judge order (tally_of (map rec_trial ds)))"
proof -
  assume u: "usable validate ds"
  then have "check_records validate 0 [] (map PDict ds) = Inr None"
    unfolding check_records_None usable_def by auto
  then show ?thesis using u trials_of_accepted [of ds] by (auto simp: aggregate_campaign_def usable_def)
qed

text \<open>Any verdict but the two fail-closed ones comes from usable records.\<close>

lemma decided_usable:
  assumes "aggregate_campaign validate order records = Inr v"
    and "\<And>rs. v \<noteq> Invalid_Experiment rs" "v \<noteq> Inconclusive [No_Records]"
  obtains ds where "records = map PDict ds" "usable validate ds" "v = judge order (tally_of (map rec_trial ds))"
proof -
  have ne: "records \<noteq> []" using assms(1,3) by (auto simp: aggregate_campaign_def)
  then obtain early where e: "check_records validate 0 [] records = Inr early"
    using assms(1) by (auto simp: aggregate_campaign_def bindR_Inr_iff)
  have "early = None"
  proof (cases early)
    case (Some w)
    then have "v = w" using assms(1) ne e by (simp add: aggregate_campaign_def)
    then show ?thesis using check_records_early e Some assms(2) by blast
  qed simp
  then obtain ds where ds: "records = map PDict ds" "\<forall>d \<in> set ds. validate d = Inr []" "distinct (map trial_key ds)"
    using e \<open>early = None\<close> check_records_None [of validate 0 "[]" records] by blast
  then have "usable validate ds" using ne by (auto simp: usable_def)
  with ds assms(1) that show thesis using aggregate_usable by auto
qed

text \<open>Every incompatible vote of usable records is one of the counted timeouts.\<close>

lemma timeouts_usable:
  assumes "usable validate ds"
  shows "timeouts_of (map rec_trial ds)
    = map rec_trial (filter (\<lambda>d. cls_field d ''trial_evidence_vote'' = PStr ''INCOMPATIBLE_VOTE'') ds)"
proof -
  have "\<forall>d \<in> set ds. validate d = Inr []" using assms by (simp add: usable_def)
  then show ?thesis
    by (induction ds) (auto simp: timeouts_of_def valid_of_def is_timeout_def rec_trial_def
        dest: accepted_incompatible)
qed

lemma compatible_usable:
  assumes "aggregate_campaign validate order records = Inr (Compatible n b)" "\<And>xs. set (order xs) = set xs"
  obtains ds where "records = map PDict ds" "usable validate ds" "caps_ok (map rec_trial ds)"
    "e4_contract (map rec_trial ds)" "n = length (valid_of (map rec_trial ds))"
    "b = card ((\<lambda>d. rget d ''boot_id'' PNone) ` set ds)"
proof -
  obtain ds where ds: "records = map PDict ds" "usable validate ds"
    and v: "Compatible n b = judge order (tally_of (map rec_trial ds))"
    using assms(1) by (rule decided_usable) auto
  let ?ts = "map rec_trial ds"
  note j = judge_verdict [OF assms(2), of ?ts]
  have c: "caps_ok ?ts" using j(2) v by (cases "caps_ok ?ts") auto
  moreover have f: "\<not> falsified ?ts" using j(3) v c by auto
  moreover have "e4_contract ?ts" using j(4) v c f by (cases "e4_contract ?ts") auto
  moreover have "t_boot ` set ?ts = (\<lambda>d. rget d ''boot_id'' PNone) ` set ds"
    by (auto simp: rec_trial_def image_iff)
  ultimately show thesis using that ds v j(1) by auto
qed

lemma verdict_order_independent:
  assumes "usable validate ds" "\<And>xs. set (order xs) = set xs" "\<And>xs. set (order' xs) = set xs"
  shows "aggregate_campaign validate order (map PDict ds) = aggregate_campaign validate order' (map PDict ds)
    \<or> (\<exists>rs rs'. aggregate_campaign validate order (map PDict ds) = Inr (Inconclusive rs)
         \<and> aggregate_campaign validate order' (map PDict ds) = Inr (Inconclusive rs'))"
proof -
  let ?ts = "map rec_trial ds"
  have same: "judge order (tally_of ?ts) = judge order' (tally_of ?ts)" if "\<not> caps_ok ?ts \<or> falsified ?ts"
    using judge_early [OF that] by simp
  consider "\<not> caps_ok ?ts \<or> falsified ?ts" | "caps_ok ?ts" "\<not> falsified ?ts" "e4_contract ?ts"
    | "caps_ok ?ts" "\<not> falsified ?ts" "\<not> e4_contract ?ts" by blast
  then show ?thesis
  proof cases
    case 1
    then show ?thesis by (simp add: aggregate_usable [OF assms(1)] same)
  next
    case 2
    then show ?thesis
      using judge_verdict(1) [OF assms(2)] judge_verdict(1) [OF assms(3)]
      by (simp add: aggregate_usable [OF assms(1)])
  next
    case 3
    then show ?thesis
      using judge_verdict(4) [OF assms(2), of ?ts] judge_verdict(4) [OF assms(3), of ?ts]
      by (simp add: aggregate_usable [OF assms(1)])
  qed
qed

end

end
