(* ===== verification/J2_Campaign.thy ===== *)
theory J2_Campaign
  imports J2_Aggregator "HOL-Library.Multiset"
begin

text \<open>
  The campaign with its real validator: the contract \<open>record_validator\<close> of the aggregation
  is discharged for \<open>validate_observation_record\<close>, and the verdicts are stated over the
  records.
\<close>

section \<open>The real validator meets the contract\<close>

lemma accepted_trial_of:
  assumes "validate_observation_record g r = Inr []"
  shows "trial_of (PDict r) = Inr (rec_trial r)"
proof (rule validate_accepts [OF assms], goal_cases)
  case (1 sec)
  obtain kvs where cv: "rget r ''condition_vector'' (PDict []) = PDict kvs"
    "\<forall>f \<in> set required_condition. f \<in> fst ` set kvs"
    using 1(5) by (auto simp: condition_checks_def Let_def catR_Nil_iff res_iff simp del: catR.simps)
  obtain cls where cls: "rget r ''classification'' (PDict []) = PDict cls"
    by (rule classification_accepts [OF 1(8)])
  have root: "py_get_default (PDict r) k d = Inr (rget r k d)" for k d
    by (simp add: rget_def split: option.splits)
  have boot: "rget r ''boot_id'' d = rget r ''boot_id'' PNone" for d
    using missing_root_Nil [OF 1(1), of "''boot_id''" d] by (simp add: required_root_def)
  have key: "''condition_class'' \<in> fst ` set kvs"
    using cv(2) unfolding required_condition_def by (simp only: list.set ball_simps)
  have cc: "py_get_default (PDict kvs) ''condition_class'' d = Inr (cond_class r)" for d
    unfolding get_present [OF key] by (simp only: cond_class_def cv(1) pyval.case)
  have boots: "py_get_default (PDict r) ''boot_id'' d = Inr (rget r ''boot_id'' PNone)" for d
    by (rule root [THEN trans]) (rule arg_cong [OF boot])
  have fields: "vget (PDict cls) k = Inr (cls_field r k)" for k
    by (simp add: vget_Inr_iff cls_field_def cls)
  show ?case
    unfolding trial_of_def boots root cv(1) cls cc vget_def bindR_simps
    by (simp only: fields [unfolded vget_def] rec_trial_def boot [of "PStr ''UNKNOWN_BOOT''"] bindR_simps)
qed

interpretation j2v: record_validator "validate_observation_record g" for g
proof
  fix r assume a: "validate_observation_record g r = Inr []"
  then show "trial_of (PDict r) = Inr (rec_trial r)" by (rule accepted_trial_of)
  show "\<exists>c \<in> set condition_classes. cond_class r = PStr c"
    using condition_accepts a by (blast elim: validate_accepts)
  show "cls_field r ''trial_evidence_vote'' = PStr ''COMPATIBLE_VOTE'' \<Longrightarrow>
      cls_field r ''trial_validity'' = PStr ''VALID'' \<and> cls_field r ''trial_terminal_class'' = PStr ''QUALIFYING_COMPLETION''"
    using accepted_vote [OF a] by auto
  show "cls_field r ''trial_evidence_vote'' = PStr ''INCOMPATIBLE_VOTE'' \<Longrightarrow>
      cls_field r ''trial_validity'' = PStr ''VALID'' \<and> cls_field r ''trial_terminal_class'' = PStr ''SUPERVISOR_OVERALL_TIMEOUT''"
    using accepted_vote [OF a] by auto
qed

section \<open>The decision contract over the records\<close>

definition boot_of :: "record_dict \<Rightarrow> pyval" where
  "boot_of d = rget d ''boot_id'' PNone"

definition is_valid_trial :: "record_dict \<Rightarrow> bool" where
  "is_valid_trial d \<longleftrightarrow> cls_field d ''trial_validity'' = PStr ''VALID''"

definition is_invalid_trial :: "record_dict \<Rightarrow> bool" where
  "is_invalid_trial d \<longleftrightarrow> cls_field d ''trial_validity'' = PStr ''INVALID''"

definition votes_for :: "string \<Rightarrow> record_dict \<Rightarrow> bool" where
  "votes_for v d \<longleftrightarrow> cls_field d ''trial_evidence_vote'' = PStr v"

definition campaign_caps :: "record_dict list \<Rightarrow> bool" where
  "campaign_caps ds \<longleftrightarrow> (\<forall>b. length (filter (\<lambda>d. is_invalid_trial d \<and> boot_of d = b) ds) \<le> 1)
     \<and> length (filter is_invalid_trial ds) \<le> 2"

definition campaign_contract :: "record_dict list \<Rightarrow> bool" where
  "campaign_contract ds \<longleftrightarrow> 3 \<le> card (boot_of ` set ds)
     \<and> (\<forall>b \<in> boot_of ` set ds. \<forall>c \<in> set condition_classes.
          2 \<le> length (filter (\<lambda>d. boot_of d = b \<and> cond_class d = PStr c \<and> is_valid_trial d) ds))
     \<and> (\<forall>d \<in> set ds. is_valid_trial d \<longrightarrow> votes_for ''COMPATIBLE_VOTE'' d)"

text \<open>Three timeouts of one condition, from two boots.\<close>

definition campaign_falsified :: "record_dict list \<Rightarrow> bool" where
  "campaign_falsified ds \<longleftrightarrow> (\<exists>c. 3 \<le> length (filter (\<lambda>d. votes_for ''INCOMPATIBLE_VOTE'' d \<and> cond_class d = c) ds)
     \<and> 2 \<le> card (boot_of ` {d \<in> set ds. votes_for ''INCOMPATIBLE_VOTE'' d \<and> cond_class d = c}))"

lemmas rec_trial_simps = rec_trial_def boot_of_def [abs_def] is_valid_trial_def [abs_def]
  is_invalid_trial_def [abs_def] votes_for_def [abs_def]

lemma rec_trial_boot: "t_boot (rec_trial d) = boot_of d" "t_boot_opt (rec_trial d) = boot_of d"
  "t_boot ` set (map rec_trial ds) = boot_of ` set ds"
  by (auto simp: rec_trial_simps image_iff)

lemma caps_of_records: "caps_ok (map rec_trial ds) \<longleftrightarrow> campaign_caps ds"
  by (simp add: caps_ok_def campaign_caps_def invalid_of_def filter_map comp_def rec_trial_simps)

lemma valid_of_records: "valid_of (map rec_trial ds) = map rec_trial (filter is_valid_trial ds)"
  by (simp add: valid_of_def filter_map comp_def) (simp add: rec_trial_simps)

lemma cell_of_records:
  "length (cell_of (map rec_trial ds) b c)
     = length (filter (\<lambda>d. boot_of d = b \<and> cond_class d = c \<and> is_valid_trial d) ds)"
  by (simp add: cell_of_def valid_of_records filter_map comp_def)
     (simp add: rec_trial_simps conj_ac)

lemma no_timeouts:
  assumes "\<forall>d \<in> set ds. is_valid_trial d \<longrightarrow> votes_for ''COMPATIBLE_VOTE'' d"
  shows "timeouts_of (map rec_trial ds) = []" "\<not> falsified (map rec_trial ds)"
proof -
  show "timeouts_of (map rec_trial ds) = []"
    using assms by (auto simp: timeouts_of_def valid_of_records is_timeout_def filter_empty_conv rec_trial_simps)
  then show "\<not> falsified (map rec_trial ds)"
    by (simp add: falsified_def timeout_group_def)
qed

lemma contract_of_records: "e4_contract (map rec_trial ds) \<longleftrightarrow> campaign_contract ds"
proof -
  have "(\<forall>t \<in> set (valid_of (map rec_trial ds)). t_vote t = PStr ''COMPATIBLE_VOTE'')
    \<longleftrightarrow> (\<forall>d \<in> set ds. is_valid_trial d \<longrightarrow> votes_for ''COMPATIBLE_VOTE'' d)"
    by (auto simp: valid_of_records rec_trial_simps)
  then show ?thesis
    using no_timeouts(1) [of ds]
    unfolding e4_contract_def campaign_contract_def rec_trial_boot(3) cell_of_records
      required_conditions_def condition_classes_def by blast
qed

lemma falsified_of_records:
  assumes "usable (validate_observation_record g) ds"
  shows "falsified (map rec_trial ds) \<longleftrightarrow> campaign_falsified ds"
proof -
  have "timeout_group (timeouts_of (map rec_trial ds)) c
      = map rec_trial (filter (\<lambda>d. votes_for ''INCOMPATIBLE_VOTE'' d \<and> cond_class d = c) ds)" for c
    by (simp add: j2v.timeouts_usable [OF assms] timeout_group_def filter_map comp_def)
       (simp add: rec_trial_simps conj_commute)
  then show ?thesis
    by (simp add: falsified_def campaign_falsified_def image_image rec_trial_boot)
qed

section \<open>The verdicts\<close>

lemma usable_verdicts:
  assumes u: "usable (validate_observation_record g) ds" and order: "\<And>xs. set (order xs) = set xs"
  defines "verdict \<equiv> aggregate_campaign (validate_observation_record g) order (map PDict ds)"
  shows "campaign_caps ds \<Longrightarrow> campaign_contract ds \<Longrightarrow>
      verdict = Inr (Compatible (length (filter is_valid_trial ds)) (card (boot_of ` set ds)))"
    and "\<not> campaign_caps ds \<Longrightarrow> \<exists>rs. verdict = Inr (Invalid_Experiment rs)"
    and "campaign_caps ds \<Longrightarrow> campaign_falsified ds \<Longrightarrow> \<exists>rs. verdict = Inr (Incompatible rs)"
    and "campaign_caps ds \<Longrightarrow> \<not> campaign_falsified ds \<Longrightarrow> \<not> campaign_contract ds \<Longrightarrow>
      \<exists>rs. verdict = Inr (Inconclusive rs)"
proof -
  let ?ts = "map rec_trial ds"
  have v: "verdict = Inr (judge order (tally_of ?ts))"
    unfolding verdict_def by (rule j2v.aggregate_usable [OF u])
  note j = judge_verdict [where order = order, OF order, of ?ts]
  note tr = caps_of_records contract_of_records falsified_of_records [OF u] valid_of_records rec_trial_boot(3)
  show "verdict = Inr (Compatible (length (filter is_valid_trial ds)) (card (boot_of ` set ds)))"
    if "campaign_caps ds" "campaign_contract ds"
  proof -
    have "\<not> falsified ?ts" using that(2) by (intro no_timeouts(2)) (simp add: campaign_contract_def)
    then show ?thesis using j(1) that unfolding v tr by simp
  qed
  show "\<not> campaign_caps ds \<Longrightarrow> \<exists>rs. verdict = Inr (Invalid_Experiment rs)"
    using j(2) unfolding v tr by simp
  show "campaign_caps ds \<Longrightarrow> campaign_falsified ds \<Longrightarrow> \<exists>rs. verdict = Inr (Incompatible rs)"
    using j(3) unfolding v tr by simp
  show "campaign_caps ds \<Longrightarrow> \<not> campaign_falsified ds \<Longrightarrow> \<not> campaign_contract ds \<Longrightarrow>
      \<exists>rs. verdict = Inr (Inconclusive rs)"
    using j(4) unfolding v tr by simp
qed

lemma decided_records:
  assumes "aggregate_campaign (validate_observation_record g) order records = Inr v"
    and "(\<exists>n b. v = Compatible n b) \<or> (\<exists>rs. v = Incompatible rs)"
  obtains ds where "records = map PDict ds" "usable (validate_observation_record g) ds"
  using assms by (elim j2v.decided_usable) auto

text \<open>
  Claim C1. The compatible verdict is exactly the documented decision contract, for every
  iteration order of the boot set: it is returned iff all records are objects the validator
  accepts with distinct trial keys, no boot has two invalid trials and the campaign at most
  two, there are three boots, each with two valid trials of either condition, and every
  valid trial votes compatible; the counts reported are the valid trials and the boots.
\<close>
theorem campaign_compatible_iff:
  assumes "\<And>xs. set (order xs) = set xs"
  shows "aggregate_campaign (validate_observation_record g) order records = Inr (Compatible n b) \<longleftrightarrow>
    (\<exists>ds. records = map PDict ds \<and> usable (validate_observation_record g) ds
       \<and> campaign_caps ds \<and> campaign_contract ds
       \<and> n = length (filter is_valid_trial ds) \<and> b = card (boot_of ` set ds))"
proof
  assume a: "aggregate_campaign (validate_observation_record g) order records = Inr (Compatible n b)"
  then obtain ds where ds: "records = map PDict ds" "usable (validate_observation_record g) ds"
    by (rule decided_records) auto
  have "campaign_caps ds \<and> campaign_contract ds"
    using a usable_verdicts(2-4) [where order = order, OF ds(2) assms] unfolding ds(1) by auto
  then show "\<exists>ds. records = map PDict ds \<and> usable (validate_observation_record g) ds
       \<and> campaign_caps ds \<and> campaign_contract ds
       \<and> n = length (filter is_valid_trial ds) \<and> b = card (boot_of ` set ds)"
    using a ds usable_verdicts(1) [where order = order, OF ds(2) assms] by auto
next
  assume "\<exists>ds. records = map PDict ds \<and> usable (validate_observation_record g) ds
       \<and> campaign_caps ds \<and> campaign_contract ds
       \<and> n = length (filter is_valid_trial ds) \<and> b = card (boot_of ` set ds)"
  then show "aggregate_campaign (validate_observation_record g) order records = Inr (Compatible n b)"
    using usable_verdicts(1) [where order = order, OF _ assms] by blast
qed

text \<open>
  Claim C2. The incompatible verdict is exactly a repeated timeout: it is returned iff the
  records are accepted with distinct keys within the invalid caps, and three of one
  condition, from two boots, vote incompatible. Each of those is a valid supervisor timeout
  whose integer timestamps are at least 2200 seconds apart.
\<close>
theorem campaign_incompatible_iff:
  assumes "\<And>xs. set (order xs) = set xs"
  shows "((\<exists>rs. aggregate_campaign (validate_observation_record g) order records = Inr (Incompatible rs)) \<longleftrightarrow>
      (\<exists>ds. records = map PDict ds \<and> usable (validate_observation_record g) ds
         \<and> campaign_caps ds \<and> campaign_falsified ds))
    \<and> (\<forall>ds. usable (validate_observation_record g) ds \<longrightarrow>
        (\<forall>d \<in> set ds. votes_for ''INCOMPATIBLE_VOTE'' d \<longrightarrow> is_valid_trial d
          \<and> 2200 * 10 ^ 9 \<le> int_of (tm_field d ''terminal_monotonic_ns'')
               - int_of (tm_field d ''post_fork_monotonic_ns'')))"
proof (intro conjI allI impI ballI)
  show "(\<exists>rs. aggregate_campaign (validate_observation_record g) order records = Inr (Incompatible rs)) \<longleftrightarrow>
      (\<exists>ds. records = map PDict ds \<and> usable (validate_observation_record g) ds
         \<and> campaign_caps ds \<and> campaign_falsified ds)"
  proof
    assume "\<exists>rs. aggregate_campaign (validate_observation_record g) order records = Inr (Incompatible rs)"
    then obtain rs where a: "aggregate_campaign (validate_observation_record g) order records = Inr (Incompatible rs)" ..
    then obtain ds where ds: "records = map PDict ds" "usable (validate_observation_record g) ds"
      by (rule decided_records) auto
    have "campaign_caps ds" "campaign_falsified ds"
      using a usable_verdicts(1,2,4) [where order = order, OF ds(2) assms] unfolding ds(1) by auto
    with ds show "\<exists>ds. records = map PDict ds \<and> usable (validate_observation_record g) ds
        \<and> campaign_caps ds \<and> campaign_falsified ds" by blast
  next
    assume "\<exists>ds. records = map PDict ds \<and> usable (validate_observation_record g) ds
        \<and> campaign_caps ds \<and> campaign_falsified ds"
    then show "\<exists>rs. aggregate_campaign (validate_observation_record g) order records = Inr (Incompatible rs)"
      using usable_verdicts(3) [where order = order, OF _ assms] by blast
  qed
next
  fix ds d assume u: "usable (validate_observation_record g) ds" "d \<in> set ds" "votes_for ''INCOMPATIBLE_VOTE'' d"
  then have "validate_observation_record g d = Inr []" by (simp add: usable_def)
  from accepted_vote [OF this] u(3)
  show "is_valid_trial d" "2200 * 10 ^ 9 \<le> int_of (tm_field d ''terminal_monotonic_ns'')
      - int_of (tm_field d ''post_fork_monotonic_ns'')"
    by (auto simp: is_valid_trial_def votes_for_def)
qed

text \<open>
  What a compatible verdict guarantees about the measurements: at least twelve
  valid trials, every one of them a qualifying completion whose integer timestamps are at
  most 2195 seconds apart, and no record of the campaign voting incompatible.
\<close>
theorem campaign_compatible_safe:
  assumes "aggregate_campaign (validate_observation_record g) order records = Inr (Compatible n b)"
    and "\<And>xs. set (order xs) = set xs"
  shows "12 \<le> n \<and> 3 \<le> b \<and> (\<forall>v \<in> set records. \<exists>d. v = PDict d
    \<and> \<not> votes_for ''INCOMPATIBLE_VOTE'' d
    \<and> (is_valid_trial d \<longrightarrow> cls_field d ''trial_terminal_class'' = PStr ''QUALIFYING_COMPLETION''
        \<and> int_of (tm_field d ''terminal_monotonic_ns'')
            - int_of (tm_field d ''post_fork_monotonic_ns'') \<le> 2195 * 10 ^ 9))"
proof -
  obtain ds where ds: "records = map PDict ds" "usable (validate_observation_record g) ds"
    using assms(1) by (rule decided_records) auto
  have c: "campaign_caps ds" "campaign_contract ds"
    using assms(1) usable_verdicts(2-4) [where order = order, OF ds(2) assms(2)] unfolding ds(1) by auto
  then have nb: "n = length (filter is_valid_trial ds)" "b = card (boot_of ` set ds)"
    using assms(1) usable_verdicts(1) [where order = order, OF ds(2) assms(2)] unfolding ds(1) by auto
  have "\<forall>b \<in> t_boot ` set (map rec_trial ds). \<forall>c \<in> set required_conditions. 2 \<le> length (cell_of (map rec_trial ds) b (PStr c))"
    using c(2) contract_of_records [of ds] by (simp add: e4_contract_def)
  then have "4 * card (boot_of ` set ds) \<le> n"
    using full_cells_total [of "t_boot ` set (map rec_trial ds)" "map rec_trial ds"]
    by (simp add: rec_trial_boot valid_of_records nb image_image)
  moreover have "3 \<le> b" using c(2) by (simp add: campaign_contract_def nb)
  moreover have "\<not> votes_for ''INCOMPATIBLE_VOTE'' d
    \<and> (is_valid_trial d \<longrightarrow> cls_field d ''trial_terminal_class'' = PStr ''QUALIFYING_COMPLETION''
        \<and> int_of (tm_field d ''terminal_monotonic_ns'')
            - int_of (tm_field d ''post_fork_monotonic_ns'') \<le> 2195 * 10 ^ 9)"
    if "d \<in> set ds" for d
  proof -
    have "validate_observation_record g d = Inr []" using ds(2) that by (simp add: usable_def)
    from accepted_vote [OF this] show ?thesis
      using c(2) that unfolding campaign_contract_def votes_for_def is_valid_trial_def by fastforce
  qed
  ultimately show ?thesis using nb(2) unfolding ds(1) by auto
qed

definition verdict_kind :: "verdict \<Rightarrow> string" where
  "verdict_kind v = (case v of Compatible n b \<Rightarrow> ''COMPATIBLE'' | Incompatible rs \<Rightarrow> ''INCOMPATIBLE''
     | Inconclusive rs \<Rightarrow> ''INCONCLUSIVE'' | Invalid_Experiment rs \<Rightarrow> ''INVALID_EXPERIMENT'')"

lemma length_filter_mset: "length (filter P xs) = size (filter_mset P (mset xs))"
  by (metis mset_filter size_mset)

lemma contract_mset:
  assumes "mset ds = mset es"
  shows "campaign_caps ds = campaign_caps es" "campaign_contract ds = campaign_contract es"
    "campaign_falsified ds = campaign_falsified es"
  using mset_eq_setD [OF assms]
  by (simp_all add: campaign_caps_def campaign_contract_def campaign_falsified_def length_filter_mset assms)

lemma kind_of_usable:
  assumes u: "usable (validate_observation_record g) ds" and order: "\<And>xs. set (order xs) = set xs"
  shows "map_sum id verdict_kind (aggregate_campaign (validate_observation_record g) order (map PDict ds)) =
    Inr (if \<not> campaign_caps ds then ''INVALID_EXPERIMENT'' else if campaign_contract ds then ''COMPATIBLE''
         else if campaign_falsified ds then ''INCOMPATIBLE'' else ''INCONCLUSIVE'')"
proof -
  note v = usable_verdicts [where order = order, OF u order]
  show ?thesis
  proof (cases "campaign_caps ds")
    case True
    show ?thesis
    proof (cases "campaign_contract ds")
      case c: False
      show ?thesis
        using v(3) [OF True] v(4) [OF True _ c] True c
        by (cases "campaign_falsified ds") (auto simp: verdict_kind_def)
    qed (simp add: v(1) [OF True] True verdict_kind_def)
  qed (use v(2) in \<open>auto simp: verdict_kind_def\<close>)
qed

text \<open>
  Claim C27. The verdict does not depend on the order of the observations or on the
  iteration order of the boot set: permuting accepted records with distinct keys gives a
  verdict of the same kind.
\<close>
theorem campaign_permutation_invariant:
  assumes "usable (validate_observation_record g) ds" "mset ds = mset es"
    and "\<And>xs. set (order xs) = set xs" "\<And>xs. set (order' xs) = set xs"
  shows "map_sum id verdict_kind (aggregate_campaign (validate_observation_record g) order (map PDict ds))
       = map_sum id verdict_kind (aggregate_campaign (validate_observation_record g) order' (map PDict es))
    \<and> (\<exists>v. aggregate_campaign (validate_observation_record g) order' (map PDict es) = Inr v)"
proof -
  have "distinct (map trial_key es)"
    using assms(1,2) by (metis usable_def mset_map mset_eq_imp_distinct_iff)
  then have u: "usable (validate_observation_record g) es"
    using assms(1,2) mset_eq_setD [OF assms(2)] by (auto simp: usable_def)
  show ?thesis
    using kind_of_usable [where order = order, OF assms(1,3)]
      kind_of_usable [where order = order', OF u assms(4)] contract_mset [OF assms(2)]
      j2v.aggregate_usable [OF u] by simp
qed

lemma check_records_fails:
  assumes "\<And>d. PDict d \<in> set rs \<Longrightarrow> \<exists>es. validate d = Inr es"
    and "\<not> (\<exists>ds. rs = map PDict ds \<and> (\<forall>d \<in> set ds. validate d = Inr []) \<and> distinct (map trial_key ds)
        \<and> set (map trial_key ds) \<inter> set seen = {})"
  shows "\<exists>reasons. check_records validate i seen rs = Inr (Some (Invalid_Experiment reasons))"
proof -
  have "\<exists>out. check_records validate i seen rs = Inr out"
    using assms(1)
  proof (induction rs arbitrary: i seen)
    case (Cons v rs)
    then show ?case by (cases v) fastforce+
  qed simp
  moreover have "check_records validate i seen rs \<noteq> Inr None"
    using assms(2) check_records_None [of validate i seen rs] by blast
  ultimately obtain v where v: "check_records validate i seen rs = Inr (Some v)" by (metis not_None_eq)
  with check_records_early show ?thesis by blast
qed

text \<open>
  Claim C28. The aggregation fails closed: when the validator returns on every record but
  one is no object, has an error or repeats a trial key, the verdict is
  \<open>INVALID_EXPERIMENT\<close>, whatever the other records say. The hypothesis is needed: the validator
  raises \<open>ValueError\<close> on a record that reaps without a spawn; \<open>validate_returns\<close> says on which
  records it returns.
\<close>
theorem campaign_fails_closed:
  assumes "records \<noteq> []" "\<And>d. PDict d \<in> set records \<Longrightarrow> \<exists>es. validate_observation_record g d = Inr es"
    and "\<not> (\<exists>ds. records = map PDict ds \<and> usable (validate_observation_record g) ds)"
  shows "\<exists>reasons. aggregate_campaign (validate_observation_record g) order records
     = Inr (Invalid_Experiment reasons)"
proof -
  have "\<exists>reasons. check_records (validate_observation_record g) 0 [] records = Inr (Some (Invalid_Experiment reasons))"
    using assms(2)
  proof (rule check_records_fails)
    show "\<not> (\<exists>ds. records = map PDict ds \<and> (\<forall>d \<in> set ds. validate_observation_record g d = Inr [])
        \<and> distinct (map trial_key ds) \<and> set (map trial_key ds) \<inter> set [] = {})"
      using assms(1,3) by (auto simp: usable_def)
  qed
  then show ?thesis using assms(1) by (auto simp: aggregate_campaign_def)
qed

section \<open>A campaign\<close>

definition boot_b :: string where "boot_b = replicate 64 CHR ''b''"
definition boot_c :: string where "boot_c = replicate 64 CHR ''c''"

definition boot_trials :: "string \<Rightarrow> record_dict list" where
  "boot_trials boot =
     [good_record boot ''TRL-0001'' ''SETTLED_NOMINAL'', good_record boot ''TRL-0002'' ''SETTLED_NOMINAL'',
      good_record boot ''TRL-0003'' ''ELEVATED_VALID'', good_record boot ''TRL-0004'' ''ELEVATED_VALID'']"

definition full_campaign :: "record_dict list" where
  "full_campaign = boot_trials boot_a @ boot_trials boot_b @ boot_trials boot_c"

definition timeout_campaign :: "record_dict list" where
  "timeout_campaign =
     [timeout_record boot_a ''TRL-0001'' ''SETTLED_NOMINAL'', timeout_record boot_a ''TRL-0002'' ''SETTLED_NOMINAL'',
      timeout_record boot_b ''TRL-0001'' ''SETTLED_NOMINAL'']"

text \<open>Either kind of record is accepted for any well-formed boot and trial id.\<close>

lemmas record_parts = good_record_def timeout_record_def mk_record_def mk_condition_def mk_artifact_def bindings_def

lemmas checks_eval = rget_def vget_def Let_def flag_def missing_fields_def expect_str_def expect_in_def py_in_strs_iff

lemma record_static:
  assumes "r = good_record b t c \<or> r = timeout_record b t c"
  shows "missing_root r = []" "identity_checks r = Inr []" "artifact_checks r = Inr []"
    "c \<in> set condition_classes \<Longrightarrow> condition_checks r = Inr []"
    "pattern_checks r = Inr [] \<longleftrightarrow> id_match [] lower_hex 64 b \<and> id_match ''TRL-'' is_digit_char 4 t"
proof -
  show "missing_root r = []"
    using assms by (elim disjE) (simp_all add: missing_root_def record_parts required_root_def)
  show "identity_checks r = Inr []"
    using assms by (elim disjE) (simp_all add: identity_checks_def record_parts required_root_def checks_eval
        canonical_schema_version_def canonical_grammar_version_def)
  show "artifact_checks r = Inr []"
    using assms by (elim disjE) (simp_all add: artifact_checks_def record_parts required_artifact_def checks_eval)
  show "condition_checks r = Inr []" if "c \<in> set condition_classes"
    using assms that by (elim disjE) (simp_all add: condition_checks_def record_parts required_condition_def checks_eval)
  have "id_match ''EXP-'' upper_hex 8 ''EXP-0000000A''" "id_match ''SES-'' upper_hex 8 ''SES-0000000A''"
    by code_simp+
  then show "pattern_checks r = Inr [] \<longleftrightarrow> id_match [] lower_hex 64 b \<and> id_match ''TRL-'' is_digit_char 4 t"
    using assms by (elim disjE) (simp_all add: pattern_checks_def record_parts checks_eval py_id_match_def)
qed

lemma record_transitions:
  assumes "r = good_record b t c \<or> r = timeout_record b t c"
  shows "transition_checks j2_grammar r = Inr []"
  using assms
  by (elim disjE) (simp_all add: transition_checks_def record_parts checks_eval normal_events_def mk_event_def
      binding_checks_def binding_check_def event_type_checks_def j2_grammar_def required_event_def
      spawn_payload_def reap_payload_def ordering_checks_def is_int_less is_int_le)

lemma record_classification:
  "classification_checks (good_record b t c) (Fin 1) = Inr []"
  "classification_checks (timeout_record b t c) (Fin 2200) = Inr []"
  by (simp_all add: classification_checks_def record_parts checks_eval confounder_def vote_checks_def
      terminal_classes_def trial_validities_def evidence_votes_def)

lemma records_accepted:
  assumes "id_match [] lower_hex 64 b" "id_match ''TRL-'' is_digit_char 4 t" "c \<in> set condition_classes"
  shows "validate_observation_record j2_grammar (good_record b t c) = Inr []"
    "validate_observation_record j2_grammar (timeout_record b t c) = Inr []"
proof -
  note s = record_static [of _ b t c] record_transitions [of _ b t c]
  show "validate_observation_record j2_grammar (good_record b t c) = Inr []"
    by (subst validate_mk_record [OF good_record_def refl]) (simp_all add: s assms record_classification)
  show "validate_observation_record j2_grammar (timeout_record b t c) = Inr []"
    by (subst validate_mk_record [OF timeout_record_def refl]) (simp_all add: s assms record_classification)
qed

lemma campaign_ids [simp]:
  "id_match [] lower_hex 64 boot_a" "id_match [] lower_hex 64 boot_b" "id_match [] lower_hex 64 boot_c"
  "id_match ''TRL-'' is_digit_char 4 ''TRL-0001''" "id_match ''TRL-'' is_digit_char 4 ''TRL-0002''"
  "id_match ''TRL-'' is_digit_char 4 ''TRL-0003''" "id_match ''TRL-'' is_digit_char 4 ''TRL-0004''"
  by code_simp+

text \<open>What the campaign rules read of the two kinds of records.\<close>

lemma record_reads [simp]:
  "boot_of (good_record b t c) = PStr b" "boot_of (timeout_record b t c) = PStr b"
  "cond_class (good_record b t c) = PStr c" "cond_class (timeout_record b t c) = PStr c"
  "is_valid_trial (good_record b t c)" "is_valid_trial (timeout_record b t c)"
  "\<not> is_invalid_trial (good_record b t c)" "\<not> is_invalid_trial (timeout_record b t c)"
  "votes_for v (good_record b t c) \<longleftrightarrow> v = ''COMPATIBLE_VOTE''"
  "votes_for v (timeout_record b t c) \<longleftrightarrow> v = ''INCOMPATIBLE_VOTE''"
  by (auto simp: boot_of_def is_valid_trial_def is_invalid_trial_def votes_for_def cond_class_def cls_field_def
      rget_def good_record_def timeout_record_def mk_record_def mk_condition_def bindings_def)

lemma record_keys [simp]:
  "trial_key (good_record b t c) = (PStr ''EXP-0000000A'', PStr ''SES-0000000A'', PStr b, PStr t)"
  "trial_key (timeout_record b t c) = (PStr ''EXP-0000000A'', PStr ''SES-0000000A'', PStr b, PStr t)"
  by (simp_all add: trial_key_def rget_def good_record_def timeout_record_def mk_record_def bindings_def)

lemma boots_differ [simp]: "boot_a \<noteq> boot_b" "boot_a \<noteq> boot_c" "boot_b \<noteq> boot_c"
  "boot_b \<noteq> boot_a" "boot_c \<noteq> boot_a" "boot_c \<noteq> boot_b"
  by code_simp+

lemma full_usable: "usable (validate_observation_record j2_grammar) full_campaign"
  by (simp add: usable_def full_campaign_def boot_trials_def records_accepted condition_classes_def)

lemma timeout_usable: "usable (validate_observation_record j2_grammar) timeout_campaign"
  by (simp add: usable_def timeout_campaign_def records_accepted condition_classes_def)

lemma full_contract: "campaign_caps full_campaign" "campaign_contract full_campaign"
  by (simp_all add: campaign_caps_def campaign_contract_def full_campaign_def boot_trials_def condition_classes_def)

lemma timeout_contract: "campaign_caps timeout_campaign" "campaign_falsified timeout_campaign"
proof -
  show "campaign_caps timeout_campaign" by (simp add: campaign_caps_def timeout_campaign_def)
  have "{d \<in> set timeout_campaign. votes_for ''INCOMPATIBLE_VOTE'' d \<and> cond_class d = PStr ''SETTLED_NOMINAL''}
      = set timeout_campaign" by (auto simp: timeout_campaign_def)
  then show "campaign_falsified timeout_campaign"
    unfolding campaign_falsified_def
    by (intro exI [of _ "PStr ''SETTLED_NOMINAL''"]) (simp add: timeout_campaign_def)
qed

lemma full_verdict:
  "aggregate_campaign (validate_observation_record j2_grammar) (\<lambda>xs. xs) (map PDict full_campaign)
     = Inr (Compatible 12 3)"
  using usable_verdicts(1) [where order = "\<lambda>xs. xs", OF full_usable refl full_contract]
  by (simp add: full_campaign_def boot_trials_def)

theorem campaign_compatible_iff_witness:
  "\<exists>ds. map PDict full_campaign = map PDict ds \<and> campaign_caps ds \<and> campaign_contract ds
     \<and> 12 = length (filter is_valid_trial ds)"
  using campaign_compatible_iff [where order = "\<lambda>xs. xs", OF refl, THEN iffD1, OF full_verdict] by blast

theorem campaign_incompatible_iff_witness:
  "\<exists>rs. aggregate_campaign (validate_observation_record j2_grammar) rev (map PDict timeout_campaign)
     = Inr (Incompatible rs)"
  using campaign_incompatible_iff [where order = rev and g = j2_grammar and records = "map PDict timeout_campaign"]
    timeout_usable timeout_contract by auto

theorem campaign_compatible_safe_witness:
  "list_all (\<lambda>v. \<exists>d. v = PDict d \<and> \<not> votes_for ''INCOMPATIBLE_VOTE'' d) (map PDict full_campaign)"
  unfolding list_all_iff using campaign_compatible_safe [OF full_verdict refl] by blast

theorem campaign_permutation_invariant_witness:
  "map_sum id verdict_kind (aggregate_campaign (validate_observation_record j2_grammar) (\<lambda>xs. xs) (map PDict full_campaign))
     = map_sum id verdict_kind (aggregate_campaign (validate_observation_record j2_grammar) rev (map PDict (rev full_campaign)))"
  using campaign_permutation_invariant [where order = "\<lambda>xs. xs" and order' = rev and es = "rev full_campaign",
      OF full_usable]
  by simp

theorem campaign_fails_closed_witness:
  "\<exists>reasons. aggregate_campaign (validate_observation_record j2_grammar) rev
     (map PDict [good_record boot_a ''TRL-0001'' ''SETTLED_NOMINAL'', good_record boot_a ''TRL-0001'' ''SETTLED_NOMINAL''])
   = Inr (Invalid_Experiment reasons)"
proof (rule campaign_fails_closed)
  let ?r = "good_record boot_a ''TRL-0001'' ''SETTLED_NOMINAL''"
  show "\<not> (\<exists>ds. map PDict [?r, ?r] = map PDict ds \<and> usable (validate_observation_record j2_grammar) ds)"
  proof
    assume "\<exists>ds. map PDict [?r, ?r] = map PDict ds \<and> usable (validate_observation_record j2_grammar) ds"
    then obtain ds where ds: "map PDict [?r, ?r] = map PDict ds" "usable (validate_observation_record j2_grammar) ds"
      by blast
    have "ds = [?r, ?r]" using ds(1) by (auto simp: Cons_eq_map_conv)
    then show False using ds(2) by (simp add: usable_def)
  qed
qed (use good_record_accepted in auto)

end
