(* ===== verification/Dts_Lexer.thy ===== *)
theory Dts_Lexer
  imports Py_Text
begin

text \<open>
  \<open>tools/dts_semantic_diff.py\<close>, the scanner: tokens with their kind and line, the string
  escapes, and the numbers and bytes of the value grammar. Text is a list of 8-bit
  characters; \<open>dts_scan\<close> takes the current line and the text from the index on.
\<close>

section \<open>Tokens\<close>

datatype tok_kind = Word | Quoted | Punct | Raw_Char

record token =
  tk_value :: string
  tk_kind :: tok_kind
  tk_line :: nat

datatype dts_error =
    Unterminated_Comment nat
  | Unterminated_String nat
  | Node_Key_Error string
  | Recursion_Limit

definition mk_token :: "string \<Rightarrow> tok_kind \<Rightarrow> nat \<Rightarrow> token" where
  "mk_token v k l = \<lparr> tk_value = v, tk_kind = k, tk_line = l \<rparr>"

lemma mk_token_simps [simp]:
  "tk_value (mk_token v k l) = v" "tk_kind (mk_token v k l) = k" "tk_line (mk_token v k l) = l"
  by (simp_all add: mk_token_def)

definition newline :: char where "newline = CHR 0x0A"
definition backslash :: char where "backslash = CHR 0x5C"
definition quotation :: char where "quotation = CHR 0x22"

section \<open>Strings\<close>

text \<open>\<open>_decode_dts_string\<close>; \<open>simple_escape\<close> holds its table and the cases \<open>\\0\<close> and \<open>\\a\<close>.\<close>

definition simple_escape :: "char \<Rightarrow> char option" where
  "simple_escape c =
     map_of [(CHR ''n'', CHR 0x0A), (CHR ''r'', CHR 0x0D), (CHR ''t'', CHR 0x09), (CHR ''b'', CHR 0x08),
             (CHR ''f'', CHR 0x0C), (CHR ''v'', CHR 0x0B), (CHR ''0'', CHR 0x00), (CHR ''a'', CHR 0x07)] c"

fun decode_dts_string :: "string \<Rightarrow> string" where
  "decode_dts_string [] = []"
| "decode_dts_string [c] = [c]"
| "decode_dts_string (c # e # r) =
     (if c \<noteq> backslash then c # decode_dts_string (e # r)
      else case simple_escape e of
             Some d \<Rightarrow> d # decode_dts_string r
           | None \<Rightarrow>
               if e = CHR ''x'' \<and> 2 \<le> length r then
                 (if list_all is_hex (take 2 r)
                  then char_of (hex_value (take 2 r)) # decode_dts_string (drop 2 r)
                  else CHR ''x'' # decode_dts_string r)
               else e # decode_dts_string r)"

definition split_dts_string :: "string \<Rightarrow> string list" where
  "split_dts_string value = split_char (CHR 0x00) value"

text \<open>The inner loop for a string literal: what it holds, the line and the rest behind the
  closing quote; \<open>None\<close> when the text ends first. A newline behind a backslash is not
  counted.\<close>

fun read_string :: "nat \<Rightarrow> string \<Rightarrow> (string \<times> nat \<times> string) option" where
  "read_string line [] = None"
| "read_string line (c # cs) =
     (if c = quotation then Some ([], line, cs)
      else if c = backslash \<and> cs \<noteq> [] then
        (case read_string line (tl cs) of
           None \<Rightarrow> None | Some (raw, l, rest) \<Rightarrow> Some (c # hd cs # raw, l, rest))
      else case read_string (if c = newline then Suc line else line) cs of
             None \<Rightarrow> None | Some (raw, l, rest) \<Rightarrow> Some (c # raw, l, rest))"

section \<open>The scanner\<close>

definition punctuation :: string where "punctuation = ''{};=<>[],:&''"

definition is_word_char :: "char \<Rightarrow> bool" where
  "is_word_char c \<longleftrightarrow> \<not> (py_space c \<or> c \<in> set punctuation \<or> c = quotation \<or> c = CHR ''/'')"

text \<open>A block comment, from behind its opening: the line and the rest behind the end.\<close>

fun skip_comment :: "nat \<Rightarrow> string \<Rightarrow> (nat \<times> string) option" where
  "skip_comment line [] = None"
| "skip_comment line [c] = None"
| "skip_comment line (c # d # cs) =
     (if c = CHR ''*'' \<and> d = CHR ''/'' then Some (line, cs)
      else skip_comment (if c = newline then Suc line else line) (d # cs))"

lemma read_string_length: "read_string l s = Some (raw, l', r) \<Longrightarrow> length r < length s"
proof (induction l s arbitrary: raw l' r rule: read_string.induct)
  case (2 line c cs)
  then show ?case by (auto split: if_splits option.splits; fastforce)
qed simp

lemma skip_comment_length: "skip_comment l s = Some (l', r) \<Longrightarrow> length r < length s"
  by (induction l s arbitrary: l' r rule: skip_comment.induct) (auto split: if_splits)

function dts_scan :: "nat \<Rightarrow> string \<Rightarrow> (dts_error, token list) res" where
  "dts_scan line [] = Inr []"
| "dts_scan line (c # cs) =
     (if py_space c then dts_scan (if c = newline then Suc line else line) cs
      else if starts_with (c # cs) ''//'' then
        (case dropWhile (\<lambda>x. x \<noteq> newline) (drop 1 cs) of
           [] \<Rightarrow> Inr []
         | _ # rest \<Rightarrow> dts_scan (Suc line) rest)
      else if starts_with (c # cs) ''/*'' then
        (case skip_comment line (drop 1 cs) of
           None \<Rightarrow> Inl (Unterminated_Comment line)
         | Some (line', rest) \<Rightarrow> dts_scan line' rest)
      else if c = quotation then
        (case read_string line cs of
           None \<Rightarrow> Inl (Unterminated_String line)
         | Some (raw, line', rest) \<Rightarrow>
             bindR (dts_scan line' rest) (\<lambda>ts. Inr (mk_token (decode_dts_string raw) Quoted line # ts)))
      else if c \<in> set punctuation \<or> c = CHR ''/'' then
        bindR (dts_scan line cs) (\<lambda>ts. Inr (mk_token [c] Punct line # ts))
      else
        (let w = takeWhile is_word_char (c # cs)
         in if w = [] then bindR (dts_scan line cs) (\<lambda>ts. Inr (mk_token [c] Raw_Char line # ts))
            else bindR (dts_scan line (drop (length w) (c # cs))) (\<lambda>ts. Inr (mk_token w Word line # ts))))"
  by pat_completeness auto
termination
proof (relation "measure (\<lambda>(line, s). length s)", goal_cases)
  case (3 line c cs x rest)
  have "length (dropWhile (\<lambda>x. x \<noteq> newline) (drop 1 cs)) \<le> length cs"
    by (metis diff_le_self le_trans length_drop length_dropWhile_le)
  then show ?case using 3 by simp
qed (auto dest!: read_string_length skip_comment_length)

declare dts_scan.simps(2) [simp del]

section \<open>Numbers\<close>

text \<open>\<open>$\<close> of a pattern also stands before a final newline.\<close>

definition chop_newline :: "string \<Rightarrow> string" where
  "chop_newline s = (if s \<noteq> [] \<and> last s = newline then butlast s else s)"

definition dec_value :: "string \<Rightarrow> nat" where
  "dec_value s = foldl (\<lambda>a c. a * 10 + (of_char c - 48)) 0 s"

text \<open>
  \<open>_parse_int\<close>: an optional sign and hexadecimal or decimal digits. \<open>int(v, 0)\<close> refuses
  leading zeros, \<open>int(v, 10)\<close> reads them; both refuse more than 4300 decimal digits.
\<close>

definition parse_int :: "string \<Rightarrow> int option" where
  "parse_int value =
     (let v = chop_newline value;
          neg = (v \<noteq> [] \<and> hd v = CHR ''-'');
          body = (if v \<noteq> [] \<and> hd v \<in> {CHR ''-'', CHR ''+''} then tl v else v);
          signed = (\<lambda>n. if neg then - int n else int n)
      in if (starts_with body ''0x'' \<or> starts_with body ''0X'') \<and> drop 2 body \<noteq> []
            \<and> list_all is_hex (drop 2 body) then Some (signed (hex_value (drop 2 body)))
         else if body \<noteq> [] \<and> list_all is_digit_char body \<and> length body \<le> 4300
         then Some (signed (dec_value body))
         else None)"

text \<open>A byte of a bytestring: \<open>_HEX_BYTE_RE\<close> and its two-digit rendering.\<close>

definition hex_byte :: "string \<Rightarrow> string option" where
  "hex_byte value =
     (let v = chop_newline value;
          body = (if starts_with v ''0x'' \<or> starts_with v ''0X'' then drop 2 v else v)
      in if body \<noteq> [] \<and> length body \<le> 2 \<and> list_all is_hex body
         then Some (fmt_hex 2 (hex_value body)) else None)"

section \<open>Canonical text\<close>

definition escape_dts :: "char \<Rightarrow> string" where
  "escape_dts c =
     (if c = quotation \<or> c = backslash then [backslash, c]
      else if c = newline then [backslash, CHR ''n''] else [c])"

definition quote_dts :: "string \<Rightarrow> string" where
  "quote_dts s = quotation # concat (map escape_dts s) @ [quotation]"

text \<open>The tokens the scanner can make, and a text for each.\<close>

fun lexable :: "tok_kind \<times> string \<Rightarrow> bool" where
  "lexable (Word, v) \<longleftrightarrow> v \<noteq> [] \<and> list_all is_word_char v"
| "lexable (Punct, v) \<longleftrightarrow> (\<exists>c. v = [c] \<and> (c \<in> set punctuation \<or> c = CHR ''/''))"
| "lexable (Quoted, v) \<longleftrightarrow> True"
| "lexable (Raw_Char, v) \<longleftrightarrow> False"

fun token_text :: "tok_kind \<times> string \<Rightarrow> string" where
  "token_text (Quoted, v) = quote_dts v @ '' ''"
| "token_text (_, v) = v @ '' ''"

definition dts_text :: "(tok_kind \<times> string) list \<Rightarrow> string" where
  "dts_text kvs = concat (map token_text kvs)"

definition kinds_values :: "token list \<Rightarrow> (tok_kind \<times> string) list" where
  "kinds_values ts = map (\<lambda>t. (tk_kind t, tk_value t)) ts"

lemma kinds_values_simps [simp]:
  "kinds_values [] = []" "kinds_values (t # ts) = (tk_kind t, tk_value t) # kinds_values ts"
  by (simp_all add: kinds_values_def)

lemma special_chars [simp]:
  "backslash \<noteq> quotation" "quotation \<noteq> backslash" "newline \<noteq> backslash" "newline \<noteq> quotation"
  "\<not> py_space quotation" "\<not> py_space (CHR ''/'')" "py_space (CHR '' '')" "CHR '' '' \<noteq> newline"
  "quotation \<noteq> CHR ''/''" "quotation \<notin> set punctuation" "CHR ''/'' \<notin> set punctuation"
  by code_simp+

lemma punct_not_space: "c \<in> set punctuation \<Longrightarrow> \<not> py_space c \<and> c \<noteq> quotation \<and> c \<noteq> CHR ''/''"
proof -
  have "list_all (\<lambda>c. \<not> py_space c \<and> c \<noteq> quotation \<and> c \<noteq> CHR ''/'') punctuation" by code_simp
  then show "c \<in> set punctuation \<Longrightarrow> ?thesis" by (simp add: list_all_iff)
qed

lemma decode_plain [simp]: "c \<noteq> backslash \<Longrightarrow> decode_dts_string (c # r) = c # decode_dts_string r"
  by (cases r) auto

lemma decode_escaped: "decode_dts_string (escape_dts c @ r) = c # decode_dts_string r"
proof -
  have "simple_escape quotation = None" "simple_escape backslash = None" "simple_escape (CHR ''n'') = Some newline"
    "quotation \<noteq> CHR ''x''" "backslash \<noteq> CHR ''x''"
    by code_simp+
  then show ?thesis by (simp add: escape_dts_def)
qed

lemma decode_quoted: "decode_dts_string (concat (map escape_dts s)) = s"
  by (induction s) (simp_all add: decode_escaped)

lemma read_string_quoted:
  "read_string l (concat (map escape_dts s) @ quotation # r) = Some (concat (map escape_dts s), l, r)"
proof (induction s)
  case (Cons c s)
  have "CHR ''n'' \<noteq> quotation" by code_simp
  with Cons show ?case by (simp add: escape_dts_def)
qed simp

lemma starts_with_two: "starts_with (c # cs) [a, b] \<longleftrightarrow> c = a \<and> cs \<noteq> [] \<and> hd cs = b"
  by (cases cs) (auto simp: starts_with_def)

lemma scan_space [simp]: "dts_scan l (CHR '' '' # r) = dts_scan l r"
  by (simp add: dts_scan.simps(2))

lemma scan_token:
  assumes "lexable (k, v)"
  shows "dts_scan l (token_text (k, v) @ r) = bindR (dts_scan l r) (\<lambda>ts. Inr (mk_token v k l # ts))"
proof (cases k)
  case Word
  then obtain c cs where v: "v = c # cs" "is_word_char c" "list_all is_word_char cs"
    using assms by (cases v) auto
  have "\<not> is_word_char (CHR '' '')" by code_simp
  then have w: "takeWhile is_word_char (v @ '' '' @ r) = v"
    using assms Word by (simp add: takeWhile_append2 list_all_iff)
  have "\<not> starts_with (c # cs @ CHR '' '' # r) [CHR ''/'', d]" for d
    using v(2) by (auto simp: starts_with_two is_word_char_def)
  with v w Word show ?thesis
    by (simp add: dts_scan.simps(2) is_word_char_def Let_def)
next
  case Punct
  then obtain c where v: "v = [c]" "c \<in> set punctuation \<or> c = CHR ''/''" using assms by auto
  have "\<not> starts_with (c # CHR '' '' # r) [CHR ''/'', d]" if "d \<noteq> CHR '' ''" for d
    using that by (auto simp: starts_with_two)
  moreover have "\<not> py_space c" "c \<noteq> quotation" using v punct_not_space [of c] by auto
  ultimately show ?thesis
    using Punct v by (simp add: dts_scan.simps(2) [of l c])
next
  case Quoted
  have "\<not> starts_with (quotation # s) [CHR ''/'', d]" for d s
    by (auto simp: starts_with_two)
  then show ?thesis
    using Quoted read_string_quoted [of l v "CHR '' '' # r"]
    by (simp add: quote_dts_def dts_scan.simps(2) [of l quotation] decode_quoted)
qed (use assms in auto)

lemma scan_text:
  "list_all lexable kvs \<Longrightarrow> \<exists>ts. dts_scan l (dts_text kvs) = Inr ts \<and> kinds_values ts = kvs"
proof (induction kvs)
  case (Cons kv kvs)
  then obtain ts where "dts_scan l (dts_text kvs) = Inr ts" "kinds_values ts = kvs" by auto
  then show ?case
    using Cons.prems scan_token [of "fst kv" "snd kv" l "dts_text kvs"] by (simp add: dts_text_def)
qed (simp add: dts_text_def)

section \<open>What the scanner returns\<close>

lemma read_string_line: "read_string l s = Some (raw, l', r) \<Longrightarrow> l \<le> l'"
  by (induction l s arbitrary: raw l' r rule: read_string.induct)
     (auto split: if_splits option.splits dest: Suc_leD)

lemma skip_comment_line: "skip_comment l s = Some (l', r) \<Longrightarrow> l \<le> l'"
  by (induction l s arbitrary: l' r rule: skip_comment.induct) (auto split: if_splits dest: Suc_leD)

definition lines_from :: "nat \<Rightarrow> token list \<Rightarrow> bool" where
  "lines_from l ts \<longleftrightarrow> sorted (l # map tk_line ts)"

lemma lines_from_Cons: "l \<le> tk_line t \<Longrightarrow> lines_from (tk_line t) ts \<Longrightarrow> lines_from l (t # ts)"
  by (auto simp: lines_from_def)

lemma lines_from_mono: "l \<le> l' \<Longrightarrow> lines_from l' ts \<Longrightarrow> lines_from l ts"
  by (auto simp: lines_from_def)

lemma scan_result:
  "dts_scan l s = Inr ts \<Longrightarrow> list_all lexable (kinds_values ts) \<and> lines_from l ts"
proof (induction l s arbitrary: ts rule: dts_scan.induct)
  case (1 line)
  then show ?case by (simp add: lines_from_def)
next
  case (2 line c cs)
  let ?w = "takeWhile is_word_char (c # cs)"
  consider (space) "py_space c" | (line) "\<not> py_space c" "starts_with (c # cs) ''//''"
    | (block) "\<not> py_space c" "\<not> starts_with (c # cs) ''//''" "starts_with (c # cs) ''/*''"
    | (quoted) "\<not> py_space c" "\<not> starts_with (c # cs) ''//''" "\<not> starts_with (c # cs) ''/*''" "c = quotation"
    | (punct) "\<not> py_space c" "\<not> starts_with (c # cs) ''//''" "\<not> starts_with (c # cs) ''/*''" "c \<noteq> quotation"
        "c \<in> set punctuation \<or> c = CHR ''/''"
    | (word) "\<not> py_space c" "\<not> starts_with (c # cs) ''//''" "\<not> starts_with (c # cs) ''/*''" "c \<noteq> quotation"
        "\<not> (c \<in> set punctuation \<or> c = CHR ''/'')" by blast
  then show ?case
  proof cases
    case space
    then show ?thesis using 2(1) [OF space] 2(8)
      by (auto simp: dts_scan.simps(2) split: if_splits intro: lines_from_mono [of line "Suc line"])
  next
    case line
    then show ?thesis using 2(2) [OF line] 2(8)
      by (auto simp: dts_scan.simps(2) lines_from_def split: list.splits intro: Suc_leD)
  next
    case block
    then show ?thesis using 2(3) [OF block] 2(8)
      by (auto simp: dts_scan.simps(2) split: option.splits intro: lines_from_mono dest: skip_comment_line)
  next
    case quoted
    from 2(8) quoted obtain raw line' rest us where r: "read_string line cs = Some (raw, line', rest)"
      "dts_scan line' rest = Inr us" "ts = mk_token (decode_dts_string raw) Quoted line # us"
      by (auto simp: dts_scan.simps(2) bindR_Inr_iff split: option.splits)
    then have "list_all lexable (kinds_values us) \<and> lines_from line' us"
      using 2(4) [OF quoted r(1) refl refl] by simp
    then show ?thesis
      using r read_string_line [OF r(1)] by (auto intro!: lines_from_Cons intro: lines_from_mono)
  next
    case punct
    then show ?thesis using 2(5) [OF punct] 2(8)
      by (auto simp: dts_scan.simps(2) bindR_Inr_iff intro!: lines_from_Cons)
  next
    case word
    then have ne: "?w \<noteq> []" by (simp add: is_word_char_def)
    have "list_all is_word_char ?w" by (auto simp: list_all_iff dest: set_takeWhileD)
    with word ne show ?thesis using 2(7) [OF word refl ne] 2(8)
      by (auto simp: dts_scan.simps(2) [of line c cs] bindR_Inr_iff Let_def intro!: lines_from_Cons
          simp del: takeWhile.simps)
  qed
qed

text \<open>
  Claim C33. Scanning is a normal form: whatever text is scanned, every token is a word
  without delimiters, a single punctuation character or a string (the branch that keeps a
  one-character raw token is never taken), the tokens are in line order, and printing the
  tokens with quoted strings and scanning the print gives the same kinds and values.
\<close>
theorem scan_normal_form:
  assumes "dts_scan l text = Inr ts"
  shows "list_all lexable (kinds_values ts) \<and> sorted (l # map tk_line ts)
    \<and> (\<exists>ts'. dts_scan l (dts_text (kinds_values ts)) = Inr ts' \<and> kinds_values ts' = kinds_values ts)"
  using scan_result [OF assms] scan_text [of "kinds_values ts" l] by (simp add: lines_from_def)

definition sample_dts :: string where
  "sample_dts = ''/ { a = '' @ quote_dts ''x'' @ ''; /* c */ b; };''"

lemma sample_dts_scan: "dts_scan 1 sample_dts = Inr
   [mk_token ''/'' Punct 1, mk_token ''{'' Punct 1, mk_token ''a'' Word 1, mk_token ''='' Punct 1,
    mk_token ''x'' Quoted 1, mk_token '';'' Punct 1, mk_token ''b'' Word 1, mk_token '';'' Punct 1,
    mk_token ''}'' Punct 1, mk_token '';'' Punct 1]"
  by code_simp

theorem scan_normal_form_witness:
  "\<exists>ts. dts_scan 1 sample_dts = Inr ts \<and> length ts = 10 \<and> list_all lexable (kinds_values ts)"
  using scan_normal_form [OF sample_dts_scan] sample_dts_scan by simp

end
