(* ===== verification/Dts_Parser.thy ===== *)
theory Dts_Parser
  imports Dts_Lexer "HOL-Library.AList"
begin

text \<open>
  \<open>tools/dts_semantic_diff.py\<close>, the class \<open>_Parser\<close>: property values, nodes, blocks, the
  recovery after malformed input and the finished tree. The parser state is the record
  \<open>pstate\<close>; its tokens are \<open>self.tokens\<close> from \<open>self.index\<close> on. Dicts are association lists
  in insertion order. \<open>_parse_block\<close> calls itself through \<open>_parse_member\<close>, so it is a
  partial function; that it always returns is proved. Each nested block takes two frames of
  the interpreter's stack: \<open>room\<close> is the number of nested blocks the stack has room for, and one
  block more raises \<open>RecursionError\<close> (\<open>Recursion_Limit\<close>), which nothing in the parser catches.
\<close>

section \<open>Data\<close>

datatype atom =
    Number int
  | Ref_Name string
  | Unresolved_Ref string
  | Raw_Atom string

datatype value_part =
    Cells "atom list"
  | Byte_List "string list"
  | String_List "string list"
  | Raw_Part "string list"

record dts_property =
  pr_name :: string
  pr_parts :: "value_part list"
  pr_boolean :: bool
  pr_line :: nat

record dts_node =
  nd_path :: string
  nd_name :: string
  nd_labels :: "string list"
  nd_properties :: "(string \<times> dts_property) list"
  nd_children :: "string list"
  nd_line :: nat

record pstate =
  p_tokens :: "token list"
  p_issues :: "string list"
  p_unsupported :: "string list"
  p_nodes :: "(string \<times> dts_node) list"
  p_duplicates :: "string list"
  p_children :: "(string \<times> string list) list"

record dts_tree =
  dt_source :: string
  dt_nodes :: "(string \<times> dts_node) list"
  dt_phandles :: "(int \<times> string) list"
  dt_labels :: "(string \<times> string) list"
  dt_issues :: "string list"
  dt_unsupported :: "string list"
  dt_duplicate_paths :: "string list"
  dt_duplicate_labels :: "string list"

section \<open>Property values\<close>

text \<open>A modifier such as \<open>/bits/\<close> inside an angle list.\<close>

fun read_modifier :: "string \<Rightarrow> token list \<Rightarrow> string \<times> token list" where
  "read_modifier raw [] = (raw, [])"
| "read_modifier raw (t # ts) =
     (if tk_value t \<in> {'' '', ''>'', '',''} then (raw, t # ts)
      else if tk_value t = ''/'' then (raw @ tk_value t, ts)
      else read_modifier (raw @ tk_value t) ts)"

lemma read_modifier_length: "length (snd (read_modifier raw ts)) \<le> length ts"
  by (induction raw ts rule: read_modifier.induct) auto

text \<open>The atoms up to the closing angle bracket, and the tokens behind it.\<close>

function read_cells :: "token list \<Rightarrow> atom list \<times> token list" where
  "read_cells [] = ([], [])"
| "read_cells (t # ts) =
     (if tk_value t = ''>'' then ([], ts)
      else if tk_value t = '','' then read_cells ts
      else if tk_value t = ''&'' then
        (case ts of
           [] \<Rightarrow> ([Unresolved_Ref ''missing-label''], [])
         | u # us \<Rightarrow> (let (atoms, rest) = read_cells us in (Ref_Name (tk_value u) # atoms, rest)))
      else if tk_value t = ''/'' then
        (let m = read_modifier ''/'' ts; (atoms, rest) = read_cells (snd m) in (Raw_Atom (fst m) # atoms, rest))
      else
        (let (atoms, rest) = read_cells ts
         in ((case parse_int (tk_value t) of Some n \<Rightarrow> Number n | None \<Rightarrow> Raw_Atom (tk_value t)) # atoms, rest)))"
  by pat_completeness auto
termination
  by (relation "measure length") (auto simp: le_imp_less_Suc read_modifier_length)

fun read_bytes :: "token list \<Rightarrow> string list \<times> token list" where
  "read_bytes [] = ([], [])"
| "read_bytes (t # ts) =
     (if tk_value t = '']'' then ([], ts)
      else let (bs, rest) = read_bytes ts
           in (if tk_value t = '','' then bs
               else (case hex_byte (tk_value t) of Some b \<Rightarrow> b | None \<Rightarrow> tk_value t) # bs, rest))"

text \<open>A run of string tokens with single commas between them.\<close>

fun read_strings :: "token list \<Rightarrow> string list \<times> token list" where
  "read_strings [] = ([], [])"
| "read_strings (t # ts) =
     (if tk_kind t \<noteq> Quoted then ([], t # ts)
      else case ts of
             [] \<Rightarrow> (split_dts_string (tk_value t), [])
           | u # us \<Rightarrow>
               let (ss, rest) = (if tk_value u = '','' then read_strings us else read_strings (u # us))
               in (split_dts_string (tk_value t) @ ss, rest))"

fun read_bare :: "token list \<Rightarrow> string list \<times> token list" where
  "read_bare [] = ([], [])"
| "read_bare (t # ts) =
     (if tk_value t \<in> {'','', ''<'', ''[''} then ([], t # ts)
      else let (raw, rest) = read_bare ts in (tk_value t # raw, rest))"

lemma read_cells_length: "length (snd (read_cells ts)) \<le> length ts"
proof (induction ts rule: read_cells.induct)
  case (2 t ts)
  consider "tk_value t = ''>''" | "tk_value t = '',''" | "tk_value t = ''&''" "ts = []"
    | u us where "tk_value t = ''&''" "ts = u # us" | "tk_value t = ''/''"
    | "tk_value t \<notin> {''>'', '','', ''&'', ''/''}" by (cases ts) auto
  then show ?case
  proof cases
    case 2
    then show ?thesis using "2.IH"(1) by simp
  next
    case 4
    then show ?thesis using "2.IH"(2) by (simp add: case_prod_unfold Let_def)
  next
    case 5
    then show ?thesis using "2.IH"(3) read_modifier_length [of "''/''" ts]
      by (simp add: case_prod_unfold Let_def)
  next
    case 6
    then show ?thesis using "2.IH"(4) by (simp add: case_prod_unfold Let_def)
  qed simp_all
qed simp

lemma read_bytes_length: "length (snd (read_bytes ts)) \<le> length ts"
  by (induction ts) (auto simp: case_prod_unfold Let_def)

lemma read_strings_length: "length (snd (read_strings ts)) \<le> length ts"
proof (induction ts rule: read_strings.induct)
  case (2 t ts)
  then show ?case
    by (cases "tk_kind t = Quoted"; cases ts; cases "tk_value (hd ts) = '',''")
       (simp_all add: case_prod_unfold Let_def del: read_strings.simps(2), simp_all add: case_prod_unfold Let_def)
qed simp

lemma read_strings_progress: "tk_kind t = Quoted \<Longrightarrow> length (snd (read_strings (t # ts))) \<le> length ts"
proof (cases ts)
  case (Cons u us)
  then show "tk_kind t = Quoted \<Longrightarrow> ?thesis"
    using read_strings_length [of us] read_strings_length [of "u # us"]
    by (auto simp: case_prod_unfold Let_def simp del: read_strings.simps(2) [of u us])
qed simp

lemma read_bare_length: "length (snd (read_bare ts)) \<le> length ts"
  by (induction ts) (auto simp: case_prod_unfold Let_def)

lemma read_bare_progress:
  "tk_value t \<notin> {'','', ''<'', ''[''} \<Longrightarrow> length (snd (read_bare (t # ts))) \<le> length ts"
  using read_bare_length [of ts] by (simp add: case_prod_unfold Let_def)

text \<open>\<open>_parse_property_value\<close>: the loop over the value's tokens.\<close>

function read_parts :: "token list \<Rightarrow> value_part list" where
  "read_parts [] = []"
| "read_parts (t # ts) =
     (if tk_value t = '','' then read_parts ts
      else if tk_value t = ''<'' then
        (let (atoms, rest) = read_cells ts in Cells atoms # read_parts rest)
      else if tk_value t = ''['' then
        (let (bs, rest) = read_bytes ts in Byte_List bs # read_parts rest)
      else if tk_kind t = Quoted then
        (let (ss, rest) = read_strings (t # ts) in String_List ss # read_parts rest)
      else
        (let (raw, rest) = read_bare (t # ts) in Raw_Part raw # read_parts rest))"
  by pat_completeness auto
termination
proof (relation "measure length", goal_cases)
  case (3 t ts x y)
  then show ?case using read_cells_length [of ts] by (metis in_measure le_imp_less_Suc length_Cons snd_conv)
next
  case (4 t ts x y)
  then show ?case using read_bytes_length [of ts] by (metis in_measure le_imp_less_Suc length_Cons snd_conv)
next
  case (5 t ts x y)
  then show ?case using read_strings_progress [of t ts] by (metis in_measure le_imp_less_Suc length_Cons snd_conv)
next
  case (6 t ts x y)
  then have "tk_value t \<notin> {'','', ''<'', ''[''}" by auto
  from read_bare_progress [OF this, of ts] 6 show ?case
    by (metis in_measure le_imp_less_Suc length_Cons snd_conv)
qed auto

definition parse_property_value :: "string \<Rightarrow> token list \<Rightarrow> nat \<Rightarrow> dts_property" where
  "parse_property_value name tokens line =
     \<lparr> pr_name = name, pr_parts = read_parts tokens, pr_boolean = False, pr_line = line \<rparr>"

section \<open>Skipping\<close>

text \<open>\<open>_skip_until\<close>. The test \<open>token.value in "<[{"\<close> is a substring test, so it also holds of
  an empty string token.\<close>

fun skip_until :: "string list \<Rightarrow> nat \<Rightarrow> token list \<Rightarrow> token list" where
  "skip_until terms depth [] = []"
| "skip_until terms depth (t # ts) =
     (if contains_sub (tk_value t) ''<[{'' then skip_until terms (depth + 1) ts
      else if contains_sub (tk_value t) ''>]}'' \<and> depth \<noteq> 0 then skip_until terms (depth - 1) ts
      else if tk_value t \<in> set terms \<and> depth = 0 then ts
      else skip_until terms depth ts)"

text \<open>The loop of \<open>_skip_balanced("{", "}")\<close>.\<close>

fun balanced_from :: "nat \<Rightarrow> token list \<Rightarrow> token list" where
  "balanced_from depth [] = []"
| "balanced_from depth (t # ts) =
     (if tk_value t = ''{'' then balanced_from (depth + 1) ts
      else if tk_value t = ''}'' then (if depth = 1 then ts else balanced_from (depth - 1) ts)
      else balanced_from depth ts)"

definition next_is :: "string \<Rightarrow> token list \<Rightarrow> bool" where
  "next_is v ts \<longleftrightarrow> ts \<noteq> [] \<and> tk_value (hd ts) = v"

definition skip_balanced :: "token list \<Rightarrow> token list" where
  "skip_balanced ts = (if next_is ''{'' ts then balanced_from 0 ts else ts)"

definition directive_start :: "token list \<Rightarrow> bool" where
  "directive_start ts \<longleftrightarrow> next_is ''/'' ts \<and> tl ts \<noteq> [] \<and> \<not> next_is ''{'' (tl ts)"

definition add_issue :: "string \<Rightarrow> pstate \<Rightarrow> pstate" where
  "add_issue msg s = s \<lparr> p_issues := p_issues s @ [msg] \<rparr>"

definition with_tokens :: "token list \<Rightarrow> pstate \<Rightarrow> pstate" where
  "with_tokens ts s = s \<lparr> p_tokens := ts \<rparr>"

text \<open>\<open>_consume_directive\<close>, called on a directive start.\<close>

definition consume_directive :: "pstate \<Rightarrow> pstate" where
  "consume_directive s =
     (let start = hd (p_tokens s); ts = tl (p_tokens s);
          (n1, ts1) = (if ts \<noteq> [] \<and> tk_value (hd ts) \<notin> {'';'', ''{''} then (tk_value (hd ts), tl ts) else ([], ts));
          (n2, ts2) = (if next_is ''/'' ts1 then (''/'', tl ts1) else ([], ts1));
          name = n1 @ n2
      in if name \<in> {''dts-v1/'', ''plugin/'', ''memreserve/''} then with_tokens (skip_until ['';''] 0 ts2) s
         else let rest = skip_until ['';'', ''{''] 0 ts2
              in s \<lparr> p_unsupported := p_unsupported s @
                       [''unsupported directive /'' @ name @ '' at line '' @ fmt_nat (tk_line start)],
                     p_tokens := (if next_is ''{'' rest then skip_balanced rest else rest) \<rparr>)"

section \<open>Members\<close>

definition join_path :: "string \<Rightarrow> string \<Rightarrow> string" where
  "join_path parent name =
     (if parent = ''/'' then ''/'' @ name
      else if starts_with name ''&'' then parent @ ''/'' @ name
      else rev (dropWhile (\<lambda>c. c = CHR ''/'') (rev parent)) @ ''/'' @ name)"

text \<open>The loop that collects names and labels; it stops before \<open>{\<close>, \<open>=\<close> or \<open>;\<close>.\<close>

fun member_head :: "string list \<Rightarrow> string list \<Rightarrow> token list \<Rightarrow> string list \<times> string list \<times> token list" where
  "member_head names labels [] = (names, labels, [])"
| "member_head names labels (t # ts) =
     (if tk_value t = '':'' then
        (if names = [] \<or> last names = [] then member_head (butlast names) labels ts
         else member_head (butlast names) (labels @ [last names]) ts)
      else if tk_value t \<in> {''{'', ''='', '';''} then (names, labels, t # ts)
      else member_head (names @ [tk_value t]) labels ts)"

text \<open>\<open>_take_value_tokens\<close>; the three numbers are \<open>depths\<close>.\<close>

fun take_value :: "nat \<times> nat \<times> nat \<Rightarrow> token list \<Rightarrow> token list \<times> token list \<times> string list" where
  "take_value d [] = ([], [], [''unterminated property value''])"
| "take_value (a, b, c) (t # ts) =
     (if tk_value t = '';'' \<and> a = 0 \<and> b = 0 \<and> c = 0 then ([], ts, [])
      else
        (let unbalanced = flag (tk_value t = ''>'' \<and> a = 0 \<or> tk_value t = '']'' \<and> b = 0 \<or> tk_value t = ''}'' \<and> c = 0)
                            (''unbalanced '' @ tk_value t @ '' at line '' @ fmt_nat (tk_line t));
             d = (if tk_value t = ''<'' then (a + 1, b, c) else if tk_value t = ''['' then (a, b + 1, c)
                  else if tk_value t = ''{'' then (a, b, c + 1)
                  else if tk_value t = ''>'' then (a - 1, b, c) else if tk_value t = '']'' then (a, b - 1, c)
                  else if tk_value t = ''}'' then (a, b, c - 1) else (a, b, c));
             (vs, rest, issues) = take_value d ts
         in (t # vs, rest, unbalanced @ issues)))"

text \<open>\<open>if path not in self._children[parent]: self._children[parent].append(path)\<close>.\<close>

definition children_of :: "(string \<times> string list) list \<Rightarrow> string \<Rightarrow> string list" where
  "children_of ch q = (case map_of ch q of None \<Rightarrow> [] | Some cs \<Rightarrow> cs)"

definition add_child :: "string \<Rightarrow> string \<Rightarrow> (string \<times> string list) list \<Rightarrow> (string \<times> string list) list" where
  "add_child q path ch =
     (if path \<in> set (children_of ch q) then ch else AList.update q (children_of ch q @ [path]) ch)"

text \<open>A node is entered: duplicates are reported and keep the first node object.\<close>

definition add_node :: "string \<Rightarrow> string \<Rightarrow> string list \<Rightarrow> nat \<Rightarrow> nat \<Rightarrow> pstate \<Rightarrow> pstate" where
  "add_node path name labels line brace_line s =
     (if map_of (p_nodes s) path \<noteq> None
      then add_issue (''duplicate node path '' @ path @ '' at line '' @ fmt_nat brace_line)
             (s \<lparr> p_duplicates := p_duplicates s @ [path] \<rparr>)
      else s \<lparr> p_nodes := p_nodes s @ [(path, \<lparr> nd_path = path, nd_name = name, nd_labels = labels,
                 nd_properties = [], nd_children = [], nd_line = line \<rparr>)] \<rparr>)"

definition enter_node ::
    "string option \<Rightarrow> string \<Rightarrow> string \<Rightarrow> string list \<Rightarrow> nat \<Rightarrow> nat \<Rightarrow> pstate \<Rightarrow> pstate" where
  "enter_node parent path name labels line brace_line s =
     (let s1 = add_node path name labels line brace_line s
      in case parent of
           None \<Rightarrow> s1
         | Some q \<Rightarrow> s1 \<lparr> p_children := add_child q path (p_children s1) \<rparr>)"

definition set_property :: "string \<Rightarrow> dts_property \<Rightarrow> pstate \<Rightarrow> pstate" where
  "set_property path p s =
     (case map_of (p_nodes s) path of
        None \<Rightarrow> s
      | Some nd \<Rightarrow> s \<lparr> p_nodes := AList.update path
                     (nd \<lparr> nd_properties := AList.update (pr_name p) p (nd_properties nd) \<rparr>) (p_nodes s) \<rparr>)"

definition last_name :: "string list \<Rightarrow> string \<Rightarrow> string" where
  "last_name names dflt = (if names = [] then dflt else last names)"

text \<open>
  \<open>_parse_member\<close> up to the recursive call: the new state, and the path of the child whose
  block follows. \<open>self.nodes[node_path]\<close> raises when the node is missing.
\<close>

definition member_step :: "string \<Rightarrow> pstate \<Rightarrow> (dts_error, pstate \<times> string option) res" where
  "member_step node_path s =
     (if map_of (p_nodes s) node_path = None then Inl (Node_Key_Error node_path)
      else case p_tokens s of
        [] \<Rightarrow> Inr (s, None)
      | first # _ \<Rightarrow>
        (let line = tk_line first; place = '' at line '' @ fmt_nat line;
             (names, labels, rest) = member_head [] [] (p_tokens s); name = last_name names []
         in case rest of
              [] \<Rightarrow> Inr (add_issue (''unterminated member at '' @ node_path @ '':'' @ fmt_nat line)
                          (with_tokens [] s), None)
            | t # ts \<Rightarrow>
              if tk_value t = ''{'' then
                (if name = [] then Inr (with_tokens (skip_balanced ts) (add_issue (''unnamed node'' @ place) s), None)
                 else (let child = join_path node_path name
                       in Inr (enter_node (Some node_path) child name labels line (tk_line t) (with_tokens ts s),
                               Some child)))
              else if tk_value t = ''='' then
                (if name = [] then Inr (with_tokens (skip_until ['';''] 0 ts) (add_issue (''unnamed property'' @ place) s), None)
                 else (let (vs, rest', issues) = take_value (0, 0, 0) ts
                       in Inr (set_property node_path (parse_property_value name vs line)
                                 (with_tokens rest' (s \<lparr> p_issues := p_issues s @ issues \<rparr>)), None)))
              else
                (if name = [] then Inr (add_issue (''unnamed property'' @ place) (with_tokens ts s), None)
                 else Inr (set_property node_path \<lparr> pr_name = name, pr_parts = [], pr_boolean = True, pr_line = line \<rparr>
                             (with_tokens ts s), None))))"

text \<open>\<open>_parse_node("/")\<close> up to the recursive call.\<close>

definition node_step :: "pstate \<Rightarrow> pstate \<times> string option" where
  "node_step s =
     (case p_tokens s of
        [] \<Rightarrow> (s, None)
      | first # _ \<Rightarrow>
        (let line = tk_line first; (names, labels, rest) = member_head [] [] (p_tokens s)
         in case rest of
              [] \<Rightarrow> (add_issue (''unterminated node at line '' @ fmt_nat line) (with_tokens [] s), None)
            | t # ts \<Rightarrow>
              if tk_value t = ''{'' then
                (let name = last_name names ''/'';
                     (path, parent) = (if name = ''/'' then (''/'', None) else (join_path ''/'' name, Some ''/''))
                 in (enter_node parent path name labels line (tk_line t) (with_tokens ts s), Some path))
              else
                (with_tokens (skip_until ['';''] 0 (t # ts))
                   (add_issue (''expected node at line '' @ fmt_nat line) s), None)))"

section \<open>Blocks and the whole file\<close>

partial_function (option) parse_block :: "nat \<Rightarrow> string \<Rightarrow> pstate \<Rightarrow> (dts_error, pstate) res option" where
  "parse_block room path s =
     (if room = 0 then Some (Inl Recursion_Limit)
      else case p_tokens s of
        [] \<Rightarrow> Some (Inr (add_issue (''unterminated node '' @ path) s))
      | t # ts \<Rightarrow>
        if tk_value t = ''}'' then Some (Inr (with_tokens (if next_is '';'' ts then tl ts else ts) s))
        else if tk_value t = '';'' then parse_block room path (with_tokens ts s)
        else if directive_start (t # ts) then parse_block room path (consume_directive s)
        else case member_step path s of
               Inl e \<Rightarrow> Some (Inl e)
             | Inr (s1, None) \<Rightarrow> parse_block room path s1
             | Inr (s1, Some child) \<Rightarrow>
                 Option.bind (parse_block (room - 1) child s1) (\<lambda>r. case r of
                   Inl e \<Rightarrow> Some (Inl e)
                 | Inr s2 \<Rightarrow> parse_block room path s2))"

text \<open>The first loop of \<open>parse\<close>.\<close>

definition after_node :: "pstate \<Rightarrow> pstate" where
  "after_node s =
     (case p_tokens s of
        [] \<Rightarrow> s
      | t # _ \<Rightarrow> add_issue (''extra top-level statement at line '' @ fmt_nat (tk_line t)) s)"

partial_function (option) parse_top :: "nat \<Rightarrow> pstate \<Rightarrow> (dts_error, pstate) res option" where
  "parse_top room s =
     (case p_tokens s of
        [] \<Rightarrow> Some (Inr s)
      | t # ts \<Rightarrow>
        if tk_value t = '';'' then parse_top room (with_tokens ts s)
        else if directive_start (t # ts) then parse_top room (consume_directive s)
        else case node_step s of
               (s1, None) \<Rightarrow> parse_top room (after_node s1)
             | (s1, Some path) \<Rightarrow>
                 Option.bind (parse_block room path s1) (\<lambda>r. case r of
                   Inl e \<Rightarrow> Some (Inl e)
                 | Inr s2 \<Rightarrow> parse_top room (after_node s2)))"

section \<open>The finished tree\<close>

definition flatten_cells :: "dts_property \<Rightarrow> atom list" where
  "flatten_cells p = concat (map (\<lambda>part. case part of Cells atoms \<Rightarrow> atoms | _ \<Rightarrow> []) (pr_parts p))"

definition number_of :: "atom \<Rightarrow> int option" where
  "number_of a = (case a of Number n \<Rightarrow> Some n | _ \<Rightarrow> None)"

definition direct_numbers :: "dts_property \<Rightarrow> int list" where
  "direct_numbers p =
     (let atoms = flatten_cells p
      in if list_all (\<lambda>a. number_of a \<noteq> None) atoms then map (the \<circ> number_of) atoms else [])"

definition add_label ::
    "string \<Rightarrow> string \<Rightarrow> (string \<times> string) list \<times> string list \<times> string list
     \<Rightarrow> (string \<times> string) list \<times> string list \<times> string list" where
  "add_label path label acc =
     (case acc of (labels, dups, issues) \<Rightarrow>
        case map_of labels label of
          Some p \<Rightarrow>
            if p \<noteq> path
            then (labels, dups @ [label],
                  issues @ [''duplicate label '' @ py_repr label @ '': '' @ p @ '' and '' @ path])
            else (AList.update label path labels, dups, issues)
        | None \<Rightarrow> (AList.update label path labels, dups, issues))"

definition node_labels :: "(string \<times> dts_node) list \<Rightarrow> string \<Rightarrow> string list" where
  "node_labels nodes path = (case map_of nodes path of None \<Rightarrow> [] | Some nd \<Rightarrow> nd_labels nd)"

definition collect_labels ::
    "(string \<times> dts_node) list \<Rightarrow> (string \<times> string) list \<times> string list \<times> string list" where
  "collect_labels nodes =
     fold (\<lambda>path acc. fold (add_label path) (node_labels nodes path) acc) (sort (map fst nodes)) ([], [], [])"

definition add_phandle ::
    "(string \<times> dts_node) list \<Rightarrow> string \<Rightarrow> string \<Rightarrow> (int \<times> string) list \<times> string list
     \<Rightarrow> (int \<times> string) list \<times> string list" where
  "add_phandle nodes path name acc =
     (case acc of (phandles, issues) \<Rightarrow>
        case (case map_of nodes path of None \<Rightarrow> None | Some nd \<Rightarrow> map_of (nd_properties nd) name) of
          None \<Rightarrow> acc
        | Some p \<Rightarrow>
            if pr_boolean p then acc
            else case direct_numbers p of
                   [value] \<Rightarrow>
                     (case map_of phandles value of
                        Some q \<Rightarrow>
                          if q \<noteq> path
                          then (phandles, issues @ [''duplicate phandle 0x'' @ fmt_hex_int 0 value @ '': '' @ q
                                                     @ '' and '' @ path])
                          else (AList.update value path phandles, issues)
                      | None \<Rightarrow> (AList.update value path phandles, issues))
                 | _ \<Rightarrow> (phandles, issues @ [''non-scalar '' @ name @ '' at '' @ path]))"

definition phandle_names :: "string list" where "phandle_names = [''phandle'', ''linux,phandle'']"

definition collect_phandles :: "(string \<times> dts_node) list \<Rightarrow> (int \<times> string) list \<times> string list" where
  "collect_phandles nodes =
     fold (\<lambda>path acc. fold (add_phandle nodes path) phandle_names acc) (sort (map fst nodes)) ([], [])"

definition set_children ::
    "string \<times> string list \<Rightarrow> (string \<times> dts_node) list \<Rightarrow> (dts_error, (string \<times> dts_node) list) res" where
  "set_children pc nodes =
     (case pc of (parent, children) \<Rightarrow>
        case map_of nodes parent of
          None \<Rightarrow> Inl (Node_Key_Error parent)
        | Some nd \<Rightarrow> Inr (AList.update parent (nd \<lparr> nd_children := sort children \<rparr>) nodes))"

definition finish_tree :: "string \<Rightarrow> pstate \<Rightarrow> (dts_error, dts_tree) res" where
  "finish_tree source s =
     (let (labels, dup_labels, label_issues) = collect_labels (p_nodes s);
          (phandles, phandle_issues) = collect_phandles (p_nodes s)
      in bindR (foldR set_children (p_children s) (p_nodes s)) (\<lambda>nodes.
           Inr \<lparr> dt_source = source, dt_nodes = nodes, dt_phandles = phandles, dt_labels = labels,
                 dt_issues = sort (p_issues s @ label_issues @ phandle_issues),
                 dt_unsupported = sort (p_unsupported s), dt_duplicate_paths = sort (p_duplicates s),
                 dt_duplicate_labels = sort dup_labels \<rparr>))"

definition initial_state :: "token list \<Rightarrow> pstate" where
  "initial_state ts = \<lparr> p_tokens = ts, p_issues = [], p_unsupported = [], p_nodes = [], p_duplicates = [],
     p_children = [] \<rparr>"

definition parse_dts :: "nat \<Rightarrow> string \<Rightarrow> string \<Rightarrow> (dts_error, dts_tree) res option" where
  "parse_dts room source text =
     (case dts_scan 1 text of
        Inl e \<Rightarrow> Some (Inl e)
      | Inr ts \<Rightarrow> Option.bind (parse_top room (initial_state ts)) (\<lambda>r. Some (bindR r (finish_tree source))))"

section \<open>Progress\<close>

text \<open>The number of opening braces, which bounds the nesting.\<close>

definition braces :: "token list \<Rightarrow> nat" where
  "braces ts = length (filter (\<lambda>t. tk_value t = ''{'') ts)"

lemma braces_simps [simp]:
  "braces [] = 0" "braces (t # ts) = (if tk_value t = ''{'' then Suc (braces ts) else braces ts)"
  by (simp_all add: braces_def)

lemma suffix_braces: "suffix ts us \<Longrightarrow> braces ts \<le> braces us"
  by (auto simp: suffix_def braces_def)

lemma skip_until_suffix: "suffix (skip_until terms d ts) ts"
  by (induction terms d ts rule: skip_until.induct) (auto intro: suffix_ConsI)

lemma balanced_from_suffix: "suffix (balanced_from d ts) ts"
  by (induction d ts rule: balanced_from.induct) (auto intro: suffix_ConsI)

lemma skip_balanced_suffix: "suffix (skip_balanced ts) ts"
  by (simp add: skip_balanced_def balanced_from_suffix)

lemma member_head_suffix: "suffix (snd (snd (member_head ns ls ts))) ts"
  by (induction ns ls ts rule: member_head.induct) (auto intro: suffix_ConsI)

lemma take_value_suffix: "suffix (fst (snd (take_value d ts))) ts"
proof (induction ts arbitrary: d)
  case (Cons t ts)
  then show ?case by (cases d) (simp add: Let_def case_prod_unfold suffix_ConsI)
qed simp

lemma consume_directive_suffix: "suffix (p_tokens (consume_directive s)) (p_tokens s)"
proof -
  have tls: "suffix (tl us) us" for us :: "token list" by (rule suffix_tl)
  show ?thesis
    unfolding consume_directive_def Let_def case_prod_unfold
    by (auto simp: with_tokens_def
      intro!: tls suffix_order.trans [OF skip_until_suffix] suffix_order.trans [OF skip_balanced_suffix]
        suffix_order.trans [OF tls])
qed

lemma skip_until_length: "length (skip_until terms d ts) \<le> length ts"
  by (induction terms d ts rule: skip_until.induct) auto

lemma skip_until_progress: "length (skip_until terms d (t # ts)) \<le> length ts"
  using skip_until_length [of terms _ ts] by simp

lemma balanced_from_length: "length (balanced_from d ts) \<le> length ts"
  by (induction d ts rule: balanced_from.induct) auto

lemma skip_balanced_length: "length (skip_balanced ts) \<le> length ts"
  by (simp add: skip_balanced_def balanced_from_length)

lemma skip_balanced_Nil [simp]: "skip_balanced [] = []"
  by (simp add: skip_balanced_def next_is_def)

lemma member_head_length: "length (snd (snd (member_head ns ls ts))) \<le> length ts"
  by (induction ns ls ts rule: member_head.induct) auto

lemma member_head_stop:
  "snd (snd (member_head ns ls ts)) = t # us \<Longrightarrow> tk_value t \<in> {''{'', ''='', '';''}"
  by (induction ns ls ts rule: member_head.induct) (auto split: if_splits)

lemma take_value_length: "length (fst (snd (take_value d ts))) \<le> length ts"
proof (induction ts arbitrary: d)
  case (Cons t ts)
  then show ?case by (cases d) (simp add: Let_def case_prod_unfold le_SucI)
qed simp

lemma take_value_progress: "length (fst (snd (take_value d (t # ts)))) \<le> length ts"
  using take_value_length [of _ ts] by (cases d) (simp add: Let_def case_prod_unfold)

lemma consume_directive_length:
  assumes "directive_start (p_tokens s)"
  shows "length (p_tokens (consume_directive s)) < length (p_tokens s)"
proof -
  obtain t ts where s: "p_tokens s = t # ts"
    using assms by (cases "p_tokens s") (auto simp: directive_start_def next_is_def)
  have "length (tl us) \<le> length us" for us :: "token list" by simp
  note facts = this skip_until_length [THEN le_trans] skip_balanced_length [THEN le_trans] le_imp_less_Suc
  show ?thesis
    unfolding consume_directive_def Let_def case_prod_unfold
    by (auto simp: s with_tokens_def intro!: facts intro: le_trans diff_le_self)
qed

section \<open>The state invariant\<close>

definition paths :: "pstate \<Rightarrow> string set" where
  "paths s = fst ` set (p_nodes s)"

text \<open>
  Node paths are distinct and name their nodes; a parent with children is a node, or the
  root that is yet to come; children are distinct nodes whose path extends the parent's;
  every node can be reached from the root; the root is nobody's child but perhaps its own; and
  as long as no duplicate path was met, no node has two parents.
\<close>

definition nodes_ok :: "(string \<times> dts_node) list \<Rightarrow> bool" where
  "nodes_ok nodes \<longleftrightarrow> distinct (map fst nodes) \<and> (\<forall>(k, nd) \<in> set nodes. nd_path nd = k \<and> nd_children nd = [])"

definition child_edges :: "(string \<times> string list) list \<Rightarrow> (string \<times> string) set" where
  "child_edges ch = {(q, c). c \<in> set (children_of ch q)}"

definition children_ok :: "string set \<Rightarrow> (string \<times> string list) list \<Rightarrow> bool" where
  "children_ok P ch \<longleftrightarrow> distinct (map fst ch) \<and> (\<forall>q \<in> fst ` set ch. q \<in> P \<or> q = ''/'')
     \<and> (\<forall>q. distinct (children_of ch q) \<and> set (children_of ch q) \<subseteq> P
          \<and> (\<forall>c \<in> set (children_of ch q). \<exists>name. c = join_path q name))
     \<and> (\<forall>k \<in> P. (''/'', k) \<in> (child_edges ch)\<^sup>*)
     \<and> (\<forall>q. (q, ''/'') \<in> child_edges ch \<longrightarrow> q = ''/'')"

definition single_parents :: "(string \<times> string) set \<Rightarrow> bool" where
  "single_parents E \<longleftrightarrow> (\<forall>k q q'. k \<noteq> ''/'' \<longrightarrow> (q, k) \<in> E \<longrightarrow> (q', k) \<in> E \<longrightarrow> q = q')"

definition state_ok :: "pstate \<Rightarrow> bool" where
  "state_ok s \<longleftrightarrow> nodes_ok (p_nodes s) \<and> children_ok (paths s) (p_children s) \<and>
     (p_duplicates s = [] \<longrightarrow> single_parents (child_edges (p_children s)))"

lemma state_ok_tokens [simp]: "state_ok (with_tokens ts s) = state_ok s" "paths (with_tokens ts s) = paths s"
  "state_ok (add_issue m s) = state_ok s" "paths (add_issue m s) = paths s"
  "state_ok (s \<lparr> p_issues := is \<rparr>) = state_ok s" "paths (s \<lparr> p_issues := is \<rparr>) = paths s"
  by (simp_all add: state_ok_def paths_def with_tokens_def add_issue_def)

lemma tokens_simps [simp]: "p_tokens (with_tokens ts s) = ts" "p_tokens (add_issue m s) = p_tokens s"
  by (simp_all add: with_tokens_def add_issue_def)

lemma state_ok_directive [simp]: "state_ok (consume_directive s) = state_ok s" "paths (consume_directive s) = paths s"
  by (simp_all add: consume_directive_def Let_def case_prod_unfold)
     (simp_all add: state_ok_def paths_def)

lemma paths_map_of: "map_of (p_nodes s) k = None \<longleftrightarrow> k \<notin> paths s"
  by (simp add: paths_def map_of_eq_None_iff)

lemma children_of_add [simp]:
  "children_of (add_child q path ch) r =
     (if r = q \<and> path \<notin> set (children_of ch q) then children_of ch q @ [path] else children_of ch r)"
  by (simp add: add_child_def children_of_def update_conv')

lemma update_mem: "(k, v) \<in> set (AList.update a b al) \<Longrightarrow> (k, v) \<in> set al \<or> k = a \<and> v = b"
  by (induction al) (auto split: if_splits)

lemma edges_add: "child_edges (add_child q path ch) = insert (q, path) (child_edges ch)"
  by (auto simp: child_edges_def split: if_splits)

lemma join_path_root: "name \<noteq> [] \<Longrightarrow> join_path q name \<noteq> ''/''"
  by (auto simp: join_path_def append_eq_Cons_conv)

lemma children_ok_add:
  assumes "children_ok P ch" "q \<in> P \<or> q = ''/''" "path = join_path q name" "path = ''/'' \<longrightarrow> q = ''/''"
  shows "children_ok (insert path P) (add_child q path ch)"
proof -
  let ?ch = "add_child q path ch"
  note ok = assms(1) [unfolded children_ok_def]
  have "distinct (map fst ?ch)"
    using ok by (simp add: add_child_def distinct_update)
  moreover have "\<forall>r \<in> fst ` set ?ch. r \<in> insert path P \<or> r = ''/''"
    using ok assms(2) by (auto simp: add_child_def dest!: update_mem)
  moreover have "\<forall>r. distinct (children_of ?ch r) \<and> set (children_of ?ch r) \<subseteq> insert path P
      \<and> (\<forall>c \<in> set (children_of ?ch r). \<exists>name. c = join_path r name)"
    using ok assms(3) by auto
  moreover have "\<forall>k \<in> insert path P. (''/'', k) \<in> (child_edges ?ch)\<^sup>*"
  proof -
    have mono: "(child_edges ch)\<^sup>* \<subseteq> (child_edges ?ch)\<^sup>*"
      unfolding edges_add by (rule rtrancl_mono) blast
    have old: "\<forall>k \<in> P. (''/'', k) \<in> (child_edges ch)\<^sup>*" using ok by (elim conjE)
    with assms(2) have "(''/'', q) \<in> (child_edges ch)\<^sup>*" by auto
    with mono have "(''/'', q) \<in> (child_edges ?ch)\<^sup>*" by blast
    moreover have "(q, path) \<in> child_edges ?ch" by (simp add: edges_add)
    ultimately have "(''/'', path) \<in> (child_edges ?ch)\<^sup>*" by (rule rtrancl_into_rtrancl)
    with mono old show ?thesis by blast
  qed
  moreover have "\<forall>r. (r, ''/'') \<in> child_edges ?ch \<longrightarrow> r = ''/''"
    using ok assms(4) unfolding edges_add by blast
  ultimately show ?thesis unfolding children_ok_def by (intro conjI)
qed

lemma single_parents_add:
  assumes "single_parents E" "\<forall>r. (r, path) \<notin> E"
  shows "single_parents (insert (q, path) E)"
  using assms unfolding single_parents_def by blast

lemma add_node_ok:
  assumes "nodes_ok (p_nodes s)"
  shows "nodes_ok (p_nodes (add_node path name labels l bl s))"
    and "paths (add_node path name labels l bl s) = insert path (paths s)"
    and "p_children (add_node path name labels l bl s) = p_children s"
    and "p_tokens (add_node path name labels l bl s) = p_tokens s"
    and "p_duplicates (add_node path name labels l bl s) = [] \<longleftrightarrow> p_duplicates s = [] \<and> path \<notin> paths s"
  using assms paths_map_of [of s path]
  by (auto simp: add_node_def nodes_ok_def paths_def add_issue_def)

text \<open>How the parser enters a node: the root on its own, or below a known node or the root.\<close>

definition enters :: "string option \<Rightarrow> string \<Rightarrow> pstate \<Rightarrow> bool" where
  "enters parent path s \<longleftrightarrow> parent = None \<and> path = ''/'' \<or>
     (\<exists>q name. parent = Some q \<and> (q \<in> paths s \<or> q = ''/'') \<and> path = join_path q name \<and> (path = ''/'' \<longrightarrow> q = ''/''))"

lemma enter_node_ok:
  assumes "state_ok s" "enters parent path s"
  shows "state_ok (enter_node parent path name labels l bl s)"
    and "paths (enter_node parent path name labels l bl s) = insert path (paths s)"
    and "p_tokens (enter_node parent path name labels l bl s) = p_tokens s"
proof -
  have n: "nodes_ok (p_nodes s)" "children_ok (paths s) (p_children s)"
    "p_duplicates s = [] \<Longrightarrow> single_parents (child_edges (p_children s))"
    using assms(1) by (simp_all add: state_ok_def)
  let ?s1 = "add_node path name labels l bl s"
  note a = add_node_ok [OF n(1), of path name labels l bl]
  show "p_tokens (enter_node parent path name labels l bl s) = p_tokens s"
    "paths (enter_node parent path name labels l bl s) = insert path (paths s)"
    using a by (auto simp: enter_node_def Let_def paths_def split: option.splits)
  show "state_ok (enter_node parent path name labels l bl s)"
  proof (cases parent)
    case None
    then have "path = ''/''" using assms(2) by (auto simp: enters_def)
    then have "children_ok (insert path (paths s)) (p_children s)" using n(2) by (auto simp: children_ok_def)
    then show ?thesis using a n(3) None by (simp add: enter_node_def state_ok_def)
  next
    case (Some q)
    then obtain nm where "q \<in> paths s \<or> q = ''/''" "path = join_path q nm" "path = ''/'' \<longrightarrow> q = ''/''"
      using assms(2) by (auto simp: enters_def)
    note ch = children_ok_add [OF n(2) this]
    have "single_parents (child_edges (add_child q path (p_children s)))" if "p_duplicates ?s1 = []"
    proof -
      from that a(5) have new: "p_duplicates s = []" "path \<notin> paths s" by auto
      have "\<forall>r. (r, path) \<notin> child_edges (p_children s)"
        using new(2) n(2) unfolding children_ok_def child_edges_def by blast
      from single_parents_add [OF n(3) [OF new(1)] this] show ?thesis by (simp add: edges_add)
    qed
    with ch a(1-3) Some show ?thesis by (simp add: enter_node_def state_ok_def Let_def paths_def)
  qed
qed

lemma set_property_ok:
  assumes "state_ok s"
  shows "state_ok (set_property path p s) \<and> paths (set_property path p s) = paths s
    \<and> p_tokens (set_property path p s) = p_tokens s"
proof (cases "map_of (p_nodes s) path")
  case (Some nd)
  have k: "fst ` set (AList.update path nd' (p_nodes s)) = paths s" for nd'
    using Some paths_map_of [of s path] by (auto simp: paths_def dom_update [symmetric] dom_map_of_conv_image_fst [symmetric] update_conv')
  have "nd_path nd = path" "nd_children nd = []" using Some assms by (auto simp: state_ok_def nodes_ok_def dest: map_of_SomeD)
  then have "nodes_ok (AList.update path (nd \<lparr> nd_properties := ps \<rparr>) (p_nodes s))" for ps
    using assms by (auto simp: state_ok_def nodes_ok_def distinct_update dest!: update_mem)
  then show ?thesis
    using assms k by (simp add: set_property_def Some state_ok_def paths_def)
qed (use assms in \<open>simp add: set_property_def\<close>)

declare parse_block.simps [code] parse_top.simps [code]

section \<open>Every step keeps the invariant and consumes tokens\<close>

declare member_head.simps [simp del] skip_until.simps [simp del] take_value.simps [simp del]

definition steps_to :: "pstate \<Rightarrow> pstate \<Rightarrow> bool" where
  "steps_to s s' \<longleftrightarrow> state_ok s' \<and> paths s \<subseteq> paths s' \<and> suffix (p_tokens s') (p_tokens s)"

definition consumes :: "pstate \<Rightarrow> pstate \<Rightarrow> bool" where
  "consumes s s' \<longleftrightarrow> steps_to s s' \<and> length (p_tokens s') < length (p_tokens s)"

lemma steps_to_trans: "steps_to s t \<Longrightarrow> steps_to t u \<Longrightarrow> steps_to s u"
  by (auto simp: steps_to_def intro: suffix_order.trans)

lemma consumes_steps: "consumes s t \<Longrightarrow> steps_to t u \<Longrightarrow> consumes s u"
  by (auto simp: consumes_def intro: steps_to_trans) (auto simp: steps_to_def dest!: suffix_length_le)

text \<open>A block is entered behind an opening brace.\<close>

definition enters_block :: "pstate \<Rightarrow> pstate \<Rightarrow> string option \<Rightarrow> bool" where
  "enters_block s s1 c \<longleftrightarrow> (\<forall>child. c = Some child \<longrightarrow> child \<in> paths s1 \<and> braces (p_tokens s1) < braces (p_tokens s))"

lemma head_split:
  obtains names labels rest where "member_head [] [] ts = (names, labels, rest)" "suffix rest ts"
  using member_head_suffix [of "[]" "[]" ts] by (metis prod.collapse)

lemma consumesI:
  assumes "suffix (t # ts) (p_tokens s)" "suffix (p_tokens s') ts" "state_ok s'" "paths s \<subseteq> paths s'"
  shows "consumes s s'"
  using assms suffix_length_le [OF assms(1)] suffix_length_le [OF assms(2)]
  by (auto simp: consumes_def steps_to_def intro: suffix_order.trans suffix_ConsI)

lemma enters_blockI:
  assumes "suffix (t # p_tokens s1) (p_tokens s)" "tk_value t = ''{''" "child \<in> paths s1"
  shows "enters_block s s1 (Some child)"
  using assms suffix_braces [OF assms(1)] by (simp add: enters_block_def)

lemma enters_none [simp]: "enters_block s s1 None"
  by (simp add: enters_block_def)

lemma member_step_ok:
  assumes "state_ok s" "path \<in> paths s" "p_tokens s \<noteq> []"
  shows "\<exists>s1 c. member_step path s = Inr (s1, c) \<and> consumes s s1 \<and> enters_block s s1 c"
proof -
  obtain first ts0 where s: "p_tokens s = first # ts0" using assms(3) by (cases "p_tokens s") auto
  obtain names labels rest where h: "member_head [] [] (p_tokens s) = (names, labels, rest)"
    "suffix rest (p_tokens s)" by (rule head_split)
  have known: "map_of (p_nodes s) path \<noteq> None" using assms(2) paths_map_of [of s path] by simp
  note simps = member_step_def Let_def s h(1) [unfolded s] last_name_def
  show ?thesis
  proof (cases rest)
    case Nil
    then show ?thesis using known assms(1) by (simp add: simps consumes_def steps_to_def)
  next
    case (Cons t ts)
    note cons = consumesI [OF h(2) [unfolded Cons]]
    let ?name = "last_name names []"
    consider "tk_value t = ''{''" | "tk_value t = ''=''" | "tk_value t \<notin> {''{'', ''=''}" by blast
    then show ?thesis
    proof cases
      case 1
      show ?thesis
      proof (cases "?name = []")
        case True
        have "consumes s (with_tokens (skip_balanced ts) (add_issue m s))" for m
          by (rule cons) (simp_all add: assms(1) skip_balanced_suffix)
        then show ?thesis using 1 True known Cons by (auto simp: simps)
      next
        case False
        let ?child = "join_path path ?name" and ?s = "with_tokens ts s"
        have "enters (Some path) ?child ?s"
          using assms(2) join_path_root [OF False, of path] by (auto simp: enters_def)
        note e = enter_node_ok [OF _ this]
        let ?e = "\<lambda>labels l bl. enter_node (Some path) ?child ?name labels l bl ?s"
        have ok: "state_ok ?s" using assms(1) by simp
        have "consumes s (?e labels l bl)" for labels l bl
          by (rule cons) (use e [OF ok] in auto)
        moreover have "enters_block s (?e labels l bl) (Some ?child)" for labels l bl
          by (rule enters_blockI [OF _ 1]) (use e [OF ok] h(2) Cons in auto)
        ultimately show ?thesis using 1 False known Cons by (auto simp: simps)
      qed
    next
      case 2
      obtain vs rest' issues where v: "take_value (0, 0, 0) ts = (vs, rest', issues)" by (metis prod.collapse)
      have suf: "suffix rest' ts" using take_value_suffix [of "(0, 0, 0)" ts] v by simp
      have "consumes s (with_tokens (skip_until ['';''] 0 ts) (add_issue m s))" for m
        by (rule cons) (simp_all add: assms(1) skip_until_suffix)
      moreover have "consumes s (set_property path pr (with_tokens rest' (s \<lparr> p_issues := is \<rparr>)))" for pr "is"
        by (rule cons) (use set_property_ok [of "with_tokens rest' (s \<lparr> p_issues := is \<rparr>)" path pr] assms(1) suf in auto)
      ultimately show ?thesis using 2 known Cons by (auto simp: simps v)
    next
      case 3
      have "consumes s (add_issue m (with_tokens ts s))" for m
        by (rule cons) (simp_all add: assms(1))
      moreover have "consumes s (set_property path pr (with_tokens ts s))" for pr
        by (rule cons) (use set_property_ok [of "with_tokens ts s" path pr] assms(1) in auto)
      ultimately show ?thesis using 3 known Cons by (auto simp: simps)
    qed
  qed
qed

lemma node_step_ok:
  assumes "state_ok s" "p_tokens s \<noteq> []"
  shows "\<exists>s1 c. node_step s = (s1, c) \<and> consumes s s1 \<and> enters_block s s1 c"
proof -
  obtain first ts0 where s: "p_tokens s = first # ts0" using assms(2) by (cases "p_tokens s") auto
  obtain names labels rest where h: "member_head [] [] (p_tokens s) = (names, labels, rest)"
    "suffix rest (p_tokens s)" by (rule head_split)
  note simps = node_step_def Let_def s h(1) [unfolded s]
  show ?thesis
  proof (cases rest)
    case Nil
    then show ?thesis using assms(1) by (simp add: simps consumes_def steps_to_def)
  next
    case (Cons t ts)
    note cons = consumesI [OF h(2) [unfolded Cons]]
    show ?thesis
    proof (cases "tk_value t = ''{''")
      case True
      let ?name = "last_name names ''/''" and ?s = "with_tokens ts s"
      let ?path = "if ?name = ''/'' then ''/'' else join_path ''/'' ?name"
      let ?parent = "if ?name = ''/'' then None else Some ''/''"
      have "enters ?parent ?path ?s" by (auto simp: enters_def)
      note e = enter_node_ok [OF _ this]
      let ?e = "\<lambda>labels l bl. enter_node ?parent ?path ?name labels l bl ?s"
      have ok: "state_ok ?s" using assms(1) by simp
      have "consumes s (?e labels l bl)" for labels l bl
        by (rule cons) (use e [OF ok] in auto)
      moreover have "enters_block s (?e labels l bl) (Some ?path)" for labels l bl
        by (rule enters_blockI [OF _ True]) (use e [OF ok] h(2) Cons in auto)
      ultimately show ?thesis using True Cons by (auto simp: simps)
    next
      case False
      have "suffix (skip_until ['';''] 0 (t # ts)) ts"
        using skip_until_suffix [of "['';'']" _ ts] by (simp add: skip_until.simps)
      then have "consumes s (with_tokens (skip_until ['';''] 0 (t # ts)) (add_issue m s))" for m
        by (intro cons) (simp_all add: assms(1))
      then show ?thesis using False Cons by (auto simp: simps)
    qed
  qed
qed

lemma directive_consumes:
  "state_ok s \<Longrightarrow> directive_start (p_tokens s) \<Longrightarrow> consumes s (consume_directive s)"
  using consume_directive_length [of s] consume_directive_suffix [of s] by (simp add: consumes_def steps_to_def)

lemma tail_consumes: "state_ok s \<Longrightarrow> p_tokens s = t # ts \<Longrightarrow> consumes s (with_tokens ts s)"
  by (rule consumesI [of t ts]) auto

text \<open>The outcomes of a parse: a state, or the recursion limit when there are enough braces.\<close>

definition block_result :: "nat \<Rightarrow> pstate \<Rightarrow> (dts_error, pstate) res option \<Rightarrow> bool" where
  "block_result room s r \<longleftrightarrow> (\<exists>s'. r = Some (Inr s') \<and> steps_to s s') \<or>
     (r = Some (Inl Recursion_Limit) \<and> room \<le> braces (p_tokens s))"

lemma block_result_later:
  assumes "block_result room s1 r" "steps_to s s1"
  shows "block_result room s r"
proof -
  have "braces (p_tokens s1) \<le> braces (p_tokens s)" using assms(2) by (simp add: steps_to_def suffix_braces)
  with assms(1) steps_to_trans [OF assms(2)] show ?thesis unfolding block_result_def by (auto intro: le_trans)
qed

text \<open>Parsing a block always returns, keeps the invariant and raises nothing but the limit.\<close>

lemma parse_block_total:
  "state_ok s \<Longrightarrow> path \<in> paths s \<Longrightarrow> block_result room s (parse_block room path s)"
proof (induction "length (p_tokens s)" arbitrary: room s path rule: less_induct)
  case less
  have again: "block_result rm s (parse_block rm q s1)" if "consumes s s1" "q \<in> paths s1" for rm s1 q
    using that less.hyps [of s1 q rm] block_result_later by (auto simp: consumes_def steps_to_def)
  show ?case
  proof (cases "room = 0")
    case True
    then show ?thesis by (subst parse_block.simps) (simp add: block_result_def)
  next
    case room: False
    show ?thesis
    proof (cases "p_tokens s")
      case Nil
      then show ?thesis using less.prems room by (subst parse_block.simps) (simp add: block_result_def steps_to_def)
    next
      case (Cons t ts)
      consider (close) "tk_value t = ''}''" | (semi) "tk_value t = '';''" | (dir) "tk_value t \<noteq> ''}''" "tk_value t \<noteq> '';''" "directive_start (t # ts)"
        | (member) "tk_value t \<noteq> ''}''" "tk_value t \<noteq> '';''" "\<not> directive_start (t # ts)" by blast
      then show ?thesis
      proof cases
        case close
        have "suffix (if next_is '';'' ts then tl ts else ts) (t # ts)"
          by (auto intro: suffix_ConsI suffix_tl)
        then have "steps_to s (with_tokens (if next_is '';'' ts then tl ts else ts) s)"
          using less.prems Cons by (simp add: steps_to_def)
        then show ?thesis using close Cons room by (subst parse_block.simps) (simp add: block_result_def)
      next
        case semi
        from again [OF tail_consumes [OF less.prems(1) Cons]] less.prems semi Cons room show ?thesis
          by (subst parse_block.simps) simp
      next
        case dir
        from again [OF directive_consumes [OF less.prems(1)]] less.prems dir Cons room show ?thesis
          by (subst parse_block.simps) simp
      next
        case member
        obtain s1 c where m: "member_step path s = Inr (s1, c)" "consumes s s1" "enters_block s s1 c"
          using member_step_ok less.prems Cons by (metis list.distinct(1))
        have p1: "path \<in> paths s1" using m(2) less.prems(2) by (auto simp: consumes_def steps_to_def)
        show ?thesis
        proof (cases c)
          case None
          from again [OF m(2) p1] show ?thesis
            using member Cons m(1) None room by (subst parse_block.simps) simp
        next
          case (Some child)
          have lt: "length (p_tokens s1) < length (p_tokens s)" and ok1: "state_ok s1"
            and child: "child \<in> paths s1" "braces (p_tokens s1) < braces (p_tokens s)"
            using m(2,3) Some by (auto simp: consumes_def steps_to_def enters_block_def)
          from less.hyps [OF lt ok1 child(1), of "room - 1"] consider
            s2 where "parse_block (room - 1) child s1 = Some (Inr s2)" "steps_to s1 s2"
            | "parse_block (room - 1) child s1 = Some (Inl Recursion_Limit)" "room - 1 \<le> braces (p_tokens s1)"
            by (auto simp: block_result_def)
          then show ?thesis
          proof cases
            case 1
            have "consumes s s2" "path \<in> paths s2"
              using consumes_steps [OF m(2) 1(2)] 1(2) p1 by (auto simp: steps_to_def)
            from again [OF this] show ?thesis
              using member Cons m(1) Some 1(1) room by (subst parse_block.simps) simp
          next
            case 2
            then have "room \<le> braces (p_tokens s)" using child(2) by simp
            then show ?thesis
              using member Cons m(1) Some 2(1) room by (subst parse_block.simps) (simp add: block_result_def)
          qed
        qed
      qed
    qed
  qed
qed

lemma after_node_consumes: "consumes s s1 \<Longrightarrow> consumes s (after_node s1)"
  by (auto simp: after_node_def consumes_def steps_to_def split: list.splits)

lemma parse_top_total: "state_ok s \<Longrightarrow> block_result room s (parse_top room s)"
proof (induction "length (p_tokens s)" arbitrary: s rule: less_induct)
  case less
  have again: "block_result room s (parse_top room s1)" if "consumes s s1" for s1
    using that less.hyps [of s1] block_result_later by (auto simp: consumes_def steps_to_def)
  show ?case
  proof (cases "p_tokens s")
    case Nil
    then show ?thesis using less.prems by (subst parse_top.simps) (simp add: block_result_def steps_to_def)
  next
    case (Cons t ts)
    consider (semi) "tk_value t = '';''" | (dir) "tk_value t \<noteq> '';''" "directive_start (t # ts)"
      | (nd) "tk_value t \<noteq> '';''" "\<not> directive_start (t # ts)" by blast
    then show ?thesis
    proof cases
      case semi
      from again [OF tail_consumes [OF less.prems Cons]] semi Cons show ?thesis by (subst parse_top.simps) simp
    next
      case dir
      from again [OF directive_consumes [OF less.prems]] dir Cons show ?thesis by (subst parse_top.simps) simp
    next
      case nd
      obtain s1 c where m: "node_step s = (s1, c)" "consumes s s1" "enters_block s s1 c"
        using node_step_ok [OF less.prems] Cons by auto
      show ?thesis
      proof (cases c)
        case None
        from again [OF after_node_consumes [OF m(2)]] show ?thesis
          using nd Cons m(1) None by (subst parse_top.simps) simp
      next
        case (Some child)
        have "state_ok s1" "child \<in> paths s1" and braces: "braces (p_tokens s1) < braces (p_tokens s)"
          using m Some by (auto simp: consumes_def steps_to_def enters_block_def)
        from parse_block_total [OF this(1,2), of room] consider
          s2 where "parse_block room child s1 = Some (Inr s2)" "steps_to s1 s2"
          | "parse_block room child s1 = Some (Inl Recursion_Limit)" "room \<le> braces (p_tokens s1)"
          by (auto simp: block_result_def)
        then show ?thesis
        proof cases
          case 1
          from again [OF after_node_consumes [OF consumes_steps [OF m(2) 1(2)]]] show ?thesis
            using nd Cons m(1) Some 1(1) by (subst parse_top.simps) simp
        next
          case 2
          then show ?thesis
            using nd Cons m(1) Some 2 braces by (subst parse_top.simps) (simp add: block_result_def)
        qed
      qed
    qed
  qed
qed

end
