(* ===== verification/Dts_Tree.thy ===== *)
theory Dts_Tree
  imports Dts_Parser
begin

text \<open>
  The tree that \<open>tools/dts_semantic_diff.py\<close> builds at the end of parsing: that parsing
  always returns, which errors are left, and what every returned tree satisfies.
\<close>

section \<open>The tree\<close>

lemma set_children_ok:
  assumes "distinct (map fst nodes)" "distinct (map fst ch)" "fst ` set ch \<subseteq> fst ` set nodes"
  shows "\<exists>nodes'. foldR set_children ch nodes = Inr nodes' \<and> map fst nodes' = map fst nodes
    \<and> (\<forall>k. map_of nodes' k = map_option (\<lambda>nd. if k \<in> fst ` set ch then nd \<lparr> nd_children := sort (children_of ch k) \<rparr>
          else nd) (map_of nodes k))"
  using assms
proof (induction ch arbitrary: nodes)
  case Nil
  then show ?case by (simp add: option.map_ident)
next
  case (Cons pc ch)
  obtain q cs where pc: "pc = (q, cs)" by (cases pc)
  obtain nd where nd: "map_of nodes q = Some nd"
    using Cons.prems(3) by (metis pc fst_conv image_insert insert_subset list.simps(15) map_of_eq_None_iff not_None_eq)
  define nodes1 where "nodes1 = AList.update q (nd \<lparr> nd_children := sort cs \<rparr>) nodes"
  have keys: "map fst nodes1 = map fst nodes"
    using nd by (simp add: nodes1_def update_keys) (metis map_of_eq_None_iff option.distinct(1) list.set_map)
  then have "distinct (map fst nodes1)" "fst ` set nodes1 = fst ` set nodes"
    using Cons.prems(1) by (simp, metis list.set_map)
  then obtain nodes' where n: "foldR set_children ch nodes1 = Inr nodes'" "map fst nodes' = map fst nodes1"
    "\<And>k. map_of nodes' k = map_option (\<lambda>nd. if k \<in> fst ` set ch then nd \<lparr> nd_children := sort (children_of ch k) \<rparr>
          else nd) (map_of nodes1 k)"
    using Cons.IH [of nodes1] Cons.prems(2,3) by auto
  have "q \<notin> fst ` set ch" using Cons.prems(2) by (simp add: pc)
  then have "map_of nodes' k = map_option (\<lambda>nd. if k \<in> fst ` set (pc # ch)
      then nd \<lparr> nd_children := sort (children_of (pc # ch) k) \<rparr> else nd) (map_of nodes k)" for k
    using nd by (cases "k = q") (auto simp: n(3) nodes1_def update_conv' pc children_of_def intro: map_option_cong)
  moreover have "set_children pc nodes = Inr nodes1" using nd by (simp add: pc set_children_def nodes1_def)
  ultimately show ?case
    using n(1,2) keys by (intro exI [of _ nodes']) simp
qed

lemma set_children_error:
  assumes "\<not> fst ` set ch \<subseteq> fst ` set nodes"
  shows "\<exists>q \<in> fst ` set ch - fst ` set nodes. foldR set_children ch nodes = Inl (Node_Key_Error q)"
  using assms
proof (induction ch arbitrary: nodes)
  case (Cons pc ch)
  obtain q cs where pc: "pc = (q, cs)" by (cases pc)
  show ?case
  proof (cases "map_of nodes q")
    case None
    then have "q \<in> fst ` set (pc # ch) - fst ` set nodes" by (simp add: pc map_of_eq_None_iff)
    moreover have "foldR set_children (pc # ch) nodes = Inl (Node_Key_Error q)"
      using None by (simp add: pc set_children_def)
    ultimately show ?thesis ..
  next
    case (Some nd)
    define nodes1 where "nodes1 = AList.update q (nd \<lparr> nd_children := sort cs \<rparr>) nodes"
    have k: "fst ` set nodes1 = fst ` set nodes"
      using Some by (auto simp: nodes1_def dom_map_of_conv_image_fst [symmetric] update_conv')
    moreover have "q \<in> fst ` set nodes" using Some by (metis map_of_eq_None_iff option.distinct(1))
    ultimately have "\<not> fst ` set ch \<subseteq> fst ` set nodes1" using Cons.prems by (simp add: pc)
    from Cons.IH [OF this] obtain p where p: "p \<in> fst ` set ch - fst ` set nodes"
      "foldR set_children ch nodes1 = Inl (Node_Key_Error p)" unfolding k ..
    then have "foldR set_children (pc # ch) nodes = Inl (Node_Key_Error p)"
      using Some by (simp add: pc set_children_def nodes1_def)
    moreover have "p \<in> fst ` set (pc # ch) - fst ` set nodes" using p(1) by simp
    ultimately show ?thesis ..
  qed
qed simp

definition node_number :: "(string \<times> dts_node) list \<Rightarrow> string \<Rightarrow> int \<Rightarrow> bool" where
  "node_number nodes path v \<longleftrightarrow> (\<exists>nd name p. map_of nodes path = Some nd \<and> name \<in> set phandle_names
     \<and> map_of (nd_properties nd) name = Some p \<and> \<not> pr_boolean p \<and> direct_numbers p = [v])"

lemma collect_labels_sound:
  assumes "(l, p) \<in> set (fst (collect_labels nodes))"
  shows "\<exists>nd. map_of nodes p = Some nd \<and> l \<in> set (nd_labels nd)"
proof -
  define Q where "Q = (\<lambda>acc :: (string \<times> string) list \<times> string list \<times> string list.
    \<forall>(l, p) \<in> set (fst acc). l \<in> set (node_labels nodes p))"
  have one: "Q (add_label path l acc)" if "Q acc" "l \<in> set (node_labels nodes path)" for path l acc
    using that by (auto simp: Q_def add_label_def split: option.splits prod.splits dest!: update_mem)
  have row: "Q (fold (add_label path) (node_labels nodes path) acc)" if "Q acc" for path acc
    by (rule fold_invariant [where Q = "\<lambda>l. l \<in> set (node_labels nodes path)"]) (use that one in auto)
  have "Q (collect_labels nodes)"
    unfolding collect_labels_def
    by (rule fold_invariant [where Q = "\<lambda>_. True" and P = Q]) (use row in \<open>simp_all add: Q_def\<close>)
  with assms have "l \<in> set (node_labels nodes p)" by (auto simp: Q_def)
  then show ?thesis by (cases "map_of nodes p") (simp_all add: node_labels_def)
qed

lemma collect_phandles_sound:
  assumes "(v, p) \<in> set (fst (collect_phandles nodes))"
  shows "node_number nodes p v"
proof -
  define Q where "Q = (\<lambda>acc :: (int \<times> string) list \<times> string list. \<forall>(v, p) \<in> set (fst acc). node_number nodes p v)"
  have one: "Q (add_phandle nodes path name acc)" if "Q acc" "name \<in> set phandle_names" for path name acc
    using that
    by (auto simp: Q_def add_phandle_def node_number_def split: option.splits prod.splits list.splits dest!: update_mem)
  have row: "Q (fold (add_phandle nodes path) phandle_names acc)" if "Q acc" for path acc
    by (rule fold_invariant [where Q = "\<lambda>n. n \<in> set phandle_names"]) (use that one in auto)
  have "Q (collect_phandles nodes)"
    unfolding collect_phandles_def
    by (rule fold_invariant [where Q = "\<lambda>_. True" and P = Q]) (use row in \<open>simp_all add: Q_def\<close>)
  with assms show ?thesis by (auto simp: Q_def)
qed

text \<open>
  What a returned tree satisfies. Nodes stand under their own, distinct paths; children are
  sorted, distinct, present and extend the path of the parent; every node can be reached from
  the root; the root is nobody's child but perhaps its own; if no duplicate path was reported,
  no other node has two parents; labels and phandles name nodes that carry them.
\<close>

definition child_of :: "dts_tree \<Rightarrow> (string \<times> string) set" where
  "child_of t = {(q, c). \<exists>nd. (q, nd) \<in> set (dt_nodes t) \<and> c \<in> set (nd_children nd)}"

definition tree_ok :: "dts_tree \<Rightarrow> bool" where
  "tree_ok t \<longleftrightarrow> distinct (map fst (dt_nodes t))
     \<and> (\<forall>(k, nd) \<in> set (dt_nodes t). nd_path nd = k \<and> sorted (nd_children nd) \<and> distinct (nd_children nd)
          \<and> (\<forall>c \<in> set (nd_children nd). c \<in> fst ` set (dt_nodes t) \<and> (\<exists>name. c = join_path k name)))
     \<and> (\<forall>k \<in> fst ` set (dt_nodes t). (''/'', k) \<in> (child_of t)\<^sup>*)
     \<and> (\<forall>q. (q, ''/'') \<in> child_of t \<longrightarrow> q = ''/'')
     \<and> (dt_duplicate_paths t = [] \<longrightarrow> single_parents (child_of t))
     \<and> (\<forall>(l, p) \<in> set (dt_labels t). \<exists>nd. (p, nd) \<in> set (dt_nodes t) \<and> l \<in> set (nd_labels nd))
     \<and> (\<forall>(v, p) \<in> set (dt_phandles t). node_number (dt_nodes t) p v)"

lemma finish_tree_ok:
  assumes "state_ok s" "finish_tree source s = Inr t"
  shows "tree_ok t"
proof -
  note inv = assms(1) [unfolded state_ok_def nodes_ok_def children_ok_def]
  obtain nodes where fold: "foldR set_children (p_children s) (p_nodes s) = Inr nodes"
    and t: "dt_nodes t = nodes" "dt_labels t = fst (collect_labels (p_nodes s))"
    "dt_phandles t = fst (collect_phandles (p_nodes s))" "dt_duplicate_paths t = sort (p_duplicates s)"
    using assms(2) by (auto simp: finish_tree_def Let_def case_prod_unfold bindR_Inr_iff)
  have sub: "fst ` set (p_children s) \<subseteq> fst ` set (p_nodes s)"
    using set_children_error [of "p_children s" "p_nodes s"] fold by auto
  have dn: "distinct (map fst (p_nodes s))" and dc: "distinct (map fst (p_children s))" using inv by auto
  obtain nodes' where n: "foldR set_children (p_children s) (p_nodes s) = Inr nodes'"
    "map fst nodes' = map fst (p_nodes s)"
    "\<And>k. map_of nodes' k = map_option (\<lambda>nd. if k \<in> fst ` set (p_children s)
        then nd \<lparr> nd_children := sort (children_of (p_children s) k) \<rparr> else nd) (map_of (p_nodes s) k)"
    using set_children_ok [OF dn dc sub] by blast
  have keys: "map fst nodes = map fst (p_nodes s)" "fst ` set nodes = paths s"
    using n(1,2) fold by (simp, metis Inr_inject list.set_map paths_def)
  have rel: "\<exists>nd0. map_of (p_nodes s) k = Some nd0 \<and> nd = nd0 \<lparr> nd_children := sort (children_of (p_children s) k) \<rparr>"
    if "(k, nd) \<in> set nodes" for k nd
  proof -
    have "map_of nodes k = Some nd" using that keys(1) dn by simp
    then obtain nd0 where nd0: "map_of (p_nodes s) k = Some nd0"
      "nd = (if k \<in> fst ` set (p_children s) then nd0 \<lparr> nd_children := sort (children_of (p_children s) k) \<rparr> else nd0)"
      using n(1,3) fold by auto
    have "nd_children nd0 = []" using nd0(1) inv by (auto dest: map_of_SomeD)
    moreover have "children_of (p_children s) k = []" if "k \<notin> fst ` set (p_children s)"
      using that by (simp add: children_of_def map_of_eq_None_iff [THEN iffD2])
    ultimately show ?thesis using nd0 by auto
  qed
  have present: "(k, nd0 \<lparr> nd_children := sort (children_of (p_children s) k) \<rparr>) \<in> set nodes"
    if "map_of (p_nodes s) k = Some nd0" for k nd0
  proof -
    have "k \<in> fst ` set nodes" using that keys by (metis map_of_eq_None_iff option.distinct(1) paths_def)
    then obtain nd where "(k, nd) \<in> set nodes" by auto
    with rel [OF this] that show ?thesis by auto
  qed
  have "nd_path nd = k \<and> sorted (nd_children nd) \<and> distinct (nd_children nd)
      \<and> (\<forall>c \<in> set (nd_children nd). c \<in> fst ` set nodes \<and> (\<exists>name. c = join_path k name))"
    if "(k, nd) \<in> set nodes" for k nd
  proof -
    obtain nd0 where nd0: "map_of (p_nodes s) k = Some nd0" "nd = nd0 \<lparr> nd_children := sort (children_of (p_children s) k) \<rparr>"
      using rel [OF \<open>(k, nd) \<in> set nodes\<close>] by blast
    have "nd_path nd0 = k" using nd0(1) inv by (auto dest: map_of_SomeD)
    moreover have "distinct (children_of (p_children s) k)" "set (children_of (p_children s) k) \<subseteq> paths s"
      "\<forall>c \<in> set (children_of (p_children s) k). \<exists>name. c = join_path k name"
      using inv by blast+
    ultimately show ?thesis using nd0(2) keys(2) by auto
  qed
  moreover have edges: "child_of t = child_edges (p_children s)"
  proof -
    have "c \<in> set (children_of (p_children s) q)" if "(q, nd) \<in> set nodes" "c \<in> set (nd_children nd)" for q nd c
      using rel [OF that(1)] that(2) by auto
    moreover have "\<exists>nd. (q, nd) \<in> set nodes \<and> c \<in> set (nd_children nd)"
      if q: "c \<in> set (children_of (p_children s) q)" for q c
    proof -
      from q have "q \<in> fst ` set (p_children s)"
        by (cases "map_of (p_children s) q") (auto simp: children_of_def map_of_eq_None_iff dest: map_of_SomeD intro: rev_image_eqI)
      then obtain nd0 where "map_of (p_nodes s) q = Some nd0"
        using sub by (metis map_of_eq_None_iff not_None_eq subsetD)
      from present [OF this] q show ?thesis by force
    qed
    ultimately show ?thesis unfolding child_of_def child_edges_def t by blast
  qed
  moreover have "(''/'', k) \<in> (child_of t)\<^sup>*" if "k \<in> fst ` set nodes" for k
    using that inv unfolding edges keys(2) by blast
  moreover have "\<forall>q. (q, ''/'') \<in> child_of t \<longrightarrow> q = ''/''" using inv unfolding edges by blast
  moreover have "dt_duplicate_paths t = [] \<longrightarrow> single_parents (child_of t)"
    using assms(1) unfolding edges t state_ok_def by (metis length_0_conv length_sort)
  moreover have "\<exists>nd. (p, nd) \<in> set nodes \<and> l \<in> set (nd_labels nd)" if "(l, p) \<in> set (dt_labels t)" for l p
    using collect_labels_sound [of l p "p_nodes s"] that present unfolding t by fastforce
  moreover have "node_number nodes p v" if "(v, p) \<in> set (dt_phandles t)" for v p
  proof -
    obtain nd0 name q where q: "map_of (p_nodes s) p = Some nd0" "name \<in> set phandle_names"
      "map_of (nd_properties nd0) name = Some q" "\<not> pr_boolean q" "direct_numbers q = [v]"
      using collect_phandles_sound [of v p "p_nodes s"] \<open>(v, p) \<in> set (dt_phandles t)\<close>
      unfolding t node_number_def by blast
    have "map_of nodes p = Some (nd0 \<lparr> nd_children := sort (children_of (p_children s) p) \<rparr>)"
      using present [OF q(1)] keys(1) dn by simp
    then show ?thesis using q(2-5) by (auto simp: node_number_def)
  qed
  ultimately show ?thesis
    unfolding tree_ok_def t using keys(1) dn by auto
qed

lemma initial_ok: "state_ok (initial_state ts)"
  by (simp add: state_ok_def nodes_ok_def children_ok_def initial_state_def paths_def children_of_def child_edges_def
      single_parents_def)

lemma parse_dts_cases:
  obtains e where "dts_scan 1 text = Inl e" "parse_dts room source text = Some (Inl e)"
  | ts where "dts_scan 1 text = Inr ts" "parse_dts room source text = Some (Inl Recursion_Limit)" "room \<le> braces ts"
  | ts s where "dts_scan 1 text = Inr ts" "parse_top room (initial_state ts) = Some (Inr s)" "state_ok s"
      "parse_dts room source text = Some (finish_tree source s)"
proof (cases "dts_scan 1 text")
  case (Inr ts)
  from parse_top_total [OF initial_ok, of room ts] consider
    s where "parse_top room (initial_state ts) = Some (Inr s)" "state_ok s"
    | "parse_top room (initial_state ts) = Some (Inl Recursion_Limit)" "room \<le> braces ts"
    by (auto simp: block_result_def steps_to_def initial_state_def)
  then show thesis
    by cases (use Inr that(2,3) in \<open>simp_all add: parse_dts_def\<close>)
qed (use that(1) in \<open>simp add: parse_dts_def\<close>)

lemma scan_error: "dts_scan l s = Inl e \<Longrightarrow> (\<exists>n. e = Unterminated_Comment n) \<or> (\<exists>n. e = Unterminated_String n)"
  by (induction l s rule: dts_scan.induct)
     (auto simp: dts_scan.simps(2) bindR_Inl_iff Let_def split: if_splits list.splits option.splits)

text \<open>
  Claim C35. The parser always returns, whatever the text: the recursion of blocks and
  members and every recovery loop consume tokens. It returns a tree, or one of four
  errors: an unterminated comment, an unterminated string, a \<open>KeyError\<close> for the missing root
  node, or a \<open>RecursionError\<close>, and this one only when the text has at least as many opening
  braces as the interpreter's stack has room for nested blocks. The tool catches only the
  first two.
\<close>
theorem parse_dts_total:
  "\<exists>r. parse_dts room source text = Some r \<and> ((\<exists>t. r = Inr t)
     \<or> (\<exists>n. r = Inl (Unterminated_Comment n)) \<or> (\<exists>n. r = Inl (Unterminated_String n))
     \<or> r = Inl (Node_Key_Error ''/'')
     \<or> r = Inl Recursion_Limit \<and> (\<exists>ts. dts_scan 1 text = Inr ts \<and> room \<le> braces ts))"
proof (cases rule: parse_dts_cases [of "text" room source])
  case (1 e)
  then show ?thesis using scan_error [OF 1(1)] by auto
next
  case (2 ts)
  then show ?thesis by blast
next
  case (3 ts s)
  show ?thesis
  proof (cases "fst ` set (p_children s) \<subseteq> fst ` set (p_nodes s)")
    case True
    moreover have "distinct (map fst (p_nodes s))" "distinct (map fst (p_children s))"
      using 3(3) by (auto simp: state_ok_def nodes_ok_def children_ok_def)
    ultimately show ?thesis
      using set_children_ok [of "p_nodes s" "p_children s"] 3(4)
      by (auto simp: finish_tree_def Let_def case_prod_unfold)
  next
    case False
    then obtain q where q: "q \<in> fst ` set (p_children s) - fst ` set (p_nodes s)"
      "foldR set_children (p_children s) (p_nodes s) = Inl (Node_Key_Error q)"
      using set_children_error by blast
    then have "q = ''/''" using 3(3) by (auto simp: state_ok_def children_ok_def paths_def)
    then show ?thesis using 3(4) q(2) by (simp add: finish_tree_def Let_def case_prod_unfold)
  qed
qed

text \<open>
  Claim C34. What every returned tree satisfies, after any recovery: node paths are distinct
  and are those of the nodes; children are sorted, distinct, present, and extend their
  parent's path; every node can be reached from the root by child edges, and the root is a
  child of no other node; if no duplicate path was reported, every other node has a single
  parent, so that the nodes form a tree but for a root that can be its own child; a label
  names a node that carries it, and a phandle a node whose phandle property is that single
  number.
\<close>
theorem parse_dts_tree_ok:
  assumes "parse_dts room source text = Some (Inr t)"
  shows "tree_ok t"
  using assms finish_tree_ok by (cases rule: parse_dts_cases [of "text" room source]) auto

section \<open>Samples\<close>

definition sample_tree :: dts_tree where
  "sample_tree =
     \<lparr> dt_source = ''a'',
       dt_nodes = [(''/'', \<lparr> nd_path = ''/'', nd_name = ''/'', nd_labels = [],
         nd_properties = [(''a'', \<lparr> pr_name = ''a'', pr_parts = [String_List [''x'']], pr_boolean = False, pr_line = 1 \<rparr>),
                          (''b'', \<lparr> pr_name = ''b'', pr_parts = [], pr_boolean = True, pr_line = 1 \<rparr>)],
         nd_children = [], nd_line = 1 \<rparr>)],
       dt_phandles = [], dt_labels = [], dt_issues = [], dt_unsupported = [], dt_duplicate_paths = [],
       dt_duplicate_labels = [] \<rparr>"

lemma sample_parses: "parse_dts 400 ''a'' sample_dts = Some (Inr sample_tree)"
  by code_simp

text \<open>A file of overlay fragments, without a root node, stops the tool with a \<open>KeyError\<close>.\<close>

lemma rootless_raises: "parse_dts 400 ''a'' ''foo { };'' = Some (Inl (Node_Key_Error ''/''))"
  by code_simp

text \<open>A string that is one punctuation character is taken for punctuation: the value of \<open>a\<close>
  is empty and the parser reports nothing but an unnamed property.\<close>

lemma punctuation_string_misread:
  "map_option (map_sum id (\<lambda>t. (map (pr_parts \<circ> snd) (nd_properties (snd (hd (dt_nodes t)))), dt_issues t)))
     (parse_dts 400 ''a'' (''/ { a = '' @ quote_dts '';'' @ ''; };'')) = Some (Inr ([[]], []))"
  by code_simp

text \<open>
  Names that contain the separator make shapes that are no trees, and then a duplicate path is
  reported: \<open>//\<close> is its own child, or \<open>/a\<close> a child of two nodes. An empty name makes the root
  its own child without a report.
\<close>

lemma slash_names:
  "map_option (map_sum id (\<lambda>t. (map (\<lambda>(k, nd). (k, nd_children nd)) (dt_nodes t), dt_duplicate_paths t)))
     (parse_dts 400 ''a'' ''/ { / { / { }; }; };'') = Some (Inr ([(''/'', [''//'']), (''//'', [''//''])], [''//'']))"
  "map_option (map_sum id (\<lambda>t. (map (\<lambda>(k, nd). (k, nd_children nd)) (dt_nodes t), dt_duplicate_paths t)))
     (parse_dts 400 ''a'' ''/ { / { a { }; }; a { }; };'')
     = Some (Inr ([(''/'', [''//'', ''/a'']), (''//'', [''/a'']), (''/a'', [])], [''/a'']))"
  "map_option (map_sum id (\<lambda>t. (map (\<lambda>(k, nd). (k, nd_children nd)) (dt_nodes t), dt_duplicate_paths t, dt_issues t)))
     (parse_dts 400 ''a'' (quote_dts [] @ '' { };'')) = Some (Inr ([(''/'', [''/''])], [], []))"
  by code_simp+

text \<open>More nested blocks than the stack has room for raise \<open>RecursionError\<close>.\<close>

lemma deep_nesting_raises:
  "parse_dts 2 ''a'' ''/ { b { c { }; }; };'' = Some (Inl Recursion_Limit)"
  "parse_dts 3 ''a'' ''/ { b { c { }; }; };'' \<noteq> Some (Inl Recursion_Limit)"
  by code_simp+

theorem parse_dts_tree_ok_witness: "tree_ok sample_tree"
  by (rule parse_dts_tree_ok [OF sample_parses])

end
