(* ===== verification/Dts_Compare.thy ===== *)
theory Dts_Compare
  imports Dts_Tree "HOL-Library.Product_Lexorder" "HOL-Library.Multiset"
begin

text \<open>
  \<open>tools/dts_semantic_diff.py\<close>, the comparison: canonical property values with references
  mapped to paths, the differences of two trees, and the status of the result.
\<close>

section \<open>Reference properties\<close>

definition pure_ref_properties :: "string list" where
  "pure_ref_properties =
     [''target'', ''interrupt-parent'', ''memory-region'', ''nvmem-cells'', ''operating-points-v2'',
      ''remote-endpoint'', ''backlight'', ''panel'', ''sound-dai'', ''link'', ''links'', ''ref'', ''refs'']"

definition provider_properties :: "string list" where
  "provider_properties =
     [''gpios'', ''gpio'', ''clocks'', ''resets'', ''phys'', ''dmas'', ''iommus'', ''mboxes'', ''pwms'',
      ''io-channels'', ''power-domains'']"

text \<open>\<open>_REF_PROPERTY_RE.search\<close>.\<close>

definition ref_property_re :: "string \<Rightarrow> bool" where
  "ref_property_re name =
     ((starts_with name ''pinctrl''
        \<and> (starts_with (drop 7 name) ''-'' \<or> drop 7 name = [] \<or> drop 7 name = [newline]))
      \<or> (\<exists>v \<in> set [name, chop_newline name].
          \<exists>w \<in> set [''supply'', ''gpio'', ''gpios'', ''reset-gpios'', ''power-domain'', ''domain'', ''domains''].
            v = w \<or> ends_with v (''-'' @ w) \<or> ends_with v ('','' @ w)))"

definition looks_like_ref_property :: "string \<Rightarrow> bool" where
  "looks_like_ref_property name =
     (name \<in> set pure_ref_properties \<or> starts_with name ''pinctrl-'' \<or> name \<in> set provider_properties
      \<or> (\<exists>suf \<in> set [''-supply'', ''-gpio'', ''-gpios'', ''-reset-gpios'', ''-power-domain''].
           ends_with name suf)
      \<or> ref_property_re name)"

definition numeric_ref_position :: "string \<Rightarrow> nat \<Rightarrow> bool" where
  "numeric_ref_position name index =
     (name \<in> set pure_ref_properties \<or> starts_with name ''pinctrl-''
      \<or> (index = 0 \<and> name \<in> set provider_properties))"

section \<open>Canonical values\<close>

datatype canon_cell =
    C_Ref string
  | C_Unresolved string
  | C_Null
  | C_Number int
  | C_Raw string

datatype canon_part =
    K_Boolean
  | K_Cells "canon_cell list"
  | K_Strings "string list"
  | K_Bytes "string list"
  | K_Raw "string list"

definition normalise_label :: "dts_tree \<Rightarrow> string \<Rightarrow> canon_cell" where
  "normalise_label t label =
     (case map_of (dt_labels t) label of Some path \<Rightarrow> C_Ref path | None \<Rightarrow> C_Unresolved ''external'')"

definition is_ref_name :: "atom \<Rightarrow> bool" where
  "is_ref_name a = (case a of Ref_Name _ \<Rightarrow> True | _ \<Rightarrow> False)"

text \<open>One cell and the diagnostics it appends to \<open>unresolved\<close>. \<open>peer_explicit\<close> says whether
  the peer's cell at the same index is a label reference.\<close>

definition canon_cell_of ::
    "dts_tree \<Rightarrow> string \<Rightarrow> bool \<Rightarrow> (nat \<Rightarrow> bool) \<Rightarrow> nat \<Rightarrow> atom \<Rightarrow> canon_cell \<times> string list" where
  "canon_cell_of t name use_ref_context peer_explicit index a =
     (case a of
        Ref_Name label \<Rightarrow>
          (case normalise_label t label of
             C_Ref path \<Rightarrow> (C_Ref path, [])
           | c \<Rightarrow> (c, [dt_source t @ '': unresolved &'' @ label @ '' in '' @ name]))
      | Number number \<Rightarrow>
          (let path = map_of (dt_phandles t) number; explicit_peer = peer_explicit index
           in if path \<noteq> None \<and> use_ref_context \<and> (explicit_peer \<or> numeric_ref_position name index)
              then (C_Ref (the path), [])
              else if number = 0 \<and> use_ref_context \<and> (explicit_peer \<or> numeric_ref_position name index)
              then (C_Null, [])
              else if number = 0xFFFFFFFF \<and> use_ref_context
              then (C_Unresolved ''external'',
                    [dt_source t @ '': external phandle sentinel in '' @ name])
              else if explicit_peer \<and> path = None
              then (C_Unresolved (''0x'' @ fmt_hex_int 0 number),
                    [dt_source t @ '': numeric reference 0x'' @ fmt_hex_int 0 number
                       @ '' not defined locally in '' @ name])
              else (C_Number number, []))
      | Unresolved_Ref v \<Rightarrow> (C_Unresolved v, [])
      | Raw_Atom v \<Rightarrow> (C_Raw v, []))"

fun canon_cells ::
    "(nat \<Rightarrow> atom \<Rightarrow> canon_cell \<times> string list) \<Rightarrow> nat \<Rightarrow> atom list \<Rightarrow> canon_cell list \<times> string list" where
  "canon_cells f index [] = ([], [])"
| "canon_cells f index (a # atoms) =
     (let (c, m) = f index a; (cs, ms) = canon_cells f (Suc index) atoms in (c # cs, m @ ms))"

fun canon_parts ::
    "(nat \<Rightarrow> atom \<Rightarrow> canon_cell \<times> string list) \<Rightarrow> nat \<Rightarrow> value_part list \<Rightarrow> canon_part list \<times> string list" where
  "canon_parts f index [] = ([], [])"
| "canon_parts f index (part # parts) =
     (case part of
        Cells atoms \<Rightarrow>
          (let (cs, m) = canon_cells f index atoms; (ps, ms) = canon_parts f (index + length atoms) parts
           in (K_Cells cs # ps, m @ ms))
      | String_List ss \<Rightarrow> (let (ps, ms) = canon_parts f index parts in (K_Strings ss # ps, ms))
      | Byte_List bs \<Rightarrow> (let (ps, ms) = canon_parts f index parts in (K_Bytes (map py_lower bs) # ps, ms))
      | Raw_Part rs \<Rightarrow> (let (ps, ms) = canon_parts f index parts in (K_Raw rs # ps, ms)))"

definition is_cells :: "canon_part \<Rightarrow> bool" where
  "is_cells p = (case p of K_Cells _ \<Rightarrow> True | _ \<Rightarrow> False)"

definition cells_in :: "canon_part list \<Rightarrow> canon_cell list" where
  "cells_in ps = concat (map (\<lambda>p. case p of K_Cells cs \<Rightarrow> cs | _ \<Rightarrow> []) ps)"

definition flatten_parts :: "canon_part list \<Rightarrow> canon_part list" where
  "flatten_parts ps = (if cells_in ps \<noteq> [] \<and> list_all is_cells ps then [K_Cells (cells_in ps)] else ps)"

definition explicit_at :: "dts_property option \<Rightarrow> nat \<Rightarrow> bool" where
  "explicit_at peer i =
     (let atoms = (case peer of None \<Rightarrow> [] | Some q \<Rightarrow> flatten_cells q) in i < length atoms \<and> is_ref_name (atoms ! i))"

definition has_explicit_ref :: "dts_property option \<Rightarrow> bool" where
  "has_explicit_ref peer = (case peer of None \<Rightarrow> False | Some q \<Rightarrow> list_ex is_ref_name (flatten_cells q))"

definition canonical_property ::
    "dts_tree \<Rightarrow> dts_property \<Rightarrow> dts_property option \<Rightarrow> canon_part list \<times> string list" where
  "canonical_property t p peer =
     (if pr_boolean p then ([K_Boolean], [])
      else (let use_ref_context = looks_like_ref_property (pr_name p) \<or> has_explicit_ref peer;
                (ps, ms) = canon_parts (canon_cell_of t (pr_name p) use_ref_context (explicit_at peer)) 0 (pr_parts p)
            in (flatten_parts ps, ms)))"

section \<open>Raw text\<close>

definition atom_text :: "atom \<Rightarrow> string" where
  "atom_text a = (case a of Number n \<Rightarrow> ''0x'' @ fmt_hex_int 0 n | Ref_Name l \<Rightarrow> ''&'' @ l
     | Unresolved_Ref v \<Rightarrow> ''?'' @ v | Raw_Atom v \<Rightarrow> v)"

definition part_text :: "value_part \<Rightarrow> string" where
  "part_text part = (case part of
       String_List ss \<Rightarrow> join '', '' (map json_str ss)
     | Cells atoms \<Rightarrow> ''<'' @ join '' '' (map atom_text atoms) @ ''>''
     | Byte_List bs \<Rightarrow> ''['' @ join '' '' bs @ '']''
     | Raw_Part rs \<Rightarrow> join '' '' rs)"

definition raw_text :: "dts_property \<Rightarrow> string" where
  "raw_text p = (if pr_boolean p then ''(boolean)'' else join '' '' (map part_text (pr_parts p)))"

section \<open>Differences\<close>

datatype diff_value =
    V_None
  | V_Text string
  | V_Number int
  | V_Canon "canon_part list"

record difference =
  df_kind :: string
  df_path :: string
  df_property :: "string option"
  df_left :: diff_value
  df_right :: diff_value

definition mk_diff :: "string \<Rightarrow> string \<Rightarrow> string option \<Rightarrow> diff_value \<Rightarrow> diff_value \<Rightarrow> difference" where
  "mk_diff k p n l r = \<lparr> df_kind = k, df_path = p, df_property = n, df_left = l, df_right = r \<rparr>"

record comparison =
  cm_differences :: "difference list"
  cm_renumbered :: "(string \<times> int \<times> int) list"
  cm_unresolved :: "string list"

definition tree_paths :: "dts_tree \<Rightarrow> string list" where
  "tree_paths t = map fst (dt_nodes t)"

text \<open>\<open>{path: value for value, path in phandles.items()}\<close>: the last number of a path stays.\<close>

definition phandle_paths :: "dts_tree \<Rightarrow> (string \<times> int) list" where
  "phandle_paths t = fold (\<lambda>(v, p) acc. AList.update p v acc) (dt_phandles t) []"

definition only_in :: "string list \<Rightarrow> string list \<Rightarrow> string list" where
  "only_in xs ys = sorted_set (filter (\<lambda>x. x \<notin> set ys) xs)"

definition in_both :: "string list \<Rightarrow> string list \<Rightarrow> string list" where
  "in_both xs ys = sorted_set (filter (\<lambda>x. x \<in> set ys) xs)"

definition node_at :: "dts_tree \<Rightarrow> string \<Rightarrow> (string \<times> dts_property) list" where
  "node_at t path = (case map_of (dt_nodes t) path of None \<Rightarrow> [] | Some nd \<Rightarrow> nd_properties nd)"

definition material_names :: "(string \<times> dts_property) list \<Rightarrow> string list" where
  "material_names ps = filter (\<lambda>n. n \<notin> set phandle_names) (map fst ps)"

definition compare_property ::
    "dts_tree \<Rightarrow> dts_tree \<Rightarrow> string \<Rightarrow> string \<Rightarrow> dts_property \<Rightarrow> dts_property \<Rightarrow> difference list \<times> string list" where
  "compare_property l r path name lp rp =
     (let (lv, lm) = canonical_property l lp (Some rp); (rv, rm) = canonical_property r rp (Some lp)
      in (flag (lv \<noteq> rv) (mk_diff ''property-changed'' path (Some name) (V_Canon lv) (V_Canon rv)), lm @ rm))"

definition compare_nodes :: "dts_tree \<Rightarrow> dts_tree \<Rightarrow> string \<Rightarrow> difference list \<times> string list" where
  "compare_nodes l r path =
     (let lps = node_at l path; rps = node_at r path; ln = material_names lps; rn = material_names rps;
          both = map (\<lambda>name. compare_property l r path name (the (map_of lps name)) (the (map_of rps name)))
                   (in_both ln rn)
      in (map (\<lambda>name. mk_diff ''property-removed'' path (Some name) (V_Text (raw_text (the (map_of lps name)))) V_None)
            (only_in ln rn)
          @ map (\<lambda>name. mk_diff ''property-added'' path (Some name) V_None (V_Text (raw_text (the (map_of rps name)))))
              (only_in rn ln)
          @ concat (map fst both), concat (map snd both)))"

definition diff_key :: "difference \<Rightarrow> string \<times> string \<times> string" where
  "diff_key d = (df_path d, case df_property d of None \<Rightarrow> [] | Some n \<Rightarrow> n, df_kind d)"

definition compare_trees :: "dts_tree \<Rightarrow> dts_tree \<Rightarrow> comparison" where
  "compare_trees l r =
     (let lp = tree_paths l; rp = tree_paths r; lh = phandle_paths l; rh = phandle_paths r;
          removed = map (\<lambda>p. mk_diff ''node-removed'' p None V_None V_None) (only_in lp rp);
          added = map (\<lambda>p. mk_diff ''node-added'' p None V_None V_None) (only_in rp lp);
          renumbered = filter (\<lambda>(p, a, b). a \<noteq> b)
            (map (\<lambda>p. (p, the (map_of lh p), the (map_of rh p))) (in_both (map fst lh) (map fst rh)));
          lost = map (\<lambda>p. mk_diff ''phandle-removed'' p (Some ''phandle'') (V_Number (the (map_of lh p))) V_None)
            (only_in (map fst lh) (map fst rh));
          gained = map (\<lambda>p. mk_diff ''phandle-added'' p (Some ''phandle'') V_None (V_Number (the (map_of rh p))))
            (only_in (map fst rh) (map fst lh));
          nodes = map (compare_nodes l r) (in_both lp rp)
      in \<lparr> cm_differences = sort_key diff_key (removed @ added @ lost @ gained @ concat (map fst nodes)),
           cm_renumbered = renumbered,
           cm_unresolved = sorted_set (concat (map snd nodes)) \<rparr>)"

text \<open>The items \<open>compare_trees\<close> stores back into a tree's \<open>unresolved\<close> list.\<close>

definition unresolved_of :: "dts_tree \<Rightarrow> comparison \<Rightarrow> string list" where
  "unresolved_of t c = filter (\<lambda>m. starts_with m (dt_source t @ '':'')) (cm_unresolved c)"

section \<open>Status\<close>

definition tree_clean :: "dts_tree \<Rightarrow> bool" where
  "tree_clean t \<longleftrightarrow> dt_issues t = [] \<and> dt_unsupported t = [] \<and> dt_duplicate_paths t = [] \<and> dt_duplicate_labels t = []"

definition incomplete :: "dts_tree \<Rightarrow> dts_tree \<Rightarrow> comparison \<Rightarrow> bool" where
  "incomplete l r c \<longleftrightarrow> cm_unresolved c \<noteq> [] \<or> \<not> tree_clean l \<or> \<not> tree_clean r"

definition equivalent :: "dts_tree \<Rightarrow> dts_tree \<Rightarrow> comparison \<Rightarrow> bool" where
  "equivalent l r c \<longleftrightarrow> cm_differences c = [] \<and> \<not> incomplete l r c"

definition status :: "dts_tree \<Rightarrow> dts_tree \<Rightarrow> comparison \<Rightarrow> string" where
  "status l r c =
     (if equivalent l r c then ''EQUIVALENT''
      else if cm_differences c \<noteq> []
      then (if incomplete l r c then ''DIFFERENT (INCOMPLETE)'' else ''DIFFERENT'')
      else ''INCONCLUSIVE'')"

text \<open>\<open>main\<close>: the exit status on two texts; 2 for an unreadable DTS. A \<open>KeyError\<close> and a
  \<open>RecursionError\<close> are not caught.\<close>

definition parse_status :: "dts_error \<Rightarrow> (dts_error, nat) res" where
  "parse_status e = (case e of
      Unterminated_Comment n \<Rightarrow> Inr 2 | Unterminated_String n \<Rightarrow> Inr 2 | uncaught \<Rightarrow> Inl uncaught)"

definition diff_exit :: "nat \<Rightarrow> string \<Rightarrow> string \<Rightarrow> string \<Rightarrow> string \<Rightarrow> (dts_error, nat) res option" where
  "diff_exit room left_name left_text right_name right_text =
     Option.bind (parse_dts room left_name left_text) (\<lambda>lr.
     case lr of
       Inl e \<Rightarrow> Some (parse_status e)
     | Inr l \<Rightarrow>
         Option.bind (parse_dts room right_name right_text) (\<lambda>rr.
         case rr of
           Inl e \<Rightarrow> Some (parse_status e)
         | Inr r \<Rightarrow> Some (Inr (if equivalent l r (compare_trees l r) then 0 else 1))))"

section \<open>When no difference is found\<close>

lemma sort_key_Nil [simp]: "sort_key f xs = [] \<longleftrightarrow> xs = []"
  by (metis length_0_conv length_sort)

lemma sorted_set_Nil [simp]: "sorted_set xs = [] \<longleftrightarrow> xs = []"
  by (simp add: sorted_set_def)

lemma only_in_Nil: "only_in xs ys = [] \<longleftrightarrow> set xs \<subseteq> set ys"
  by (auto simp: only_in_def filter_empty_conv)

lemma set_in_both [simp]: "set (in_both xs ys) = set xs \<inter> set ys"
  by (auto simp: in_both_def)

lemma set_only_in [simp]: "set (only_in xs ys) = set xs - set ys"
  by (auto simp: only_in_def)

lemma in_both_commute: "in_both xs ys = in_both ys xs"
  unfolding in_both_def by (rule sorted_set_cong) auto

lemma concat_Nil_iff: "concat xss = [] \<longleftrightarrow> (\<forall>xs \<in> set xss. xs = [])"
  by (induction xss) auto

text \<open>A property of both nodes that compares equal without a diagnostic.\<close>

definition same_property :: "dts_tree \<Rightarrow> dts_tree \<Rightarrow> dts_property \<Rightarrow> dts_property \<Rightarrow> bool" where
  "same_property l r lp rp \<longleftrightarrow>
     fst (canonical_property l lp (Some rp)) = fst (canonical_property r rp (Some lp))
     \<and> snd (canonical_property l lp (Some rp)) = [] \<and> snd (canonical_property r rp (Some lp)) = []"

definition same_node :: "dts_tree \<Rightarrow> dts_tree \<Rightarrow> string \<Rightarrow> bool" where
  "same_node l r path \<longleftrightarrow>
     set (material_names (node_at l path)) = set (material_names (node_at r path))
     \<and> (\<forall>name \<in> set (material_names (node_at l path)).
          same_property l r (the (map_of (node_at l path) name)) (the (map_of (node_at r path) name)))"

lemma compare_property_Nil:
  "compare_property l r path name lp rp = ([], []) \<longleftrightarrow> same_property l r lp rp"
  by (auto simp: compare_property_def same_property_def Let_def case_prod_unfold)

lemma compare_nodes_Nil: "compare_nodes l r path = ([], []) \<longleftrightarrow> same_node l r path"
proof -
  let ?ln = "material_names (node_at l path)" and ?rn = "material_names (node_at r path)"
  let ?c = "\<lambda>name. compare_property l r path name (the (map_of (node_at l path) name)) (the (map_of (node_at r path) name))"
  have "compare_nodes l r path = ([], []) \<longleftrightarrow>
      set ?ln \<subseteq> set ?rn \<and> set ?rn \<subseteq> set ?ln \<and> (\<forall>name \<in> set ?ln \<inter> set ?rn. ?c name = ([], []))"
    by (auto simp: compare_nodes_def Let_def concat_Nil_iff only_in_Nil prod_eq_iff)
  then show ?thesis
    unfolding same_node_def compare_property_Nil by auto
qed

definition phandle_owners :: "dts_tree \<Rightarrow> string set" where
  "phandle_owners t = snd ` set (dt_phandles t)"

lemma fold_update_keys:
  "fst ` set (fold (\<lambda>(v, p) acc. AList.update p v acc) xs acc) = snd ` set xs \<union> fst ` set acc"
  by (induction xs arbitrary: acc) (auto simp: dom_map_of_conv_image_fst [symmetric] update_conv')

lemma phandle_paths_keys: "set (map fst (phandle_paths t)) = phandle_owners t"
  by (simp add: phandle_paths_def phandle_owners_def fold_update_keys)

lemma equivalent_characterized:
  "equivalent l r (compare_trees l r) \<longleftrightarrow>
     tree_clean l \<and> tree_clean r \<and> set (tree_paths l) = set (tree_paths r)
     \<and> phandle_owners l = phandle_owners r \<and> (\<forall>path \<in> set (tree_paths l). same_node l r path)"
proof -
  have nodes: "concat (map fst ns) = [] \<and> concat (map snd ns) = [] \<longleftrightarrow> (\<forall>n \<in> set ns. n = ([], []))"
    for ns :: "(difference list \<times> string list) list"
    by (auto simp: concat_Nil_iff prod_eq_iff)
  let ?ns = "map (compare_nodes l r) (in_both (tree_paths l) (tree_paths r))"
  have "equivalent l r (compare_trees l r) \<longleftrightarrow> tree_clean l \<and> tree_clean r
      \<and> only_in (tree_paths l) (tree_paths r) = [] \<and> only_in (tree_paths r) (tree_paths l) = []
      \<and> only_in (map fst (phandle_paths l)) (map fst (phandle_paths r)) = []
      \<and> only_in (map fst (phandle_paths r)) (map fst (phandle_paths l)) = []
      \<and> concat (map fst ?ns) = [] \<and> concat (map snd ?ns) = []"
    by (auto simp: equivalent_def incomplete_def compare_trees_def Let_def)
  also have "\<dots> \<longleftrightarrow> tree_clean l \<and> tree_clean r \<and> set (tree_paths l) = set (tree_paths r)
     \<and> phandle_owners l = phandle_owners r
     \<and> (\<forall>path \<in> set (tree_paths l) \<inter> set (tree_paths r). compare_nodes l r path = ([], []))"
    unfolding nodes only_in_Nil phandle_paths_keys by auto
  finally show ?thesis unfolding compare_nodes_Nil by auto
qed

text \<open>
  Claim C31. What \<open>EQUIVALENT\<close> means: it is the status exactly when both trees parsed without
  any diagnostic, have the same node paths, give phandles to the same nodes, and at every
  node have the same property names (but for the phandle numbers) with equal canonical
  values none of which rests on an unresolved reference.
\<close>
theorem equivalent_status_iff:
  "status l r (compare_trees l r) = ''EQUIVALENT'' \<longleftrightarrow>
     tree_clean l \<and> tree_clean r \<and> set (tree_paths l) = set (tree_paths r)
     \<and> phandle_owners l = phandle_owners r \<and> list_all (same_node l r) (tree_paths l)"
  using equivalent_characterized [of l r] by (simp add: status_def list_all_iff)

section \<open>Symmetry\<close>

text \<open>The difference seen from the other side.\<close>

definition mirror_kind :: "string \<Rightarrow> string" where
  "mirror_kind k =
     (if k = ''node-removed'' then ''node-added'' else if k = ''node-added'' then ''node-removed''
      else if k = ''phandle-removed'' then ''phandle-added'' else if k = ''phandle-added'' then ''phandle-removed''
      else if k = ''property-removed'' then ''property-added'' else if k = ''property-added'' then ''property-removed''
      else k)"

definition mirror :: "difference \<Rightarrow> difference" where
  "mirror d = mk_diff (mirror_kind (df_kind d)) (df_path d) (df_property d) (df_right d) (df_left d)"

lemma mirror_mk [simp]: "mirror (mk_diff k p n a b) = mk_diff (mirror_kind k) p n b a"
  by (simp add: mirror_def mk_diff_def)

lemma mirror_kinds [simp]:
  "mirror_kind ''node-removed'' = ''node-added''" "mirror_kind ''node-added'' = ''node-removed''"
  "mirror_kind ''phandle-removed'' = ''phandle-added''" "mirror_kind ''phandle-added'' = ''phandle-removed''"
  "mirror_kind ''property-removed'' = ''property-added''" "mirror_kind ''property-added'' = ''property-removed''"
  "mirror_kind ''property-changed'' = ''property-changed''"
  by (simp_all add: mirror_kind_def)

lemma compare_property_mirror:
  "fst (compare_property r l path name rp lp) = map mirror (fst (compare_property l r path name lp rp))"
  "set (snd (compare_property r l path name rp lp)) = set (snd (compare_property l r path name lp rp))"
  by (auto simp: compare_property_def Let_def case_prod_unfold flag_def)

lemma compare_nodes_mirror:
  "mset (fst (compare_nodes r l path)) = image_mset mirror (mset (fst (compare_nodes l r path)))"
  "set (snd (compare_nodes r l path)) = set (snd (compare_nodes l r path))"
proof -
  have "concat (map (\<lambda>x. map f (g x)) xs) = map f (concat (map g xs))" for f :: "difference \<Rightarrow> difference" and g and xs :: "string list"
    by (induction xs) auto
  then show "mset (fst (compare_nodes r l path)) = image_mset mirror (mset (fst (compare_nodes l r path)))"
    unfolding compare_nodes_def Let_def
    by (simp add: comp_def compare_property_mirror(1) [of r l] in_both_commute [of "material_names (node_at r path)"]
        flip: mset_map) 
  show "set (snd (compare_nodes r l path)) = set (snd (compare_nodes l r path))"
    unfolding compare_nodes_def Let_def
    by (auto simp: compare_property_mirror(2) [of r l] in_both_commute [of "material_names (node_at r path)"])
qed

lemma mset_concat_mirror:
  assumes "\<And>x. mset (fst (g x)) = image_mset mirror (mset (fst (f x)))"
  shows "mset (concat (map (fst \<circ> g) xs)) = image_mset mirror (mset (concat (map (fst \<circ> f) xs)))"
  by (induction xs) (simp_all add: assms)

lemma compare_trees_mirror:
  "mset (cm_differences (compare_trees r l)) = image_mset mirror (mset (cm_differences (compare_trees l r)))"
  "cm_unresolved (compare_trees r l) = cm_unresolved (compare_trees l r)"
proof -
  note both = in_both_commute [of "tree_paths r"]
  show "mset (cm_differences (compare_trees r l)) = image_mset mirror (mset (cm_differences (compare_trees l r)))"
    using mset_concat_mirror [of "compare_nodes r l" "compare_nodes l r" "in_both (tree_paths l) (tree_paths r)",
        OF compare_nodes_mirror(1)]
    by (simp add: compare_trees_def Let_def both comp_def flip: mset_map)
  have "set (concat (map (snd \<circ> compare_nodes r l) ps)) = set (concat (map (snd \<circ> compare_nodes l r) ps))" for ps
    by (auto simp: compare_nodes_mirror(2) [of r l])
  then show "cm_unresolved (compare_trees r l) = cm_unresolved (compare_trees l r)"
    unfolding compare_trees_def Let_def comparison.simps both map_map by (rule sorted_set_cong)
qed

text \<open>
  The comparison has no preferred side: exchanging the two trees gives the same
  status, the same unresolved references, and the same differences with removed and added,
  left and right exchanged.
\<close>
theorem compare_symmetric:
  "status r l (compare_trees r l) = status l r (compare_trees l r)
    \<and> cm_unresolved (compare_trees r l) = cm_unresolved (compare_trees l r)
    \<and> mset (cm_differences (compare_trees r l)) = mset (map mirror (cm_differences (compare_trees l r)))"
proof -
  have "cm_differences (compare_trees r l) = [] \<longleftrightarrow> cm_differences (compare_trees l r) = []"
    using compare_trees_mirror(1) [of r l] by (metis image_mset_is_empty_iff mset_zero_iff)
  then show ?thesis
    using compare_trees_mirror [of r l] by (auto simp: status_def equivalent_def incomplete_def)
qed

section \<open>Labels, numbers and grouping\<close>











section \<open>Reading the same file twice\<close>

lemma only_in_same [simp]: "only_in xs xs = []"
  by (simp add: only_in_Nil)

lemma compare_nodes_same: "fst (compare_nodes t t path) = []"
  by (simp add: compare_nodes_def compare_property_def Let_def case_prod_unfold concat_Nil_iff)

text \<open>
  A file compared with itself shows no difference and no renumbering, and the
  tool's exit status is 0 unless the parser or the references left a diagnostic, which is
  all that can make it 1.
\<close>
theorem compare_same_file:
  assumes "parse_dts room name txt = Some (Inr t)"
  shows "cm_differences (compare_trees t t) = [] \<and> cm_renumbered (compare_trees t t) = []
    \<and> diff_exit room name txt name txt
        = Some (Inr (if tree_clean t \<and> cm_unresolved (compare_trees t t) = [] then 0 else 1))"
proof -
  have d: "cm_differences (compare_trees t t) = []"
    by (simp add: compare_trees_def Let_def concat_Nil_iff compare_nodes_same)
  moreover have "cm_renumbered (compare_trees t t) = []"
    by (simp add: compare_trees_def Let_def filter_empty_conv)
  ultimately show ?thesis
    using assms by (auto simp: diff_exit_def equivalent_def incomplete_def)
qed

section \<open>Samples\<close>

text \<open>The same board, once with a label and grouped cells, once with renumbered phandles.\<close>

definition mk_tree :: "string \<Rightarrow> (int \<times> string) list \<Rightarrow> (string \<times> string) list \<Rightarrow> dts_tree" where
  "mk_tree src phs ls = sample_tree \<lparr> dt_source := src, dt_phandles := phs, dt_labels := ls \<rparr>"



definition cell_prop :: "string \<Rightarrow> value_part list \<Rightarrow> dts_property" where
  "cell_prop n ps = \<lparr> pr_name = n, pr_parts = ps, pr_boolean = False, pr_line = 1 \<rparr>"



text \<open>
  The second reference of a provider list is compared as a plain number: two files that name
  the same two clocks by other phandle numbers are reported as different.
\<close>

lemma later_references_differ:
  "map_of (dt_phandles (mk_tree ''l'' [(1, ''/x''), (2, ''/z'')] [])) 2 =
     map_of (dt_phandles (mk_tree ''r'' [(5, ''/x''), (6, ''/z'')] [])) 6"
  "fst (compare_property (mk_tree ''l'' [(1, ''/x''), (2, ''/z'')] []) (mk_tree ''r'' [(5, ''/x''), (6, ''/z'')] []) ''/y''
     ''clocks'' (cell_prop ''clocks'' [Cells [Number 1, Number 0, Number 2, Number 0]])
     (cell_prop ''clocks'' [Cells [Number 5, Number 0, Number 6, Number 0]])) \<noteq> []"
  by code_simp+

theorem compare_same_file_witness:
  "diff_exit 400 ''a'' sample_dts ''a'' sample_dts
     = Some (Inr (if tree_clean sample_tree \<and> cm_unresolved (compare_trees sample_tree sample_tree) = [] then 0 else 1))"
  using compare_same_file [OF sample_parses] by blast

end
