(* ===== verification/File_System.thy ===== *)
theory File_System
  imports Py_Bytes Py_Text
begin

text \<open>
  The file system the extraction tools work on, and the state-and-exception computations
  they are written in.

  A file system maps a resolved path, the list of its components, to the node found there:
  a directory, a regular file or a symbolic link. A system call returns the new file system
  and whether it succeeded; a failure is an \<open>OSError\<close>. Permission bits are kept, ownership and times
  are not; the failures that depend on the machine (no space, no permission) are arguments
  of the tools' definitions.
\<close>

section \<open>Computations with a state and exceptions\<close>

type_synonym ('s, 'e, 'a) act = "'s \<Rightarrow> 's \<times> ('e + 'a)"

definition retS :: "'a \<Rightarrow> ('s, 'e, 'a) act" where "retS x = (\<lambda>s. (s, Inr x))"

definition failS :: "'e \<Rightarrow> ('s, 'e, 'a) act" where "failS e = (\<lambda>s. (s, Inl e))"

definition liftS :: "('e, 'a) res \<Rightarrow> ('s, 'e, 'a) act" where "liftS r = (\<lambda>s. (s, r))"

definition bindS :: "('s, 'e, 'a) act \<Rightarrow> ('a \<Rightarrow> ('s, 'e, 'b) act) \<Rightarrow> ('s, 'e, 'b) act" where
  "bindS m f = (\<lambda>s. case m s of (t, Inl e) \<Rightarrow> (t, Inl e) | (t, Inr x) \<Rightarrow> f x t)"

definition guardS :: "bool \<Rightarrow> 'e \<Rightarrow> ('s, 'e, 'a) act \<Rightarrow> ('s, 'e, 'a) act" where
  "guardS b e k = (if b then k else failS e)"

text \<open>A loop over a list, and \<open>except\<close> clauses that turn one exception into another.\<close>

fun forS :: "'a list \<Rightarrow> ('a \<Rightarrow> ('s, 'e, unit) act) \<Rightarrow> ('s, 'e, unit) act" where
  "forS [] f = retS ()"
| "forS (x # xs) f = bindS (f x) (\<lambda>u. forS xs f)"

definition rescueS :: "('e \<Rightarrow> 'e) \<Rightarrow> ('s, 'e, 'a) act \<Rightarrow> ('s, 'e, 'a) act" where
  "rescueS h m = (\<lambda>s. case m s of (t, Inl e) \<Rightarrow> (t, Inl (h e)) | (t, Inr x) \<Rightarrow> (t, Inr x))"

lemma act_simps [simp]:
  "retS x s = (s, Inr x)" "failS e s = (s, Inl e)" "liftS r s = (s, r)"
  by (simp_all add: retS_def failS_def liftS_def)

lemma bindS_eq: "bindS m f s = (case snd (m s) of Inl e \<Rightarrow> (fst (m s), Inl e) | Inr x \<Rightarrow> f x (fst (m s)))"
  by (cases "m s") (simp add: bindS_def split: sum.splits)

lemma bindS_runs [simp]:
  "m s = (t, Inl e) \<Longrightarrow> bindS m f s = (t, Inl e)"
  "m s = (t, Inr x) \<Longrightarrow> bindS m f s = f x t"
  by (simp_all add: bindS_eq)

lemma guardS_simps [simp]: "guardS True e k = k" "guardS False e k = failS e"
  by (simp_all add: guardS_def)

lemma bindS_Inr:
  "bindS m f s = (u, Inr y) \<longleftrightarrow> (\<exists>t x. m s = (t, Inr x) \<and> f x t = (u, Inr y))"
  by (cases "m s"; cases "snd (m s)") auto

lemma bindS_Inl:
  "bindS m f s = (u, Inl e) \<longleftrightarrow> m s = (u, Inl e) \<or> (\<exists>t x. m s = (t, Inr x) \<and> f x t = (u, Inl e))"
  by (cases "m s"; cases "snd (m s)") auto

lemma guardS_Inr: "guardS b e k s = (u, Inr y) \<longleftrightarrow> b \<and> k s = (u, Inr y)"
  by (simp add: guardS_def)

lemma rescueS_Inr [simp]: "rescueS h m s = (u, Inr y) \<longleftrightarrow> m s = (u, Inr y)"
  by (auto simp: rescueS_def split: prod.splits sum.splits)

lemma rescueS_Inl: "rescueS h m s = (u, Inl e) \<longleftrightarrow> (\<exists>d. m s = (u, Inl d) \<and> e = h d)"
  by (auto simp: rescueS_def split: prod.splits sum.splits)

lemma fst_rescueS [simp]: "fst (rescueS h m s) = fst (m s)"
  by (simp add: rescueS_def split: prod.splits sum.splits)

text \<open>An invariant of the state that every step keeps, failing or not.\<close>

definition keeps :: "('s \<Rightarrow> bool) \<Rightarrow> ('s, 'e, 'a) act \<Rightarrow> bool" where
  "keeps I m \<longleftrightarrow> (\<forall>s. I s \<longrightarrow> I (fst (m s)))"

named_theorems keeps_intros "rules that show a computation keeps an invariant"

lemma keeps_basic [keeps_intros]:
  "keeps I (retS x)" "keeps I (failS e)" "keeps I (liftS r)"
  by (simp_all add: keeps_def)

lemma keeps_bind [keeps_intros]: "keeps I m \<Longrightarrow> (\<And>x. keeps I (f x)) \<Longrightarrow> keeps I (bindS m f)"
  by (auto simp: keeps_def bindS_eq split: sum.splits)

lemma keeps_guard [keeps_intros]: "(b \<Longrightarrow> keeps I k) \<Longrightarrow> keeps I (guardS b e k)"
  by (cases b) (simp_all add: keeps_basic)

lemma keeps_for [keeps_intros]: "(\<And>x. x \<in> set xs \<Longrightarrow> keeps I (f x)) \<Longrightarrow> keeps I (forS xs f)"
  by (induction xs) (simp_all add: keeps_basic keeps_bind)

lemma keeps_rescue [keeps_intros]: "keeps I m \<Longrightarrow> keeps I (rescueS h m)"
  by (simp add: keeps_def)

lemma keepsD: "keeps I m \<Longrightarrow> I s \<Longrightarrow> m s = (t, r) \<Longrightarrow> I t"
  by (metis keeps_def fst_conv)

section \<open>Nodes and system calls\<close>

type_synonym path = "string list"

datatype node = NDir nat | NFile "byte list" nat | NLink string

type_synonym fs = "path \<Rightarrow> node option"

fun is_dir_node :: "node option \<Rightarrow> bool" where
  "is_dir_node (Some (NDir m)) = True"
| "is_dir_node v = False"

definition lexists :: "fs \<Rightarrow> path \<Rightarrow> bool" where "lexists f p = (f p \<noteq> None)"

definition is_dir :: "fs \<Rightarrow> path \<Rightarrow> bool" where "is_dir f p = is_dir_node (f p)"

text \<open>A node is made in an existing directory and never replaces one (\<open>O_EXCL\<close>, \<open>mkdir\<close>).\<close>

definition make_node :: "path \<Rightarrow> node \<Rightarrow> fs \<Rightarrow> fs \<times> bool" where
  "make_node p n f =
     (if p = [] \<or> lexists f p \<or> \<not> is_dir f (butlast p) then (f, False) else (f(p \<mapsto> n), True))"

text \<open>\<open>mkdir(parents=True, exist_ok=True)\<close> below an existing directory: the leaf gets mode
  \<open>m\<close>, the missing parents the default mode \<open>dm\<close>.\<close>

fun make_dirs :: "path \<Rightarrow> string list \<Rightarrow> nat \<Rightarrow> nat \<Rightarrow> fs \<Rightarrow> fs \<times> bool" where
  "make_dirs base [] dm m f = (f, is_dir f base)"
| "make_dirs base (c # cs) dm m f =
     (if lexists f (base @ [c])
      then if is_dir f (base @ [c]) then make_dirs (base @ [c]) cs dm m f else (f, False)
      else case make_node (base @ [c]) (NDir (if cs = [] then m else dm)) f of
             (g, False) \<Rightarrow> (g, False)
           | (g, True) \<Rightarrow> make_dirs (base @ [c]) cs dm m g)"

text \<open>\<open>write\<close> on an open file appends; \<open>chmod\<close> sets the permission bits.\<close>

definition append_file :: "path \<Rightarrow> byte list \<Rightarrow> fs \<Rightarrow> fs" where
  "append_file p bs f =
     (case f p of Some (NFile old m) \<Rightarrow> f(p \<mapsto> NFile (old @ bs) m) | _ \<Rightarrow> f)"

definition chmod :: "path \<Rightarrow> nat \<Rightarrow> fs \<Rightarrow> fs" where
  "chmod p m f =
     (case f p of Some (NFile d old) \<Rightarrow> f(p \<mapsto> NFile d m)
                | Some (NDir old) \<Rightarrow> f(p \<mapsto> NDir m) | _ \<Rightarrow> f)"

text \<open>\<open>write_text\<close>: a new file, or the contents of an existing one replaced.\<close>

definition write_file :: "path \<Rightarrow> byte list \<Rightarrow> nat \<Rightarrow> fs \<Rightarrow> fs \<times> bool" where
  "write_file p bs m f =
     (case f p of
        Some (NFile old k) \<Rightarrow> (f(p \<mapsto> NFile bs k), True)
      | Some n \<Rightarrow> (f, False)
      | None \<Rightarrow> make_node p (NFile bs m) f)"

text \<open>\<open>shutil.rmtree\<close>.\<close>

definition rm_tree :: "path \<Rightarrow> fs \<Rightarrow> fs" where
  "rm_tree s f = (\<lambda>p. if prefix s p then None else f p)"

text \<open>With \<open>ignore_errors=True\<close> the removal never fails, and what \<open>kept\<close> tells of may stay. A system
  keeps the directories above a node it keeps; nothing here depends on that.\<close>

definition rm_tree_ignoring :: "(path \<Rightarrow> bool) \<Rightarrow> path \<Rightarrow> fs \<Rightarrow> fs" where
  "rm_tree_ignoring kept s f = (\<lambda>p. if prefix s p \<and> \<not> kept p then None else f p)"

text \<open>\<open>os.rename\<close> of a directory.\<close>

definition move_tree :: "path \<Rightarrow> path \<Rightarrow> fs \<Rightarrow> fs" where
  "move_tree s d f =
     (\<lambda>p. if prefix d p then f (s @ drop (length d) p) else if prefix s p then None else f p)"

text \<open>Every node has a directory above it.\<close>

definition wf_fs :: "fs \<Rightarrow> bool" where
  "wf_fs f \<longleftrightarrow> (\<forall>p. f p \<noteq> None \<longrightarrow> p \<noteq> [] \<longrightarrow> is_dir f (butlast p))"

text \<open>The same, but for what was kept below \<open>s\<close>.\<close>

definition same_but :: "(path \<Rightarrow> bool) \<Rightarrow> path \<Rightarrow> fs \<Rightarrow> fs \<Rightarrow> bool" where
  "same_but kept s f g \<longleftrightarrow> (\<forall>p. g p = f p \<or> (prefix s p \<and> kept p))"

lemma rm_tree_ignoring_none [simp]: "rm_tree_ignoring (\<lambda>p. False) = rm_tree"
  by (simp add: fun_eq_iff rm_tree_ignoring_def rm_tree_def)

lemma same_but_none [simp]: "same_but (\<lambda>p. False) s f g \<longleftrightarrow> g = f"
  by (auto simp: same_but_def)

lemma same_but_refl [simp]: "same_but kept s f f"
  by (simp add: same_but_def)

lemma rm_tree_same_but: "rm_tree s f = g \<Longrightarrow> same_but kept s g (rm_tree_ignoring kept s f)"
  by (auto simp: same_but_def rm_tree_ignoring_def rm_tree_def split: if_splits)

lemma lexists_simps [simp]: "lexists f p \<Longrightarrow> f p \<noteq> None" "f p = None \<Longrightarrow> \<not> lexists f p"
  by (simp_all add: lexists_def)

lemma is_dir_lexists: "is_dir f p \<Longrightarrow> lexists f p"
  by (cases "f p") (auto simp: is_dir_def lexists_def)

lemma make_node_True:
  "make_node p n f = (g, True) \<longleftrightarrow>
   p \<noteq> [] \<and> f p = None \<and> is_dir f (butlast p) \<and> g = f(p \<mapsto> n)"
  by (auto simp: make_node_def lexists_def)

lemma make_node_False: "make_node p n f = (g, False) \<Longrightarrow> g = f"
  by (simp add: make_node_def split: if_splits)

lemma on_the_way:
  assumes "\<exists>i. 0 < i \<and> i \<le> length cs \<and> p = (base @ [c]) @ take i cs"
  shows "\<exists>i. 0 < i \<and> i \<le> length (c # cs) \<and> p = base @ take i (c # cs)"
proof -
  from assms obtain i where "i \<le> length cs" "p = (base @ [c]) @ take i cs" by blast
  then show ?thesis by (intro exI [of _ "Suc i"]) simp
qed

text \<open>Making directories only adds directories on the way to the leaf.\<close>

lemma make_dirs_effect:
  assumes "make_dirs base cs dm m f = (g, b)"
  shows "g p = f p \<or> (f p = None \<and> is_dir g p \<and> (\<exists>i. 0 < i \<and> i \<le> length cs \<and> p = base @ take i cs))"
  using assms
proof (induction base cs dm m f rule: make_dirs.induct)
  case (2 base c cs dm m f)
  show ?case
  proof (cases "lexists f (base @ [c])")
    case True
    show ?thesis
    proof (cases "is_dir f (base @ [c])")
      case dir: True
      with True 2 have "g p = f p \<or> (f p = None \<and> is_dir g p \<and>
          (\<exists>i. 0 < i \<and> i \<le> length cs \<and> p = (base @ [c]) @ take i cs))" by simp
      with on_the_way [of cs p base c] show ?thesis by argo
    next
      case False
      with True 2 show ?thesis by simp
    qed
  next
    case False
    note new = this
    let ?n = "NDir (if cs = [] then m else dm)"
    show ?thesis
    proof (cases "snd (make_node (base @ [c]) ?n f)")
      case False
      then obtain h where h: "make_node (base @ [c]) ?n f = (h, False)"
        by (cases "make_node (base @ [c]) ?n f") auto
      from make_node_False [OF this] h new 2(3) show ?thesis by simp
    next
      case True
      then obtain h where h: "make_node (base @ [c]) ?n f = (h, True)"
        by (cases "make_node (base @ [c]) ?n f") auto
      then have hf: "h = f(base @ [c] \<mapsto> ?n)" "f (base @ [c]) = None" by (auto simp: make_node_True)
      from 2(2) [OF new h [symmetric]] 2(3) new h have ih: "g p = h p \<or> (h p = None \<and> is_dir g p \<and>
          (\<exists>i. 0 < i \<and> i \<le> length cs \<and> p = (base @ [c]) @ take i cs))" by simp
      show ?thesis
      proof (cases "p = base @ [c]")
        case True
        with ih hf have "f p = None \<and> is_dir g p \<and> p = base @ take 1 (c # cs)"
          by (auto simp: is_dir_def)
        then show ?thesis by (intro disjI2 conjI exI [of _ 1]) auto
      next
        case False
        with ih hf have "g p = f p \<or> (f p = None \<and> is_dir g p \<and>
            (\<exists>i. 0 < i \<and> i \<le> length cs \<and> p = (base @ [c]) @ take i cs))" by simp
        with on_the_way [of cs p base c] show ?thesis by argo
      qed
    qed
  qed
qed simp

lemma wf_fs_below:
  assumes "wf_fs f" and "f s = None"
  shows "f (s @ q) = None"
proof (induction q rule: rev_induct)
  case (snoc c q)
  then show ?case
    using assms(1) unfolding wf_fs_def is_dir_def
    by (metis append_is_Nil_conv butlast_append butlast_snoc is_dir_node.simps(2) not_Cons_self2)
qed (simp add: assms(2))


section \<open>Relative names\<close>

text \<open>Where the kernel ends up when it follows a relative name without symbolic links.\<close>

fun walk_dots :: "path \<Rightarrow> string list \<Rightarrow> path" where
  "walk_dots cur [] = cur"
| "walk_dots cur (c # cs) =
     (if c = [] \<or> c = ''.'' then walk_dots cur cs
      else if c = ''..'' then walk_dots (butlast cur) cs
      else walk_dots (cur @ [c]) cs)"

text \<open>A component that names an entry of the directory it is looked up in.\<close>

definition plain_part :: "string \<Rightarrow> bool" where
  "plain_part c = (c \<noteq> [] \<and> c \<noteq> ''.'' \<and> c \<noteq> ''..'')"

lemma walk_dots_plain: "list_all plain_part cs \<Longrightarrow> walk_dots cur cs = cur @ cs"
  by (induction cs arbitrary: cur) (simp_all add: plain_part_def)

text \<open>Two names cannot both be regular files: one is the other, or a directory above it.\<close>

definition conflict :: "string list \<Rightarrow> string list \<Rightarrow> bool" where
  "conflict p q = (prefix p q \<or> prefix q p)"

lemma conflict_sym: "conflict p q \<longleftrightarrow> conflict q p"
  by (auto simp: conflict_def)

end
