(* ===== verification/Zip_Ingest.thy ===== *)
theory Zip_Ingest
  imports File_System Py_Float
begin

text \<open>
  \<open>tools/safe_zip_ingest.py\<close>, first half: the limits, the checks of the central directory
  (names, kinds, sizes, compression ratio), the members' metadata and the pass that reads
  every member. What the \<open>zipfile\<close> module returns for an archive is a \<open>zinfo\<close> per entry,
  with the chunks (or the exception) that reading the member yields; SHA-256 is a parameter
  \<open>sha\<close> from bytes to the hexadecimal digest.

  Names are lists of 8-bit characters. For those NFC is the identity, and case folding is
  lower case, except that sharp s folds to two letters; the micro sign keeps its own code
  (Python folds it to a Greek letter that no 8-bit character folds to, so no comparison
  changes).
\<close>

section \<open>Data\<close>

datatype zmsg =
    PartName | NoSuchZip | LstatFails | ZipIsLink | ZipNotRegular | ZipEmpty | OpenFails
  | FstatFails | ChangedOnOpen | ZipVanished | ZipChanged
  | BadMaxMembers | BadMaxEntry | BadMaxTotal | BadMaxRatio
  | NoName | NulInName string | ControlInName string | NotPortable string | Absolute string
  | DirectoryEntry string | NotCanonical string | NameTooLong string | NotRegular string
  | DosDirectory string | Encrypted string | BadCompression string | ReservedName string
  | DuplicateName string | CollidingPath string
  | BadSize string | EntryTooLarge string | TotalTooLarge int | InfiniteRatio string
  | SuspiciousRatio string | ExtraData string | ShortData string | ReadFails string
  | BadDirectory | TooManyMembers nat | HashFails | Unreadable
  | BadDestination | DestinationExists | ParentNotDirectory | DestinationUnchecked
  | ChangedBetween | HashChanged string | DestinationAppeared | PublishFails

text \<open>
  The exceptions that occur. \<open>ZipSafetyError\<close> and \<open>NotImplementedError\<close> are subclasses of
  \<open>RuntimeError\<close>. \<open>ZlibErr\<close> is \<open>zlib.error\<close>, which derives from \<open>Exception\<close> directly.
\<close>

datatype zexc =
    ZipSafety zmsg | OsErr | EofErr | RuntimeErr | BadZipErr | NotImplErr | ValueErr
  | OverflowErr | ZlibErr | AssertErr

record limits =
  max_members :: int
  max_entry_size :: int
  max_total_size :: int
  max_ratio :: pyfloat

definition default_limits :: limits where
  "default_limits = \<lparr>max_members = 100000, max_entry_size = 8 * 1024 ^ 3,
     max_total_size = 64 * 1024 ^ 3, max_ratio = Fin 1000\<rparr>"

record zinfo =
  filename :: string
  file_size :: int
  compress_size :: int
  external_attr :: nat
  create_system :: nat
  flag_bits :: nat
  compress_type :: nat
  crc :: nat
  date_time :: "nat list"
  zreads :: "(zexc, byte list) res list"

definition compression_names :: "nat \<Rightarrow> string option" where
  "compression_names = map_of [(0, ''stored''), (8, ''deflated''), (12, ''bzip2''), (14, ''lzma'')]"

definition manifest_name :: string where "manifest_name = ''.safe-zip-manifest.json''"

section \<open>Limits and names\<close>

definition assert_limits :: "limits \<Rightarrow> (zexc, unit) res" where
  "assert_limits l =
     guardR (\<not> max_members l \<le> 0) (ZipSafety BadMaxMembers)
    (guardR (\<not> max_entry_size l \<le> 0) (ZipSafety BadMaxEntry)
    (guardR (\<not> max_total_size l \<le> 0) (ZipSafety BadMaxTotal)
    (guardR (\<not> f_le (max_ratio l) (Fin 0)) (ZipSafety BadMaxRatio) (Inr ()))))"

definition fold_char :: "char \<Rightarrow> string" where
  "fold_char c = (if c = CHR 0xDF then ''ss'' else [lower_char c])"

definition casefold :: "string \<Rightarrow> string" where "casefold s = concat (map fold_char s)"

definition canonical_name :: "string \<Rightarrow> string" where "canonical_name n = casefold n"

definition reject_part_name :: "string \<Rightarrow> (zexc, unit) res" where
  "reject_part_name n = guardR (\<not> ends_with (casefold n) ''.part'') (ZipSafety PartName) (Inr ())"

definition member_mode :: "zinfo \<Rightarrow> nat" where
  "member_mode info = (external_attr info div 2 ^ 16) mod 2 ^ 16"

text \<open>\<open>stat.S_IFMT\<close> of a 16-bit mode: the top four bits.\<close>

definition s_ifmt :: "nat \<Rightarrow> nat" where "s_ifmt m = (m div 2 ^ 12) mod 16 * 2 ^ 12"

definition s_ifreg :: nat where "s_ifreg = 0x8000"

text \<open>\<open>PureWindowsPath(name).drive\<close> is not empty: a UNC prefix or a drive colon.\<close>

definition has_drive :: "string \<Rightarrow> bool" where
  "has_drive n = (case n of
      c # d # r \<Rightarrow> (c = CHR ''/'' \<and> d = CHR ''/'') \<or> (c \<noteq> CHR ''/'' \<and> d = CHR '':'')
    | _ \<Rightarrow> False)"

definition utf8_length :: "string \<Rightarrow> nat" where
  "utf8_length s = sum_list (map (\<lambda>c. if of_char c < (128 :: nat) then 1 else 2) s)"

text \<open>The joins of the first \<open>1..k\<close> parts.\<close>

definition part_prefixes :: "string list \<Rightarrow> nat \<Rightarrow> string list" where
  "part_prefixes parts k = map (\<lambda>i. join ''/'' (take i parts)) [1..<k + 1]"

record seen_names =
  seen :: "string list"
  seen_prefixes :: "string list"

definition shape_checks :: "string \<Rightarrow> (zexc, unit) res" where
  "shape_checks name =
     guardR (name \<noteq> []) (ZipSafety NoName)
    (guardR (CHR 0x00 \<notin> set name) (ZipSafety (NulInName name))
    (guardR (\<not> list_ex (\<lambda>c. of_char c < (0x20 :: nat) \<or> c = CHR 0x7F) name) (ZipSafety (ControlInName name))
    (guardR (\<not> (CHR 0x5C \<in> set name \<or> has_drive name)) (ZipSafety (NotPortable name))
    (guardR (\<not> hd name = CHR ''/'') (ZipSafety (Absolute name))
    (guardR (\<not> last name = CHR ''/'') (ZipSafety (DirectoryEntry name))
    (guardR (\<not> list_ex (\<lambda>p. p \<in> {[], ''.'', ''..''}) (split_char CHR ''/'' name)) (ZipSafety (NotCanonical name))
    (guardR (CHR '':'' \<notin> set name) (ZipSafety (NotPortable name))
    (guardR (utf8_length name \<le> 4096) (ZipSafety (NameTooLong name)) (Inr ())))))))))"

definition kind_checks :: "zinfo \<Rightarrow> (zexc, unit) res" where
  "kind_checks info =
     (let name = filename info; kind = s_ifmt (member_mode info)
      in guardR (\<not> (kind \<noteq> 0 \<and> kind \<noteq> s_ifreg)) (ZipSafety (NotRegular name))
        (guardR (\<not> (create_system info = 0 \<and> bit (external_attr info) 4)) (ZipSafety (DosDirectory name))
        (guardR (\<not> odd (flag_bits info)) (ZipSafety (Encrypted name))
        (guardR (compression_names (compress_type info) \<noteq> None) (ZipSafety (BadCompression name)) (Inr ())))))"

definition alias_checks :: "string \<Rightarrow> seen_names \<Rightarrow> (zexc, string \<times> seen_names) res" where
  "alias_checks name st =
     (let canonical = canonical_name name; parts = split_char CHR ''/'' canonical
      in guardR (canonical \<noteq> canonical_name manifest_name) (ZipSafety (ReservedName name))
        (guardR (canonical \<notin> set (seen st)) (ZipSafety (DuplicateName name))
        (guardR (\<not> (list_ex (\<lambda>p. p \<in> set (seen st)) (part_prefixes parts (length parts - 1))
                    \<or> canonical \<in> set (seen_prefixes st))) (ZipSafety (CollidingPath name))
        (Inr (name, \<lparr>seen = canonical # seen st,
                     seen_prefixes = part_prefixes parts (length parts) @ seen_prefixes st\<rparr>)))))"

definition member_name :: "zinfo \<Rightarrow> seen_names \<Rightarrow> (zexc, string \<times> seen_names) res" where
  "member_name info st =
     bindR (shape_checks (filename info)) (\<lambda>u.
     bindR (kind_checks info) (\<lambda>u. alias_checks (filename info) st))"

section \<open>Sizes and metadata\<close>

text \<open>True division of two integers, rounded once; it overflows like Python's.\<close>

definition true_div :: "int \<Rightarrow> int \<Rightarrow> (zexc, pyfloat) res" where
  "true_div a b = (case float_of_rat (of_int a / of_int b) of
      Fin r \<Rightarrow> Inr (Fin r) | _ \<Rightarrow> Inl OverflowErr)"

definition validate_info_sizes :: "zinfo \<Rightarrow> string \<Rightarrow> int \<Rightarrow> limits \<Rightarrow> (zexc, int) res" where
  "validate_info_sizes info name tot l =
     guardR (\<not> (file_size info < 0 \<or> compress_size info < 0)) (ZipSafety (BadSize name))
    (guardR (\<not> file_size info > max_entry_size l) (ZipSafety (EntryTooLarge name))
    (let new_total = tot + file_size info
     in guardR (\<not> new_total > max_total_size l) (ZipSafety (TotalTooLarge new_total))
       (guardR (\<not> (file_size info \<noteq> 0 \<and> compress_size info = 0)) (ZipSafety (InfiniteRatio name))
       (bindR (true_div (file_size info) (max (compress_size info) 1)) (\<lambda>ratio.
        guardR (\<not> f_less (max_ratio l) ratio) (ZipSafety (SuspiciousRatio name)) (Inr new_total))))))"

text \<open>The proleptic Gregorian calendar, as \<open>datetime\<close> checks it.\<close>

definition leap :: "nat \<Rightarrow> bool" where
  "leap y = (y mod 4 = 0 \<and> (y mod 100 \<noteq> 0 \<or> y mod 400 = 0))"

definition days_in_month :: "nat \<Rightarrow> nat \<Rightarrow> nat" where
  "days_in_month y m =
     (if m = 2 then (if leap y then 29 else 28) else if m \<in> {4, 6, 9, 11} then 30 else 31)"

definition entry_timestamp :: "nat list \<Rightarrow> string" where
  "entry_timestamp dt = (case dt of
      [y, mo, d, h, mi, s] \<Rightarrow>
        if 1 \<le> y \<and> y \<le> 9999 \<and> 1 \<le> mo \<and> mo \<le> 12 \<and> 1 \<le> d \<and> d \<le> days_in_month y mo
           \<and> h < 24 \<and> mi < 60 \<and> s < 60
        then fmt_dec 4 y @ ''-'' @ fmt_dec 2 mo @ ''-'' @ fmt_dec 2 d @ ''T'' @
             fmt_dec 2 h @ '':'' @ fmt_dec 2 mi @ '':'' @ fmt_dec 2 s @ ''+00:00''
        else ''invalid''
    | _ \<Rightarrow> ''invalid'')"

record zmeta =
  m_name :: string
  m_size :: int
  m_compressed :: int
  m_crc32 :: string
  m_sha256 :: "string option"
  m_compression :: string
  m_date :: string
  m_system :: nat
  m_attr :: nat
  m_mode :: "nat option"

definition metadata_without_hash :: "zinfo \<Rightarrow> string \<Rightarrow> zmeta" where
  "metadata_without_hash info name =
     \<lparr>m_name = name, m_size = file_size info, m_compressed = compress_size info,
      m_crc32 = fmt_hex 8 (crc info mod 2 ^ 32), m_sha256 = None,
      m_compression = the (compression_names (compress_type info)),
      m_date = entry_timestamp (date_time info), m_system = create_system info,
      m_attr = external_attr info,
      m_mode = (if member_mode info = 0 then None else Some (member_mode info))\<rparr>"

section \<open>The central directory\<close>

record checked =
  infos :: "(zinfo \<times> string \<times> zmeta) list"
  names :: seen_names
  total_size :: int
  total_compressed :: int

definition check_info :: "limits \<Rightarrow> zinfo \<Rightarrow> checked \<Rightarrow> (zexc, checked) res" where
  "check_info l info st =
     bindR (member_name info (names st)) (\<lambda>(name, ns).
     bindR (validate_info_sizes info name (total_size st) l) (\<lambda>tot.
       Inr \<lparr>infos = infos st @ [(info, name, metadata_without_hash info name)], names = ns,
            total_size = tot, total_compressed = total_compressed st + compress_size info\<rparr>))"

definition start_checked :: checked where
  "start_checked = \<lparr>infos = [], names = \<lparr>seen = [], seen_prefixes = []\<rparr>,
     total_size = 0, total_compressed = 0\<rparr>"

text \<open>The exceptions the \<open>except (OSError, EOFError, RuntimeError, BadZipFile)\<close> clauses catch.\<close>

fun reading_error :: "zexc \<Rightarrow> bool" where
  "reading_error ValueErr = False"
| "reading_error OverflowErr = False"
| "reading_error ZlibErr = False"
| "reading_error AssertErr = False"
| "reading_error e = True"

definition checked_infos :: "(zexc, zinfo list) res \<Rightarrow> limits \<Rightarrow> (zexc, checked) res" where
  "checked_infos infolist l = (case infolist of
      Inl e \<Rightarrow> Inl (if reading_error e then ZipSafety BadDirectory else e)
    | Inr is \<Rightarrow>
        guardR (\<not> int (length is) > max_members l) (ZipSafety (TooManyMembers (length is)))
          (foldR (check_info l) is start_checked))"

section \<open>Reading a member and the archive\<close>

text \<open>The \<open>while True\<close> loop over \<open>source.read\<close>: the bytes read, or the exception.\<close>

fun consume_reads :: "int \<Rightarrow> string \<Rightarrow> (zexc, byte list) res list \<Rightarrow> byte list \<Rightarrow> (zexc, byte list) res" where
  "consume_reads expected name [] acc = Inr acc"
| "consume_reads expected name (r # rs) acc =
     bindR r (\<lambda>chunk.
       if chunk = [] then Inr acc
       else guardR (\<not> int (length acc + length chunk) > expected) (ZipSafety (ExtraData name))
              (consume_reads expected name rs (acc @ chunk)))"

text \<open>The \<open>except\<close> clause of \<open>_consume_member\<close>.\<close>

definition member_error :: "string \<Rightarrow> zexc \<Rightarrow> zexc" where
  "member_error name e = (case e of
      ZipSafety m \<Rightarrow> ZipSafety m
    | _ \<Rightarrow> if reading_error e then ZipSafety (ReadFails name) else e)"

definition catchR :: "('e \<Rightarrow> 'e) \<Rightarrow> ('e, 'a) res \<Rightarrow> ('e, 'a) res" where
  "catchR h r = (case r of Inl e \<Rightarrow> Inl (h e) | Inr x \<Rightarrow> Inr x)"

definition consume_member :: "(byte list \<Rightarrow> string) \<Rightarrow> zinfo \<Rightarrow> (zexc, string) res" where
  "consume_member sha info =
     catchR (member_error (filename info))
       (bindR (consume_reads (file_size info) (filename info) (zreads info) []) (\<lambda>bs.
        guardR (int (length bs) = file_size info) (ZipSafety (ShortData (filename info)))
          (Inr (sha bs))))"

text \<open>
  One opening of the archive: what \<open>lstat\<close>, \<open>open\<close>, \<open>fstat\<close> and the final \<open>stat\<close> of the
  path answer, the bytes of the stream (or a failed read), and what \<open>zipfile\<close> makes of it.
\<close>

datatype file_kind = RegularKind | LinkKind | OtherKind

record snap =
  device :: int
  inode :: int
  snap_size :: int
  mtime_ns :: int

datatype stat_result = StatMissing | StatError | Stat file_kind snap

record session =
  at_lstat :: stat_result
  open_ok :: bool
  at_fstat :: stat_result
  stream :: "byte list option"
  zip_open :: "(zexc, (zexc, zinfo list) res) res"
  at_close :: stat_result

text \<open>Up to the open descriptor.\<close>

definition open_archive :: "string \<Rightarrow> session \<Rightarrow> (zexc, snap) res" where
  "open_archive name ses =
     bindR (reject_part_name name) (\<lambda>u.
     case at_lstat ses of
       StatMissing \<Rightarrow> Inl (ZipSafety NoSuchZip)
     | StatError \<Rightarrow> Inl (ZipSafety LstatFails)
     | Stat kind before \<Rightarrow>
         guardR (kind \<noteq> LinkKind) (ZipSafety ZipIsLink)
        (guardR (kind = RegularKind) (ZipSafety ZipNotRegular)
        (guardR (\<not> snap_size before \<le> 0) (ZipSafety ZipEmpty)
        (guardR (open_ok ses) (ZipSafety OpenFails) (Inr before)))))"

definition check_open :: "session \<Rightarrow> snap \<Rightarrow> (zexc, unit) res" where
  "check_open ses snapshot = (case at_fstat ses of
      Stat kind opened \<Rightarrow>
        guardR (kind = RegularKind \<and> opened = snapshot) (ZipSafety ChangedOnOpen) (Inr ())
    | _ \<Rightarrow> Inl (ZipSafety FstatFails))"

text \<open>The \<open>finally\<close> block: its own exception replaces the result of the body.\<close>

definition check_close :: "session \<Rightarrow> snap \<Rightarrow> ('s, zexc, 'a) act \<Rightarrow> ('s, zexc, 'a) act" where
  "check_close ses snapshot body = (\<lambda>s. case body s of (t, r) \<Rightarrow> (t, (case at_close ses of
      Stat kind after_fd \<Rightarrow>
        if kind = LinkKind \<or> after_fd \<noteq> snapshot then Inl (ZipSafety ZipChanged) else r
    | _ \<Rightarrow> Inl (ZipSafety ZipVanished))))"

definition with_archive :: "string \<Rightarrow> session \<Rightarrow> (snap \<Rightarrow> ('s, zexc, 'a) act) \<Rightarrow> ('s, zexc, 'a) act" where
  "with_archive name ses body =
     bindS (liftS (open_archive name ses)) (\<lambda>snapshot.
       check_close ses snapshot
         (bindS (liftS (check_open ses snapshot)) (\<lambda>u. body snapshot)))"

definition hash_archive :: "(byte list \<Rightarrow> string) \<Rightarrow> session \<Rightarrow> (zexc, string) res" where
  "hash_archive sha ses = (case stream ses of
      None \<Rightarrow> Inl (ZipSafety HashFails) | Some bs \<Rightarrow> Inr (sha bs))"

section \<open>The report\<close>

record zreport =
  r_path :: string
  r_size :: int
  r_sha256 :: string
  r_limits :: limits
  r_members :: nat
  r_uncompressed :: int
  r_compressed :: int
  r_entries :: "zmeta list"
  r_output :: "(string \<times> string) option"

definition hashed_member :: "(byte list \<Rightarrow> string) \<Rightarrow> zinfo \<times> string \<times> zmeta \<Rightarrow> (zexc, zmeta) res" where
  "hashed_member sha entry = (case entry of (info, name, metadata) \<Rightarrow>
     bindR (consume_member sha info) (\<lambda>h. Inr (metadata \<lparr>m_sha256 := Some h\<rparr>)))"

text \<open>The outer \<open>except\<close> of \<open>_base_report\<close> wraps every reading error, its own included.\<close>

definition base_error :: "zexc \<Rightarrow> zexc" where
  "base_error e = (if reading_error e then ZipSafety Unreadable else e)"

definition base_body :: "(byte list \<Rightarrow> string) \<Rightarrow> string \<Rightarrow> limits \<Rightarrow> session \<Rightarrow> snap \<Rightarrow>
    (zexc, zreport) res" where
  "base_body sha label l ses snapshot =
     bindR (hash_archive sha ses) (\<lambda>archive_sha256.
     bindR (catchR base_error
        (bindR (zip_open ses) (\<lambda>infolist.
         bindR (checked_infos infolist l) (\<lambda>checked.
         bindR (mapR (hashed_member sha) (infos checked)) (\<lambda>members. Inr (checked, members))))))
       (\<lambda>(checked, members).
         Inr \<lparr>r_path = label, r_size = snap_size snapshot, r_sha256 = archive_sha256, r_limits = l,
              r_members = length members, r_uncompressed = total_size checked,
              r_compressed = total_compressed checked, r_entries = members, r_output = None\<rparr>))"

definition base_report ::
  "(byte list \<Rightarrow> string) \<Rightarrow> string \<Rightarrow> string \<Rightarrow> limits \<Rightarrow> session \<Rightarrow> ('s, zexc, zreport) act" where
  "base_report sha name label l ses =
     bindS (liftS (assert_limits l)) (\<lambda>u.
       with_archive name ses (\<lambda>snapshot. liftS (base_body sha label l ses snapshot)))"

end
