(* ===== verification/Zip_Checks.thy ===== *)
theory Zip_Checks
  imports Zip_Ingest
begin

text \<open>
  What \<open>_checked_infos\<close> guarantees about the entries it accepts: their names are relative
  and portable, no two of them can collide on a file system that ignores case, and their
  sizes respect the limits.
\<close>

section \<open>Names\<close>

definition name_parts :: "string \<Rightarrow> string list" where "name_parts n = split_char CHR ''/'' n"

definition portable_name :: "string \<Rightarrow> bool" where
  "portable_name n =
     (list_all plain_part (name_parts n) \<and>
      list_all (\<lambda>c. 0x20 \<le> (of_char c :: nat) \<and> c \<noteq> CHR 0x7F \<and> c \<noteq> CHR 0x5C \<and> c \<noteq> CHR '':'') n)"

definition alias_conflict :: "string \<Rightarrow> string \<Rightarrow> bool" where
  "alias_conflict a b = conflict (name_parts (canonical_name a)) (name_parts (canonical_name b))"

lemma shape_checks_portable:
  assumes "shape_checks name = Inr u"
  shows "portable_name name" and "name \<noteq> []"
proof -
  from assms have ne: "name \<noteq> []"
    and ctl: "\<not> list_ex (\<lambda>c. of_char c < (0x20 :: nat) \<or> c = CHR 0x7F) name"
    and win: "CHR 0x5C \<notin> set name" "CHR '':'' \<notin> set name"
    and parts: "\<not> list_ex (\<lambda>p. p \<in> {[], ''.'', ''..''}) (split_char CHR ''/'' name)"
    by (simp_all add: shape_checks_def guardR_Inr_iff)
  show "name \<noteq> []" by (rule ne)
  have "list_all plain_part (name_parts name)"
    using parts unfolding name_parts_def list_all_iff list_ex_iff plain_part_def
    by (metis insertCI)
  moreover have "list_all (\<lambda>c. 0x20 \<le> (of_char c :: nat) \<and> c \<noteq> CHR 0x7F \<and> c \<noteq> CHR 0x5C \<and> c \<noteq> CHR '':'') name"
    using ctl win unfolding list_all_iff list_ex_iff by (metis not_less)
  ultimately show "portable_name name" by (simp add: portable_name_def)
qed

lemma part_prefixes_take:
  "1 \<le> i \<Longrightarrow> i \<le> k \<Longrightarrow> join ''/'' (take i ps) \<in> set (part_prefixes ps k)"
  unfolding part_prefixes_def set_map by (rule imageI) auto

lemma prefix_join:
  assumes "prefix (name_parts a) (name_parts b)"
  shows "a \<in> set (part_prefixes (name_parts b) (length (name_parts b)))"
    and "a \<noteq> b \<Longrightarrow> a \<in> set (part_prefixes (name_parts b) (length (name_parts b) - 1))"
proof -
  define i where "i = length (name_parts a)"
  have t: "name_parts a = take i (name_parts b)" and i: "1 \<le> i" "i \<le> length (name_parts b)"
    using assms by (auto simp: prefix_def i_def name_parts_def Suc_le_eq)
  have a: "a = join ''/'' (take i (name_parts b))"
    unfolding t [symmetric] by (simp add: name_parts_def join_split_char)
  show "a \<in> set (part_prefixes (name_parts b) (length (name_parts b)))"
    by (subst a) (rule part_prefixes_take [OF i])
  show "a \<in> set (part_prefixes (name_parts b) (length (name_parts b) - 1))" if "a \<noteq> b"
  proof -
    have "i \<noteq> length (name_parts b)"
    proof
      assume "i = length (name_parts b)"
      with a have "a = join ''/'' (name_parts b)" by simp
      with that show False by (simp add: name_parts_def join_split_char)
    qed
    with i have "i \<le> length (name_parts b) - 1" by simp
    then show ?thesis by (subst a) (rule part_prefixes_take [OF i(1)])
  qed
qed

section \<open>The invariant of the loop over the entries\<close>

definition accepted_name :: "checked \<Rightarrow> zinfo \<times> string \<times> zmeta \<Rightarrow> bool" where
  "accepted_name st e =
     (case e of (info, name, metadata) \<Rightarrow>
        name = filename info \<and> metadata = metadata_without_hash info name \<and> portable_name name \<and>
        canonical_name name \<in> set (seen (names st)) \<and>
        (let ps = name_parts (canonical_name name)
         in set (part_prefixes ps (length ps)) \<subseteq> set (seen_prefixes (names st))) \<and>
        canonical_name name \<noteq> canonical_name manifest_name)"

definition checked_ok :: "limits \<Rightarrow> checked \<Rightarrow> bool" where
  "checked_ok l st =
     ((\<forall>e \<in> set (infos st). accepted_name st e \<and> 0 \<le> file_size (fst e) \<and> 0 \<le> compress_size (fst e)
         \<and> file_size (fst e) \<le> max_entry_size l
         \<and> (compress_size (fst e) = 0 \<longrightarrow> file_size (fst e) = 0)
         \<and> (\<exists>r. float_of_rat (of_int (file_size (fst e)) / of_int (max (compress_size (fst e)) 1)) = Fin r
              \<and> \<not> f_less (max_ratio l) (Fin r))) \<and>
      sorted_wrt (\<lambda>a b. \<not> alias_conflict (fst (snd a)) (fst (snd b))) (infos st) \<and>
      total_size st = sum_list (map (file_size \<circ> fst) (infos st)) \<and>
      total_compressed st = sum_list (map (compress_size \<circ> fst) (infos st)) \<and>
      (infos st \<noteq> [] \<longrightarrow> total_size st \<le> max_total_size l))"

lemma alias_checks_Inr:
  assumes "alias_checks name st = Inr (n, st')"
  shows "n = name" and "canonical_name name \<noteq> canonical_name manifest_name"
    and "seen st' = canonical_name name # seen st"
    and "seen_prefixes st' = part_prefixes (name_parts (canonical_name name))
           (length (name_parts (canonical_name name))) @ seen_prefixes st"
    and "canonical_name name \<notin> set (seen st)"
    and "canonical_name name \<notin> set (seen_prefixes st)"
    and "\<forall>p \<in> set (part_prefixes (name_parts (canonical_name name))
           (length (name_parts (canonical_name name)) - 1)). p \<notin> set (seen st)"
  using assms
  by (auto simp: alias_checks_def Let_def guardR_Inr_iff name_parts_def list_ex_iff)

lemma member_name_Inr:
  assumes "member_name info st = Inr (n, st')"
  shows "n = filename info" and "portable_name n" and "alias_checks n st = Inr (n, st')"
  using assms shape_checks_portable alias_checks_Inr(1)
  by (fastforce simp: member_name_def bindR_Inr_iff)+

lemma no_conflict:
  assumes acc: "accepted_name st e" and chk: "alias_checks name (names st) = Inr (name, ns)"
  shows "\<not> alias_conflict (fst (snd e)) name"
proof
  let ?a = "canonical_name (fst (snd e))" and ?b = "canonical_name name"
  have a: "?a \<in> set (seen (names st))"
    "set (part_prefixes (name_parts ?a) (length (name_parts ?a))) \<subseteq> set (seen_prefixes (names st))"
    using acc by (auto simp: accepted_name_def Let_def split: prod.splits)
  note b = alias_checks_Inr(5-7) [OF chk]
  assume "alias_conflict (fst (snd e)) name"
  then consider "prefix (name_parts ?a) (name_parts ?b)" | "prefix (name_parts ?b) (name_parts ?a)"
    by (auto simp: alias_conflict_def conflict_def)
  then show False
  proof cases
    case 1
    have "?a \<noteq> ?b" using a(1) b(1) by auto
    from prefix_join(2) [OF 1 this] b(3) a(1) show False by auto
  next
    case 2
    from prefix_join(1) [OF this] a(2) b(2) show False by auto
  qed
qed

lemma accepted_name_mono:
  assumes "accepted_name st e" and "set (seen (names st)) \<subseteq> set (seen (names st'))"
    and "set (seen_prefixes (names st)) \<subseteq> set (seen_prefixes (names st'))"
  shows "accepted_name st' e"
  using assms by (auto simp: accepted_name_def Let_def split: prod.splits)

lemma true_div_Inr: "true_div a b = Inr x \<longleftrightarrow> (\<exists>r. x = Fin r \<and> float_of_rat (of_int a / of_int b) = Fin r)"
  by (auto simp: true_div_def split: pyfloat.splits)

lemma validate_info_sizes_Inr:
  "validate_info_sizes info name tot l = Inr t \<longleftrightarrow>
   0 \<le> file_size info \<and> 0 \<le> compress_size info \<and> file_size info \<le> max_entry_size l \<and>
   t = tot + file_size info \<and> t \<le> max_total_size l \<and>
   (compress_size info = 0 \<longrightarrow> file_size info = 0) \<and>
   (\<exists>r. float_of_rat (of_int (file_size info) / of_int (max (compress_size info) 1)) = Fin r
      \<and> \<not> f_less (max_ratio l) (Fin r))"
  by (auto simp: validate_info_sizes_def guardR_Inr_iff Let_def bindR_Inr_iff true_div_Inr not_less)

lemma check_info_ok:
  assumes "check_info l info st = Inr st'" and "checked_ok l st"
  shows "checked_ok l st'" and "map fst (infos st') = map fst (infos st) @ [info]"
proof -
  from assms(1) obtain name ns t where mn: "member_name info (names st) = Inr (name, ns)"
    and sz: "validate_info_sizes info name (total_size st) l = Inr t"
    and st': "st' = \<lparr>infos = infos st @ [(info, name, metadata_without_hash info name)], names = ns,
            total_size = t, total_compressed = total_compressed st + compress_size info\<rparr>"
    by (auto simp: check_info_def bindR_Inr_iff)
  note n = member_name_Inr [OF mn]
  note a = alias_checks_Inr [OF n(3)]
  have old: "accepted_name st' e" if "e \<in> set (infos st)" for e
    using accepted_name_mono [of st e st'] that assms(2) a(3,4) by (auto simp: checked_ok_def st')
  have new: "accepted_name st' (info, name, metadata_without_hash info name)"
    using n a(2,3,4) by (auto simp: accepted_name_def st' Let_def)
  have nc: "\<forall>e \<in> set (infos st). \<not> alias_conflict (fst (snd e)) name"
    using no_conflict n(3) assms(2) unfolding checked_ok_def by blast
  show "checked_ok l st'"
    using old new nc assms(2) sz
    by (simp add: checked_ok_def st' sorted_wrt_append validate_info_sizes_Inr ball_Un)
  show "map fst (infos st') = map fst (infos st) @ [info]" by (simp add: st')
qed

lemma check_infos_ok:
  "foldR (check_info l) is st = Inr st' \<Longrightarrow> checked_ok l st \<Longrightarrow>
   checked_ok l st' \<and> map fst (infos st') = map fst (infos st) @ is"
  by (induction "is" arbitrary: st) (auto simp: bindR_Inr_iff check_info_ok)

lemma checked_infos_ok:
  assumes "checked_infos infolist l = Inr c"
  shows "checked_ok l c" and "infolist = Inr (map fst (infos c))"
    and "int (length (infos c)) \<le> max_members l"
proof -
  obtain is' where is': "infolist = Inr is'" "int (length is') \<le> max_members l"
    "foldR (check_info l) is' start_checked = Inr c"
    using assms by (auto simp: checked_infos_def guardR_Inr_iff split: sum.splits)
  have "checked_ok l start_checked" by (simp add: checked_ok_def start_checked_def)
  from check_infos_ok [OF is'(3) this] have "checked_ok l c" "map fst (infos c) = is'"
    by (simp_all add: start_checked_def)
  then show "checked_ok l c" "infolist = Inr (map fst (infos c))" "int (length (infos c)) \<le> max_members l"
    using is' by auto
qed

end
