(* ===== verification/Zip_Extract.thy ===== *)
theory Zip_Extract
  imports Zip_Checks
begin

text \<open>
  \<open>tools/safe_zip_ingest.py\<close>, second half: the extraction into a private staging directory,
  its publication by one rename, the clean-up, and the command's exit. Paths are resolved;
  the destination is an entry of its parent directory. A \<open>run\<close> holds what this run meets:
  the second opening of the archive, the name \<open>mkdtemp\<close> picks, which write calls succeed,
  the nodes other processes create before the publication, which nodes of the stage a removal
  with \<open>ignore_errors\<close> leaves (\<open>stage_kept\<close>), whether closing the two directories after their
  \<open>fsync\<close> succeeds, what printing a report raises (\<open>report_out\<close>), and the umask \<open>um\<close>. The
  JSON text of a report is the parameter \<open>dump\<close>.
\<close>

section \<open>The operations\<close>

record zstate =
  disk :: fs
  stage :: "path option"

record run =
  archive_run :: session
  tmp_suffix :: "string option"
  member_io :: "string \<Rightarrow> nat \<Rightarrow> bool"
  fsync_io :: "string \<Rightarrow> bool"
  manifest_io :: bool
  appeared :: "(path \<times> node) list"
  rename_ok :: bool
  stage_kept :: "path \<Rightarrow> bool"
  stage_closes :: bool
  parent_closes :: bool
  report_out :: "zreport \<Rightarrow> (zexc, unit) res"
  um :: "nat \<Rightarrow> nat"

text \<open>One system call; \<open>ok\<close> says whether the machine lets it happen.\<close>

definition sysS :: "bool \<Rightarrow> (fs \<Rightarrow> fs \<times> bool) \<Rightarrow> (zstate, zexc, unit) act" where
  "sysS ok f = (\<lambda>s.
     if \<not> ok then (s, Inl OsErr)
     else case f (disk s) of (g, b) \<Rightarrow> (s\<lparr>disk := g\<rparr>, if b then Inr () else Inl OsErr))"

text \<open>\<open>_destination\<close>, for the entry \<open>name\<close> of the resolved directory \<open>parent\<close>.\<close>

definition check_destination :: "fs \<Rightarrow> path \<Rightarrow> string \<Rightarrow> (zexc, unit) res" where
  "check_destination f parent name =
     guardR (name \<notin> {[], ''.'', ''..''}) (ZipSafety BadDestination)
    (guardR (\<not> lexists f (parent @ [name])) (ZipSafety DestinationExists)
    (guardR (is_dir f parent) (ZipSafety ParentNotDirectory) (Inr ())))"

text \<open>\<open>_consume_member\<close> with a destination: each chunk is checked, then written.\<close>

fun write_reads :: "(nat \<Rightarrow> bool) \<Rightarrow> int \<Rightarrow> string \<Rightarrow> path \<Rightarrow> (zexc, byte list) res list \<Rightarrow>
    byte list \<Rightarrow> nat \<Rightarrow> (zstate, zexc, byte list) act" where
  "write_reads ok expected name p [] acc k = retS acc"
| "write_reads ok expected name p (r # rs) acc k =
     bindS (liftS r) (\<lambda>chunk.
       if chunk = [] then retS acc
       else guardS (\<not> int (length acc + length chunk) > expected) (ZipSafety (ExtraData name))
         (bindS (sysS (ok k) (\<lambda>f. (append_file p chunk f, True)))
           (\<lambda>u. write_reads ok expected name p rs (acc @ chunk) (Suc k))))"

definition create_output :: "run \<Rightarrow> path \<Rightarrow> string \<Rightarrow> (zstate, zexc, unit) act" where
  "create_output rn stg name =
     bindS (sysS (member_io rn name 0)
        (make_dirs stg (butlast (name_parts name)) (um rn 0x1FF) (um rn 0x1C0)))
       (\<lambda>u. sysS (member_io rn name 1) (make_node (stg @ name_parts name) (NFile [] (um rn 0x180))))"

definition consume_to ::
  "(byte list \<Rightarrow> string) \<Rightarrow> run \<Rightarrow> path \<Rightarrow> zinfo \<Rightarrow> string \<Rightarrow> (zstate, zexc, string) act" where
  "consume_to sha rn stg info name =
     rescueS (member_error name)
       (bindS (create_output rn stg name) (\<lambda>u.
        bindS (write_reads (member_io rn name) (file_size info) name (stg @ name_parts name) (zreads info) [] 2)
          (\<lambda>bs. guardS (int (length bs) = file_size info) (ZipSafety (ShortData name))
             (bindS (sysS (fsync_io rn name) (\<lambda>f. (f, True))) (\<lambda>u. retS (sha bs))))))"

text \<open>\<open>expected_members\<close>: the hash the first pass found under a name.\<close>

definition expected_hash :: "zreport \<Rightarrow> string \<Rightarrow> string option" where
  "expected_hash rep name =
     (case map_of (rev (map (\<lambda>m. (m_name m, m_sha256 m)) (r_entries rep))) name of
        None \<Rightarrow> None | Some h \<Rightarrow> h)"

definition extract_member :: "(byte list \<Rightarrow> string) \<Rightarrow> run \<Rightarrow> zreport \<Rightarrow> path \<Rightarrow>
    zinfo \<times> string \<times> zmeta \<Rightarrow> (zstate, zexc, unit) act" where
  "extract_member sha rn expected stg entry = (case entry of (info, name, metadata) \<Rightarrow>
     bindS (consume_to sha rn stg info name) (\<lambda>h.
       guardS (Some h = expected_hash expected name) (ZipSafety (HashChanged name)) (retS ())))"

text \<open>\<open>tempfile.mkdtemp\<close> in the destination's parent; from here on the stage is cleaned up.\<close>

definition stage_path :: "path \<Rightarrow> string \<Rightarrow> string \<Rightarrow> path" where
  "stage_path parent name suf = parent @ [CHR ''.'' # name @ ''.safe-zip-'' @ suf]"

definition make_stage :: "run \<Rightarrow> path \<Rightarrow> string \<Rightarrow> (zstate, zexc, path) act" where
  "make_stage rn parent name = (case tmp_suffix rn of
      None \<Rightarrow> failS OsErr
    | Some suf \<Rightarrow>
        (let stg = stage_path parent name suf
         in bindS (sysS True (make_node stg (NDir (um rn 0x1C0))))
              (\<lambda>u s. (s\<lparr>stage := Some stg\<rparr>, Inr stg))))"

definition write_manifest :: "(zreport \<Rightarrow> byte list) \<Rightarrow> run \<Rightarrow> path \<Rightarrow> zreport \<Rightarrow> (zstate, zexc, unit) act" where
  "write_manifest dump rn stg rep =
     bindS (sysS (manifest_io rn) (write_file (stg @ [manifest_name]) (dump rep) (um rn 0x1B6)))
       (\<lambda>u. bindS (sysS True (\<lambda>f. (chmod (stg @ [manifest_name]) 0x180 f, True)))
       (\<lambda>u. sysS (stage_closes rn) (\<lambda>f. (f, True))))"

definition final_report :: "zreport \<Rightarrow> string \<Rightarrow> checked \<Rightarrow> zreport" where
  "final_report expected label chk =
     expected \<lparr>r_output := Some (label, manifest_name), r_members := length (infos chk),
        r_uncompressed := total_size chk, r_compressed := total_compressed chk\<rparr>"

definition stage_error :: "zexc \<Rightarrow> zexc" where
  "stage_error e = (case e of
      ZipSafety m \<Rightarrow> ZipSafety m | _ \<Rightarrow> if reading_error e then ZipSafety Unreadable else e)"

definition fill_stage :: "(byte list \<Rightarrow> string) \<Rightarrow> (zreport \<Rightarrow> byte list) \<Rightarrow> run \<Rightarrow> path \<Rightarrow> string \<Rightarrow>
    string \<Rightarrow> zreport \<Rightarrow> checked \<Rightarrow> (zstate, zexc, zreport) act" where
  "fill_stage sha dump rn parent name label expected chk =
     guardS (map (fst \<circ> snd) (infos chk) = map m_name (r_entries expected)) (ZipSafety ChangedBetween)
       (bindS (make_stage rn parent name) (\<lambda>stg.
        bindS (forS (infos chk) (extract_member sha rn expected stg)) (\<lambda>u.
        bindS (write_manifest dump rn stg (final_report expected label chk)) (\<lambda>u.
          retS (final_report expected label chk)))))"

definition stage_body :: "(byte list \<Rightarrow> string) \<Rightarrow> (zreport \<Rightarrow> byte list) \<Rightarrow> run \<Rightarrow> limits \<Rightarrow> path \<Rightarrow> string \<Rightarrow>
    string \<Rightarrow> zreport \<Rightarrow> (zstate, zexc, zreport) act" where
  "stage_body sha dump rn l parent name label expected =
     bindS (liftS (hash_archive sha (archive_run rn))) (\<lambda>actual.
       guardS (actual = r_sha256 expected) (ZipSafety ChangedBetween)
         (rescueS stage_error
           (bindS (liftS (bindR (zip_open (archive_run rn)) (\<lambda>infolist. checked_infos infolist l)))
             (fill_stage sha dump rn parent name label expected))))"

text \<open>What others create meanwhile, the last check, the rename, and \<open>_fsync_directory\<close> of the
  parent, whose \<open>os.close\<close> is not guarded: it can raise when the result is published.\<close>

definition publish :: "run \<Rightarrow> path \<Rightarrow> string \<Rightarrow> zreport \<Rightarrow> (zstate, zexc, zreport) act" where
  "publish rn parent name rep = (\<lambda>s.
     let f = disk s ++ map_of (appeared rn); s' = s\<lparr>disk := f\<rparr>; dest = parent @ [name]
     in if lexists f dest then (s', Inl (ZipSafety DestinationAppeared))
        else case stage s of
          None \<Rightarrow> (s', Inl AssertErr)
        | Some stg \<Rightarrow>
            if rename_ok rn
            then (\<lparr>disk = move_tree stg dest f, stage = None\<rparr>, if parent_closes rn then Inr rep else Inl OsErr)
            else (s', Inl OsErr))"

text \<open>The \<open>finally\<close> block removes a stage that was not published, as far as it can be removed.\<close>

definition cleanup :: "run \<Rightarrow> zstate \<Rightarrow> zstate" where
  "cleanup rn s = (case stage s of
      None \<Rightarrow> s | Some stg \<Rightarrow> s\<lparr>disk := rm_tree_ignoring (stage_kept rn) stg (disk s)\<rparr>)"

definition publish_error :: "zexc \<Rightarrow> zexc" where
  "publish_error e = (if e = OsErr then ZipSafety PublishFails else e)"

definition extract_archive :: "(byte list \<Rightarrow> string) \<Rightarrow> (zreport \<Rightarrow> byte list) \<Rightarrow> run \<Rightarrow> limits \<Rightarrow>
    string \<Rightarrow> path \<Rightarrow> string \<Rightarrow> string \<Rightarrow> zreport \<Rightarrow> fs \<Rightarrow> fs \<times> (zexc + zreport)" where
  "extract_archive sha dump rn l archive parent name label expected f =
     (case rescueS publish_error
        (bindS (with_archive archive (archive_run rn)
            (\<lambda>snapshot. stage_body sha dump rn l parent name label expected))
          (publish rn parent name)) \<lparr>disk = f, stage = None\<rparr>
      of (s, r) \<Rightarrow> (disk (cleanup rn s), r))"

section \<open>The commands\<close>

datatype outcome = Printed zreport | Rejected zexc | Traceback zexc

text \<open>The report is printed inside the \<open>try\<close> of \<open>main\<close>, so what \<open>print\<close> raises (\<open>OSError\<close> of a
  closed pipe, \<open>UnicodeEncodeError\<close> of the output's encoding) is caught like a rejection; \<open>main\<close>
  catches everything but \<open>zlib.error\<close>, \<open>OverflowError\<close> and \<open>AssertionError\<close>.\<close>

definition outcome_of :: "(zreport \<Rightarrow> (zexc, unit) res) \<Rightarrow> (zexc, zreport) res \<Rightarrow> outcome" where
  "outcome_of say r = (case bindR r (\<lambda>rep. bindR (say rep) (\<lambda>u. Inr rep)) of
      Inr rep \<Rightarrow> Printed rep
    | Inl e \<Rightarrow> if e \<in> {ZlibErr, OverflowErr, AssertErr} then Traceback e else Rejected e)"

definition zip_inspect :: "(byte list \<Rightarrow> string) \<Rightarrow> (zreport \<Rightarrow> (zexc, unit) res) \<Rightarrow> string \<Rightarrow> string \<Rightarrow> limits \<Rightarrow>
    session \<Rightarrow> outcome" where
  "zip_inspect sha say archive label l ses = outcome_of say (snd (base_report sha archive label l ses ()))"

definition zip_extract :: "(byte list \<Rightarrow> string) \<Rightarrow> (zreport \<Rightarrow> byte list) \<Rightarrow> run \<Rightarrow> limits \<Rightarrow> session \<Rightarrow>
    string \<Rightarrow> string \<Rightarrow> path \<Rightarrow> string \<Rightarrow> string \<Rightarrow> fs \<Rightarrow> fs \<times> outcome" where
  "zip_extract sha dump rn l first archive label parent name dest_label f =
     (case bindR (check_destination f parent name)
             (\<lambda>u. snd (base_report sha archive label l first ())) of
        Inl e \<Rightarrow> (f, outcome_of (report_out rn) (Inl e))
      | Inr report \<Rightarrow>
          (case extract_archive sha dump rn l archive parent name dest_label report f of
             (g, r) \<Rightarrow> (g, outcome_of (report_out rn) r)))"

end
