(* ===== verification/Zip_Publish.thy ===== *)
theory Zip_Publish
  imports Zip_Extract
begin

text \<open>
  The extraction is all or nothing. A run that fails leaves the file system as it was: the
  staging directory is the only place written to, and it is removed. A run that succeeds
  found no destination, and publishes there the files of the archive and the manifest, and
  nothing else.
\<close>

section \<open>Writing only below the stage\<close>

definition inside :: "fs \<Rightarrow> path \<Rightarrow> zstate \<Rightarrow> bool" where
  "inside f stg s \<longleftrightarrow> stage s = Some stg \<and> f stg = None \<and> (\<forall>p. \<not> prefix stg p \<longrightarrow> disk s p = f p)"

definition staged :: "fs \<Rightarrow> run \<Rightarrow> path \<Rightarrow> string \<Rightarrow> zstate \<Rightarrow> bool" where
  "staged f rn parent name s \<longleftrightarrow> (stage s = None \<and> disk s = f) \<or>
     (\<exists>suf. tmp_suffix rn = Some suf \<and> inside f (stage_path parent name suf) s)"

lemma keeps_sysS:
  assumes "\<And>g h b p. F g = (h, b) \<Longrightarrow> \<not> prefix stg p \<Longrightarrow> h p = g p"
  shows "keeps (inside f stg) (sysS ok F)"
proof -
  have "inside f stg (fst (sysS ok F s))" if "inside f stg s" for s
  proof -
    obtain h b where h: "F (disk s) = (h, b)" by fastforce
    with that assms [OF h] show ?thesis by (simp add: sysS_def inside_def)
  qed
  then show ?thesis by (simp add: keeps_def)
qed

lemma make_node_below: "make_node (stg @ q) n g = (h, b) \<Longrightarrow> \<not> prefix stg p \<Longrightarrow> h p = g p"
  by (auto simp: make_node_def split: if_splits)

lemma make_dirs_below: "make_dirs stg cs dm m g = (h, b) \<Longrightarrow> \<not> prefix stg p \<Longrightarrow> h p = g p"
  using make_dirs_effect [of stg cs dm m g h b p] by auto

lemma write_file_below:
  "write_file (stg @ q) bs m g = (h, b) \<Longrightarrow> \<not> prefix stg p \<Longrightarrow> h p = g p"
  by (auto simp: write_file_def dest: make_node_below split: option.splits node.splits)

lemma append_below: "\<not> prefix stg p \<Longrightarrow> append_file (stg @ q) bs g p = g p"
  by (auto simp: append_file_def split: option.splits node.splits)

lemma chmod_below: "\<not> prefix stg p \<Longrightarrow> chmod (stg @ q) m g p = g p"
  by (auto simp: chmod_def split: option.splits node.splits)

lemma keeps_write_reads:
  "keeps (inside f stg) (write_reads ok expected name (stg @ q) rs acc k)"
proof (induction rs arbitrary: acc k)
  case (Cons r rs)
  then show ?case
    by (auto intro!: keeps_intros keeps_sysS simp: append_below)
qed (simp add: keeps_intros)

lemma keeps_extract_member: "keeps (inside f stg) (extract_member sha rn expected stg e)"
  unfolding extract_member_def consume_to_def create_output_def
  by (cases e)
    (auto intro!: keeps_intros keeps_sysS keeps_write_reads
      dest: make_dirs_below make_node_below)

lemma keeps_write_manifest: "keeps (inside f stg) (write_manifest dump rn stg rep)"
  unfolding write_manifest_def
  by (auto intro!: keeps_intros keeps_sysS dest: write_file_below simp: chmod_below)

lemma make_stage_effect:
  assumes "make_stage rn parent name s = (t, r)" and "stage s = None"
  shows "(\<exists>e. r = Inl e \<and> t = s) \<or>
    (\<exists>suf stg. tmp_suffix rn = Some suf \<and> stg = stage_path parent name suf \<and>
       r = Inr stg \<and> disk s stg = None \<and>
       t = \<lparr>disk = (disk s)(stg \<mapsto> NDir (um rn 0x1C0)), stage = Some stg\<rparr>)"
proof (cases "tmp_suffix rn")
  case None
  with assms show ?thesis by (auto simp: make_stage_def)
next
  case (Some suf)
  let ?stg = "stage_path parent name suf"
  obtain g b where m: "make_node ?stg (NDir (um rn 0x1C0)) (disk s) = (g, b)" by fastforce
  show ?thesis
  proof (cases b)
    case True
    with m have "disk s ?stg = None" "g = (disk s)(?stg \<mapsto> NDir (um rn 0x1C0))"
      by (simp_all add: make_node_True)
    with assms Some m True show ?thesis
      by (auto simp: make_stage_def Let_def bindS_eq sysS_def)
  next
    case False
    with m have "g = disk s" by (simp add: make_node_False)
    with assms Some m False show ?thesis
      by (auto simp: make_stage_def Let_def bindS_eq sysS_def)
  qed
qed


lemma fill_stage_staged:
  assumes "stage s = None" and "disk s = f"
  shows "staged f rn parent name (fst (fill_stage sha dump rn parent name label expected chk s))"
proof -
  let ?rest = "\<lambda>stg. bindS (forS (infos chk) (extract_member sha rn expected stg)) (\<lambda>u.
      bindS (write_manifest dump rn stg (final_report expected label chk)) (\<lambda>u.
        retS (final_report expected label chk)))"
  have rest: "keeps (inside f stg) (?rest stg)" for stg
    by (intro keeps_intros keeps_extract_member keeps_write_manifest)
  obtain t r where m: "make_stage rn parent name s = (t, r)" by fastforce
  from make_stage_effect [OF m assms(1)] have "staged f rn parent name (fst (bindS (make_stage rn parent name) ?rest s))"
  proof (elim disjE exE conjE)
    fix e assume "r = Inl e" "t = s"
    with m assms show ?thesis by (simp add: staged_def)
  next
    fix suf stg assume "tmp_suffix rn = Some suf" "stg = stage_path parent name suf"
      and "r = Inr stg" "disk s stg = None"
      and t: "t = \<lparr>disk = (disk s)(stg \<mapsto> NDir (um rn 0x1C0)), stage = Some stg\<rparr>"
    moreover from calculation have "inside f stg t" using assms by (auto simp: inside_def)
    ultimately show ?thesis using m rest [of stg] by (auto simp: staged_def keeps_def)
  qed
  with assms show ?thesis
    by (cases "map (fst \<circ> snd) (infos chk) = map m_name (r_entries expected)")
      (auto simp: fill_stage_def staged_def)
qed

lemma with_archive_cases:
  assumes "with_archive archive ses body s = (t, r)"
  obtains e where "t = s" "r = Inl e"
  | snapshot r' where "body snapshot s = (t, r')" "r = r' \<or> (\<exists>e. r = Inl e)"
proof (cases "open_archive archive ses")
  case (Inl e)
  with assms that(1) show ?thesis by (auto simp: with_archive_def bindS_eq)
next
  case (Inr snapshot)
  note op = this
  show ?thesis
  proof (cases "check_open ses snapshot")
    case (Inl e)
    with op assms that(1) show ?thesis
      by (auto simp: with_archive_def bindS_eq check_close_def split: stat_result.splits if_splits)
  next
    case (Inr u)
    obtain t' r' where "body snapshot s = (t', r')" by fastforce
    with op Inr assms that(2) show ?thesis
      by (auto simp: with_archive_def bindS_eq check_close_def split: stat_result.splits if_splits)
  qed
qed

lemma stage_body_staged:
  assumes "stage s = None" and "disk s = f"
  shows "staged f rn parent name (fst (stage_body sha dump rn l parent name label expected s))"
  using assms fill_stage_staged [OF assms]
  by (auto simp: stage_body_def bindS_eq guardS_def staged_def split: sum.splits)

lemma rm_tree_inside:
  assumes "wf_fs f" and "inside f stg s"
  shows "rm_tree stg (disk s) = f"
proof
  fix p
  show "rm_tree stg (disk s) p = f p"
  proof (cases "prefix stg p")
    case True
    then obtain q where "p = stg @ q" by (auto simp: prefix_def)
    with wf_fs_below [of f stg q] assms show ?thesis by (simp add: rm_tree_def inside_def)
  next
    case False
    with assms show ?thesis by (simp add: rm_tree_def inside_def)
  qed
qed

text \<open>What a removal leaves of the stage, if a stage was made.\<close>

definition stage_residue :: "run \<Rightarrow> path \<Rightarrow> string \<Rightarrow> path \<Rightarrow> bool" where
  "stage_residue rn parent name p = (case tmp_suffix rn of
      None \<Rightarrow> False | Some suf \<Rightarrow> prefix (stage_path parent name suf) p \<and> stage_kept rn p)"

definition same_but_residue :: "run \<Rightarrow> path \<Rightarrow> string \<Rightarrow> fs \<Rightarrow> fs \<Rightarrow> bool" where
  "same_but_residue rn parent name f g \<longleftrightarrow> (\<forall>p. g p = f p \<or> stage_residue rn parent name p)"

lemma same_but_residueI:
  "tmp_suffix rn = Some suf \<Longrightarrow> rm_tree (stage_path parent name suf) g = f \<Longrightarrow>
   same_but_residue rn parent name f (rm_tree_ignoring (stage_kept rn) (stage_path parent name suf) g)"
  using rm_tree_same_but [of "stage_path parent name suf" g f "stage_kept rn"]
  by (simp add: same_but_residue_def stage_residue_def same_but_def)

lemma cleanup_staged:
  assumes "wf_fs f" and "staged f rn parent name s"
  shows "same_but_residue rn parent name f (disk (cleanup rn s))"
proof (cases "stage s")
  case None
  with assms(2) show ?thesis by (auto simp: staged_def inside_def cleanup_def same_but_residue_def)
next
  case (Some stg)
  with assms(2) obtain suf where suf: "tmp_suffix rn = Some suf" "inside f (stage_path parent name suf) s"
    "stg = stage_path parent name suf" by (auto simp: staged_def inside_def)
  from same_but_residueI [OF suf(1) rm_tree_inside [OF assms(1) suf(2)]] Some suf(3) show ?thesis
    by (simp add: cleanup_def)
qed


section \<open>The run as a whole\<close>

text \<open>The nodes other processes create do not lie below this run's private stage.\<close>

definition private_stage :: "run \<Rightarrow> path \<Rightarrow> string \<Rightarrow> bool" where
  "private_stage rn parent name = (case tmp_suffix rn of
      None \<Rightarrow> True
    | Some suf \<Rightarrow> list_all (\<lambda>(p, n). \<not> prefix (stage_path parent name suf) p) (appeared rn))"

lemma appeared_below:
  assumes "private_stage rn parent name" and "tmp_suffix rn = Some suf"
  shows "map_of (appeared rn) (stage_path parent name suf @ q) = None"
proof -
  have "stage_path parent name suf @ q \<notin> fst ` set (appeared rn)"
    using assms by (force simp: private_stage_def list_all_iff)
  then show ?thesis by (simp add: map_of_eq_None_iff)
qed

lemma publish_cases:
  assumes "publish rn parent name rep s = (t, r)"
  obtains e where "r = Inl e" "t = s\<lparr>disk := disk s ++ map_of (appeared rn)\<rparr>"
  | stg where "r = (if parent_closes rn then Inr rep else Inl OsErr)" "stage s = Some stg" "rename_ok rn"
      "\<not> lexists (disk s ++ map_of (appeared rn)) (parent @ [name])"
      "t = \<lparr>disk = move_tree stg (parent @ [name]) (disk s ++ map_of (appeared rn)), stage = None\<rparr>"
  using assms that by (auto simp: publish_def Let_def split: if_splits option.splits)

lemma cleanup_appeared:
  assumes wf: "wf_fs f" and priv: "private_stage rn parent name" and st: "staged f rn parent name s"
  shows "same_but_residue rn parent name (f ++ map_of (appeared rn))
    (disk (cleanup rn (s\<lparr>disk := disk s ++ map_of (appeared rn)\<rparr>)))"
  using st unfolding staged_def
proof (elim disjE exE conjE)
  assume "stage s = None" "disk s = f"
  then show ?thesis by (simp add: cleanup_def same_but_residue_def)
next
  fix suf assume suf: "tmp_suffix rn = Some suf" and ins: "inside f (stage_path parent name suf) s"
  let ?stg = "stage_path parent name suf"
  have "rm_tree ?stg (disk s ++ map_of (appeared rn)) p = (f ++ map_of (appeared rn)) p" for p
  proof (cases "prefix ?stg p")
    case True
    then obtain q where q: "p = ?stg @ q" by (auto simp: prefix_def)
    have "f p = None" using wf_fs_below [of f ?stg q] wf ins by (simp add: inside_def q)
    with True q appeared_below [OF priv suf] show ?thesis by (simp add: rm_tree_def map_add_def)
  next
    case False
    moreover from False ins have "disk s p = f p" by (simp add: inside_def)
    ultimately show ?thesis by (simp add: rm_tree_def map_add_def split: option.splits)
  qed
  then have "rm_tree ?stg (disk s ++ map_of (appeared rn)) = f ++ map_of (appeared rn)" by blast
  from same_but_residueI [OF suf this] ins show ?thesis by (auto simp: cleanup_def inside_def)
qed

lemma extract_archive_cases:
  assumes ext: "extract_archive sha dump rn l archive parent name label expected f = (g, r)"
    and wf: "wf_fs f" and priv: "private_stage rn parent name"
  obtains e where "r = Inl e"
      "same_but_residue rn parent name f g \<or> same_but_residue rn parent name (f ++ map_of (appeared rn)) g"
  | rep suf s where "r = (if parent_closes rn then Inr rep else Inl (ZipSafety PublishFails))"
      "tmp_suffix rn = Some suf"
      "stage_body sha dump rn l parent name label expected \<lparr>disk = f, stage = None\<rparr> = (s, Inr rep)"
      "inside f (stage_path parent name suf) s"
      "\<not> lexists (disk s ++ map_of (appeared rn)) (parent @ [name])"
      "g = move_tree (stage_path parent name suf) (parent @ [name]) (disk s ++ map_of (appeared rn))"
proof -
  let ?s0 = "\<lparr>disk = f, stage = None\<rparr>"
  let ?body = "\<lambda>snapshot :: snap. stage_body sha dump rn l parent name label expected"
  obtain s ra where wa: "with_archive archive (archive_run rn) ?body ?s0 = (s, ra)" by fastforce
  have st: "staged f rn parent name s"
    using wa
  proof (cases rule: with_archive_cases)
    case (1 e)
    then show ?thesis by (simp add: staged_def)
  next
    case (2 snapshot r')
    with stage_body_staged [of ?s0 f rn parent name sha dump l label expected] show ?thesis by simp
  qed
  show thesis
  proof (cases ra)
    case (Inl e)
    with wa ext cleanup_staged [OF wf st] show thesis
      by (intro that(1)) (auto simp: extract_archive_def rescueS_def)
  next
    case (Inr rep)
    obtain t rp where pb: "publish rn parent name rep s = (t, rp)" by fastforce
    have run: "g = disk (cleanup rn t)" "r = (case rp of Inl e \<Rightarrow> Inl (publish_error e) | Inr x \<Rightarrow> Inr x)"
      using wa Inr pb ext by (auto simp: extract_archive_def rescueS_def split: sum.splits)
    from pb show thesis
    proof (cases rule: publish_cases)
      case (1 e)
      with run cleanup_appeared [OF wf priv st] show thesis by (intro that(1)) auto
    next
      case (2 stg)
      with st obtain suf where suf: "tmp_suffix rn = Some suf" "inside f (stage_path parent name suf) s"
        "stg = stage_path parent name suf" by (auto simp: staged_def inside_def)
      obtain snapshot where "?body snapshot ?s0 = (s, Inr rep)"
        using wa Inr by (cases rule: with_archive_cases) auto
      with 2 suf run show thesis by (intro that(2)) (auto simp: cleanup_def publish_error_def)
    qed
  qed
qed


section \<open>What a successful run publishes\<close>

fun file_of :: "node option \<Rightarrow> (byte list \<times> nat) option" where
  "file_of (Some (NFile bs m)) = Some (bs, m)"
| "file_of n = None"

fun is_link_node :: "node option \<Rightarrow> bool" where
  "is_link_node (Some (NLink t)) = True"
| "is_link_node n = False"

definition files_below :: "fs \<Rightarrow> path \<Rightarrow> string list \<Rightarrow> (byte list \<times> nat) option" where
  "files_below f d = (\<lambda>q. file_of (f (d @ q)))"

definition link_free :: "fs \<Rightarrow> path \<Rightarrow> bool" where
  "link_free f d \<longleftrightarrow> (\<forall>q. \<not> is_link_node (f (d @ q)))"

text \<open>The bytes a member holds: what its successive reads yield.\<close>

definition member_data :: "zinfo \<Rightarrow> byte list" where
  "member_data info = (case consume_reads (file_size info) (filename info) (zreads info) [] of
      Inl e \<Rightarrow> [] | Inr bs \<Rightarrow> bs)"

definition member_file :: "run \<Rightarrow> zinfo \<times> string \<times> zmeta \<Rightarrow> string list \<times> byte list \<times> nat" where
  "member_file rn e = (name_parts (filename (fst e)), member_data (fst e), um rn 0x180)"

lemma sysS_Inr:
  "sysS ok F s = (t, Inr u) \<longleftrightarrow> (\<exists>g. ok \<and> F (disk s) = (g, True) \<and> t = s\<lparr>disk := g\<rparr>)"
  by (cases "F (disk s)") (auto simp: sysS_def)

lemma is_dir_file_of: "is_dir_node n \<Longrightarrow> file_of n = None \<and> \<not> is_link_node n"
  by (cases n rule: is_dir_node.cases) auto

lemma make_dirs_files:
  assumes "make_dirs base cs dm m f = (g, b)"
  shows "file_of (g p) = file_of (f p)" and "is_link_node (g p) = is_link_node (f p)"
proof -
  from make_dirs_effect [OF assms, of p]
  have "g p = f p \<or> (f p = None \<and> is_dir_node (g p))" by (auto simp: is_dir_def)
  then show "file_of (g p) = file_of (f p)" "is_link_node (g p) = is_link_node (f p)"
    by (auto dest: is_dir_file_of)
qed

lemma write_reads_file:
  assumes "write_reads ok expected name p rs acc k s = (t, Inr bs)"
    and "disk s p = Some (NFile acc m)"
  shows "consume_reads expected name rs acc = Inr bs \<and>
    t = s\<lparr>disk := (disk s)(p \<mapsto> NFile bs m)\<rparr>"
  using assms
proof (induction rs arbitrary: acc k s)
  case Nil
  then show ?case by (auto simp: fun_upd_idem)
next
  case (Cons r rs)
  then obtain chunk where r: "r = Inr chunk" by (auto simp: bindS_Inr)
  show ?case
  proof (cases "chunk = []")
    case True
    with Cons r show ?thesis by (auto simp: bindS_Inr fun_upd_idem)
  next
    case False
    let ?s = "s\<lparr>disk := (disk s)(p \<mapsto> NFile (acc @ chunk) m)\<rparr>"
    from False Cons.prems r have step: "int (length acc + length chunk) \<le> expected"
      "write_reads ok expected name p rs (acc @ chunk) (Suc k) ?s = (t, Inr bs)"
      by (auto simp: bindS_Inr guardS_Inr sysS_Inr append_file_def)
    from Cons.IH [OF step(2)] step(1) r False show ?thesis
      by (simp add: fun_upd_def cong: if_cong)
  qed
qed

lemma extract_member_files:
  assumes run: "extract_member sha rn expected stg e s = (t, Inr u)" and name: "fst (snd e) = filename (fst e)"
  shows "files_below (disk t) stg = (files_below (disk s) stg)(fst (member_file rn e) \<mapsto> snd (member_file rn e))"
    and "link_free (disk s) stg \<Longrightarrow> link_free (disk t) stg"
    and "length (member_data (fst e)) = nat (file_size (fst e)) \<and> 0 \<le> file_size (fst e) \<and>
         Some (sha (member_data (fst e))) = expected_hash expected (filename (fst e))"
proof -
  obtain info metadata where e: "e = (info, filename info, metadata)" using name by (cases e) auto
  let ?name = "filename info" and ?m = "um rn 0x180"
  let ?p = "stg @ name_parts ?name"
  from run obtain g bs where
    dirs: "make_dirs stg (butlast (name_parts ?name)) (um rn 0x1FF) (um rn 0x1C0) (disk s) = (g, True)"
    and node: "make_node ?p (NFile [] ?m) g = (g(?p \<mapsto> NFile [] ?m), True)"
    and wr: "write_reads (member_io rn ?name) (file_size info) ?name ?p (zreads info) [] 2
        (s\<lparr>disk := g(?p \<mapsto> NFile [] ?m)\<rparr>) = (t, Inr bs)"
    and len: "int (length bs) = file_size info" and hash: "Some (sha bs) = expected_hash expected ?name"
    by (fastforce simp: e extract_member_def consume_to_def create_output_def bindS_Inr guardS_Inr
        sysS_Inr make_node_True)
  from write_reads_file [OF wr]
  have data: "member_data info = bs" and t: "disk t = g(?p \<mapsto> NFile bs ?m)"
    by (simp_all add: member_data_def)
  note same = make_dirs_files [OF dirs]
  show "files_below (disk t) stg = (files_below (disk s) stg)(fst (member_file rn e) \<mapsto> snd (member_file rn e))"
    by (auto simp: files_below_def t member_file_def e data same)
  show "link_free (disk t) stg" if "link_free (disk s) stg"
    using that same by (auto simp: link_free_def t)
  show "length (member_data (fst e)) = nat (file_size (fst e)) \<and> 0 \<le> file_size (fst e) \<and>
         Some (sha (member_data (fst e))) = expected_hash expected (filename (fst e))"
    using len hash by (auto simp: e data)
qed

lemma map_add_snoc: "m(fst e \<mapsto> snd e) ++ map_of xs = m ++ map_of (xs @ [e])"
  by (cases e) (auto simp: map_add_def fun_eq_iff split: option.splits)

lemma extract_members_files:
  assumes "forS es (extract_member sha rn expected stg) s = (t, Inr u)"
    and "\<forall>e \<in> set es. fst (snd e) = filename (fst e)" and "link_free (disk s) stg"
  shows "files_below (disk t) stg = files_below (disk s) stg ++ map_of (rev (map (member_file rn) es)) \<and>
    link_free (disk t) stg \<and>
    (\<forall>e \<in> set es. length (member_data (fst e)) = nat (file_size (fst e)) \<and> 0 \<le> file_size (fst e) \<and>
       Some (sha (member_data (fst e))) = expected_hash expected (filename (fst e)))"
  using assms
proof (induction es arbitrary: s)
  case (Cons e es)
  then obtain s' where s': "extract_member sha rn expected stg e s = (s', Inr ())"
    "forS es (extract_member sha rn expected stg) s' = (t, Inr u)"
    by (auto simp: bindS_Inr)
  note one = extract_member_files [OF s'(1)]
  have "link_free (disk s') stg" using one(2) Cons.prems by simp
  note ih = Cons.IH [OF s'(2) _ this]
  have "files_below (disk t) stg =
      (files_below (disk s) stg)(fst (member_file rn e) \<mapsto> snd (member_file rn e)) ++
        map_of (rev (map (member_file rn) es))"
    using ih Cons.prems(2) by (auto simp only: one(1) list.set ball_simps)
  then have "files_below (disk t) stg =
      files_below (disk s) stg ++ map_of (rev (map (member_file rn) (e # es)))"
    unfolding map_add_snoc by simp
  with ih one(3) Cons.prems(2) show ?case by simp
qed simp


section \<open>The theorems\<close>

definition zip_files :: "(zreport \<Rightarrow> byte list) \<Rightarrow> run \<Rightarrow> zreport \<Rightarrow> zinfo list \<Rightarrow>
    (string list \<times> byte list \<times> nat) list" where
  "zip_files dump rn rep is =
     ([manifest_name], dump rep, 0x180) #
     map (\<lambda>info. (name_parts (filename info), member_data info, um rn 0x180)) is"

lemma files_map: "map (member_file rn) es = map (\<lambda>info. (name_parts (filename info), member_data info, um rn 0x180)) (map fst es)"
  by (simp add: member_file_def)

lemma stage_body_Inr:
  assumes "stage_body sha dump rn l parent name label expected s = (t, Inr rep)"
  obtains chk where "checked_infos (Inr (map fst (infos chk))) l = Inr chk"
    "zip_open (archive_run rn) = Inr (Inr (map fst (infos chk)))"
    "map (fst \<circ> snd) (infos chk) = map m_name (r_entries expected)"
    "fill_stage sha dump rn parent name label expected chk s = (t, Inr rep)"
proof -
  from assms obtain il chk where z: "zip_open (archive_run rn) = Inr il" "checked_infos il l = Inr chk"
    and fill: "fill_stage sha dump rn parent name label expected chk s = (t, Inr rep)"
    by (auto simp: stage_body_def bindS_Inr guardS_Inr bindR_Inr_iff)
  have "il = Inr (map fst (infos chk))" by (rule checked_infos_ok(2) [OF z(2)])
  with z fill that show thesis by (auto simp: fill_stage_def guardS_Inr)
qed

lemma write_manifest_files:
  assumes "write_manifest dump rn stg rep s = (t, Inr u)"
    and "\<And>bs m. disk s (stg @ [manifest_name]) \<noteq> Some (NFile bs m)" and "link_free (disk s) stg"
  shows "files_below (disk t) stg = (files_below (disk s) stg)([manifest_name] \<mapsto> (dump rep, 0x180))"
    and "link_free (disk t) stg"
proof -
  let ?p = "stg @ [manifest_name]"
  from assms(1) obtain g where w: "write_file ?p (dump rep) (um rn 0x1B6) (disk s) = (g, True)"
    and t: "disk t = chmod ?p 0x180 g"
    by (auto simp: write_manifest_def bindS_Inr sysS_Inr)
  from w assms(2) have "g = (disk s)(?p \<mapsto> NFile (dump rep) (um rn 0x1B6))"
    by (auto simp: write_file_def make_node_True split: option.splits node.splits)
  then have "disk t = (disk s)(?p \<mapsto> NFile (dump rep) 0x180)"
    by (simp add: t chmod_def fun_upd_def cong: if_cong)
  with assms(3) show "files_below (disk t) stg = (files_below (disk s) stg)([manifest_name] \<mapsto> (dump rep, 0x180))"
    and "link_free (disk t) stg"
    by (auto simp: files_below_def link_free_def)
qed


lemma name_parts_inject: "name_parts a = name_parts b \<Longrightarrow> a = b"
  using join_split_char [of "CHR ''/''"] unfolding name_parts_def by metis

lemma distinct_sorted_wrt: "distinct xs \<longleftrightarrow> sorted_wrt (\<noteq>) xs"
  by (induction xs) auto

lemma map_of_rev_distinct: "distinct (map fst xs) \<Longrightarrow> map_of (rev xs) = map_of xs"
  by (subst map_of_inject_set) (simp_all flip: rev_map)

lemma checked_names:
  assumes "checked_ok l chk"
  shows "distinct (map (filename \<circ> fst) (infos chk))"
    and "\<forall>e \<in> set (infos chk). fst (snd e) = filename (fst e)"
    and "\<forall>e \<in> set (infos chk). filename (fst e) \<noteq> manifest_name"
proof -
  show nm: "\<forall>e \<in> set (infos chk). fst (snd e) = filename (fst e)"
    using assms by (auto simp: checked_ok_def accepted_name_def)
  show "\<forall>e \<in> set (infos chk). filename (fst e) \<noteq> manifest_name"
    using assms by (auto simp: checked_ok_def accepted_name_def)
  have "sorted_wrt (\<lambda>a b. \<not> alias_conflict (fst (snd a)) (fst (snd b))) (infos chk)"
    using assms by (simp add: checked_ok_def)
  then have "sorted_wrt (\<lambda>a b. filename (fst a) \<noteq> filename (fst b)) (infos chk)"
    by (rule sorted_wrt_mono_rel [rotated]) (use nm in \<open>auto simp: alias_conflict_def conflict_def\<close>)
  then show "distinct (map (filename \<circ> fst) (infos chk))"
    by (simp add: distinct_sorted_wrt sorted_wrt_map)
qed


lemma fill_stage_files:
  assumes run: "fill_stage sha dump rn parent name label expected chk s = (t, Inr rep)"
    and s: "stage s = None" "wf_fs (disk s)" and chk: "checked_ok l chk"
    and stg: "stage t = Some stg"
  shows "files_below (disk t) stg = map_of (zip_files dump rn rep (map fst (infos chk)))"
    and "link_free (disk t) stg"
    and "\<forall>e \<in> set (infos chk). length (member_data (fst e)) = nat (file_size (fst e)) \<and>
       0 \<le> file_size (fst e) \<and>
       Some (sha (member_data (fst e))) = expected_hash expected (filename (fst e))"
    and "rep = final_report expected label chk"
proof -
  let ?es = "infos chk"
  from run obtain s1 stg' s2 where mk: "make_stage rn parent name s = (s1, Inr stg')"
    and ex: "forS ?es (extract_member sha rn expected stg') s1 = (s2, Inr ())"
    and wm: "write_manifest dump rn stg' rep s2 = (t, Inr ())"
    and rep: "rep = final_report expected label chk"
    by (auto simp: fill_stage_def guardS_Inr bindS_Inr)
  show "rep = final_report expected label chk" by (rule rep)
  from make_stage_effect [OF mk s(1)] have new: "disk s stg' = None" "stage s1 = Some stg'"
    "disk s1 = (disk s)(stg' \<mapsto> NDir (um rn 0x1C0))" by auto
  have below: "disk s1 (stg' @ q) = (if q = [] then Some (NDir (um rn 0x1C0)) else None)" for q
    using wf_fs_below [OF s(2) new(1), of q] new by simp
  have fresh: "files_below (disk s1) stg' = Map.empty" "link_free (disk s1) stg'"
    by (auto simp: files_below_def link_free_def below)
  note nm = checked_names [OF chk]
  from extract_members_files [OF ex nm(2) fresh(2)] fresh(1)
  have files: "files_below (disk s2) stg' = map_of (rev (map (member_file rn) ?es))"
    "link_free (disk s2) stg'"
    "\<forall>e \<in> set ?es. length (member_data (fst e)) = nat (file_size (fst e)) \<and> 0 \<le> file_size (fst e) \<and>
       Some (sha (member_data (fst e))) = expected_hash expected (filename (fst e))"
    by simp_all
  show "\<forall>e \<in> set ?es. length (member_data (fst e)) = nat (file_size (fst e)) \<and> 0 \<le> file_size (fst e) \<and>
       Some (sha (member_data (fst e))) = expected_hash expected (filename (fst e))"
    by (rule files(3))
  have keys: "map fst (map (member_file rn) ?es) = map name_parts (map (filename \<circ> fst) ?es)"
    by (simp add: member_file_def)
  have dist: "distinct (map fst (map (member_file rn) ?es))"
    unfolding keys using nm(1) name_parts_inject
    by (subst distinct_map) (auto intro: inj_onI)
  have parts: "name_parts manifest_name = [manifest_name]"
    by (simp add: name_parts_def manifest_name_def)
  have "[manifest_name] \<notin> fst ` set (map (member_file rn) ?es)"
  proof
    assume "[manifest_name] \<in> fst ` set (map (member_file rn) ?es)"
    then obtain e where "e \<in> set ?es" "name_parts (filename (fst e)) = name_parts manifest_name"
      by (auto simp: member_file_def parts)
    with nm(3) name_parts_inject show False by blast
  qed
  then have none: "files_below (disk s2) stg' [manifest_name] = None"
    by (simp add: files(1) map_of_eq_None_iff)
  have "disk s2 (stg' @ [manifest_name]) \<noteq> Some (NFile bs m)" for bs m
    using none by (auto simp: files_below_def)
  note wrote = write_manifest_files [OF wm this files(2)]
  have "stage t = Some stg'"
  proof -
    have "inside (disk s) stg' s1" using new by (simp add: inside_def)
    then have "inside (disk s) stg' s2"
      using keepsD [OF keeps_for [where I = "inside (disk s) stg'"] _ ex] keeps_extract_member by blast
    then have "inside (disk s) stg' t"
      using keepsD [OF keeps_write_manifest _ wm] by blast
    then show ?thesis by (simp add: inside_def)
  qed
  with stg have eq: "stg' = stg" by simp
  show "link_free (disk t) stg" using wrote(2) eq by simp
  show "files_below (disk t) stg = map_of (zip_files dump rn rep (map fst ?es))"
    using wrote(1) files(1) map_of_rev_distinct [OF dist] eq
    by (simp add: zip_files_def files_map del: map_map)
qed


lemma expected_hashes:
  assumes "distinct (map m_name (r_entries rep))" and "e \<in> set (r_entries rep)"
  shows "expected_hash rep (m_name e) = m_sha256 e"
proof -
  let ?xs = "map (\<lambda>m. (m_name m, m_sha256 m)) (r_entries rep)"
  have d: "distinct (map fst ?xs)" using assms(1) by (simp add: o_def)
  have "map_of ?xs (m_name e) = Some (m_sha256 e)"
    using assms(2) d by (intro map_of_is_SomeI) auto
  then show ?thesis by (simp add: expected_hash_def map_of_rev_distinct [OF d])
qed

lemma final_hashes:
  assumes names: "map filename is = map m_name (r_entries rep)" and d: "distinct (map filename is)"
    and h: "\<forall>info \<in> set is. Some (sha (member_data info)) = expected_hash rep (filename info)"
  shows "map m_sha256 (r_entries rep) = map (\<lambda>info. Some (sha (member_data info))) is"
proof (rule nth_equalityI)
  have len: "length is = length (r_entries rep)" using names by (metis length_map)
  then show "length (map m_sha256 (r_entries rep)) = length (map (\<lambda>info. Some (sha (member_data info))) is)"
    by simp
  fix i assume "i < length (map m_sha256 (r_entries rep))"
  then have i: "i < length (r_entries rep)" "i < length is" using len by auto
  have "filename (is ! i) = m_name (r_entries rep ! i)"
    using names i by (metis nth_map)
  moreover have "expected_hash rep (m_name (r_entries rep ! i)) = m_sha256 (r_entries rep ! i)"
    using expected_hashes d names i(1) nth_mem by metis
  ultimately show "map m_sha256 (r_entries rep) ! i = map (\<lambda>info. Some (sha (member_data info))) is ! i"
    using h i by (simp add: nth_mem)
qed

lemma moved_outside:
  assumes "inside f (stage_path parent name suf) s" and "wf_fs f"
    and "private_stage rn parent name" and "tmp_suffix rn = Some suf"
    and "\<not> prefix (parent @ [name]) p"
  shows "move_tree (stage_path parent name suf) (parent @ [name]) (disk s ++ m) p =
    (if prefix (stage_path parent name suf) p then None else (f ++ m) p)"
  using assms(1,5) by (auto simp: move_tree_def inside_def map_add_def split: option.splits)

text \<open>A run ends with the file system it found, up to what is left of its stage, or it publishes.\<close>

lemma extract_archive_outcomes:
  assumes ext: "extract_archive sha dump rn l archive parent name label expected f = (g, r)"
    and wf: "wf_fs f" and priv: "private_stage rn parent name"
  obtains (failed) e where "r = Inl e"
    "same_but_residue rn parent name f g \<or> same_but_residue rn parent name (f ++ map_of (appeared rn)) g"
  | (published) rep "is" where "r = (if parent_closes rn then Inr rep else Inl (ZipSafety PublishFails))"
    "zip_open (archive_run rn) = Inr (Inr is)"
    "\<not> lexists (f ++ map_of (appeared rn)) (parent @ [name])"
    "\<And>p. \<not> prefix (parent @ [name]) p \<Longrightarrow> g p = (f ++ map_of (appeared rn)) p"
    "files_below g (parent @ [name]) = map_of (zip_files dump rn rep is)"
    "link_free g (parent @ [name])"
    "map filename is = map m_name (r_entries rep)"
    "map m_sha256 (r_entries rep) = map (\<lambda>info. Some (sha (member_data info))) is"
  using ext wf priv
proof (cases rule: extract_archive_cases)
  case (1 e)
  then show thesis by (rule failed)
next
  case (2 rep suf s)
  let ?stg = "stage_path parent name suf" and ?dest = "parent @ [name]" and ?m = "map_of (appeared rn)"
  have "disk \<lparr>disk = f, stage = None\<rparr> = f" "stage \<lparr>disk = f, stage = None\<rparr> = (None :: path option)"
    by simp_all
  from 2(3) obtain chk where chk: "checked_infos (Inr (map fst (infos chk))) l = Inr chk"
    and zip: "zip_open (archive_run rn) = Inr (Inr (map fst (infos chk)))"
    and names: "map (fst \<circ> snd) (infos chk) = map m_name (r_entries expected)"
    and fill: "fill_stage sha dump rn parent name label expected chk \<lparr>disk = f, stage = None\<rparr> = (s, Inr rep)"
    by (rule stage_body_Inr)
  note ok = checked_infos_ok(1) [OF chk]
  note files = fill_stage_files [OF fill _ _ ok, of ?stg]
  have stg: "stage s = Some ?stg" using 2(4) by (simp add: inside_def)
  have below: "g (?dest @ q) = disk s (?stg @ q)" for q
    using appeared_below [OF priv 2(2), of q] by (simp add: 2(6) move_tree_def map_add_def)
  have apart: "\<not> prefix ?stg ?dest" by (auto simp: stage_path_def)
  have entries: "r_entries rep = r_entries expected" using files(4) stg wf by (simp add: final_report_def)
  have fnames: "map filename (map fst (infos chk)) = map m_name (r_entries rep)"
    using names checked_names(2) [OF ok] by (simp add: entries) (metis (no_types, lifting) comp_apply map_cong)
  show thesis
  proof (rule published [OF 2(1) zip])
    show "\<not> lexists (f ++ ?m) ?dest"
      using 2(4,5) apart by (auto simp: inside_def lexists_def map_add_def split: option.splits)
    show "g p = (f ++ ?m) p" if "\<not> prefix ?dest p" for p
    proof (cases "prefix ?stg p")
      case True
      then obtain q where "p = ?stg @ q" by (auto simp: prefix_def)
      with appeared_below [OF priv 2(2), of q] wf_fs_below [of f ?stg q] wf 2(4)
      have "(f ++ ?m) p = None" by (simp add: map_add_def inside_def)
      with True show ?thesis by (simp only: 2(6) moved_outside [OF 2(4) wf priv 2(2) that] if_True)
    qed (simp add: 2(6) moved_outside [OF 2(4) wf priv 2(2) that])
    show "files_below g ?dest = map_of (zip_files dump rn rep (map fst (infos chk)))"
      using files(1) stg wf unfolding files_below_def below by simp
    show "link_free g ?dest" using files(2) stg wf unfolding link_free_def below by simp
    show "map filename (map fst (infos chk)) = map m_name (r_entries rep)" by (rule fnames)
    have "\<forall>info \<in> set (map fst (infos chk)). Some (sha (member_data info)) = expected_hash rep (filename info)"
      using files(3) stg wf by (simp add: expected_hash_def entries)
    then show "map m_sha256 (r_entries rep) = map (\<lambda>info. Some (sha (member_data info))) (map fst (infos chk))"
      using checked_names(1) [OF ok] by (intro final_hashes fnames) simp
  qed
qed

text \<open>Success is reported when the run returns the report and it can be printed.\<close>

lemma outcome_Printed: "outcome_of say r = Printed rep \<longleftrightarrow> r = Inr rep \<and> say rep = Inr ()"
  by (auto simp: outcome_of_def bindR_Inr_iff bindR_Inl_iff split: sum.splits)

lemma extract_Printed:
  assumes "zip_extract sha dump rn l first archive label parent name dest_label f = (g, Printed rep)"
  obtains report where "extract_archive sha dump rn l archive parent name dest_label report f = (g, Inr rep)"
    "report_out rn rep = Inr ()"
proof (cases "bindR (check_destination f parent name) (\<lambda>u. snd (base_report sha archive label l first ()))")
  case (Inl e)
  with assms outcome_Printed [of "report_out rn" "Inl e" rep] show thesis by (simp add: zip_extract_def)
next
  case (Inr report)
  with assms that show thesis
    by (auto simp: zip_extract_def outcome_Printed split: prod.splits)
qed

end
