(* ===== verification/Zip_Live.thy ===== *)
theory Zip_Live
  imports Zip_Publish
begin

text \<open>
  A complete archive is extracted: when the archive does not change, its entries pass the
  checks, every member yields the bytes it announces and the machine lets the system calls
  through, the command succeeds. The checks on the names are what makes this true: no entry
  is a directory of another, so neither \<open>mkdir\<close> nor the exclusive \<open>open\<close> meets a collision.
\<close>

section \<open>Case folding works component by component\<close>

lemma split_char_free_append:
  "c \<notin> set us \<Longrightarrow> split_char c (us @ ds) =
     (us @ hd (split_char c ds)) # tl (split_char c ds)"
proof (induction us)
  case Nil
  then show ?case by (cases "split_char c ds") auto
next
  case (Cons u us)
  then have "u \<noteq> c" by auto
  with Cons show ?case by simp
qed

lemma fold_char_slash: "CHR ''/'' \<in> set (fold_char c) \<longleftrightarrow> c = CHR ''/''"
proof -
  have "lower_char c = CHR ''/'' \<longleftrightarrow> c = CHR ''/''"
  proof
    assume l: "lower_char c = CHR ''/''"
    show "c = CHR ''/''"
    proof (rule ccontr)
      assume ne: "c \<noteq> CHR ''/''"
      with l have "char_of (of_char c + 32 :: nat) = CHR ''/''" "(of_char c :: nat) \<le> 222" "65 \<le> (of_char c :: nat)"
        by (auto simp: lower_char_def Let_def split: if_splits)
      then have "of_char (char_of (of_char c + 32 :: nat)) = (47 :: nat)" by simp
      with \<open>(of_char c :: nat) \<le> 222\<close> \<open>65 \<le> (of_char c :: nat)\<close> show False by simp
    qed
  qed (simp add: lower_char_def)
  then show ?thesis by (auto simp: fold_char_def)
qed

lemma name_parts_casefold: "name_parts (casefold n) = map casefold (name_parts n)"
proof (induction n)
  case Nil
  then show ?case by (simp add: name_parts_def casefold_def)
next
  case (Cons c n)
  have ne: "name_parts n \<noteq> []" by (simp add: name_parts_def)
  show ?case
  proof (cases "c = CHR ''/''")
    case True
    then have "casefold (c # n) = CHR ''/'' # casefold n"
      by (simp add: casefold_def fold_char_def lower_char_def)
    with Cons True show ?thesis by (simp add: name_parts_def casefold_def)
  next
    case False
    then have free: "CHR ''/'' \<notin> set (fold_char c)" by (simp add: fold_char_slash)
    have "casefold (c # n) = fold_char c @ casefold n" by (simp add: casefold_def)
    then have "name_parts (casefold (c # n)) =
        (fold_char c @ hd (name_parts (casefold n))) # tl (name_parts (casefold n))"
      using split_char_free_append [OF free] by (simp add: name_parts_def)
    with Cons False ne show ?thesis
      by (cases "name_parts n") (auto simp: name_parts_def casefold_def)
  qed
qed

lemma alias_conflict_names:
  "conflict (name_parts a) (name_parts b) \<Longrightarrow> alias_conflict a b"
  unfolding alias_conflict_def conflict_def canonical_name_def name_parts_casefold
  by (auto simp: map_mono_prefix)

section \<open>Making directories succeeds\<close>

lemma make_dirs_succeeds:
  assumes "is_dir f base"
    and "\<And>i. 0 < i \<Longrightarrow> i \<le> length cs \<Longrightarrow> f (base @ take i cs) = None \<or> is_dir f (base @ take i cs)"
  shows "\<exists>g. make_dirs base cs dm m f = (g, True) \<and> is_dir g base \<and> is_dir g (base @ cs) \<and>
    (\<forall>p. g p = f p \<or> (f p = None \<and> is_dir g p \<and> (\<exists>i. 0 < i \<and> i \<le> length cs \<and> p = base @ take i cs)))"
proof -
  have "\<exists>g. make_dirs base cs dm m f = (g, True) \<and> is_dir g (base @ cs)"
    using assms
  proof (induction base cs dm m f rule: make_dirs.induct)
    case (2 base c cs dm m f)
    have c: "f (base @ [c]) = None \<or> is_dir f (base @ [c])" using 2(4) [of 1] by simp
    have later: "f ((base @ [c]) @ take i cs) = None \<or> is_dir f ((base @ [c]) @ take i cs)"
      if "0 < i" "i \<le> length cs" for i using 2(4) [of "Suc i"] that by simp
    show ?case
    proof (cases "lexists f (base @ [c])")
      case True
      with c have dir: "is_dir f (base @ [c])" by (auto simp: lexists_def)
      from 2(1) [OF True dir dir later] True dir show ?thesis by auto
    next
      case False
      define h where "h = f(base @ [c] \<mapsto> NDir (if cs = [] then m else dm))"
      from False 2(3) have mk: "make_node (base @ [c]) (NDir (if cs = [] then m else dm)) f = (h, True)"
        by (simp add: make_node_True lexists_def h_def)
      have dir: "is_dir h (base @ [c])" by (simp add: is_dir_def h_def)
      have "h ((base @ [c]) @ take i cs) = None \<or> is_dir h ((base @ [c]) @ take i cs)"
        if "0 < i" "i \<le> length cs" for i
      proof -
        have "(base @ [c]) @ take i cs \<noteq> base @ [c]" using that by auto
        with later [OF that] show ?thesis by (simp add: is_dir_def h_def)
      qed
      from 2(2) [OF False mk [symmetric] _ dir this] False mk show ?thesis by auto
    qed
  qed simp
  then obtain g where g: "make_dirs base cs dm m f = (g, True)" "is_dir g (base @ cs)" by blast
  have "is_dir g base" using make_dirs_effect [OF g(1), of base] assms(1) by (auto simp: is_dir_def)
  with g make_dirs_effect [OF g(1)] show ?thesis by blast
qed


section \<open>Writing a member succeeds\<close>

text \<open>Below the stage there are the members written so far and the directories above them.\<close>

definition tree_ok :: "path \<Rightarrow> string list \<Rightarrow> zstate \<Rightarrow> bool" where
  "tree_ok stg ns s \<longleftrightarrow> stage s = Some stg \<and> is_dir (disk s) stg \<and>
     (\<forall>q. q \<noteq> [] \<longrightarrow> disk s (stg @ q) \<noteq> None \<longrightarrow>
        (is_dir (disk s) (stg @ q) \<and> (\<exists>n \<in> set ns. strict_prefix q (name_parts n))) \<or>
        (\<exists>n \<in> set ns. q = name_parts n))"

lemma name_parts_ne [simp]: "name_parts n \<noteq> []"
  by (simp add: name_parts_def)

lemma write_reads_runs:
  "consume_reads expected name rs acc = Inr bs \<Longrightarrow> (\<And>k. ok k) \<Longrightarrow>
   \<exists>t. write_reads ok expected name p rs acc k s = (t, Inr bs)"
proof (induction rs arbitrary: acc k s)
  case (Cons r rs)
  then obtain chunk where r: "r = Inr chunk" by (auto simp: bindR_Inr_iff)
  show ?case
  proof (cases "chunk = []")
    case False
    with Cons r have step: "int (length acc + length chunk) \<le> expected"
      "consume_reads expected name rs (acc @ chunk) = Inr bs" by (auto simp: guardR_Inr_iff)
    from Cons.IH [OF step(2) Cons.prems(2)] step(1) r False Cons.prems(2) show ?thesis
      by (simp add: sysS_def)
  qed (use Cons r in auto)
qed simp

lemma tree_free:
  assumes "tree_ok stg ns s" and "\<forall>n \<in> set ns. \<not> conflict (name_parts n) ps" and "ps \<noteq> []"
  shows "disk s (stg @ ps) = None"
    and "prefix q ps \<Longrightarrow> disk s (stg @ q) = None \<or> is_dir (disk s) (stg @ q)"
proof -
  show "disk s (stg @ ps) = None"
  proof (rule ccontr)
    assume "disk s (stg @ ps) \<noteq> None"
    with assms(1,3) have "(\<exists>n \<in> set ns. strict_prefix ps (name_parts n)) \<or> (\<exists>n \<in> set ns. ps = name_parts n)"
      by (auto simp: tree_ok_def)
    with assms(2) show False by (auto simp: conflict_def)
  qed
  show "disk s (stg @ q) = None \<or> is_dir (disk s) (stg @ q)" if "prefix q ps"
  proof (cases "q = []")
    case True
    with assms(1) show ?thesis by (simp add: tree_ok_def)
  next
    case False
    with assms that show ?thesis by (fastforce simp: tree_ok_def conflict_def)
  qed
qed

lemma extract_member_succeeds:
  assumes tree: "tree_ok stg ns s" and free: "\<forall>n \<in> set ns. \<not> conflict (name_parts n) (name_parts name)"
    and io: "\<And>k. member_io rn name k" "fsync_io rn name"
    and reads: "consume_reads (file_size info) name (zreads info) [] = Inr bs"
    and len: "int (length bs) = file_size info" and hash: "expected_hash expected name = Some (sha bs)"
  shows "\<exists>t. extract_member sha rn expected stg (info, name, md) s = (t, Inr ()) \<and> tree_ok stg (name # ns) t"
proof -
  let ?ps = "name_parts name" and ?ds = "butlast (name_parts name)" and ?m = "um rn 0x180"
  note tf = tree_free [OF tree free name_parts_ne]
  have dir: "is_dir (disk s) stg" using tree by (simp add: tree_ok_def)
  have "disk s (stg @ take i ?ds) = None \<or> is_dir (disk s) (stg @ take i ?ds)" for i
    by (rule tf(2)) (metis butlast_conv_take take_is_prefix prefix_order.trans)
  from make_dirs_succeeds [OF dir this] obtain g where
    g: "make_dirs stg ?ds (um rn 0x1FF) (um rn 0x1C0) (disk s) = (g, True)" "is_dir g (stg @ ?ds)" "is_dir g stg"
    and eff: "\<And>p. g p = disk s p \<or> (disk s p = None \<and> is_dir g p \<and>
        (\<exists>i. 0 < i \<and> i \<le> length ?ds \<and> p = stg @ take i ?ds))" by metis
  have new: "g (stg @ ?ps) = None"
  proof -
    have "take i ?ds \<noteq> ?ps" for i
    proof
      assume "take i ?ds = ?ps"
      then have "length ?ps = min i (length ?ps - 1)" by (metis length_take length_butlast min.commute)
      moreover have "0 < length ?ps" by simp
      ultimately show False by linarith
    qed
    then show ?thesis using eff [of "stg @ ?ps"] tf(1) by (metis same_append_eq)
  qed
  define h where "h = g(stg @ ?ps \<mapsto> NFile [] ?m)"
  have mk: "make_node (stg @ ?ps) (NFile [] ?m) g = (h, True)"
    using new g(2) by (simp add: make_node_True h_def butlast_append)
  have create: "create_output rn stg name s = (s\<lparr>disk := h\<rparr>, Inr ())"
    using io(1) g(1) mk by (simp add: create_output_def bindS_def sysS_def)
  obtain t where wr: "write_reads (member_io rn name) (file_size info) name (stg @ ?ps) (zreads info) [] 2
      (s\<lparr>disk := h\<rparr>) = (t, Inr bs)"
    using write_reads_runs [OF reads, of "member_io rn name"] io(1) by blast
  have "disk (s\<lparr>disk := h\<rparr>) (stg @ ?ps) = Some (NFile [] ?m)" by (simp add: h_def)
  with write_reads_file [OF wr] have t: "t = s\<lparr>disk := h(stg @ ?ps \<mapsto> NFile bs ?m)\<rparr>" by simp
  have "extract_member sha rn expected stg (info, name, md) s = (t, Inr ())"
    using create wr len io hash
    by (simp add: extract_member_def consume_to_def bindS_def sysS_def rescueS_def)
  moreover have "tree_ok stg (name # ns) t"
  proof -
    have "(is_dir (disk t) (stg @ q) \<and> (\<exists>n \<in> set (name # ns). strict_prefix q (name_parts n))) \<or>
        (\<exists>n \<in> set (name # ns). q = name_parts n)" if q: "q \<noteq> []" "disk t (stg @ q) \<noteq> None" for q
    proof (cases "q = ?ps")
      case True
      then show ?thesis by simp
    next
      case False
      then have same: "disk t (stg @ q) = g (stg @ q)" by (simp add: t h_def)
      from eff [of "stg @ q"] show ?thesis
      proof
        assume old: "g (stg @ q) = disk s (stg @ q)"
        with q same tree have "(is_dir (disk s) (stg @ q) \<and> (\<exists>n \<in> set ns. strict_prefix q (name_parts n))) \<or>
          (\<exists>n \<in> set ns. q = name_parts n)" by (simp add: tree_ok_def)
        with old same show ?thesis by (auto simp: is_dir_def)
      next
        assume add: "disk s (stg @ q) = None \<and> is_dir g (stg @ q) \<and>
            (\<exists>i. 0 < i \<and> i \<le> length ?ds \<and> stg @ q = stg @ take i ?ds)"
        then have "prefix q ?ps" by (metis same_append_eq butlast_conv_take take_is_prefix prefix_order.trans)
        with False add same show ?thesis by (auto simp: is_dir_def strict_prefix_def)
      qed
    qed
    moreover have "is_dir (disk t) stg" using g(3) by (simp add: t h_def is_dir_def)
    moreover have "stage t = Some stg" using tree by (simp add: t tree_ok_def)
    ultimately show ?thesis by (simp add: tree_ok_def)
  qed
  ultimately show ?thesis by blast
qed


section \<open>The whole run\<close>

definition complete_member :: "zinfo \<Rightarrow> bool" where
  "complete_member info =
     (case consume_reads (file_size info) (filename info) (zreads info) [] of
        Inl e \<Rightarrow> False | Inr bs \<Rightarrow> int (length bs) = file_size info)"

lemma complete_member_data:
  "complete_member info \<Longrightarrow>
   consume_reads (file_size info) (filename info) (zreads info) [] = Inr (member_data info) \<and>
   int (length (member_data info)) = file_size info"
  by (auto simp: complete_member_def member_data_def split: sum.splits)

lemma extract_members_succeed:
  assumes "tree_ok stg ns s"
    and "\<forall>e \<in> set es. fst (snd e) = filename (fst e) \<and> complete_member (fst e) \<and>
        expected_hash expected (filename (fst e)) = Some (sha (member_data (fst e)))"
    and "\<forall>e \<in> set es. \<forall>n \<in> set ns. \<not> conflict (name_parts n) (name_parts (filename (fst e)))"
    and "sorted_wrt (\<lambda>a b. \<not> conflict (name_parts (filename (fst a))) (name_parts (filename (fst b)))) es"
    and "\<And>n k. member_io rn n k" "\<And>n. fsync_io rn n"
  shows "\<exists>t. forS es (extract_member sha rn expected stg) s = (t, Inr ()) \<and>
    tree_ok stg (rev (map (filename \<circ> fst) es) @ ns) t"
  using assms(1-4)
proof (induction es arbitrary: ns s)
  case (Cons e es)
  obtain info md where e: "e = (info, filename info, md)" using Cons.prems(2) by (cases e) auto
  have "complete_member info" and h: "expected_hash expected (filename info) = Some (sha (member_data info))"
    using Cons.prems(2) by (simp_all add: e)
  note data = complete_member_data [OF this(1)]
  have "\<forall>n \<in> set ns. \<not> conflict (name_parts n) (name_parts (filename info))"
    using Cons.prems(3) by (simp add: e)
  then have "\<exists>t. extract_member sha rn expected stg e s = (t, Inr ()) \<and> tree_ok stg (filename info # ns) t"
    unfolding e using assms(5,6) data h
    by (intro extract_member_succeeds [where bs = "member_data info"] Cons.prems(1)) simp_all
  then obtain s' where
    s': "extract_member sha rn expected stg e s = (s', Inr ())" "tree_ok stg (filename info # ns) s'"
    by blast
  have "\<exists>t. forS es (extract_member sha rn expected stg) s' = (t, Inr ()) \<and>
      tree_ok stg (rev (map (filename \<circ> fst) es) @ (filename info # ns)) t"
    using Cons.prems(2-4) by (intro Cons.IH [OF s'(2)]) (auto simp: e)
  with s'(1) show ?case by (auto simp: e o_def)
qed simp

text \<open>Nothing changes the archive between the two openings, and no call fails.\<close>

definition steady :: "string \<Rightarrow> session \<Rightarrow> zinfo list \<Rightarrow> bool" where
  "steady archive ses is =
     (case at_lstat ses of
        Stat kind sn \<Rightarrow> kind = RegularKind \<and> 0 < snap_size sn \<and> open_ok ses \<and>
          at_fstat ses = Stat RegularKind sn \<and> at_close ses = Stat RegularKind sn \<and>
          stream ses \<noteq> None \<and> zip_open ses = Inr (Inr is) \<and>
          reject_part_name archive = Inr ()
      | _ \<Rightarrow> False)"

lemma steadyD:
  assumes "steady archive ses is"
  obtains sn bs where "at_lstat ses = Stat RegularKind sn" "stream ses = Some bs" "zip_open ses = Inr (Inr is)"
  using assms by (auto simp: steady_def split: stat_result.splits)

lemma steady_with_archive:
  assumes "steady archive ses is" and "at_lstat ses = Stat RegularKind sn"
  shows "with_archive archive ses body s = body sn s"
proof -
  from assms have st: "open_ok ses" "at_fstat ses = Stat RegularKind sn"
    "at_close ses = Stat RegularKind sn" "reject_part_name archive = Inr ()" "0 < snap_size sn"
    by (auto simp: steady_def)
  show ?thesis
    by (cases "body sn s")
      (simp add: with_archive_def bindS_def check_close_def open_archive_def check_open_def st assms(2) not_le)
qed

definition quiet_run :: "run \<Rightarrow> bool" where
  "quiet_run rn \<longleftrightarrow> (\<forall>n k. member_io rn n k) \<and> (\<forall>n. fsync_io rn n) \<and> manifest_io rn \<and>
     appeared rn = [] \<and> rename_ok rn \<and> stage_closes rn \<and> parent_closes rn \<and> (\<forall>rep. report_out rn rep = Inr ())"


lemma checked_pairwise:
  assumes "checked_ok l chk"
  shows "sorted_wrt (\<lambda>a b. \<not> conflict (name_parts (filename (fst a))) (name_parts (filename (fst b)))) (infos chk)"
proof (rule sorted_wrt_mono_rel)
  show "sorted_wrt (\<lambda>a b. \<not> alias_conflict (fst (snd a)) (fst (snd b))) (infos chk)"
    using assms by (simp add: checked_ok_def)
qed (use alias_conflict_names checked_names(2) [OF assms] in auto)

lemma mapR_hashed:
  assumes "\<forall>e \<in> set es. complete_member (fst e)"
  shows "mapR (hashed_member sha) es =
    Inr (map (\<lambda>e. (snd (snd e)) \<lparr>m_sha256 := Some (sha (member_data (fst e)))\<rparr>) es)"
proof (rule mapR_all_Inr)
  fix e assume "e \<in> set es"
  with assms have "complete_member (fst e)" by blast
  from complete_member_data [OF this] show "hashed_member sha e =
      Inr ((snd (snd e)) \<lparr>m_sha256 := Some (sha (member_data (fst e)))\<rparr>)"
    by (cases e) (simp add: hashed_member_def consume_member_def catchR_def)
qed

lemma base_report_steady:
  assumes steady: "steady archive ses is" and lim: "assert_limits l = Inr ()"
    and chk: "checked_infos (Inr is) l = Inr chk" and full: "list_all complete_member is"
  shows "\<exists>rep bs. stream ses = Some bs \<and> base_report sha archive label l ses () = ((), Inr rep) \<and>
    r_sha256 rep = sha bs \<and>
    r_entries rep = map (\<lambda>e. (snd (snd e)) \<lparr>m_sha256 := Some (sha (member_data (fst e)))\<rparr>) (infos chk)"
proof -
  have "is = map fst (infos chk)" using checked_infos_ok(2) [OF chk] by simp
  with full have "\<forall>e \<in> set (infos chk). complete_member (fst e)" by (auto simp: list_all_iff)
  note hashed = mapR_hashed [OF this, of sha]
  from steadyD [OF steady] obtain sn bs where st: "at_lstat ses = Stat RegularKind sn"
    "stream ses = Some bs" "zip_open ses = Inr (Inr is)" by metis
  show ?thesis
    by (intro exI [of _ bs] exI conjI)
      (auto simp: base_report_def bindS_def lim steady_with_archive [OF steady st(1)] base_body_def hash_archive_def st catchR_def chk hashed)
qed

lemma write_manifest_succeeds:
  assumes "tree_ok stg ns s" and "\<forall>n \<in> set ns. hd (name_parts n) \<noteq> manifest_name" and "manifest_io rn"
    and "stage_closes rn"
  shows "\<exists>t. write_manifest dump rn stg rep s = (t, Inr ()) \<and> stage t = Some stg"
proof -
  have "disk s (stg @ [manifest_name]) = None"
  proof (rule ccontr)
    assume "disk s (stg @ [manifest_name]) \<noteq> None"
    with assms(1) have "(\<exists>n \<in> set ns. strict_prefix [manifest_name] (name_parts n)) \<or>
        (\<exists>n \<in> set ns. [manifest_name] = name_parts n)"
      unfolding tree_ok_def by blast
    then obtain n where "n \<in> set ns" "prefix [manifest_name] (name_parts n)" by fastforce
    with assms(2) show False by (auto simp: prefix_def)
  qed
  with assms show ?thesis
    by (auto simp: write_manifest_def bindS_def sysS_def write_file_def make_node_def lexists_def tree_ok_def)
qed


lemma stage_path_simps: "stage_path parent name suf \<noteq> []" "butlast (stage_path parent name suf) = parent"
  by (simp_all add: stage_path_def)

lemma fill_stage_succeeds:
  assumes chk: "checked_ok l chk" and quiet: "quiet_run rn" and suf: "tmp_suffix rn = Some suf"
    and full: "\<forall>e \<in> set (infos chk). complete_member (fst e)"
    and man: "\<forall>e \<in> set (infos chk). hd (name_parts (filename (fst e))) \<noteq> manifest_name"
    and ent: "r_entries expected = map (\<lambda>e. (snd (snd e)) \<lparr>m_sha256 := Some (sha (member_data (fst e)))\<rparr>) (infos chk)"
    and f: "wf_fs f" "is_dir f parent" "\<not> lexists f (stage_path parent name suf)"
  shows "\<exists>t rep. fill_stage sha dump rn parent name label expected chk \<lparr>disk = f, stage = None\<rparr> = (t, Inr rep)
    \<and> stage t \<noteq> None"
proof -
  let ?stg = "stage_path parent name suf" and ?es = "infos chk"
  note nm = checked_names [OF chk]
  have md: "m_name (snd (snd e)) = filename (fst e)" if "e \<in> set ?es" for e
    using that chk by (auto simp: checked_ok_def accepted_name_def metadata_without_hash_def)
  have entry: "fst (snd e) = filename (fst e)" "expected_hash expected (filename (fst e)) = Some (sha (member_data (fst e)))"
    if "e \<in> set ?es" for e
  proof -
    show "fst (snd e) = filename (fst e)" using nm(2) that by blast
    have "map m_name (r_entries expected) = map (filename \<circ> fst) ?es" using md by (simp add: ent)
    with nm(1) have "distinct (map m_name (r_entries expected))" by simp
    from expected_hashes [OF this] that have "expected_hash expected (m_name (snd (snd e))) = Some (sha (member_data (fst e)))"
      by (force simp: ent)
    with md [OF that] show "expected_hash expected (filename (fst e)) = Some (sha (member_data (fst e)))" by simp
  qed
  have names: "map (fst \<circ> snd) ?es = map m_name (r_entries expected)"
    using entry(1) md by (simp add: ent)
  let ?s1 = "\<lparr>disk = f(?stg \<mapsto> NDir (um rn 0x1C0)), stage = Some ?stg\<rparr>"
  have mk: "make_stage rn parent name \<lparr>disk = f, stage = None\<rparr> = (?s1, Inr ?stg)"
    using f(2,3) suf by (simp add: make_stage_def bindS_def sysS_def make_node_def Let_def stage_path_simps)
  have none: "f (?stg @ q) = None" for q
    using wf_fs_below [OF f(1), of ?stg q] f(3) by (simp add: lexists_def)
  have "tree_ok ?stg [] ?s1" by (auto simp: tree_ok_def is_dir_def none)
  from extract_members_succeed [OF this _ _ checked_pairwise [OF chk], where rn = rn and expected = expected and sha = sha]
  obtain s2 where ex: "forS ?es (extract_member sha rn expected ?stg) ?s1 = (s2, Inr ())"
    "tree_ok ?stg (rev (map (filename \<circ> fst) ?es)) s2"
    using entry full quiet by (auto simp: quiet_run_def)
  have "\<forall>n \<in> set (rev (map (filename \<circ> fst) ?es)). hd (name_parts n) \<noteq> manifest_name" using man by simp
  from write_manifest_succeeds [OF ex(2) this, of rn dump "final_report expected label chk"] quiet
  obtain t where t: "write_manifest dump rn ?stg (final_report expected label chk) s2 = (t, Inr ())" "stage t = Some ?stg"
    by (auto simp: quiet_run_def)
  show ?thesis
    using names mk ex(1) t by (auto simp: fill_stage_def bindS_def)
qed

lemma extract_complete:
  assumes steady: "steady archive ses is" and same: "archive_run rn = ses" and quiet: "quiet_run rn"
    and suf: "tmp_suffix rn = Some suf" "\<not> lexists f (stage_path parent name suf)"
    and lim: "assert_limits l = Inr ()" and chk: "checked_infos (Inr is) l = Inr chk"
    and full: "list_all complete_member is"
    and man: "list_all (\<lambda>info. hd (name_parts (filename info)) \<noteq> manifest_name) is"
    and f: "wf_fs f" and dest: "check_destination f parent name = Inr ()"
  shows "\<exists>g rep. zip_extract sha dump rn l ses archive label parent name dest_label f = (g, Printed rep)"
proof -
  from steadyD [OF steady] obtain sn bs where st: "at_lstat ses = Stat RegularKind sn"
    "stream ses = Some bs" "zip_open ses = Inr (Inr is)" by metis
  from base_report_steady [OF steady lim chk full, of sha label] obtain report where
    base: "base_report sha archive label l ses () = ((), Inr report)" "r_sha256 report = sha bs"
    and ent: "r_entries report = map (\<lambda>e. (snd (snd e)) \<lparr>m_sha256 := Some (sha (member_data (fst e)))\<rparr>) (infos chk)"
    using st by auto
  note ok = checked_infos_ok [OF chk]
  have es: "is = map fst (infos chk)" using ok(2) by simp
  have d: "is_dir f parent" "\<not> lexists f (parent @ [name])"
    using dest by (auto simp: check_destination_def guardR_Inr_iff)
  from fill_stage_succeeds [OF ok(1) quiet suf(1) _ _ ent f d(1) suf(2), of dump dest_label]
  obtain s rep where fill: "fill_stage sha dump rn parent name dest_label report chk \<lparr>disk = f, stage = None\<rparr> = (s, Inr rep)"
    "stage s \<noteq> None" using full man es by (auto simp: list_all_iff)
  have body: "stage_body sha dump rn l parent name dest_label report \<lparr>disk = f, stage = None\<rparr> = (s, Inr rep)"
    by (simp add: stage_body_def bindS_def same hash_archive_def st base(2) rescueS_def chk fill(1))
  have "staged f rn parent name s"
    using stage_body_staged [of "\<lparr>disk = f, stage = None\<rparr>" f rn parent name sha dump l dest_label report] body by simp
  with fill(2) suf(1) have ins: "inside f (stage_path parent name suf) s"
    by (auto simp: staged_def)
  then have "disk s (parent @ [name]) = f (parent @ [name])"
    by (auto simp: inside_def stage_path_def)
  with d(2) have "\<not> lexists (disk s) (parent @ [name])" by (simp add: lexists_def)
  with fill(2) quiet obtain g where "publish rn parent name rep s = (g, Inr rep)"
    by (auto simp: publish_def quiet_run_def Let_def)
  then have "\<exists>h. extract_archive sha dump rn l archive parent name dest_label report f = (h, Inr rep)"
    by (simp add: extract_archive_def steady_with_archive [OF steady st(1)] bindS_def body rescueS_def same)
  moreover have "report_out rn rep = Inr ()" using quiet by (simp add: quiet_run_def)
  ultimately show ?thesis using dest base(1) by (auto simp: zip_extract_def outcome_of_def)
qed


section \<open>A directory with the manifest's name\<close>

text \<open>No step removes a directory, so a member below one keeps it there.\<close>

lemma keeps_dir:
  assumes "\<And>g h b. F g = (h, b) \<Longrightarrow> is_dir g p \<Longrightarrow> is_dir h p"
  shows "keeps (\<lambda>s. is_dir (disk s) p) (sysS ok F)"
proof -
  have "is_dir (disk (fst (sysS ok F s))) p" if "is_dir (disk s) p" for s
  proof -
    obtain h b where h: "F (disk s) = (h, b)" by fastforce
    with that assms [OF h] show ?thesis by (simp add: sysS_def)
  qed
  then show ?thesis by (simp add: keeps_def)
qed

lemma make_node_dir: "make_node q n g = (h, b) \<Longrightarrow> is_dir g p \<Longrightarrow> is_dir h p"
  by (auto simp: make_node_def is_dir_def lexists_def split: if_splits)

lemma make_dirs_dir: "make_dirs base cs dm m g = (h, b) \<Longrightarrow> is_dir g p \<Longrightarrow> is_dir h p"
  using make_dirs_effect [of base cs dm m g h b p] by (auto simp: is_dir_def)

lemma append_dir: "is_dir g p \<Longrightarrow> is_dir (append_file q bs g) p"
  by (auto simp: append_file_def is_dir_def split: option.splits node.splits)

lemma keeps_dir_write_reads: "keeps (\<lambda>s. is_dir (disk s) p) (write_reads ok expected name q rs acc k)"
  by (induction rs arbitrary: acc k) (auto intro!: keeps_intros keeps_dir simp: append_dir)

lemma keeps_dir_member: "keeps (\<lambda>s. is_dir (disk s) p) (extract_member sha rn expected stg e)"
  unfolding extract_member_def consume_to_def create_output_def
  by (cases e)
    (auto intro!: keeps_intros keeps_dir keeps_dir_write_reads dest: make_dirs_dir make_node_dir)

lemma make_dirs_first:
  "make_dirs base (c # cs) dm m f = (g, True) \<Longrightarrow> is_dir g (base @ [c])"
  by (auto simp: make_node_def is_dir_def lexists_def split: if_splits prod.splits bool.splits
      dest: make_dirs_dir [unfolded is_dir_def, where p = "base @ [c]"])

lemma extract_member_dir:
  assumes "extract_member sha rn expected stg e s = (t, Inr u)"
    and "name_parts (fst (snd e)) = c # q" "q \<noteq> []"
  shows "is_dir (disk t) (stg @ [c])"
proof -
  obtain info md where e: "e = (info, fst (snd e), md)" by (cases e) auto
  let ?I = "\<lambda>s. is_dir (disk s) (stg @ [c])" and ?name = "fst (snd e)"
  from assms(1) obtain g h where
    dirs: "make_dirs stg (butlast (name_parts ?name)) (um rn 0x1FF) (um rn 0x1C0) (disk s) = (g, True)"
    and node: "make_node (stg @ name_parts ?name) (NFile [] (um rn 0x180)) g = (h, True)"
    and wr: "\<exists>bs. write_reads (member_io rn ?name) (file_size info) ?name (stg @ name_parts ?name) (zreads info) [] 2
        (s\<lparr>disk := h\<rparr>) = (t, Inr bs)"
    by (subst (asm) e) (fastforce simp: extract_member_def consume_to_def create_output_def bindS_Inr
        guardS_Inr sysS_Inr simp del: append_same_eq)
  have "is_dir g (stg @ [c])"
    using make_dirs_first [of stg c "butlast q"] dirs assms(2,3) by simp
  from make_node_dir [OF node this] have "?I (s\<lparr>disk := h\<rparr>)" by simp
  with keepsD [OF keeps_dir_write_reads] wr show ?thesis by blast
qed

lemma extract_members_dir:
  assumes "forS es (extract_member sha rn expected stg) s = (t, Inr u)"
    and "e \<in> set es" "name_parts (fst (snd e)) = c # q" "q \<noteq> []"
  shows "is_dir (disk t) (stg @ [c])"
  using assms(1,2)
proof (induction es arbitrary: s)
  case (Cons d es)
  then obtain s' where s': "extract_member sha rn expected stg d s = (s', Inr ())"
    "forS es (extract_member sha rn expected stg) s' = (t, Inr u)" by (auto simp: bindS_Inr)
  show ?case
  proof (cases "e \<in> set es")
    case True
    with Cons.IH [OF s'(2)] show ?thesis by simp
  next
    case False
    with Cons.prems have "d = e" by simp
    with extract_member_dir [OF _ assms(3,4)] s'(1) have "is_dir (disk s') (stg @ [c])" by blast
    with keepsD [OF keeps_for, of es "\<lambda>s. is_dir (disk s) (stg @ [c])"] keeps_dir_member s'(2)
    show ?thesis by blast
  qed
qed simp

lemma reserved_directory_fails:
  assumes "zip_open (archive_run rn) = Inr (Inr is)" and "info \<in> set is"
    and "name_parts (filename info) = manifest_name # q" "q \<noteq> []"
  shows "snd (zip_extract sha dump rn l first archive label parent name dest_label f) \<noteq> Printed rep"
proof
  assume "snd (zip_extract sha dump rn l first archive label parent name dest_label f) = Printed rep"
  then obtain h where "zip_extract sha dump rn l first archive label parent name dest_label f = (h, Printed rep)"
    by (metis prod.collapse)
  then obtain report where "extract_archive sha dump rn l archive parent name dest_label report f = (h, Inr rep)"
    by (rule extract_Printed)
  then obtain g s where ext: "with_archive archive (archive_run rn)
      (\<lambda>snapshot. stage_body sha dump rn l parent name dest_label report) \<lparr>disk = f, stage = None\<rparr> = (s, Inr g)"
    by (auto simp: extract_archive_def bindS_Inr split: prod.splits)
  from ext obtain sn where "stage_body sha dump rn l parent name dest_label report \<lparr>disk = f, stage = None\<rparr> = (s, Inr g)"
    by (cases rule: with_archive_cases) auto
  then obtain chk where chk: "checked_infos (Inr (map fst (infos chk))) l = Inr chk"
    and zip: "zip_open (archive_run rn) = Inr (Inr (map fst (infos chk)))"
    and fill: "fill_stage sha dump rn parent name dest_label report chk \<lparr>disk = f, stage = None\<rparr> = (s, Inr g)"
    by (rule stage_body_Inr)
  from zip assms(1,2) obtain e where e: "e \<in> set (infos chk)" "info = fst e" by auto
  with checked_names(2) [OF checked_infos_ok(1) [OF chk]] assms(3)
  have parts: "name_parts (fst (snd e)) = manifest_name # q" by simp
  from fill obtain stg s1 s2 where
    ex: "forS (infos chk) (extract_member sha rn report stg) s1 = (s2, Inr ())"
    and wm: "write_manifest dump rn stg (final_report report dest_label chk) s2 = (s, Inr ())"
    by (auto simp: fill_stage_def guardS_Inr bindS_Inr)
  from extract_members_dir [OF ex e(1) parts assms(4)] have "is_dir (disk s2) (stg @ [manifest_name])" .
  with wm show False
    by (auto simp: write_manifest_def bindS_Inr sysS_Inr write_file_def is_dir_def make_node_def
        split: option.splits node.splits)
qed

end
