(* ===== verification/Zip_Properties.thy ===== *)
theory Zip_Properties
  imports Zip_Live
begin

text \<open>
  The properties of \<open>tools/safe_zip_ingest.py\<close>: the names and sizes it accepts, the
  extraction that is all or nothing, the contents a success publishes, and the success on
  every complete archive. The witnesses run a two-member archive whose digest is its text.
\<close>

section \<open>A sample archive\<close>

definition sample_info :: "string \<Rightarrow> byte list \<Rightarrow> (zexc, byte list) res list \<Rightarrow> zinfo" where
  "sample_info n bs reads =
     \<lparr>filename = n, file_size = int (length bs), compress_size = int (length bs),
      external_attr = 0x81A40000, create_system = 3, flag_bits = 0, compress_type = 0, crc = 0,
      date_time = [2024, 2, 29, 12, 0, 0], zreads = reads\<rparr>"

definition sample_session :: "zinfo list \<Rightarrow> session" where
  "sample_session is =
     (let sn = \<lparr>device = 1, inode = 2, snap_size = 100, mtime_ns = 5\<rparr>
      in \<lparr>at_lstat = Stat RegularKind sn, open_ok = True, at_fstat = Stat RegularKind sn,
          stream = Some [0x50, 0x4B], zip_open = Inr (Inr is), at_close = Stat RegularKind sn\<rparr>)"

definition sample_run :: "zinfo list \<Rightarrow> run" where
  "sample_run is =
     \<lparr>archive_run = sample_session is, tmp_suffix = Some ''x1'', member_io = (\<lambda>n k. True),
      fsync_io = (\<lambda>n. True), manifest_io = True, appeared = [], rename_ok = True,
      stage_kept = (\<lambda>p. False), stage_closes = True, parent_closes = True, report_out = (\<lambda>rep. Inr ()),
      um = (\<lambda>m. m)\<rparr>"

definition text_of :: "byte list \<Rightarrow> string" where
  "text_of bs = map (\<lambda>b. char_of (unat b)) bs"

definition root_fs :: fs where "root_fs = map_of [([], NDir 0x1ED), ([''out''], NDir 0x1ED)]"

definition good_infos :: "zinfo list" where
  "good_infos = [sample_info ''a/b'' [1, 2] [Inr [1], Inr [2]], sample_info ''c'' [] []]"

definition sample_extract :: "zinfo list \<Rightarrow> zinfo list \<Rightarrow> fs \<times> outcome" where
  "sample_extract is js = zip_extract text_of (\<lambda>rep. ascii (r_path rep)) (sample_run js) default_limits
     (sample_session is) ''r.zip'' ''r.zip'' [''out''] ''d'' ''out/d'' root_fs"

definition sample_checked :: "zinfo list \<Rightarrow> checked" where
  "sample_checked is =
     \<lparr>infos = map (\<lambda>i. (i, filename i, metadata_without_hash i (filename i))) is,
      names = \<lparr>seen = [''c'', ''a/b''], seen_prefixes = [''c'', ''a'', ''a/b'']\<rparr>,
      total_size = sum_list (map file_size is), total_compressed = sum_list (map compress_size is)\<rparr>"

lemma sample_info_simps [simp]:
  "filename (sample_info n bs rs) = n" "file_size (sample_info n bs rs) = int (length bs)"
  "compress_size (sample_info n bs rs) = int (length bs)" "zreads (sample_info n bs rs) = rs"
  by (simp_all add: sample_info_def)

lemma sample_kind: "kind_checks (sample_info n bs rs) = Inr ()"
  by (simp add: kind_checks_def sample_info_def s_ifmt_def member_mode_def s_ifreg_def
      compression_names_def Let_def)

lemma sample_names:
  "member_name (sample_info ''a/b'' bs rs) \<lparr>seen = [], seen_prefixes = []\<rparr> =
     Inr (''a/b'', \<lparr>seen = [''a/b''], seen_prefixes = [''a'', ''a/b'']\<rparr>)"
  "member_name (sample_info ''c'' bs rs) \<lparr>seen = [''a/b''], seen_prefixes = [''a'', ''a/b'']\<rparr> =
     Inr (''c'', \<lparr>seen = [''c'', ''a/b''], seen_prefixes = [''c'', ''a'', ''a/b'']\<rparr>)"
  unfolding member_name_def sample_kind sample_info_simps bindR_simps by code_simp+

lemma true_div_1: "true_div 2 2 = Inr (Fin 1)" "true_div 1 1 = Inr (Fin 1)" "true_div 0 1 = Inr (Fin 0)"
  using float_of_rat_Fin [of 1 1] float_of_rat_Fin [of 0 1] rnd_of_int [of 1]
  by (simp_all add: true_div_def)

lemma sample_infos_checked:
  "checked_infos (Inr good_infos) default_limits = Inr (sample_checked good_infos)"
  by (simp add: checked_infos_def good_infos_def default_limits_def check_info_def
      validate_info_sizes_def true_div_1 sample_checked_def start_checked_def guardR_def sample_names)

lemma sample_consume:
  "consume_member text_of (sample_info ''a/b'' [1, 2] [Inr [1], Inr [2]]) = Inr [CHR 0x01, CHR 0x02]"
  "consume_member text_of (sample_info ''c'' [] []) = Inr []"
  by (simp_all add: consume_member_def catchR_def text_of_def char_of_def bit_0)

lemma sample_parts: "name_parts ''a/b'' = [''a'', ''b'']" "name_parts ''c'' = [''c'']"
  by code_simp+

lemma sample_part_name: "reject_part_name ''r.zip'' = Inr ()"
  by code_simp

lemma sample_limits: "assert_limits default_limits = Inr ()"
  by (simp add: assert_limits_def default_limits_def)

lemma sample_opened:
  "open_archive ''r.zip'' (sample_session is) = Inr \<lparr>device = 1, inode = 2, snap_size = 100, mtime_ns = 5\<rparr>"
  "check_open (sample_session is) \<lparr>device = 1, inode = 2, snap_size = 100, mtime_ns = 5\<rparr> = Inr ()"
  by (simp_all add: open_archive_def sample_part_name sample_session_def check_open_def Let_def)

lemmas sample_open = sample_limits sample_opened

definition sample_report :: zreport where
  "sample_report =
     \<lparr>r_path = ''r.zip'', r_size = 100, r_sha256 = ''PK'', r_limits = default_limits,
      r_members = 2, r_uncompressed = 2, r_compressed = 2,
      r_entries =
        [(metadata_without_hash (sample_info ''a/b'' [1, 2] [Inr [1], Inr [2]]) ''a/b'') \<lparr>m_sha256 := Some [CHR 0x01, CHR 0x02]\<rparr>,
         (metadata_without_hash (sample_info ''c'' [] []) ''c'') \<lparr>m_sha256 := Some []\<rparr>],
      r_output = None\<rparr>"

lemma hash_magic: "text_of [0x50, 0x4B] = ''PK''"
  by (simp add: text_of_def char_of_def bit_0)

lemma sample_session_simps:
  "zip_open (sample_session is) = Inr (Inr is)"
  "at_close (sample_session is) = Stat RegularKind \<lparr>device = 1, inode = 2, snap_size = 100, mtime_ns = 5\<rparr>"
  "hash_archive text_of (sample_session is) = Inr ''PK''"
  by (simp_all add: sample_session_def Let_def hash_archive_def hash_magic)

lemma sample_base:
  "base_report text_of ''r.zip'' ''r.zip'' default_limits (sample_session good_infos) () =
     ((), Inr sample_report)"
  by (simp add: base_report_def with_archive_def check_close_def base_body_def sample_open
      sample_infos_checked sample_session_simps bindS_def catchR_def)
    (simp add: sample_checked_def good_infos_def hashed_member_def sample_consume sample_report_def)



section \<open>Names and sizes\<close>

text \<open>
  Claim C39. The names \<open>_checked_infos\<close> accepts are relative and portable: joined to any
  directory, a name leads to an entry strictly below it. No two names collide, even on a
  file system that ignores case: neither is the other nor a directory above it.
\<close>

theorem zip_names_safe:
  assumes "checked_infos infolist l = Inr chk"
  shows "list_all portable_name (map filename (map fst (infos chk))) \<and>
    list_all (\<lambda>n. name_parts n \<noteq> [] \<and> walk_dots base (name_parts n) = base @ name_parts n)
      (map filename (map fst (infos chk))) \<and>
    sorted_wrt (\<lambda>a b. \<not> alias_conflict a b) (map filename (map fst (infos chk))) \<and>
    infolist = Inr (map fst (infos chk))"
proof -
  note ok = checked_infos_ok [OF assms]
  have pn: "portable_name (filename (fst e))" if "e \<in> set (infos chk)" for e
    using ok(1) that by (auto simp: checked_ok_def accepted_name_def)
  then have walk: "walk_dots base (name_parts (filename (fst e))) = base @ name_parts (filename (fst e))"
    if "e \<in> set (infos chk)" for e
    using that by (simp add: portable_name_def walk_dots_plain)
  have "sorted_wrt (\<lambda>a b. \<not> alias_conflict (filename (fst a)) (filename (fst b))) (infos chk)"
  proof (rule sorted_wrt_mono_rel)
    show "sorted_wrt (\<lambda>a b. \<not> alias_conflict (fst (snd a)) (fst (snd b))) (infos chk)"
      using ok(1) by (simp add: checked_ok_def)
  qed (use checked_names(2) [OF ok(1)] in auto)
  with pn walk ok(2) show ?thesis by (simp add: list_all_iff sorted_wrt_map)
qed

theorem zip_names_safe_witness:
  "list_all portable_name [''a/b'', ''c'']"
  using zip_names_safe [OF sample_infos_checked] by (simp add: sample_checked_def good_infos_def)

lemma ratio_exact:
  assumes "float_of_rat (of_int a / of_int b) = Fin r" and "\<not> f_less (Fin 1000) (Fin r)"
    and "0 \<le> a" "a \<le> 2 ^ 33" "0 < b"
  shows "a \<le> 1000 * b"
proof (rule ccontr)
  assume "\<not> a \<le> 1000 * b"
  then have ab: "1000 * b + 1 \<le> a" by simp
  with assms(4) have "b < 2 ^ 24" by simp
  have r: "r = rnd (of_int a / of_int b)" using assms(1) by (auto simp: float_of_rat_def Let_def split: if_splits)
  have "(1000 :: rat) + 1 / 2 ^ 24 \<le> 1000 + 1 / of_int b"
    using assms(5) \<open>b < 2 ^ 24\<close> by (simp add: frac_le)
  also have "\<dots> = of_int (1000 * b + 1) / of_int b" using assms(5) by (simp add: field_simps)
  also have "\<dots> \<le> of_int a / of_int b"
    using ab assms(5) by (intro divide_right_mono) (simp_all only: of_int_le_iff of_int_0_le_iff)
  finally have "rnd (1000 + 1 / 2 ^ 24) \<le> r" unfolding r by (rule rnd_mono)
  moreover have "rnd (1000 + 1 / 2 ^ 24) = (1000 + 1 / 2 ^ 24 :: rat)"
    using rnd_representable [of "1000 * 2 ^ 24 + 1" "-24"] by (simp add: power_int_minus field_simps)
  ultimately show False using assms(2) by simp
qed

text \<open>
  Under the default limits an accepted archive has at most 100000 members of at
  most 8 GiB each and 64 GiB together, no member is more than a thousand times its
  compressed size (exactly, although the tool divides in doubles), and the totals it reports
  are the sums.
\<close>

theorem zip_sizes_bounded:
  assumes "checked_infos (Inr is) default_limits = Inr chk"
  shows "length is \<le> 100000 \<and>
    list_all (\<lambda>i. 0 \<le> file_size i \<and> file_size i \<le> 8589934592 \<and> file_size i \<le> 1000 * compress_size i) is \<and>
    total_size chk = sum_list (map file_size is) \<and> total_size chk \<le> 68719476736 \<and>
    total_compressed chk = sum_list (map compress_size is)"
proof -
  note ok = checked_infos_ok [OF assms]
  have es: "is = map fst (infos chk)" using ok(2) by simp
  have lim: "max_entry_size default_limits = 2 ^ 33" "max_total_size default_limits = 68719476736"
    "max_ratio default_limits = Fin 1000" "max_members default_limits = 100000"
    by (simp_all add: default_limits_def)
  have "0 \<le> file_size (fst e) \<and> file_size (fst e) \<le> 8589934592 \<and> file_size (fst e) \<le> 1000 * compress_size (fst e)"
    if "e \<in> set (infos chk)" for e
  proof -
    from ok(1) that obtain r where e: "0 \<le> file_size (fst e)" "file_size (fst e) \<le> 2 ^ 33" "0 \<le> compress_size (fst e)"
      "compress_size (fst e) = 0 \<longrightarrow> file_size (fst e) = 0"
      "float_of_rat (of_int (file_size (fst e)) / of_int (max (compress_size (fst e)) 1)) = Fin r"
      "\<not> f_less (Fin 1000) (Fin r)"
      by (auto simp: checked_ok_def lim)
    have "file_size (fst e) \<le> 1000 * max (compress_size (fst e)) 1"
      by (rule ratio_exact [OF e(5,6,1,2)]) simp
    with e show ?thesis by (cases "compress_size (fst e) = 0") (auto simp: max_def split: if_splits)
  qed
  moreover have "total_size chk \<le> 68719476736"
    using ok(1) by (cases "infos chk") (auto simp: checked_ok_def lim)
  ultimately show ?thesis
    using ok(1,3) by (auto simp: es checked_ok_def lim list_all_iff o_def)
qed

theorem zip_sizes_bounded_witness: "total_size (sample_checked good_infos) \<le> 68719476736"
  using zip_sizes_bounded [OF sample_infos_checked] by simp

section \<open>The extraction\<close>


text \<open>
  Claim C22. The extraction succeeds on every complete archive: if the archive does not
  change, its entries pass the checks and none lies below a directory with the manifest's
  name, each member yields as many bytes as announced, the destination is free, and no
  system call fails, then the command publishes it.
\<close>

theorem zip_complete_archive_extracted:
  assumes "steady archive ses is" and "archive_run rn = ses" and "quiet_run rn"
    and "tmp_suffix rn = Some suf" and "\<not> lexists f (stage_path parent name suf)"
    and "assert_limits l = Inr ()" and "checked_infos (Inr is) l = Inr chk"
    and "list_all complete_member is"
    and "list_all (\<lambda>info. hd (name_parts (filename info)) \<noteq> manifest_name) is"
    and "wf_fs f" and "check_destination f parent name = Inr ()"
  shows "\<exists>g rep. zip_extract sha dump rn l ses archive label parent name dest_label f = (g, Printed rep)"
  by (rule extract_complete [OF assms])

lemma wf_root: "wf_fs root_fs"
  by (auto simp: wf_fs_def root_fs_def is_dir_def)

lemma sample_steady: "steady ''r.zip'' (sample_session is) is"
  by (simp add: steady_def sample_session_def Let_def sample_part_name)

lemma sample_quiet: "quiet_run (sample_run is)" "archive_run (sample_run is) = sample_session is"
  "tmp_suffix (sample_run is) = Some ''x1''"
  by (simp_all add: quiet_run_def sample_run_def)

lemma sample_complete: "list_all complete_member good_infos"
  "list_all (\<lambda>info. hd (name_parts (filename info)) \<noteq> manifest_name) good_infos"
  by (simp_all add: good_infos_def complete_member_def sample_parts manifest_name_def)

lemma sample_free: "\<not> lexists root_fs (stage_path [''out''] ''d'' ''x1'')"
  "check_destination root_fs [''out''] ''d'' = Inr ()"
  by (simp_all add: lexists_def root_fs_def stage_path_def check_destination_def is_dir_def)

lemma sample_succeeds: "\<exists>g rep. sample_extract good_infos good_infos = (g, Printed rep)"
  unfolding sample_extract_def
  by (rule extract_complete [OF sample_steady sample_quiet(2,1,3) sample_free(1) sample_limits
        sample_infos_checked sample_complete wf_root sample_free(2)])

theorem zip_complete_archive_extracted_witness:
  "\<exists>g rep. zip_extract text_of (\<lambda>rep. ascii (r_path rep)) (sample_run good_infos) default_limits
     (sample_session good_infos) ''r.zip'' ''r.zip'' [''out''] ''d'' ''out/d'' root_fs = (g, Printed rep)"
  by (rule zip_complete_archive_extracted [OF sample_steady sample_quiet(2,1,3) sample_free(1) sample_limits
        sample_infos_checked sample_complete wf_root sample_free(2)])

text \<open>
  Claim C21. All or nothing: when the extraction command does not report success, whatever it
  rejects or raises, one of two things holds. Either the file system is the one it started
  from (with what other processes created meanwhile): the destination was not touched, also
  when it appeared during the run, and the private stage is gone but for the nodes that its
  removal with \<open>ignore_errors\<close> could not remove. Or the complete archive was published, as
  after a success, and only what comes after the rename failed: closing the parent directory
  or printing the report.
\<close>

theorem zip_extract_failure_is_clean:
  assumes "zip_extract sha dump rn l first archive label parent name dest_label f = (g, out)"
    and "wf_fs f" and "private_stage rn parent name" and "\<And>rep. out \<noteq> Printed rep"
  shows "(same_but_residue rn parent name f g \<or> same_but_residue rn parent name (f ++ map_of (appeared rn)) g) \<or>
    (\<exists>rep is. (\<not> parent_closes rn \<or> report_out rn rep \<noteq> Inr ()) \<and>
       zip_open (archive_run rn) = Inr (Inr is) \<and>
       \<not> lexists (f ++ map_of (appeared rn)) (parent @ [name]) \<and>
       (\<forall>p. prefix (parent @ [name]) p \<or> g p = (f ++ map_of (appeared rn)) p) \<and>
       files_below g (parent @ [name]) = map_of (zip_files dump rn rep is))"
proof (cases "bindR (check_destination f parent name) (\<lambda>u. snd (base_report sha archive label l first ()))")
  case (Inl e)
  with assms(1) show ?thesis by (simp add: zip_extract_def same_but_residue_def)
next
  case (Inr report)
  obtain h r where ext: "extract_archive sha dump rn l archive parent name dest_label report f = (h, r)"
    by fastforce
  have gh: "g = h" "out = outcome_of (report_out rn) r" using assms(1) Inr ext by (auto simp: zip_extract_def)
  from ext assms(2,3) show ?thesis
  proof (cases rule: extract_archive_outcomes)
    case (failed e)
    then show ?thesis using gh by simp
  next
    case (published rep "is")
    have "\<not> parent_closes rn \<or> report_out rn rep \<noteq> Inr ()"
      using published(1) gh(2) assms(4) [of rep] by (auto simp: outcome_of_def)
    with published gh(1) show ?thesis by blast
  qed
qed

lemma rename_refused:
  assumes "\<not> rename_ok rn"
  shows "snd (zip_extract sha dump rn l first archive label parent name dest_label f) \<noteq> Printed rep"
proof -
  have "publish rn parent name rep s \<noteq> (t, Inr x)" for rep s t x
    using assms by (auto simp: publish_def Let_def split: option.splits)
  then have "snd (extract_archive sha dump rn l archive parent name dest_label e f) \<noteq> Inr x" for e x
    by (auto simp: extract_archive_def bindS_Inr split: prod.splits)
  then show ?thesis using extract_Printed by (metis prod.collapse snd_conv)
qed

lemma sample_private: "private_stage (sample_run is) [''out''] ''d''"
  "private_stage ((sample_run is) \<lparr>rename_ok := False\<rparr>) [''out''] ''d''"
  by (simp_all add: private_stage_def sample_run_def)

theorem zip_extract_failure_is_clean_witness:
  "fst (zip_extract text_of (\<lambda>rep. ascii (r_path rep)) ((sample_run good_infos) \<lparr>rename_ok := False\<rparr>)
     default_limits (sample_session good_infos) ''r.zip'' ''r.zip'' [''out''] ''d'' ''out/d'' root_fs) = root_fs"
  (is "fst ?x = _")
proof -
  obtain g out where x: "?x = (g, out)" by fastforce
  have "out \<noteq> Printed rep" for rep
    using rename_refused [of "(sample_run good_infos) \<lparr>rename_ok := False\<rparr>" text_of "\<lambda>rep. ascii (r_path rep)"
        default_limits "sample_session good_infos" "''r.zip''" "''r.zip''" "[''out'']" "''d''" "''out/d''" root_fs rep] x
    by simp
  moreover have "appeared ((sample_run good_infos) \<lparr>rename_ok := False\<rparr>) = []"
    "stage_kept ((sample_run good_infos) \<lparr>rename_ok := False\<rparr>) = (\<lambda>p. False)"
    "parent_closes ((sample_run good_infos) \<lparr>rename_ok := False\<rparr>)"
    "report_out ((sample_run good_infos) \<lparr>rename_ok := False\<rparr>) = (\<lambda>rep. Inr ())"
    by (simp_all add: sample_run_def)
  moreover from this(2) have "same_but_residue ((sample_run good_infos) \<lparr>rename_ok := False\<rparr>) [''out''] ''d'' f h \<longleftrightarrow> h = f"
    for f h by (auto simp: same_but_residue_def stage_residue_def split: option.splits)
  ultimately show ?thesis
    using zip_extract_failure_is_clean [OF x wf_root sample_private(2)] by (simp add: x)
qed

text \<open>
  Claim C9. A successful extraction found no destination and changed nothing outside it. It
  published there exactly the archive's members, under their names with the bytes read and
  the owner-only mode, and the manifest; there is no symbolic link. The hashes in the
  report are the hashes of the bytes published.
\<close>

theorem zip_extract_publishes_archive:
  assumes "zip_extract sha dump rn l first archive label parent name dest_label f = (g, Printed rep)"
    and "wf_fs f" and "private_stage rn parent name"
  shows "\<exists>is. zip_open (archive_run rn) = Inr (Inr is) \<and>
    \<not> lexists (f ++ map_of (appeared rn)) (parent @ [name]) \<and>
    (\<forall>p. prefix (parent @ [name]) p \<or> g p = (f ++ map_of (appeared rn)) p) \<and>
    files_below g (parent @ [name]) = map_of (zip_files dump rn rep is) \<and>
    link_free g (parent @ [name]) \<and>
    map filename is = map m_name (r_entries rep) \<and>
    map m_sha256 (r_entries rep) = map (\<lambda>info. Some (sha (member_data info))) is"
proof -
  obtain report where ext: "extract_archive sha dump rn l archive parent name dest_label report f = (g, Inr rep)"
    by (rule extract_Printed [OF assms(1)])
  from ext assms(2,3) show ?thesis
  proof (cases rule: extract_archive_outcomes)
    case (published rep' "is")
    then have "rep' = rep" by (simp split: if_splits)
    with published(2-8) show ?thesis by blast
  qed simp
qed



theorem zip_extract_publishes_archive_witness:
  "\<exists>g rep. sample_extract good_infos good_infos = (g, Printed rep) \<and>
     files_below g [''out'', ''d''] = map_of (zip_files (\<lambda>rep. ascii (r_path rep)) (sample_run good_infos) rep good_infos)"
proof -
  obtain g rep where run: "sample_extract good_infos good_infos = (g, Printed rep)"
    using sample_succeeds by blast
  from zip_extract_publishes_archive [OF run [unfolded sample_extract_def] wf_root sample_private(1)]
  have "files_below g ([''out''] @ [''d'']) =
      map_of (zip_files (\<lambda>rep. ascii (r_path rep)) (sample_run good_infos) rep good_infos)"
    by (auto simp: sample_quiet sample_session_simps)
  with run show ?thesis by auto
qed


text \<open>
  The check of the reserved name is too narrow: an archive with an entry below a
  directory called like the manifest passes the checks of its names, but is never extracted,
  because the manifest cannot be written over that directory.
\<close>

theorem zip_reserved_directory_never_extracted:
  assumes "zip_open (archive_run rn) = Inr (Inr is)" and "info \<in> set is"
    and "name_parts (filename info) = manifest_name # q" and "q \<noteq> []"
  shows "snd (zip_extract sha dump rn l first archive label parent name dest_label f) \<noteq> Printed rep"
  by (rule reserved_directory_fails [OF assms])

definition reserved_info :: zinfo where
  "reserved_info = sample_info ''.safe-zip-manifest.json/x'' [] []"

lemma reserved_parts: "name_parts (filename reserved_info) = manifest_name # [''x'']"
  unfolding reserved_info_def sample_info_simps by code_simp

theorem zip_reserved_directory_never_extracted_witness:
  "(\<forall>rep. snd (zip_extract text_of (\<lambda>rep. ascii (r_path rep)) (sample_run [reserved_info])
     default_limits (sample_session [reserved_info]) ''r.zip'' ''r.zip'' [''out''] ''d'' ''out/d'' root_fs) \<noteq> Printed rep) \<and>
   shape_checks (filename reserved_info) = Inr () \<and> kind_checks reserved_info = Inr () \<and>
   canonical_name (filename reserved_info) \<noteq> canonical_name manifest_name"
proof -
  have "shape_checks (filename reserved_info) = Inr ()"
    unfolding reserved_info_def sample_info_simps by code_simp
  moreover have "canonical_name (filename reserved_info) \<noteq> canonical_name manifest_name"
    unfolding reserved_info_def sample_info_simps by code_simp
  moreover have "zip_open (archive_run (sample_run [reserved_info])) = Inr (Inr [reserved_info])"
    by (simp add: sample_quiet sample_session_simps)
  ultimately show ?thesis
    using zip_reserved_directory_never_extracted [OF _ _ reserved_parts, of "sample_run [reserved_info]" "[reserved_info]"]
      sample_kind unfolding reserved_info_def by simp
qed

end
