(* ===== verification/Posix_Path.thy ===== *)
theory Posix_Path
  imports File_System
begin

text \<open>
  The parts of \<open>posixpath\<close> and \<open>pathlib\<close> the extraction tools use on member names and link
  targets: \<open>normpath\<close>, \<open>join\<close>, \<open>dirname\<close> and the last component of a path; and the way a
  path is resolved in a file system with symbolic links (\<open>Path.resolve(strict=False)\<close>).
\<close>

section \<open>Names\<close>

definition slash :: char where "slash = CHR ''/''"

text \<open>\<open>pathlib.PurePath(s).name\<close>.\<close>

definition path_name :: "string \<Rightarrow> string" where
  "path_name s =
     (case filter (\<lambda>p. p \<noteq> [] \<and> p \<noteq> ''.'') (split_char CHR ''/'' s) of [] \<Rightarrow> [] | ps \<Rightarrow> last ps)"

text \<open>The loop of \<open>posixpath.normpath\<close>; \<open>out\<close> is \<open>new_comps\<close> in reverse.\<close>

fun norm_comps :: "bool \<Rightarrow> string list \<Rightarrow> string list \<Rightarrow> string list" where
  "norm_comps rooted out [] = rev out"
| "norm_comps rooted out (c # cs) =
     (if c = [] \<or> c = ''.'' then norm_comps rooted out cs
      else if c \<noteq> ''..'' \<or> (\<not> rooted \<and> out = []) \<or> (out \<noteq> [] \<and> hd out = ''..'')
      then norm_comps rooted (c # out) cs
      else norm_comps rooted (tl out) cs)"

definition initial_slashes :: "string \<Rightarrow> nat" where
  "initial_slashes s =
     (if \<not> prefix ''/'' s then 0 else if prefix ''//'' s \<and> \<not> prefix ''///'' s then 2 else 1)"

definition normpath :: "string \<Rightarrow> string" where
  "normpath s =
     (if s = [] then ''.''
      else let k = initial_slashes s;
               r = replicate k CHR ''/'' @ join ''/'' (norm_comps (0 < k) [] (split_char CHR ''/'' s))
           in if r = [] then ''.'' else r)"

definition posix_join :: "string \<Rightarrow> string \<Rightarrow> string" where
  "posix_join a b =
     (if prefix ''/'' b then b
      else if a = [] \<or> last a = CHR ''/'' then a @ b else a @ ''/'' @ b)"

text \<open>\<open>posixpath.dirname\<close>: up to the last slash, trailing slashes removed.\<close>

definition dirname :: "string \<Rightarrow> string" where
  "dirname p =
     (let head = rev (dropWhile (\<lambda>c. c \<noteq> CHR ''/'') (rev p))
      in if list_all (\<lambda>c. c = CHR ''/'') head then head
         else rev (dropWhile (\<lambda>c. c = CHR ''/'') (rev head)))"

section \<open>Resolution\<close>

text \<open>
  Following a path from the directory \<open>cur\<close>: a symbolic link is replaced by its target, a
  component that does not exist stays as it is. Nothing is returned when the fuel does not
  suffice, as it never does for a loop of links.
\<close>

fun resolve :: "nat \<Rightarrow> fs \<Rightarrow> path \<Rightarrow> string list \<Rightarrow> path option" where
  "resolve 0 f cur cs = None"
| "resolve (Suc n) f cur [] = Some cur"
| "resolve (Suc n) f cur (c # cs) =
     (if c = [] \<or> c = ''.'' then resolve n f cur cs
      else if c = ''..'' then resolve n f (butlast cur) cs
      else case f (cur @ [c]) of
             Some (NLink t) \<Rightarrow>
               resolve n f (if prefix ''/'' t then [] else cur) (split_char CHR ''/'' t @ cs)
           | _ \<Rightarrow> resolve n f (cur @ [c]) cs)"

section \<open>Components\<close>

text \<open>A relative path that first goes up \<open>k\<close> levels and then only down.\<close>

definition up_down :: "nat \<Rightarrow> string list \<Rightarrow> string list \<Rightarrow> bool" where
  "up_down k names cs \<longleftrightarrow> cs = replicate k ''..'' @ names \<and> list_all plain_part names"

lemma split_char_join:
  assumes "ps \<noteq> []" and "\<forall>p \<in> set ps. c \<notin> set p"
  shows "split_char c (join [c] ps) = ps"
  using assms
proof (induction "[c]" ps rule: join.induct)
  case (2 s)
  have "split_char c s = [s]" if "c \<notin> set s" for s
    using that by (induction s) auto
  with 2 show ?case by simp
next
  case (3 s t ss)
  have "split_char c (s @ c # r) = s # split_char c r" if "c \<notin> set s" for s r
    using that by (induction s) auto
  with 3 show ?case by simp
qed simp

text \<open>
  Going from the directory \<open>ds\<close> up \<open>k\<close> levels and down along \<open>names\<close>, lexically.
\<close>

definition climb :: "string list \<Rightarrow> nat \<Rightarrow> string list \<Rightarrow> string list" where
  "climb ds k names =
     (if k \<le> length ds then take (length ds - k) ds @ names
      else replicate (k - length ds) ''..'' @ names)"

text \<open>
  Normalising a relative path alone goes up first and then down; normalising it behind a
  plain directory does the same movement from there.
\<close>

lemma norm_comps_climb:
  assumes "rev out = replicate k ''..'' @ names" and "rev out2 = climb ds k names"
    and "list_all plain_part names" and "list_all plain_part ds"
  shows "\<exists>k' names'. up_down k' names' (norm_comps False out cs) \<and>
    norm_comps False out2 cs = climb ds k' names'"
  using assms(1-3)
proof (induction cs arbitrary: out out2 k names)
  case Nil
  then show ?case by (auto simp: up_down_def)
next
  case (Cons c cs)
  show ?case
  proof (cases "c = [] \<or> c = ''.''")
    case True
    with Cons show ?thesis by auto
  next
    case skip: False
    show ?thesis
    proof (cases "c = ''..''")
      case False
      with skip have c: "plain_part c" by (simp add: plain_part_def)
      have "rev (c # out) = replicate k ''..'' @ (names @ [c])" "rev (c # out2) = climb ds k (names @ [c])"
        using Cons.prems by (simp_all add: climb_def)
      from Cons.IH [OF this] c Cons.prems(3) skip False show ?thesis by simp
    next
      case up: True
      show ?thesis
      proof (cases names rule: rev_cases)
        case Nil
        with Cons.prems have rout: "rev out = replicate k ''..''" by simp
        then have out: "out = replicate k ''..''" by (metis rev_replicate rev_rev_ident)
        then have "out = [] \<or> (out \<noteq> [] \<and> hd out = ''..'')" by (cases k) auto
        then have step: "norm_comps False out (c # cs) = norm_comps False (c # out) cs" using up by auto
        have r1: "rev (c # out) = replicate (Suc k) ''..'' @ []"
          using up out by (simp add: replicate_append_same)
        show ?thesis
        proof (cases "k < length ds")
          case True
          then have "rev out2 = take (length ds - Suc k) ds @ [ds ! (length ds - Suc k)]"
            using Cons.prems(2) Nil by (simp add: climb_def)
              (metis Suc_diff_Suc diff_less take_Suc_conv_app_nth length_greater_0_conv list.size(3) not_less0 zero_less_Suc)
          then have out2: "out2 = ds ! (length ds - Suc k) # rev (take (length ds - Suc k) ds)"
            by (metis rev.simps(2) rev_append rev_rev_ident rev_swap)
          have "plain_part (ds ! (length ds - Suc k))"
            using assms(4) True by (simp add: list_all_length)
          then have "out2 \<noteq> []" "hd out2 \<noteq> ''..''" by (simp_all add: out2 plain_part_def)
          with up have "norm_comps False out2 (c # cs) = norm_comps False (tl out2) cs" by simp
          moreover have "rev (tl out2) = climb ds (Suc k) []" using True by (simp add: out2 climb_def)
          ultimately show ?thesis using Cons.IH [OF r1] step by simp
        next
          case False
          then have r2: "rev out2 = replicate (k - length ds) ''..''"
            using Cons.prems(2) Nil by (cases "k = length ds") (simp_all add: climb_def)
          then have out2: "out2 = replicate (k - length ds) ''..''" by (metis rev_replicate rev_rev_ident)
          then have "out2 = [] \<or> (out2 \<noteq> [] \<and> hd out2 = ''..'')" by (cases "k - length ds") auto
          then have "norm_comps False out2 (c # cs) = norm_comps False (c # out2) cs" using up by auto
          moreover have "rev (c # out2) = climb ds (Suc k) []"
            using up False out2 by (simp add: climb_def replicate_append_same Suc_diff_le)
          ultimately show ?thesis using Cons.IH [OF r1] step by simp
        qed
      next
        case (snoc ns n)
        have pop: "norm_comps False os (c # cs) = norm_comps False (tl os) cs \<and> rev (tl os) = us"
          if "rev os = us @ [n]" for os us
        proof -
          from that have "os = n # rev us" by (metis rev.simps(2) rev_append rev_rev_ident rev_swap)
          moreover have "n \<noteq> ''..''" using Cons.prems(3) snoc by (simp add: plain_part_def)
          ultimately show ?thesis using up by simp
        qed
        have "rev out = (replicate k ''..'' @ ns) @ [n]" "rev out2 = climb ds k ns @ [n]"
          using Cons.prems snoc by (simp_all add: climb_def)
        from pop [OF this(1)] pop [OF this(2)] Cons.IH [of "tl out" k ns "tl out2"] Cons.prems(3) snoc
        show ?thesis by simp
      qed
    qed
  qed
qed

lemma norm_comps_set: "set (norm_comps rooted out cs) \<subseteq> set out \<union> set cs"
proof (induction cs arbitrary: out)
  case (Cons c cs)
  have "set (tl out) \<subseteq> set out" by (cases out) auto
  with Cons [of "c # out"] Cons [of "tl out"] Cons [of out] show ?case by auto
qed simp


section \<open>Relative paths\<close>

lemma norm_comps_plain:
  "list_all plain_part ds \<Longrightarrow> norm_comps r out (ds @ cs) = norm_comps r (rev ds @ out) cs"
  by (induction ds arbitrary: out) (auto simp: plain_part_def)

lemma norm_comps_nonempty:
  "[] \<notin> set out \<Longrightarrow> [] \<notin> set (norm_comps rooted out cs)"
proof (induction cs arbitrary: out)
  case (Cons c cs)
  have "set (tl out) \<subseteq> set out" by (cases out) auto
  with Cons show ?case by auto
qed simp

lemma join_Nil: "join sep ps = [] \<Longrightarrow> [] \<notin> set ps \<Longrightarrow> ps = []"
  by (cases "(sep, ps)" rule: join.cases) auto

lemma normpath_relative:
  assumes "\<not> prefix ''/'' s"
  shows "normpath s =
    (let cs = norm_comps False [] (split_char CHR ''/'' s) in if cs = [] then ''.'' else join ''/'' cs)"
proof (cases "s = []")
  case True
  then show ?thesis by (simp add: normpath_def)
next
  case False
  let ?cs = "norm_comps False [] (split_char CHR ''/'' s)"
  have "[] \<notin> set ?cs" by (rule norm_comps_nonempty) simp
  then have "join ''/'' ?cs = [] \<longleftrightarrow> ?cs = []" using join_Nil by auto
  with False assms show ?thesis by (simp add: normpath_def initial_slashes_def Let_def)
qed

lemma join_snoc: "qs \<noteq> [] \<Longrightarrow> join sep (qs @ [p]) = join sep qs @ sep @ p"
  by (induction sep qs rule: join.induct) auto

text \<open>The components of a plain name: no dots, no slash inside.\<close>

definition plain_name :: "string list \<Rightarrow> bool" where
  "plain_name ps \<longleftrightarrow> ps \<noteq> [] \<and> list_all plain_part ps \<and> (\<forall>p \<in> set ps. CHR ''/'' \<notin> set p)"

lemma last_join: "qs \<noteq> [] \<Longrightarrow> last qs \<noteq> [] \<Longrightarrow> last (join sep qs) = last (last qs) \<and> join sep qs \<noteq> []"
  by (induction sep qs rule: join.induct) auto

lemma last_part:
  assumes "plain_name ps"
  shows "last ps \<noteq> []" and "last (last ps) \<noteq> CHR ''/''"
proof -
  have "last ps \<in> set ps" using assms by (simp add: plain_name_def)
  with assms have p: "plain_part (last ps)" "CHR ''/'' \<notin> set (last ps)"
    by (auto simp: plain_name_def list_all_iff)
  then show "last ps \<noteq> []" by (simp add: plain_part_def)
  with p(2) show "last (last ps) \<noteq> CHR ''/''" by (metis last_in_set)
qed

lemma dirname_join:
  assumes "plain_name ps"
  shows "dirname (join ''/'' ps) = join ''/'' (butlast ps)"
proof -
  obtain qs p where ps: "ps = qs @ [p]" using assms by (cases ps rule: rev_cases) (auto simp: plain_name_def)
  have free: "CHR ''/'' \<notin> set p" using assms by (auto simp: plain_name_def ps)
  then have drop: "dropWhile (\<lambda>c. c \<noteq> CHR ''/'') (rev p @ r) = dropWhile (\<lambda>c. c \<noteq> CHR ''/'') r" for r
    by (subst dropWhile_append2) auto
  show ?thesis
  proof (cases "qs = []")
    case True
    have dw: "dropWhile (\<lambda>c. c \<noteq> CHR ''/'') (rev p) = []" using drop [of "[]"] by simp
    have "dirname p = []" unfolding dirname_def dw by simp
    with True show ?thesis by (simp add: ps)
  next
    case False
    let ?q = "last qs"
    have "plain_name qs" using assms False by (simp add: plain_name_def ps)
    from last_part [OF this] have q: "?q \<noteq> []" "last ?q \<noteq> CHR ''/''" by simp_all
    note lj = last_join [OF False q(1), of "''/''"]
    have head: "rev (dropWhile (\<lambda>c. c \<noteq> CHR ''/'') (rev (join ''/'' ps))) = join ''/'' qs @ ''/''"
      using drop by (simp add: ps join_snoc [OF False])
    have "dropWhile (\<lambda>c. c = CHR ''/'') (rev (join ''/'' qs)) = rev (join ''/'' qs)"
      using lj q(2) by (cases "rev (join ''/'' qs)") (auto simp: hd_rev [symmetric])
    moreover have "\<not> list_all (\<lambda>c. c = CHR ''/'') (join ''/'' qs)"
      using lj q(2) last_in_set [of "join ''/'' qs"] by (auto simp: list_all_iff)
    ultimately show ?thesis unfolding dirname_def head Let_def by (simp add: ps)
  qed
qed

lemma split_append_slash: "split_char c (a @ c # b) = split_char c a @ split_char c b"
  by (induction a) (auto split: list.splits)

lemma split_plain: "plain_name ps \<Longrightarrow> split_char CHR ''/'' (join ''/'' ps) = ps"
  by (rule split_char_join) (auto simp: plain_name_def)

lemma comps_joined:
  assumes ps: "plain_name ps" and link: "\<not> prefix ''/'' link"
  shows "split_char CHR ''/'' (posix_join (dirname (join ''/'' ps)) link) =
    butlast ps @ split_char CHR ''/'' link"
    and "\<not> prefix ''/'' (posix_join (dirname (join ''/'' ps)) link)"
proof -
  let ?d = "join ''/'' (butlast ps)"
  have d: "dirname (join ''/'' ps) = ?d" by (rule dirname_join [OF ps])
  have "split_char CHR ''/'' (posix_join ?d link) = butlast ps @ split_char CHR ''/'' link \<and>
      \<not> prefix ''/'' (posix_join ?d link)"
  proof (cases "butlast ps = []")
    case True
    with link show ?thesis by (simp add: posix_join_def)
  next
    case False
    have bl: "plain_name (butlast ps)"
      using ps False by (auto simp: plain_name_def list_all_iff dest: in_set_butlastD)
    have q: "last (butlast ps) \<noteq> []" "last (last (butlast ps)) \<noteq> CHR ''/''"
      using last_part [OF bl] by simp_all
    note lj = last_join [OF False q(1), of "''/''"]
    have "hd ?d \<noteq> CHR ''/''"
    proof -
      obtain b bs where b: "butlast ps = b # bs" using False by (cases "butlast ps") auto
      with bl have "b \<noteq> []" "CHR ''/'' \<notin> set b" by (auto simp: plain_name_def plain_part_def)
      then show ?thesis unfolding b by (cases b; cases bs) auto
    qed
    with lj link q(2) split_append_slash [of "CHR ''/''" ?d link] split_plain [OF bl] show ?thesis
      by (cases ?d) (auto simp: posix_join_def)
  qed
  then show "split_char CHR ''/'' (posix_join (dirname (join ''/'' ps)) link) = butlast ps @ split_char CHR ''/'' link"
    and "\<not> prefix ''/'' (posix_join (dirname (join ''/'' ps)) link)" by (simp_all add: d)
qed

end
