(* ===== verification/Release_Names.thy ===== *)
theory Release_Names
  imports Posix_Path Zip_Ingest
begin

text \<open>
  \<open>tools/safe_release_extract.py\<close>: the checks on names, modes and link targets, and the
  classification of the members of a ZIP or TAR archive into directories, regular files and
  symbolic links. What \<open>zipfile\<close> and \<open>tarfile\<close> report about a member is a record; the
  decoding of a link target is the parameter \<open>utf8\<close>.
\<close>

section \<open>Data\<close>

datatype rmsg =
    PartArchive | PartMember string | BadName string | AbsoluteName string | EmptyName
  | NotNormal string | UnsafeName string | OutputExists | OutputIsLink | TooLarge | ShortMember
  | BadTarget string | AbsoluteLink string | EscapingLink string | ParentIsLink string
  | ParentNotDirectory | Collision string | LinkOutside string | TooManyEntries nat
  | DuplicateEntry string | BadDirectoryType string | LinkTooLong string | LinkNotUtf8 string
  | SpecialMember string | TotalSize | NoStream string | ZipRefused | TarRefused
  | NotATree | Unsupported | TooNested | ManifestExists

text \<open>Exceptions: \<open>ReleaseError\<close>, those of the libraries, and those nobody catches.\<close>

datatype rexc =
    Release rmsg | ROs | RBadZip | RLargeZip | RTar | RRuntime | RNotImpl | RZlib | REof | RValue

datatype archive_kind = ZipKind | TarKind

definition archive_suffixes :: "string list" where
  "archive_suffixes = [''.tar.gz'', ''.tar.bz2'', ''.tar.xz'', ''.tar.zst'', ''.tar.lz4'', ''.tar.md5'',
     ''.tgz'', ''.tbz'', ''.tbz2'', ''.txz'', ''.tar'']"

definition max_members :: nat where "max_members = 250000"

definition max_member_bytes :: int where "max_member_bytes = 32 * 1024 * 1024 * 1024"

section \<open>Names and modes\<close>

definition is_part :: "string \<Rightarrow> bool" where
  "is_part s = ends_with (py_lower (path_name s)) ''.part''"

definition archive_kind_of :: "string \<Rightarrow> archive_kind option" where
  "archive_kind_of name =
     (let n = py_lower name
      in if ends_with n ''.zip'' then Some ZipKind
         else if list_ex (ends_with n) archive_suffixes then Some TarKind else None)"

fun strip_dot_slash :: "string \<Rightarrow> string" where
  "strip_dot_slash (c # d # r) =
     (if c = CHR ''.'' \<and> d = CHR ''/'' then strip_dot_slash r else c # d # r)"
| "strip_dot_slash s = s"

definition safe_member_name :: "string \<Rightarrow> (rexc, string) res" where
  "safe_member_name raw =
     guardR (\<not> (raw = [] \<or> CHR 0x5C \<in> set raw \<or> CHR 0x00 \<in> set raw)) (Release (BadName raw))
    (guardR (\<not> (prefix ''/'' raw \<or> prefix ''~'' raw)) (Release (AbsoluteName raw))
    (let name = strip_dot_slash raw
     in guardR (name \<noteq> []) (Release EmptyName)
       (guardR (\<not> list_ex (\<lambda>p. p \<in> {[], ''.'', ''..''}) (split_char CHR ''/'' name)) (Release (NotNormal name))
       (let normalized = normpath name
        in guardR (\<not> (normalized \<noteq> name \<or> normalized = ''.'' \<or> prefix ''../'' normalized))
             (Release (UnsafeName name)) (Inr normalized)))))"

text \<open>\<open>mode & 0o777\<close>, and the directory mode with the owner's bits set.\<close>

definition safe_mode :: "nat \<Rightarrow> nat" where "safe_mode m = m mod 512"

definition or_default :: "nat \<Rightarrow> nat \<Rightarrow> nat" where "or_default m d = (if m = 0 then d else m)"

definition safe_dir_mode :: "nat \<Rightarrow> nat" where
  "safe_dir_mode m = or (or_default (safe_mode m) 0x1ED) 0x1C0"

definition validate_part_name :: "string \<Rightarrow> (rexc, unit) res" where
  "validate_part_name name = guardR (\<not> is_part name) (Release (PartMember name)) (Inr ())"

definition safe_link_target :: "string \<Rightarrow> string \<Rightarrow> (rexc, string) res" where
  "safe_link_target member link =
     bindR (validate_part_name link) (\<lambda>u.
     guardR (\<not> (link = [] \<or> CHR 0x5C \<in> set link \<or> CHR 0x00 \<in> set link)) (Release (BadTarget link))
    (guardR (\<not> (prefix ''/'' link \<or> prefix ''~'' link)) (Release (AbsoluteLink link))
    (let target = normpath (posix_join (dirname member) link)
     in guardR (\<not> (target = ''.'' \<or> prefix ''../'' target \<or> target = ''..'')) (Release (EscapingLink link))
       (bindR (safe_member_name target) (\<lambda>k. Inr (normpath link))))))"

text \<open>The joins of the proper non-empty prefixes of a key's parts.\<close>

definition parent_keys :: "string \<Rightarrow> string list" where
  "parent_keys key =
     (let parts = split_char CHR ''/'' key
      in map (\<lambda>i. join ''/'' (take i parts)) [1..<length parts])"

definition reject_symlink_parents :: "string list \<Rightarrow> string \<Rightarrow> (rexc, unit) res" where
  "reject_symlink_parents symlinks key =
     guardR (\<not> list_ex (\<lambda>p. p \<in> set symlinks) (parent_keys key)) (Release (ParentIsLink key)) (Inr ())"

section \<open>Classification of the members\<close>

record members =
  m_seen :: "string list"
  m_directories :: "(string \<times> nat) list"
  m_links :: "(string \<times> string) list"

record zip_entry =
  ze_name :: string
  ze_attr :: nat
  ze_size :: int
  ze_open :: "(rexc, unit) res"
  ze_reads :: "(rexc, byte list) res list"

record tar_entry =
  te_name :: string
  te_isdir :: bool
  te_issym :: bool
  te_islnk :: bool
  te_isfile :: bool
  te_mode :: nat
  te_linkname :: string
  te_size :: int
  te_open :: "(rexc, unit option) res"
  te_reads :: "(rexc, byte list) res list"

definition s_ifdir :: nat where "s_ifdir = 0x4000"
definition s_iflnk :: nat where "s_iflnk = 0xA000"

definition entry_mode :: "zip_entry \<Rightarrow> nat" where
  "entry_mode e = (ze_attr e div 2 ^ 16) mod 2 ^ 16"

text \<open>\<open>stream.read(4097)\<close> on a link member, decoded.\<close>

definition zip_link :: "(byte list \<Rightarrow> string option) \<Rightarrow> string \<Rightarrow> zip_entry \<Rightarrow> (rexc, string) res" where
  "zip_link utf8 key e =
     bindR (ze_open e) (\<lambda>u.
     bindR (case ze_reads e of [] \<Rightarrow> Inr [] | r # rs \<Rightarrow> r) (\<lambda>target_bytes.
     guardR (\<not> length target_bytes > 4096) (Release (LinkTooLong key))
       (case utf8 target_bytes of
          None \<Rightarrow> Inl (Release (LinkNotUtf8 key))
        | Some target \<Rightarrow> safe_link_target key target)))"

text \<open>\<open>None\<close> in the middle is \<open>continue\<close>: the archive's root marker.\<close>

definition member_key :: "string \<Rightarrow> bool \<Rightarrow> (rexc, string option) res" where
  "member_key fname isdir =
     bindR (validate_part_name fname) (\<lambda>u.
       if isdir \<and> fname \<in> {''.'', ''./''} then Inr None
       else let marker = (fname \<noteq> [] \<and> last fname = CHR ''/'');
                name = (if marker then butlast fname else fname)
            in if marker \<and> name \<in> {[], ''.'', ''./''} then Inr None
               else if name = [] then Inr None
               else bindR (safe_member_name name) (\<lambda>k. Inr (Some k)))"

definition classify_zip_entry :: "(byte list \<Rightarrow> string option) \<Rightarrow> zip_entry \<Rightarrow>
    members \<times> (string \<times> zip_entry \<times> nat) list \<Rightarrow> (rexc, members \<times> (string \<times> zip_entry \<times> nat) list) res" where
  "classify_zip_entry utf8 e st = (case st of (ms, regulars) \<Rightarrow>
     bindR (member_key (ze_name e) False) (\<lambda>ok. case ok of None \<Rightarrow> Inr st | Some key \<Rightarrow>
       guardR (key \<notin> set (m_seen ms)) (Release (DuplicateEntry key))
         (let ms = ms\<lparr>m_seen := m_seen ms @ [key]\<rparr>; mode = entry_mode e; kind = s_ifmt mode
          in if last (ze_name e) = CHR ''/'' then
               guardR (\<not> (mode \<noteq> 0 \<and> kind \<notin> {0, s_ifdir})) (Release (BadDirectoryType key))
                 (Inr (ms\<lparr>m_directories := m_directories ms @ [(key, safe_dir_mode mode)]\<rparr>, regulars))
             else if kind = s_iflnk then
               bindR (zip_link utf8 key e) (\<lambda>t.
                 Inr (ms\<lparr>m_links := m_links ms @ [(key, t)]\<rparr>, regulars))
             else guardR (kind \<in> {0, s_ifreg}) (Release (SpecialMember key))
                 (Inr (ms, regulars @ [(key, e, or_default (safe_mode mode) 0x1A4)])))))"

definition no_members :: members where
  "no_members = \<lparr>m_seen = [], m_directories = [], m_links = []\<rparr>"

definition classify_zip :: "(byte list \<Rightarrow> string option) \<Rightarrow> zip_entry list \<Rightarrow>
    (rexc, members \<times> (string \<times> zip_entry \<times> nat) list) res" where
  "classify_zip utf8 es =
     guardR (\<not> length es > max_members) (Release (TooManyEntries (length es)))
       (foldR (classify_zip_entry utf8) es (no_members, []))"

definition classify_tar_entry :: "tar_entry \<Rightarrow>
    members \<times> (string \<times> tar_entry \<times> nat) list \<Rightarrow> (rexc, members \<times> (string \<times> tar_entry \<times> nat) list) res" where
  "classify_tar_entry e st = (case st of (ms, regulars) \<Rightarrow>
     bindR (member_key (te_name e) (te_isdir e)) (\<lambda>ok. case ok of None \<Rightarrow> Inr st | Some key \<Rightarrow>
       guardR (key \<notin> set (m_seen ms)) (Release (DuplicateEntry key))
         (let ms = ms\<lparr>m_seen := m_seen ms @ [key]\<rparr>
          in if te_isdir e then
               Inr (ms\<lparr>m_directories := m_directories ms @ [(key, safe_dir_mode (te_mode e))]\<rparr>, regulars)
             else if te_issym e then
               bindR (safe_link_target key (te_linkname e)) (\<lambda>t.
                 Inr (ms\<lparr>m_links := m_links ms @ [(key, t)]\<rparr>, regulars))
             else guardR (\<not> (te_islnk e \<or> \<not> te_isfile e)) (Release (SpecialMember key))
                 (Inr (ms, regulars @ [(key, e, or_default (safe_mode (te_mode e)) 0x1A4)])))))"

definition classify_tar :: "tar_entry list \<Rightarrow> (rexc, members \<times> (string \<times> tar_entry \<times> nat) list) res" where
  "classify_tar es =
     guardR (\<not> length es > max_members) (Release (TooManyEntries (length es)))
       (foldR classify_tar_entry es (no_members, []))"


section \<open>What the checks guarantee\<close>

lemma safe_member_name_plain:
  assumes "safe_member_name raw = Inr key"
  shows "plain_name (split_char CHR ''/'' key)" and "join ''/'' (split_char CHR ''/'' key) = key"
proof -
  let ?name = "strip_dot_slash raw"
  from assms have parts: "\<not> list_ex (\<lambda>p. p \<in> {[], ''.'', ''..''}) (split_char CHR ''/'' ?name)"
    and key: "key = ?name"
    by (auto simp: safe_member_name_def guardR_Inr_iff Let_def)
  have "list_all plain_part (split_char CHR ''/'' key)"
    using parts unfolding key list_all_iff list_ex_iff plain_part_def by (metis insertCI)
  then show "plain_name (split_char CHR ''/'' key)" by (simp add: plain_name_def split_char_free)
  show "join ''/'' (split_char CHR ''/'' key) = key" by (rule join_split_char)
qed

lemma climb_starts_up: "length ds < k \<Longrightarrow> \<exists>r. climb ds k ns = ''..'' # r"
  by (cases "k - length ds") (auto simp: climb_def)

text \<open>An accepted target goes up at most to the archive's root, and then down.\<close>

lemma safe_link_target_up_down:
  assumes ps: "plain_name ps" and ok: "safe_link_target (join ''/'' ps) link = Inr t"
  shows "\<exists>k ns. k < length ps \<and>
      (up_down k ns (split_char CHR ''/'' t) \<or> (t = ''.'' \<and> k = 0 \<and> ns = []))"
    and "\<not> prefix ''/'' t"
proof -
  let ?cs = "split_char CHR ''/'' link" and ?ds = "butlast ps"
  let ?target = "normpath (posix_join (dirname (join ''/'' ps)) link)"
  from ok have rel: "\<not> prefix ''/'' link" and t: "t = normpath link"
    and low: "\<not> (?target = ''.'' \<or> prefix ''../'' ?target \<or> ?target = ''..'')"
    by (auto simp: safe_link_target_def bindR_Inr_iff guardR_Inr_iff Let_def)
  have plain: "list_all plain_part ?ds"
    using ps by (auto simp: plain_name_def list_all_iff dest: in_set_butlastD)
  obtain k ns where ud: "up_down k ns (norm_comps False [] ?cs)"
    and climb: "norm_comps False (rev ?ds) ?cs = climb ?ds k ns"
    using norm_comps_climb [of "[]" 0 "[]" "rev ?ds" ?ds ?cs] plain by (auto simp: climb_def)
  have target: "?target = (if climb ?ds k ns = [] then ''.'' else join ''/'' (climb ?ds k ns))"
    using comps_joined [OF ps rel] norm_comps_plain [OF plain, of False "[]" ?cs] climb
    by (simp add: normpath_relative Let_def)
  have k: "k \<le> length ?ds"
  proof (rule ccontr)
    assume "\<not> k \<le> length ?ds"
    then obtain r where r: "climb ?ds k ns = ''..'' # r" using climb_starts_up [of ?ds k] by auto
    with target low show False by (cases r) auto
  qed
  let ?n = "norm_comps False [] ?cs"
  have free: "\<forall>p \<in> set ?n. CHR ''/'' \<notin> set p"
    using norm_comps_set [of False "[]" ?cs] split_char_free by fastforce
  have tn: "t = (if ?n = [] then ''.'' else join ''/'' ?n)"
    by (simp add: t normpath_relative [OF rel] Let_def)
  show "\<exists>k ns. k < length ps \<and>
      (up_down k ns (split_char CHR ''/'' t) \<or> (t = ''.'' \<and> k = 0 \<and> ns = []))"
  proof (cases "?n = []")
    case True
    with tn ps show ?thesis by (intro exI [of _ 0] exI [of _ "[]"]) (auto simp: plain_name_def)
  next
    case False
    then have "split_char CHR ''/'' t = ?n" using split_char_join [OF False free] tn by simp
    moreover have "k < length ps" using k ps by (cases ps rule: rev_cases) (auto simp: plain_name_def)
    ultimately show ?thesis using ud by metis
  qed
  show "\<not> prefix ''/'' t"
  proof (cases ?n)
    case Nil
    then show ?thesis using tn by simp
  next
    case (Cons c r)
    moreover have "[] \<notin> set ?n" by (rule norm_comps_nonempty) simp
    ultimately have "c \<noteq> []" by auto
    moreover have "CHR ''/'' \<notin> set c" using free Cons by simp
    ultimately show ?thesis using tn Cons by (cases c; cases r) auto
  qed
qed

end
