(* ===== verification/Release_Extract.thy ===== *)
theory Release_Extract
  imports Release_Names "HOL-Library.Product_Lexorder"
begin

text \<open>
  \<open>tools/safe_release_extract.py\<close>: the extraction of a classified archive into a new output
  directory, and the exit of the \<open>extract-zip\<close> and \<open>extract-tar\<close> commands. The state is the
  file system; the output path is resolved. \<open>machine\<close> holds what this process meets: the
  default modes of new nodes, and the bound on the steps of a resolution (the interpreter
  raises for a loop of links when \<open>loop_raises\<close>, as it does up to Python 3.12), and the nodes
  that a removal with \<open>ignore_errors\<close> leaves behind (\<open>leftover\<close>).
\<close>

record machine =
  dir_mode :: nat
  file_mode :: nat
  fuel :: nat
  loop_raises :: bool
  leftover :: "path \<Rightarrow> bool"

type_synonym 'a fsact = "(fs, rexc, 'a) act"

definition osS :: "(fs \<Rightarrow> fs \<times> bool) \<Rightarrow> unit fsact" where
  "osS g = (\<lambda>f. case g f of (h, b) \<Rightarrow> (h, if b then Inr () else Inl ROs))"

definition askS :: "(fs \<Rightarrow> 'a) \<Rightarrow> 'a fsact" where "askS g = (\<lambda>f. (f, Inr (g f)))"

definition key_parts :: "string \<Rightarrow> string list" where "key_parts k = split_char CHR ''/'' k"

section \<open>The output directory and its members\<close>

text \<open>\<open>exists() or is_symlink()\<close> on a path whose parents are real directories.\<close>

definition ensure_empty_output :: "machine \<Rightarrow> path \<Rightarrow> unit fsact" where
  "ensure_empty_output m output =
     bindS (askS (\<lambda>f. lexists f output)) (\<lambda>there.
     guardS (\<not> there) (Release OutputExists)
       (bindS (osS (make_dirs [] (butlast output) (dir_mode m) (dir_mode m))) (\<lambda>u.
        bindS (osS (make_node output (NDir (dir_mode m)))) (\<lambda>u.
        bindS (askS (\<lambda>f. f output)) (\<lambda>n.
          guardS (case n of Some (NLink t) \<Rightarrow> False | _ \<Rightarrow> True) (Release OutputIsLink) (retS ()))))))"

text \<open>\<open>make_parent\<close>: \<open>before\<close> holds the parts already walked.\<close>

fun make_parents :: "machine \<Rightarrow> path \<Rightarrow> string list \<Rightarrow> string \<Rightarrow> string list \<Rightarrow> string list \<Rightarrow> unit fsact" where
  "make_parents m base links key before [] = retS ()"
| "make_parents m base links key before [p] = retS ()"
| "make_parents m base links key before (p # q # ps) =
     guardS (join ''/'' (before @ [p]) \<notin> set links) (Release (ParentIsLink key))
       (bindS (askS (\<lambda>f. f (base @ before @ [p]))) (\<lambda>n.
        bindS (case n of
             None \<Rightarrow> osS (make_node (base @ before @ [p]) (NDir (dir_mode m)))
           | Some nd \<Rightarrow> guardS (is_dir_node n) (Release ParentNotDirectory) (retS ()))
          (\<lambda>u. make_parents m base links key (before @ [p]) (q # ps))))"

definition make_parent :: "machine \<Rightarrow> path \<Rightarrow> string list \<Rightarrow> string \<Rightarrow> unit fsact" where
  "make_parent m base links key = make_parents m base links key [] (key_parts key)"

definition no_collision :: "path \<Rightarrow> string \<Rightarrow> unit fsact" where
  "no_collision base key =
     bindS (askS (\<lambda>f. lexists f (base @ key_parts key)))
       (\<lambda>there. guardS (\<not> there) (Release (Collision key)) (retS ()))"

definition place_directory :: "machine \<Rightarrow> path \<Rightarrow> string list \<Rightarrow> string \<times> nat \<Rightarrow> unit fsact" where
  "place_directory m base links d = (case d of (key, mode) \<Rightarrow>
     bindS (no_collision base key) (\<lambda>u.
     bindS (make_parent m base links key) (\<lambda>u.
     bindS (osS (make_node (base @ key_parts key) (NDir (dir_mode m)))) (\<lambda>u.
       osS (\<lambda>f. (chmod (base @ key_parts key) mode f, True))))))"

text \<open>\<open>stream_copy\<close>: the file is created, each chunk is counted and written.\<close>

fun copy_reads :: "path \<Rightarrow> (rexc, byte list) res list \<Rightarrow> int \<Rightarrow> int fsact" where
  "copy_reads p [] written = retS written"
| "copy_reads p (r # rs) written =
     bindS (liftS r) (\<lambda>chunk.
       if chunk = [] then retS written
       else let w = written + int (length chunk)
            in guardS (\<not> w > max_member_bytes) (Release TooLarge)
                 (bindS (osS (\<lambda>f. (append_file p chunk f, True))) (\<lambda>u. copy_reads p rs w)))"

definition stream_copy :: "machine \<Rightarrow> path \<Rightarrow> (rexc, byte list) res list \<Rightarrow> int \<Rightarrow> unit fsact" where
  "stream_copy m p reads expected =
     bindS (osS (make_node p (NFile [] (file_mode m)))) (\<lambda>u.
     bindS (copy_reads p reads 0) (\<lambda>written.
       guardS (written = expected) (Release ShortMember) (retS ())))"

text \<open>\<open>publish_symlink\<close>: the link is made, resolved, and removed again when it leads out.\<close>

definition leads_out :: "machine \<Rightarrow> path \<Rightarrow> path \<Rightarrow> fs \<Rightarrow> bool" where
  "leads_out m base dest f = (case resolve (fuel m) f [] dest of
      None \<Rightarrow> loop_raises m | Some p \<Rightarrow> \<not> prefix base p)"

definition publish_symlink :: "machine \<Rightarrow> path \<Rightarrow> string \<Rightarrow> string \<Rightarrow> unit fsact" where
  "publish_symlink m base key target =
     (let dest = base @ key_parts key
      in bindS (no_collision base key) (\<lambda>u.
         bindS (osS (\<lambda>f. if lexists f (butlast dest) then (f, is_dir f (butlast dest))
                        else make_node (butlast dest) (NDir (dir_mode m)) f)) (\<lambda>u.
         bindS (osS (make_node dest (NLink target))) (\<lambda>u.
         bindS (askS (leads_out m base dest)) (\<lambda>out.
           if out then bindS (osS (\<lambda>f. (f(dest := None), True))) (\<lambda>u. failS (Release (LinkOutside key)))
           else retS ())))))"

definition place_link :: "machine \<Rightarrow> path \<Rightarrow> string list \<Rightarrow> string \<times> string \<Rightarrow> unit fsact" where
  "place_link m base links l = (case l of (key, target) \<Rightarrow>
     bindS (make_parent m base links key) (\<lambda>u. publish_symlink m base key target))"

text \<open>\<open>sorted(directories, key=lambda item: (item[0].count("/"), item[0]))\<close>; keys are distinct.\<close>

definition directory_order :: "(string \<times> nat) list \<Rightarrow> (string \<times> nat) list" where
  "directory_order ds = sort_key (\<lambda>d. (length (filter (\<lambda>c. c = CHR ''/'') (fst d)), fst d)) ds"

section \<open>The two extractors\<close>

record summary =
  s_kind :: archive_kind
  s_members :: nat
  s_regular :: nat
  s_symlinks :: nat
  s_bytes :: int

text \<open>The loop over the regular members keeps the total of the announced sizes.\<close>

fun place_regulars :: "rmsg \<Rightarrow> machine \<Rightarrow> path \<Rightarrow> string list \<Rightarrow> ('e \<Rightarrow> unit fsact) \<Rightarrow> ('e \<Rightarrow> int) \<Rightarrow>
    ('e \<Rightarrow> (rexc, byte list) res list) \<Rightarrow> (string \<times> 'e \<times> nat) list \<Rightarrow> int \<Rightarrow> int fsact" where
  "place_regulars toobig m base links opn sz rds [] tot = retS tot"
| "place_regulars toobig m base links opn sz rds ((key, e, mode) # rs) tot =
     (let dest = base @ key_parts key
      in bindS (no_collision base key) (\<lambda>u.
         bindS (make_parent m base links key) (\<lambda>u.
         bindS (opn e) (\<lambda>u.
         bindS (stream_copy m dest (rds e) (sz e)) (\<lambda>u.
         bindS (osS (\<lambda>f. (chmod dest mode f, True))) (\<lambda>u.
           guardS (\<not> tot + sz e > max_member_bytes) (Release toobig)
             (place_regulars toobig m base links opn sz rds rs (tot + sz e))))))))"

definition place_all :: "machine \<Rightarrow> path \<Rightarrow> members \<Rightarrow> int fsact \<Rightarrow> int fsact" where
  "place_all m base ms regulars =
     (let links = map fst (m_links ms)
      in bindS (forS (m_seen ms) (\<lambda>k. liftS (reject_symlink_parents links k))) (\<lambda>u.
         bindS (forS (directory_order (m_directories ms)) (place_directory m base links)) (\<lambda>u.
         bindS regulars (\<lambda>tot.
         bindS (forS (sort (m_links ms)) (place_link m base links)) (\<lambda>u. retS tot)))))"

definition zip_error :: "rexc \<Rightarrow> rexc" where
  "zip_error e = (if e \<in> {ROs, RBadZip, RLargeZip} then Release ZipRefused else e)"

definition tar_error :: "rexc \<Rightarrow> rexc" where
  "tar_error e = (if e \<in> {ROs, RTar} then Release TarRefused else e)"

definition zip_regulars :: "machine \<Rightarrow> path \<Rightarrow> string list \<Rightarrow> (string \<times> zip_entry \<times> nat) list \<Rightarrow> int fsact" where
  "zip_regulars m base links rs =
     place_regulars TotalSize m base links (\<lambda>e. liftS (ze_open e)) ze_size ze_reads rs 0"

text \<open>\<open>infos\<close> is what opening the archive and \<open>infolist\<close> give.\<close>

definition extract_zip :: "machine \<Rightarrow> (byte list \<Rightarrow> string option) \<Rightarrow> string \<Rightarrow> (rexc, zip_entry list) res \<Rightarrow>
    path \<Rightarrow> summary fsact" where
  "extract_zip m utf8 archive entries output =
     guardS (\<not> is_part archive) (Release PartArchive)
       (bindS (ensure_empty_output m output) (\<lambda>u.
        rescueS zip_error
          (bindS (liftS (bindR entries (classify_zip utf8))) (\<lambda>(ms, rs).
           bindS (place_all m output ms (zip_regulars m output (map fst (m_links ms)) rs)) (\<lambda>tot.
             retS \<lparr>s_kind = ZipKind, s_members = length (m_seen ms), s_regular = length rs,
                   s_symlinks = length (m_links ms), s_bytes = tot\<rparr>)))))"

text \<open>\<open>extractfile\<close> may return nothing.\<close>

definition tar_stream :: "tar_entry \<Rightarrow> unit fsact" where
  "tar_stream e = bindS (liftS (te_open e))
     (\<lambda>s. guardS (s \<noteq> None) (Release (NoStream (te_name e))) (retS ()))"

definition tar_regulars :: "machine \<Rightarrow> path \<Rightarrow> string list \<Rightarrow> (string \<times> tar_entry \<times> nat) list \<Rightarrow> int fsact" where
  "tar_regulars m base links rs =
     place_regulars TotalSize m base links tar_stream te_size te_reads rs 0"

definition extract_tar :: "machine \<Rightarrow> string \<Rightarrow> (rexc, tar_entry list) res \<Rightarrow> path \<Rightarrow> summary fsact" where
  "extract_tar m archive entries output =
     guardS (\<not> is_part archive) (Release PartArchive)
       (bindS (ensure_empty_output m output) (\<lambda>u.
        rescueS tar_error
          (bindS (liftS (bindR entries classify_tar)) (\<lambda>(ms, rs).
           bindS (place_all m output ms (tar_regulars m output (map fst (m_links ms)) rs)) (\<lambda>tot.
             retS \<lparr>s_kind = TarKind, s_members = length (m_seen ms), s_regular = length rs,
                   s_symlinks = length (m_links ms), s_bytes = tot\<rparr>)))))"

section \<open>The commands\<close>

datatype 'a routcome = RPrinted 'a | RRejected rexc | RTraceback rexc

text \<open>
  The exceptions \<open>main\<close> catches; on those it removes the output directory, as far as it can be
  removed. Printing the summary is inside the \<open>try\<close>: \<open>say\<close> tells what it raises, and a broken
  pipe there also removes the output of an extraction that succeeded.
\<close>

fun main_catches :: "rexc \<Rightarrow> bool" where
  "main_catches (Release msg) = True"
| "main_catches ROs = True"
| "main_catches RTar = True"
| "main_catches RBadZip = True"
| "main_catches e = False"

definition extract_main :: "machine \<Rightarrow> (summary \<Rightarrow> (rexc, unit) res) \<Rightarrow> summary fsact \<Rightarrow> path \<Rightarrow> fs \<Rightarrow>
    fs \<times> summary routcome" where
  "extract_main m say run output f = (case bindS run (\<lambda>s. bindS (liftS (say s)) (\<lambda>u. retS s)) f of
      (g, Inr s) \<Rightarrow> (g, RPrinted s)
    | (g, Inl e) \<Rightarrow>
        if main_catches e
        then (if is_dir g output then rm_tree_ignoring (leftover m) output g else g, RRejected e)
        else (g, RTraceback e))"

end
