(* ===== verification/Release_Safety.thy ===== *)
theory Release_Safety
  imports Release_Extract
begin

text \<open>
  What an extraction of \<open>tools/safe_release_extract.py\<close> can do to the file system: it writes
  only below the new output directory, and no path below it, followed through any symbolic
  links the archive contains, leads out of it. The exit of the command does not keep to
  this: it removes an output directory that existed before.
\<close>

section \<open>Links that stay inside\<close>

text \<open>The components still to follow from \<open>d\<close> levels below the root.\<close>

definition inner_walk :: "nat \<Rightarrow> string list \<Rightarrow> bool" where
  "inner_walk d cs \<longleftrightarrow> (\<exists>k ns. k \<le> d \<and> up_down k ns cs) \<or> (\<exists>ns. cs = ''.'' # ns \<and> list_all plain_part ns)"

definition links_ok :: "path \<Rightarrow> fs \<Rightarrow> bool" where
  "links_ok base f \<longleftrightarrow> (\<forall>ps t. f (base @ ps) = Some (NLink t) \<longrightarrow>
     ps \<noteq> [] \<and> \<not> prefix ''/'' t \<and> inner_walk (length ps - 1) (split_char CHR ''/'' t))"

lemma inner_walk_append:
  "inner_walk d cs \<Longrightarrow> list_all plain_part ns \<Longrightarrow> inner_walk d (cs @ ns)"
  unfolding inner_walk_def up_down_def by fastforce

lemma inner_walk_Cons:
  assumes "inner_walk d (c # cs)"
  shows "c = ''.'' \<and> list_all plain_part cs \<or>
    c = ''..'' \<and> 0 < d \<and> inner_walk (d - 1) cs \<or> plain_part c \<and> list_all plain_part cs"
proof -
  have "c = ''..'' \<and> 0 < d \<and> inner_walk (d - 1) cs \<or> plain_part c \<and> list_all plain_part cs"
    if "k \<le> d" "up_down k ns (c # cs)" for k ns
  proof (cases k)
    case 0
    with that show ?thesis by (auto simp: up_down_def)
  next
    case (Suc j)
    with that have "c = ''..''" "up_down j ns cs" by (auto simp: up_down_def)
    moreover have "j \<le> d - 1" using that(1) Suc by simp
    ultimately show ?thesis using that(1) Suc by (auto simp: inner_walk_def)
  qed
  with assms show ?thesis by (fastforce simp: inner_walk_def)
qed

lemma inner_walk_plain: "list_all plain_part cs \<Longrightarrow> inner_walk d cs"
  unfolding inner_walk_def up_down_def by (intro disjI1 exI [of _ 0] exI [of _ cs]) simp

lemma resolve_inside:
  assumes ok: "links_ok base f"
  shows "resolve n f (base @ d) cs = Some p \<Longrightarrow> inner_walk (length d) cs \<Longrightarrow> prefix base p"
proof (induction n arbitrary: d cs)
  case (Suc n)
  show ?case
  proof (cases cs)
    case Nil
    with Suc.prems show ?thesis by auto
  next
    case (Cons c r)
    from inner_walk_Cons [OF Suc.prems(2) [unfolded Cons]] show ?thesis
    proof (elim disjE conjE)
      assume "c = ''.''" "list_all plain_part r"
      with Suc.IH [of d r] Suc.prems(1) Cons inner_walk_plain show ?thesis by simp
    next
      assume c: "c = ''..''" and "0 < length d" and w: "inner_walk (length d - 1) r"
      then have "butlast (base @ d) = base @ butlast d" by (simp add: butlast_append)
      with Suc.prems(1) Cons c have "resolve n f (base @ butlast d) r = Some p" by simp
      from Suc.IH [OF this] w show ?thesis by simp
    next
      assume c: "plain_part c" and r: "list_all plain_part r"
      then have ne: "c \<noteq> []" "c \<noteq> ''.''" "c \<noteq> ''..''" by (auto simp: plain_part_def)
      show ?thesis
      proof (cases "\<exists>t. f (base @ d @ [c]) = Some (NLink t)")
        case True
        then obtain t where t: "f (base @ (d @ [c])) = Some (NLink t)" by auto
        from ok [unfolded links_ok_def, rule_format, OF t]
        have "\<not> prefix ''/'' t" "inner_walk (length d) (split_char CHR ''/'' t)" by simp_all
        with Suc.IH [of d "split_char CHR ''/'' t @ r"] Suc.prems(1) Cons ne t inner_walk_append r
        show ?thesis by simp
      next
        case False
        then have "resolve n f (base @ (d @ [c])) r = Some p"
          using Suc.prems(1) Cons ne by (auto split: option.splits node.splits)
        from Suc.IH [OF this] inner_walk_plain [OF r] show ?thesis by blast
      qed
    qed
  qed
qed simp

section \<open>Every step stays below the output\<close>

definition confined :: "fs \<Rightarrow> path \<Rightarrow> fs \<Rightarrow> bool" where
  "confined f base g \<longleftrightarrow> links_ok base g \<and>
     (\<forall>p. prefix base p \<or> g p = f p \<or> (f p = None \<and> is_dir g p \<and> strict_prefix p base))"

lemma keeps_osS:
  assumes "\<And>g h b. F g = (h, b) \<Longrightarrow> confined f base g \<Longrightarrow> confined f base h"
  shows "keeps (confined f base) (osS F)"
proof -
  have "confined f base (fst (osS F g))" if "confined f base g" for g
  proof -
    obtain h b where h: "F g = (h, b)" by fastforce
    with assms [OF h that] show ?thesis by (simp add: osS_def)
  qed
  then show ?thesis by (simp add: keeps_def)
qed

lemma keeps_askS [keeps_intros]: "keeps I (askS g)"
  by (simp add: keeps_def askS_def)

text \<open>A change of one node below the output that makes no bad link.\<close>

lemma confined_upd:
  assumes "confined f base g" and "\<And>t. n = Some (NLink t) \<Longrightarrow>
      ps \<noteq> [] \<and> \<not> prefix ''/'' t \<and> inner_walk (length ps - 1) (split_char CHR ''/'' t)"
  shows "confined f base (g(base @ ps := n))"
  using assms by (auto simp: confined_def links_ok_def is_dir_def)

lemma confined_node:
  assumes "make_node (base @ ps) n g = (h, b)" and "confined f base g" and "\<And>t. n \<noteq> NLink t"
  shows "confined f base h"
  using assms confined_upd [OF assms(2), of "Some n" ps]
  by (auto simp: make_node_def split: if_splits)

lemma confined_link:
  assumes "make_node (base @ ps) (NLink t) g = (h, b)" and "confined f base g"
    and "ps \<noteq> []" and "\<not> prefix ''/'' t" and "inner_walk (length ps - 1) (split_char CHR ''/'' t)"
  shows "confined f base h"
  using assms confined_upd [OF assms(2), of "Some (NLink t)" ps]
  by (auto simp: make_node_def split: if_splits)

lemma confined_append: "confined f base g \<Longrightarrow> confined f base (append_file (base @ ps) bs g)"
  by (auto simp: append_file_def intro!: confined_upd split: option.splits node.splits)

lemma confined_chmod: "confined f base g \<Longrightarrow> confined f base (chmod (base @ ps) m g)"
  by (auto simp: chmod_def intro!: confined_upd split: option.splits node.splits)

lemma keeps_make_parents: "keeps (confined f base) (make_parents m base links key before ps)"
proof (induction m base links key before ps rule: make_parents.induct)
  case (3 m base links key before p q ps)
  then show ?case
    by (auto intro!: keeps_intros keeps_osS split: option.splits dest: confined_node)
qed (simp_all only: make_parents.simps keeps_basic)

lemma keeps_no_collision: "keeps I (no_collision base key)"
  unfolding no_collision_def by (intro keeps_intros)

lemma keeps_place_directory: "keeps (confined f base) (place_directory m base links d)"
  unfolding place_directory_def make_parent_def
  by (cases d) (auto intro!: keeps_intros keeps_osS keeps_make_parents keeps_no_collision
      dest: confined_node simp: confined_chmod)

lemma keeps_copy_reads: "keeps (confined f base) (copy_reads (base @ ps) rs w)"
  by (induction rs arbitrary: w)
    (auto intro!: keeps_intros keeps_osS simp: confined_append Let_def)

lemma keeps_place_regulars:
  assumes "\<And>e. keeps (confined f base) (opn e)"
  shows "keeps (confined f base) (place_regulars tb m base links opn sz rds rs tot)"
proof (induction rs arbitrary: tot)
  case (Cons r rs)
  obtain key e mode where r: "r = (key, e, mode)" by (cases r) auto
  show ?case
    unfolding r place_regulars.simps Let_def make_parent_def stream_copy_def
    by (intro keeps_intros keeps_osS keeps_make_parents keeps_no_collision keeps_copy_reads assms Cons.IH)
      (auto dest: confined_node simp: confined_chmod)
qed (simp add: keeps_intros)


section \<open>The links an archive may make\<close>

definition good_link :: "string \<times> string \<Rightarrow> bool" where
  "good_link l \<longleftrightarrow> (let ps = key_parts (fst l); t = snd l
     in ps \<noteq> [] \<and> \<not> prefix ''/'' t \<and> inner_walk (length ps - 1) (split_char CHR ''/'' t))"

lemma keeps_place_link: "good_link l \<Longrightarrow> keeps (confined f base) (place_link m base links l)"
  by (cases l)
    (auto simp: place_link_def publish_symlink_def make_parent_def Let_def good_link_def butlast_append
      intro!: keeps_intros keeps_osS keeps_make_parents keeps_no_collision
      intro: confined_upd dest: confined_node confined_link split: if_splits)

lemma good_link_accepted:
  assumes "plain_name (split_char CHR ''/'' key)" and "safe_link_target key link = Inr t"
  shows "good_link (key, t)"
proof -
  have "safe_link_target (join ''/'' (split_char CHR ''/'' key)) link = Inr t"
    using assms(2) by (simp add: join_split_char)
  note up = safe_link_target_up_down [OF assms(1) this]
  from up(1) have "inner_walk (length (key_parts key) - 1) (split_char CHR ''/'' t)"
    by (fastforce simp: inner_walk_def key_parts_def)
  with up(2) assms(1) show ?thesis by (simp add: good_link_def key_parts_def plain_name_def Let_def)
qed

lemma member_key_plain: "member_key n d = Inr (Some key) \<Longrightarrow> plain_name (split_char CHR ''/'' key)"
  by (auto simp: member_key_def bindR_Inr_iff Let_def dest: safe_member_name_plain split: if_splits)

text \<open>An entry adds at most one link, and only an accepted one.\<close>

definition adds_good_link :: "members \<Rightarrow> members \<Rightarrow> bool" where
  "adds_good_link ms ms' \<longleftrightarrow> m_links ms' = m_links ms \<or> (\<exists>l. good_link l \<and> m_links ms' = m_links ms @ [l])"

lemma adds_good_link_foldR:
  assumes "foldR step es (no_members, []) = Inr (ms, rs)"
    and "\<And>e s t. step e s = Inr t \<Longrightarrow> adds_good_link (fst s) (fst t)"
  shows "\<forall>l \<in> set (m_links ms). good_link l"
proof -
  have "\<forall>l \<in> set (m_links (fst (ms, rs))). good_link l"
  proof (rule foldR_invariant [where P = "\<lambda>s. \<forall>l \<in> set (m_links (fst s)). good_link l"])
    show "foldR step es (no_members, []) = Inr (ms, rs)" by (rule assms(1))
    fix e s t assume "\<forall>l \<in> set (m_links (fst s)). good_link l" "step e s = Inr t"
    with assms(2) show "\<forall>l \<in> set (m_links (fst t)). good_link l" by (fastforce simp: adds_good_link_def)
  qed (simp add: no_members_def)
  then show ?thesis by simp
qed

lemma classify_zip_entry_links:
  assumes "classify_zip_entry utf8 e s = Inr t"
  shows "adds_good_link (fst s) (fst t)"
proof -
  obtain ms rs where s: "s = (ms, rs)" by (cases s)
  from assms obtain ok where ok: "member_key (ze_name e) False = Inr ok"
    by (auto simp: classify_zip_entry_def s bindR_Inr_iff)
  show ?thesis
  proof (cases ok)
    case None
    with assms ok show ?thesis by (simp add: classify_zip_entry_def s adds_good_link_def)
  next
    case (Some key)
    note plain = member_key_plain [OF ok [unfolded Some]]
    have "good_link (key, l)" if "zip_link utf8 key e = Inr l" for l
      using that good_link_accepted [OF plain]
      by (auto simp: zip_link_def bindR_Inr_iff guardR_Inr_iff split: option.splits)
    with assms ok Some show ?thesis
      by (auto simp: classify_zip_entry_def s guardR_Inr_iff bindR_Inr_iff Let_def adds_good_link_def
          split: if_splits)
  qed
qed

lemma classify_tar_entry_links:
  assumes "classify_tar_entry e s = Inr t"
  shows "adds_good_link (fst s) (fst t)"
proof -
  obtain ms rs where s: "s = (ms, rs)" by (cases s)
  from assms obtain ok where ok: "member_key (te_name e) (te_isdir e) = Inr ok"
    by (auto simp: classify_tar_entry_def s bindR_Inr_iff)
  show ?thesis
  proof (cases ok)
    case None
    with assms ok show ?thesis by (simp add: classify_tar_entry_def s adds_good_link_def)
  next
    case (Some key)
    note plain = member_key_plain [OF ok [unfolded Some]]
    from assms ok Some good_link_accepted [OF plain] show ?thesis
      by (auto simp: classify_tar_entry_def s guardR_Inr_iff bindR_Inr_iff Let_def adds_good_link_def
          split: if_splits)
  qed
qed

lemma classify_zip_links: "classify_zip utf8 es = Inr (ms, rs) \<Longrightarrow> \<forall>l \<in> set (m_links ms). good_link l"
  by (rule adds_good_link_foldR [OF _ classify_zip_entry_links]) (auto simp: classify_zip_def guardR_Inr_iff)

lemma classify_tar_links: "classify_tar es = Inr (ms, rs) \<Longrightarrow> \<forall>l \<in> set (m_links ms). good_link l"
  by (rule adds_good_link_foldR [OF _ classify_tar_entry_links]) (auto simp: classify_tar_def guardR_Inr_iff)

section \<open>The whole extraction\<close>

lemma keeps_place_all:
  assumes "keeps (confined f base) regs" and "\<forall>l \<in> set (m_links ms). good_link l"
  shows "keeps (confined f base) (place_all m base ms regs)"
  unfolding place_all_def Let_def using assms(2)
  by (intro keeps_intros keeps_place_directory keeps_place_link assms(1)) auto

lemma keeps_tar_stream: "keeps I (tar_stream e)"
  unfolding tar_stream_def by (intro keeps_intros)

lemma keeps_regulars:
  "keeps (confined f base) (zip_regulars m base links rs)"
  "keeps (confined f base) (tar_regulars m base links ts)"
  unfolding zip_regulars_def tar_regulars_def
  by (intro keeps_place_regulars keeps_intros keeps_tar_stream)+

text \<open>Preparing the output directory.\<close>

lemma ensure_empty_output_cases:
  assumes "ensure_empty_output m output f = (g, r)"
  shows "lexists f output \<and> g = f \<and> r = Inl (Release OutputExists) \<or>
    \<not> lexists f output \<and> (\<exists>h b. make_dirs [] (butlast output) (dir_mode m) (dir_mode m) f = (h, b) \<and>
       (g = h \<or> (h output = None \<and> g = h(output \<mapsto> NDir (dir_mode m)))))"
proof (cases "lexists f output")
  case True
  with assms show ?thesis by (auto simp: ensure_empty_output_def bindS_eq askS_def)
next
  case False
  obtain h b where h: "make_dirs [] (butlast output) (dir_mode m) (dir_mode m) f = (h, b)" by fastforce
  obtain k c where k: "make_node output (NDir (dir_mode m)) h = (k, c)" by fastforce
  have "k = h \<or> (h output = None \<and> k = h(output \<mapsto> NDir (dir_mode m)))"
    using k make_node_False by (cases c) (auto simp: make_node_True)
  moreover have "g = h \<or> g = k"
    using assms False h k by (cases b; cases c)
      (auto simp: ensure_empty_output_def bindS_eq askS_def osS_def guardS_def split: if_splits)
  ultimately show ?thesis using False h by blast
qed

lemma ensure_empty_output_confined:
  assumes "ensure_empty_output m output f = (g, r)" and "wf_fs f" and "\<not> lexists f output"
  shows "confined f output g"
proof -
  from ensure_empty_output_cases [OF assms(1)] assms(3) obtain h b where
    h: "make_dirs [] (butlast output) (dir_mode m) (dir_mode m) f = (h, b)"
    and g: "g = h \<or> (h output = None \<and> g = h(output \<mapsto> NDir (dir_mode m)))" by blast
  have eff: "h p = f p \<or> (f p = None \<and> is_dir h p \<and> strict_prefix p output)" for p
  proof -
    have "strict_prefix (take i (butlast output)) output" if "0 < i" "i \<le> length (butlast output)" for i
    proof -
      have "strict_prefix (butlast output) output"
        using that by (cases "output" rule: rev_cases) (auto simp: strict_prefix_def)
      with take_is_prefix [of i "butlast output"] show ?thesis by (rule prefix_order.le_less_trans)
    qed
    with make_dirs_effect [OF h, of p] show ?thesis by auto
  qed
  have none: "h (output @ q) = None" for q
  proof -
    have "f (output @ q) = None" using wf_fs_below [OF assms(2)] assms(3) by (simp add: lexists_def)
    with eff [of "output @ q"] show ?thesis by (auto simp: strict_prefix_def prefix_def)
  qed
  then have "links_ok output h" by (simp add: links_ok_def)
  with eff have "confined f output h" by (auto simp: confined_def)
  with g confined_upd [of f "output" h "Some (NDir (dir_mode m))" "[]"] show ?thesis by auto
qed


lemma keeps_liftS_bind:
  assumes "\<And>x. r = Inr x \<Longrightarrow> keeps I (k x)"
  shows "keeps I (bindS (liftS r) k)"
  using assms by (cases r) (auto simp: keeps_def bindS_eq)

lemma output_confined:
  assumes "guardS b e (bindS (ensure_empty_output m output) (\<lambda>u. rest)) f = (g, r)"
    and "keeps (confined f output) rest" and "wf_fs f" and "\<not> lexists f output"
  shows "confined f output g"
proof -
  obtain h q where en: "ensure_empty_output m output f = (h, q)" by fastforce
  note ok = ensure_empty_output_confined [OF en assms(3,4)]
  have "f (output @ q) = None" for q using wf_fs_below [OF assms(3)] assms(4) by (simp add: lexists_def)
  then have start: "confined f output f" by (simp add: confined_def links_ok_def)
  show ?thesis
  proof (cases q)
    case (Inl d)
    with assms(1) en ok start show ?thesis by (cases b) auto
  next
    case (Inr u)
    have "confined f output (fst (rest h))" using assms(2) ok by (simp add: keeps_def)
    with Inr assms(1) en start show ?thesis by (cases b) auto
  qed
qed

lemma extract_zip_confined:
  assumes "extract_zip m utf8 archive entries output f = (g, r)" and "wf_fs f" and "\<not> lexists f output"
  shows "confined f output g"
  using assms(1) [unfolded extract_zip_def]
  by (rule output_confined)
    (auto simp: bindR_Inr_iff assms(2,3) intro: classify_zip_links [THEN bspec]
      intro!: keeps_rescue keeps_liftS_bind keeps_bind keeps_place_all keeps_regulars keeps_basic)

lemma extract_tar_confined:
  assumes "extract_tar m archive entries output f = (g, r)" and "wf_fs f" and "\<not> lexists f output"
  shows "confined f output g"
  using assms(1) [unfolded extract_tar_def]
  by (rule output_confined)
    (auto simp: bindR_Inr_iff assms(2,3) intro: classify_tar_links [THEN bspec]
      intro!: keeps_rescue keeps_liftS_bind keeps_bind keeps_place_all keeps_regulars keeps_basic)

lemma confined_escape:
  assumes "confined f base g" and "resolve n g base cs = Some p" and "list_all plain_part cs"
  shows "prefix base p"
  using resolve_inside [of base g n "[]" cs p] assms inner_walk_plain by (simp add: confined_def)

end
