(* ===== verification/Release_Tree.thy ===== *)
theory Release_Tree
  imports Release_Extract "HOL-Library.Multiset"
begin

text \<open>
  \<open>tools/safe_release_extract.py\<close>: the walk over a release tree, the repeated unpacking of
  the archives found in it, the inventory (\<open>scan\<close>) and the manifest file. A directory as
  \<open>os.walk\<close> lists it is a \<open>dnode\<close>. \<open>library\<close> holds what the Python libraries and the
  operating system answer for a file of the current file system: the listing of a directory,
  the entries of a ZIP or TAR file, the decoding of bytes.
\<close>

section \<open>Walking a tree\<close>

datatype dnode = FileN | LinkN | DirN "(string \<times> dnode) list"

fun is_dirn :: "dnode \<Rightarrow> bool" where
  "is_dirn (DirN es) = True"
| "is_dirn d = False"

definition file_names :: "(string \<times> dnode) list \<Rightarrow> string list" where
  "file_names es = sort (map fst (filter (\<lambda>(n, d). d = FileN \<and> \<not> is_part n) es))"

fun iter_files :: "path \<Rightarrow> dnode \<Rightarrow> path list"
  and iter_dirs :: "path \<Rightarrow> (string \<times> dnode) list \<Rightarrow> (string \<times> path list) list"
where
  "iter_files here FileN = []"
| "iter_files here LinkN = []"
| "iter_files here (DirN es) =
     map (\<lambda>n. here @ [n]) (file_names es) @ concat (map snd (sort_key fst (iter_dirs here es)))"
| "iter_dirs here [] = []"
| "iter_dirs here ((n, d) # es) =
     (if is_dirn d \<and> \<not> is_part n then [(n, iter_files (here @ [n]) d)] else []) @ iter_dirs here es"

definition is_archive :: "path \<Rightarrow> bool" where
  "is_archive p = (p \<noteq> [] \<and> archive_kind_of (last p) \<noteq> None)"

section \<open>Unpacking a tree\<close>

record library =
  lib_tree :: "fs \<Rightarrow> path \<Rightarrow> dnode"
  lib_zip :: "fs \<Rightarrow> path \<Rightarrow> (rexc, zip_entry list) res"
  lib_tar :: "fs \<Rightarrow> path \<Rightarrow> (rexc, tar_entry list) res"
  lib_utf8 :: "byte list \<Rightarrow> string option"

record unpacked =
  u_summary :: summary
  u_archive :: path
  u_output :: path

definition contents_of :: "path \<Rightarrow> path" where
  "contents_of archive = butlast archive @ [last archive @ ''.contents'']"

text \<open>An exception removes an output directory that this archive made, as far as it can be
  removed, and goes on.\<close>

definition remove_partial :: "machine \<Rightarrow> bool \<Rightarrow> path \<Rightarrow> 'a fsact \<Rightarrow> 'a fsact" where
  "remove_partial m existed output run = (\<lambda>f. case run f of
      (g, Inr x) \<Rightarrow> (g, Inr x)
    | (g, Inl e) \<Rightarrow> (if \<not> existed \<and> is_dir g output then rm_tree_ignoring (leftover m) output g else g, Inl e))"

definition extract_one :: "machine \<Rightarrow> library \<Rightarrow> path \<Rightarrow> (archive_kind \<times> summary) fsact" where
  "extract_one m lib archive = (\<lambda>f.
     let out = contents_of archive; existed = lexists f out
     in case archive_kind_of (last archive) of
          Some ZipKind \<Rightarrow>
            bindS (remove_partial m existed out
                (extract_zip m (lib_utf8 lib) (last archive) (lib_zip lib f archive) out))
              (\<lambda>s. retS (ZipKind, s)) f
        | Some TarKind \<Rightarrow>
            bindS (remove_partial m existed out
                (extract_tar m (last archive) (lib_tar lib f archive) out))
              (\<lambda>s. retS (TarKind, s)) f
        | None \<Rightarrow> (f, Inl (Release Unsupported)))"

text \<open>The archives in the output of a ZIP are the next layer.\<close>

definition nested_archives :: "library \<Rightarrow> archive_kind \<Rightarrow> path \<Rightarrow> fs \<Rightarrow> path list" where
  "nested_archives lib kind out f =
     (if kind = ZipKind then filter is_archive (map (\<lambda>p. out @ p) (iter_files [] (lib_tree lib f out))) else [])"

definition max_zip_depth :: nat where "max_zip_depth = 4"

definition layer_weight :: "(path \<times> nat) list \<Rightarrow> nat multiset" where
  "layer_weight queue = mset (map (\<lambda>(p, d). Suc max_zip_depth - d) queue)"

lemma layer_weight_simps [simp]:
  "layer_weight [] = {#}"
  "layer_weight ((p, d) # q) = add_mset (Suc max_zip_depth - d) (layer_weight q)"
  "layer_weight (q @ r) = layer_weight q + layer_weight r"
  by (simp_all add: layer_weight_def)

lemma layer_weight_pop: "(layer_weight q, add_mset x (layer_weight q)) \<in> mult less_than"
  using one_step_implies_mult [of "{#x#}" "{#}" less_than "layer_weight q"] by simp

lemma layer_weight_push:
  assumes "\<not> (nested \<noteq> [] \<and> max_zip_depth \<le> d)"
  shows "(layer_weight (q @ map (\<lambda>p. (p, Suc d)) nested), add_mset (Suc max_zip_depth - d) (layer_weight q))
    \<in> mult less_than"
proof -
  have "\<forall>k \<in># layer_weight (map (\<lambda>p. (p, Suc d)) nested). k < Suc max_zip_depth - d"
    using assms by (auto simp: layer_weight_def)
  then show ?thesis
    using one_step_implies_mult [of "{#Suc max_zip_depth - d#}"
        "layer_weight (map (\<lambda>p. (p, Suc d)) nested)" less_than "layer_weight q"]
    by simp
qed

function unpack_loop :: "machine \<Rightarrow> library \<Rightarrow> (path \<times> nat) list \<Rightarrow> path list \<Rightarrow> unpacked list \<Rightarrow>
    fs \<Rightarrow> fs \<times> (rexc + unpacked list)" where
  "unpack_loop m lib [] processed results f = (f, Inr results)"
| "unpack_loop m lib ((archive, depth) # queue) processed results f =
     (if archive \<in> set processed then unpack_loop m lib queue processed results f
      else if is_part (last archive) then unpack_loop m lib queue (archive # processed) results f
      else case extract_one m lib archive f of
             (g, Inl e) \<Rightarrow> (g, Inl e)
           | (g, Inr (kind, s)) \<Rightarrow>
               (let out = contents_of archive; nested = nested_archives lib kind out g
                in if nested \<noteq> [] \<and> max_zip_depth \<le> depth then (g, Inl (Release TooNested))
                   else unpack_loop m lib (queue @ map (\<lambda>p. (p, Suc depth)) nested) (archive # processed)
                          (results @ [\<lparr>u_summary = s, u_archive = archive, u_output = out\<rparr>]) g))"
  by pat_completeness auto
termination
  by (relation "inv_image (mult less_than) (\<lambda>(m, lib, queue, processed, results, f). layer_weight queue)")
    (auto simp: wf_mult layer_weight_pop layer_weight_push [unfolded layer_weight_simps(3)])

definition unpack_tree :: "machine \<Rightarrow> library \<Rightarrow> path \<Rightarrow> unpacked list fsact" where
  "unpack_tree m lib release = (\<lambda>f.
     if \<not> is_dir f release then (f, Inl (Release NotATree))
     else unpack_loop m lib
            (map (\<lambda>p. (release @ p, 0)) (filter is_archive (iter_files [] (lib_tree lib f release)))) [] [] f)"

section \<open>The inventory\<close>

definition word_char :: "char \<Rightarrow> bool" where
  "word_char c = (let n = of_char c :: nat
     in (48 \<le> n \<and> n \<le> 57) \<or> (65 \<le> n \<and> n \<le> 90) \<or> n = 95 \<or> (97 \<le> n \<and> n \<le> 122) \<or>
        n \<in> {0xAA, 0xB2, 0xB3, 0xB5, 0xB9, 0xBA, 0xBC, 0xBD, 0xBE} \<or> (192 \<le> n \<and> n \<noteq> 215 \<and> n \<noteq> 247))"

text \<open>\<open>re.findall\<close> of forty hexadecimal digits between word boundaries; \<open>after\<close> says whether
  a word character comes before.\<close>

function find_commits :: "bool \<Rightarrow> string \<Rightarrow> string list" where
  "find_commits after [] = []"
| "find_commits after (c # cs) =
     (if \<not> after \<and> list_all is_hex (take 40 (c # cs)) \<and> 40 \<le> length (c # cs)
         \<and> (case drop 40 (c # cs) of [] \<Rightarrow> True | d # ds \<Rightarrow> \<not> word_char d)
      then take 40 (c # cs) # find_commits True (drop 40 (c # cs))
      else find_commits (word_char c) cs)"
  by pat_completeness auto
termination by (relation "measure (\<lambda>(a, s). length s)") auto

record scan_env =
  st_size :: "path \<Rightarrow> (rexc, nat) res"
  read_file :: "path \<Rightarrow> (rexc, byte list) res"
  isfile :: "path \<Rightarrow> bool"
  isdir :: "path \<Rightarrow> bool"
  isymlink :: "path \<Rightarrow> bool"
  sha_hex :: "byte list \<Rightarrow> string"
  utf8_ignore :: "byte list \<Rightarrow> string"
  head_text :: "string option"

definition read_commit_refs :: "scan_env \<Rightarrow> path \<Rightarrow> string list" where
  "read_commit_refs env p = (case read_file env p of
      Inl e \<Rightarrow> []
    | Inr data \<Rightarrow> sorted_set (map py_lower (find_commits False (utf8_ignore env (take (256 * 1024) data)))))"

record inventory =
  i_archives :: "(string \<times> archive_kind \<times> nat) list"
  i_scripts :: "string list"
  i_configs :: "(string \<times> nat \<times> string) list"
  i_toolchains :: "string list"
  i_commits :: "(string \<times> string list) list"

definition is_build_script :: "string \<Rightarrow> bool" where
  "is_build_script n =
     (n = ''makefile'' \<or> n \<in> {''kbuild'', ''build.sh'', ''build_kernel.sh''} \<or>
      (prefix ''build'' n \<and> list_ex (ends_with n) [''.sh'', ''.py'', ''.mk'']))"

definition is_config :: "string \<Rightarrow> bool" where
  "is_config n = (contains_sub ''defconfig'' n \<or> n = ''.config'' \<or> prefix ''build.config'' n \<or> prefix ''kconfig'' n)"

definition names_toolchain :: "string \<Rightarrow> string \<Rightarrow> bool" where
  "names_toolchain n relative =
     list_ex (\<lambda>tok. contains_sub tok n \<or> contains_sub tok (py_lower relative))
       [''toolchain'', ''clang'', ''llvm'', ''gcc'', ''prebuilt'']"

definition may_name_commits :: "string \<Rightarrow> bool" where
  "may_name_commits n =
     (list_ex (\<lambda>p. prefix p n) [''manifest'', ''readme'', ''version'', ''build''] \<or>
      n \<in> {''makefile'', ''build_kernel.sh''})"

definition scan_file :: "scan_env \<Rightarrow> path \<Rightarrow> inventory \<Rightarrow> (rexc, inventory) res" where
  "scan_file env p acc =
     (let relative = join ''/'' p; name = last p; lower_name = py_lower name; kind = archive_kind_of name
      in bindR (st_size env p) (\<lambda>sz.
         let acc = (case kind of None \<Rightarrow> acc
                    | Some k \<Rightarrow> acc\<lparr>i_archives := i_archives acc @ [(relative, k, sz)]\<rparr>);
             acc = (if is_build_script lower_name
                    then acc\<lparr>i_scripts := i_scripts acc @ [relative]\<rparr> else acc)
         in bindR (if is_config lower_name
                   then bindR (read_file env p) (\<lambda>data.
                          Inr (acc\<lparr>i_configs := i_configs acc @ [(relative, sz, sha_hex env data)]\<rparr>))
                   else Inr acc) (\<lambda>acc.
            let acc = (if names_toolchain lower_name relative
                       then acc\<lparr>i_toolchains := i_toolchains acc @ [relative]\<rparr> else acc);
                refs = (if may_name_commits lower_name then read_commit_refs env p else [])
            in Inr (if refs \<noteq> [] then acc\<lparr>i_commits := i_commits acc @ [(relative, refs)]\<rparr> else acc))))"

text \<open>The directories above the files, the root included.\<close>

definition scan_directories :: "path list \<Rightarrow> path list" where
  "scan_directories files =
     sorted_set ([] # concat (map (\<lambda>p. map (\<lambda>i. take i p) [0..<length p]) files))"

definition kernel_markers :: "scan_env \<Rightarrow> path \<Rightarrow> (string \<times> bool) list" where
  "kernel_markers env d =
     [(''Makefile'', isfile env (d @ [''Makefile''])), (''Kconfig'', isfile env (d @ [''Kconfig''])),
      (''arch/arm64'', isdir env (d @ [''arch'', ''arm64''])),
      (''include/linux'', isdir env (d @ [''include'', ''linux''])),
      (''drivers'', isdir env (d @ [''drivers''])), (''kernel'', isdir env (d @ [''kernel'']))]"

definition kernel_root :: "scan_env \<Rightarrow> path \<Rightarrow> (string \<times> nat \<times> string list) option" where
  "kernel_root env d =
     (let markers = kernel_markers env d
      in if list_all snd markers
         then let reasons = map fst markers @
                    (if isfile env (d @ [''build_kernel.sh'']) then [''build_kernel.sh''] else [])
              in Some (if d = [] then ''.'' else join ''/'' d, length reasons, reasons)
         else None)"

record release_scan =
  rs_inventory :: inventory
  rs_kernel_roots :: "(string \<times> nat \<times> string list) list"
  rs_git :: "string option"
  rs_file_count :: nat

definition scan_release :: "scan_env \<Rightarrow> dnode \<Rightarrow> (rexc, release_scan) res" where
  "scan_release env tree =
     guardR (is_dirn tree) (Release NotATree)
       (let files = iter_files [] tree
        in bindR (foldR (scan_file env) files
               \<lparr>i_archives = [], i_scripts = [], i_configs = [], i_toolchains = [], i_commits = []\<rparr>) (\<lambda>acc.
           Inr \<lparr>rs_inventory =
                  \<lparr>i_archives = sort_key fst (i_archives acc), i_scripts = sorted_set (i_scripts acc),
                   i_configs = sort_key fst (i_configs acc), i_toolchains = sorted_set (i_toolchains acc),
                   i_commits = sort_key fst (i_commits acc)\<rparr>,
                rs_kernel_roots = sort_key (\<lambda>(p, score, reasons). (- int score, p))
                  (List.map_filter (kernel_root env) (scan_directories files)),
                rs_git = (if isdir env [''.git''] \<and> \<not> isymlink env [''.git'']
                          then Some (case head_text env of None \<Rightarrow> [] | Some t \<Rightarrow> py_strip t) else None),
                rs_file_count = length files\<rparr>))"

section \<open>The manifest file\<close>

text \<open>\<open>dump_ok\<close> says whether writing the temporary file succeeds.\<close>

definition write_json :: "machine \<Rightarrow> bool \<Rightarrow> string \<Rightarrow> path \<Rightarrow> byte list \<Rightarrow> unit fsact" where
  "write_json m dump_ok pid target text =
     bindS (askS (\<lambda>f. lexists f target)) (\<lambda>there.
     guardS (\<not> there) (Release ManifestExists)
       (bindS (osS (make_dirs [] (butlast target) (dir_mode m) (dir_mode m))) (\<lambda>u f.
          let temporary = butlast target @ [CHR ''.'' # last target @ ''.tmp-'' @ pid]
          in case bindS (osS (make_node temporary (NFile [] (file_mode m)))) (\<lambda>u.
                  bindS (osS (\<lambda>f. (append_file temporary text f, dump_ok))) (\<lambda>u.
                    osS (\<lambda>f. (f(target := f temporary, temporary := None), True)))) f
             of (g, r) \<Rightarrow> (g(temporary := None), r))))"

end
