(* ===== verification/Release_Unpack.thy ===== *)
theory Release_Unpack
  imports Release_Safety Release_Tree
begin

text \<open>
  What the extraction of one archive and the unpacking of a whole release tree do to the file
  system: they keep it well formed, a successful extraction makes its output directory, and
  nothing that exists is changed or lost.
\<close>

section \<open>Every step keeps the file system well formed\<close>

text \<open>The output is a directory and every node has a directory above it.\<close>

definition settled :: "path \<Rightarrow> fs \<Rightarrow> bool" where
  "settled out g \<longleftrightarrow> wf_fs g \<and> is_dir g out"

lemma keeps_settled:
  assumes "\<And>g h b. F g = (h, b) \<Longrightarrow> settled out g \<Longrightarrow> settled out h"
  shows "keeps (settled out) (osS F)"
proof -
  have "settled out (fst (osS F g))" if "settled out g" for g
  proof -
    obtain h b where h: "F g = (h, b)" by fastforce
    with assms [OF h that] show ?thesis by (simp add: osS_def)
  qed
  then show ?thesis by (simp add: keeps_def)
qed

text \<open>A change of one node that leaves a directory a directory, and makes a node only in one.\<close>

lemma wf_fs_upd:
  assumes "wf_fs g" and "is_dir g p \<Longrightarrow> is_dir_node (Some n)" and "g p = None \<Longrightarrow> p \<noteq> [] \<Longrightarrow> is_dir g (butlast p)"
  shows "wf_fs (g(p \<mapsto> n))"
proof -
  have "is_dir (g(p \<mapsto> n)) (butlast q)" if q: "(g(p \<mapsto> n)) q \<noteq> None" "q \<noteq> []" for q
  proof -
    have "is_dir g (butlast q)" using q assms(1,3) by (cases "q = p") (auto simp: wf_fs_def)
    with assms(2) show ?thesis by (cases "butlast q = p") (auto simp: is_dir_def)
  qed
  then show ?thesis by (simp add: wf_fs_def)
qed

lemma settled_make_node: "make_node p n g = (h, b) \<Longrightarrow> settled out g \<Longrightarrow> settled out h"
  by (cases b)
    (auto simp: make_node_True settled_def is_dir_def intro!: wf_fs_upd dest: make_node_False split: if_splits)

lemma settled_append: "settled out g \<Longrightarrow> settled out (append_file p bs g)"
  by (auto simp: append_file_def settled_def is_dir_def wf_fs_def intro!: wf_fs_upd split: option.splits node.splits)

lemma settled_chmod: "settled out g \<Longrightarrow> settled out (chmod p m g)"
  by (auto simp: chmod_def settled_def is_dir_def wf_fs_def intro!: wf_fs_upd split: option.splits node.splits)

lemmas settled_steps = settled_make_node settled_append settled_chmod

lemma keeps_settled_parents: "keeps (settled out) (make_parents m base links key before ps)"
proof (induction m base links key before ps rule: make_parents.induct)
  case (3 m base links key before p q ps)
  then show ?case
    by (auto intro!: keeps_intros keeps_settled split: option.splits dest: settled_make_node)
qed (simp_all only: make_parents.simps keeps_basic)

lemma keeps_settled_directory: "keeps (settled out) (place_directory m base links d)"
  unfolding place_directory_def make_parent_def
  by (cases d) (auto intro!: keeps_intros keeps_settled keeps_settled_parents keeps_no_collision
      dest: settled_make_node simp: settled_chmod)

lemma keeps_settled_copy: "keeps (settled out) (copy_reads p rs w)"
  by (induction rs arbitrary: w)
    (auto intro!: keeps_intros keeps_settled simp: settled_append Let_def)

lemma keeps_settled_regulars:
  assumes "\<And>e. keeps (settled out) (opn e)"
  shows "keeps (settled out) (place_regulars tb m base links opn sz rds rs tot)"
proof (induction rs arbitrary: tot)
  case (Cons r rs)
  obtain key e mode where r: "r = (key, e, mode)" by (cases r) auto
  show ?case
    unfolding r place_regulars.simps Let_def make_parent_def stream_copy_def
    by (intro keeps_intros keeps_settled keeps_settled_parents keeps_no_collision keeps_settled_copy assms Cons.IH)
      (auto dest: settled_make_node simp: settled_chmod)
qed (simp add: keeps_intros)

text \<open>A link that leads out is removed again: the file system is the one before it.\<close>

lemma keeps_settled_symlink: "keeps (settled out) (publish_symlink m base key target)"
proof -
  let ?dest = "base @ key_parts key"
  have "keeps (settled out) (bindS (osS (make_node ?dest (NLink target))) (\<lambda>u.
      bindS (askS (leads_out m base ?dest)) (\<lambda>led.
      if led then bindS (osS (\<lambda>f. (f(?dest := None), True))) (\<lambda>u. failS (Release (LinkOutside key)))
      else retS ())))" (is "keeps _ ?run")
  proof -
    have "settled out (fst (?run g))" if g: "settled out g" for g
    proof -
      obtain h b where h: "make_node ?dest (NLink target) g = (h, b)" by fastforce
      have "b \<Longrightarrow> h(?dest := None) = g" using h by (auto simp: make_node_True fun_upd_idem)
      with settled_make_node [OF h g] h g show ?thesis
        by (cases b) (auto simp: bindS_eq osS_def askS_def)
    qed
    then show ?thesis by (simp add: keeps_def)
  qed
  note link = this
  have parent: "keeps (settled out) (osS (\<lambda>f. if lexists f p then (f, is_dir f p)
      else make_node p (NDir (dir_mode m)) f))" for p
    by (rule keeps_settled) (auto dest: settled_make_node split: if_splits)
  show ?thesis
    unfolding publish_symlink_def Let_def
    by (rule keeps_bind [OF keeps_no_collision keeps_bind [OF parent link]])
qed

lemma keeps_settled_all:
  assumes "keeps (settled out) regs"
  shows "keeps (settled out) (place_all m base ms regs)"
  unfolding place_all_def Let_def place_link_def make_parent_def
  by (auto intro!: keeps_intros keeps_settled_directory keeps_settled_symlink keeps_settled_parents assms
      split: prod.splits)

lemma keeps_settled_streams:
  "keeps (settled out) (zip_regulars m base links rs)"
  "keeps (settled out) (tar_regulars m base links ts)"
  unfolding zip_regulars_def tar_regulars_def
  by (intro keeps_settled_regulars keeps_intros keeps_tar_stream)+

section \<open>One archive\<close>

lemma make_dirs_wf: "make_dirs base cs dm m f = (g, b) \<Longrightarrow> wf_fs f \<Longrightarrow> wf_fs g"
proof (induction base cs dm m f arbitrary: g b rule: make_dirs.induct)
  case (2 base c cs dm m f)
  show ?case
  proof (cases "lexists f (base @ [c])")
    case True
    with 2 show ?thesis by (auto split: if_splits)
  next
    case False
    obtain h k where h: "make_node (base @ [c]) (NDir (if cs = [] then m else dm)) f = (h, k)" by fastforce
    have "wf_fs h" using h 2(4)
      by (cases k) (auto simp: make_node_True intro!: wf_fs_upd dest: make_node_False)
    with 2 False h show ?thesis by (cases k) auto
  qed
qed simp

lemma ensure_empty_output_settled:
  assumes "ensure_empty_output m output f = (g, Inr u)" and "wf_fs f"
  shows "\<not> lexists f output \<and> settled output g"
proof -
  from assms(1) obtain h where h: "make_dirs [] (butlast output) (dir_mode m) (dir_mode m) f = (h, True)"
    and g: "make_node output (NDir (dir_mode m)) h = (g, True)" and no: "\<not> lexists f output"
    by (auto simp: ensure_empty_output_def bindS_Inr guardS_Inr askS_def osS_def split: prod.splits if_splits)
  have "wf_fs h" by (rule make_dirs_wf [OF h assms(2)])
  with g no show ?thesis by (auto simp: settled_def make_node_True is_dir_def intro!: wf_fs_upd)
qed

text \<open>What a successful extraction does: the output is new, and nothing that existed changes.\<close>

definition adds_output :: "path \<Rightarrow> fs \<Rightarrow> fs \<Rightarrow> bool" where
  "adds_output out f g \<longleftrightarrow> \<not> lexists f out \<and> is_dir g out \<and> (\<forall>p. lexists f p \<longrightarrow> g p = f p)"

lemma confined_adds_output:
  assumes "confined f out g" and "wf_fs f" and "\<not> lexists f out" and "is_dir g out"
  shows "adds_output out f g"
proof -
  have "f p = None" if "prefix out p" for p
    using wf_fs_below [OF assms(2), of out] assms(3) that by (auto simp: prefix_def lexists_def)
  moreover have "prefix out p \<or> g p = f p \<or> f p = None" for p using assms(1) by (auto simp: confined_def)
  ultimately have "g p = f p" if "f p \<noteq> None" for p using that by metis
  with assms(3,4) show ?thesis by (simp add: adds_output_def lexists_def)
qed

lemma settled_run:
  assumes "guardS b e (bindS (ensure_empty_output m output) (\<lambda>u. rest)) f = (g, Inr x)"
    and "keeps (settled output) rest" and "wf_fs f"
  shows "settled output g \<and> \<not> lexists f output"
proof -
  from assms(1) obtain h where en: "ensure_empty_output m output f = (h, Inr ())" and "rest h = (g, Inr x)"
    by (auto simp: guardS_Inr bindS_Inr)
  with ensure_empty_output_settled [OF en assms(3)] keepsD [OF assms(2)] show ?thesis by blast
qed

lemma extract_zip_settled:
  assumes "extract_zip m utf8 archive entries output f = (g, Inr s)" and "wf_fs f"
  shows "settled output g \<and> \<not> lexists f output"
  by (rule settled_run [OF assms(1) [unfolded extract_zip_def] _ assms(2)])
    (auto intro!: keeps_rescue keeps_liftS_bind keeps_bind keeps_settled_all keeps_settled_streams keeps_basic)

lemma extract_tar_settled:
  assumes "extract_tar m archive entries output f = (g, Inr s)" and "wf_fs f"
  shows "settled output g \<and> \<not> lexists f output"
  by (rule settled_run [OF assms(1) [unfolded extract_tar_def] _ assms(2)])
    (auto intro!: keeps_rescue keeps_liftS_bind keeps_bind keeps_settled_all keeps_settled_streams keeps_basic)

lemma remove_partial_Inr: "remove_partial m ex out run f = (g, Inr s) \<longleftrightarrow> run f = (g, Inr s)"
  by (auto simp: remove_partial_def split: prod.splits sum.splits)

lemma extract_one_adds:
  assumes "extract_one m lib archive f = (g, Inr (kind, s))" and "wf_fs f"
  shows "wf_fs g \<and> adds_output (contents_of archive) f g"
proof (cases "archive_kind_of (last archive)")
  case None
  with assms(1) show ?thesis by (simp add: extract_one_def)
next
  case (Some k)
  let ?out = "contents_of archive"
  have "settled ?out g \<and> \<not> lexists f ?out \<and> confined f ?out g"
  proof (cases k)
    case ZipKind
    with assms(1) Some have run: "extract_zip m (lib_utf8 lib) (last archive) (lib_zip lib f archive) ?out f = (g, Inr s)"
      by (auto simp: extract_one_def Let_def bindS_Inr remove_partial_Inr)
    from extract_zip_settled [OF run assms(2)] extract_zip_confined [OF run assms(2)] show ?thesis by blast
  next
    case TarKind
    with assms(1) Some have run: "extract_tar m (last archive) (lib_tar lib f archive) ?out f = (g, Inr s)"
      by (auto simp: extract_one_def Let_def bindS_Inr remove_partial_Inr)
    from extract_tar_settled [OF run assms(2)] extract_tar_confined [OF run assms(2)] show ?thesis by blast
  qed
  with confined_adds_output assms(2) show ?thesis by (auto simp: settled_def)
qed

section \<open>A whole tree\<close>

text \<open>An entry of the result: its archive was extracted by a successful run into a new directory
  beside it, and all that this run left is still there in \<open>g\<close>.\<close>

definition was_extracted :: "machine \<Rightarrow> library \<Rightarrow> fs \<Rightarrow> unpacked \<Rightarrow> bool" where
  "was_extracted m lib g u \<longleftrightarrow> u_output u = contents_of (u_archive u) \<and>
     (\<exists>h k kind. extract_one m lib (u_archive u) h = (k, Inr (kind, u_summary u)) \<and>
        adds_output (u_output u) h k \<and> (\<forall>p. lexists k p \<longrightarrow> g p = k p))"

definition keeps_nodes :: "fs \<Rightarrow> fs \<Rightarrow> bool" where
  "keeps_nodes f g \<longleftrightarrow> (\<forall>p. lexists f p \<longrightarrow> g p = f p)"

lemma keeps_nodes_trans: "keeps_nodes f g \<Longrightarrow> keeps_nodes g h \<Longrightarrow> keeps_nodes f h"
  unfolding keeps_nodes_def lexists_def by metis

lemma unpack_loop_results:
  assumes "unpack_loop m lib queue processed results f = (g, Inr all)" and "wf_fs f"
  shows "\<exists>new. all = results @ new \<and> distinct (map u_archive new) \<and>
    set (map u_archive new) \<inter> set processed = {} \<and>
    (\<forall>(p, d) \<in> set queue. p \<in> set processed \<or> is_part (last p) \<or> p \<in> set (map u_archive new)) \<and>
    keeps_nodes f g \<and> list_all (was_extracted m lib g) new"
  using assms
proof (induction m lib queue processed results f arbitrary: g all rule: unpack_loop.induct)
  case (1 m lib processed results f)
  then show ?case by (auto simp: keeps_nodes_def)
next
  case (2 m lib archive depth queue processed results f)
  show ?case
  proof (cases "archive \<in> set processed \<or> is_part (last archive)")
    case True
    show ?thesis
    proof (cases "archive \<in> set processed")
      case True
      with 2(1) [OF True] 2(4,5) show ?thesis by auto
    next
      case False
      with True have part: "is_part (last archive)" by simp
      from 2(2) [OF False part] 2(4,5) False part obtain new where
        "all = results @ new \<and> distinct (map u_archive new) \<and>
         set (map u_archive new) \<inter> set (archive # processed) = {} \<and>
         (\<forall>(p, d) \<in> set queue. p \<in> set (archive # processed) \<or> is_part (last p) \<or> p \<in> set (map u_archive new)) \<and>
         keeps_nodes f g \<and> list_all (was_extracted m lib g) new"
        by auto
      with part show ?thesis by (intro exI [of _ new]) auto
    qed
  next
    case False
    then have np: "archive \<notin> set processed" "\<not> is_part (last archive)" by auto
    obtain h x where ex: "extract_one m lib archive f = (h, x)" by fastforce
    from 2(4) np ex obtain kind s where x: "x = Inr (kind, s)" by (cases x) auto
    let ?nested = "nested_archives lib kind (contents_of archive) h"
    let ?entry = "\<lparr>u_summary = s, u_archive = archive, u_output = contents_of archive\<rparr>"
    from extract_one_adds [OF ex [unfolded x] 2(5)] have wf: "wf_fs h" and adds: "adds_output (contents_of archive) f h"
      by simp_all
    from 2(4) np ex x have nest: "\<not> (?nested \<noteq> [] \<and> max_zip_depth \<le> depth)"
      and run: "unpack_loop m lib (queue @ map (\<lambda>p. (p, Suc depth)) ?nested) (archive # processed)
          (results @ [?entry]) h = (g, Inr all)"
      by (auto simp: Let_def split: if_splits)
    from 2(3) [OF np ex [symmetric] x refl refl refl nest run wf] obtain new where new:
      "all = (results @ [?entry]) @ new" "distinct (map u_archive new)"
      "set (map u_archive new) \<inter> set (archive # processed) = {}"
      "\<forall>(p, d) \<in> set (queue @ map (\<lambda>p. (p, Suc depth)) ?nested).
         p \<in> set (archive # processed) \<or> is_part (last p) \<or> p \<in> set (map u_archive new)"
      "keeps_nodes h g" "list_all (was_extracted m lib g) new" by blast
    have "keeps_nodes f h" using adds by (simp add: adds_output_def keeps_nodes_def)
    with new(5) have "keeps_nodes f g" by (rule keeps_nodes_trans [rotated])
    moreover have "was_extracted m lib g ?entry"
      unfolding was_extracted_def using ex x adds new(5) by (auto simp: keeps_nodes_def)
    ultimately show ?thesis using new np by (intro exI [of _ "?entry # new"]) auto
  qed
qed

end
