(* ===== verification/Release_Properties.thy ===== *)
theory Release_Properties
  imports Release_Unpack
begin

text \<open>
  The properties of \<open>tools/safe_release_extract.py\<close>, with the witnesses on a small archive:
  containment of an extraction, the existing output the command deletes, and the unpacking
  of a release tree.
\<close>

section \<open>Containment\<close>

text \<open>
  Claim C8. An extraction into an output that does not exist yet, successful or not, changes
  nothing outside it except for the missing directories above it; and no path below the
  output, followed through whatever symbolic links the archive made, through any chain of
  them, leads out of the output.
\<close>

theorem release_extract_confined:
  assumes "run = extract_zip m utf8 archive es out \<or> run = extract_tar m archive ts out"
    and "wf_fs f" and "\<not> lexists f out"
  shows "(\<forall>p. prefix out p \<or> fst (run f) p = f p \<or>
      (f p = None \<and> is_dir (fst (run f)) p \<and> strict_prefix p out)) \<and>
    (\<forall>n cs. list_all plain_part cs \<longrightarrow>
      (case resolve n (fst (run f)) out cs of None \<Rightarrow> True | Some p \<Rightarrow> prefix out p))"
proof -
  have conf: "confined f out (fst (run f))"
    using assms extract_zip_confined extract_tar_confined by (metis prod.collapse)
  then have "prefix out p" if "resolve n (fst (run f)) out cs = Some p" "list_all plain_part cs" for n cs p
    using that by (rule confined_escape)
  with conf show ?thesis by (auto simp: confined_def split: option.splits)
qed

section \<open>The output that existed\<close>

lemma existing_output_rejected:
  assumes "lexists f out"
  shows "\<exists>e. extract_zip m utf8 archive es out f = (f, Inl (Release e))"
    and "\<exists>e. extract_tar m archive ts out f = (f, Inl (Release e))"
proof -
  have "ensure_empty_output m out f = (f, Inl (Release OutputExists))"
    using assms by (simp add: ensure_empty_output_def bindS_eq askS_def)
  then show "\<exists>e. extract_zip m utf8 archive es out f = (f, Inl (Release e))"
    and "\<exists>e. extract_tar m archive ts out f = (f, Inl (Release e))"
    by (cases "is_part archive"; simp add: extract_zip_def extract_tar_def)+
qed

text \<open>
  Claim C40. The command deletes an output directory that existed before: the extraction
  refuses it without touching it, but the error exit of \<open>main\<close> then removes the whole
  tree, which the comment there says is untouched; only nodes that cannot be removed stay.
\<close>

theorem release_main_deletes_existing_output:
  assumes "is_dir f out"
    and "run = extract_zip m utf8 archive es out \<or> run = extract_tar m archive ts out"
  shows "\<exists>e. run f = (f, Inl (Release e)) \<and>
    extract_main m say run out f = (rm_tree_ignoring (leftover m) out f, RRejected (Release e)) \<and>
    (leftover m = (\<lambda>p. False) \<longrightarrow> extract_main m say run out f = (rm_tree out f, RRejected (Release e)))"
proof -
  from is_dir_lexists [OF assms(1)] existing_output_rejected assms(2)
  obtain e where "run f = (f, Inl (Release e))" by metis
  with assms(1) show ?thesis by (auto simp: extract_main_def bindS_eq)
qed

section \<open>Unpacking a tree\<close>

lemma iter_files_names:
  "p \<in> set (iter_files here d) \<Longrightarrow> p \<noteq> [] \<and> \<not> is_part (last p)"
  "(n, ps) \<in> set (iter_dirs here es) \<Longrightarrow> p \<in> set ps \<Longrightarrow> p \<noteq> [] \<and> \<not> is_part (last p)"
  by (induction here d and here es arbitrary: p and p n ps rule: iter_files_iter_dirs.induct)
    (fastforce simp: file_names_def split: if_splits)+

text \<open>
  Claim C37. When \<open>unpack_tree\<close> succeeds, every archive the release tree contained at the start
  has been extracted, and no archive twice: for each result there was a successful run of the
  extraction on that archive, into a directory beside it that did not exist before, and all
  the nodes this run left are still there at the end. Nothing that existed at the start is
  changed or lost.
\<close>

theorem unpack_tree_unpacks_every_archive:
  assumes "unpack_tree m lib release f = (g, Inr results)" and "wf_fs f"
  shows "distinct (map u_archive results) \<and>
    set (map (\<lambda>p. release @ p) (filter is_archive (iter_files [] (lib_tree lib f release))))
      \<subseteq> set (map u_archive results) \<and>
    list_all (was_extracted m lib g) results \<and> keeps_nodes f g"
proof -
  let ?first = "filter is_archive (iter_files [] (lib_tree lib f release))"
  from assms(1) have "unpack_loop m lib (map (\<lambda>p. (release @ p, 0)) ?first) [] [] f = (g, Inr results)"
    by (simp add: unpack_tree_def split: if_splits)
  from unpack_loop_results [OF this assms(2)] have all: "distinct (map u_archive results)"
    "\<forall>p \<in> set ?first. is_part (last (release @ p)) \<or> release @ p \<in> set (map u_archive results)"
    "list_all (was_extracted m lib g) results" "keeps_nodes f g" by auto
  have "\<not> is_part (last (release @ p))" if "p \<in> set ?first" for p
    using that iter_files_names(1) [of p "[]" "lib_tree lib f release"] by auto
  with all show ?thesis by auto
qed


section \<open>Witnesses\<close>

definition sample_machine :: machine where
  "sample_machine = \<lparr>dir_mode = 0x1ED, file_mode = 0x1A4, fuel = 40, loop_raises = True,
     leftover = (\<lambda>p. False)\<rparr>"

definition ascii_only :: "byte list \<Rightarrow> string option" where
  "ascii_only bs = Some (map (\<lambda>b. char_of (unat b)) bs)"

definition link_entries :: "zip_entry list" where
  "link_entries =
     [\<lparr>ze_name = ''lib/l'', ze_attr = 0xA1FF0000, ze_size = 4, ze_open = Inr (),
       ze_reads = [Inr (ascii ''../x'')]\<rparr>,
      \<lparr>ze_name = ''x'', ze_attr = 0x81A40000, ze_size = 1, ze_open = Inr (), ze_reads = [Inr [7]]\<rparr>]"

definition base_fs :: fs where
  "base_fs p = (if p = [] \<or> p = [''old''] then Some (NDir 0x1ED) else None)"

definition link_run :: "summary fsact" where
  "link_run = extract_zip sample_machine ascii_only ''a.zip'' (Inr link_entries) [''out'']"

lemma link_entries_target: "safe_link_target ''lib/l'' ''../x'' = Inr ''../x''"
  by code_simp

lemma wf_base: "wf_fs base_fs" "\<not> lexists base_fs [''out'']"
  by (auto simp: wf_fs_def base_fs_def is_dir_def lexists_def)

theorem release_extract_confined_witness:
  "(case resolve 9 (fst (link_run base_fs)) [''out''] [''lib'', ''l''] of
     None \<Rightarrow> True | Some p \<Rightarrow> prefix [''out''] p) \<and> safe_link_target ''lib/l'' ''../x'' = Inr ''../x''"
proof -
  have "link_run = extract_zip sample_machine ascii_only ''a.zip'' (Inr link_entries) [''out''] \<or>
      link_run = extract_tar sample_machine ''a.zip'' (Inr []) [''out'']"
    by (simp add: link_run_def)
  from release_extract_confined [OF this wf_base] link_entries_target show ?thesis by (simp add: plain_part_def)
qed

theorem release_main_deletes_existing_output_witness:
  "fst (extract_main sample_machine (\<lambda>s. Inr ()) (extract_zip sample_machine ascii_only ''a.zip'' (Inr []) [''old'']) [''old''] base_fs) [''old''] = None
   \<and> base_fs [''old''] \<noteq> None"
proof -
  have "is_dir base_fs [''old'']" by (simp add: is_dir_def base_fs_def)
  from release_main_deletes_existing_output [OF this disjI1 [OF refl], of sample_machine ascii_only "''a.zip''" "Inr []"
      "\<lambda>s. Inr ()"]
  show ?thesis by (auto simp: rm_tree_def base_fs_def sample_machine_def)
qed

definition tree_fs :: fs where
  "tree_fs p = (if p = [] then Some (NDir 0x1ED) else if p = [''a.zip''] then Some (NFile [] 0x1A4) else None)"

definition tree_library :: library where
  "tree_library = \<lparr>lib_tree = (\<lambda>f p. if p = [] then DirN [(''a.zip'', FileN)] else DirN []),
     lib_zip = (\<lambda>f p. Inr []), lib_tar = (\<lambda>f p. Inl ROs), lib_utf8 = ascii_only\<rparr>"

lemma sample_iter: "iter_files [] (DirN [(''a.zip'', FileN)]) = [[''a.zip'']]" "iter_files [] (DirN []) = []"
  "is_archive [''a.zip'']" "\<not> is_part ''a.zip''" "archive_kind_of ''a.zip'' = Some ZipKind"
  by code_simp+

lemma tree_unpacked:
  "\<exists>g s. unpack_tree sample_machine tree_library [] tree_fs =
     (g, Inr [\<lparr>u_summary = s, u_archive = [''a.zip''], u_output = [''a.zip.contents'']\<rparr>])"
proof -
  let ?out = "[''a.zip.contents'']"
  have "\<exists>g s. extract_zip sample_machine ascii_only ''a.zip'' (Inr []) ?out tree_fs = (g, Inr s)"
    by (simp add: extract_zip_def sample_iter ensure_empty_output_def bindS_def askS_def osS_def guardS_def
        lexists_def tree_fs_def make_node_def is_dir_def rescueS_def classify_zip_def no_members_def
        place_all_def directory_order_def zip_regulars_def)
  then obtain g s where "extract_zip sample_machine ascii_only ''a.zip'' (Inr []) ?out tree_fs = (g, Inr s)"
    by blast
  then have "extract_one sample_machine tree_library [''a.zip''] tree_fs = (g, Inr (ZipKind, s))"
    by (simp add: extract_one_def contents_of_def sample_iter tree_library_def remove_partial_def bindS_def)
  then have "unpack_tree sample_machine tree_library [] tree_fs =
      (g, Inr [\<lparr>u_summary = s, u_archive = [''a.zip''], u_output = ?out\<rparr>])"
    by (simp add: unpack_tree_def is_dir_def tree_fs_def tree_library_def sample_iter contents_of_def nested_archives_def
        del: iter_files.simps)
  then show ?thesis by blast
qed

theorem unpack_tree_unpacks_every_archive_witness:
  "\<exists>g results. unpack_tree sample_machine tree_library [] tree_fs = (g, Inr results) \<and>
     [''a.zip''] \<in> set (map u_archive results) \<and> is_dir g [''a.zip.contents''] \<and> g [''a.zip''] = tree_fs [''a.zip'']"
proof -
  obtain g s where run: "unpack_tree sample_machine tree_library [] tree_fs =
     (g, Inr [\<lparr>u_summary = s, u_archive = [''a.zip''], u_output = [''a.zip.contents'']\<rparr>])"
    using tree_unpacked by blast
  have "wf_fs tree_fs" by (auto simp: wf_fs_def tree_fs_def is_dir_def)
  note all = unpack_tree_unpacks_every_archive [OF run this]
  then have "was_extracted sample_machine tree_library g \<lparr>u_summary = s, u_archive = [''a.zip''], u_output = [''a.zip.contents'']\<rparr>"
    by simp
  then obtain k where k: "is_dir k [''a.zip.contents'']" "\<forall>p. lexists k p \<longrightarrow> g p = k p"
    by (auto simp: was_extracted_def adds_output_def)
  then have "g [''a.zip.contents''] = k [''a.zip.contents'']" using is_dir_lexists by blast
  with k(1) have "is_dir g [''a.zip.contents'']" by (simp add: is_dir_def)
  moreover have "g [''a.zip''] = tree_fs [''a.zip'']" using all by (auto simp: keeps_nodes_def lexists_def tree_fs_def)
  ultimately show ?thesis using all run by (simp add: tree_library_def sample_iter del: iter_files.simps)
qed

end
