(* ===== verification/Tar_Extract.thy ===== *)
theory Tar_Extract
  imports Posix_Path
begin

text \<open>
  \<open>tools/safe_tar_extract.py\<close>: a closed list of regular files out of a TAR stream. A
  \<open>tar_item\<close> is what iterating over the stream yields for a member: its name, whether it is
  a regular file, the announced size, and what \<open>extractfile\<close> and the reads give. A \<open>tar_env\<close>
  holds the stream and what this run meets: the name \<open>mkdtemp\<close> picks, whether the archive
  opens, the default modes, and which nodes of the stage a removal with \<open>ignore_errors\<close> leaves.
\<close>

datatype texc =
    Repeated string | IrregularMember string | NoData string | ShortFile string | Missing "string list"
  | TOs | TTarError | TOther

datatype tar_outcome = Usage | Refused texc | Uncaught texc | Done

record tar_item =
  t_name :: string
  t_isfile :: bool
  t_size :: nat
  t_source :: "(texc, (texc, byte list) res list option) res"

record tar_env =
  stage_dir :: string
  opens :: bool
  items :: "(texc, tar_item) res list"
  new_dir :: nat
  new_file :: nat
  stage_remains :: "path \<Rightarrow> bool"

type_synonym 'a tact = "(fs, texc, 'a) act"

definition callS :: "(fs \<Rightarrow> fs \<times> bool) \<Rightarrow> unit tact" where
  "callS g = (\<lambda>f. case g f of (h, b) \<Rightarrow> (h, if b then Inr () else Inl TOs))"

definition safe_request :: "string \<Rightarrow> bool" where
  "safe_request n = (path_name n = n \<and> n \<notin> {[], ''.'', ''..''})"

text \<open>\<open>shutil.copyfileobj\<close>.\<close>

fun copy_source :: "path \<Rightarrow> (texc, byte list) res list \<Rightarrow> unit tact" where
  "copy_source p [] = retS ()"
| "copy_source p (r # rs) =
     bindS (liftS r) (\<lambda>chunk.
       if chunk = [] then retS ()
       else bindS (callS (\<lambda>f. (append_file p chunk f, True))) (\<lambda>u. copy_source p rs))"

definition size_at :: "path \<Rightarrow> fs \<Rightarrow> nat" where
  "size_at p f = (case f p of Some (NFile bs m) \<Rightarrow> length bs | _ \<Rightarrow> 0)"

definition store_item :: "tar_env \<Rightarrow> path \<Rightarrow> tar_item \<Rightarrow> unit tact" where
  "store_item env stg it =
     guardS (t_isfile it) (IrregularMember (t_name it))
       (bindS (liftS (t_source it)) (\<lambda>source. case source of
            None \<Rightarrow> failS (NoData (t_name it))
          | Some reads \<Rightarrow>
              bindS (callS (make_node (stg @ [t_name it]) (NFile [] (new_file env)))) (\<lambda>u.
              bindS (copy_source (stg @ [t_name it]) reads) (\<lambda>u f.
                if size_at (stg @ [t_name it]) f \<noteq> t_size it
                then (f, Inl (ShortFile (t_name it))) else (f, Inr ())))))"

text \<open>The loop over the stream; the result is the list of the names stored.\<close>

fun take_items :: "tar_env \<Rightarrow> path \<Rightarrow> string list \<Rightarrow> (texc, tar_item) res list \<Rightarrow> string list \<Rightarrow> string list tact" where
  "take_items env stg requested [] found = retS found"
| "take_items env stg requested (r # rs) found =
     bindS (liftS r) (\<lambda>it.
       if t_name it \<notin> set requested then take_items env stg requested rs found
       else guardS (t_name it \<notin> set found) (Repeated (t_name it))
              (bindS (store_item env stg it)
                (\<lambda>u. take_items env stg requested rs (found @ [t_name it]))))"

text \<open>\<open>os.replace\<close> of a file: it takes the place of a file or link, not of a directory.\<close>

definition replace_file :: "path \<Rightarrow> path \<Rightarrow> fs \<Rightarrow> fs \<times> bool" where
  "replace_file src dst f =
     (if is_dir f dst \<or> f src = None \<or> \<not> is_dir f (butlast dst) then (f, False)
      else (f(dst := f src, src := None), True))"

definition publish_items :: "path \<Rightarrow> path \<Rightarrow> string list \<Rightarrow> unit tact" where
  "publish_items stg out members =
     forS members (\<lambda>n. callS (replace_file (stg @ [n]) (out @ [n])))"

definition tar_body :: "tar_env \<Rightarrow> path \<Rightarrow> path \<Rightarrow> string list \<Rightarrow> unit tact" where
  "tar_body env stg out members =
     bindS (take_items env stg members (items env) []) (\<lambda>found.
       let missing = sorted_set (filter (\<lambda>n. n \<notin> set found) members)
       in guardS (missing = []) (Missing missing) (publish_items stg out members))"

text \<open>
  \<open>main\<close>: \<open>Uncaught\<close> is an exception outside the \<open>try\<close> or one it does not catch; only the
  \<open>try\<close> removes the stage.
\<close>

definition tar_main :: "tar_env \<Rightarrow> path \<Rightarrow> string list \<Rightarrow> fs \<Rightarrow> fs \<times> tar_outcome" where
  "tar_main env out members f =
     (if \<not> distinct members \<or> \<not> list_all safe_request members then (f, Usage)
      else case make_dirs [] out (new_dir env) (new_dir env) f of
        (g, False) \<Rightarrow> (g, Uncaught TOs)
      | (g, True) \<Rightarrow>
          (let stg = out @ [stage_dir env]
           in case make_node stg (NDir 0x1C0) g of
                (h, False) \<Rightarrow> (h, Uncaught TOs)
              | (h, True) \<Rightarrow>
                  if \<not> opens env then (h, Uncaught TOs)
                  else (case tar_body env stg out members h of
                          (k, Inr u) \<Rightarrow> (rm_tree_ignoring (stage_remains env) stg k, Done)
                        | (k, Inl TOther) \<Rightarrow> (rm_tree_ignoring (stage_remains env) stg k, Uncaught TOther)
                        | (k, Inl e) \<Rightarrow> (rm_tree_ignoring (stage_remains env) stg k, Refused e))))"

section \<open>What a run stores and publishes\<close>

fun reads_data :: "(texc, byte list) res list \<Rightarrow> byte list" where
  "reads_data [] = []"
| "reads_data (r # rs) = (case r of Inl e \<Rightarrow> [] | Inr chunk \<Rightarrow> if chunk = [] then [] else chunk @ reads_data rs)"

definition item_data :: "tar_item \<Rightarrow> byte list" where
  "item_data it = (case t_source it of Inr (Some reads) \<Rightarrow> reads_data reads | _ \<Rightarrow> [])"

lemma callS_Inr: "callS F f = (g, Inr u) \<longleftrightarrow> F f = (g, True)"
  by (cases "F f") (auto simp: callS_def)

lemma copy_source_file:
  assumes "copy_source p rs f = (g, Inr u)" and "f p = Some (NFile acc m)"
  shows "g = f(p \<mapsto> NFile (acc @ reads_data rs) m)"
  using assms
proof (induction rs arbitrary: acc f)
  case Nil
  then show ?case by (auto simp: fun_upd_idem)
next
  case (Cons r rs)
  then obtain chunk where r: "r = Inr chunk" by (auto simp: bindS_Inr)
  show ?case
  proof (cases "chunk = []")
    case True
    with Cons r show ?thesis by (auto simp: fun_upd_idem)
  next
    case False
    let ?h = "f(p \<mapsto> NFile (acc @ chunk) m)"
    have "copy_source p rs ?h = (g, Inr u)"
      using Cons.prems r False by (auto simp: bindS_Inr callS_Inr append_file_def)
    from Cons.IH [OF this, of "acc @ chunk"] r False show ?thesis by (simp add: fun_upd_def cong: if_cong)
  qed
qed

text \<open>An item that may be stored, and what storing it does.\<close>

definition whole_item :: "tar_item \<Rightarrow> bool" where
  "whole_item it \<longleftrightarrow> t_isfile it \<and> length (item_data it) = t_size it"

lemma store_item_file:
  assumes "store_item env stg it f = (g, Inr u)"
  shows "whole_item it" and "g = f(stg @ [t_name it] \<mapsto> NFile (item_data it) (new_file env))"
proof -
  let ?p = "stg @ [t_name it]"
  from assms obtain reads h where src: "t_source it = Inr (Some reads)" and isf: "t_isfile it"
    and mk: "make_node ?p (NFile [] (new_file env)) f = (h, True)"
    and cp: "copy_source ?p reads h = (g, Inr ())" and sz: "size_at ?p g = t_size it"
    by (auto simp: store_item_def guardS_Inr bindS_Inr callS_Inr split: option.splits if_splits)
  from mk have h: "h = f(?p \<mapsto> NFile [] (new_file env))" by (simp add: make_node_True)
  then have "h ?p = Some (NFile [] (new_file env))" by simp
  from copy_source_file [OF cp this] have g: "g = h(?p \<mapsto> NFile (reads_data reads) (new_file env))" by simp
  with h src show "g = f(?p \<mapsto> NFile (item_data it) (new_file env))"
    by (simp add: item_data_def fun_upd_def cong: if_cong)
  show "whole_item it" using isf sz src g by (simp add: whole_item_def size_at_def item_data_def)
qed

text \<open>The members of the stream with a requested name.\<close>

definition wanted :: "string list \<Rightarrow> (texc, tar_item) res list \<Rightarrow> tar_item list" where
  "wanted requested rs = concat (map (\<lambda>r. case r of
      Inr it \<Rightarrow> if t_name it \<in> set requested then [it] else [] | Inl e \<Rightarrow> []) rs)"

definition stored :: "tar_env \<Rightarrow> path \<Rightarrow> tar_item list \<Rightarrow> fs \<Rightarrow> fs" where
  "stored env stg its f = fold (\<lambda>it g. g(stg @ [t_name it] \<mapsto> NFile (item_data it) (new_file env))) its f"

lemma wanted_simps [simp]:
  "wanted req [] = []"
  "wanted req (Inr it # rs) = (if t_name it \<in> set req then it # wanted req rs else wanted req rs)"
  "wanted req (Inl e # rs) = wanted req rs"
  by (simp_all add: wanted_def)

lemma stored_simps [simp]:
  "stored env stg [] f = f"
  "stored env stg (it # its) f =
     stored env stg its (f(stg @ [t_name it] \<mapsto> NFile (item_data it) (new_file env)))"
  "stored env stg (its @ [it]) f =
     (stored env stg its f)(stg @ [t_name it] \<mapsto> NFile (item_data it) (new_file env))"
  by (simp_all add: stored_def)

lemma take_items_stores:
  assumes "take_items env stg requested rs found f = (g, Inr names)"
  shows "names = found @ map t_name (wanted requested rs) \<and> list_all whole_item (wanted requested rs) \<and>
    (distinct found \<longrightarrow> distinct names) \<and> g = stored env stg (wanted requested rs) f"
  using assms
proof (induction rs arbitrary: found f)
  case Nil
  then show ?case by simp
next
  case (Cons r rs)
  then obtain it where r: "r = Inr it" by (auto simp: bindS_Inr)
  show ?case
  proof (cases "t_name it \<in> set requested")
    case False
    with Cons r show ?thesis by (simp add: bindS_Inr)
  next
    case True
    with Cons.prems r obtain h where new: "t_name it \<notin> set found"
      and st: "store_item env stg it f = (h, Inr ())"
      and rest: "take_items env stg requested rs (found @ [t_name it]) h = (g, Inr names)"
      by (auto simp: bindS_Inr guardS_Inr)
    note ih = Cons.IH [OF rest]
    have g: "g = stored env stg (wanted requested (r # rs)) f"
      using ih r True by (simp only: wanted_simps stored_simps if_True store_item_file(2) [OF st, symmetric])
    have "distinct found \<longrightarrow> distinct (found @ [t_name it])" using new by simp
    with ih have "distinct found \<longrightarrow> distinct names" by blast
    with g ih store_item_file(1) [OF st] r True show ?thesis by (simp del: stored_simps)
  qed
qed

lemma stored_other:
  "(\<And>it. it \<in> set its \<Longrightarrow> p \<noteq> stg @ [t_name it]) \<Longrightarrow> stored env stg its f p = f p"
  by (induction its rule: rev_induct) auto

lemma stored_at:
  assumes "distinct (map t_name its)" and "it \<in> set its"
  shows "stored env stg its f (stg @ [t_name it]) = Some (NFile (item_data it) (new_file env))"
  using assms
proof (induction its rule: rev_induct)
  case (snoc x xs)
  show ?case
  proof (cases "it = x")
    case False
    with snoc.prems have it: "it \<in> set xs" by simp
    moreover have "t_name x \<notin> t_name ` set xs" using snoc.prems by simp
    ultimately have "t_name it \<noteq> t_name x" by (metis imageI)
    with snoc it show ?thesis by simp
  qed simp
qed simp


lemma publish_items_moves:
  assumes "publish_items stg out ns f = (g, Inr u)" and "distinct ns"
    and "\<not> prefix stg out" and "stg = out @ [d]" and "d \<notin> set ns"
  shows "n \<in> set ns \<Longrightarrow> g (out @ [n]) = f (stg @ [n])"
    and "(\<And>n. n \<in> set ns \<Longrightarrow> p \<noteq> out @ [n]) \<Longrightarrow> \<not> prefix stg p \<Longrightarrow> g p = f p"
proof -
  have "(\<forall>n \<in> set ns. g (out @ [n]) = f (stg @ [n])) \<and>
    (\<forall>p. \<not> prefix stg p \<longrightarrow> (\<forall>n \<in> set ns. p \<noteq> out @ [n]) \<longrightarrow> g p = f p)"
    using assms(1,2,5)
  proof (induction ns arbitrary: f)
    case Nil
    then show ?case by (simp add: publish_items_def)
  next
    case (Cons n ns)
    then obtain h where h: "replace_file (stg @ [n]) (out @ [n]) f = (h, True)"
      and rest: "publish_items stg out ns h = (g, Inr u)"
      by (auto simp: publish_items_def bindS_Inr callS_Inr)
    from h have hf: "h = f(out @ [n] := f (stg @ [n]), stg @ [n] := None)"
      by (auto simp: replace_file_def split: if_splits)
    from Cons.IH [OF rest] Cons.prems have ih: "\<forall>k \<in> set ns. g (out @ [k]) = h (stg @ [k])"
      "\<forall>p. \<not> prefix stg p \<longrightarrow> (\<forall>k \<in> set ns. p \<noteq> out @ [k]) \<longrightarrow> g p = h p" by auto
    have ne: "out \<noteq> stg" "stg \<noteq> out" using assms(4) by simp_all
    have "\<not> prefix stg (out @ [n])" and "\<forall>k \<in> set ns. out @ [n] \<noteq> out @ [k]"
      using Cons.prems assms(4) by (auto simp: prefix_def)
    with ih(2) have "g (out @ [n]) = h (out @ [n])" by blast
    moreover have "h (out @ [n]) = f (stg @ [n])" using hf ne by simp
    moreover have "h (stg @ [k]) = f (stg @ [k])" if "k \<in> set ns" for k
      using that Cons.prems hf ne by auto
    moreover have "g p = f p" if "\<not> prefix stg p" "\<forall>k \<in> set (n # ns). p \<noteq> out @ [k]" for p
      using that ih(2) hf by auto
    ultimately show ?case using ih(1) by auto
  qed
  then show "n \<in> set ns \<Longrightarrow> g (out @ [n]) = f (stg @ [n])"
    and "(\<And>n. n \<in> set ns \<Longrightarrow> p \<noteq> out @ [n]) \<Longrightarrow> \<not> prefix stg p \<Longrightarrow> g p = f p" by auto
qed

lemma replace_file_not_dir: "replace_file src dst f = (h, True) \<Longrightarrow> \<not> is_dir f dst"
  by (simp add: replace_file_def split: if_splits)

lemma request_names:
  "list_all safe_request ns \<Longrightarrow> n \<in> set ns \<Longrightarrow> n \<noteq> [] \<and> n \<noteq> ''.'' \<and> n \<noteq> ''..'' \<and> path_name n = n"
  by (auto simp: safe_request_def list_all_iff)

lemma tar_body_Inr:
  "tar_body env stg out members f = (g, Inr u) \<longleftrightarrow>
   (\<exists>h found. take_items env stg members (items env) [] f = (h, Inr found) \<and>
     set members \<subseteq> set found \<and> publish_items stg out members h = (g, Inr u))"
proof -
  have "sorted_set (filter (\<lambda>n. n \<notin> set found) members) = [] \<longleftrightarrow> set members \<subseteq> set found" for found
  proof -
    have "sorted_set xs = [] \<longleftrightarrow> xs = []" for xs :: "string list"
      unfolding sorted_set_def by (metis length_0_conv length_sort remdups_eq_nil_iff)
    then show ?thesis by (auto simp: filter_empty_conv)
  qed
  then show ?thesis by (auto simp: tar_body_def bindS_Inr guardS_Inr Let_def)
qed

text \<open>
  Claim C36. A run that succeeds was given distinct plain names; the stream held exactly one
  member for each of them, each a regular file with all the bytes it announces; every requested
  name now is a file of the output directory with those bytes; nothing else changed but the
  directories made on the way to the output, and the stage is gone but for what its removal
  could not remove.
\<close>

theorem tar_publishes_requested:
  assumes "tar_main env out members f = (g, Done)" and "stage_dir env \<notin> set members" and "wf_fs f"
  defines "its \<equiv> wanted members (items env)"
  shows "distinct members \<and> list_all safe_request members \<and> distinct (map t_name its) \<and>
    t_name ` set its = set members \<and> list_all whole_item its \<and>
    (\<forall>it. it \<notin> set its \<or> g (out @ [t_name it]) = Some (NFile (item_data it) (new_file env))) \<and>
    (\<forall>p. p \<in> (\<lambda>n. out @ [n]) ` set members \<or> g p = f p \<or> (f p = None \<and> is_dir g p \<and> prefix p out) \<or>
       (prefix (out @ [stage_dir env]) p \<and> stage_remains env p)) \<and>
    (g (out @ [stage_dir env]) = None \<or> stage_remains env (out @ [stage_dir env]))"
proof -
  let ?stg = "out @ [stage_dir env]"
  from assms(1) obtain d h k where ok: "distinct members" "list_all safe_request members"
    and md: "make_dirs [] out (new_dir env) (new_dir env) f = (d, True)"
    and mk: "make_node ?stg (NDir 0x1C0) d = (h, True)"
    and body: "tar_body env ?stg out members h = (k, Inr ())" and g: "g = rm_tree_ignoring (stage_remains env) ?stg k"
    by (auto simp: tar_main_def Let_def split: if_splits prod.splits bool.splits sum.splits texc.splits)
  from body obtain m found where tk: "take_items env ?stg members (items env) [] h = (m, Inr found)"
    and sub: "set members \<subseteq> set found" and pub: "publish_items ?stg out members m = (k, Inr ())"
    by (auto simp: tar_body_Inr)
  note t = take_items_stores [OF tk]
  from t have found: "found = map t_name its" and whole: "list_all whole_item its"
    and m: "m = stored env ?stg its h" by (simp_all add: its_def)
  from t have "distinct found" using distinct.simps(1) by blast
  with found have dis: "distinct (map t_name its)" by (simp only: found)
  have "t_name ` set its \<subseteq> set members" by (auto simp: its_def wanted_def split: sum.splits if_splits)
  with sub found have names: "t_name ` set its = set members" by auto
  have np: "\<not> prefix ?stg out" by (auto simp: prefix_def)
  note mv = publish_items_moves [OF pub ok(1) np refl assms(2)]
  have outside: "g p = k p" if "\<not> prefix ?stg p" for p using that g by (simp add: rm_tree_ignoring_def)
  have files: "g (out @ [t_name it]) = Some (NFile (item_data it) (new_file env))" if "it \<in> set its" for it
  proof -
    from that names have req: "t_name it \<in> set members" by blast
    with assms(2) have "\<not> prefix ?stg (out @ [t_name it])" by (auto simp: prefix_def)
    then have "g (out @ [t_name it]) = m (?stg @ [t_name it])"
      using outside mv(1) [OF req] by metis
    then show ?thesis using stored_at [OF dis that] m by metis
  qed
  have other: "g p = f p \<or> (f p = None \<and> is_dir g p \<and> prefix p out) \<or> (prefix ?stg p \<and> stage_remains env p)"
    if p: "p \<notin> (\<lambda>n. out @ [n]) ` set members" for p
  proof (cases "prefix ?stg p")
    case True
    then obtain q where q: "p = ?stg @ q" by (auto simp: prefix_def)
    have "d ?stg = None" using mk by (simp add: make_node_True)
    with make_dirs_effect [OF md, of ?stg] have "f ?stg = None" by auto
    from wf_fs_below [OF assms(3) this, of q] q have "f p = None" by simp
    with True g show ?thesis by (simp add: rm_tree_ignoring_def)
  next
    case False
    have "p \<noteq> out @ [n]" if "n \<in> set members" for n using p that by blast
    from mv(2) [OF this False] outside [OF False] have "g p = m p" by simp
    also have "m p = h p" unfolding m by (rule stored_other) (use False in auto)
    also have "h p = d p" using mk False by (auto simp: make_node_True)
    finally have "g p = d p" .
    with make_dirs_effect [OF md, of p] show ?thesis by (auto simp: is_dir_def take_is_prefix)
  qed
  have "g ?stg = None \<or> stage_remains env ?stg" using g by (simp add: rm_tree_ignoring_def)
  moreover have "\<forall>it. it \<notin> set its \<or> g (out @ [t_name it]) = Some (NFile (item_data it) (new_file env))"
    using files by blast
  moreover have "\<forall>p. p \<in> (\<lambda>n. out @ [n]) ` set members \<or> g p = f p \<or> (f p = None \<and> is_dir g p \<and> prefix p out) \<or>
      (prefix ?stg p \<and> stage_remains env p)"
    using other by blast
  ultimately show ?thesis using ok dis names whole by (intro conjI)
qed

definition sample_items :: "(texc, tar_item) res list" where
  "sample_items =
     [Inr \<lparr>t_name = ''d'', t_isfile = False, t_size = 0, t_source = Inr None\<rparr>,
      Inr \<lparr>t_name = ''a'', t_isfile = True, t_size = 2, t_source = Inr (Some [Inr [1], Inr [2], Inr []])\<rparr>]"

definition sample_tar :: "(texc, tar_item) res list \<Rightarrow> tar_env" where
  "sample_tar its = \<lparr>stage_dir = ''s'', opens = True, items = its, new_dir = 1, new_file = 2,
     stage_remains = (\<lambda>p. False)\<rparr>"

definition top_only :: fs where
  "top_only p = (if p = [] then Some (NDir 0) else if p = [''o''] then Some (NDir 0) else None)"

lemma sample_take:
  "f [''o''] = Some (NDir 0) \<Longrightarrow> f [''o'', ''s''] = Some (NDir 0x1C0) \<Longrightarrow> f [''o'', ''s'', ''a''] = None \<Longrightarrow>
   take_items (sample_tar sample_items) [''o'', ''s''] [''a''] sample_items [] f =
     (f([''o'', ''s'', ''a''] \<mapsto> NFile [1, 2] 2), Inr [''a''])"
  by (simp add: sample_tar_def sample_items_def store_item_def bindS_eq callS_def make_node_def lexists_def
      is_dir_def append_file_def size_at_def fun_upd_def cong: if_cong)

definition staged :: fs where
  "staged = top_only([''o'', ''s''] \<mapsto> NDir 0x1C0, [''o'', ''s'', ''a''] \<mapsto> NFile [1, 2] 2)"

lemma sample_body:
  "tar_body (sample_tar sample_items) [''o'', ''s''] [''o''] [''a''] (top_only([''o'', ''s''] \<mapsto> NDir 0x1C0)) =
     (staged([''o'', ''a''] \<mapsto> NFile [1, 2] 2, [''o'', ''s'', ''a''] := None), Inr ())"
proof -
  have "take_items (sample_tar sample_items) [''o'', ''s''] [''a''] sample_items []
      (top_only([''o'', ''s''] \<mapsto> NDir 0x1C0)) = (staged, Inr [''a''])"
    by (subst sample_take) (simp_all add: top_only_def staged_def)
  moreover have "items (sample_tar sample_items) = sample_items" by (simp add: sample_tar_def)
  moreover have "replace_file [''o'', ''s'', ''a''] [''o'', ''a''] staged =
      (staged([''o'', ''a''] \<mapsto> NFile [1, 2] 2, [''o'', ''s'', ''a''] := None), True)"
    by (simp add: replace_file_def staged_def top_only_def is_dir_def)
  ultimately show ?thesis
    by (simp add: tar_body_def bindS_eq sorted_set_def publish_items_def callS_def)
qed

lemma sample_run:
  "tar_main (sample_tar sample_items) [''o''] [''a''] top_only =
     (rm_tree [''o'', ''s''] (staged([''o'', ''a''] \<mapsto> NFile [1, 2] 2, [''o'', ''s'', ''a''] := None)), Done)"
proof -
  have "safe_request ''a''" by code_simp
  moreover have "make_dirs [] [''o''] 1 1 top_only = (top_only, True)"
    by (simp add: lexists_def top_only_def is_dir_def)
  moreover have "make_node [''o'', ''s''] (NDir 0x1C0) top_only = (top_only([''o'', ''s''] \<mapsto> NDir 0x1C0), True)"
    by (simp add: make_node_def lexists_def top_only_def is_dir_def)
  moreover have "stage_dir (sample_tar sample_items) = ''s''" "opens (sample_tar sample_items)"
    "new_dir (sample_tar sample_items) = 1" "stage_remains (sample_tar sample_items) = (\<lambda>p. False)" by (simp_all add: sample_tar_def)
  ultimately show ?thesis by (simp add: tar_main_def Let_def sample_body)
qed

lemma wf_top_only: "wf_fs top_only"
  by (auto simp: wf_fs_def top_only_def is_dir_def)

theorem tar_publishes_requested_witness:
  "fst (tar_main (sample_tar sample_items) [''o''] [''a''] top_only) [''o'', ''a''] = Some (NFile [1, 2] 2) \<and>
   fst (tar_main (sample_tar sample_items) [''o''] [''a''] top_only) [''o'', ''s''] = None"
proof -
  have "stage_dir (sample_tar sample_items) \<notin> set [''a'']" by (simp add: sample_tar_def)
  note all = tar_publishes_requested [OF sample_run this wf_top_only]
  have "wanted [''a''] (items (sample_tar sample_items)) =
      [\<lparr>t_name = ''a'', t_isfile = True, t_size = 2, t_source = Inr (Some [Inr [1], Inr [2], Inr []])\<rparr>]"
    by (simp add: sample_tar_def sample_items_def)
  with all show ?thesis by (simp add: sample_run) (simp add: sample_tar_def item_data_def)
qed

end
