(* ===== verification/Py_Regex.thy ===== *)
theory Py_Regex
  imports Py_Text
begin

text \<open>
  Python's \<open>re\<close> as the tools use it: a backtracking matcher over positions of a string. A
  position knows the character before it (for \<open>^\<close> and \<open>\\b\<close>) and the rest of the string.
  \<open>rx_ends\<close> lists the ends of all matches in the order in which the engine tries them, so
  that its first element is the match Python finds; \<open>findall\<close> goes on behind it.
\<close>

datatype rx =
    Eps
  | Cls "char \<Rightarrow> bool"
  | Cat rx rx
  | Alt rx rx
  | Many rx
  | Line_Start
  | Line_End
  | Word_Edge

type_synonym rx_pos = "char option \<times> string"

text \<open>\<open>\\w\<close> on code points below 256: letters, digits (also superscripts and fractions), underscore.\<close>

definition rx_word :: "char \<Rightarrow> bool" where
  "rx_word c = (let n = of_char c :: nat in
     (48 \<le> n \<and> n \<le> 57) \<or> (65 \<le> n \<and> n \<le> 90) \<or> n = 95 \<or> (97 \<le> n \<and> n \<le> 122) \<or>
     n \<in> {170, 178, 179, 181, 185, 186, 188, 189, 190} \<or> (192 \<le> n \<and> n \<noteq> 215 \<and> n \<noteq> 247))"

definition word_at :: "string \<Rightarrow> bool" where
  "word_at s = (case s of [] \<Rightarrow> False | c # cs \<Rightarrow> rx_word c)"

definition word_before :: "char option \<Rightarrow> bool" where
  "word_before b = (case b of None \<Rightarrow> False | Some c \<Rightarrow> rx_word c)"

function rx_ends :: "rx \<Rightarrow> rx_pos \<Rightarrow> rx_pos list" where
  "rx_ends Eps p = [p]"
| "rx_ends (Cls P) p = (case snd p of [] \<Rightarrow> [] | c # cs \<Rightarrow> if P c then [(Some c, cs)] else [])"
| "rx_ends (Cat r q) p = concat (map (rx_ends q) (rx_ends r p))"
| "rx_ends (Alt r q) p = rx_ends r p @ rx_ends q p"
| "rx_ends (Many r) p =
     concat (map (rx_ends (Many r)) (filter (\<lambda>e. length (snd e) < length (snd p)) (rx_ends r p))) @ [p]"
| "rx_ends Line_Start p = (if fst p = None then [p] else [])"
| "rx_ends Line_End p = (if snd p = [] \<or> snd p = nl then [p] else [])"
| "rx_ends Word_Edge p = (if word_before (fst p) \<noteq> word_at (snd p) then [p] else [])"
  by pat_completeness auto
termination
  by (relation "(\<lambda>(r, p). size r) <*mlex*> measure (\<lambda>(r, p). length (snd p))")
    (auto simp: wf_mlex mlex_iff)

declare rx_ends.simps(5) [simp del]

section \<open>Building expressions\<close>

definition seqs :: "rx list \<Rightarrow> rx" where "seqs rs = foldr Cat rs Eps"
definition alts :: "rx list \<Rightarrow> rx" where "alts rs = foldr Alt (butlast rs) (last rs)"
definition lit :: "string \<Rightarrow> rx" where "lit s = foldr (\<lambda>c r. Cat (Cls (\<lambda>d. d = c)) r) s Eps"

text \<open>A literal under \<open>re.IGNORECASE\<close>.\<close>

definition ilit :: "string \<Rightarrow> rx" where
  "ilit s = foldr (\<lambda>c r. Cat (Cls (\<lambda>d. lower_char d = lower_char c)) r) s Eps"

definition opt :: "rx \<Rightarrow> rx" where "opt r = Alt r Eps"
definition some1 :: "rx \<Rightarrow> rx" where "some1 r = Cat r (Many r)"
definition dot :: rx where "dot = Cls (\<lambda>c. c \<noteq> CHR 0x0A)"
definition any :: rx where "any = Cls (\<lambda>c. True)"
definition blank :: rx where "blank = Cls py_space"
definition not_in :: "string \<Rightarrow> rx" where "not_in cs = Cls (\<lambda>c. c \<notin> set cs)"
definition one_of :: "string \<Rightarrow> rx" where "one_of cs = Cls (\<lambda>c. c \<in> set cs)"

section \<open>Searching\<close>

fun positions :: "char option \<Rightarrow> string \<Rightarrow> rx_pos list" where
  "positions b [] = [(b, [])]"
| "positions b (c # cs) = (b, c # cs) # positions (Some c) cs"

text \<open>\<open>bool(r.search(s))\<close>.\<close>

definition rx_search :: "rx \<Rightarrow> string \<Rightarrow> bool" where
  "rx_search r s = list_ex (\<lambda>p. rx_ends r p \<noteq> []) (positions None s)"

text \<open>The text between two positions of one string.\<close>

definition between :: "rx_pos \<Rightarrow> rx_pos \<Rightarrow> string" where
  "between p q = take (length (snd p) - length (snd q)) (snd p)"

text \<open>A match of \<open>pre(group)post\<close> at a position: the group and the end of the match.\<close>

definition group_match :: "rx \<Rightarrow> rx \<Rightarrow> rx \<Rightarrow> rx_pos \<Rightarrow> (string \<times> rx_pos) option" where
  "group_match pre grp post p =
     (case concat (map (\<lambda>p1. concat (map (\<lambda>p2. map (\<lambda>p3. (between p1 p2, p3)) (rx_ends post p2))
                                       (rx_ends grp p1))) (rx_ends pre p)) of
        [] \<Rightarrow> None | m # ms \<Rightarrow> Some m)"

text \<open>\<open>findall\<close> with one group, for expressions that do not match the empty string.\<close>

function findall :: "rx \<Rightarrow> rx \<Rightarrow> rx \<Rightarrow> rx_pos \<Rightarrow> string list" where
  "findall pre grp post p =
     (case group_match pre grp post p of
        Some (g, q) \<Rightarrow>
          if length (snd q) < length (snd p) then g # findall pre grp post q
          else (case snd p of [] \<Rightarrow> [g] | c # cs \<Rightarrow> g # findall pre grp post (Some c, cs))
      | None \<Rightarrow> (case snd p of [] \<Rightarrow> [] | c # cs \<Rightarrow> findall pre grp post (Some c, cs)))"
  by pat_completeness auto
termination
  by (relation "measure (\<lambda>(pre, grp, post, p). length (snd p))") auto

declare findall.simps [simp del]

definition findall_in :: "rx \<Rightarrow> rx \<Rightarrow> rx \<Rightarrow> string \<Rightarrow> string list" where
  "findall_in pre grp post s = findall pre grp post (None, s)"

section \<open>What the matcher accepts\<close>

text \<open>The declarative reading: \<open>rx_match r p q\<close> when \<open>r\<close> matches the text from \<open>p\<close> to \<open>q\<close>.\<close>

inductive rx_match :: "rx \<Rightarrow> rx_pos \<Rightarrow> rx_pos \<Rightarrow> bool" where
  "rx_match Eps p p"
| "P c \<Longrightarrow> rx_match (Cls P) (b, c # cs) (Some c, cs)"
| "rx_match r p q \<Longrightarrow> rx_match s q e \<Longrightarrow> rx_match (Cat r s) p e"
| "rx_match r p e \<Longrightarrow> rx_match (Alt r s) p e"
| "rx_match s p e \<Longrightarrow> rx_match (Alt r s) p e"
| "rx_match (Many r) p p"
| "rx_match r p q \<Longrightarrow> length (snd q) < length (snd p) \<Longrightarrow> rx_match (Many r) q e \<Longrightarrow> rx_match (Many r) p e"
| "rx_match Line_Start (None, s) (None, s)"
| "s = [] \<or> s = nl \<Longrightarrow> rx_match Line_End (b, s) (b, s)"
| "word_before b \<noteq> word_at s \<Longrightarrow> rx_match Word_Edge (b, s) (b, s)"

inductive_cases rx_match_elims:
  "rx_match Eps p e" "rx_match (Cls P) p e" "rx_match (Cat r s) p e" "rx_match (Alt r s) p e"
  "rx_match Line_Start p e" "rx_match Line_End p e" "rx_match Word_Edge p e"

lemma rx_ends_complete: "rx_match r p e \<Longrightarrow> e \<in> set (rx_ends r p)"
proof (induction rule: rx_match.induct)
  case (6 r p)
  then show ?case by (subst rx_ends.simps(5)) simp
next
  case (7 r p q e)
  then have "q \<in> set (filter (\<lambda>e. length (snd e) < length (snd p)) (rx_ends r p))" by simp
  with 7 show ?case by (subst rx_ends.simps(5)) (simp only: set_append set_concat set_map Un_iff UN_iff image_iff, blast)
qed auto

lemma rx_ends_sound: "e \<in> set (rx_ends r p) \<Longrightarrow> rx_match r p e"
proof (induction r p arbitrary: e rule: rx_ends.induct)
  case (3 r q p)
  then obtain m where "m \<in> set (rx_ends r p)" "e \<in> set (rx_ends q m)" by (auto simp only: rx_ends.simps set_concat set_map)
  with 3 show ?case by (blast intro: rx_match.intros)
next
  case (2 P p)
  then show ?case by (cases p) (auto split: list.splits if_splits intro: rx_match.intros)
next
  case (5 r p)
  from "5.prems" consider "e = p"
    | q where "q \<in> set (rx_ends r p)" "length (snd q) < length (snd p)" "e \<in> set (rx_ends (Many r) q)"
    by (subst (asm) rx_ends.simps(5)) auto
  then show ?case
  proof cases
    case 2
    with 5 have "rx_match r p q" "rx_match (Many r) q e" by simp_all
    with 2 show ?thesis by (blast intro: rx_match.intros)
  qed (simp add: rx_match.intros)
next
  case (6 p)
  then show ?case by (cases p) (auto split: if_splits intro: rx_match.intros)
next
  case (7 p)
  then show ?case by (cases p) (auto split: if_splits intro: rx_match.intros)
next
  case (8 p)
  then show ?case by (cases p) (auto split: if_splits intro: rx_match.intros)
qed (auto intro: rx_match.intros)

lemma rx_ends_iff: "e \<in> set (rx_ends r p) \<longleftrightarrow> rx_match r p e"
  using rx_ends_complete rx_ends_sound by blast

lemma rx_match_suffix: "rx_match r p e \<Longrightarrow> suffix (snd e) (snd p)"
  by (induction rule: rx_match.induct) (auto simp: suffix_ConsI intro: suffix_order.trans)

lemma rx_search_iff: "rx_search r s \<longleftrightarrow> (\<exists>p \<in> set (positions None s). \<exists>e. rx_match r p e)"
  by (simp only: rx_search_def list_ex_iff rx_ends_iff [symmetric] ex_in_conv set_empty)

end
