(* ===== verification/Osrc_Inventory.thy ===== *)
theory Osrc_Inventory
  imports Py_Regex Py_Bytes
begin

text \<open>
  \<open>tools/osrc_tree_compare.py\<close>, first part: the inventory of a source tree and the comparison
  of two inventories. A tree is an \<open>entry\<close>: what \<open>os.walk\<close>, \<open>lstat\<close> and the reads answer
  while the inventory is made. \<open>None\<close> is an \<open>OSError\<close>; an unreadable directory is one
  without entries, as \<open>os.walk\<close> reports it. SHA-256 is the parameter \<open>sha\<close>.
\<close>

datatype comparison_error =
    Bad_Detail_Limit | Link_Rejected string | Part_Rejected string | No_Such_Input string
  | Not_A_Directory string | Same_Trees | Unreadable string | Changed_While_Read string
  | Empty_Tree string | Not_Dts string | Map_Unreadable | Map_Not_List | Map_Item | Map_Eze4
  | Map_Path string | Map_Inside_Tree | Output_Rejected string | Foreign_Output | Publish_Failed

text \<open>What a run can raise: \<open>ComparisonError\<close>, which \<open>main\<close> reports, or anything else.\<close>

datatype osrc_exc = Comparison_Error comparison_error | Value_Error | Attribute_Error | Key_Error
  | Loop_Error | Outside_Model

type_synonym 'a osrc = "(osrc_exc, 'a) res"

section \<open>Names\<close>

definition part_suffix :: string where "part_suffix = ''.part''"

definition is_partial :: "string \<Rightarrow> bool" where "is_partial name = ends_with name part_suffix"

text \<open>\<open>PurePath.suffix\<close> and \<open>PurePath.stem\<close> of a name.\<close>

definition path_suffix :: "string \<Rightarrow> string" where
  "path_suffix name =
     (let tail = takeWhile (\<lambda>c. c \<noteq> CHR ''.'') (rev name)
      in if tail \<noteq> [] \<and> Suc (length tail) < length name then CHR ''.'' # rev tail else [])"

definition path_stem :: "string \<Rightarrow> string" where
  "path_stem name = take (length name - length (path_suffix name)) name"

definition dts_suffixes :: "string list" where "dts_suffixes = [''.dts'', ''.dtsi'']"

definition dot_tail :: rx where "dot_tail = opt (seqs [lit ''.'', Many dot])"

definition config_name_re :: rx where
  "config_name_re = alts
     [seqs [Line_Start, ilit ''Kconfig'', dot_tail, Line_End],
      seqs [Alt Line_Start (lit ''_''), ilit ''defconfig'', Line_End],
      seqs [Line_Start, ilit ''.config'', dot_tail, Line_End],
      seqs [ilit ''config'', Line_End]]"

definition build_name_re :: rx where
  "build_name_re = alts
     [seqs [Line_Start, ilit ''Makefile'', dot_tail, Line_End],
      seqs [Line_Start, ilit ''Kbuild'', dot_tail, Line_End],
      seqs [Line_Start, ilit ''Android.'', Alt (ilit ''bp'') (ilit ''mk''), Line_End],
      seqs [Line_Start, ilit ''BUILD'', opt (ilit ''.bazel''), Line_End],
      seqs [Line_Start, ilit ''build'', opt (seqs [one_of ''-_.'', Many dot]), ilit ''.sh'', Line_End],
      seqs [Line_Start, ilit ''build.config'', dot_tail, Line_End],
      seqs [Many dot, ilit ''.mk'', Line_End],
      seqs [Many dot, ilit ''.bzl'', Line_End]]"

section \<open>Categories\<close>

datatype category = Dts_Files | Driver_Files | Config_Files | Build_Files

definition category_names :: "category list" where
  "category_names = [Dts_Files, Driver_Files, Config_Files, Build_Files]"

text \<open>Below a directory \<open>drivers\<close> that is not itself below \<open>Documentation\<close>.\<close>

definition below_drivers :: "string list \<Rightarrow> bool" where
  "below_drivers parts =
     (let above = takeWhile (\<lambda>p. py_lower p \<noteq> ''drivers'') parts
      in length above < length parts \<and> \<not> list_ex (\<lambda>p. py_lower p = ''documentation'') above)"

definition classify :: "string list \<Rightarrow> category list" where
  "classify parts =
     (let name = last parts; lowered = map py_lower parts in
      flag (py_lower (path_suffix name) \<in> set dts_suffixes) Dts_Files @
      flag (below_drivers parts) Driver_Files @
      flag (rx_search config_name_re name \<or> ''configs'' \<in> set lowered
            \<or> ends_with (py_lower name) ''.cfg'' \<or> ends_with (py_lower name) ''.config'') Config_Files @
      flag (rx_search build_name_re name \<or> ''build'' \<in> set lowered
            \<or> (''scripts'' \<in> set lowered \<and> ends_with (py_lower name) ''.sh'')) Build_Files)"

section \<open>Walking a tree\<close>

record file_obs =
  lstat_size :: "nat option"
  f_blocks :: "byte list list option"
  size_after :: "nat option"
  f_text :: "string option"

datatype entry =
    Regular file_obs
  | Sym_Link bool
  | Special
  | Directory "(string \<times> entry) list"

text \<open>\<open>os.walk\<close> lists a link to a directory with the directories, and does not follow it.\<close>

fun dir_like :: "entry \<Rightarrow> bool" where
  "dir_like (Directory es) = True"
| "dir_like (Sym_Link to_dir) = to_dir"
| "dir_like e = False"

definition kept_dir :: "string \<Rightarrow> bool" where
  "kept_dir name = (name \<noteq> ''.git'' \<and> \<not> is_partial name)"

fun walk :: "string list \<Rightarrow> entry \<Rightarrow> (string list \<times> entry) list"
  and walk_dirs :: "string list \<Rightarrow> (string \<times> entry) list \<Rightarrow> (string \<times> (string list \<times> entry) list) list"
where
  "walk here (Directory es) =
     map (\<lambda>(n, e). (here @ [n], e)) (sort_key fst (filter (\<lambda>(n, e). \<not> dir_like e) es))
     @ concat (map snd (sort_key fst (walk_dirs here es)))"
| "walk here e = []"
| "walk_dirs here [] = []"
| "walk_dirs here ((n, e) # es) =
     (if dir_like e \<and> kept_dir n then [(n, walk (here @ [n]) e)] else []) @ walk_dirs here es"

record file_record =
  fr_path :: string
  fr_size :: nat
  fr_sha256 :: string

record inventory =
  file_count :: nat
  partial_count :: nat
  symlink_count :: nat
  hash_cache :: "(string \<times> string) list"
  categories :: "category \<Rightarrow> (string \<times> file_record) list"

definition empty_inventory :: inventory where
  "empty_inventory = \<lparr>file_count = 0, partial_count = 0, symlink_count = 0, hash_cache = [],
     categories = (\<lambda>c. [])\<rparr>"

text \<open>The digest, and the size again behind the read.\<close>

definition hash_file :: "(byte list \<Rightarrow> string) \<Rightarrow> string \<Rightarrow> nat \<Rightarrow> file_obs \<Rightarrow> string osrc" where
  "hash_file sha rel before obs =
     (case f_blocks obs of
        None \<Rightarrow> Inl (Comparison_Error (Unreadable rel))
      | Some blocks \<Rightarrow> (case size_after obs of
          None \<Rightarrow> Inl (Comparison_Error (Unreadable rel))
        | Some n \<Rightarrow> guardR (n = before) (Comparison_Error (Changed_While_Read rel)) (Inr (sha (concat blocks)))))"

definition dict_set :: "string \<Rightarrow> 'a \<Rightarrow> (string \<times> 'a) list \<Rightarrow> (string \<times> 'a) list" where
  "dict_set k v kvs =
     (if k \<in> fst ` set kvs then map (\<lambda>(l, w). (l, if l = k then v else w)) kvs else kvs @ [(k, v)])"

definition add_record :: "category list \<Rightarrow> file_record \<Rightarrow> inventory \<Rightarrow> inventory" where
  "add_record cs r st = st\<lparr>categories :=
     (\<lambda>c. if c \<in> set cs then dict_set (fr_path r) r (categories st c) else categories st c)\<rparr>"

definition take_file :: "(byte list \<Rightarrow> string) \<Rightarrow> string list \<times> entry \<Rightarrow> inventory \<Rightarrow> inventory osrc" where
  "take_file sha f st =
     (case f of (parts, e) \<Rightarrow>
        if list_ex is_partial parts then Inr (st\<lparr>partial_count := Suc (partial_count st)\<rparr>)
        else (case e of
          Regular obs \<Rightarrow> (case lstat_size obs of
              None \<Rightarrow> Inl (Comparison_Error (Unreadable (join ''/'' parts)))
            | Some before \<Rightarrow>
                (let counted = st\<lparr>file_count := Suc (file_count st)\<rparr>; cs = classify parts; rel = join ''/'' parts
                 in if cs = [] then Inr counted
                    else bindR (case map_of (hash_cache st) rel of
                             Some h \<Rightarrow> Inr h | None \<Rightarrow> hash_file sha rel before obs) (\<lambda>h.
                      Inr (add_record cs \<lparr>fr_path = rel, fr_size = before, fr_sha256 = h\<rparr>
                        (counted\<lparr>hash_cache := dict_set rel h (hash_cache st)\<rparr>)))))
        | _ \<Rightarrow> Inr (st\<lparr>symlink_count := Suc (symlink_count st)\<rparr>)))"

definition take_inventory :: "(byte list \<Rightarrow> string) \<Rightarrow> entry \<Rightarrow> inventory osrc" where
  "take_inventory sha tree = foldR (take_file sha) (walk [] tree) empty_inventory"

section \<open>Snapshots\<close>

text \<open>\<open>_git_metadata\<close>: the output of the two commands, \<open>None\<close> when one fails.\<close>

datatype git_state = No_Git | Git string "bool option"

definition git_metadata :: "string option \<Rightarrow> string option \<Rightarrow> git_state" where
  "git_metadata head changes =
     (case head of
        None \<Rightarrow> No_Git
      | Some out \<Rightarrow>
          if py_strip out = [] then No_Git
          else Git (py_strip out) (case changes of None \<Rightarrow> None | Some s \<Rightarrow> Some (py_strip s \<noteq> [])))"

record snapshot =
  sn_label :: string
  sn_root :: "string list"
  sn_inventory :: inventory
  sn_git :: git_state

definition collect_snapshot ::
  "(byte list \<Rightarrow> string) \<Rightarrow> entry \<Rightarrow> string option \<Rightarrow> string option \<Rightarrow>
    string list \<Rightarrow> string \<Rightarrow> snapshot osrc" where
  "collect_snapshot sha tree head changes home label =
     bindR (take_inventory sha tree) (\<lambda>st.
     guardR (file_count st \<noteq> 0) (Comparison_Error (Empty_Tree label))
       (Inr \<lparr>sn_label = label, sn_root = home, sn_inventory = st, sn_git = git_metadata head changes\<rparr>))"

section \<open>Comparing a category\<close>

record category_diff =
  u3_count :: nat
  u11_count :: nat
  common_count :: nat
  unchanged_count :: nat
  u3_only :: "string list"
  u11_only :: "string list"
  changed :: "(string \<times> file_record \<times> file_record) list"

definition compare_category :: "(string \<times> file_record) list \<Rightarrow> (string \<times> file_record) list \<Rightarrow> category_diff" where
  "compare_category lft rgt =
     (let common = filter (\<lambda>p. p \<in> fst ` set rgt) (sorted_set (map fst lft));
          chg = map (\<lambda>p. (p, the (map_of lft p), the (map_of rgt p)))
            (filter (\<lambda>p. fr_sha256 (the (map_of lft p)) \<noteq> fr_sha256 (the (map_of rgt p))) common)
      in \<lparr>u3_count = length (sorted_set (map fst lft)), u11_count = length (sorted_set (map fst rgt)),
          common_count = length common, unchanged_count = length common - length chg,
          u3_only = filter (\<lambda>p. p \<notin> fst ` set rgt) (sorted_set (map fst lft)),
          u11_only = filter (\<lambda>p. p \<notin> fst ` set lft) (sorted_set (map fst rgt)),
          changed = chg\<rparr>)"

end
