(* ===== verification/Osrc_Dts.thy ===== *)
theory Osrc_Dts
  imports Osrc_Inventory Posix_Path Dts_Compare
begin

text \<open>
  \<open>tools/osrc_tree_compare.py\<close>, second part: reading board facts from device tree sources,
  finding the EZE4 inputs, and the heuristic that relates them to the sources of the two
  trees. The semantic comparison of a pair is the one of \<open>Dts_Compare\<close>. A \<open>host\<close> is what the
  machine answers: the nodes of its file system, the listing below a resolved path, and
  the fuel that following links may take, and the room the stack has for nested nodes.
\<close>

record host =
  h_fs :: fs
  h_list :: "path \<Rightarrow> entry"
  h_fuel :: nat
  h_room :: nat

definition text_at :: "host \<Rightarrow> path \<Rightarrow> string option" where
  "text_at h p = (case h_list h p of Regular obs \<Rightarrow> f_text obs | _ \<Rightarrow> None)"

section \<open>Facts of a source file\<close>

definition compatible_head :: rx where
  "compatible_head = seqs [Word_Edge, lit ''compatible'', Many blank, lit ''='', Many blank]"

definition compatible_list :: rx where
  "compatible_list = some1 (seqs
     [lit [quotation], Many (Alt (seqs [lit [backslash], any]) (not_in [quotation])), lit [quotation],
      Many blank, opt (lit '',''), Many blank])"

definition quoted_body :: rx where
  "quoted_body = Many (Alt (seqs [lit [backslash], dot]) (not_in [quotation, backslash]))"

definition hw_rev_head :: rx where
  "hw_rev_head = seqs
     [Word_Edge, lit ''dtbo-hw_rev'', opt (lit ''_end''), Many blank, lit ''='', Many blank, lit ''<'', Many blank]"

definition hw_rev_value :: rx where
  "hw_rev_value = Alt (seqs [lit ''0x'', some1 (Cls is_hex)]) (some1 (Cls is_digit_char))"

text \<open>\<open>int(value, 0)\<close> on a match: a decimal number with a leading zero is refused.\<close>

definition int_base0 :: "string \<Rightarrow> int osrc" where
  "int_base0 s =
     (if prefix ''0x'' s then Inr (int (hex_value (drop 2 s)))
      else if 4300 < length s \<or> (hd s = CHR ''0'' \<and> list_ex (\<lambda>c. c \<noteq> CHR ''0'') s) then Inl Value_Error
      else Inr (int (dec_value s)))"

definition utf8_char :: "char \<Rightarrow> string" where
  "utf8_char c = (let n = of_char c :: nat
     in if n < 128 then [c] else [char_of (192 + n div 64), char_of (128 + n mod 64)])"

definition is_octal :: "char \<Rightarrow> bool" where
  "is_octal c = (let n = of_char c :: nat in 48 \<le> n \<and> n \<le> 55)"

definition octal_value :: "string \<Rightarrow> nat" where
  "octal_value s = foldl (\<lambda>a c. a * 8 + (of_char c - 48)) 0 s"

definition escape_table :: "(char \<times> string) list" where
  "escape_table =
     [(newline, []), (backslash, [backslash]), (CHR 0x27, [CHR 0x27]), (quotation, [quotation]),
      (CHR ''a'', [CHR 0x07]), (CHR ''b'', [CHR 0x08]), (CHR ''t'', [CHR 0x09]), (CHR ''n'', [CHR 0x0A]),
      (CHR ''v'', [CHR 0x0B]), (CHR ''f'', [CHR 0x0C]), (CHR ''r'', [CHR 0x0D])]"

text \<open>The digits of \<open>\\x\<close>, \<open>\\u\<close> and \<open>\\U\<close>.\<close>

definition hex_count :: "char \<Rightarrow> nat option" where
  "hex_count e = map_of [(CHR ''x'', 2), (CHR ''u'', 4), (CHR ''U'', 8)] e"

text \<open>
  The codec \<open>unicode_escape\<close> with \<open>errors="replace"\<close>. \<open>None\<close> stands for a result outside the
  8-bit strings of the model: a larger code point, a named one, or the replacement character.
\<close>

fun unicode_escape :: "string \<Rightarrow> string option" where
  "unicode_escape [] = Some []"
| "unicode_escape [c] = (if c = backslash then None else Some [c])"
| "unicode_escape (c # e # r) =
     (if c \<noteq> backslash then map_option (\<lambda>t. c # t) (unicode_escape (e # r))
      else case map_of escape_table e of
        Some t \<Rightarrow> map_option (\<lambda>u. t @ u) (unicode_escape r)
      | None \<Rightarrow>
          if is_octal e then
            (let ds = takeWhile is_octal (take 2 r); v = octal_value (e # ds)
             in if v < 256 then map_option (\<lambda>u. char_of v # u) (unicode_escape (drop (length ds) r)) else None)
          else (case hex_count e of
            Some k \<Rightarrow>
              if length r < k \<or> \<not> list_all is_hex (take k r) \<or> 256 \<le> hex_value (take k r) then None
              else map_option (\<lambda>u. char_of (hex_value (take k r)) # u) (unicode_escape (drop k r))
          | None \<Rightarrow> if e = CHR ''N'' then None else map_option (\<lambda>u. c # e # u) (unicode_escape r)))"

text \<open>\<open>value.replace("\\0", "\0")\<close>.\<close>

fun replace_zero :: "string \<Rightarrow> string" where
  "replace_zero (c # d # r) =
     (if c = backslash \<and> d = CHR ''0'' then CHR 0x00 # replace_zero r else c # replace_zero (d # r))"
| "replace_zero s = s"

definition pieces_of :: "string \<Rightarrow> string list osrc" where
  "pieces_of raw = (case unicode_escape (concat (map utf8_char raw)) of
      None \<Rightarrow> Inl Outside_Model
    | Some v \<Rightarrow> Inr (filter (\<lambda>s. s \<noteq> []) (map py_strip (split_char (CHR 0x00) (replace_zero v)))))"

record dts_facts =
  compatibles :: "string list"
  hw_revision :: "(int \<times> int) option"

definition read_dts :: "string \<Rightarrow> string option \<Rightarrow> dts_facts osrc" where
  "read_dts name text =
     (case text of
        None \<Rightarrow> Inl (Comparison_Error (Unreadable name))
      | Some t \<Rightarrow>
          bindR (mapR pieces_of (concat (map (findall_in (lit [quotation]) quoted_body (lit [quotation]))
             (findall_in compatible_head compatible_list (lit '';'') t)))) (\<lambda>pss.
          bindR (mapR int_base0 (findall_in hw_rev_head hw_rev_value Eps t)) (\<lambda>revs.
          Inr \<lparr>compatibles = sorted_set (concat pss),
               hw_revision = (if revs = [] then None else Some (Min (set revs), Max (set revs)))\<rparr>)))"

section \<open>The EZE4 inputs\<close>

definition canonical :: "host \<Rightarrow> path \<Rightarrow> path osrc" where
  "canonical h p = (case resolve (h_fuel h) (h_fs h) [] p of None \<Rightarrow> Inl Loop_Error | Some q \<Rightarrow> Inr q)"

definition name_of :: "path \<Rightarrow> string" where "name_of p = (if p = [] then [] else last p)"

definition fail :: "comparison_error \<Rightarrow> 'a osrc" where "fail e = Inl (Comparison_Error e)"

text \<open>\<open>is_symlink\<close> on the path as it was given.\<close>

definition is_link :: "host \<Rightarrow> path \<Rightarrow> bool" where
  "is_link h p =
     (p \<noteq> [] \<and> last p \<noteq> ''..'' \<and>
      (case canonical h (butlast p) of
         Inr q \<Rightarrow> (case h_fs h (q @ [last p]) of Some (NLink t) \<Rightarrow> True | _ \<Rightarrow> False)
       | Inl e \<Rightarrow> False))"

definition is_file :: "fs \<Rightarrow> path \<Rightarrow> bool" where
  "is_file f p = (case f p of Some (NFile bs m) \<Rightarrow> True | _ \<Rightarrow> False)"

definition reject_link :: "host \<Rightarrow> path \<Rightarrow> string \<Rightarrow> 'a osrc \<Rightarrow> 'a osrc" where
  "reject_link h p label k = guardR (\<not> is_link h p) (Comparison_Error (Link_Rejected label)) k"

definition check_eze4_path :: "host \<Rightarrow> path \<Rightarrow> path osrc" where
  "check_eze4_path h p =
     reject_link h p ''Entrada EZE4''
       (bindR (canonical h p) (\<lambda>q.
        guardR (\<not> is_partial (name_of q)) (Comparison_Error (Part_Rejected ''EZE4''))
       (guardR (lexists (h_fs h) q) (Comparison_Error (No_Such_Input ''EZE4''))
       (guardR (is_dir (h_fs h) q \<or> is_file (h_fs h) q) (Comparison_Error (Not_A_Directory ''EZE4'')) (Inr q)))))"

record eze4_input =
  ez_path :: path
  ez_display :: string
  ez_kind :: string
  ez_facts :: dts_facts

definition posix :: "path \<Rightarrow> string" where "posix p = join ''/'' p"

definition suffix_of :: "path \<Rightarrow> string" where "suffix_of p = py_lower (path_suffix (name_of p))"

text \<open>What is read below one input, and the directory its names are shown relative to.\<close>

definition eze4_candidates :: "host \<Rightarrow> path \<Rightarrow> path list \<times> path" where
  "eze4_candidates h p =
     (case h_list h p of
        Directory es \<Rightarrow>
          (filter (\<lambda>q. \<not> is_partial (name_of q) \<and> suffix_of q \<in> set (''.dtb'' # dts_suffixes))
             (map (\<lambda>(rel, e). p @ rel) (walk [] (Directory es))), p)
      | _ \<Rightarrow> ([p], butlast p))"

record discovery =
  d_found :: "(path \<times> eze4_input) list"
  d_unsupported :: "path list"

definition set_found :: "path \<Rightarrow> eze4_input \<Rightarrow> (path \<times> eze4_input) list \<Rightarrow> (path \<times> eze4_input) list" where
  "set_found p x kvs = (if p \<in> fst ` set kvs then map (\<lambda>(q, y). (q, if q = p then x else y)) kvs else kvs @ [(p, x)])"

definition display_name :: "path \<Rightarrow> path \<Rightarrow> string" where
  "display_name base p = (if prefix base p then posix (drop (length base) p) else name_of p)"

definition discover_one :: "host \<Rightarrow> path \<Rightarrow> path \<Rightarrow> discovery \<Rightarrow> discovery osrc" where
  "discover_one h base candidate d =
     bindR (canonical h candidate) (\<lambda>p.
     if is_partial (name_of p) then Inr d
     else if suffix_of p = ''.dtb'' then Inr (d\<lparr>d_unsupported := d_unsupported d @ [p]\<rparr>)
     else guardR (suffix_of p \<in> set dts_suffixes) (Comparison_Error (Not_Dts (posix p)))
       (case h_list h p of
          Regular obs \<Rightarrow>
            bindR (read_dts (posix p) (f_text obs)) (\<lambda>facts.
            Inr (d\<lparr>d_found := set_found p \<lparr>ez_path = p, ez_display = display_name base p,
                     ez_kind = tl (suffix_of p), ez_facts = facts\<rparr> (d_found d)\<rparr>))
        | _ \<Rightarrow> Inl (Comparison_Error (Not_Dts (posix p)))))"

definition discover_input :: "host \<Rightarrow> path \<Rightarrow> discovery \<Rightarrow> discovery osrc" where
  "discover_input h p d =
     bindR (check_eze4_path h p) (\<lambda>q.
     case eze4_candidates h q of (cs, base) \<Rightarrow> foldR (discover_one h base) (sort cs) d)"

definition discover_eze4 :: "host \<Rightarrow> path list \<Rightarrow> (eze4_input list \<times> path list) osrc" where
  "discover_eze4 h inputs =
     bindR (foldR (discover_input h) inputs \<lparr>d_found = [], d_unsupported = []\<rparr>) (\<lambda>d.
     Inr (map snd (sort_key fst (d_found d)), sort_key posix (d_unsupported d)))"

section \<open>Candidates for an input\<close>

definition source_candidate :: "host \<Rightarrow> path \<Rightarrow> string \<Rightarrow> (string \<times> dts_facts) list osrc" where
  "source_candidate h tree rel =
     (if py_lower (path_suffix (name_of (split_char CHR ''/'' rel))) \<noteq> ''.dts'' then Inr []
      else case read_dts rel (text_at h (tree @ split_char CHR ''/'' rel)) of
             Inr facts \<Rightarrow> Inr [(rel, facts)]
           | Inl (Comparison_Error e) \<Rightarrow> Inr []
           | Inl e \<Rightarrow> Inl e)"

definition source_dts :: "host \<Rightarrow> snapshot \<Rightarrow> (string \<times> dts_facts) list osrc" where
  "source_dts h sn =
     bindR (mapR (source_candidate h (sn_root sn)) (sort (map fst (categories (sn_inventory sn) Dts_Files))))
       (\<lambda>xs. Inr (concat xs))"

definition generic_tokens :: "string list" where
  "generic_tokens = [''dts'', ''dtb'', ''overlay'', ''offset'', ''vendor'', ''boot'', ''recovery'', ''fdt'',
     ''id'', ''rev'', ''open'', ''eur'', ''samsung'']"

definition token_char :: "char \<Rightarrow> bool" where
  "token_char c = (let n = of_char c :: nat in (97 \<le> n \<and> n \<le> 122) \<or> (48 \<le> n \<and> n \<le> 57))"

definition path_tokens :: "string \<Rightarrow> string list" where
  "path_tokens v = sorted_set (filter (\<lambda>t. 3 \<le> length t \<and> t \<notin> set generic_tokens)
     (findall_in Eps (some1 (Cls token_char)) Eps (py_lower v)))"

definition revisions_overlap :: "(int \<times> int) option \<Rightarrow> (int \<times> int) option \<Rightarrow> bool" where
  "revisions_overlap a b =
     (case (a, b) of (Some (s, e), Some (t, f)) \<Rightarrow> max s t \<le> min e f | _ \<Rightarrow> False)"

definition candidate_score :: "dts_facts \<Rightarrow> string list \<Rightarrow> string \<Rightarrow> dts_facts \<Rightarrow> nat \<times> string list" where
  "candidate_score eze4 tokens rel facts =
     (let common = in_both (compatibles eze4) (compatibles facts);
          hw = revisions_overlap (hw_revision eze4) (hw_revision facts);
          (s, e) = (case hw_revision facts of Some r \<Rightarrow> r | None \<Rightarrow> (0, 0));
          overlap = in_both tokens (path_tokens rel);
          stem = py_lower (path_stem (name_of (split_char CHR ''/'' rel)));
          same = (stem \<noteq> [] \<and> stem \<in> set tokens)
      in (length common * 100 + (if hw then 60 else 0) + length overlap * 20 + (if same then 80 else 0),
          flag (common \<noteq> []) (''compatible='' @ join '','' common) @
          flag hw (''hw-rev='' @ fmt_int s @ ''..'' @ fmt_int e) @
          flag (overlap \<noteq> []) (''path='' @ join '','' overlap) @
          flag same ''stem''))"

record dts_match =
  m_path :: "string option"
  m_confidence :: string
  m_reason :: string
  m_candidates :: "(string \<times> nat \<times> string) list"

definition eze4_tokens :: "eze4_input \<Rightarrow> string list" where
  "eze4_tokens ez = path_tokens (ez_display ez @ '' '' @ join '' '' (compatibles (ez_facts ez)))"

definition scored_candidates :: "eze4_input \<Rightarrow> (string \<times> dts_facts) list \<Rightarrow> (nat \<times> string \<times> string list) list" where
  "scored_candidates ez cs =
     sort_key (\<lambda>(score, rel, rs). (- int score, rel))
       (filter (\<lambda>(score, rel, rs). score \<noteq> 0)
         (map (\<lambda>(rel, facts). case candidate_score (ez_facts ez) (eze4_tokens ez) rel facts of
            (score, rs) \<Rightarrow> (score, rel, rs)) cs))"

definition pick_dts_candidate :: "eze4_input \<Rightarrow> (string \<times> dts_facts) list \<Rightarrow> dts_match" where
  "pick_dts_candidate ez cs =
     (case scored_candidates ez cs of
        [] \<Rightarrow> \<lparr>m_path = None, m_confidence = ''none'',
               m_reason = ''no hay compatible com'' @ [CHR 0xFA] @ ''n; se requiere mapeo manual'', m_candidates = []\<rparr>
      | (best, rel, rs) # rest \<Rightarrow>
          (let best_ones = filter (\<lambda>x. fst x = best) ((best, rel, rs) # rest)
           in \<lparr>m_path = (if length best_ones = 1 then Some rel else None),
               m_confidence = (if length best_ones = 1 then ''high'' else ''ambiguous''),
               m_reason = (if rs \<noteq> [] then join ''; '' rs else ''heur'' @ [CHR 0xED] @ ''stica''),
               m_candidates = map (\<lambda>(score, p, reasons). (p, score, join ''; '' reasons))
                 (take 5 ((best, rel, rs) # rest))\<rparr>))"

section \<open>The matrix\<close>

datatype semantic = Unmapped | Sem_Unreadable | Sem_Failed dts_error | Sem_Status string bool nat nat nat

definition parse_file :: "host \<Rightarrow> path \<Rightarrow> (semantic, dts_tree) res" where
  "parse_file h p = (case text_at h p of
      None \<Rightarrow> Inl Sem_Unreadable
    | Some t \<Rightarrow> (case parse_dts (h_room h) (''/'' @ posix p) t of
          Some (Inr tree) \<Rightarrow> Inr tree | Some (Inl e) \<Rightarrow> Inl (Sem_Failed e) | None \<Rightarrow> Inl Sem_Unreadable))"

definition semantic_summary :: "host \<Rightarrow> path option \<Rightarrow> path option \<Rightarrow> semantic" where
  "semantic_summary h lft rgt =
     (case (lft, rgt) of
        (Some l, Some r) \<Rightarrow>
          (case bindR (parse_file h l) (\<lambda>a. bindR (parse_file h r) (\<lambda>b.
             let c = compare_trees a b
             in Inr (Sem_Status (status a b c) (equivalent a b c) (length (cm_differences c))
                  (length (cm_unresolved c)) (length (cm_renumbered c))))) of Inl x \<Rightarrow> x | Inr x \<Rightarrow> x)
      | _ \<Rightarrow> Unmapped)"

record dts_row =
  r_eze4 :: eze4_input
  r_u3 :: dts_match
  r_u11 :: dts_match
  r_u3_u11 :: semantic
  r_u3_eze4 :: semantic
  r_u11_eze4 :: semantic

definition in_tree :: "snapshot \<Rightarrow> string option \<Rightarrow> path option" where
  "in_tree sn rel = map_option (\<lambda>r. sn_root sn @ split_char CHR ''/'' r) rel"

definition dts_row_of ::
  "host \<Rightarrow> snapshot \<Rightarrow> snapshot \<Rightarrow> (string \<times> dts_facts) list \<Rightarrow> (string \<times> dts_facts) list \<Rightarrow> eze4_input \<Rightarrow> dts_row" where
  "dts_row_of h u3 u11 c3 c11 ez =
     (let m3 = pick_dts_candidate ez c3;
          m11 = (case m_path m3 of
              Some p \<Rightarrow> if p \<in> fst ` set c11
                then \<lparr>m_path = Some p, m_confidence = ''path'', m_reason = ''misma ruta relativa que U3'', m_candidates = []\<rparr>
                else pick_dts_candidate ez c11
            | None \<Rightarrow> pick_dts_candidate ez c11);
          f3 = in_tree u3 (m_path m3); f11 = in_tree u11 (m_path m11)
      in \<lparr>r_eze4 = ez, r_u3 = m3, r_u11 = m11, r_u3_u11 = semantic_summary h f3 f11,
          r_u3_eze4 = semantic_summary h f3 (Some (ez_path ez)),
          r_u11_eze4 = semantic_summary h f11 (Some (ez_path ez))\<rparr>)"

definition build_dts_matrix :: "host \<Rightarrow> snapshot \<Rightarrow> snapshot \<Rightarrow> eze4_input list \<Rightarrow> dts_row list osrc" where
  "build_dts_matrix h u3 u11 ezs =
     bindR (source_dts h u3) (\<lambda>c3. bindR (source_dts h u11) (\<lambda>c11. Inr (map (dts_row_of h u3 u11 c3 c11) ezs)))"

end
