(* ===== verification/Osrc_Report.thy ===== *)
theory Osrc_Report
  imports Osrc_Dts
begin

text \<open>
  \<open>tools/osrc_tree_compare.py\<close>, third part: the checks on paths, the mapping file, the report
  and its publication. A \<open>publish_env\<close> tells which of the system calls of a publication
  fail; \<open>rendered\<close> is the text of the two files of a report.
\<close>

section \<open>Checks on paths\<close>

definition check_tree :: "host \<Rightarrow> path \<Rightarrow> string \<Rightarrow> path osrc" where
  "check_tree h p label =
     reject_link h p label
       (bindR (canonical h p) (\<lambda>q.
        guardR (\<not> is_partial (name_of q)) (Comparison_Error (Part_Rejected label))
       (guardR (lexists (h_fs h) q) (Comparison_Error (No_Such_Input label))
       (guardR (is_dir (h_fs h) q) (Comparison_Error (Not_A_Directory label)) (Inr q)))))"

definition validate_output :: "host \<Rightarrow> path \<Rightarrow> path list \<Rightarrow> path list \<Rightarrow> path osrc" where
  "validate_output h out roots eze4 =
     reject_link h out ''Salida''
       (bindR (canonical h out) (\<lambda>q.
        guardR (\<not> is_partial (name_of q)) (Comparison_Error (Output_Rejected ''part''))
       (guardR (q \<noteq> []) (Comparison_Error (Output_Rejected ''root''))
       (guardR (\<not> list_ex (\<lambda>r. prefix r q) roots) (Comparison_Error (Output_Rejected ''tree''))
       (bindR (mapR (canonical h) eze4) (\<lambda>es.
        guardR (\<not> list_ex (\<lambda>r. prefix r q) es) (Comparison_Error (Output_Rejected ''eze4''))
       (guardR (lexists (h_fs h) q \<longrightarrow> is_dir (h_fs h) q) (Comparison_Error (Output_Rejected ''file''))
          (Inr q))))))))"

section \<open>The mapping file\<close>

text \<open>What reading and parsing a JSON file gives: \<open>OSError\<close> or \<open>JSONDecodeError\<close>, another
  exception (bytes that are not UTF-8), or a value.\<close>

datatype json_read = Json_Error | Json_Raises | Json pyval

text \<open>\<open>root / relative\<close>, as components.\<close>

definition path_join :: "path \<Rightarrow> string \<Rightarrow> path" where
  "path_join base rel =
     (let cs = filter (\<lambda>c. c \<noteq> [] \<and> c \<noteq> ''.'') (split_char CHR ''/'' rel)
      in if prefix ''/'' rel then cs else base @ cs)"

definition validate_map_path :: "host \<Rightarrow> path \<Rightarrow> pyval option \<Rightarrow> string \<Rightarrow> path osrc" where
  "validate_map_path h tree rel label =
     (case rel of
        Some (PStr s) \<Rightarrow>
          guardR (s \<noteq> []) (Comparison_Error (Map_Path label))
            (reject_link h (path_join tree s) label
              (bindR (canonical h (path_join tree s)) (\<lambda>q.
               guardR (prefix tree q \<and> is_file (h_fs h) q) (Comparison_Error (Map_Path label))
              (guardR (suffix_of q \<in> set dts_suffixes) (Comparison_Error (Map_Path label)) (Inr q)))))
      | _ \<Rightarrow> fail (Map_Path label))"

text \<open>\<open>by_eze4\<close>: a later input replaces an earlier one under the same name.\<close>

definition eze4_names :: "eze4_input list \<Rightarrow> (string \<times> eze4_input) list" where
  "eze4_names ezs = fold (\<lambda>ez kvs. dict_set (name_of (ez_path ez)) ez (dict_set (ez_display ez) ez kvs)) ezs []"

definition explicit_match :: "string \<Rightarrow> string \<Rightarrow> dts_match" where
  "explicit_match map_name rel =
     \<lparr>m_path = Some rel, m_confidence = ''explicit'', m_reason = ''mapeo '' @ map_name, m_candidates = []\<rparr>"

text \<open>The index of the last row with a display name: \<open>row_by_display\<close> maps to that row.\<close>

definition row_index :: "dts_row list \<Rightarrow> string \<Rightarrow> nat option" where
  "row_index rows d =
     map_of (rev (zip (map (\<lambda>r. ez_display (r_eze4 r)) rows) [0..<length rows])) d"

definition map_row :: "host \<Rightarrow> string \<Rightarrow> snapshot \<Rightarrow> snapshot \<Rightarrow> eze4_input \<Rightarrow> path \<Rightarrow> path \<Rightarrow> dts_row \<Rightarrow> dts_row" where
  "map_row h map_name u3 u11 ez f3 f11 row = row\<lparr>
     r_u3 := explicit_match map_name (posix (drop (length (sn_root u3)) f3)),
     r_u11 := explicit_match map_name (posix (drop (length (sn_root u11)) f11)),
     r_u3_u11 := semantic_summary h (Some f3) (Some f11),
     r_u3_eze4 := semantic_summary h (Some f3) (Some (ez_path ez)),
     r_u11_eze4 := semantic_summary h (Some f11) (Some (ez_path ez))\<rparr>"

definition apply_mapping ::
  "host \<Rightarrow> string \<Rightarrow> snapshot \<Rightarrow> snapshot \<Rightarrow> (string \<times> eze4_input) list \<Rightarrow> pyval \<Rightarrow> dts_row list \<Rightarrow> dts_row list osrc" where
  "apply_mapping h map_name u3 u11 names item rows =
     (case item of
        PDict kvs \<Rightarrow>
          (case map_of kvs ''eze4'' of
             Some (PStr key) \<Rightarrow> (case map_of names key of
                 None \<Rightarrow> fail Map_Eze4
               | Some ez \<Rightarrow>
                   bindR (validate_map_path h (sn_root u3) (map_of kvs ''u3'') ''U3'') (\<lambda>f3.
                   bindR (validate_map_path h (sn_root u11) (map_of kvs ''u11'') ''U11'') (\<lambda>f11.
                   case row_index rows (ez_display ez) of
                     None \<Rightarrow> Inl Key_Error
                   | Some i \<Rightarrow> Inr (rows[i := map_row h map_name u3 u11 ez f3 f11 (rows ! i)]))))
           | _ \<Rightarrow> fail Map_Eze4)
      | _ \<Rightarrow> fail Map_Item)"

definition apply_dts_map ::
  "host \<Rightarrow> json_read \<Rightarrow> string \<Rightarrow> snapshot \<Rightarrow> snapshot \<Rightarrow> eze4_input list \<Rightarrow> dts_row list \<Rightarrow> dts_row list osrc" where
  "apply_dts_map h raw map_name u3 u11 ezs matrix =
     (case raw of
        Json_Error \<Rightarrow> fail Map_Unreadable
      | Json_Raises \<Rightarrow> Inl Value_Error
      | Json v \<Rightarrow>
          (case (case v of PDict kvs \<Rightarrow> map_of kvs ''mappings'' | _ \<Rightarrow> Some v) of
             Some (PList ms) \<Rightarrow> foldR (apply_mapping h map_name u3 u11 (eze4_names ezs)) ms matrix
           | _ \<Rightarrow> fail Map_Not_List))"

section \<open>The report\<close>

record report =
  rp_u3 :: snapshot
  rp_u11 :: snapshot
  rp_categories :: "(category \<times> category_diff) list"
  rp_eze4 :: "eze4_input list"
  rp_unsupported :: "path list"
  rp_matrix :: "dts_row list"

definition build_report ::
  "host \<Rightarrow> snapshot \<Rightarrow> snapshot \<Rightarrow> eze4_input list \<Rightarrow> path list \<Rightarrow> (string \<times> json_read) option \<Rightarrow> report osrc" where
  "build_report h u3 u11 ezs unsupported dts_map =
     bindR (build_dts_matrix h u3 u11 ezs) (\<lambda>m.
     bindR (case dts_map of None \<Rightarrow> Inr m | Some (name, raw) \<Rightarrow> apply_dts_map h raw name u3 u11 ezs m) (\<lambda>m2.
     Inr \<lparr>rp_u3 = u3, rp_u11 = u11,
          rp_categories = map (\<lambda>c. (c, compare_category (categories (sn_inventory u3) c)
            (categories (sn_inventory u11) c))) category_names,
          rp_eze4 = ezs, rp_unsupported = unsupported, rp_matrix = m2\<rparr>))"

section \<open>Publication\<close>

record rendered =
  json_bytes :: "byte list"
  md_bytes :: "byte list"

record publish_env =
  stage_name :: string
  backup_name :: string
  stage_made :: bool
  json_written :: "osrc_exc option"
  md_written :: "osrc_exc option"
  moved_out :: bool
  moved_in :: bool
  moved_back :: bool
  backup_removed :: "(path \<Rightarrow> bool) option"
  stage_left :: "path \<Rightarrow> bool"
  link_fuel :: nat
  umask_dir :: nat
  umask_file :: nat

text \<open>\<open>_existing_output_is_ours\<close>; \<open>get\<close> on a value that is not a dict raises.\<close>

definition output_is_ours :: "nat \<Rightarrow> fs \<Rightarrow> json_read \<Rightarrow> path \<Rightarrow> bool osrc" where
  "output_is_ours n f marker out =
     (if (case resolve n f [] (out @ [''comparison.json'']) of None \<Rightarrow> True | Some p \<Rightarrow> \<not> is_file f p)
      then Inr False
      else case marker of
        Json_Error \<Rightarrow> Inr False
      | Json_Raises \<Rightarrow> Inl Value_Error
      | Json (PDict kvs) \<Rightarrow> Inr (map_of kvs ''tool'' = Some (PStr ''osrc-tree-compare'') \<and>
          (case map_of kvs ''schema_version'' of None \<Rightarrow> False | Some v \<Rightarrow> py_eq v (PInt 1)))
      | Json v \<Rightarrow> Inl Attribute_Error)"

type_synonym 'a pact = "(fs, osrc_exc, 'a) act"

text \<open>A system call that does what \<open>g\<close> does, or fails with no effect.\<close>

definition sysS :: "bool \<Rightarrow> (fs \<Rightarrow> fs) \<Rightarrow> unit pact" where
  "sysS ok g = (\<lambda>f. if ok then (g f, Inr ()) else (f, Inl (Comparison_Error Publish_Failed)))"

definition put_file :: "path \<Rightarrow> byte list \<Rightarrow> nat \<Rightarrow> fs \<Rightarrow> fs" where
  "put_file p bs m f = f(p \<mapsto> NFile bs m)"

text \<open>\<open>_write_text\<close> with the exception it ends with: an \<open>OSError\<close> arrives as \<open>ComparisonError\<close>, one
  of the encoder as \<open>ValueError\<close>.\<close>

definition writeS :: "osrc_exc option \<Rightarrow> (fs \<Rightarrow> fs) \<Rightarrow> unit pact" where
  "writeS failure g = (\<lambda>f. case failure of None \<Rightarrow> (g f, Inr ()) | Some e \<Rightarrow> (f, Inl e))"

text \<open>The two files of the stage; a file that could not be written stays empty.\<close>

definition fill_stage :: "publish_env \<Rightarrow> rendered \<Rightarrow> path \<Rightarrow> unit pact" where
  "fill_stage env r stg =
     bindS (sysS True (put_file (stg @ [''comparison.json'']) [] (umask_file env))) (\<lambda>u.
     bindS (writeS (json_written env) (put_file (stg @ [''comparison.json'']) (json_bytes r) (umask_file env))) (\<lambda>u.
     bindS (sysS True (put_file (stg @ [''comparison.md'']) [] (umask_file env))) (\<lambda>u.
     writeS (md_written env) (put_file (stg @ [''comparison.md'']) (md_bytes r) (umask_file env)))))"

text \<open>\<open>shutil.rmtree(backup)\<close>: all of it, or what the predicate tells of it before an error.\<close>

definition drop_backup :: "publish_env \<Rightarrow> path \<Rightarrow> unit pact" where
  "drop_backup env bak = (\<lambda>f. case backup_removed env of
      None \<Rightarrow> (rm_tree bak f, Inr ())
    | Some gone \<Rightarrow> ((\<lambda>p. if prefix bak p \<and> gone p then None else f p), Inl (Comparison_Error Publish_Failed)))"

definition swap_in :: "publish_env \<Rightarrow> path \<Rightarrow> path \<Rightarrow> path \<Rightarrow> unit pact" where
  "swap_in env stg bak out = (\<lambda>f.
     if lexists f out then
       (case sysS (moved_out env) (move_tree out bak) f of
          (g, Inl e) \<Rightarrow> (g, Inl e)
        | (g, Inr u) \<Rightarrow>
            if moved_in env then drop_backup env bak (move_tree stg out g)
            else if moved_back env then (move_tree bak out g, Inl (Comparison_Error Publish_Failed))
            else (g, Inl (Comparison_Error Publish_Failed)))
     else sysS (moved_in env) (move_tree stg out) f)"

text \<open>\<open>publish_report\<close>; the stage is removed, as far as it can be, on every way out that did not
  move it.\<close>

definition publish_report :: "publish_env \<Rightarrow> json_read \<Rightarrow> rendered \<Rightarrow> path \<Rightarrow> unit pact" where
  "publish_report env marker r out = (\<lambda>f.
     let parent = butlast out; stg = parent @ [stage_name env]; bak = parent @ [backup_name env]
     in case make_dirs [] parent (umask_dir env) (umask_dir env) f of
          (g, False) \<Rightarrow> (g, Inl (Comparison_Error Publish_Failed))
        | (g, True) \<Rightarrow>
            (case (if lexists g out then output_is_ours (link_fuel env) g marker out else Inr True) of
               Inl e \<Rightarrow> (g, Inl e)
             | Inr False \<Rightarrow> (g, Inl (Comparison_Error Foreign_Output))
             | Inr True \<Rightarrow>
                 if \<not> stage_made env then (g, Inl (Comparison_Error Publish_Failed))
                 else (case bindS (fill_stage env r stg) (\<lambda>u. swap_in env stg bak out) (g(stg \<mapsto> NDir 0x1C0)) of
                         (k, Inr u) \<Rightarrow> (k, Inr u)
                       | (k, Inl e) \<Rightarrow> (rm_tree_ignoring (stage_left env) stg k, Inl e))))"

section \<open>The run\<close>

record arguments =
  a_u3 :: path
  a_u11 :: path
  a_eze4 :: "path list"
  a_map :: "path option"
  a_output :: path
  a_limit :: int

record answers =
  git_u3 :: "string option \<times> string option"
  git_u11 :: "string option \<times> string option"
  map_json :: json_read
  marker_json :: json_read
  sha_of :: "byte list \<Rightarrow> string"
  render :: "int \<Rightarrow> report \<Rightarrow> rendered"

definition check_map :: "host \<Rightarrow> path \<Rightarrow> path \<Rightarrow> path option \<Rightarrow> path option osrc" where
  "check_map h u3 u11 m =
     (case m of
        None \<Rightarrow> Inr None
      | Some p \<Rightarrow>
          reject_link h p ''--dts-map''
            (bindR (canonical h p) (\<lambda>q.
             guardR (is_file (h_fs h) q) (Comparison_Error Map_Unreadable)
            (guardR (\<not> prefix u3 q \<and> \<not> prefix u11 q) (Comparison_Error Map_Inside_Tree) (Inr (Some q))))))"

text \<open>Everything before the publication: the output path and the report.\<close>

definition prepare :: "host \<Rightarrow> answers \<Rightarrow> arguments \<Rightarrow> (path \<times> report) osrc" where
  "prepare h ans a =
     guardR (1 \<le> a_limit a) (Comparison_Error Bad_Detail_Limit)
       (bindR (check_tree h (a_u3 a) ''U3'') (\<lambda>r3.
        bindR (check_tree h (a_u11 a) ''U11'') (\<lambda>r11.
        guardR (r3 \<noteq> r11) (Comparison_Error Same_Trees)
       (bindR (mapR (check_eze4_path h) (a_eze4 a)) (\<lambda>es.
        bindR (validate_output h (a_output a) [r3, r11] es) (\<lambda>out.
        bindR (check_map h r3 r11 (a_map a)) (\<lambda>m.
        bindR (collect_snapshot (sha_of ans) (h_list h r3) (fst (git_u3 ans)) (snd (git_u3 ans)) r3 ''U3'') (\<lambda>u3.
        bindR (collect_snapshot (sha_of ans) (h_list h r11) (fst (git_u11 ans)) (snd (git_u11 ans)) r11 ''U11'') (\<lambda>u11.
        bindR (discover_eze4 h es) (\<lambda>(ezs, unsupported).
        bindR (build_report h u3 u11 ezs unsupported (map_option (\<lambda>p. (name_of p, map_json ans)) m)) (\<lambda>rep.
        Inr (out, rep))))))))))))"

definition osrc_run :: "host \<Rightarrow> answers \<Rightarrow> publish_env \<Rightarrow> arguments \<Rightarrow> path pact" where
  "osrc_run h ans env a = (\<lambda>f.
     case prepare h ans a of
       Inl e \<Rightarrow> (f, Inl e)
     | Inr (out, rep) \<Rightarrow>
         bindS (publish_report env (marker_json ans) (render ans (a_limit a) rep) out) (\<lambda>u. retS out) f)"

text \<open>\<open>main\<close>: \<open>parser.error\<close> exits with 2, any other exception is a traceback.\<close>

definition osrc_exit :: "path osrc \<Rightarrow> nat" where
  "osrc_exit r = (case r of Inr out \<Rightarrow> 0 | Inl (Comparison_Error e) \<Rightarrow> 2 | Inl e \<Rightarrow> 1)"

end
