(* ===== verification/Osrc_Walk.thy ===== *)
theory Osrc_Walk
  imports Osrc_Report
begin

text \<open>
  The inventory of \<open>tools/osrc_tree_compare.py\<close> against its meaning: which files the walk
  visits, and that every category holds exactly the visited files that belong to it.
\<close>

section \<open>The files a walk visits\<close>

text \<open>\<open>below t ps e\<close>: the path \<open>ps\<close> leads from \<open>t\<close> through kept directories to the file \<open>e\<close>.\<close>

inductive below :: "entry \<Rightarrow> string list \<Rightarrow> entry \<Rightarrow> bool" where
  "(n, e) \<in> set es \<Longrightarrow> \<not> dir_like e \<Longrightarrow> below (Directory es) [n] e"
| "(n, d) \<in> set es \<Longrightarrow> kept_dir n \<Longrightarrow> below d ps e \<Longrightarrow> below (Directory es) (n # ps) e"

inductive_cases below_cases: "below t ps e"

lemma below_simps [simp]:
  "\<not> below (Regular obs) ps e" "\<not> below (Sym_Link b) ps e" "\<not> below Special ps e" "\<not> below t [] e"
  by (auto elim: below_cases)

lemma below_Directory:
  "below (Directory es) ps e \<longleftrightarrow>
   (\<exists>n. ps = [n] \<and> (n, e) \<in> set es \<and> \<not> dir_like e) \<or>
   (\<exists>n qs d. ps = n # qs \<and> (n, d) \<in> set es \<and> kept_dir n \<and> below d qs e)"
  by (subst below.simps) auto

lemma below_file: "below t ps e \<Longrightarrow> \<not> dir_like e"
  by (induction rule: below.induct) auto

lemma below_dir: "below t ps e \<Longrightarrow> dir_like t"
  by (cases t) auto

lemma walk_iff:
  "(q, e) \<in> set (walk here t) \<longleftrightarrow> (\<exists>ps. q = here @ ps \<and> below t ps e)"
  "(\<exists>xs. (n, xs) \<in> set (walk_dirs here es) \<and> (q, e) \<in> set xs) \<longleftrightarrow>
     (\<exists>d ps. (n, d) \<in> set es \<and> kept_dir n \<and> q = here @ n # ps \<and> below d ps e)"
proof (induction here t and here es arbitrary: q e and n q e rule: walk_walk_dirs.induct)
  case (1 here es)
  have "(q, e) \<in> set (walk here (Directory es)) \<longleftrightarrow>
      (\<exists>n. q = here @ [n] \<and> (n, e) \<in> set es \<and> \<not> dir_like e) \<or>
      (\<exists>n xs. (n, xs) \<in> set (walk_dirs here es) \<and> (q, e) \<in> set xs)"
    by (auto simp: image_iff) (metis snd_conv)+
  then show ?case unfolding below_Directory using 1 by (auto 0 4)
next
  case (4 here m d es)
  show ?case
  proof (cases "dir_like d \<and> kept_dir m")
    case True
    with 4 show ?thesis by auto (metis append_Cons append_Nil append_assoc)+
  next
    case False
    then have "walk_dirs here ((m, d) # es) = walk_dirs here es" by simp
    moreover have "\<not> (kept_dir m \<and> below d ps e)" for ps using False below_dir by blast
    ultimately show ?thesis using "4.IH"(2) by auto
  qed
qed auto

section \<open>What the inventory records\<close>

text \<open>The record of a file, when its size did not change during the read.\<close>

definition record_of :: "(byte list \<Rightarrow> string) \<Rightarrow> string list \<Rightarrow> entry \<Rightarrow> file_record option" where
  "record_of sha parts e =
     (case e of
        Regular obs \<Rightarrow> (case (lstat_size obs, size_after obs, f_blocks obs) of
            (Some n, Some m, Some blocks) \<Rightarrow>
              if n = m then Some \<lparr>fr_path = join ''/'' parts, fr_size = n, fr_sha256 = sha (concat blocks)\<rparr> else None
          | _ \<Rightarrow> None)
      | _ \<Rightarrow> None)"

definition belongs :: "category \<Rightarrow> string list \<Rightarrow> bool" where
  "belongs c parts \<longleftrightarrow> \<not> list_ex is_partial parts \<and> c \<in> set (classify parts)"

text \<open>The state after the files \<open>xs\<close>.\<close>

definition recorded :: "(byte list \<Rightarrow> string) \<Rightarrow> (string list \<times> entry) list \<Rightarrow> inventory \<Rightarrow> bool" where
  "recorded sha xs st \<longleftrightarrow>
     (\<forall>c rel r. map_of (categories st c) rel = Some r \<longleftrightarrow>
        (\<exists>(parts, e) \<in> set xs. rel = join ''/'' parts \<and> belongs c parts \<and> record_of sha parts e = Some r)) \<and>
     (\<forall>rel k. map_of (hash_cache st) rel = Some k \<longrightarrow>
        (\<exists>(parts, e) \<in> set xs. rel = join ''/'' parts \<and> map_option fr_sha256 (record_of sha parts e) = Some k)) \<and>
     (\<forall>(parts, e) \<in> set xs. (\<exists>c. belongs c parts) \<longrightarrow> (\<exists>obs. e = Regular obs) \<longrightarrow> record_of sha parts e \<noteq> None)"

lemma dict_set_map: "map_of (dict_set k v kvs) = (map_of kvs)(k \<mapsto> v)"
proof -
  have "map_of (map (\<lambda>(l, w). (l, if l = k then v else w)) kvs) =
      (if k \<in> fst ` set kvs then (map_of kvs)(k \<mapsto> v) else map_of kvs)"
    by (induction kvs) (auto simp: fun_eq_iff)
  then show ?thesis by (auto simp: dict_set_def fun_eq_iff map_add_def dom_map_of_conv_image_fst [symmetric] split: option.splits)
qed

definition one_entry :: "(string list \<times> entry) list \<Rightarrow> bool" where
  "one_entry xs \<longleftrightarrow> (\<forall>(p, e) \<in> set xs. \<forall>(q, d) \<in> set xs. join ''/'' p = join ''/'' q \<longrightarrow> p = q \<and> e = d)"

lemma hash_file_Inr:
  "hash_file sha rel n obs = Inr k \<longleftrightarrow>
   (\<exists>blocks. f_blocks obs = Some blocks \<and> size_after obs = Some n \<and> k = sha (concat blocks))"
  by (auto simp: hash_file_def guardR_Inr_iff split: option.splits)

text \<open>What one file adds.\<close>

lemma take_file_cases:
  assumes "take_file sha (parts, e) st = Inr t"
  obtains (skipped) "categories t = categories st" "hash_cache t = hash_cache st"
      "\<And>c. \<not> (belongs c parts \<and> record_of sha parts e \<noteq> None)" "\<And>c obs. belongs c parts \<Longrightarrow> e \<noteq> Regular obs"
    | (added) n k obs where "e = Regular obs" "lstat_size obs = Some n" "\<not> list_ex is_partial parts"
      "map_of (hash_cache st) (join ''/'' parts) = Some k \<or> hash_file sha (join ''/'' parts) n obs = Inr k"
      "hash_cache t = dict_set (join ''/'' parts) k (hash_cache st)"
      "categories t = (\<lambda>c. if c \<in> set (classify parts)
         then dict_set (join ''/'' parts) \<lparr>fr_path = join ''/'' parts, fr_size = n, fr_sha256 = k\<rparr> (categories st c)
         else categories st c)"
proof (cases "list_ex is_partial parts")
  case True
  with assms show ?thesis by (intro skipped) (auto simp: take_file_def belongs_def)
next
  case False
  show ?thesis
  proof (cases e)
    case (Regular obs)
    then obtain n where n: "lstat_size obs = Some n" using assms False by (auto simp: take_file_def split: option.splits)
    show ?thesis
    proof (cases "classify parts = []")
      case True
      with assms False Regular n show ?thesis by (intro skipped) (auto simp: take_file_def belongs_def Let_def)
    next
      case some: False
      let ?k = "case map_of (hash_cache st) (join ''/'' parts) of Some k \<Rightarrow> Inr k
        | None \<Rightarrow> hash_file sha (join ''/'' parts) n obs"
      from assms False Regular n some obtain k where k: "?k = Inr k"
        by (cases ?k) (simp_all add: take_file_def Let_def)
      with assms False Regular n some show ?thesis
        by (intro added [of obs n k]) (auto simp: take_file_def add_record_def Let_def split: option.splits)
    qed
  qed (use assms False in \<open>auto intro!: skipped simp: take_file_def record_of_def\<close>)
qed

lemma take_file_recorded:
  assumes rec: "recorded sha xs st" and one: "one_entry (xs @ [(parts, e)])"
    and run: "take_file sha (parts, e) st = Inr t"
  shows "recorded sha (xs @ [(parts, e)]) t"
  using run
proof (cases rule: take_file_cases)
  case skipped
  with rec show ?thesis by (fastforce simp: recorded_def)
next
  case (added n k obs)
  let ?rel = "join ''/'' parts" let ?r = "\<lparr>fr_path = ?rel, fr_size = n, fr_sha256 = k\<rparr>"
  have same: "q = parts \<and> d = e" if "(q, d) \<in> set xs" "join ''/'' q = ?rel" for q d
    using one that by (fastforce simp: one_entry_def)
  have r: "record_of sha parts e = Some ?r"
    using added(4)
  proof
    assume "map_of (hash_cache st) ?rel = Some k"
    with rec have "\<exists>(q, d) \<in> set xs. ?rel = join ''/'' q \<and> map_option fr_sha256 (record_of sha q d) = Some k"
      unfolding recorded_def by blast
    then obtain q d where "(q, d) \<in> set xs" "join ''/'' q = ?rel" "map_option fr_sha256 (record_of sha q d) = Some k"
      by auto
    with same have "map_option fr_sha256 (record_of sha parts e) = Some k" by metis
    then show ?thesis using added(1,2)
      by (auto simp: record_of_def split: option.splits if_splits)
  next
    assume "hash_file sha ?rel n obs = Inr k"
    then show ?thesis using added(1,2) by (auto simp: hash_file_Inr record_of_def)
  qed
  have bel: "belongs c parts \<longleftrightarrow> c \<in> set (classify parts)" for c using added(3) by (simp add: belongs_def)
  have cats: "map_of (categories t c) = (if belongs c parts then (map_of (categories st c))(?rel \<mapsto> ?r) else map_of (categories st c))" for c
    by (simp add: added(6) bel dict_set_map)
  have 1: "map_of (categories t c) rel = Some x \<longleftrightarrow>
      (\<exists>(q, d) \<in> set (xs @ [(parts, e)]). rel = join ''/'' q \<and> belongs c q \<and> record_of sha q d = Some x)" for c rel x
  proof (cases "rel = ?rel \<and> belongs c parts")
    case True
    with cats have "map_of (categories t c) rel = Some x \<longleftrightarrow> x = ?r" by auto
    moreover have "(\<exists>(q, d) \<in> set (xs @ [(parts, e)]). rel = join ''/'' q \<and> belongs c q \<and> record_of sha q d = Some x) \<longleftrightarrow> x = ?r"
      using True r same by auto
    ultimately show ?thesis by simp
  next
    case False
    with cats have "map_of (categories t c) rel = map_of (categories st c) rel" by auto
    with rec False show ?thesis by (auto simp: recorded_def)
  qed
  have 2: "\<exists>(q, d) \<in> set (xs @ [(parts, e)]). rel = join ''/'' q \<and> map_option fr_sha256 (record_of sha q d) = Some l"
    if "map_of (hash_cache t) rel = Some l" for rel l
  proof (cases "rel = ?rel")
    case True
    with that added(5) r show ?thesis by (simp add: dict_set_map)
  next
    case False
    with that added(5) rec show ?thesis by (fastforce simp: dict_set_map recorded_def)
  qed
  have 3: "\<forall>(q, d) \<in> set (xs @ [(parts, e)]). (\<exists>c. belongs c q) \<longrightarrow> (\<exists>obs. d = Regular obs) \<longrightarrow> record_of sha q d \<noteq> None"
    using rec r by (auto simp: recorded_def)
  show ?thesis unfolding recorded_def by (intro conjI allI impI 1 2 3)
qed

lemma one_entry_append: "one_entry (xs @ ys) \<Longrightarrow> one_entry xs"
  by (simp add: one_entry_def split_beta)

lemma take_inventory_recorded:
  assumes "foldR (take_file sha) xs empty_inventory = Inr st" and "one_entry xs"
  shows "recorded sha xs st"
  using assms
proof (induction xs arbitrary: st rule: rev_induct)
  case Nil
  then show ?case by (auto simp: recorded_def empty_inventory_def)
next
  case (snoc x xs)
  obtain parts e where x: "x = (parts, e)" by (cases x)
  from snoc.prems obtain m where "foldR (take_file sha) xs empty_inventory = Inr m" "take_file sha x m = Inr st"
    by (auto simp: foldR_append bindR_Inr_iff)
  with snoc x show ?case using one_entry_append take_file_recorded by blast
qed

section \<open>The counts\<close>

definition regular :: "entry \<Rightarrow> bool" where
  "regular e = (case e of Regular obs \<Rightarrow> True | _ \<Rightarrow> False)"

definition partial_file :: "string list \<times> entry \<Rightarrow> bool" where
  "partial_file f = list_ex is_partial (fst f)"

lemma take_file_counts:
  assumes "take_file sha f st = Inr t"
  shows "file_count t = file_count st + (if \<not> partial_file f \<and> regular (snd f) then 1 else 0)"
    and "partial_count t = partial_count st + (if partial_file f then 1 else 0)"
    and "symlink_count t = symlink_count st + (if \<not> partial_file f \<and> \<not> regular (snd f) then 1 else 0)"
  using assms
  by (auto simp: take_file_def partial_file_def regular_def add_record_def Let_def bindR_Inr_iff
      split: prod.splits if_splits entry.splits option.splits)

lemma take_inventory_counts:
  assumes "foldR (take_file sha) xs st = Inr t"
  shows "file_count t = file_count st + length (filter (\<lambda>f. \<not> partial_file f \<and> regular (snd f)) xs)"
    and "partial_count t = partial_count st + length (filter partial_file xs)"
    and "symlink_count t = symlink_count st + length (filter (\<lambda>f. \<not> partial_file f \<and> \<not> regular (snd f)) xs)"
proof -
  have "file_count t = file_count st + length (filter (\<lambda>f. \<not> partial_file f \<and> regular (snd f)) xs) \<and>
    partial_count t = partial_count st + length (filter partial_file xs) \<and>
    symlink_count t = symlink_count st + length (filter (\<lambda>f. \<not> partial_file f \<and> \<not> regular (snd f)) xs)"
    using assms
  proof (induction xs arbitrary: st)
    case (Cons x xs)
    then obtain m where "take_file sha x st = Inr m" "foldR (take_file sha) xs m = Inr t"
      by (auto simp: bindR_Inr_iff)
    with Cons.IH [of m] take_file_counts [of sha x st m] show ?case by simp
  qed simp
  then show "file_count t = file_count st + length (filter (\<lambda>f. \<not> partial_file f \<and> regular (snd f)) xs)"
    and "partial_count t = partial_count st + length (filter partial_file xs)"
    and "symlink_count t = symlink_count st + length (filter (\<lambda>f. \<not> partial_file f \<and> \<not> regular (snd f)) xs)" by simp_all
qed

section \<open>Names that identify a file\<close>

text \<open>Every name is not empty and free of slashes, and a directory has no name twice.\<close>

fun tidy :: "entry \<Rightarrow> bool" where
  "tidy (Directory es) =
     (distinct (map fst es) \<and> list_all (\<lambda>(n, e). n \<noteq> [] \<and> CHR ''/'' \<notin> set n \<and> tidy e) es)"
| "tidy e = True"

lemma below_tidy: "below t ps e \<Longrightarrow> tidy t \<Longrightarrow> ps \<noteq> [] \<and> (\<forall>p \<in> set ps. CHR ''/'' \<notin> set p)"
  by (induction rule: below.induct) (auto simp: list_all_iff)

lemma below_unique: "below t ps e \<Longrightarrow> tidy t \<Longrightarrow> below t ps d \<Longrightarrow> e = d"
proof (induction arbitrary: d rule: below.induct)
  case (1 n e es)
  then show ?case by (auto simp: below_Directory dest: eq_key_imp_eq_value)
next
  case (2 n x es ps e)
  from 2 have "ps \<noteq> []" by auto
  with 2(5,6) obtain y where y: "(n, y) \<in> set es" "below y ps d" by (auto simp: below_Directory)
  moreover have "y = x" using 2(1,5) y(1) by (auto dest: eq_key_imp_eq_value)
  ultimately show ?case using 2 by (auto simp: list_all_iff)
qed

lemma join_inj:
  assumes "ps \<noteq> []" "\<forall>p \<in> set ps. c \<notin> set p" "qs \<noteq> []" "\<forall>p \<in> set qs. c \<notin> set p" "join [c] ps = join [c] qs"
  shows "ps = qs"
  using split_char_join [OF assms(1,2)] split_char_join [OF assms(3,4)] assms(5) by metis

lemma walk_one_entry: "tidy t \<Longrightarrow> one_entry (walk [] t)"
  unfolding one_entry_def
proof (clarify)
  fix p e q d
  assume t: "tidy t" and "(p, e) \<in> set (walk [] t)" "(q, d) \<in> set (walk [] t)" and j: "join ''/'' p = join ''/'' q"
  then have b: "below t p e" "below t q d" by (simp_all add: walk_iff(1))
  from below_tidy [OF b(1) t] below_tidy [OF b(2) t] j have "p = q" using join_inj by blast
  with b below_unique t show "p = q \<and> e = d" by blast
qed

text \<open>
  Claim C24. An inventory is complete and exact: a category holds a path exactly when the tree has
  a file there, reached without \<open>.git\<close> or \<open>.part\<close> directories, that is regular, not
  partial and of that category, and the record is the file's size and digest; the counts are
  those of the regular, partial and other files.
\<close>

theorem snapshot_complete:
  assumes "collect_snapshot sha tree head changes home label = Inr sn" and "tidy tree"
  shows "(map_of (categories (sn_inventory sn) c) rel = Some r \<longleftrightarrow>
      (\<exists>parts e. below tree parts e \<and> rel = join ''/'' parts \<and> belongs c parts \<and> record_of sha parts e = Some r))
    \<and> (below tree parts (Regular obs) \<and> belongs c parts \<longrightarrow> record_of sha parts (Regular obs) \<noteq> None)
    \<and> file_count (sn_inventory sn) = length (filter (\<lambda>f. \<not> partial_file f \<and> regular (snd f)) (walk [] tree))
    \<and> partial_count (sn_inventory sn) = length (filter partial_file (walk [] tree))
    \<and> file_count (sn_inventory sn) + partial_count (sn_inventory sn) + symlink_count (sn_inventory sn)
        = length (walk [] tree)"
proof -
  let ?w = "walk [] tree" let ?inv = "sn_inventory sn"
  from assms(1) have run: "foldR (take_file sha) ?w empty_inventory = Inr ?inv"
    by (auto simp: collect_snapshot_def take_inventory_def bindR_Inr_iff guardR_Inr_iff)
  note rec = take_inventory_recorded [OF run walk_one_entry [OF assms(2)], unfolded recorded_def]
  note counts = take_inventory_counts [OF run]
  have "length (filter partial_file ?w) + length (filter (\<lambda>f. \<not> partial_file f) ?w) = length ?w"
    by (rule sum_length_filter_compl)
  moreover have "length (filter (\<lambda>f. \<not> partial_file f \<and> regular (snd f)) ?w)
      + length (filter (\<lambda>f. \<not> partial_file f \<and> \<not> regular (snd f)) ?w) = length (filter (\<lambda>f. \<not> partial_file f) ?w)"
    using sum_length_filter_compl [of "\<lambda>f. regular (snd f)" "filter (\<lambda>f. \<not> partial_file f) ?w"]
    by (simp add: conj_commute)
  moreover have "map_of (categories ?inv c) rel = Some r \<longleftrightarrow>
      (\<exists>parts e. below tree parts e \<and> rel = join ''/'' parts \<and> belongs c parts \<and> record_of sha parts e = Some r)"
    using rec by (simp add: walk_iff(1) Bex_def)
  moreover have "below tree parts (Regular obs) \<and> belongs c parts \<longrightarrow> record_of sha parts (Regular obs) \<noteq> None"
    using bspec [OF rec [THEN conjunct2, THEN conjunct2], of "(parts, Regular obs)"] by (auto simp: walk_iff(1))
  ultimately show ?thesis using counts by (simp add: empty_inventory_def)
qed

definition sample_obs :: file_obs where
  "sample_obs = \<lparr>lstat_size = Some 2, f_blocks = Some [[1], [2]], size_after = Some 2, f_text = None\<rparr>"

definition sample_source :: entry where
  "sample_source = Directory
     [(''.git'', Directory [(''a.dts'', Regular sample_obs)]), (''link'', Sym_Link False),
      (''dts'', Directory [(''b.dts'', Regular sample_obs), (''c.dts.part'', Regular sample_obs)])]"

definition count_sha :: "byte list \<Rightarrow> string" where "count_sha bs = map (\<lambda>b. CHR ''x'') bs"

lemma plain_sample_names [simp]:
  "\<not> is_partial ''dts''" "\<not> is_partial ''b.dts''" "is_partial ''c.dts.part''" "\<not> is_partial ''link''"
  by code_simp+

lemma sample_walk:
  "walk [] sample_source = [([''link''], Sym_Link False), ([''dts'', ''b.dts''], Regular sample_obs),
     ([''dts'', ''c.dts.part''], Regular sample_obs)]"
  by (simp add: sample_source_def kept_dir_def)

lemma sample_class: "belongs Dts_Files [''dts'', ''b.dts'']"
proof -
  have "py_lower (path_suffix ''b.dts'') \<in> set dts_suffixes" by code_simp
  then show ?thesis by (simp add: belongs_def classify_def Let_def)
qed

lemma sample_snapshot:
  "\<exists>sn. collect_snapshot count_sha sample_source None None [] ''U3'' = Inr sn \<and> file_count (sn_inventory sn) = 1"
proof -
  have "hash_file count_sha r 2 sample_obs = Inr ''xx''" for r by (simp add: hash_file_def sample_obs_def count_sha_def)
  moreover have "classify [''dts'', ''b.dts''] \<noteq> []" using sample_class by (auto simp: belongs_def)
  moreover have "lstat_size sample_obs = Some 2" by (simp add: sample_obs_def)
  ultimately show ?thesis
    by (simp add: collect_snapshot_def take_inventory_def sample_walk take_file_def empty_inventory_def add_record_def Let_def)
qed

theorem snapshot_complete_witness:
  "\<exists>sn. collect_snapshot count_sha sample_source None None [] ''U3'' = Inr sn \<and> file_count (sn_inventory sn) = 1
    \<and> map_of (categories (sn_inventory sn) Dts_Files) ''dts/b.dts'' =
        Some \<lparr>fr_path = ''dts/b.dts'', fr_size = 2, fr_sha256 = ''xx''\<rparr>"
proof -
  obtain sn where sn: "collect_snapshot count_sha sample_source None None [] ''U3'' = Inr sn"
      "file_count (sn_inventory sn) = 1" using sample_snapshot by blast
  have "tidy sample_source" by (simp add: sample_source_def)
  note exact = snapshot_complete [OF sn(1) this, of Dts_Files "''dts/b.dts''"
      "\<lparr>fr_path = ''dts/b.dts'', fr_size = 2, fr_sha256 = ''xx''\<rparr>"]
  have "below sample_source [''dts'', ''b.dts''] (Regular sample_obs)"
    using walk_iff(1) [of "[''dts'', ''b.dts'']" "Regular sample_obs" "[]" sample_source] by (simp add: sample_walk)
  moreover have "record_of count_sha [''dts'', ''b.dts''] (Regular sample_obs) =
      Some \<lparr>fr_path = ''dts/b.dts'', fr_size = 2, fr_sha256 = ''xx''\<rparr>"
    by (simp add: record_of_def sample_obs_def count_sha_def)
  ultimately have "\<exists>parts e. below sample_source parts e \<and> ''dts/b.dts'' = join ''/'' parts \<and> belongs Dts_Files parts
      \<and> record_of count_sha parts e = Some \<lparr>fr_path = ''dts/b.dts'', fr_size = 2, fr_sha256 = ''xx''\<rparr>"
    using sample_class by (intro exI [of _ "[''dts'', ''b.dts'']"] exI [of _ "Regular sample_obs"]) simp
  with sn exact show ?thesis by blast
qed

end
