(* ===== verification/Keyed_Diff.thy ===== *)
theory Keyed_Diff
  imports Py_Prelude
begin

text \<open>
  The contract that the repository's comparers share. Each takes two dicts and reports the
  keys only in one of them and the common keys whose values differ in a tag (a digest); the
  laws say that the three reports are exactly that. What follows from them for a verdict is
  proved once, for every comparer.
\<close>

definition keys :: "(string \<times> 'v) list \<Rightarrow> string set" where "keys kvs = fst ` set kvs"

definition tag_at :: "('v \<Rightarrow> 'h) \<Rightarrow> (string \<times> 'v) list \<Rightarrow> string \<Rightarrow> 'h option" where
  "tag_at tag kvs k = map_option tag (map_of kvs k)"

lemma tag_at_None [simp]: "tag_at tag kvs k = None \<longleftrightarrow> k \<notin> keys kvs"
  by (simp add: tag_at_def keys_def map_of_eq_None_iff)

lemma finite_keys [simp]: "finite (keys kvs)"
  by (simp add: keys_def)

lemma sorted_list_of_set_Nil: "finite A \<Longrightarrow> sorted_list_of_set A = [] \<longleftrightarrow> A = {}"
  by simp

lemma filter_sorted_set: "filter P (sorted_set xs) = sorted_list_of_set {x \<in> set xs. P x}"
  by (rule sorted_distinct_set_unique) (auto simp: sorted_wrt_filter)

lemma filter_filter_sorted_set:
  "filter P (filter Q (sorted_set xs)) = sorted_list_of_set {x \<in> set xs. Q x \<and> P x}"
  by (rule sorted_distinct_set_unique) (auto simp: sorted_wrt_filter)

locale keyed_diff =
  fixes only_left only_right differing :: "(string \<times> 'v) list \<Rightarrow> (string \<times> 'v) list \<Rightarrow> string list"
    and tag :: "'v \<Rightarrow> 'h"
  assumes only_left_exact: "only_left l r = sorted_list_of_set (keys l - keys r)"
    and only_right_exact: "only_right l r = sorted_list_of_set (keys r - keys l)"
    and differing_exact: "differing l r = sorted_list_of_set {k \<in> keys l \<inter> keys r. tag_at tag l k \<noteq> tag_at tag r k}"
begin

lemma swapped: "only_left r l = only_right l r" "differing r l = differing l r"
  by (simp_all add: only_left_exact only_right_exact differing_exact eq_commute Int_commute)

lemma identical_iff:
  "only_left l r = [] \<and> only_right l r = [] \<and> differing l r = [] \<longleftrightarrow> tag_at tag l = tag_at tag r"
proof
  assume "only_left l r = [] \<and> only_right l r = [] \<and> differing l r = []"
  then have same: "keys l = keys r" and eq: "\<forall>k \<in> keys l. tag_at tag l k = tag_at tag r k"
    by (auto simp: only_left_exact only_right_exact differing_exact)
  show "tag_at tag l = tag_at tag r"
  proof
    fix k
    show "tag_at tag l k = tag_at tag r k"
    proof (cases "k \<in> keys l")
      case False
      with same show ?thesis by (metis tag_at_None)
    qed (use eq in blast)
  qed
next
  assume eq: "tag_at tag l = tag_at tag r"
  then have "keys l = keys r" by (metis set_eqI tag_at_None)
  with eq show "only_left l r = [] \<and> only_right l r = [] \<and> differing l r = []"
    by (simp add: only_left_exact only_right_exact differing_exact)
qed

lemma split_keys:
  "keys l \<union> keys r = set (only_left l r) \<union> set (only_right l r) \<union> set (differing l r)
     \<union> {k \<in> keys l \<inter> keys r. tag_at tag l k = tag_at tag r k}"
  by (auto simp: only_left_exact only_right_exact differing_exact)

end

end
