(* ===== verification/Osrc_Properties.thy ===== *)
theory Osrc_Properties
  imports Osrc_Report Keyed_Diff
begin

text \<open>
  What \<open>tools/osrc_tree_compare.py\<close> computes: the comparison of a category is exact, the
  inventory is complete, the heuristic names a source only when it is the single best one,
  and a publication replaces the whole report or leaves the old one.
\<close>

section \<open>Comparing two inventories\<close>

lemma length_sorted_set: "length (sorted_set xs) = card (set xs)"
  by (metis distinct_card sorted_set_props(1,3))

lemma card_split: "finite A \<Longrightarrow> card A = card {x \<in> A. P x} + card {x \<in> A. \<not> P x}"
  using card_Int_Diff [of A "Collect P"] by (simp add: Int_def set_diff_eq)

definition same_hash :: "(string \<times> file_record) list \<Rightarrow> (string \<times> file_record) list \<Rightarrow> string \<Rightarrow> bool" where
  "same_hash l r p \<longleftrightarrow> map_option fr_sha256 (map_of l p) = map_option fr_sha256 (map_of r p)"

lemma same_hash_common:
  assumes "p \<in> fst ` set l" and "p \<in> fst ` set r"
  shows "fr_sha256 (the (map_of l p)) = fr_sha256 (the (map_of r p)) \<longleftrightarrow> same_hash l r p"
proof -
  from assms obtain a b where "map_of l p = Some a" "map_of r p = Some b"
    by (metis map_of_eq_None_iff not_None_eq)
  then show ?thesis by (simp add: same_hash_def)
qed

lemma changed_paths:
  "map fst (changed (compare_category l r)) =
   filter (\<lambda>p. \<not> same_hash l r p) (filter (\<lambda>p. p \<in> fst ` set r) (sorted_set (map fst l)))"
proof -
  have "filter (\<lambda>p. fr_sha256 (the (map_of l p)) \<noteq> fr_sha256 (the (map_of r p)))
      (filter (\<lambda>p. p \<in> fst ` set r) (sorted_set (map fst l))) =
    filter (\<lambda>p. \<not> same_hash l r p) (filter (\<lambda>p. p \<in> fst ` set r) (sorted_set (map fst l)))"
    by (rule filter_cong) (auto simp: same_hash_common)
  then show ?thesis by (simp add: compare_category_def Let_def comp_def)
qed

lemma compare_counts:
  "u3_count (compare_category l r) = card (fst ` set l)"
  "u11_count (compare_category l r) = card (fst ` set r)"
  "common_count (compare_category l r) = card (fst ` set l \<inter> fst ` set r)"
  "u3_only (compare_category l r) = sorted_list_of_set (fst ` set l - fst ` set r)"
  "u11_only (compare_category l r) = sorted_list_of_set (fst ` set r - fst ` set l)"
  by (simp_all add: compare_category_def Let_def length_sorted_set filter_sorted_set set_diff_eq Int_def)

lemma changed_exact:
  "map fst (changed (compare_category l r)) =
   sorted_list_of_set {p \<in> fst ` set l \<inter> fst ` set r. \<not> same_hash l r p}"
  by (rule sorted_distinct_set_unique) (auto simp: changed_paths sorted_wrt_filter)

lemma unchanged_exact:
  "unchanged_count (compare_category l r) = card {p \<in> fst ` set l \<inter> fst ` set r. same_hash l r p}"
proof -
  let ?c = "fst ` set l \<inter> fst ` set r"
  have "length (changed (compare_category l r)) = card {p \<in> ?c. \<not> same_hash l r p}"
    using arg_cong [OF changed_exact, of length] by simp
  moreover have "unchanged_count (compare_category l r) =
      common_count (compare_category l r) - length (changed (compare_category l r))"
    by (simp add: compare_category_def Let_def)
  moreover have "card ?c = card {p \<in> ?c. same_hash l r p} + card {p \<in> ?c. \<not> same_hash l r p}"
    by (rule card_split) simp
  ultimately show ?thesis by (simp only: compare_counts)
qed

lemma same_hash_sym: "same_hash l r p = same_hash r l p"
  by (auto simp: same_hash_def)

interpretation trees: keyed_diff "\<lambda>l r. u3_only (compare_category l r)" "\<lambda>l r. u11_only (compare_category l r)"
  "\<lambda>l r. map fst (changed (compare_category l r))" fr_sha256
  by unfold_locales (simp_all add: compare_counts changed_exact same_hash_def tag_at_def keys_def)

text \<open>
  Claim C23. The comparison of a category splits the paths of the two inventories: the paths
  only in one of them, the common paths with a different digest, each sorted and without
  repetition, and as many unchanged ones as the counts say; swapping the two trees swaps the
  report.
\<close>

theorem compare_category_exact:
  fixes l r :: "(string \<times> file_record) list"
  defines "d \<equiv> compare_category l r"
  shows "u3_only d = sorted_list_of_set (fst ` set l - fst ` set r)
    \<and> u11_only d = sorted_list_of_set (fst ` set r - fst ` set l)
    \<and> map fst (changed d) = sorted_list_of_set {p \<in> fst ` set l \<inter> fst ` set r. \<not> same_hash l r p}
    \<and> unchanged_count d = card {p \<in> fst ` set l \<inter> fst ` set r. same_hash l r p}
    \<and> u3_count d = length (u3_only d) + common_count d \<and> u11_count d = length (u11_only d) + common_count d
    \<and> common_count d = unchanged_count d + length (changed d)
    \<and> u3_only (compare_category r l) = u11_only d \<and> unchanged_count (compare_category r l) = unchanged_count d
    \<and> map fst (changed (compare_category r l)) = map fst (changed d)"
proof -
  have n: "length (changed d) = card {p \<in> fst ` set l \<inter> fst ` set r. \<not> same_hash l r p}"
    using arg_cong [OF changed_exact [of l r], of length] by (simp add: d_def)
  have "card (fst ` set l \<inter> fst ` set r) = unchanged_count d + length (changed d)"
    unfolding n unfolding d_def unchanged_exact by (rule card_split) simp
  moreover have "card (fst ` set l) = card (fst ` set l - fst ` set r) + card (fst ` set l \<inter> fst ` set r)"
    "card (fst ` set r) = card (fst ` set r - fst ` set l) + card (fst ` set l \<inter> fst ` set r)"
    using card_Int_Diff [of "fst ` set l" "fst ` set r"] card_Int_Diff [of "fst ` set r" "fst ` set l"]
    by (simp_all add: Int_commute)
  ultimately show ?thesis
    unfolding d_def compare_counts changed_exact unchanged_exact
    by (simp add: same_hash_sym [of r l] Int_commute [of "fst ` set r"])
qed

section \<open>The single best candidate\<close>

definition score_of :: "eze4_input \<Rightarrow> string \<times> dts_facts \<Rightarrow> nat" where
  "score_of ez c = fst (candidate_score (ez_facts ez) (eze4_tokens ez) (fst c) (snd c))"

definition score_entry :: "eze4_input \<Rightarrow> string \<times> dts_facts \<Rightarrow> nat \<times> string \<times> string list" where
  "score_entry ez c = (score_of ez c, fst c, snd (candidate_score (ez_facts ez) (eze4_tokens ez) (fst c) (snd c)))"

lemma score_entry_simps [simp]: "fst (score_entry ez c) = score_of ez c" "fst (snd (score_entry ez c)) = fst c"
  by (simp_all add: score_entry_def)

lemma scored_candidates_eq:
  "scored_candidates ez cs = sort_key (\<lambda>(score, rel, rs). (- int score, rel))
     (filter (\<lambda>x. fst x \<noteq> 0) (map (score_entry ez) cs))"
  by (simp add: scored_candidates_def score_entry_def [abs_def] score_of_def split_def)

lemma scored_set: "set (scored_candidates ez cs) = score_entry ez ` {c \<in> set cs. 0 < score_of ez c}"
  by (auto simp: scored_candidates_eq)

lemma scored_sorted: "sorted_wrt (\<lambda>x y. fst y \<le> fst x) (scored_candidates ez cs)"
proof -
  let ?k = "\<lambda>(score, rel, rs). (- int score, rel)"
  have "sorted (map ?k (scored_candidates ez cs))"
    unfolding scored_candidates_eq by (rule sorted_sort_key)
  moreover have "?k x \<le> ?k y \<Longrightarrow> fst y \<le> fst x" for x y :: "nat \<times> string \<times> string list"
    by (cases x; cases y) auto
  ultimately show ?thesis
    unfolding sorted_map by (rule sorted_wrt_mono_rel [rotated])
qed

lemma scored_distinct: "distinct (map fst cs) \<Longrightarrow> distinct (scored_candidates ez cs)"
proof -
  assume "distinct (map fst cs)"
  moreover have "map fst cs = map (fst \<circ> snd) (map (score_entry ez) cs)" by simp
  ultimately have "distinct (map (score_entry ez) cs)" by (metis distinct_map)
  then show ?thesis by (simp add: scored_candidates_eq)
qed

lemma score_entry_inj: "distinct (map fst cs) \<Longrightarrow> inj_on (score_entry ez) (set cs)"
proof (rule inj_onI)
  fix c d assume d: "distinct (map fst cs)" and c: "c \<in> set cs" "d \<in> set cs"
    and "score_entry ez c = score_entry ez d"
  then have "fst c = fst d" by (metis score_entry_simps(2))
  with d c show "c = d" by (auto simp: distinct_map inj_on_def)
qed

text \<open>The sources with the highest score, when it is positive.\<close>

definition best_sources :: "eze4_input \<Rightarrow> (string \<times> dts_facts) list \<Rightarrow> (string \<times> dts_facts) set" where
  "best_sources ez cs = {c \<in> set cs. 0 < score_of ez c \<and> (\<forall>x \<in> set cs. score_of ez x \<le> score_of ez c)}"

lemma best_of_scored:
  assumes "scored_candidates ez cs = x # rest"
  shows "set (filter (\<lambda>y. fst y = fst x) (x # rest)) = score_entry ez ` best_sources ez cs" and "x \<in> score_entry ez ` best_sources ez cs"
proof -
  have all: "set (x # rest) = score_entry ez ` {c \<in> set cs. 0 < score_of ez c}"
    using scored_set [of ez cs] assms by simp
  have top: "fst y \<le> fst x" if "y \<in> set (x # rest)" for y
    using scored_sorted [of ez cs] assms that by auto
  have "x \<in> score_entry ez ` {c \<in> set cs. 0 < score_of ez c}" unfolding all [symmetric] by simp
  then obtain c where c: "c \<in> set cs" "0 < score_of ez c" "x = score_entry ez c" by blast
  have le: "score_of ez b \<le> score_of ez c" if "b \<in> set cs" for b
  proof (cases "0 < score_of ez b")
    case True
    with that all have "score_entry ez b \<in> set (x # rest)" by blast
    from top [OF this] c(3) show ?thesis by simp
  qed simp
  then have "best_sources ez cs = {b \<in> set cs. 0 < score_of ez b \<and> score_of ez b = score_of ez c}"
    using c by (auto simp: best_sources_def intro: antisym)
  moreover have "set (filter (\<lambda>y. fst y = fst x) (x # rest)) = {y \<in> set (x # rest). fst y = fst x}" by auto
  ultimately show "set (filter (\<lambda>y. fst y = fst x) (x # rest)) = score_entry ez ` best_sources ez cs"
    unfolding all using c(3) by auto
  show "x \<in> score_entry ez ` best_sources ez cs" using c le by (auto simp: best_sources_def)
qed

text \<open>
  The heuristic names a source for an EZE4 input exactly when one source alone has the
  highest score and the score is positive, and it names that one; with several best sources
  the confidence is ambiguous, with no positive score there is none.
\<close>

theorem pick_names_single_best:
  assumes "distinct (map fst cs)"
  shows "(m_path (pick_dts_candidate ez cs) = Some p \<longleftrightarrow> (\<exists>facts. best_sources ez cs = {(p, facts)}))
    \<and> m_confidence (pick_dts_candidate ez cs) =
        (if best_sources ez cs = {} then ''none'' else if card (best_sources ez cs) = 1 then ''high'' else ''ambiguous'')"
proof (cases "scored_candidates ez cs")
  case Nil
  then have "best_sources ez cs = {}" using scored_set [of ez cs] by (auto simp: best_sources_def)
  with Nil show ?thesis by (simp add: pick_dts_candidate_def)
next
  case (Cons x rest)
  obtain best rel rs where x: "x = (best, rel, rs)" by (cases x)
  let ?best = "filter (\<lambda>y. fst y = best) (x # rest)"
  note b = best_of_scored [OF Cons]
  have "distinct ?best" using scored_distinct [OF assms, of ez] Cons by simp
  then have "length ?best = card (set ?best)" by (rule distinct_card [symmetric])
  also have "\<dots> = card (best_sources ez cs)"
    unfolding b(1) [unfolded x fst_conv, folded x]
    by (rule card_image, rule inj_on_subset [OF score_entry_inj [OF assms]]) (auto simp: best_sources_def)
  finally have len: "length ?best = card (best_sources ez cs)" .
  from b(2) obtain facts where f: "(rel, facts) \<in> best_sources ez cs" using x by (auto simp: score_entry_def)
  then have "card (best_sources ez cs) = 1 \<longleftrightarrow> (\<exists>c. best_sources ez cs = {c})" by (simp add: card_1_singleton_iff)
  moreover have "best_sources ez cs \<noteq> {}" using f by auto
  ultimately show ?thesis using f x Cons len
    by (auto simp: pick_dts_candidate_def)
qed

section \<open>Publication\<close>

lemma call_succeeds: "sysS ok g f = (h, Inr u) \<longleftrightarrow> ok \<and> h = g f"
  by (auto simp: sysS_def)

lemma write_succeeds: "writeS failure g f = (h, Inr u) \<longleftrightarrow> failure = None \<and> h = g f"
  by (auto simp: writeS_def split: option.splits)

lemma fill_stage_outside: "\<not> prefix stg p \<Longrightarrow> fst (fill_stage env r stg f) p = f p"
  by (auto simp: fill_stage_def bindS_eq sysS_def writeS_def put_file_def split: sum.splits option.splits)

lemma fill_stage_done:
  "fill_stage env r stg f = (g, Inr u) \<Longrightarrow>
   g = f(stg @ [''comparison.json''] \<mapsto> NFile (json_bytes r) (umask_file env),
         stg @ [''comparison.md''] \<mapsto> NFile (md_bytes r) (umask_file env))"
  by (auto simp: fill_stage_def bindS_Inr call_succeeds write_succeeds put_file_def)

text \<open>Three entries of one directory: no path is below two of them.\<close>

definition siblings :: "path \<Rightarrow> path \<Rightarrow> path \<Rightarrow> bool" where
  "siblings a b c \<longleftrightarrow> length a = length b \<and> length b = length c \<and> a \<noteq> b \<and> b \<noteq> c \<and> a \<noteq> c"

lemma siblings_apart:
  assumes "siblings a b c"
  shows "prefix a p \<Longrightarrow> \<not> prefix b p \<and> \<not> prefix c p" and "prefix b p \<Longrightarrow> \<not> prefix a p \<and> \<not> prefix c p"
    and "prefix c p \<Longrightarrow> \<not> prefix a p \<and> \<not> prefix b p"
proof -
  have eq: "x = y" if "prefix x p" "prefix y p" "length x = length y" for x y
    using that by (auto simp: prefix_def append_eq_append_conv)
  show "prefix a p \<Longrightarrow> \<not> prefix b p \<and> \<not> prefix c p" and "prefix b p \<Longrightarrow> \<not> prefix a p \<and> \<not> prefix c p"
    and "prefix c p \<Longrightarrow> \<not> prefix a p \<and> \<not> prefix b p"
    using assms eq unfolding siblings_def by metis+
qed

text \<open>The new report below \<open>out\<close>, everything else as in \<open>f\<close>.\<close>

definition published :: "publish_env \<Rightarrow> rendered \<Rightarrow> path \<Rightarrow> fs \<Rightarrow> fs" where
  "published env r out f = (\<lambda>p.
     if \<not> prefix out p then f p
     else if p = out then Some (NDir 0x1C0)
     else if p = out @ [''comparison.json''] then Some (NFile (json_bytes r) (umask_file env))
     else if p = out @ [''comparison.md''] then Some (NFile (md_bytes r) (umask_file env))
     else None)"

lemma swap_in_done:
  assumes "swap_in env stg bak out f = (g, Inr u)" and "siblings stg bak out"
    and "\<And>p. prefix bak p \<Longrightarrow> f p = None"
  shows "g p = (if prefix out p then f (stg @ drop (length out) p) else if prefix stg p then None else f p)"
proof (cases "lexists f out")
  case True
  note apart = siblings_apart [OF assms(2)]
  from assms(1) True have g: "g = rm_tree bak (move_tree stg out (move_tree out bak f))"
    by (auto simp: swap_in_def sysS_def drop_backup_def split: if_splits option.splits)
  consider "prefix out p" | "prefix stg p" | "prefix bak p" | "\<not> prefix out p" "\<not> prefix stg p" "\<not> prefix bak p" by blast
  then show ?thesis
  proof cases
    case 1
    have "\<not> prefix bak (stg @ q)" "\<not> prefix out (stg @ q)" for q using apart(1) [of "stg @ q"] by simp_all
    with 1 apart(3) [OF 1] show ?thesis unfolding g rm_tree_def move_tree_def by simp
  next
    case 2
    with apart(1) [OF 2] show ?thesis unfolding g rm_tree_def move_tree_def by simp
  next
    case 3
    with apart(2) [OF 3] assms(3) [OF 3] show ?thesis unfolding g rm_tree_def move_tree_def by simp
  next
    case 4
    then show ?thesis unfolding g rm_tree_def move_tree_def by simp
  qed
next
  case False
  with assms(1) have "g = move_tree stg out f" by (simp add: swap_in_def call_succeeds)
  then show ?thesis by (simp add: move_tree_def)
qed

text \<open>
  A failed exchange: nothing was moved, or what was moved has been moved back; the old report
  is stuck under the backup's name; or the new report is in place and the backup was not
  removed completely.
\<close>

lemma swap_in_failed:
  assumes "swap_in env stg bak out f = (g, Inl e)" and "siblings stg bak out"
    and "\<forall>p. prefix bak p \<longrightarrow> f p = None"
  shows "g = f \<or>
    lexists f out \<and> moved_out env \<and> \<not> moved_in env \<and> \<not> moved_back env \<and> g = move_tree out bak f \<or>
    lexists f out \<and> moved_out env \<and> moved_in env \<and> (\<exists>gone. backup_removed env = Some gone \<and>
      g = (\<lambda>p. if prefix bak p \<and> gone p then None else move_tree stg out (move_tree out bak f) p))"
proof (cases "lexists f out \<and> moved_out env \<and> \<not> moved_in env \<and> moved_back env")
  case True
  note apart = siblings_apart [OF assms(2)]
  from assms(1) True have g: "g = move_tree bak out (move_tree out bak f)"
    by (auto simp: swap_in_def sysS_def)
  have "g p = f p" for p
  proof -
    consider "prefix out p" | "prefix bak p" | "\<not> prefix out p" "\<not> prefix bak p" by blast
    then show "g p = f p"
    proof cases
      case 1
      then obtain q where "p = out @ q" by (auto simp: prefix_def)
      then show ?thesis unfolding g move_tree_def by simp
    next
      case 2
      with apart(2) [OF 2] assms(3) 2 show ?thesis unfolding g move_tree_def by simp
    next
      case 3
      then show ?thesis unfolding g move_tree_def by simp
    qed
  qed
  then show ?thesis by blast
next
  case False
  with assms(1) show ?thesis by (auto simp: swap_in_def sysS_def drop_backup_def split: if_splits option.splits)
qed

text \<open>With the directories made on the way to the output.\<close>

definition with_parents :: "path \<Rightarrow> fs \<Rightarrow> fs \<Rightarrow> bool" where
  "with_parents up f d \<longleftrightarrow> (\<forall>p. d p = f p \<or> (f p = None \<and> is_dir d p \<and> prefix p up))"

lemma make_dirs_parents: "make_dirs [] up dm m f = (d, b) \<Longrightarrow> with_parents up f d"
  unfolding with_parents_def by (metis append_Nil make_dirs_effect take_is_prefix)

lemma with_parents_below:
  assumes "with_parents up f d" and "wf_fs f" and "f s = None" and "\<not> prefix s up" and "prefix s p"
  shows "d p = None"
proof -
  from assms(5) obtain q where q: "p = s @ q" by (auto simp: prefix_def)
  have "f p = None" using wf_fs_below [OF assms(2,3)] q by simp
  moreover have "\<not> prefix p up" using assms(4,5) prefix_order.trans by blast
  ultimately show ?thesis using assms(1) unfolding with_parents_def by metis
qed

lemma staged_published:
  assumes sib: "siblings stg bak out" and stg: "\<And>p. prefix stg p \<Longrightarrow> d p = None"
    and bak: "\<And>p. prefix bak p \<Longrightarrow> d p = None"
    and fill: "fill_stage env r stg (d(stg \<mapsto> NDir 0x1C0)) = (k, Inr ())" and swap: "swap_in env stg bak out k = (g, Inr ())"
  shows "g = published env r out d"
proof
  fix p
  note apart = siblings_apart [OF sib]
  have k: "k = d(stg \<mapsto> NDir 0x1C0, stg @ [''comparison.json''] \<mapsto> NFile (json_bytes r) (umask_file env),
      stg @ [''comparison.md''] \<mapsto> NFile (md_bytes r) (umask_file env))"
    using fill_stage_done [OF fill] by simp
  have "k q = None" if "prefix bak q" for q
    using apart(2) [OF that] bak [OF that] k by auto
  note g = swap_in_done [OF swap sib this]
  show "g p = published env r out d p"
  proof (cases "prefix out p")
    case True
    then obtain q where q: "p = out @ q" by (auto simp: prefix_def)
    with g have "g p = k (stg @ q)" by simp
    with k stg [of "stg @ q"] q show ?thesis by (auto simp: published_def)
  next
    case False
    have "k p = d p" if "\<not> prefix stg p" using that k by auto
    with g [of p] False stg [of p] show ?thesis by (auto simp: published_def)
  qed
qed

text \<open>What is left of the old report below \<open>bak\<close>, everything else as in \<open>h\<close>.\<close>

definition with_backup :: "(path \<Rightarrow> bool) \<Rightarrow> path \<Rightarrow> path \<Rightarrow> fs \<Rightarrow> fs \<Rightarrow> fs" where
  "with_backup gone bak out d h = (\<lambda>p.
     if prefix bak p then (if gone p then None else d (out @ drop (length bak) p)) else h p)"

text \<open>The ways a publication that reports an error can end, from the file system \<open>d\<close>.\<close>

definition failed_publication :: "publish_env \<Rightarrow> rendered \<Rightarrow> path \<Rightarrow> path \<Rightarrow> path \<Rightarrow> fs \<Rightarrow> fs \<Rightarrow> bool" where
  "failed_publication env r stg bak out d g \<longleftrightarrow>
     same_but (stage_left env) stg d g \<or>
     lexists d out \<and> moved_out env \<and> \<not> moved_in env \<and> \<not> moved_back env \<and>
       same_but (stage_left env) stg (move_tree out bak d) g \<or>
     lexists d out \<and> moved_out env \<and> moved_in env \<and>
       (\<exists>gone. backup_removed env = Some gone \<and> g = with_backup gone bak out d (published env r out d))"

lemma new_with_backup:
  assumes sib: "siblings stg bak out" and stg: "\<And>p. prefix stg p \<Longrightarrow> d p = None"
    and k: "k = d(stg \<mapsto> NDir 0x1C0, stg @ [''comparison.json''] \<mapsto> NFile (json_bytes r) (umask_file env),
      stg @ [''comparison.md''] \<mapsto> NFile (md_bytes r) (umask_file env))"
  shows "rm_tree_ignoring kept stg (\<lambda>p. if prefix bak p \<and> gone p then None else move_tree stg out (move_tree out bak k) p)
    = with_backup gone bak out d (published env r out d)" (is "?l = ?r")
proof
  fix p
  note apart = siblings_apart [OF sib]
  have out: "k q = d q" if "\<not> prefix stg q" for q using that k by auto
  consider "prefix out p" | "prefix bak p" | "prefix stg p" | "\<not> prefix out p" "\<not> prefix bak p" "\<not> prefix stg p"
    by blast
  then show "?l p = ?r p"
  proof cases
    case 1
    then obtain q where q: "p = out @ q" by (auto simp: prefix_def)
    have no: "\<not> prefix bak (stg @ q)" "\<not> prefix out (stg @ q)" using apart(1) [of "stg @ q"] by simp_all
    from apart(3) [OF 1] no have "?l p = k (stg @ q)" by (simp add: rm_tree_ignoring_def move_tree_def q)
    also have "\<dots> = published env r out d p" using k stg [of "stg @ q"] by (auto simp: published_def q)
    finally show ?thesis using apart(3) [OF 1] by (simp add: with_backup_def)
  next
    case 2
    then obtain q where q: "p = bak @ q" by (auto simp: prefix_def)
    have "\<not> prefix stg (out @ q)" using apart(3) [of "out @ q"] by simp
    with apart(2) [OF 2] out show ?thesis
      by (simp add: rm_tree_ignoring_def move_tree_def with_backup_def q)
  next
    case 3
    with apart(1) [OF 3] stg [OF 3] show ?thesis
      by (simp add: rm_tree_ignoring_def move_tree_def with_backup_def published_def)
  next
    case 4
    with out show ?thesis by (simp add: rm_tree_ignoring_def move_tree_def with_backup_def published_def)
  qed
qed

lemma stage_removed:
  assumes sib: "siblings stg bak out" and stg: "\<And>p. prefix stg p \<Longrightarrow> d p = None"
    and bak: "\<And>p. prefix bak p \<Longrightarrow> d p = None"
    and run: "bindS (fill_stage env r stg) (\<lambda>u. swap_in env stg bak out) (d(stg \<mapsto> NDir 0x1C0)) = (k, Inl e)"
  shows "failed_publication env r stg bak out d (rm_tree_ignoring (stage_left env) stg k)"
proof -
  note apart = siblings_apart [OF sib]
  obtain h where h: "fst (fill_stage env r stg (d(stg \<mapsto> NDir 0x1C0))) = h" by simp
  have out: "h p = d p" if "\<not> prefix stg p" for p
    using fill_stage_outside [OF that, of env r "d(stg \<mapsto> NDir 0x1C0)"] that h by auto
  have "rm_tree stg h = d" using out stg by (auto simp: rm_tree_def)
  then have undone: "failed_publication env r stg bak out d (rm_tree_ignoring (stage_left env) stg h)"
    by (simp add: failed_publication_def rm_tree_same_but)
  show ?thesis
  proof (cases "snd (fill_stage env r stg (d(stg \<mapsto> NDir 0x1C0)))")
    case (Inl x)
    with run h undone show ?thesis by (auto simp: bindS_eq)
  next
    case (Inr u)
    with run h have swap: "swap_in env stg bak out h = (k, Inl e)" by (auto simp: bindS_eq)
    have ex: "lexists h out \<longleftrightarrow> lexists d out" using out [of out] apart(3) [of out] by (simp add: lexists_def)
    have "\<forall>p. prefix bak p \<longrightarrow> h p = None" using apart(2) out bak by metis
    from swap_in_failed [OF swap sib this] show ?thesis
    proof (elim disjE conjE exE)
      assume "k = h"
      with undone show ?thesis by simp
    next
      assume k: "k = move_tree out bak h" and rest: "lexists h out" "moved_out env" "\<not> moved_in env" "\<not> moved_back env"
      have "rm_tree stg k = move_tree out bak d"
      proof
        fix p
        have "\<not> prefix stg (out @ q)" for q using apart(3) [of "out @ q"] by simp
        then show "rm_tree stg k p = move_tree out bak d p"
          using apart(1) [of p] out stg [of p] by (auto simp: k rm_tree_def move_tree_def)
      qed
      with rest ex show ?thesis by (auto simp: failed_publication_def dest: rm_tree_same_but)
    next
      fix gone assume k: "k = (\<lambda>p. if prefix bak p \<and> gone p then None else move_tree stg out (move_tree out bak h) p)"
        and rest: "lexists h out" "moved_out env" "moved_in env" "backup_removed env = Some gone"
      have "fill_stage env r stg (d(stg \<mapsto> NDir 0x1C0)) = (h, Inr u)" using h Inr by (metis prod.collapse)
      from new_with_backup [OF sib stg fill_stage_done [OF this, unfolded fun_upd_upd]] k rest ex show ?thesis
        by (auto simp: failed_publication_def)
    qed
  qed
qed

lemma publish_effect:
  assumes "publish_report env marker r out f = (g, res)" and "wf_fs f" and "out \<noteq> []"
    and "siblings (butlast out @ [stage_name env]) (butlast out @ [backup_name env]) out"
    and "f (butlast out @ [stage_name env]) = None" and "f (butlast out @ [backup_name env]) = None"
  shows "\<exists>d. with_parents (butlast out) f d \<and>
    (res = Inr () \<or> \<not> same_but (stage_left env) (butlast out @ [stage_name env]) d g \<longrightarrow>
       (lexists f out \<longrightarrow> output_is_ours (link_fuel env) d marker out = Inr True)) \<and>
    (case res of
       Inr u \<Rightarrow> g = published env r out d
     | Inl e \<Rightarrow> failed_publication env r (butlast out @ [stage_name env]) (butlast out @ [backup_name env]) out d g)"
proof -
  let ?par = "butlast out" let ?stg = "butlast out @ [stage_name env]" let ?bak = "butlast out @ [backup_name env]"
  obtain d b where md: "make_dirs [] ?par (umask_dir env) (umask_dir env) f = (d, b)" by fastforce
  note par = make_dirs_parents [OF md]
  have no: "\<not> prefix (?par @ [x]) ?par" for x by (auto simp: prefix_def)
  note stg = with_parents_below [OF par assms(2,5) no]
  note bak = with_parents_below [OF par assms(2,6) no]
  let ?run = "bindS (fill_stage env r ?stg) (\<lambda>u. swap_in env ?stg ?bak out) (d(?stg \<mapsto> NDir 0x1C0))"
  have "out = ?par @ [last out]" using assms(3) by simp
  then have "\<not> prefix out ?par" using no by metis
  then have ex: "lexists f out \<longleftrightarrow> lexists d out" using par unfolding with_parents_def lexists_def by metis
  show ?thesis
  proof (cases "b \<and> (lexists d out \<longrightarrow> output_is_ours (link_fuel env) d marker out = Inr True) \<and> stage_made env")
    case False
    with assms(1) md have "g = d \<and> (\<exists>e. res = Inl e)"
      by (auto simp: publish_report_def Let_def split: if_splits sum.splits bool.splits)
    with par show ?thesis by (auto simp: failed_publication_def)
  next
    case True
    then have res: "(g, res) = (case ?run of (k, Inr u) \<Rightarrow> (k, Inr ())
        | (k, Inl e) \<Rightarrow> (rm_tree_ignoring (stage_left env) ?stg k, Inl e))"
      using assms(1) md by (cases "lexists d out") (simp_all add: publish_report_def Let_def)
    obtain k x where kx: "?run = (k, x)" by fastforce
    have "case res of Inr u \<Rightarrow> g = published env r out d | Inl e \<Rightarrow> failed_publication env r ?stg ?bak out d g"
    proof (cases x)
      case (Inl e)
      with res kx stage_removed [OF assms(4) stg bak] show ?thesis by simp
    next
      case (Inr u)
      then obtain h where "fill_stage env r ?stg (d(?stg \<mapsto> NDir 0x1C0)) = (h, Inr ())"
        "swap_in env ?stg ?bak out h = (k, Inr ())" using kx by (auto simp: bindS_Inr)
      from staged_published [OF assms(4) stg bak this] res kx Inr show ?thesis by simp
    qed
    with par True ex show ?thesis by blast
  qed
qed

text \<open>
  Claim C10. Every way a publication can end, from the file system \<open>d\<close> with the missing parent
  directories made. A run that succeeds leaves exactly the two new files at the output and
  everything outside it as it was. A run that reports an error leaves everything as it was,
  an existing report included, but for what the removal of its stage could not remove; with
  two exceptions (\<open>failed_publication\<close>): when the new report cannot be moved in and the old one
  cannot be moved back, the old report is complete under the backup's name and nothing is at
  the output; and when the backup cannot be removed completely, the new report is published
  although an error is reported. An existing directory is touched only when it holds a report
  of this tool. The two temporary names are fresh.
\<close>

theorem publish_all_or_nothing:
  assumes "publish_report env marker r out f = (g, res)" and "wf_fs f" and "out \<noteq> []"
    and "siblings (butlast out @ [stage_name env]) (butlast out @ [backup_name env]) out"
    and "f (butlast out @ [stage_name env]) = None" and "f (butlast out @ [backup_name env]) = None"
  shows "\<exists>d. with_parents (butlast out) f d \<and>
    (res = Inr () \<or> \<not> same_but (stage_left env) (butlast out @ [stage_name env]) d g \<longrightarrow>
       (lexists f out \<longrightarrow> output_is_ours (link_fuel env) d marker out = Inr True)) \<and>
    (case res of
       Inr u \<Rightarrow> g = published env r out d
     | Inl e \<Rightarrow> failed_publication env r (butlast out @ [stage_name env]) (butlast out @ [backup_name env]) out d g)"
  using publish_effect [OF assms] .

text \<open>
  A directory strictly above an input tree is accepted as the output (when it is a
  directory, reached without a symbolic link, whose name is not that of a partial download,
  and neither it nor a directory above it is an input), and a publication that succeeds there
  deletes the input: it replaces the output directory as a whole.
\<close>

theorem publication_erases_input_below_output:
  assumes "\<not> is_link h out" and "canonical h out = Inr out" and "\<not> is_partial (name_of out)" and "out \<noteq> []"
    and "is_dir (h_fs h) out" and "mapR (canonical h) eze4 = Inr es"
    and "list_all (\<lambda>x. \<not> prefix x out) (roots @ es)"
    and "r \<in> set roots" and "prefix out r" and "r \<noteq> out @ [''comparison.json'']" and "r \<noteq> out @ [''comparison.md'']"
    and "publish_report env marker rep out (h_fs h) = (g, Inr u)" and "wf_fs (h_fs h)"
    and "siblings (butlast out @ [stage_name env]) (butlast out @ [backup_name env]) out"
    and "h_fs h (butlast out @ [stage_name env]) = None" and "h_fs h (butlast out @ [backup_name env]) = None"
  shows "validate_output h out roots eze4 = Inr out \<and> g r = None"
proof
  show "validate_output h out roots eze4 = Inr out"
    using assms(1-7) by (simp add: validate_output_def reject_link_def list_ex_iff list_all_iff)
  have "r \<noteq> out" using assms(7,8) by (auto simp: list_all_iff)
  obtain d where "g = published env rep out d" using publish_effect [OF assms(12,13,4,14-16)] by auto
  with assms(9-11) \<open>r \<noteq> out\<close> show "g r = None" by (auto simp: published_def)
qed

section \<open>Witnesses\<close>

definition wit_fs :: fs where
  "wit_fs p =
     (if p = [] \<or> p = [''o''] \<or> p = [''o'', ''t''] then Some (NDir 0)
      else if p = [''o'', ''comparison.json''] then Some (NFile [] 0) else None)"

definition wit_host :: host where
  "wit_host = \<lparr>h_fs = wit_fs, h_list = (\<lambda>p. Special), h_fuel = 9, h_room = 400\<rparr>"

definition wit_env :: publish_env where
  "wit_env = \<lparr>stage_name = ''s'', backup_name = ''b'', stage_made = True, json_written = None, md_written = None,
     moved_out = True, moved_in = True, moved_back = True, backup_removed = None, stage_left = (\<lambda>p. False), link_fuel = 9,
     umask_dir = 0, umask_file = 0\<rparr>"

definition wit_marker :: json_read where
  "wit_marker = Json (PDict [(''tool'', PStr ''osrc-tree-compare''), (''schema_version'', PInt 1)])"

lemma wit_basic:
  "wf_fs wit_fs" "siblings (butlast [''o''] @ [stage_name wit_env]) (butlast [''o''] @ [backup_name wit_env]) [''o'']"
  "wit_fs (butlast [''o''] @ [stage_name wit_env]) = None" "wit_fs (butlast [''o''] @ [backup_name wit_env]) = None"
  "wit_fs = h_fs wit_host"
  by (auto simp: wf_fs_def wit_fs_def wit_env_def wit_host_def siblings_def is_dir_def)

lemma wit_publish: "\<exists>g. publish_report wit_env wit_marker \<lparr>json_bytes = [], md_bytes = []\<rparr> [''o''] wit_fs = (g, Inr ())"
proof -
  have "output_is_ours 9 wit_fs wit_marker [''o''] = Inr True"
    by (simp add: output_is_ours_def wit_fs_def wit_marker_def is_file_def eval_nat_numeral)
  then show ?thesis
    by (simp add: publish_report_def wit_env_def fill_stage_def swap_in_def sysS_def writeS_def drop_backup_def bindS_eq Let_def
        is_dir_def wit_fs_def [of "[]"] split: prod.splits)
qed

lemma wit_output: "\<not> is_link wit_host [''o'']" "canonical wit_host [''o''] = Inr [''o'']" "\<not> is_partial (name_of [''o''])"
  "is_dir (h_fs wit_host) [''o'']"
  by (simp_all add: is_link_def canonical_def wit_host_def wit_fs_def eval_nat_numeral is_partial_def name_of_def
      part_suffix_def ends_with_def is_dir_def)

theorem publish_all_or_nothing_witness:
  "fst (publish_report wit_env wit_marker \<lparr>json_bytes = [], md_bytes = []\<rparr> [''o''] wit_fs) [''o'', ''comparison.md'']
     = Some (NFile [] 0)"
proof -
  obtain g where g: "publish_report wit_env wit_marker \<lparr>json_bytes = [], md_bytes = []\<rparr> [''o''] wit_fs = (g, Inr ())"
    using wit_publish by blast
  from publish_all_or_nothing [OF this wit_basic(1) _ wit_basic(2-4)] g show ?thesis
    by (auto simp: published_def wit_env_def)
qed

theorem publication_erases_input_below_output_witness:
  "wit_fs [''o'', ''t''] \<noteq> None \<and> validate_output wit_host [''o''] [[''o'', ''t''], [''u'']] [] = Inr [''o''] \<and>
   fst (publish_report wit_env wit_marker \<lparr>json_bytes = [], md_bytes = []\<rparr> [''o''] wit_fs) [''o'', ''t''] = None"
proof -
  obtain g where g: "publish_report wit_env wit_marker \<lparr>json_bytes = [], md_bytes = []\<rparr> [''o''] wit_fs = (g, Inr ())"
    using wit_publish by blast
  note wit = wit_basic [unfolded wit_basic(5)]
  have "validate_output wit_host [''o''] [[''o'', ''t''], [''u'']] [] = Inr [''o''] \<and> g [''o'', ''t''] = None"
    by (rule publication_erases_input_below_output
        [OF wit_output(1-3) _ wit_output(4) _ _ _ _ _ _ g [unfolded wit_basic(5)] wit(1) wit_basic(2) wit(3,4), where es = "[]"])
      simp_all
  with g show ?thesis by (simp add: wit_fs_def)
qed

definition wit_facts :: "string list \<Rightarrow> dts_facts" where
  "wit_facts cs = \<lparr>compatibles = cs, hw_revision = None\<rparr>"

definition wit_eze4 :: eze4_input where
  "wit_eze4 = \<lparr>ez_path = [], ez_display = ''d'', ez_kind = ''dts'', ez_facts = wit_facts [''a'']\<rparr>"

lemma wit_pick: "m_path (pick_dts_candidate wit_eze4 [(''x'', wit_facts [''a'']), (''y'', wit_facts [])]) = Some ''x''"
  by code_simp

theorem pick_names_single_best_witness:
  "(\<exists>facts. best_sources wit_eze4 [(''x'', wit_facts [''a'']), (''y'', wit_facts [])] = {(''x'', facts)})"
proof -
  have "distinct (map fst [(''x'', wit_facts [''a'']), (''y'', wit_facts [])])" by simp
  from pick_names_single_best [OF this, of wit_eze4 "''x''"] wit_pick show ?thesis by blast
qed

end
