(* ===== verification/Osrc_Json.thy ===== *)
theory Osrc_Json
  imports Osrc_Report
begin

text \<open>
  \<open>tools/osrc_tree_compare.py\<close>, fourth part: the report as the JSON value that is written and
  as Markdown. The Markdown text holds characters above 255, so it is modelled as the UTF-8
  bytes of the file; \<open>enc\<close> encodes a string of the model. The text of an exception is the
  parameter \<open>err\<close>.
\<close>

section \<open>The JSON value\<close>

definition category_text :: "category \<Rightarrow> string" where
  "category_text c = (case c of Dts_Files \<Rightarrow> ''dts'' | Driver_Files \<Rightarrow> ''drivers''
     | Config_Files \<Rightarrow> ''configs'' | Build_Files \<Rightarrow> ''build_scripts'')"

definition path_text :: "path \<Rightarrow> string" where "path_text p = ''/'' @ posix p"

definition num :: "nat \<Rightarrow> pyval" where "num n = PInt (int n)"

definition record_json :: "file_record \<Rightarrow> pyval" where
  "record_json r = PDict [(''path'', PStr (fr_path r)), (''size'', num (fr_size r)), (''sha256'', PStr (fr_sha256 r))]"

definition git_json :: "git_state \<Rightarrow> pyval" where
  "git_json g = (case g of
      No_Git \<Rightarrow> PDict [(''present'', PBool False)]
    | Git commit dirty \<Rightarrow> PDict [(''present'', PBool True), (''commit'', PStr commit),
        (''dirty'', case dirty of None \<Rightarrow> PNone | Some b \<Rightarrow> PBool b)])"

definition snapshot_json :: "snapshot \<Rightarrow> pyval" where
  "snapshot_json sn =
     (let st = sn_inventory sn in PDict
        [(''label'', PStr (sn_label sn)), (''root'', PStr (path_text (sn_root sn))),
         (''file_count'', num (file_count st)), (''ignored_partial_files'', num (partial_count st)),
         (''ignored_symlinks'', num (symlink_count st)), (''git'', git_json (sn_git sn)),
         (''categories'', PDict (map (\<lambda>c. (category_text c, PDict
            [(''count'', num (length (categories st c))),
             (''files'', PList (map (\<lambda>p. record_json (the (map_of (categories st c) p)))
                (sort (map fst (categories st c)))))])) category_names))])"

definition strs :: "string list \<Rightarrow> pyval" where "strs ss = PList (map PStr ss)"

definition diff_json :: "category_diff \<Rightarrow> pyval" where
  "diff_json d = PDict
     [(''u3_count'', num (u3_count d)), (''u11_count'', num (u11_count d)),
      (''common_count'', num (common_count d)), (''unchanged_count'', num (unchanged_count d)),
      (''u3_only'', strs (u3_only d)), (''u11_only'', strs (u11_only d)),
      (''changed'', PList (map (\<lambda>(p, a, b). PDict
         [(''path'', PStr p), (''u3'', record_json a), (''u11'', record_json b)]) (changed d)))]"

definition eze4_json :: "eze4_input \<Rightarrow> pyval" where
  "eze4_json ez = PDict
     [(''path'', PStr (path_text (ez_path ez))), (''display'', PStr (ez_display ez)), (''kind'', PStr (ez_kind ez)),
      (''compatibles'', strs (compatibles (ez_facts ez))),
      (''hw_revision'', case hw_revision (ez_facts ez) of None \<Rightarrow> PNone | Some (s, e) \<Rightarrow> PList [PInt s, PInt e])]"

definition unsupported_json :: "path \<Rightarrow> pyval" where
  "unsupported_json p = PDict [(''path'', PStr (path_text p)),
     (''reason'', PStr ''binary DTB; provides decompiled DTS for semantic comparison'')]"

definition match_json :: "dts_match \<Rightarrow> pyval" where
  "match_json m = PDict
     [(''path'', case m_path m of None \<Rightarrow> PNone | Some p \<Rightarrow> PStr p), (''confidence'', PStr (m_confidence m)),
      (''reason'', PStr (m_reason m)),
      (''candidates'', PList (map (\<lambda>(p, score, reason). PDict
         [(''path'', PStr p), (''score'', num score), (''reason'', PStr reason)]) (m_candidates m)))]"

definition semantic_status :: "semantic \<Rightarrow> string" where
  "semantic_status x = (case x of Unmapped \<Rightarrow> ''UNMAPPED'' | Sem_Status st eq d u p \<Rightarrow> st | _ \<Rightarrow> ''ERROR'')"

definition semantic_json :: "(semantic \<Rightarrow> string) \<Rightarrow> semantic \<Rightarrow> pyval" where
  "semantic_json err x =
     (case x of
        Unmapped \<Rightarrow> PDict [(''status'', PStr ''UNMAPPED''), (''equivalent'', PNone)]
      | Sem_Status st eq d u p \<Rightarrow> PDict
          [(''status'', PStr st), (''equivalent'', PBool eq), (''differences'', num d), (''unresolved'', num u),
           (''phandle_renumbered'', num p)]
      | _ \<Rightarrow> PDict [(''status'', PStr ''ERROR''), (''equivalent'', PNone), (''error'', PStr (err x))])"

definition row_json :: "(semantic \<Rightarrow> string) \<Rightarrow> dts_row \<Rightarrow> pyval" where
  "row_json err r = PDict
     [(''eze4'', eze4_json (r_eze4 r)), (''u3'', match_json (r_u3 r)), (''u11'', match_json (r_u11 r)),
      (''u3_u11'', semantic_json err (r_u3_u11 r)), (''u3_eze4'', semantic_json err (r_u3_eze4 r)),
      (''u11_eze4'', semantic_json err (r_u11_eze4 r))]"

definition report_json :: "(semantic \<Rightarrow> string) \<Rightarrow> report \<Rightarrow> pyval" where
  "report_json err rep = PDict
     [(''tool'', PStr ''osrc-tree-compare''), (''schema_version'', PInt 1),
      (''inputs'', PDict [(''u3'', snapshot_json (rp_u3 rep)), (''u11'', snapshot_json (rp_u11 rep))]),
      (''categories'', PDict (map (\<lambda>(c, d). (category_text c, diff_json d)) (rp_categories rep))),
      (''eze4'', PDict [(''dts'', PList (map eze4_json (rp_eze4 rep))),
         (''unsupported'', PList (map unsupported_json (rp_unsupported rep)))]),
      (''dts_matrix'', PList (map (row_json err) (rp_matrix rep)))]"

section \<open>Markdown\<close>

definition enc :: "string \<Rightarrow> string" where "enc s = concat (map utf8_char s)"

definition md_cell :: "string \<Rightarrow> string" where
  "md_cell s = enc (concat (map (\<lambda>c. if c = CHR ''|'' then [backslash, c] else if c = newline then '' '' else [c]) s))"

definition code :: "string \<Rightarrow> string" where "code s = [CHR 0x60] @ s @ [CHR 0x60]"

text \<open>The arrow and the ellipsis.\<close>

definition both_ways :: string where "both_ways = [CHR 0xE2, CHR 0x86, CHR 0x94]"

definition ellipsis :: string where "ellipsis = [CHR 0xE2, CHR 0x80, CHR 0xA6]"

definition table_row :: "string list \<Rightarrow> string" where
  "table_row cells = ''| '' @ join '' | '' cells @ '' |''"

definition tree_line :: "snapshot \<Rightarrow> string" where
  "tree_line sn = table_row
     [code (md_cell (sn_label sn)), code (md_cell (path_text (sn_root sn))),
      code (md_cell (case sn_git sn of No_Git \<Rightarrow> ''-'' | Git commit dirty \<Rightarrow> commit)),
      fmt_nat (file_count (sn_inventory sn)), fmt_nat (partial_count (sn_inventory sn)),
      fmt_nat (symlink_count (sn_inventory sn))]"

definition component_line :: "category \<times> category_diff \<Rightarrow> string" where
  "component_line cd = (case cd of (c, d) \<Rightarrow> table_row
     [code (category_text c), fmt_nat (u3_count d), fmt_nat (u11_count d), fmt_nat (length (u3_only d)),
      fmt_nat (length (u11_only d)), fmt_nat (length (changed d)), fmt_nat (unchanged_count d)])"

definition detail_lines :: "nat \<Rightarrow> string \<times> string list \<Rightarrow> string list" where
  "detail_lines limit tv = (case tv of (title, vs) \<Rightarrow>
     if vs = [] then []
     else [''- **'' @ title @ ''** ('' @ fmt_nat (length vs) @ ''):''] @
       map (\<lambda>v. ''  - '' @ code (md_cell v)) (take limit vs) @
       flag (limit < length vs) (''  - '' @ ellipsis @ '' and '' @ fmt_nat (length vs - limit) @ '' more (see JSON).''))"

definition component_detail :: "nat \<Rightarrow> category \<times> category_diff \<Rightarrow> string list" where
  "component_detail limit cd = (case cd of (c, d) \<Rightarrow>
     if u3_only d = [] \<and> u11_only d = [] \<and> changed d = [] then []
     else [[], ''### Detail '' @ code (category_text c), []] @
       concat (map (detail_lines limit)
         [(''U3 only'', u3_only d), (''U11 only'', u11_only d), (''Changed'', map fst (changed d))]))"

definition matrix_line :: "dts_row \<Rightarrow> string" where
  "matrix_line r =
     (let shown = \<lambda>m. code (md_cell (case m_path m of None \<Rightarrow> ''-'' | Some p \<Rightarrow> if p = [] then ''-'' else p))
            @ '' ('' @ m_confidence m @ '')''
      in table_row [code (md_cell (ez_display (r_eze4 r))), shown (r_u3 r), shown (r_u11 r),
           semantic_status (r_u3_u11 r), semantic_status (r_u3_eze4 r), semantic_status (r_u11_eze4 r)])"

definition matrix_lines :: "report \<Rightarrow> string list" where
  "matrix_lines rep =
     (if rp_eze4 rep = []
      then [''No EZE4 DTS/DTSI found. Tree comparison remains valid; add '' @ code ''--eze4-dir'' @
            '' when decompiled DTS exist.'']
      else [table_row [''EZE4'', ''U3'', ''U11'', ''U3'' @ both_ways @ ''U11'', ''U3'' @ both_ways @ ''EZE4'',
              ''U11'' @ both_ways @ ''EZE4''], ''|---|---|---|---|---|---|'']
           @ map matrix_line (rp_matrix rep))"

definition unsupported_lines :: "path list \<Rightarrow> string list" where
  "unsupported_lines ps =
     (if ps = [] then []
      else [[], ''Binary DTBs detected but not compared semantically:'', []] @
        map (\<lambda>p. ''- '' @ code (md_cell (path_text p)) @
          '': binary DTB; provides decompiled DTS for semantic comparison'') ps)"

definition render_report :: "report \<Rightarrow> nat \<Rightarrow> string" where
  "render_report rep limit = join [newline]
     ([''# OSRC U3 '' @ both_ways @ '' U11 Comparison'', [],
       ''Host-only report generated by '' @ code ''tools/osrc_tree_compare.py'' @ ''. Inputs are read'',
       ''without modifying them; '' @ code ''.part'' @ '' files are ignored and no incomplete download is'',
       ''expected.'', [], ''## Inputs'', [],
       ''| tree | root | Git commit | files | ignored '' @ code ''.part'' @ '' | ignored links |'',
       ''|---|---|---|---:|---:|---:|'']
      @ map tree_line [rp_u3 rep, rp_u11 rep] @
      [[], ''## Inventory by Component'', [],
       ''| component | U3 | U11 | U3 only | U11 only | changed | unchanged |'',
       ''|---|---:|---:|---:|---:|---:|---:|'']
      @ map component_line (rp_categories rep)
      @ concat (map (component_detail limit) (rp_categories rep)) @
      [[], ''## DTS Matrix U3 '' @ both_ways @ '' U11 '' @ both_ways @ '' EZE4'', []]
      @ matrix_lines rep @ unsupported_lines (rp_unsupported rep) @
      [[], ''The '' @ code ''INCONCLUSIVE'' @ ''/'' @ code ''DIFFERENT (INCOMPLETE)'' @ '' states do not prove equivalence.'',
       ''The DTS mapping heuristic only prioritizes candidates by '' @ code ''compatible'' @ '' and path;'',
       ''review or pin ambiguous pairs with '' @ code ''--dts-map'' @ '' before porting changes.'', []])"

end
