(* ===== verification/Osrc_Subsystems.thy ===== *)
theory Osrc_Subsystems
  imports Osrc_Json Osrc_Properties
begin

text \<open>
  \<open>tools/osrc_subsystem_summary.py\<close>: the changed paths of a \<open>comparison.json\<close> sorted into the
  subsystems of the bring-up. The input is any JSON value; each operation on it raises what
  Python raises.
\<close>

section \<open>The subsystems\<close>

definition re_from :: "rx list \<Rightarrow> rx" where "re_from rs = seqs (Line_Start # rs)"

text \<open>\<open>SUBSYSTEMS\<close>: the name, the expression as written and the expression.\<close>

definition subsystems :: "(string \<times> string \<times> rx) list" where
  "subsystems =
     [(''device_tree_s5e8835_x510'', ''^arch/arm64/boot/dts/(?:exynos/.*s5e8835|samsung/gts9fewifi)/'',
        re_from [lit ''arch/arm64/boot/dts/'', Alt (seqs [lit ''exynos/'', Many dot, lit ''s5e8835''])
          (lit ''samsung/gts9fewifi''), lit ''/'']),
      (''psci_gic_timers'', ''^(?:arch/arm64/(?:kernel/(?:psci|time)|kvm)/?|drivers/(?:firmware/psci|irqchip|clocksource)/)'',
        re_from [Alt
          (seqs [lit ''arch/arm64/'', Alt (seqs [lit ''kernel/'', Alt (lit ''psci'') (lit ''time'')]) (lit ''kvm''), opt (lit ''/'')])
          (seqs [lit ''drivers/'', alts [lit ''firmware/psci'', lit ''irqchip'', lit ''clocksource''], lit ''/''])]),
      (''cmu_clocks'', ''^(?:drivers/clk/samsung/|drivers/soc/samsung/cal-if/)'',
        re_from [Alt (lit ''drivers/clk/samsung/'') (lit ''drivers/soc/samsung/cal-if/'')]),
      (''pinctrl_gpio_eint'', ''^drivers/(?:pinctrl/samsung|gpio)/'',
        re_from [lit ''drivers/'', Alt (lit ''pinctrl/samsung'') (lit ''gpio''), lit ''/'']),
      (''pmu_acpm_power_domains'', ''^drivers/soc/samsung/(?:acpm|exynos-pm|exynos-pd|cal-if)/'',
        re_from [lit ''drivers/soc/samsung/'', alts [lit ''acpm'', lit ''exynos-pm'', lit ''exynos-pd'', lit ''cal-if''], lit ''/'']),
      (''sysmmu_iommu'', ''^drivers/iommu/samsung/'', re_from [lit ''drivers/iommu/samsung/'']),
      (''ufs_phy_fmp'', ''^drivers/scsi/ufs/'', re_from [lit ''drivers/scsi/ufs/'']),
      (''usb_dwc3_typec'', ''^drivers/usb/'', re_from [lit ''drivers/usb/'']),
      (''display_dsim_panel'', ''^drivers/gpu/drm/samsung/'', re_from [lit ''drivers/gpu/drm/samsung/'']),
      (''touchscreen_wacom_pogo'', ''^drivers/input/(?:touchscreen|wacom|sec_input)/'',
        re_from [lit ''drivers/input/'', alts [lit ''touchscreen'', lit ''wacom'', lit ''sec_input''], lit ''/'']),
      (''gpu_mali'', ''^drivers/gpu/arm/'', re_from [lit ''drivers/gpu/arm/'']),
      (''wifi_bt_scsc'', ''^drivers/(?:misc/samsung/scsc(?:_bt)?|net/wireless/scsc)/'',
        re_from [lit ''drivers/'', Alt (seqs [lit ''misc/samsung/scsc'', opt (lit ''_bt'')]) (lit ''net/wireless/scsc''), lit ''/'']),
      (''battery_pmic_charging'', ''^drivers/(?:battery|mfd/(?:sm|samsung/pmic)|regulator/samsung/pmic)/'',
        re_from [lit ''drivers/'', alts [lit ''battery'', seqs [lit ''mfd/'', Alt (lit ''sm'') (lit ''samsung/pmic'')],
          lit ''regulator/samsung/pmic''], lit ''/'']),
      (''thermal'', ''^drivers/thermal/samsung/'', re_from [lit ''drivers/thermal/samsung/'']),
      (''build_toolchain'', ''^(?:Makefile$|Kbuild$|build'' @ [backslash] @ ''.config|build.*'' @ [backslash] @ ''.sh$|arch/arm64/Makefile$)'',
        re_from [alts [seqs [lit ''Makefile'', Line_End], seqs [lit ''Kbuild'', Line_End], lit ''build.config'',
          seqs [lit ''build'', Many dot, lit ''.sh'', Line_End], seqs [lit ''arch/arm64/Makefile'', Line_End]]])]"

section \<open>Reading the comparison\<close>

definition get_or :: "pyval \<Rightarrow> string \<Rightarrow> pyval \<Rightarrow> (pyexc, pyval) res" where
  "get_or v k d = (case v of
      PDict kvs \<Rightarrow> Inr (case map_of kvs k of None \<Rightarrow> d | Some x \<Rightarrow> x)
    | _ \<Rightarrow> Inl AttributeError)"

text \<open>Iteration: a list, the keys of a dict, the characters of a string.\<close>

definition py_iter :: "pyval \<Rightarrow> (pyexc, pyval list) res" where
  "py_iter v = (case v of
      PList xs \<Rightarrow> Inr xs | PDict kvs \<Rightarrow> Inr (map (\<lambda>kv. PStr (fst kv)) kvs)
    | PStr s \<Rightarrow> Inr (map (\<lambda>c. PStr [c]) s) | _ \<Rightarrow> Inl TypeError)"

definition hashable :: "pyval \<Rightarrow> bool" where
  "hashable v = (case v of PList xs \<Rightarrow> False | PDict kvs \<Rightarrow> False | _ \<Rightarrow> True)"

definition item_path :: "pyval \<Rightarrow> (pyexc, pyval) res" where
  "item_path item =
     bindR (case item of
        PDict kvs \<Rightarrow> (case map_of kvs ''path'' of None \<Rightarrow> Inl KeyError | Some v \<Rightarrow> Inr v)
      | _ \<Rightarrow> Inr item) (\<lambda>v. guardR (hashable v) TypeError (Inr v))"

definition category_paths :: "string \<Rightarrow> pyval \<Rightarrow> (pyexc, pyval list) res" where
  "category_paths state cat = bindR (get_or cat state (PList [])) (\<lambda>v. bindR (py_iter v) (mapR item_path))"

definition paths_for_state :: "pyval \<Rightarrow> string \<Rightarrow> (pyexc, pyval list) res" where
  "paths_for_state data state =
     bindR (get_or data ''categories'' (PDict [])) (\<lambda>cats. case cats of
        PDict kvs \<Rightarrow> bindR (mapR (\<lambda>kv. category_paths state (snd kv)) kvs) (\<lambda>xss. Inr (concat xss))
      | _ \<Rightarrow> Inl AttributeError)"

section \<open>The summary\<close>

definition states :: "string list" where "states = [''changed'', ''u3_only'', ''u11_only'']"

record subsystem =
  ss_name :: string
  ss_pattern :: string
  ss_paths :: "(string \<times> string list) list"

text \<open>\<open>search\<close> refuses what is not a string.\<close>

definition as_text :: "pyval \<Rightarrow> (pyexc, string) res" where
  "as_text v = (case v of PStr s \<Rightarrow> Inr s | _ \<Rightarrow> Inl TypeError)"

definition subsystem_of :: "(string \<times> string list) list \<Rightarrow> string \<times> string \<times> rx \<Rightarrow> subsystem" where
  "subsystem_of by_state entry = (case entry of (name, expression, re) \<Rightarrow>
     \<lparr>ss_name = name, ss_pattern = expression,
      ss_paths = map (\<lambda>(state, ps). (state, sorted_set (filter (rx_search re) ps))) by_state\<rparr>)"

definition build_summary :: "pyval \<Rightarrow> (pyexc, subsystem list) res" where
  "build_summary data =
     bindR (mapR (paths_for_state data) states) (\<lambda>vss.
     bindR (mapR (mapR as_text) vss) (\<lambda>pss.
     Inr (map (subsystem_of (zip states pss)) subsystems)))"

definition paths_in :: "subsystem \<Rightarrow> string \<Rightarrow> string list" where
  "paths_in s state = (case map_of (ss_paths s) state of None \<Rightarrow> [] | Some ps \<Rightarrow> ps)"

definition summary_json :: "subsystem list \<Rightarrow> pyval" where
  "summary_json ss = PDict
     [(''schema_version'', PInt 1), (''source'', PStr ''comparison.json''),
      (''subsystems'', PDict (map (\<lambda>s. (ss_name s, PDict
         [(''pattern'', PStr (ss_pattern s)),
          (''counts'', PDict (map (\<lambda>(state, ps). (state, num (length ps))) (ss_paths s))),
          (''paths'', PDict (map (\<lambda>(state, ps). (state, strs ps)) (ss_paths s)))])) ss))]"

section \<open>Markdown\<close>

definition arrow :: string where "arrow = [CHR 0xE2, CHR 0x86, CHR 0x92]"

definition dash :: string where "dash = [CHR 0xE2, CHR 0x80, CHR 0x94]"

definition summary_line :: "subsystem \<Rightarrow> string" where
  "summary_line s =
     (let examples = take 3 (paths_in s ''changed'' @ paths_in s ''u11_only'');
          rendered = join ''<br>'' (map (\<lambda>p. code (enc p)) examples)
      in ''| '' @ code (ss_name s) @ '' | '' @ fmt_nat (length (paths_in s ''changed'')) @ '' | '' @
         fmt_nat (length (paths_in s ''u3_only'')) @ '' | '' @ fmt_nat (length (paths_in s ''u11_only'')) @ '' | '' @
         (if rendered = [] then dash else rendered) @ '' |'')"

definition summary_markdown :: "subsystem list \<Rightarrow> string" where
  "summary_markdown ss = join [newline]
     ([''# U3 '' @ arrow @ '' U11 Changes Summary by Subsystem'', [],
       ''The numbers count paths whose content/presence changes. They do not prove'',
       ''hardware compatibility on their own; they must be read alongside the DTS semantic diff.'', [],
       ''| subsystem | changed | U3 only | U11 only | examples |'', ''|---|---:|---:|---:|---|'']
      @ map summary_line ss @ [[]])"

section \<open>Writing the files\<close>

record write_env =
  temp_name :: string
  temp_made :: bool
  text_written :: bool
  renamed :: bool
  new_dirs :: nat
  temp_mode :: nat

text \<open>\<open>atomic_write\<close>: the result tells whether it returned; otherwise an \<open>OSError\<close> left it.\<close>

definition atomic_write :: "write_env \<Rightarrow> path \<Rightarrow> byte list \<Rightarrow> fs \<Rightarrow> fs \<times> bool" where
  "atomic_write env p bs f =
     (case make_dirs [] (butlast p) (new_dirs env) (new_dirs env) f of
        (g, False) \<Rightarrow> (g, False)
      | (g, True) \<Rightarrow>
          (let t = butlast p @ [temp_name env] in
           if \<not> temp_made env then (g, False)
           else if \<not> text_written env then (g(t := None), False)
           else if is_dir g p \<or> \<not> renamed env then (g(t := None), False)
           else (g(p \<mapsto> NFile bs (temp_mode env), t := None), True)))"

text \<open>\<open>main\<close> behind the arguments: the two files, the JSON one first.\<close>

definition summary_main ::
  "(pyval \<Rightarrow> byte list) \<Rightarrow> write_env \<Rightarrow> write_env \<Rightarrow> path \<Rightarrow> path \<Rightarrow> (pyexc, pyval) res \<Rightarrow> fs \<Rightarrow> fs \<times> bool" where
  "summary_main dumps env1 env2 json_out md_out data f =
     (case bindR data build_summary of
        Inl e \<Rightarrow> (f, False)
      | Inr ss \<Rightarrow> (case atomic_write env1 json_out (dumps (summary_json ss)) f of
            (g, False) \<Rightarrow> (g, False)
          | (g, True) \<Rightarrow> atomic_write env2 md_out (map (\<lambda>c. of_char c) (summary_markdown ss)) g))"

section \<open>A comparison and its summary\<close>

text \<open>The paths of a state over all categories of a report.\<close>

definition state_paths :: "report \<Rightarrow> string \<Rightarrow> string list" where
  "state_paths rep state = concat (map (\<lambda>(c, d).
     if state = ''changed'' then map fst (changed d) else if state = ''u3_only'' then u3_only d else u11_only d)
       (rp_categories rep))"

lemma item_path_simps [simp]:
  "item_path (PStr s) = Inr (PStr s)"
  "item_path (PDict ((''path'', PStr s) # kvs)) = Inr (PStr s)"
  by (simp_all add: item_path_def hashable_def)

lemma mapR_item_strs [simp]: "mapR item_path (map PStr ss) = Inr (map PStr ss)"
  by (induction ss) auto

lemma mapR_item_changed:
  "mapR item_path (map (\<lambda>(p, a, b). PDict [(''path'', PStr p), (''u3'', record_json a), (''u11'', record_json b)]) cs)
     = Inr (map PStr (map fst cs))"
  by (induction cs) auto

lemma category_paths_report:
  "state \<in> set states \<Longrightarrow> category_paths state (diff_json d) = Inr (map PStr
     (if state = ''changed'' then map fst (changed d) else if state = ''u3_only'' then u3_only d else u11_only d))"
  by (auto simp: states_def category_paths_def get_or_def diff_json_def py_iter_def strs_def mapR_item_changed)

lemma paths_for_state_report:
  assumes "state \<in> set states"
  shows "paths_for_state (report_json err rep) state = Inr (map PStr (state_paths rep state))"
proof -
  have "mapR (\<lambda>kv. category_paths state (snd kv)) (map (\<lambda>(c, d). (category_text c, diff_json d)) cds) =
      Inr (map (\<lambda>(c, d). map PStr (if state = ''changed'' then map fst (changed d)
        else if state = ''u3_only'' then u3_only d else u11_only d)) cds)" for cds
    using category_paths_report [OF assms] by (induction cds) auto
  then show ?thesis
    by (simp add: paths_for_state_def get_or_def report_json_def state_paths_def map_concat comp_def split_def)
qed

lemma mapR_as_text [simp]: "mapR as_text (map PStr ss) = Inr ss"
  by (induction ss) (auto simp: as_text_def)

lemma set_sorted_set_filter: "sorted_set (filter P xs) = sorted_list_of_set {x \<in> set xs. P x}"
  by (rule sorted_distinct_set_unique) auto

lemma ss_paths_subsystem:
  "paths_in (subsystem_of (zip states [a, b, c]) (name, ex, re)) ''changed'' = sorted_set (filter (rx_search re) a)"
  "paths_in (subsystem_of (zip states [a, b, c]) (name, ex, re)) ''u3_only'' = sorted_set (filter (rx_search re) b)"
  "paths_in (subsystem_of (zip states [a, b, c]) (name, ex, re)) ''u11_only'' = sorted_set (filter (rx_search re) c)"
  by (simp_all add: paths_in_def subsystem_of_def states_def)

lemma build_summary_report:
  "build_summary (report_json err rep) = Inr (map (subsystem_of (zip states (map (state_paths rep) states))) subsystems)"
  by (simp add: build_summary_def states_def paths_for_state_report [unfolded states_def])

text \<open>The paths of a tree in any category.\<close>

definition inventoried :: "snapshot \<Rightarrow> category \<Rightarrow> string set" where
  "inventoried sn c = fst ` set (categories (sn_inventory sn) c)"

lemma category_all: "c \<in> set category_names"
  by (cases c) (simp_all add: category_names_def)

lemma state_paths_report:
  assumes "build_report h u3 u11 ezs uns m = Inr rep"
  shows "set (state_paths rep ''changed'') = {p. \<exists>c. p \<in> inventoried u3 c \<inter> inventoried u11 c \<and>
      \<not> same_hash (categories (sn_inventory u3) c) (categories (sn_inventory u11) c) p}"
    and "set (state_paths rep ''u3_only'') = (\<Union>c. inventoried u3 c - inventoried u11 c)"
    and "set (state_paths rep ''u11_only'') = (\<Union>c. inventoried u11 c - inventoried u3 c)"
proof -
  from assms have cats: "rp_categories rep = map (\<lambda>c. (c, compare_category (categories (sn_inventory u3) c)
      (categories (sn_inventory u11) c))) category_names"
    by (auto simp: build_report_def bindR_Inr_iff)
  have all: "(\<Union>c \<in> set category_names. F c) = (\<Union>c. F c)" for F :: "category \<Rightarrow> string set"
    using category_all by auto
  have ch: "fst ` set (changed (compare_category l r)) = {p \<in> fst ` set l \<inter> fst ` set r. \<not> same_hash l r p}" for l r
    using arg_cong [OF changed_exact [of l r], of set] by simp
  have un: "set (state_paths rep st) = (\<Union>c. set (if st = ''changed'' then map fst (changed (compare_category
      (categories (sn_inventory u3) c) (categories (sn_inventory u11) c)))
      else if st = ''u3_only'' then u3_only (compare_category (categories (sn_inventory u3) c) (categories (sn_inventory u11) c))
      else u11_only (compare_category (categories (sn_inventory u3) c) (categories (sn_inventory u11) c))))" for st
    unfolding all [symmetric] by (simp add: state_paths_def cats)
  show "set (state_paths rep ''changed'') = {p. \<exists>c. p \<in> inventoried u3 c \<inter> inventoried u11 c \<and>
      \<not> same_hash (categories (sn_inventory u3) c) (categories (sn_inventory u11) c) p}"
    unfolding un by (auto simp: ch inventoried_def)
  show "set (state_paths rep ''u3_only'') = (\<Union>c. inventoried u3 c - inventoried u11 c)"
    and "set (state_paths rep ''u11_only'') = (\<Union>c. inventoried u11 c - inventoried u3 c)"
    unfolding un by (auto simp: compare_counts inventoried_def)
qed

text \<open>
  Claim C25. The summary of a comparison never fails on a report of \<open>osrc_tree_compare\<close>, and it
  counts for every subsystem exactly the paths, each once, that the two trees disagree on in
  some category and that match the subsystem's expression.
\<close>

theorem summary_of_comparison:
  assumes "build_report h u3 u11 ezs uns m = Inr rep"
  shows "\<exists>ss. build_summary (report_json err rep) = Inr ss \<and>
    map (\<lambda>s. (ss_name s, paths_in s ''changed'', paths_in s ''u3_only'', paths_in s ''u11_only'')) ss =
    map (\<lambda>(name, ex, re). (name,
        sorted_list_of_set {p. rx_search re p \<and> (\<exists>c. p \<in> inventoried u3 c \<inter> inventoried u11 c \<and>
          \<not> same_hash (categories (sn_inventory u3) c) (categories (sn_inventory u11) c) p)},
        sorted_list_of_set {p. rx_search re p \<and> (\<exists>c. p \<in> inventoried u3 c - inventoried u11 c)},
        sorted_list_of_set {p. rx_search re p \<and> (\<exists>c. p \<in> inventoried u11 c - inventoried u3 c)})) subsystems"
proof -
  note sets = state_paths_report [OF assms]
  let ?z = "zip states (map (state_paths rep) states)"
  have z: "?z = zip states [state_paths rep ''changed'', state_paths rep ''u3_only'', state_paths rep ''u11_only'']"
    by (simp add: states_def)
  have name: "ss_name (subsystem_of b (name, ex, re)) = name" for b name ex re by (simp add: subsystem_of_def)
  show ?thesis
    by (rule exI [of _ "map (subsystem_of ?z) subsystems"], rule conjI, rule build_summary_report,
        unfold map_map comp_def, rule map_cong [OF refl])
      (clarsimp simp: name z ss_paths_subsystem set_sorted_set_filter sets conj_commute)
qed

definition usb_snapshot :: "string \<Rightarrow> snapshot" where
  "usb_snapshot hash = \<lparr>sn_label = ''U3'', sn_root = [],
     sn_inventory = empty_inventory\<lparr>categories := (\<lambda>c. if c = Driver_Files
       then [(''drivers/usb/x'', \<lparr>fr_path = ''drivers/usb/x'', fr_size = 1, fr_sha256 = hash\<rparr>)] else [])\<rparr>,
     sn_git = No_Git\<rparr>"

lemma usb_report: "\<exists>rep. build_report wit_host (usb_snapshot ''a'') (usb_snapshot ''b'') [] [] None = Inr rep"
  by (simp add: build_report_def build_dts_matrix_def source_dts_def usb_snapshot_def)

lemma rows_names:
  "map (\<lambda>s. (ss_name s, F s)) ss = map (\<lambda>(name, ex, re). (name, G name ex re)) xs \<Longrightarrow> map ss_name ss = map fst xs"
proof -
  assume "map (\<lambda>s. (ss_name s, F s)) ss = map (\<lambda>(name, ex, re). (name, G name ex re)) xs"
  then have "map fst (map (\<lambda>s. (ss_name s, F s)) ss) = map fst (map (\<lambda>(name, ex, re). (name, G name ex re)) xs)" by simp
  then show ?thesis by (simp add: comp_def split_def)
qed

theorem summary_of_comparison_witness:
  "\<exists>rep ss. build_report wit_host (usb_snapshot ''a'') (usb_snapshot ''b'') [] [] None = Inr rep \<and>
     build_summary (report_json (\<lambda>x. []) rep) = Inr ss \<and>
     map ss_name ss = map fst subsystems"
proof -
  obtain rep where rep: "build_report wit_host (usb_snapshot ''a'') (usb_snapshot ''b'') [] [] None = Inr rep"
    using usb_report by blast
  from summary_of_comparison [OF rep, of "\<lambda>x. []"] show ?thesis
    using rep by (elim exE conjE) (drule rows_names, intro exI conjI)
qed

end
