(* ===== verification/Py_Lines.thy ===== *)
theory Py_Lines
  imports Py_Text
begin

text \<open>\<open>str.splitlines\<close>, \<open>str.upper\<close> on ASCII, and \<open>math.ceil\<close> of a float product, as the analysers use them.\<close>

definition line_break :: "char \<Rightarrow> bool" where
  "line_break c = (let n = of_char c :: nat in (10 \<le> n \<and> n \<le> 13) \<or> (28 \<le> n \<and> n \<le> 30) \<or> n = 133)"

text \<open>\<open>\\r\\n\<close> is one break; \<open>acc\<close> is the line read so far.\<close>

fun split_lines :: "string \<Rightarrow> string \<Rightarrow> string list" where
  "split_lines acc [] = (if acc = [] then [] else [acc])"
| "split_lines acc (c # cs) =
     (if \<not> line_break c then split_lines (acc @ [c]) cs
      else if c = CHR 0x0D \<and> cs \<noteq> [] \<and> hd cs = CHR 0x0A then acc # split_lines [] (tl cs)
      else acc # split_lines [] cs)"

definition upper_ascii :: "string \<Rightarrow> string" where
  "upper_ascii s = map (\<lambda>c. let n = of_char c :: nat in if 97 \<le> n \<and> n \<le> 122 then char_of (n - 32) else c) s"

text \<open>\<open>math.ceil(fraction * n)\<close> for a float literal and an \<open>int\<close>.\<close>

definition ceil_times :: "rat \<Rightarrow> nat \<Rightarrow> int" where
  "ceil_times fraction n = \<lceil>rnd (rnd fraction * of_nat n)\<rceil>"

text \<open>\<open>round(x, 6)\<close>: the decimal rounding is exact, the result the nearest float.\<close>

fun round6 :: "pyfloat \<Rightarrow> pyfloat" where
  "round6 (Fin x) = float_of_rat (of_int (round_half_even (x * 1000000)) / 1000000)"
| "round6 f = f"

end
