(* ===== verification/Repro_Compare.thy ===== *)
theory Repro_Compare
  imports Keyed_Diff Osrc_Json File_System Py_Lines
begin

text \<open>
  The comparers of two builds: \<open>tools/u11_repro_compare.py\<close> (with its alias
  \<open>tools/repro_compare.py\<close>) over two \<open>dist\<close> directories, and
  \<open>scripts/compare-build-runs.py\<close> over two lists of checksums. A directory is an \<open>entry\<close> as
  in \<open>Osrc_Inventory\<close>; SHA-256 is the parameter \<open>sha\<close>.
\<close>

section \<open>The inventory of a \<open>dist\<close> directory\<close>

definition required :: "string list" where
  "required = [''Image'', ''kernel.config'', ''Module.symvers'', ''System.map'', ''s5e8835.dtb'',
     ''gts9fewifi_eur_open_w00_r00.dtbo'', ''gts9fewifi_eur_open_w00_r01.dtbo'',
     ''gts9fewifi_eur_open_w00_r04.dtbo'', ''modules-root.tar.gz'', ''modules.order'', ''BUILD-METADATA'',
     ''PATCHES.sha256'']"

definition required_metadata :: "(string \<times> string) list" where
  "required_metadata =
     [(''artifact_class'', ''offline-reference-only''), (''flash_authorized'', ''no''),
      (''source_release'', ''X510XXSBDZB4''), (''source_base'', ''X510XXU8DYJ4''),
      (''target_stock'', ''X510XXUCEZE4''), (''kernel_release'', ''5.15.189-android13-3-33478785''),
      (''modules'', ''282''), (''boot_image_created'', ''no''), (''avb_signature_created'', ''no'')]"

text \<open>What ends a run with a message: \<open>ValueError\<close> and \<open>OSError\<close>.\<close>

datatype repro_error = Same_Directory | Not_A_Dist | Same_Run_Id | Read_Error

text \<open>\<open>rglob\<close> does not follow links; directories themselves give nothing.\<close>

fun leaves :: "string list \<Rightarrow> entry \<Rightarrow> (string list \<times> entry) list"
  and leaves_in :: "string list \<Rightarrow> (string \<times> entry) list \<Rightarrow> (string list \<times> entry) list"
where
  "leaves here (Directory es) = leaves_in here es"
| "leaves here e = [(here, e)]"
| "leaves_in here [] = []"
| "leaves_in here ((n, e) # es) = leaves (here @ [n]) e @ leaves_in here es"

definition digest_of :: "(byte list \<Rightarrow> string) \<Rightarrow> file_obs \<Rightarrow> (repro_error, string) res" where
  "digest_of sha obs = (case (lstat_size obs, f_blocks obs) of
      (Some n, Some blocks) \<Rightarrow> Inr (sha (concat blocks)) | _ \<Rightarrow> Inl Read_Error)"

definition take_leaf :: "(byte list \<Rightarrow> string) \<Rightarrow> string list \<times> entry \<Rightarrow>
    (string \<times> string) list \<times> string list \<Rightarrow> (repro_error, (string \<times> string) list \<times> string list) res" where
  "take_leaf sha f st =
     (case f of (parts, e) \<Rightarrow> case e of
        Regular obs \<Rightarrow> bindR (digest_of sha obs) (\<lambda>k. Inr (dict_set (join ''/'' parts) k (fst st), snd st))
      | _ \<Rightarrow> Inr (fst st, snd st @ [join ''/'' parts]))"

definition dist_inventory :: "(byte list \<Rightarrow> string) \<Rightarrow> entry \<Rightarrow> (repro_error, (string \<times> string) list \<times> string list) res" where
  "dist_inventory sha tree = foldR (take_leaf sha) (sort_key fst (leaves [] tree)) ([], [])"

section \<open>The metadata file\<close>

text \<open>\<open>key, value = line.split("=", 1)\<close> for the lines with \<open>=\<close>; a later line wins.\<close>

definition metadata_pair :: "string \<Rightarrow> string \<times> string" where
  "metadata_pair line = (takeWhile (\<lambda>c. c \<noteq> CHR ''='') line, tl (dropWhile (\<lambda>c. c \<noteq> CHR ''='') line))"

definition metadata_values :: "string \<Rightarrow> (string \<times> string) list" where
  "metadata_values t = map metadata_pair (filter (\<lambda>l. CHR ''='' \<in> set l) (split_lines [] t))"

definition metadata_value :: "string \<Rightarrow> string \<Rightarrow> string option" where
  "metadata_value t k = map_of (rev (metadata_values t)) k"

definition metadata_message :: "string \<Rightarrow> string \<times> string \<Rightarrow> string" where
  "metadata_message t kv = (case kv of (k, expected) \<Rightarrow>
     k @ ''='' @ (case metadata_value t k of None \<Rightarrow> ''None'' | Some v \<Rightarrow> py_repr v) @ '', esperado '' @ py_repr expected)"

definition metadata_errors :: "entry \<Rightarrow> (repro_error, string list) res" where
  "metadata_errors tree =
     (case tree of
        Directory es \<Rightarrow> (case map_of es ''BUILD-METADATA'' of
            Some (Regular obs) \<Rightarrow> (case f_text obs of
                None \<Rightarrow> Inl Read_Error
              | Some t \<Rightarrow> Inr (map (metadata_message t)
                  (filter (\<lambda>(k, expected). metadata_value t k \<noteq> Some expected) required_metadata)))
          | _ \<Rightarrow> Inr [''falta BUILD-METADATA regular''])
      | _ \<Rightarrow> Inr [''falta BUILD-METADATA regular''])"

section \<open>The comparison\<close>

definition only_keys :: "(string \<times> 'v) list \<Rightarrow> (string \<times> 'v) list \<Rightarrow> string list" where
  "only_keys l r = filter (\<lambda>k. k \<notin> fst ` set r) (sorted_set (map fst l))"

definition differing_keys :: "(string \<times> string) list \<Rightarrow> (string \<times> string) list \<Rightarrow> string list" where
  "differing_keys l r = filter (\<lambda>k. the (map_of l k) \<noteq> the (map_of r k))
     (filter (\<lambda>k. k \<in> fst ` set r) (sorted_set (map fst l)))"

definition missing_required :: "(string \<times> string) list \<Rightarrow> string list" where
  "missing_required files = filter (\<lambda>n. n \<notin> fst ` set files) (sorted_set required)"

record repro_result =
  first_run :: string
  second_run :: string
  first_dist :: "string list"
  second_dist :: "string list"
  first_file_count :: nat
  second_file_count :: nat
  missing_in_first :: "string list"
  missing_in_second :: "string list"
  only_in_first :: "string list"
  only_in_second :: "string list"
  differing_files :: "string list"
  unsafe_in_first :: "string list"
  unsafe_in_second :: "string list"
  first_metadata_errors :: "string list"
  second_metadata_errors :: "string list"
  reproducible :: bool

text \<open>The name of the directory above a \<open>dist\<close> directory is the run id.\<close>

definition run_id :: "string list \<Rightarrow> string" where
  "run_id p = (case rev p of d # r # rs \<Rightarrow> r | _ \<Rightarrow> [])"

definition compare_dists ::
  "(byte list \<Rightarrow> string) \<Rightarrow> string list \<times> entry option \<Rightarrow> string list \<times> entry option \<Rightarrow> (repro_error, repro_result) res" where
  "compare_dists sha a b =
     (case (a, b) of ((pa, ta), (pb, tb)) \<Rightarrow>
        guardR (pa \<noteq> pb) Same_Directory
          (case (ta, tb) of
             (Some (Directory ea), Some (Directory eb)) \<Rightarrow>
               guardR (run_id pa \<noteq> run_id pb) Same_Run_Id
                 (bindR (dist_inventory sha (Directory ea)) (\<lambda>(fa, ua).
                  bindR (dist_inventory sha (Directory eb)) (\<lambda>(fb, ub).
                  bindR (metadata_errors (Directory ea)) (\<lambda>ma.
                  bindR (metadata_errors (Directory eb)) (\<lambda>mb.
                  Inr \<lparr>first_run = run_id pa, second_run = run_id pb, first_dist = pa, second_dist = pb,
                       first_file_count = length fa, second_file_count = length fb,
                       missing_in_first = missing_required fa, missing_in_second = missing_required fb,
                       only_in_first = only_keys fa fb, only_in_second = only_keys fb fa,
                       differing_files = differing_keys fa fb, unsafe_in_first = ua, unsafe_in_second = ub,
                       first_metadata_errors = ma, second_metadata_errors = mb,
                       reproducible = \<not> (missing_required fa \<noteq> [] \<or> missing_required fb \<noteq> [] \<or> only_keys fa fb \<noteq> []
                         \<or> only_keys fb fa \<noteq> [] \<or> differing_keys fa fb \<noteq> [] \<or> ua \<noteq> [] \<or> ub \<noteq> [] \<or> ma \<noteq> []
                         \<or> mb \<noteq> [])\<rparr>)))))
           | _ \<Rightarrow> Inl Not_A_Dist))"

section \<open>The Markdown report\<close>

definition tick :: "string \<Rightarrow> string" where "tick s = [CHR 0x60] @ s @ [CHR 0x60]"

definition result_section :: "string \<times> string list \<Rightarrow> string list" where
  "result_section ts = (case ts of (title, vs) \<Rightarrow>
     if vs = [] then [] else [''## '' @ title, []] @ map (\<lambda>v. ''- '' @ tick v) vs @ [[]])"

definition repro_markdown :: "repro_result \<Rightarrow> string" where
  "repro_markdown r = join nl
     ([''# Reproducibility of Fixed U11 Build'', [],
       ''- result: '' @ tick (if reproducible r then ''PASS'' else ''FAIL''),
       ''- first run: '' @ tick (first_run r) @ '' ('' @ fmt_nat (first_file_count r) @ '' files)'',
       ''- second run: '' @ tick (second_run r) @ '' ('' @ fmt_nat (second_file_count r) @ '' files)'',
       ''- physical write: '' @ tick ''NO-GO'', []]
      @ concat (map result_section
          [(''Missing in first'', missing_in_first r), (''Missing in second'', missing_in_second r),
           (''Only in first'', only_in_first r), (''Only in second'', only_in_second r),
           (''Differing content'', differing_files r), (''Non-regular types in first'', unsafe_in_first r),
           (''Non-regular types in second'', unsafe_in_second r),
           (''Invalid identity in first'', first_metadata_errors r),
           (''Invalid identity in second'', second_metadata_errors r)])
      @ (if reproducible r
         then [''All published files, including the reproducible tar with the 282'',
               ''modules, are byte-for-byte identical between two clean trees.'', []]
         else []))"

text \<open>The exit status of \<open>main\<close> when both files could be written; 2 for a refused input.\<close>

definition repro_exit :: "(repro_error, repro_result) res \<Rightarrow> nat" where
  "repro_exit r = (case r of Inl e \<Rightarrow> 2 | Inr x \<Rightarrow> if reproducible x then 0 else 1)"

section \<open>Writing the reports\<close>

record repro_env =
  tmp_name :: string
  tmp_made :: bool
  tmp_written :: bool
  dirs_mode :: nat
  file_mode :: nat

text \<open>\<open>atomic_write\<close>: a temporary file takes the place of the report; it is not removed when
  a step behind it fails.\<close>

definition repro_write :: "repro_env \<Rightarrow> path \<Rightarrow> byte list \<Rightarrow> fs \<Rightarrow> fs \<times> bool" where
  "repro_write env p bs f =
     (case make_dirs [] (butlast p) (dirs_mode env) (dirs_mode env) f of
        (g, False) \<Rightarrow> (g, False)
      | (g, True) \<Rightarrow>
          (let t = butlast p @ [tmp_name env] in
           if \<not> tmp_made env then (g, False)
           else if \<not> tmp_written env then (g(t \<mapsto> NFile [] (file_mode env)), False)
           else if is_dir g p then (g(t \<mapsto> NFile bs (file_mode env)), False)
           else (g(p \<mapsto> NFile bs (file_mode env)), True)))"

text \<open>\<open>main\<close>: both reports, then the verdict; \<open>json\<close> renders the result.\<close>

definition repro_main ::
  "(repro_result \<Rightarrow> byte list) \<Rightarrow> repro_env \<Rightarrow> repro_env \<Rightarrow> path \<Rightarrow> path \<Rightarrow> (repro_error, repro_result) res \<Rightarrow> fs \<Rightarrow> fs \<times> nat" where
  "repro_main json env1 env2 json_out md_out r f =
     (case r of
        Inl e \<Rightarrow> (f, 2)
      | Inr x \<Rightarrow> (case repro_write env1 json_out (json x) f of
            (g, False) \<Rightarrow> (g, 2)
          | (g, True) \<Rightarrow> (case repro_write env2 md_out (map (\<lambda>c. of_char c) (enc (repro_markdown x))) g of
                (h, False) \<Rightarrow> (h, 2)
              | (h, True) \<Rightarrow> (h, repro_exit r))))"

section \<open>Lists of checksums\<close>

definition sum_line :: "string \<Rightarrow> (string \<times> string) option" where
  "sum_line line =
     (let s = py_strip line; h = takeWhile (\<lambda>c. \<not> py_space c) s;
          rest = dropWhile py_space (dropWhile (\<lambda>c. \<not> py_space c) s); fn = py_strip rest
      in if rest = [] then None
         else Some (if prefix ''./'' fn then drop 2 fn else fn, h))"

text \<open>Lines end at \<open>\\n\<close>, \<open>\\r\<close> or \<open>\\r\\n\<close>; an empty line gives no entry.\<close>

definition text_lines :: "string \<Rightarrow> string list" where
  "text_lines t = concat (map (split_char CHR 0x0D) (split_char CHR 0x0A t))"

definition parse_sums :: "string option \<Rightarrow> (string \<times> string) list" where
  "parse_sums text =
     (case text of None \<Rightarrow> []
      | Some t \<Rightarrow> fold (\<lambda>l kvs. case sum_line l of None \<Rightarrow> kvs | Some (fn, h) \<Rightarrow> dict_set fn h kvs) (text_lines t) [])"

record run_diff =
  all_names :: "string list"
  matches :: "(string \<times> string) list"
  diffs :: "(string \<times> string \<times> string) list"
  only_a :: "(string \<times> string) list"
  only_b :: "(string \<times> string) list"

definition compare_runs :: "(string \<times> string) list \<Rightarrow> (string \<times> string) list \<Rightarrow> run_diff" where
  "compare_runs a b =
     (let ks = sorted_set (map fst a @ map fst b); va = \<lambda>k. the (map_of a k); vb = \<lambda>k. the (map_of b k);
          both = filter (\<lambda>k. k \<in> fst ` set a \<and> k \<in> fst ` set b) ks
      in \<lparr>all_names = ks, matches = map (\<lambda>k. (k, va k)) (filter (\<lambda>k. va k = vb k) both),
          diffs = map (\<lambda>k. (k, va k, vb k)) (filter (\<lambda>k. va k \<noteq> vb k) both),
          only_a = map (\<lambda>k. (k, va k)) (filter (\<lambda>k. k \<in> fst ` set a \<and> k \<notin> fst ` set b) ks),
          only_b = map (\<lambda>k. (k, vb k)) (filter (\<lambda>k. k \<notin> fst ` set a) ks)\<rparr>)"

definition short_hash :: "string \<Rightarrow> string" where "short_hash h = tick (take 16 h @ ''...'')"

definition run_row :: "string \<Rightarrow> string \<Rightarrow> string \<Rightarrow> string \<Rightarrow> string" where
  "run_row fn a b verdict = ''| '' @ tick fn @ '' | '' @ a @ '' | '' @ b @ '' | **'' @ verdict @ ''** |'' @ nl"

definition run_markdown :: "string \<Rightarrow> string \<Rightarrow> run_diff \<Rightarrow> string" where
  "run_markdown name_a name_b d =
     ''### Reproducibility Comparison: '' @ name_a @ '' vs '' @ name_b @ nl @ nl @
     ''- **Total Files**: '' @ fmt_nat (length (all_names d)) @ nl @
     ''- **Byte-Identical Matches**: '' @ fmt_nat (length (matches d)) @ '' / '' @ fmt_nat (length (all_names d)) @ nl @
     ''- **Differing Files**: '' @ fmt_nat (length (diffs d)) @ nl @ nl @
     ''| Artifact | Hash in '' @ name_a @ '' | Hash in '' @ name_b @ '' | Status |'' @ nl @
     ''| :--- | :--- | :--- | :---: |'' @ nl @
     concat (map (\<lambda>(fn, h). run_row fn (short_hash h) (short_hash h) ''MATCH'') (matches d)) @
     concat (map (\<lambda>(fn, ha, hb). run_row fn (short_hash ha) (short_hash hb) ''DIFF'') (diffs d)) @
     concat (map (\<lambda>(fn, ha). run_row fn (short_hash ha) (tick ''(missing)'') ''ONLY_A'') (only_a d)) @
     concat (map (\<lambda>(fn, hb). run_row fn (tick ''(missing)'') (short_hash hb) ''ONLY_B'') (only_b d)) @ nl"

text \<open>What is printed.\<close>

definition ljust :: "nat \<Rightarrow> string \<Rightarrow> string" where "ljust n s = s @ replicate (n - length s) CHR '' ''"

definition run_print :: "string \<Rightarrow> string \<Rightarrow> run_diff \<Rightarrow> string list" where
  "run_print name_a name_b d =
     (let bar = replicate 70 CHR ''='' in
      [bar, ''BUILD REPRODUCIBILITY COMPARISON: '' @ name_a @ '' vs '' @ name_b, bar,
       ''Total files compared: '' @ fmt_nat (length (all_names d)),
       ''Byte-identical files: '' @ fmt_nat (length (matches d)),
       ''Differing files:      '' @ fmt_nat (length (diffs d)),
       ''Only in '' @ name_a @ '': '' @ fmt_nat (length (only_a d)),
       ''Only in '' @ name_b @ '': '' @ fmt_nat (length (only_b d)), bar] @
      (if matches d = [] then []
       else [nl @ ''Byte-Identical Artifacts (100% Deterministic):''] @
         map (\<lambda>(fn, h). ''  [OK] '' @ ljust 35 fn @ '' : '' @ h) (matches d)) @
      (if diffs d = [] then []
       else [nl @ ''Differing Artifacts:''] @
         concat (map (\<lambda>(fn, ha, hb). [''  [DIFF] '' @ fn @ '':'', ''     A: '' @ ha, ''     B: '' @ hb]) (diffs d))))"

text \<open>\<open>main\<close> behind the arguments: the Markdown file when one is asked for; the status is always 0
  unless writing fails.\<close>

definition runs_main ::
  "string \<Rightarrow> string \<Rightarrow> string option \<Rightarrow> string option \<Rightarrow> path option \<Rightarrow> nat \<Rightarrow> nat \<Rightarrow> fs \<Rightarrow> fs \<times> bool" where
  "runs_main name_a name_b text_a text_b md_out dm fm f =
     (case md_out of
        None \<Rightarrow> (f, True)
      | Some p \<Rightarrow> (case make_dirs [] (butlast p) dm dm f of
            (g, False) \<Rightarrow> (g, False)
          | (g, True) \<Rightarrow> write_file p (map (\<lambda>c. of_char c)
              (run_markdown name_a name_b (compare_runs (parse_sums text_a) (parse_sums text_b)))) fm g))"

section \<open>The shared contract\<close>

lemma the_map_of_eq:
  "k \<in> keys l \<Longrightarrow> k \<in> keys r \<Longrightarrow> the (map_of l k) = the (map_of r k) \<longleftrightarrow> tag_at id l k = tag_at id r k"
  unfolding tag_at_def keys_def option.map_id by (metis map_of_eq_None_iff option.expand)

lemma only_keys_exact: "only_keys l r = sorted_list_of_set (keys l - keys r)"
  unfolding only_keys_def filter_sorted_set by (rule arg_cong [of _ _ sorted_list_of_set]) (auto simp: keys_def)

lemma differing_keys_exact:
  "differing_keys l r = sorted_list_of_set {k \<in> keys l \<inter> keys r. tag_at id l k \<noteq> tag_at id r k}"
  unfolding differing_keys_def filter_filter_sorted_set set_map keys_def [symmetric]
  by (rule arg_cong [of _ _ sorted_list_of_set]) (use the_map_of_eq [of _ l r] in blast)

interpretation dists: keyed_diff only_keys "\<lambda>l r. only_keys r l" differing_keys id
  by unfold_locales (simp_all add: only_keys_exact differing_keys_exact)

lemma compare_runs_names:
  "map fst (only_a (compare_runs l r)) = sorted_list_of_set (keys l - keys r)"
  "map fst (only_b (compare_runs l r)) = sorted_list_of_set (keys r - keys l)"
  "map fst (diffs (compare_runs l r)) = sorted_list_of_set {k \<in> keys l \<inter> keys r. tag_at id l k \<noteq> tag_at id r k}"
  unfolding compare_runs_def Let_def run_diff.simps map_map comp_def fst_conv map_ident filter_filter
  unfolding filter_sorted_set set_append set_map keys_def [symmetric]
  by (rule arg_cong [of _ _ sorted_list_of_set], use the_map_of_eq [of _ l r] in blast)+

interpretation runs: keyed_diff "\<lambda>l r. map fst (only_a (compare_runs l r))" "\<lambda>l r. map fst (only_b (compare_runs l r))"
  "\<lambda>l r. map fst (diffs (compare_runs l r))" id
  by unfold_locales (rule compare_runs_names)+

section \<open>The verdict\<close>

text \<open>What the verdict asks of one directory.\<close>

definition only_regular :: "entry \<Rightarrow> bool" where
  "only_regular tree \<longleftrightarrow> (\<forall>(parts, e) \<in> set (leaves [] tree). \<exists>obs. e = Regular obs)"

definition identity_ok :: "entry \<Rightarrow> bool" where
  "identity_ok tree \<longleftrightarrow>
     (\<exists>es obs t. tree = Directory es \<and> map_of es ''BUILD-METADATA'' = Some (Regular obs) \<and> f_text obs = Some t \<and>
        list_all (\<lambda>(k, expected). metadata_value t k = Some expected) required_metadata)"

definition dist_ok :: "entry \<Rightarrow> (string \<times> string) list \<Rightarrow> bool" where
  "dist_ok tree files \<longleftrightarrow> set required \<subseteq> keys files \<and> only_regular tree \<and> identity_ok tree"

lemma missing_required_Nil: "missing_required files = [] \<longleftrightarrow> set required \<subseteq> keys files"
  by (auto simp: missing_required_def filter_empty_conv keys_def)

lemma metadata_errors_Nil: "metadata_errors tree = Inr [] \<longleftrightarrow> identity_ok tree"
  by (auto simp: metadata_errors_def identity_ok_def filter_empty_conv list_all_iff split: entry.splits option.splits)

lemma unsafe_kept:
  "foldR (take_leaf sha) fs st = Inr (files, ua) \<Longrightarrow>
   ua = snd st @ map (\<lambda>(parts, e). join ''/'' parts) (filter (\<lambda>(parts, e). \<forall>obs. e \<noteq> Regular obs) fs)"
proof (induction fs arbitrary: st)
  case (Cons f fs)
  then obtain m where m: "take_leaf sha f st = Inr m" "foldR (take_leaf sha) fs m = Inr (files, ua)"
    by (auto simp: bindR_Inr_iff)
  have "snd m = snd st @ (case f of (parts, e) \<Rightarrow> if \<forall>obs. e \<noteq> Regular obs then [join ''/'' parts] else [])"
    using m(1) by (auto simp: take_leaf_def bindR_Inr_iff split: prod.splits entry.splits)
  with Cons.IH [OF m(2)] show ?case by (auto split: prod.splits)
qed auto

lemma unsafe_Nil:
  assumes "dist_inventory sha tree = Inr (files, ua)"
  shows "ua = [] \<longleftrightarrow> only_regular tree"
  using unsafe_kept [OF assms [unfolded dist_inventory_def]] by (auto simp: only_regular_def filter_empty_conv)

text \<open>
  Claim C11. Two builds are called reproducible exactly when both directories hold the required
  files, only regular files and the required identity, and the same files with the same
  digests; the exit status says so.
\<close>

theorem reproducible_iff:
  assumes "compare_dists sha (pa, Some (Directory ea)) (pb, Some (Directory eb)) = Inr res"
  shows "\<exists>fa ua fb ub. dist_inventory sha (Directory ea) = Inr (fa, ua) \<and> dist_inventory sha (Directory eb) = Inr (fb, ub) \<and>
    (reproducible res \<longleftrightarrow> tag_at id fa = tag_at id fb \<and> dist_ok (Directory ea) fa \<and> dist_ok (Directory eb) fb) \<and>
    repro_exit (Inr res) = (if reproducible res then 0 else 1)"
proof -
  from assms obtain fa ua fb ub ma mb where runs: "dist_inventory sha (Directory ea) = Inr (fa, ua)"
      "dist_inventory sha (Directory eb) = Inr (fb, ub)" "metadata_errors (Directory ea) = Inr ma"
      "metadata_errors (Directory eb) = Inr mb"
    and res: "reproducible res = (\<not> (missing_required fa \<noteq> [] \<or> missing_required fb \<noteq> [] \<or> only_keys fa fb \<noteq> []
       \<or> only_keys fb fa \<noteq> [] \<or> differing_keys fa fb \<noteq> [] \<or> ua \<noteq> [] \<or> ub \<noteq> [] \<or> ma \<noteq> [] \<or> mb \<noteq> []))"
    by (auto simp: compare_dists_def res_iff)
  have "ma = [] \<longleftrightarrow> identity_ok (Directory ea)" "mb = [] \<longleftrightarrow> identity_ok (Directory eb)"
    using runs(3,4) by (simp_all flip: metadata_errors_Nil)
  with unsafe_Nil [OF runs(1)] unsafe_Nil [OF runs(2)]
  have "reproducible res \<longleftrightarrow> tag_at id fa = tag_at id fb \<and> dist_ok (Directory ea) fa \<and> dist_ok (Directory eb) fb"
    unfolding res dists.identical_iff [symmetric] dist_ok_def missing_required_Nil [symmetric] by blast
  with runs show ?thesis by (auto simp: repro_exit_def)
qed

definition one_file :: "(string \<times> entry) list" where
  "one_file = [(''Image'', Regular \<lparr>lstat_size = Some 1, f_blocks = Some [[7]], size_after = Some 1, f_text = None\<rparr>)]"

lemma one_file_compared:
  "\<exists>res. compare_dists (\<lambda>bs. ''h'') ([''r1'', ''dist''], Some (Directory one_file)) ([''r2'', ''dist''], Some (Directory one_file))
     = Inr res"
  by (simp add: compare_dists_def dist_inventory_def one_file_def take_leaf_def digest_of_def metadata_errors_def run_id_def)

theorem reproducible_iff_witness:
  "\<exists>res. compare_dists (\<lambda>bs. ''h'') ([''r1'', ''dist''], Some (Directory one_file)) ([''r2'', ''dist''], Some (Directory one_file))
     = Inr res \<and> \<not> reproducible res \<and> repro_exit (Inr res) = 1"
proof -
  obtain res where res: "compare_dists (\<lambda>bs. ''h'') ([''r1'', ''dist''], Some (Directory one_file))
      ([''r2'', ''dist''], Some (Directory one_file)) = Inr res" using one_file_compared by blast
  have "\<not> identity_ok (Directory one_file)" by (simp add: identity_ok_def one_file_def)
  with reproducible_iff [OF res] res show ?thesis by (auto simp: dist_ok_def)
qed

end
