(* ===== verification/C2_Clock.thy ===== *)
theory C2_Clock
  imports Py_Lines
begin

text \<open>
  \<open>tools/rmg-eze4/c2_dual_clock_analyze.py\<close>: the analysis of a timeline of two device clocks. A
  record is a dict of JSON values. The errors and warnings are lists of messages in the order
  of the code; a computation that may raise gives a \<open>pyexc\<close>. \<open>json.loads\<close> on a line and
  \<open>str\<close> of a value are the parameters \<open>loads\<close> and \<open>show\<close>; \<open>loads\<close> answers \<open>None\<close> for a
  \<open>JSONDecodeError\<close>. The result has the fields of the code's dict but its constant version.
\<close>

type_synonym rec = "(string \<times> pyval) list"

definition max_gap_ns :: int where "max_gap_ns = 500000000"
definition max_pair_span_ns :: int where "max_pair_span_ns = 100000000"
definition min_interval_ms :: int where "min_interval_ms = 100"
definition max_interval_ms :: int where "max_interval_ms = 200"
definition min_margin_ns :: int where "min_margin_ns = 1000000"

definition clock_schema :: string where "clock_schema = ''c2-dual-clock-obs.v1''"

definition clock_fields :: "string list" where
  "clock_fields = [''schema'', ''record_type'', ''trial_id'', ''sequence'', ''clock_monotonic_ns'',
     ''clock_boottime_ns'', ''boottime_minus_monotonic_ns'', ''sampling_gap_ns'', ''elapsed_monotonic_ns'',
     ''elapsed_boottime_ns'', ''suspend_delta_ns'', ''pair_read_span_ns'', ''process_cpu_ns'', ''boot_id'',
     ''boot_id_read_status'', ''cgroup_read_status'', ''cgroup_frozen'', ''cgroup_populated'']"

definition fget :: "rec \<Rightarrow> string \<Rightarrow> pyval" where
  "fget r k = (case map_of r k of None \<Rightarrow> PNone | Some v \<Rightarrow> v)"

definition percentile :: "int list \<Rightarrow> rat \<Rightarrow> int option" where
  "percentile vs fraction =
     (if vs = [] then None
      else Some (sort vs ! nat (max 0 (min (int (length vs) - 1) (ceil_times fraction (length vs) - 1)))))"

section \<open>Parsing\<close>

text \<open>The messages of a line, and the record it keeps.\<close>

definition parse_line ::
  "(string \<Rightarrow> pyval option) \<Rightarrow> (pyval \<Rightarrow> string) \<Rightarrow> nat \<Rightarrow> string \<Rightarrow> (pyexc, rec list \<times> string list) res" where
  "parse_line loads show n line =
     (let at_line = ''LINE_'' @ fmt_nat n in
      if py_strip line = [] then Inr ([], [''BLANK_LINE_'' @ fmt_nat n])
      else case loads line of
        None \<Rightarrow> Inr ([], [''MALFORMED_JSON_LINE_'' @ fmt_nat n])
      | Some (PDict r) \<Rightarrow>
          (let missing = sorted_set (filter (\<lambda>k. map_of r k = None) clock_fields) in
           if missing \<noteq> [] then Inr ([], [at_line @ ''_MISSING_'' @ join ''_'' missing])
           else bindR (py_key_in (fget r ''record_type'') [''metadata'', ''sample'', ''end'']) (\<lambda>known.
             Inr ([r], flag (fget r ''schema'' \<noteq> PStr clock_schema)
                         (at_line @ ''_UNSUPPORTED_SCHEMA_'' @ show (fget r ''schema'')) @
                       flag (\<not> known) (at_line @ ''_UNKNOWN_RECORD_TYPE''))))
      | Some v \<Rightarrow> Inr ([], [at_line @ ''_NOT_OBJECT'']))"

text \<open>\<open>None\<close> is a file that cannot be read or decoded; \<open>kind\<close> is the name of its exception.\<close>

definition parse_clock_jsonl ::
  "(string \<Rightarrow> pyval option) \<Rightarrow> (pyval \<Rightarrow> string) \<Rightarrow> string \<Rightarrow> string option \<Rightarrow> (pyexc, rec list \<times> string list) res" where
  "parse_clock_jsonl loads show kind content =
     (case content of
        None \<Rightarrow> Inr ([], [''INPUT_READ_ERROR_'' @ kind])
      | Some t \<Rightarrow>
          bindR (mapR (\<lambda>(n, l). parse_line loads show n l) (enumerate 1 (split_lines [] t))) (\<lambda>xs.
          Inr (concat (map fst xs), concat (map snd xs))))"

section \<open>Checks of single records\<close>

definition nonneg_fields :: "string list" where
  "nonneg_fields = [''sequence'', ''clock_monotonic_ns'', ''clock_boottime_ns'', ''pair_read_span_ns'']"

definition optional_fields :: "string list" where
  "optional_fields = [''boottime_minus_monotonic_ns'', ''sampling_gap_ns'', ''elapsed_monotonic_ns'',
     ''elapsed_boottime_ns'', ''suspend_delta_ns'', ''process_cpu_ns'']"

definition integer_field_errors :: "nat \<Rightarrow> rec \<Rightarrow> string list" where
  "integer_field_errors i r =
     (let lab = ''RECORD_'' @ fmt_nat i @ ''_'' in
      concat (map (\<lambda>k. flag (\<not> is_int_strict (fget r k) \<or> int_of (fget r k) < 0) (lab @ upper_ascii k @ ''_INVALID''))
        nonneg_fields) @
      concat (map (\<lambda>k. let v = fget r k in
          flag (v \<noteq> PNone \<and> \<not> is_int_strict v) (lab @ upper_ascii k @ ''_INVALID'') @
          flag (is_int_strict v \<and> k \<notin> {''boottime_minus_monotonic_ns'', ''suspend_delta_ns''} \<and> int_of v < 0)
            (lab @ upper_ascii k @ ''_NEGATIVE'')) optional_fields))"

definition sequence_errors :: "rec list \<Rightarrow> string list" where
  "sequence_errors rs =
     (let vs = map (\<lambda>r. fget r ''sequence'') rs; ks = map int_of vs in
      if \<not> list_all is_int_strict vs then [''SEQUENCE_NON_INTEGER'']
      else flag (ks \<noteq> map int [0..<length rs]) ''SEQUENCE_NOT_CONTIGUOUS_FROM_ZERO'' @
           flag (\<not> distinct ks) ''DUPLICATE_SEQUENCE'' @ flag (\<not> sorted ks) ''SEQUENCE_REGRESSION'')"

text \<open>
  The set of trial ids; a list or dict cannot be put into a set. The parser's \<open>NaN\<close> is one object,
  so it is found again although it is not equal to itself.
\<close>

definition set_member :: "pyval \<Rightarrow> bool" where
  "set_member v = (case v of PList xs \<Rightarrow> False | PDict kvs \<Rightarrow> False | _ \<Rightarrow> True)"

definition single_id :: "pyval list \<Rightarrow> bool" where
  "single_id ids = (case ids of [] \<Rightarrow> False | v # vs \<Rightarrow> list_all (\<lambda>w. w = v \<or> py_eq v w) vs)"

definition trial_id_errors :: "pyval list \<Rightarrow> (pyexc, string list) res" where
  "trial_id_errors ids =
     guardR (list_all set_member ids) TypeError
       (Inr (flag (\<not> single_id ids \<or> PNone \<in> set ids) ''TRIAL_ID_MISMATCH''))"

section \<open>The shape of the timeline\<close>

definition of_type :: "string \<Rightarrow> rec list \<Rightarrow> rec list" where
  "of_type t rs = filter (\<lambda>r. fget r ''record_type'' = PStr t) rs"

definition metadata_of :: "rec list \<Rightarrow> rec" where
  "metadata_of rs = (case of_type ''metadata'' rs of [m] \<Rightarrow> m | _ \<Rightarrow> [])"

definition end_of :: "rec list \<Rightarrow> rec option" where
  "end_of rs = (case of_type ''end'' rs of [e] \<Rightarrow> Some e | _ \<Rightarrow> None)"

definition shape_errors :: "rec list \<Rightarrow> string list" where
  "shape_errors rs =
     flag (length (of_type ''metadata'' rs) \<noteq> 1) ''METADATA_RECORD_COUNT_NOT_ONE'' @
     flag (length (of_type ''end'' rs) \<noteq> 1) ''END_RECORD_COUNT_NOT_ONE'' @
     flag (fget (hd rs) ''record_type'' \<noteq> PStr ''metadata'') ''METADATA_NOT_FIRST'' @
     flag (fget (last rs) ''record_type'' \<noteq> PStr ''end'') ''END_NOT_LAST'' @
     (case end_of rs of None \<Rightarrow> [] | Some e \<Rightarrow> flag (fget e ''termination'' \<noteq> PStr ''completed'') ''END_NOT_COMPLETED'')"

definition points_of :: "rec list \<Rightarrow> rec list" where
  "points_of rs = of_type ''sample'' rs @ (case end_of rs of None \<Rightarrow> [] | Some e \<Rightarrow> [e])"

definition timeline_of :: "rec list \<Rightarrow> rec list" where
  "timeline_of rs = (if metadata_of rs = [] then [] else [metadata_of rs]) @ points_of rs"

definition fint :: "rec \<Rightarrow> string \<Rightarrow> bool" where "fint r k = is_int_strict (fget r k)"

definition ival :: "rec \<Rightarrow> string \<Rightarrow> int" where "ival r k = int_of (fget r k)"

definition mono :: string where "mono = ''clock_monotonic_ns''"
definition boot :: string where "boot = ''clock_boottime_ns''"

definition pair_errors :: "rec \<times> rec \<Rightarrow> string list" where
  "pair_errors lr = (case lr of (l, r) \<Rightarrow>
     flag (fint l mono \<and> fint r mono \<and> ival r mono < ival l mono) ''CLOCK_MONOTONIC_REGRESSION'' @
     (if fint l boot \<and> fint r boot
      then flag (ival r boot < ival l boot) ''CLOCK_BOOTTIME_REGRESSION'' @
           flag (fint r ''sampling_gap_ns'' \<and> fint l mono \<and> fint r mono \<and>
                 ival r ''sampling_gap_ns'' \<noteq> ival r mono - ival l mono) ''SAMPLING_GAP_FIELD_MISMATCH''
      else []) @
     flag (fint r ''pair_read_span_ns'' \<and> max_pair_span_ns < ival r ''pair_read_span_ns'') ''PAIR_READ_SPAN_EXCEEDS_100MS'')"

definition is_point :: "rec \<Rightarrow> bool" where
  "is_point r = (fget r ''record_type'' = PStr ''sample'' \<or> fget r ''record_type'' = PStr ''end'')"

definition point_errors :: "rec \<Rightarrow> string list" where
  "point_errors r =
     flag (fint r mono \<and> fint r boot \<and> \<not> py_eq (fget r ''boottime_minus_monotonic_ns'') (PInt (ival r boot - ival r mono)))
       ''CLOCK_OFFSET_FIELD_MISMATCH'' @
     (if is_point r
      then if \<not> fint r ''sampling_gap_ns'' \<or> ival r ''sampling_gap_ns'' < 0 then [''SAMPLING_GAP_MISSING_OR_INVALID'']
           else flag (max_gap_ns < ival r ''sampling_gap_ns'') ''SAMPLING_GAP_EXCEEDS_500MS''
      else [])"

definition gaps_of :: "rec list \<Rightarrow> int list" where
  "gaps_of tms = map (\<lambda>r. ival r ''sampling_gap_ns'')
     (filter (\<lambda>r. is_point r \<and> fint r ''sampling_gap_ns'' \<and> 0 \<le> ival r ''sampling_gap_ns'') tms)"

definition offset :: "rec \<Rightarrow> int" where "offset r = ival r boot - ival r mono"

definition offsets_of :: "rec list \<Rightarrow> int list" where
  "offsets_of tms = map offset (filter (\<lambda>r. fint r mono \<and> fint r boot) tms)"

definition resolution_fields :: "string list" where
  "resolution_fields = [''clock_monotonic_resolution_ns'', ''clock_boottime_resolution_ns'']"

definition metadata_errors :: "rec list \<Rightarrow> string list" where
  "metadata_errors rs =
     (let m = metadata_of rs in
      flag (length (of_type ''sample'' rs) < 2) ''INSUFFICIENT_SAMPLES'' @
      flag (\<not> fint m ''interval_ms'' \<or> \<not> (min_interval_ms \<le> ival m ''interval_ms'' \<and> ival m ''interval_ms'' \<le> max_interval_ms))
        ''INTERVAL_OUTSIDE_100_200MS'' @
      concat (map (\<lambda>k. flag (\<not> fint m k \<or> ival m k \<le> 0) (upper_ascii k @ ''_MISSING_OR_INVALID'')) resolution_fields))"

section \<open>Offsets and the margin\<close>

definition margin :: "rec \<Rightarrow> rec list \<Rightarrow> int \<times> int option \<times> int option" where
  "margin m tms =
     (let res = map (ival m) (filter (\<lambda>k. fint m k \<and> 0 < ival m k) resolution_fields);
          spans = map (\<lambda>r. ival r ''pair_read_span_ns'')
            (filter (\<lambda>r. fint r ''pair_read_span_ns'' \<and> 0 \<le> ival r ''pair_read_span_ns'') tms);
          p95 = percentile spans (95 / 100)
      in if res = [] then (min_margin_ns, None, p95)
         else (max min_margin_ns ((2 * (case p95 of None \<Rightarrow> 0 | Some p \<Rightarrow> p) + 4 * Max (set res)) * 4),
               Some (Max (set res)), p95))"

definition max_change :: "int list \<Rightarrow> int option" where
  "max_change os = (case os of [] \<Rightarrow> None | b # bs \<Rightarrow> Some (Max (set (map (\<lambda>v. v - b) os))))"

definition offset_errors :: "int \<Rightarrow> int list \<Rightarrow> string list" where
  "offset_errors threshold os =
     concat (map (\<lambda>(p, c). flag (c - p < - threshold) ''CLOCK_OFFSET_STEP_REGRESSION'') (pairs os)) @
     (case max_change os of None \<Rightarrow> [] | Some c \<Rightarrow> flag (c < - threshold) ''CLOCK_OFFSET_LARGE_REGRESSION'')"

text \<open>The derived fields of a point; the metadata's clocks may hold anything.\<close>

definition from_metadata :: "rec \<Rightarrow> string \<Rightarrow> int \<Rightarrow> (pyexc, pyval) res" where
  "from_metadata m k v = py_minus (PInt v) (case map_of m k of None \<Rightarrow> PInt v | Some w \<Rightarrow> w)"

definition derived_errors :: "rec \<Rightarrow> int \<Rightarrow> rec \<Rightarrow> (pyexc, string list) res" where
  "derived_errors m base r =
     (if \<not> (fint r mono \<and> fint r boot) then Inr []
      else bindR (from_metadata m mono (ival r mono)) (\<lambda>em.
           bindR (from_metadata m boot (ival r boot)) (\<lambda>eb.
           Inr (flag (\<not> py_eq (fget r ''elapsed_monotonic_ns'') em) ''ELAPSED_MONOTONIC_FIELD_MISMATCH'' @
                flag (\<not> py_eq (fget r ''elapsed_boottime_ns'') eb) ''ELAPSED_BOOTTIME_FIELD_MISMATCH'' @
                flag (\<not> py_eq (fget r ''suspend_delta_ns'') (PInt (offset r - base))) ''SUSPEND_DELTA_FIELD_MISMATCH''))))"

definition all_derived :: "rec \<Rightarrow> int list \<Rightarrow> rec list \<Rightarrow> (pyexc, string list) res" where
  "all_derived m os points = (case os of [] \<Rightarrow> Inr [] | b # bs \<Rightarrow> catR (map (derived_errors m b) points))"

definition end_count_errors :: "rec list \<Rightarrow> string list" where
  "end_count_errors rs = (case end_of rs of None \<Rightarrow> [] | Some e \<Rightarrow>
     flag (\<not> py_eq (fget e ''sample_count'') (PInt (int (length (of_type ''sample'' rs))))) ''END_SAMPLE_COUNT_MISMATCH'')"

section \<open>Bindings\<close>

definition available :: "rec \<Rightarrow> string \<Rightarrow> bool" where "available r k = (fget r k = PStr ''AVAILABLE'')"

definition boot_step :: "pyval \<Rightarrow> rec \<Rightarrow> string list \<times> bool" where
  "boot_step base r =
     (let st = fget r ''boot_id_read_status''; b = fget r ''boot_id'' in
      if st = PStr ''MISMATCH'' then ([''BOOT_ID_CHANGED''], False)
      else if st \<noteq> PStr ''AVAILABLE'' \<or> \<not> is_str b then ([], True)
      else (flag (base \<noteq> PNone \<and> \<not> py_eq b base) ''BOOT_ID_CHANGED'', False))"

definition boot_unknown :: "rec list \<Rightarrow> bool" where
  "boot_unknown rs =
     (let m = metadata_of rs; base = fget m ''boot_id'' in
      \<not> available m ''boot_id_read_status'' \<or> \<not> is_str base \<or> \<not> truthy base \<or>
      list_ex (\<lambda>r. snd (boot_step base r)) (points_of rs))"

definition boot_errors :: "rec list \<Rightarrow> string list" where
  "boot_errors rs = concat (map (\<lambda>r. fst (boot_step (fget (metadata_of rs) ''boot_id'') r)) (points_of rs))"

definition zero_one :: "pyval \<Rightarrow> bool" where "zero_one v = (py_eq v (PInt 0) \<or> py_eq v (PInt 1))"

definition cgroup_read :: "rec \<Rightarrow> bool" where
  "cgroup_read r = (available r ''cgroup_read_status'' \<and> zero_one (fget r ''cgroup_frozen'') \<and> zero_one (fget r ''cgroup_populated''))"

definition cgroup_unknown :: "rec list \<Rightarrow> bool" where
  "cgroup_unknown rs =
     (let m = metadata_of rs in
      \<not> fint m ''trial_pid'' \<or> ival m ''trial_pid'' \<le> 0 \<or> \<not> available m ''cgroup_binding_status'' \<or>
      \<not> is_str (fget m ''cgroup_path'') \<or> \<not> truthy (fget m ''cgroup_path'') \<or>
      \<not> fint m ''pid_starttime_ticks'' \<or> ival m ''pid_starttime_ticks'' < 0 \<or>
      list_ex (\<lambda>r. \<not> cgroup_read r) (points_of rs))"

definition cgroup_points :: "rec list \<Rightarrow> rec list" where
  "cgroup_points rs = filter cgroup_read (points_of rs)"

definition cgroup_frozen :: "rec list \<Rightarrow> bool" where
  "cgroup_frozen rs = list_ex (\<lambda>r. py_eq (fget r ''cgroup_frozen'') (PInt 1)) (cgroup_points rs)"

definition cgroup_empty :: "rec list \<Rightarrow> bool" where
  "cgroup_empty rs = list_ex (\<lambda>r. py_eq (fget r ''cgroup_populated'') (PInt 0)) (cgroup_points rs)"

definition cgroup_errors :: "rec list \<Rightarrow> string list" where
  "cgroup_errors rs = flag (length (cgroup_points rs) < length (points_of rs)) ''CGROUP_EVENTS_INCOMPLETE_COVERAGE''"

section \<open>Processor time\<close>

definition cpu_delta :: "rec list \<Rightarrow> int option" where
  "cpu_delta rs = (case end_of rs of None \<Rightarrow> None | Some e \<Rightarrow>
     if fint (metadata_of rs) ''process_cpu_ns'' \<and> fint e ''process_cpu_ns''
     then Some (ival e ''process_cpu_ns'' - ival (metadata_of rs) ''process_cpu_ns'') else None)"

text \<open>\<open>round(100.0 * delta / elapsed, 6)\<close>.\<close>

definition cpu_percent :: "int \<Rightarrow> int \<Rightarrow> (pyexc, pyfloat) res" where
  "cpu_percent delta elapsed =
     (case (float_of_int delta, float_of_int elapsed) of
        (Some (Fin d), Some (Fin e)) \<Rightarrow> Inr (round6 (f_div_pos (float_of_rat (100 * d)) e))
      | _ \<Rightarrow> Inl OverflowError)"

definition cpu_utilization :: "rec list \<Rightarrow> (pyexc, pyfloat option) res" where
  "cpu_utilization rs =
     (case (cpu_delta rs, end_of rs) of
        (Some d, Some e) \<Rightarrow>
          if 0 \<le> d \<and> fint e ''elapsed_boottime_ns'' \<and> 0 < ival e ''elapsed_boottime_ns''
          then bindR (cpu_percent d (ival e ''elapsed_boottime_ns'')) (\<lambda>p. Inr (Some p)) else Inr None
      | _ \<Rightarrow> Inr None)"

section \<open>The verdict\<close>

datatype clock_status = Coverage_Invalid | C2_Unknown | Suspend_Observed | No_Suspend_Observed

record clock_result =
  cr_trial_id :: pyval
  cr_status :: clock_status
  cr_coverage_valid :: bool
  cr_sample_count :: nat
  cr_timeline_count :: nat
  cr_trial_pid :: pyval
  cr_cgroup_path :: pyval
  cr_cgroup_samples :: nat
  cr_frozen :: bool
  cr_empty :: bool
  cr_suspend :: bool
  cr_threshold :: int
  cr_inputs :: "int option \<times> int option"
  cr_max_change :: "int option"
  cr_max_gap :: "int option"
  cr_p95_gap :: "int option"
  cr_cpu_delta :: "int option"
  cr_cpu_percent :: "pyfloat option"
  cr_errors :: "string list"
  cr_warnings :: "string list"

definition clock_warnings :: "rec list \<Rightarrow> string list" where
  "clock_warnings rs =
     flag (cgroup_frozen rs) ''TRIAL_CGROUP_FROZEN'' @ flag (cgroup_empty rs) ''TRIAL_CGROUP_NOT_POPULATED'' @
     flag (cgroup_unknown rs) ''CGROUP_BINDING_OR_READ_UNKNOWN'' @ flag (boot_unknown rs) ''BOOT_ID_BINDING_OR_READ_UNKNOWN'' @
     (case cpu_delta rs of None \<Rightarrow> [] | Some d \<Rightarrow> flag (d < 0) ''PROCESS_CPU_REGRESSION'')"

definition clock_errors :: "rec list \<Rightarrow> int \<Rightarrow> (pyexc, string list) res" where
  "clock_errors rs threshold =
     (let tms = timeline_of rs; os = offsets_of tms in
      bindR (trial_id_errors (map (\<lambda>r. fget r ''trial_id'') rs)) (\<lambda>ids.
      bindR (all_derived (metadata_of rs) os (points_of rs)) (\<lambda>derived.
      Inr (concat (map (\<lambda>(i, r). integer_field_errors i r) (enumerate 1 rs)) @ sequence_errors rs @ ids @
           shape_errors rs @ concat (map pair_errors (pairs tms)) @ concat (map point_errors tms) @ metadata_errors rs @
           offset_errors threshold os @ derived @ end_count_errors rs @ boot_errors rs @ cgroup_errors rs))))"

definition no_records :: "string list \<Rightarrow> clock_result" where
  "no_records errs = \<lparr>cr_trial_id = PNone, cr_status = Coverage_Invalid, cr_coverage_valid = False,
     cr_sample_count = 0, cr_timeline_count = 0, cr_trial_pid = PNone, cr_cgroup_path = PNone,
     cr_cgroup_samples = 0, cr_frozen = False, cr_empty = False,
     cr_suspend = False, cr_threshold = 0, cr_inputs = (None, None), cr_max_change = None, cr_max_gap = None,
     cr_p95_gap = None, cr_cpu_delta = None, cr_cpu_percent = None,
     cr_errors = (if errs = [] then [''NO_RECORDS''] else errs), cr_warnings = []\<rparr>"

definition verdict :: "bool \<Rightarrow> bool \<Rightarrow> bool \<Rightarrow> clock_status" where
  "verdict invalid unknown suspend =
     (if invalid then Coverage_Invalid else if unknown then C2_Unknown
      else if suspend then Suspend_Observed else No_Suspend_Observed)"

definition analyze_records :: "rec list \<Rightarrow> string list \<Rightarrow> (pyexc, clock_result) res" where
  "analyze_records rs parse_errs =
     (if rs = [] then Inr (no_records parse_errs)
      else
        (let tms = timeline_of rs; os = offsets_of tms; gaps = gaps_of tms in
         case margin (metadata_of rs) tms of (threshold, max_res, p95) \<Rightarrow>
           bindR (clock_errors rs threshold) (\<lambda>found.
           bindR (cpu_utilization rs) (\<lambda>percent.
           (let errs = parse_errs @ found;
                invalid = (filter (\<lambda>e. \<not> prefix ''CGROUP_'' e) errs \<noteq> []);
                suspend = (case max_change os of None \<Rightarrow> False | Some c \<Rightarrow> threshold < c)
            in Inr \<lparr>cr_trial_id = (if single_id (map (\<lambda>r. fget r ''trial_id'') rs) then fget (hd rs) ''trial_id'' else PNone),
                 cr_status = verdict invalid
                   (cgroup_unknown rs \<or> cgroup_frozen rs \<or> cgroup_empty rs \<or> boot_unknown rs) suspend,
                 cr_coverage_valid = (\<not> invalid), cr_sample_count = length (of_type ''sample'' rs),
                 cr_timeline_count = length tms, cr_trial_pid = fget (metadata_of rs) ''trial_pid'',
                 cr_cgroup_path = fget (metadata_of rs) ''cgroup_path'', cr_cgroup_samples = length (cgroup_points rs),
                 cr_frozen = cgroup_frozen rs, cr_empty = cgroup_empty rs, cr_suspend = suspend,
                 cr_threshold = threshold, cr_inputs = (max_res, p95), cr_max_change = max_change os,
                 cr_max_gap = (if gaps = [] then None else Some (Max (set gaps))),
                 cr_p95_gap = percentile gaps (95 / 100),
                 cr_cpu_delta = (case cpu_delta rs of None \<Rightarrow> None | Some d \<Rightarrow> if d < 0 then None else Some d),
                 cr_cpu_percent = percent, cr_errors = errs, cr_warnings = clock_warnings rs\<rparr>)))))"

definition analyze_clock ::
  "(string \<Rightarrow> pyval option) \<Rightarrow> (pyval \<Rightarrow> string) \<Rightarrow> string \<Rightarrow> string option \<Rightarrow> (pyexc, clock_result) res" where
  "analyze_clock loads show kind content =
     bindR (parse_clock_jsonl loads show kind content) (\<lambda>(rs, errs). analyze_records rs errs)"

text \<open>The exit status.\<close>

definition clock_exit :: "clock_result \<Rightarrow> nat" where
  "clock_exit r = (if cr_status r = No_Suspend_Observed \<or> cr_status r = Suspend_Observed then 0 else 1)"

end
