(* ===== verification/C2_Properties.thy ===== *)
theory C2_Properties
  imports C2_Clock
begin

text \<open>
  What an affirmative verdict of \<open>tools/rmg-eze4/c2_dual_clock_analyze.py\<close> guarantees about the
  recorded timeline: the analysis fails closed.
\<close>

section \<open>Messages that invalidate the coverage\<close>

definition invalidating :: "string list \<Rightarrow> bool" where
  "invalidating es \<longleftrightarrow> list_all (\<lambda>e. \<not> prefix ''CGROUP_'' e) es"

lemma invalidating_simps [simp]:
  "invalidating []" "invalidating (xs @ ys) \<longleftrightarrow> invalidating xs \<and> invalidating ys"
  "invalidating (flag b e) \<longleftrightarrow> (b \<longrightarrow> \<not> prefix ''CGROUP_'' e)"
  "invalidating (e # es) \<longleftrightarrow> \<not> prefix ''CGROUP_'' e \<and> invalidating es"
  "invalidating (concat xss) \<longleftrightarrow> (\<forall>xs \<in> set xss. invalidating xs)"
  by (auto simp: invalidating_def flag_def list_all_iff)

lemma none_invalidating: "filter (\<lambda>e. \<not> prefix ''CGROUP_'' e) es = [] \<Longrightarrow> invalidating es \<Longrightarrow> es = []"
  by (induction es) (auto simp: split: if_splits)

lemma filter_none_append: "filter P (xs @ ys) = [] \<longleftrightarrow> filter P xs = [] \<and> filter P ys = []"
  by simp

lemma invalidating_segments:
  "invalidating (integer_field_errors i r)" "invalidating (sequence_errors rs)" "invalidating (shape_errors rs)"
  "invalidating (pair_errors lr)" "invalidating (point_errors r)" "invalidating (metadata_errors rs)"
  "invalidating (offset_errors th os)" "invalidating (end_count_errors rs)" "invalidating (boot_errors rs)"
proof -
  show "invalidating (integer_field_errors i r)" "invalidating (sequence_errors rs)" "invalidating (shape_errors rs)"
      "invalidating (pair_errors lr)" "invalidating (point_errors r)"
      "invalidating (end_count_errors rs)" "invalidating (boot_errors rs)"
    by (auto simp: integer_field_errors_def sequence_errors_def shape_errors_def pair_errors_def point_errors_def
        end_count_errors_def boot_errors_def boot_step_def Let_def split: prod.splits option.splits)
  have "upper_ascii ''clock_monotonic_resolution_ns'' = ''CLOCK_MONOTONIC_RESOLUTION_NS''"
    "upper_ascii ''clock_boottime_resolution_ns'' = ''CLOCK_BOOTTIME_RESOLUTION_NS''" by code_simp+
  then show "invalidating (metadata_errors rs)" by (simp add: metadata_errors_def resolution_fields_def Let_def)
  show "invalidating (offset_errors th os)" by (auto simp: offset_errors_def split: option.splits prod.splits)
qed

lemma invalidating_results:
  "trial_id_errors ids = Inr es \<Longrightarrow> invalidating es"
  "all_derived m os ps = Inr es \<Longrightarrow> invalidating es"
proof -
  show "trial_id_errors ids = Inr es \<Longrightarrow> invalidating es"
    by (auto simp: trial_id_errors_def guardR_Inr_iff)
  have one: "derived_errors m b r = Inr ds \<Longrightarrow> invalidating ds" for b r ds
    by (auto simp: derived_errors_def bindR_Inr_iff split: if_splits)
  have "catR (map (derived_errors m b) ps) = Inr es \<Longrightarrow> invalidating es" for b
    using one by (induction ps arbitrary: es) (auto simp: bindR_Inr_iff)
  then show "all_derived m os ps = Inr es \<Longrightarrow> invalidating es"
    by (auto simp: all_derived_def split: list.splits)
qed

lemma parse_line_invalidating: "parse_line loads show n line = Inr (rs, es) \<Longrightarrow> invalidating es"
  by (auto simp: parse_line_def Let_def bindR_Inr_iff split: if_splits option.splits pyval.splits)

lemma parse_invalidating: "parse_clock_jsonl loads show kind content = Inr (rs, es) \<Longrightarrow> invalidating es"
proof -
  have "mapR (\<lambda>(n, l). parse_line loads show n l) xs = Inr ys \<Longrightarrow> invalidating (concat (map snd ys))" for xs ys
  proof (induction xs arbitrary: ys)
    case (Cons x xs)
    then obtain us es zs where "parse_line loads show (fst x) (snd x) = Inr (us, es)" "ys = (us, es) # zs"
      "mapR (\<lambda>(n, l). parse_line loads show n l) xs = Inr zs"
      by (auto simp: bindR_Inr_iff split_def)
    with Cons.IH [of zs] parse_line_invalidating show ?case by simp
  qed simp
  then show "parse_clock_jsonl loads show kind content = Inr (rs, es) \<Longrightarrow> invalidating es"
    by (auto simp: parse_clock_jsonl_def bindR_Inr_iff split: option.splits)
qed

text \<open>Records that pass the parser without a message have a known type.\<close>

definition known_type :: "rec \<Rightarrow> bool" where
  "known_type r \<longleftrightarrow> (\<exists>t \<in> {''metadata'', ''sample'', ''end''}. fget r ''record_type'' = PStr t)"

lemma parse_line_known: "parse_line loads show n line = Inr (rs, []) \<Longrightarrow> r \<in> set rs \<Longrightarrow> known_type r"
  by (cases "fget r ''record_type''")
    (auto simp: parse_line_def Let_def bindR_Inr_iff known_type_def split: if_splits option.splits pyval.splits)

lemma parse_known: "parse_clock_jsonl loads show kind content = Inr (rs, []) \<Longrightarrow> r \<in> set rs \<Longrightarrow> known_type r"
proof -
  have "mapR (\<lambda>(n, l). parse_line loads show n l) xs = Inr ys \<Longrightarrow> concat (map snd ys) = [] \<Longrightarrow>
      \<forall>r \<in> set (concat (map fst ys)). known_type r" for xs ys
  proof (induction xs arbitrary: ys)
    case (Cons x xs)
    then obtain us zs where "parse_line loads show (fst x) (snd x) = Inr (us, [])" "ys = (us, []) # zs"
      "mapR (\<lambda>(n, l). parse_line loads show n l) xs = Inr zs" "concat (map snd zs) = []"
      by (auto simp: bindR_Inr_iff split_def)
    with Cons.IH [of zs] parse_line_known show ?case by auto
  qed simp
  then show "parse_clock_jsonl loads show kind content = Inr (rs, []) \<Longrightarrow> r \<in> set rs \<Longrightarrow> known_type r"
    by (auto simp: parse_clock_jsonl_def bindR_Inr_iff split: option.splits)
qed

section \<open>A complete timeline\<close>

definition typed :: "string \<Rightarrow> rec \<Rightarrow> bool" where "typed t r \<longleftrightarrow> fget r ''record_type'' = PStr t"

text \<open>One metadata record, at least two samples, one end record; both clocks advance together.\<close>

definition clean_step :: "int \<Rightarrow> rec \<times> rec \<Rightarrow> bool" where
  "clean_step threshold ab \<longleftrightarrow> (case ab of (a, b) \<Rightarrow>
     ival a mono \<le> ival b mono \<and> ival b mono - ival a mono \<le> max_gap_ns \<and> ival a boot \<le> ival b boot \<and>
     - threshold \<le> offset b - offset a)"

definition bound_point :: "rec \<Rightarrow> rec \<Rightarrow> bool" where
  "bound_point m r \<longleftrightarrow> fget r ''boot_id'' = fget m ''boot_id'' \<and> available r ''boot_id_read_status'' \<and>
     available r ''cgroup_read_status'' \<and> py_eq (fget r ''cgroup_frozen'') (PInt 0) \<and> py_eq (fget r ''cgroup_populated'') (PInt 1)"

definition clean_timeline :: "int \<Rightarrow> rec list \<Rightarrow> bool" where
  "clean_timeline threshold rs \<longleftrightarrow>
     (\<exists>m ss e. rs = m # ss @ [e] \<and> typed ''metadata'' m \<and> list_all (typed ''sample'') ss \<and> typed ''end'' e \<and>
        fget e ''termination'' = PStr ''completed'' \<and> 2 \<le> length ss \<and>
        list_all (bound_point m) (ss @ [e]) \<and> is_str (fget m ''boot_id'') \<and> 0 < ival m ''trial_pid'') \<and>
     map (\<lambda>r. fget r ''sequence'') rs = map (\<lambda>i. PInt (int i)) [0..<length rs] \<and>
     list_all (\<lambda>r. fint r mono \<and> fint r boot \<and> 0 \<le> ival r mono \<and> 0 \<le> ival r boot) rs \<and>
     list_all (clean_step threshold) (pairs rs)"

lemma shape_clean:
  assumes "shape_errors rs = []" and "metadata_errors rs = []" and "\<forall>r \<in> set rs. known_type r" and "rs \<noteq> []"
  obtains m ss e where "rs = m # ss @ [e]" "typed ''metadata'' m" "list_all (typed ''sample'') ss" "typed ''end'' e"
    "fget e ''termination'' = PStr ''completed''" "2 \<le> length ss" "metadata_of rs = m" "points_of rs = ss @ [e]"
    "timeline_of rs = rs" "end_of rs = Some e"
proof -
  from assms(1) have one: "length (of_type ''metadata'' rs) = 1" "length (of_type ''end'' rs) = 1"
    "typed ''metadata'' (hd rs)" "typed ''end'' (last rs)"
    by (simp_all add: shape_errors_def typed_def)
  obtain m us where m: "rs = m # us" using assms(4) by (cases rs) auto
  with one(3,4) have "us \<noteq> []" by (auto simp: typed_def)
  then obtain ss e where e: "us = ss @ [e]" by (metis append_butlast_last_id)
  from one m e have tm: "typed ''metadata'' m" and te: "typed ''end'' e" by simp_all
  have no: "of_type ''metadata'' ss = []" "of_type ''end'' ss = []"
    using one(1,2) tm te m e by (auto simp: of_type_def typed_def)
  have samples: "list_all (typed ''sample'') ss"
    unfolding list_all_iff
  proof
    fix r assume r: "r \<in> set ss"
    with assms(3) m e have "known_type r" by simp
    with no r show "typed ''sample'' r"
      by (auto simp: known_type_def of_type_def typed_def filter_empty_conv)
  qed
  have "of_type ''sample'' rs = ss"
    using samples tm te m e by (auto simp: of_type_def typed_def list_all_iff filter_id_conv)
  moreover have "metadata_of rs = m" "end_of rs = Some e"
    using no tm te m e by (simp_all add: metadata_of_def end_of_def of_type_def typed_def)
  moreover have "m \<noteq> []" using tm by (auto simp: typed_def fget_def)
  ultimately have "points_of rs = ss @ [e]" "timeline_of rs = rs" "2 \<le> length ss"
    using m e assms(2) by (simp_all add: points_of_def timeline_of_def metadata_errors_def Let_def)
  moreover have "fget e ''termination'' = PStr ''completed''"
    using assms(1) \<open>end_of rs = Some e\<close> by (simp add: shape_errors_def)
  ultimately show ?thesis
    using that m e tm te samples \<open>metadata_of rs = m\<close> \<open>end_of rs = Some e\<close> by blast
qed

lemma integer_fields_clean:
  "integer_field_errors i r = [] \<Longrightarrow> k \<in> set nonneg_fields \<Longrightarrow> fint r k \<and> 0 \<le> ival r k"
  by (auto simp: integer_field_errors_def Let_def fint_def ival_def not_less)

lemma sequence_clean:
  assumes "sequence_errors rs = []"
  shows "map (\<lambda>r. fget r ''sequence'') rs = map (\<lambda>i. PInt (int i)) [0..<length rs]"
proof -
  from assms have ints: "list_all is_int_strict (map (\<lambda>r. fget r ''sequence'') rs)"
    and eq: "map int_of (map (\<lambda>r. fget r ''sequence'') rs) = map int [0..<length rs]"
    by (auto simp: sequence_errors_def Let_def split: if_splits)
  have "is_int_strict v \<Longrightarrow> v = PInt (int_of v)" for v by (cases v) auto
  with ints have "map (\<lambda>r. fget r ''sequence'') rs = map PInt (map int_of (map (\<lambda>r. fget r ''sequence'') rs))"
    by (auto simp: list_all_iff)
  with eq show ?thesis by (simp only: eq map_map comp_def)
qed

lemma pair_in: "(a, b) \<in> set (pairs xs) \<Longrightarrow> a \<in> set xs \<and> b \<in> set (tl xs)"
  by (auto simp: pairs_def dest: set_zip_leftD set_zip_rightD)

lemma step_clean:
  assumes "pair_errors (a, b) = []" and "point_errors b = []" and "is_point b"
    and "fint a mono" "fint b mono" "fint a boot" "fint b boot"
  shows "ival a mono \<le> ival b mono \<and> ival b mono - ival a mono \<le> max_gap_ns \<and> ival a boot \<le> ival b boot"
  using assms by (auto simp: pair_errors_def point_errors_def split: if_splits)

lemma offsets_clean:
  assumes "offset_errors th (map offset rs) = []" and "(a, b) \<in> set (pairs rs)"
  shows "- th \<le> offset b - offset a"
proof -
  have "pairs (map offset rs) = map (\<lambda>(a, b). (offset a, offset b)) (pairs rs)"
    by (simp add: pairs_def zip_map_map flip: map_tl)
  with assms show ?thesis by (fastforce simp: offset_errors_def not_less)
qed

lemma point_bound:
  assumes "boot_errors rs = []" and "\<not> boot_unknown rs" and "\<not> cgroup_unknown rs" and "\<not> cgroup_frozen rs"
    and "\<not> cgroup_empty rs" and "r \<in> set (points_of rs)"
  shows "bound_point (metadata_of rs) r"
proof -
  let ?m = "metadata_of rs" let ?b = "fget r ''boot_id''"
  have none: "fst (boot_step (fget ?m ''boot_id'') r) = []" and known: "\<not> snd (boot_step (fget ?m ''boot_id'') r)"
    and m: "is_str (fget ?m ''boot_id'')"
    using assms(1,2,6) by (auto simp: boot_errors_def boot_unknown_def Let_def list_ex_iff)
  from m obtain s where s: "fget ?m ''boot_id'' = PStr s" by (cases "fget ?m ''boot_id''") auto
  with none known have b: "available r ''boot_id_read_status'' \<and> ?b = PStr s"
    by (auto simp: boot_step_def available_def Let_def split: if_splits)
  have read: "cgroup_read r" using assms(3,6) by (auto simp: cgroup_unknown_def Let_def list_ex_iff)
  with assms(6) have "r \<in> set (cgroup_points rs)" by (simp add: cgroup_points_def)
  with assms(4,5) have "\<not> py_eq (fget r ''cgroup_frozen'') (PInt 1)" "\<not> py_eq (fget r ''cgroup_populated'') (PInt 0)"
    by (auto simp: cgroup_frozen_def cgroup_empty_def list_ex_iff)
  with read b s show ?thesis by (auto simp: bound_point_def cgroup_read_def zero_one_def)
qed

lemma clock_errors_segments:
  assumes "clock_errors rs th = Inr es" and "invalidating es \<Longrightarrow> es = []" and "cgroup_errors rs = []"
  shows "\<forall>i r. (i, r) \<in> set (enumerate 1 rs) \<longrightarrow> integer_field_errors i r = []"
    and "sequence_errors rs = []" and "shape_errors rs = []" and "\<forall>lr \<in> set (pairs (timeline_of rs)). pair_errors lr = []"
    and "\<forall>r \<in> set (timeline_of rs). point_errors r = []" and "metadata_errors rs = []"
    and "offset_errors th (offsets_of (timeline_of rs)) = []" and "boot_errors rs = []"
proof -
  from assms(1) obtain ids ds where "trial_id_errors (map (\<lambda>r. fget r ''trial_id'') rs) = Inr ids"
      "all_derived (metadata_of rs) (offsets_of (timeline_of rs)) (points_of rs) = Inr ds"
    and es: "es = concat (map (\<lambda>(i, r). integer_field_errors i r) (enumerate 1 rs)) @ sequence_errors rs @ ids @
           shape_errors rs @ concat (map pair_errors (pairs (timeline_of rs))) @ concat (map point_errors (timeline_of rs)) @
           metadata_errors rs @ offset_errors th (offsets_of (timeline_of rs)) @ ds @ end_count_errors rs @ boot_errors rs @
           cgroup_errors rs"
    by (auto simp: clock_errors_def Let_def bindR_Inr_iff)
  then have "invalidating es"
    using invalidating_results assms(3) by (auto simp: invalidating_segments)
  from assms(2) [OF this] es
  show "\<forall>i r. (i, r) \<in> set (enumerate 1 rs) \<longrightarrow> integer_field_errors i r = []"
    and "sequence_errors rs = []" and "shape_errors rs = []" and "\<forall>lr \<in> set (pairs (timeline_of rs)). pair_errors lr = []"
    and "\<forall>r \<in> set (timeline_of rs). point_errors r = []" and "metadata_errors rs = []"
    and "offset_errors th (offsets_of (timeline_of rs)) = []" and "boot_errors rs = []"
    by auto
qed

lemma all_points_read: "\<not> cgroup_unknown rs \<Longrightarrow> cgroup_errors rs = []"
proof -
  assume "\<not> cgroup_unknown rs"
  then have "cgroup_points rs = points_of rs"
    by (simp add: cgroup_unknown_def cgroup_points_def Let_def list_ex_iff filter_id_conv)
  then show ?thesis by (simp add: cgroup_errors_def)
qed

lemma margin_at_least: "fst (margin m tms) \<ge> min_margin_ns"
  by (simp add: margin_def Let_def)

lemma enumerate_member: "r \<in> set rs \<Longrightarrow> \<exists>i. (i, r) \<in> set (enumerate n rs)"
  by (metis in_set_conv_nth in_set_enumerate_eq add.commute diff_add_inverse fst_conv le_add2 length_enumerate nth_enumerate_eq nth_mem)

text \<open>Everything a timeline without an invalidating message has.\<close>

lemma clean_timeline_of_errors:
  assumes "clock_errors rs th = Inr es" and "invalidating es \<Longrightarrow> es = []" and "rs \<noteq> []"
    and "\<forall>r \<in> set rs. known_type r" and "\<not> boot_unknown rs" and "\<not> cgroup_unknown rs" and "\<not> cgroup_frozen rs"
    and "\<not> cgroup_empty rs"
  shows "clean_timeline th rs \<and> offsets_of (timeline_of rs) = map offset rs"
proof -
  note seg = clock_errors_segments [OF assms(1,2) all_points_read [OF assms(6)]]
  obtain m ss e where rs: "rs = m # ss @ [e]" and types: "typed ''metadata'' m" "list_all (typed ''sample'') ss" "typed ''end'' e"
    and fin: "fget e ''termination'' = PStr ''completed''" "2 \<le> length ss"
    and parts: "metadata_of rs = m" "points_of rs = ss @ [e]" "timeline_of rs = rs"
    using shape_clean [OF seg(3,6) assms(4,3)] by metis
  have ints: "fint r mono \<and> fint r boot \<and> 0 \<le> ival r mono \<and> 0 \<le> ival r boot" if "r \<in> set rs" for r
  proof -
    from enumerate_member [OF that, of 1] seg(1) obtain i where "integer_field_errors i r = []" by blast
    from integer_fields_clean [OF this] show ?thesis by (simp add: nonneg_fields_def mono_def boot_def)
  qed
  have offs: "offsets_of (timeline_of rs) = map offset rs"
    using ints parts(3) by (simp add: offsets_of_def filter_id_conv)
  have "clean_step th (a, b)" if "(a, b) \<in> set (pairs rs)" for a b
  proof -
    from pair_in [OF that] rs have ab: "a \<in> set rs" "b \<in> set (ss @ [e])" "b \<in> set rs" by auto
    with types have "is_point b" by (auto simp: is_point_def typed_def list_all_iff)
    with step_clean [of a b] seg(4,5) parts(3) that ab ints offsets_clean [OF seg(7) [unfolded offs] that]
    show ?thesis by (simp add: clean_step_def)
  qed
  then have steps: "list_all (clean_step th) (pairs rs)" by (auto simp: list_all_iff)
  have bound: "list_all (bound_point m) (ss @ [e])"
    using point_bound [OF seg(8) assms(5-8)] parts by (auto simp: list_all_iff)
  have "is_str (fget m ''boot_id'')" "0 < ival m ''trial_pid''"
    using assms(5,6) parts(1) by (auto simp: boot_unknown_def cgroup_unknown_def Let_def)
  with rs types fin bound sequence_clean [OF seg(2)] ints steps offs show ?thesis
    unfolding clean_timeline_def by (auto simp: list_all_iff)
qed

section \<open>An affirmative verdict\<close>

text \<open>A timeline of a metadata record, two samples and an end record, 150 ms apart.\<close>

definition clock_point :: "string \<Rightarrow> int \<Rightarrow> rec" where
  "clock_point t n = [(''schema'', PStr clock_schema), (''record_type'', PStr t), (''trial_id'', PInt 7), (''sequence'', PInt n),
     (mono, PInt (150000000 * n)), (boot, PInt (150000000 * n)), (''boottime_minus_monotonic_ns'', PInt 0),
     (''sampling_gap_ns'', PInt 150000000), (''elapsed_monotonic_ns'', PInt (150000000 * n)),
     (''elapsed_boottime_ns'', PInt (150000000 * n)), (''suspend_delta_ns'', PInt 0), (''pair_read_span_ns'', PInt 1000),
     (''process_cpu_ns'', PNone), (''boot_id'', PStr ''b''), (''boot_id_read_status'', PStr ''AVAILABLE''),
     (''cgroup_read_status'', PStr ''AVAILABLE''), (''cgroup_frozen'', PInt 0), (''cgroup_populated'', PInt 1),
     (''termination'', PStr ''completed''), (''sample_count'', PInt 2), (''interval_ms'', PInt 150),
     (''clock_monotonic_resolution_ns'', PInt 1), (''clock_boottime_resolution_ns'', PInt 1), (''trial_pid'', PInt 1),
     (''cgroup_binding_status'', PStr ''AVAILABLE''), (''cgroup_path'', PStr ''/c''), (''pid_starttime_ticks'', PInt 0)]"

definition clock_line :: "string \<Rightarrow> pyval option" where
  "clock_line l = (if l = ''m'' then Some (PDict (clock_point ''metadata'' 0))
     else if l = ''s'' then Some (PDict (clock_point ''sample'' 1))
     else if l = ''t'' then Some (PDict (clock_point ''sample'' 2))
     else if l = ''e'' then Some (PDict (clock_point ''end'' 3)) else None)"

definition clock_text :: string where "clock_text = [CHR ''m'', CHR 0x0A, CHR ''s'', CHR 0x0A, CHR ''t'', CHR 0x0A, CHR ''e'']"


definition clock_recs :: "rec list" where
  "clock_recs = [clock_point ''metadata'' 0, clock_point ''sample'' 1, clock_point ''sample'' 2, clock_point ''end'' 3]"

lemma percentile_in: "vs \<noteq> [] \<Longrightarrow> \<exists>p \<in> set vs. percentile vs f = Some p"
proof -
  assume "vs \<noteq> []"
  then have "nat (max 0 (min (int (length vs) - 1) k)) < length (sort vs)" for k by (cases vs) auto
  from nth_mem [OF this] \<open>vs \<noteq> []\<close> show ?thesis by (auto simp: percentile_def)
qed

lemma clock_example:
  "parse_clock_jsonl clock_line (\<lambda>v. []) [] (Some clock_text) = Inr (clock_recs, [])"
  "clock_errors clock_recs 1000000 = Inr []" "cpu_utilization clock_recs = Inr None" "timeline_of clock_recs = clock_recs"
  "\<not> cgroup_unknown clock_recs \<and> \<not> cgroup_frozen clock_recs \<and> \<not> cgroup_empty clock_recs \<and> \<not> boot_unknown clock_recs"
  "max_change (offsets_of clock_recs) = Some 0"
  "metadata_of clock_recs = clock_point ''metadata'' 0"
  "filter (\<lambda>k. fint (clock_point ''metadata'' 0) k \<and> 0 < ival (clock_point ''metadata'' 0) k) resolution_fields = resolution_fields"
  "map (ival (clock_point ''metadata'' 0)) resolution_fields = [1, 1]"
  "map (\<lambda>r. ival r ''pair_read_span_ns'')
            (filter (\<lambda>r. fint r ''pair_read_span_ns'' \<and> 0 \<le> ival r ''pair_read_span_ns'') clock_recs) = [1000, 1000, 1000, 1000]"
  by code_simp+

lemma clock_example_margin: "fst (margin (clock_point ''metadata'' 0) clock_recs) = 1000000"
  using percentile_in [of "[1000, 1000, 1000, 1000]" "95 / 100"]
  by (simp only: margin_def clock_example Let_def) (auto simp: min_margin_ns_def resolution_fields_def)

lemma clock_example_runs:
  "\<exists>res. analyze_clock clock_line (\<lambda>v. []) [] (Some clock_text) = Inr res \<and> clock_exit res = 0 \<and> \<not> cr_suspend res"
proof -
  obtain a b where m: "margin (clock_point ''metadata'' 0) clock_recs = (1000000, a, b)"
    using clock_example_margin by (metis prod.collapse)
  have "clock_recs \<noteq> []" by (simp add: clock_recs_def)
  with m show ?thesis
    by (simp add: analyze_clock_def clock_example analyze_records_def Let_def verdict_def clock_exit_def)
qed

text \<open>
  Claim C6. The clock analysis fails closed: only a timeline that was parsed without a message,
  is complete and numbered, whose clocks advance with gaps of at most half a second and
  without a step back beyond the margin, with one boot and a readable, populated and
  unfrozen cgroup at every point, gets an affirmative verdict; then the verdict is that of
  the clocks: a suspend exactly when some offset exceeds the first one by more than the
  margin, which is at least one millisecond.
\<close>

theorem clock_verdict_sound:
  assumes "analyze_clock loads show kind content = Inr res" and "clock_exit res = 0"
  shows "\<exists>rs. parse_clock_jsonl loads show kind content = Inr (rs, []) \<and> clean_timeline (cr_threshold res) rs \<and>
    1000000 \<le> cr_threshold res \<and> cr_coverage_valid res \<and>
    (cr_status res = Suspend_Observed \<longleftrightarrow> (\<exists>r \<in> set rs. cr_threshold res < offset r - offset (hd rs))) \<and>
    (cr_status res = No_Suspend_Observed \<longleftrightarrow> \<not> (\<exists>r \<in> set rs. cr_threshold res < offset r - offset (hd rs)))"
proof -
  from assms(1) obtain rs errs where parse: "parse_clock_jsonl loads show kind content = Inr (rs, errs)"
    and run: "analyze_records rs errs = Inr res" by (auto simp: analyze_clock_def bindR_Inr_iff)
  have ne: "rs \<noteq> []" using run assms(2) by (auto simp: analyze_records_def no_records_def clock_exit_def)
  obtain th mr p95 where mg: "margin (metadata_of rs) (timeline_of rs) = (th, mr, p95)" by (metis prod_cases3)
  from run ne mg obtain found where found: "clock_errors rs th = Inr found"
    and res: "cr_threshold res = th" "cr_coverage_valid res = (filter (\<lambda>e. \<not> prefix ''CGROUP_'' e) (errs @ found) = [])"
      "cr_status res = verdict (\<not> cr_coverage_valid res)
         (cgroup_unknown rs \<or> cgroup_frozen rs \<or> cgroup_empty rs \<or> boot_unknown rs)
         (case max_change (offsets_of (timeline_of rs)) of None \<Rightarrow> False | Some c \<Rightarrow> th < c)"
    by (auto simp: analyze_records_def Let_def bindR_Inr_iff)
  from assms(2) res(3) have ok: "cr_coverage_valid res" "\<not> cgroup_unknown rs" "\<not> cgroup_frozen rs" "\<not> cgroup_empty rs"
      "\<not> boot_unknown rs"
    by (auto simp: clock_exit_def verdict_def split: if_splits)
  from ok(1) res(2) have "errs = []" using none_invalidating parse_invalidating [OF parse] by simp
  with parse have parse0: "parse_clock_jsonl loads show kind content = Inr (rs, [])" by simp
  have "invalidating found \<Longrightarrow> found = []" using none_invalidating ok(1) res(2) by simp
  from clean_timeline_of_errors [OF found this ne _ ok(5,2,3,4)] parse_known [OF parse0]
  have clean: "clean_timeline th rs" and offs: "offsets_of (timeline_of rs) = map offset rs" by auto
  have "(case max_change (map offset rs) of None \<Rightarrow> False | Some c \<Rightarrow> th < c) \<longleftrightarrow>
      (\<exists>r \<in> set rs. th < offset r - offset (hd rs))"
    using ne by (cases rs) (auto simp: max_change_def Max_gr_iff)
  with parse0 clean res ok offs mg margin_at_least [of "metadata_of rs" "timeline_of rs"] show ?thesis
    by (intro exI [of _ rs]) (simp add: verdict_def min_margin_ns_def)
qed

theorem clock_verdict_sound_witness:
  "\<exists>res rs. analyze_clock clock_line (\<lambda>v. []) [] (Some clock_text) = Inr res \<and> cr_coverage_valid res \<and>
     clean_timeline (cr_threshold res) rs \<and> parse_clock_jsonl clock_line (\<lambda>v. []) [] (Some clock_text) = Inr (rs, [])"
  using clock_example_runs clock_verdict_sound [of clock_line "\<lambda>v. []" "[]" "Some clock_text"] by blast

end
