(* ===== verification/Py_Keys.thy ===== *)
theory Py_Keys
  imports Py_Value
begin

text \<open>
  Python's sets and dicts keyed by values of \<open>json.loads\<close>: which values can be keys, when two
  are the same key, and how many keys a list of values gives.
\<close>

text \<open>A list or dict cannot be a key.\<close>

definition hashable :: "pyval \<Rightarrow> bool" where
  "hashable v = (\<not> is_list v \<and> \<not> is_dict v)"

text \<open>
  Identity or equality: the parser's \<open>NaN\<close> is one object, so it is found again although it is
  not equal to itself.
\<close>

definition key_eq :: "pyval \<Rightarrow> pyval \<Rightarrow> bool" where
  "key_eq v w = (v = w \<or> py_eq v w)"

fun keys_of :: "pyval list \<Rightarrow> pyval list" where
  "keys_of [] = []"
| "keys_of (v # vs) = v # filter (\<lambda>w. \<not> key_eq v w) (keys_of vs)"

lemma key_eq_refl [simp]: "key_eq v v"
  by (simp add: key_eq_def)

lemma py_eq_hashable:
  "hashable v \<Longrightarrow> py_eq v w \<longleftrightarrow>
     (case num_of v of None \<Rightarrow> w = v | Some x \<Rightarrow> (case num_of w of None \<Rightarrow> False | Some y \<Rightarrow> f_eq x y))"
  by (cases v) (auto simp: hashable_def split: pyval.splits)

lemma f_eq_laws: "f_eq x y \<longleftrightarrow> f_eq y x" "f_eq x y \<Longrightarrow> f_eq y z \<Longrightarrow> f_eq x z"
  by (cases x; cases y; cases z; auto)+

lemma key_eq_sym: "hashable v \<Longrightarrow> hashable w \<Longrightarrow> key_eq v w \<Longrightarrow> key_eq w v"
  by (auto simp: key_eq_def py_eq_hashable f_eq_laws(1) split: option.splits)

lemma key_eq_trans: "hashable u \<Longrightarrow> hashable v \<Longrightarrow> key_eq u v \<Longrightarrow> key_eq v w \<Longrightarrow> key_eq u w"
  by (auto simp: key_eq_def py_eq_hashable split: option.splits dest: f_eq_laws(2))

lemma keys_of_subset: "set (keys_of vs) \<subseteq> set vs"
  by (induction vs) auto

lemma keys_of_cover: "\<forall>v \<in> set vs. hashable v \<Longrightarrow> v \<in> set vs \<Longrightarrow> \<exists>k \<in> set (keys_of vs). key_eq k v"
proof (induction vs)
  case (Cons u us)
  then show ?case
  proof (cases "v = u")
    case False
    with Cons obtain k where k: "k \<in> set (keys_of us)" "key_eq k v" by auto
    show ?thesis
    proof (cases "key_eq u k")
      case True
      with k Cons.prems keys_of_subset [of us] have "key_eq u v" by (intro key_eq_trans [of u k v]) auto
      then show ?thesis by simp
    qed (use k in auto)
  qed simp
qed simp

text \<open>More than one key: two of the values differ as keys.\<close>

lemma two_keys:
  assumes "\<forall>v \<in> set vs. hashable v"
  shows "2 \<le> length (keys_of vs) \<longleftrightarrow> (\<exists>v \<in> set vs. \<exists>w \<in> set vs. \<not> key_eq v w)"
proof (cases vs)
  case (Cons u us)
  have "filter (\<lambda>w. \<not> key_eq u w) (keys_of us) \<noteq> [] \<longleftrightarrow> (\<exists>w \<in> set us. \<not> key_eq u w)"
  proof
    assume "\<exists>w \<in> set us. \<not> key_eq u w"
    then obtain w where w: "w \<in> set us" "\<not> key_eq u w" by auto
    with keys_of_cover [of us w] assms Cons obtain k where "k \<in> set (keys_of us)" "key_eq k w" by auto
    with w keys_of_subset [of us] assms Cons key_eq_trans [of u k w]
    show "filter (\<lambda>w. \<not> key_eq u w) (keys_of us) \<noteq> []" by (auto simp: filter_empty_conv)
  qed (use keys_of_subset [of us] in \<open>auto simp: filter_empty_conv\<close>)
  moreover have "(\<exists>v \<in> set vs. \<exists>w \<in> set vs. \<not> key_eq v w) \<longleftrightarrow> (\<exists>w \<in> set us. \<not> key_eq u w)"
    using assms Cons by (auto intro: key_eq_trans key_eq_sym)
      (metis key_eq_sym key_eq_trans)
  ultimately show ?thesis using Cons by (cases "filter (\<lambda>w. \<not> key_eq u w) (keys_of us)") auto
qed simp

end
