(* ===== verification/J1_Engine.thy ===== *)
theory J1_Engine
  imports Py_Keys
begin

text \<open>
  \<open>tools/rmg-eze4/analysis/engine.py\<close>: the earlier classifier of single observations. A record is
  a dict with string keys. \<open>json.dumps\<close> of an environment, with sorted keys, is the parameter
  \<open>dumps\<close>. A computation that may raise gives a \<open>pyexc\<close>.
\<close>

type_synonym observation = "(string \<times> pyval) list"

datatype classification =
    Obs_Compatible
  | Obs_Incompatible
  | Obs_Inconclusive
  | Obs_Invalid_Measurement

datatype attribution = Attributable | Partially_Attributable | Not_Attributable

definition levels :: "(string \<times> nat) list" where
  "levels = [(''E0'', 0), (''E1'', 1), (''E2'', 2), (''E3'', 3), (''E4'', 4)]"

definition required_fields :: "string list" where
  "required_fields = [''SESSION_ID'', ''BOOT_ID'', ''CONDITION_ID'', ''TRIAL_ID'', ''MEASUREMENT_ID'',
     ''GROUP_ID'', ''PARAMETER'', ''OBSERVABLE'', ''TIMESTAMP_HOST'', ''SOURCE'', ''RAW_EVIDENCE_REF'',
     ''ENVIRONMENT'', ''EXPECTED_CRITERION'', ''OBSERVED_VALUE'', ''CONFIDENCE'', ''CONFOUNDERS'', ''SYNTHETIC'']"

definition oget :: "observation \<Rightarrow> string \<Rightarrow> pyval" where
  "oget r k = (case map_of r k of None \<Rightarrow> PNone | Some v \<Rightarrow> v)"

definition oget_list :: "observation \<Rightarrow> string \<Rightarrow> pyval" where
  "oget_list r k = (case map_of r k of None \<Rightarrow> PList [] | Some v \<Rightarrow> v)"

text \<open>\<open>len(v)\<close>.\<close>

fun py_len :: "pyval \<Rightarrow> (pyexc, nat) res" where
  "py_len (PStr s) = Inr (length s)"
| "py_len (PList xs) = Inr (length xs)"
| "py_len (PDict kvs) = Inr (length kvs)"
| "py_len _ = Inl TypeError"

section \<open>Single records\<close>

definition validate_observation :: "observation \<Rightarrow> (pyexc, string list) res" where
  "validate_observation r =
     bindR (py_key_in (oget r ''EVIDENCE_LEVEL'') (map fst levels)) (\<lambda>level_ok.
       Inr (map (\<lambda>f. ''MISSING_'' @ f) (sorted_set (filter (\<lambda>f. map_of r f = None) required_fields)) @
            flag (oget r ''SYNTHETIC'' \<noteq> PBool True) ''NOT_EXPLICITLY_SYNTHETIC_OR_APPROVED_INPUT'' @
            flag (\<not> level_ok) ''BAD_EVIDENCE_LEVEL'' @
            flag (\<not> is_dict (oget r ''ENVIRONMENT'')) ''BAD_ENVIRONMENT'' @
            flag (\<not> is_list (oget r ''CONFOUNDERS'')) ''BAD_CONFOUNDERS'' @
            flag (\<not> (py_eq (oget r ''OBSERVABLE_AVAILABLE'') (PBool True) \<or>
                      py_eq (oget r ''OBSERVABLE_AVAILABLE'') (PBool False))) ''BAD_OBSERVABLE_AVAILABILITY'' @
            flag (oget r ''BASELINE_MATCH'' = PBool False) ''BASELINE_MISMATCH'' @
            flag (oget r ''SESSION_MATCH'' = PBool False) ''WRONG_SESSION''))"

definition enforce_evidence_level :: "string \<Rightarrow> string \<Rightarrow> bool" where
  "enforce_evidence_level actual required =
     (case (map_of levels actual, map_of levels required) of (Some a, Some b) \<Rightarrow> b \<le> a | _ \<Rightarrow> False)"

definition attribution_reasons :: "bool \<Rightarrow> bool \<Rightarrow> observation \<Rightarrow> (pyexc, string list) res" where
  "attribution_reasons prerequisites_valid p0_resolved r =
     bindR (py_len (oget_list r ''CHANGED_PARAMETERS'')) (\<lambda>changed.
     bindR (py_key_in (oget r ''P0_DEPENDENCY'') [''P0_DEPENDENT'', ''P0_ONLY'']) (\<lambda>p0.
       Inr (flag (\<not> truthy (oget r ''RAW_EVIDENCE_REF'')) ''MISSING_RAW_EVIDENCE_REF'' @
            flag (\<not> truthy (oget r ''ENVIRONMENT'')) ''MISSING_ENVIRONMENT'' @
            flag (1 < changed) ''MULTIPLE_PARAMETERS_CHANGED'' @
            flag (\<not> prerequisites_valid) ''MISSING_PREREQUISITE'' @
            flag (p0 \<and> \<not> p0_resolved) ''P0_BLOCKED'' @
            flag (truthy (oget r ''MULTI_BOOT'') \<and> \<not> truthy (oget r ''BOOT_ID'')) ''MISSING_BOOT_ID'' @
            flag (truthy (oget_list r ''UNRESOLVED_GROUP_DEPENDENCIES'')) ''UNRESOLVED_GROUP_DEPENDENCY'')))"

definition hard_reasons :: "string list" where
  "hard_reasons = [''MISSING_RAW_EVIDENCE_REF'', ''MISSING_PREREQUISITE'', ''P0_BLOCKED'', ''MISSING_BOOT_ID'',
     ''UNRESOLVED_GROUP_DEPENDENCY'']"

definition assess_attribution :: "bool \<Rightarrow> bool \<Rightarrow> observation \<Rightarrow> (pyexc, attribution \<times> string list) res" where
  "assess_attribution prerequisites_valid p0_resolved r =
     bindR (attribution_reasons prerequisites_valid p0_resolved r) (\<lambda>reasons.
       Inr (if reasons = [] then Attributable
            else if list_ex (\<lambda>h. h \<in> set reasons) hard_reasons then Not_Attributable else Partially_Attributable, reasons))"

definition record_vote :: "observation \<Rightarrow> classification" where
  "record_vote r =
     (let compatible = (oget r ''COMPATIBILITY_CRITERION_MET'' = PBool True);
          incompatible = (oget r ''INCOMPATIBILITY_CRITERION_MET'' = PBool True)
      in if truthy (oget r ''MEASUREMENT_INVALID'') then Obs_Invalid_Measurement
         else if \<not> truthy (oget r ''OBSERVABLE_AVAILABLE'') then Obs_Inconclusive
         else if truthy (oget r ''OUTLIER_UNRESOLVED'') then Obs_Inconclusive
         else if compatible \<and> incompatible then Obs_Inconclusive
         else if incompatible then Obs_Incompatible
         else if compatible then Obs_Compatible
         else Obs_Inconclusive)"

section \<open>The aggregation\<close>

text \<open>\<open>groups.setdefault(k, set()).add(e)\<close>.\<close>

fun add_to_group :: "pyval \<Rightarrow> string \<Rightarrow> (pyval \<times> string list) list \<Rightarrow> (pyval \<times> string list) list" where
  "add_to_group k e [] = [(k, [e])]"
| "add_to_group k e ((l, es) # gs) =
     (if key_eq l k then (l, if e \<in> set es then es else es @ [e]) # gs else (l, es) # add_to_group k e gs)"

text \<open>The dumped environments of each condition.\<close>

fun condition_environments ::
  "(pyval \<Rightarrow> string) \<Rightarrow> observation list \<Rightarrow> (pyval \<times> string list) list \<Rightarrow> (pyexc, (pyval \<times> string list) list) res" where
  "condition_environments dumps [] gs = Inr gs"
| "condition_environments dumps (r # rs) gs =
     guardR (hashable (oget r ''CONDITION_ID'')) TypeError
       (condition_environments dumps rs (add_to_group (oget r ''CONDITION_ID'') (dumps (oget r ''ENVIRONMENT'')) gs))"

text \<open>\<open>max(levels, key=...)\<close>: the first of the highest; every level is in the table here.\<close>

definition level_rank :: "string \<Rightarrow> nat" where
  "level_rank l = (case map_of levels l of None \<Rightarrow> 0 | Some n \<Rightarrow> n)"

fun first_max :: "('a \<Rightarrow> nat) \<Rightarrow> 'a \<Rightarrow> 'a list \<Rightarrow> 'a" where
  "first_max f best [] = best"
| "first_max f best (x # xs) = (if f best < f x then first_max f x xs else first_max f best xs)"

definition level_of :: "observation \<Rightarrow> string" where
  "level_of r = (case oget r ''EVIDENCE_LEVEL'' of PStr s \<Rightarrow> s | _ \<Rightarrow> [])"

definition supplied_level :: "observation list \<Rightarrow> string" where
  "supplied_level rs = (case map level_of rs of [] \<Rightarrow> [] | l # ls \<Rightarrow> first_max level_rank l ls)"

text \<open>\<open>{r[k] for r in records if r.get(k)}\<close>.\<close>

definition key_set :: "string \<Rightarrow> observation list \<Rightarrow> (pyexc, pyval list) res" where
  "key_set k rs =
     (let vs = filter truthy (map (\<lambda>r. oget r k) rs) in guardR (list_all hashable vs) TypeError (Inr (keys_of vs)))"

definition vote_result :: "classification list \<Rightarrow> classification \<times> string list" where
  "vote_result votes =
     (if Obs_Invalid_Measurement \<in> set votes then (Obs_Invalid_Measurement, [''INVALID_MEMBER_MEASUREMENT''])
      else if Obs_Compatible \<in> set votes \<and> Obs_Incompatible \<in> set votes
        then (Obs_Inconclusive, [''CONTRADICTORY_OBSERVABLE''])
      else if Obs_Incompatible \<in> set votes then (Obs_Incompatible, [])
      else if Obs_Inconclusive \<in> set votes then (Obs_Inconclusive, [''INCONCLUSIVE_MEMBER''])
      else if Obs_Compatible \<in> set votes then (Obs_Compatible, [])
      else (Obs_Inconclusive, [''NO_DECISIVE_VOTE'']))"

record options =
  required_level :: string
  prerequisites :: bool
  p0_known :: bool
  cross_boot :: bool
  cross_condition :: bool

definition classify_usable :: "(pyval \<Rightarrow> string) \<Rightarrow> options \<Rightarrow> observation list \<Rightarrow> (pyexc, classification \<times> string list) res" where
  "classify_usable dumps opts rs =
     bindR (condition_environments dumps rs []) (\<lambda>groups.
       if list_ex (\<lambda>(k, es). 1 < length es) groups then Inr (Obs_Invalid_Measurement, [''CONDITION_DRIFT''])
       else if \<not> enforce_evidence_level (supplied_level rs) (required_level opts)
         then Inr (Obs_Inconclusive, [''INSUFFICIENT_EVIDENCE_LEVEL''])
       else
         bindR (key_set ''BOOT_ID'' rs) (\<lambda>boots.
         bindR (key_set ''CONDITION_ID'' rs) (\<lambda>conditions.
           Inr (if cross_boot opts \<and> length boots < 2 then (Obs_Inconclusive, [''CROSS_BOOT_REQUIRED''])
                else if cross_condition opts \<and> length conditions < 2
                  then (Obs_Inconclusive, [''CROSS_CONDITION_REQUIRED''])
                else vote_result (map record_vote rs)))))"

definition analyze_observations ::
  "(pyval \<Rightarrow> string) \<Rightarrow> options \<Rightarrow> observation list \<Rightarrow> (pyexc, classification \<times> string list) res" where
  "analyze_observations dumps opts rs =
     (if rs = [] then Inr (Obs_Inconclusive, [''NO_OBSERVATIONS''])
      else
        bindR (catR (map validate_observation rs)) (\<lambda>structural.
          if structural \<noteq> [] then Inr (Obs_Invalid_Measurement, sorted_set structural)
          else
            bindR (mapR (assess_attribution (prerequisites opts) (p0_known opts)) rs) (\<lambda>attr.
              if list_ex (\<lambda>(st, _). st \<noteq> Attributable) attr
              then Inr (Obs_Inconclusive, sorted_set (concat (map snd attr)))
              else classify_usable dumps opts rs)))"

end
