(* ===== verification/J1_Properties.thy ===== *)
theory J1_Properties
  imports J1_Engine
begin

text \<open>
  What the verdicts of \<open>tools/rmg-eze4/analysis/engine.py\<close> mean: when the observations of a
  group are called compatible, and that the order of the observations does not matter.
\<close>

section \<open>One environment per condition\<close>

definition envs :: "pyval \<Rightarrow> (pyval \<times> string list) list \<Rightarrow> string set" where
  "envs k gs = (case find (\<lambda>(l, _). key_eq l k) gs of None \<Rightarrow> {} | Some (_, es) \<Rightarrow> set es)"

definition well_grouped :: "(pyval \<times> string list) list \<Rightarrow> bool" where
  "well_grouped gs \<longleftrightarrow> (\<forall>(l, es) \<in> set gs. hashable l \<and> distinct es) \<and>
     sorted_wrt (\<lambda>a b. \<not> key_eq (fst a) (fst b)) gs"

lemma envs_simps [simp]:
  "envs k [] = {}" "envs k ((l, es) # gs) = (if key_eq l k then set es else envs k gs)"
  by (simp_all add: envs_def)

lemma fst_add_to_group: "fst ` set (add_to_group k e gs) \<subseteq> insert k (fst ` set gs)"
  by (induction k e gs rule: add_to_group.induct) auto

lemma fst_of_groups: "g \<in> set (add_to_group k e gs) \<Longrightarrow> fst g = k \<or> fst g \<in> fst ` set gs"
  using fst_add_to_group by fastforce

lemma well_grouped_add:
  "well_grouped gs \<Longrightarrow> hashable k \<Longrightarrow> well_grouped (add_to_group k e gs)"
proof (induction k e gs rule: add_to_group.induct)
  case (2 k e l es gs)
  show ?case
  proof (cases "key_eq l k")
    case False
    from 2 False have "well_grouped (add_to_group k e gs)" by (auto simp: well_grouped_def)
    moreover have "\<forall>g \<in> set (add_to_group k e gs). \<not> key_eq l (fst g)"
      using 2(2) False fst_of_groups [of _ k e gs] by (fastforce simp: well_grouped_def)
    ultimately show ?thesis using 2(2) False by (auto simp: well_grouped_def)
  qed (use 2 in \<open>auto simp: well_grouped_def\<close>)
qed (simp add: well_grouped_def)

lemma envs_add:
  "well_grouped gs \<Longrightarrow> hashable c \<Longrightarrow> hashable k \<Longrightarrow>
     envs k (add_to_group c e gs) = envs k gs \<union> (if key_eq c k then {e} else {})"
proof (induction c e gs rule: add_to_group.induct)
  case (2 c e l es gs)
  from 2(2) have l: "hashable l" and gs: "well_grouped gs" by (auto simp: well_grouped_def)
  show ?case
  proof (cases "key_eq l c")
    case True
    with key_eq_trans [of l c k] key_eq_trans [of c l k] key_eq_sym [of l c] l 2(3,4)
    have "key_eq l k \<longleftrightarrow> key_eq c k" by auto
    with True show ?thesis by auto
  next
    case False
    with key_eq_trans [of l k c] key_eq_sym [of c k] l 2(3,4) have "key_eq l k \<Longrightarrow> \<not> key_eq c k" by auto
    with False 2(1) [OF False gs 2(3,4)] show ?thesis by auto
  qed
qed simp

text \<open>Some group has two environments.\<close>

lemma group_with_two:
  assumes "well_grouped gs"
  shows "list_ex (\<lambda>(k, es). 1 < length es) gs \<longleftrightarrow> (\<exists>k. hashable k \<and> (\<exists>e \<in> envs k gs. \<exists>f \<in> envs k gs. e \<noteq> f))"
  using assms
proof (induction gs)
  case (Cons g gs)
  obtain l es where g: "g = (l, es)" by (cases g)
  with Cons.prems have d: "distinct es" "hashable l" and gs: "well_grouped gs"
    and other: "\<And>h. h \<in> set gs \<Longrightarrow> \<not> key_eq l (fst h)" by (auto simp: well_grouped_def)
  have two: "1 < length es \<longleftrightarrow> (\<exists>e \<in> set es. \<exists>f \<in> set es. e \<noteq> f)"
    using d(1) by (cases es; cases "tl es") auto
  have empty: "envs k gs = {}" if "key_eq l k" "hashable k" for k
  proof -
    have "\<not> key_eq (fst h) k" if "h \<in> set gs" for h
    proof
      assume "key_eq (fst h) k"
      moreover from \<open>h \<in> set gs\<close> gs have "hashable (fst h)" by (auto simp: well_grouped_def)
      ultimately have "key_eq l (fst h)"
        using key_eq_trans [of l k "fst h"] key_eq_sym [of "fst h" k] \<open>key_eq l k\<close> \<open>hashable k\<close> d(2) by blast
      with other [OF that] show False by simp
    qed
    then have "find (\<lambda>(l, _). key_eq l k) gs = None" by (auto simp: find_None_iff)
    then show ?thesis by (simp add: envs_def)
  qed
  show ?case (is "?L \<longleftrightarrow> ?R")
  proof
    assume ?L
    then consider "1 < length es" | "list_ex (\<lambda>(k, es). 1 < length es) gs" using g by auto
    then show ?R
    proof cases
      case 1
      with two d(2) g show ?thesis by (intro exI [of _ l]) simp
    next
      case 2
      with Cons.IH [OF gs] obtain k where k: "hashable k" "\<exists>e \<in> envs k gs. \<exists>f \<in> envs k gs. e \<noteq> f" by auto
      with empty have "\<not> key_eq l k" by auto
      with k g show ?thesis by (intro exI [of _ k]) simp
    qed
  next
    assume ?R
    then obtain k where k: "hashable k" "\<exists>e \<in> envs k (g # gs). \<exists>f \<in> envs k (g # gs). e \<noteq> f" by blast
    then show ?L using Cons.IH [OF gs] two g by (cases "key_eq l k") auto
  qed
qed simp

lemma condition_environments_iff:
  assumes "well_grouped gs" and "list_all (\<lambda>r. hashable (oget r ''CONDITION_ID'')) rs"
  shows "\<exists>hs. condition_environments dumps rs gs = Inr hs \<and> well_grouped hs \<and>
    (\<forall>k. hashable k \<longrightarrow> envs k hs = envs k gs \<union>
       {dumps (oget r ''ENVIRONMENT'') | r. r \<in> set rs \<and> key_eq (oget r ''CONDITION_ID'') k})"
  using assms
proof (induction rs arbitrary: gs)
  case (Cons r rs)
  let ?c = "oget r ''CONDITION_ID''" and ?e = "dumps (oget r ''ENVIRONMENT'')"
  from Cons.prems have c: "hashable ?c" by simp
  from Cons.IH [OF well_grouped_add [OF Cons.prems(1) c, of ?e]] Cons.prems(2)
  obtain hs where hs: "condition_environments dumps rs (add_to_group ?c ?e gs) = Inr hs" "well_grouped hs"
    and e: "\<And>k. hashable k \<Longrightarrow> envs k hs = envs k (add_to_group ?c ?e gs) \<union>
       {dumps (oget r ''ENVIRONMENT'') | r. r \<in> set rs \<and> key_eq (oget r ''CONDITION_ID'') k}" by auto
  have "envs k hs = envs k gs \<union>
       {dumps (oget s ''ENVIRONMENT'') | s. s \<in> set (r # rs) \<and> key_eq (oget s ''CONDITION_ID'') k}" if "hashable k" for k
    unfolding e [OF that] envs_add [OF Cons.prems(1) c that] by auto
  with hs c show ?case by auto
qed simp


text \<open>The group check: two records of one condition whose environments differ.\<close>

definition drifting :: "(pyval \<Rightarrow> string) \<Rightarrow> observation list \<Rightarrow> bool" where
  "drifting dumps rs \<longleftrightarrow> (\<exists>r \<in> set rs. \<exists>s \<in> set rs. key_eq (oget r ''CONDITION_ID'') (oget s ''CONDITION_ID'') \<and>
     dumps (oget r ''ENVIRONMENT'') \<noteq> dumps (oget s ''ENVIRONMENT''))"

lemma condition_environments_raise:
  "condition_environments dumps rs gs = Inr hs \<Longrightarrow> list_all (\<lambda>r. hashable (oget r ''CONDITION_ID'')) rs"
  by (induction rs arbitrary: gs) (auto simp: guardR_Inr_iff)

lemma condition_environments_error:
  "\<not> list_all (\<lambda>r. hashable (oget r ''CONDITION_ID'')) rs \<Longrightarrow> condition_environments dumps rs gs = Inl TypeError"
  by (induction rs arbitrary: gs) (auto simp: guardR_def)

lemma drift_iff:
  assumes "condition_environments dumps rs [] = Inr gs"
  shows "list_ex (\<lambda>(k, es). 1 < length es) gs \<longleftrightarrow> drifting dumps rs"
proof -
  note h = condition_environments_raise [OF assms]
  have e: "well_grouped gs" "\<And>k. hashable k \<Longrightarrow> envs k gs =
      {dumps (oget r ''ENVIRONMENT'') | r. r \<in> set rs \<and> key_eq (oget r ''CONDITION_ID'') k}"
    using condition_environments_iff [of "[]" rs dumps] h assms by (auto simp: well_grouped_def)
  have "(\<exists>k. hashable k \<and> (\<exists>e \<in> envs k gs. \<exists>f \<in> envs k gs. e \<noteq> f)) \<longleftrightarrow> drifting dumps rs"
  proof
    assume "\<exists>k. hashable k \<and> (\<exists>e \<in> envs k gs. \<exists>f \<in> envs k gs. e \<noteq> f)"
    then obtain k r s where k: "hashable k" and rs: "r \<in> set rs" "s \<in> set rs"
        "key_eq (oget r ''CONDITION_ID'') k" "key_eq (oget s ''CONDITION_ID'') k"
        "dumps (oget r ''ENVIRONMENT'') \<noteq> dumps (oget s ''ENVIRONMENT'')" using e(2) by auto
    with h have "key_eq (oget r ''CONDITION_ID'') (oget s ''CONDITION_ID'')"
      by (auto simp: list_all_iff intro: key_eq_trans key_eq_sym)
    with rs show "drifting dumps rs" by (auto simp: drifting_def)
  next
    assume "drifting dumps rs"
    then obtain r s where rs: "r \<in> set rs" "s \<in> set rs" "key_eq (oget r ''CONDITION_ID'') (oget s ''CONDITION_ID'')"
        "dumps (oget r ''ENVIRONMENT'') \<noteq> dumps (oget s ''ENVIRONMENT'')" by (auto simp: drifting_def)
    moreover from rs(2) h have k: "hashable (oget s ''CONDITION_ID'')" by (simp add: list_all_iff)
    ultimately have "dumps (oget r ''ENVIRONMENT'') \<in> envs (oget s ''CONDITION_ID'') gs"
      "dumps (oget s ''ENVIRONMENT'') \<in> envs (oget s ''CONDITION_ID'') gs"
      by (auto simp: e(2))
    with rs k show "\<exists>k. hashable k \<and> (\<exists>e \<in> envs k gs. \<exists>f \<in> envs k gs. e \<noteq> f)" by blast
  qed
  with group_with_two [OF e(1)] show ?thesis by simp
qed

section \<open>The checks of single records\<close>

text \<open>Loops whose body raises nothing but \<open>TypeError\<close>.\<close>

lemma catR_TypeError:
  assumes "\<And>x e. f x = Inl e \<Longrightarrow> e = TypeError"
  shows "catR (map f xs) = (if \<exists>x \<in> set xs. f x = Inl TypeError then Inl TypeError else Inr (concat (map (projr \<circ> f) xs)))"
proof (induction xs)
  case (Cons x xs)
  then show ?case using assms [of x] by (cases "f x") auto
qed simp

lemma mapR_TypeError:
  assumes "\<And>x e. f x = Inl e \<Longrightarrow> e = TypeError"
  shows "mapR f xs = (if \<exists>x \<in> set xs. f x = Inl TypeError then Inl TypeError else Inr (map (projr \<circ> f) xs))"
proof (induction xs)
  case (Cons x xs)
  then show ?case using assms [of x] by (cases "f x") auto
qed simp

lemma key_in_error: "py_key_in v ks = Inl e \<Longrightarrow> e = TypeError"
  by (cases v) auto

lemma len_error: "py_len v = Inl e \<Longrightarrow> e = TypeError"
  by (cases v) auto

lemma validate_error: "validate_observation r = Inl e \<Longrightarrow> e = TypeError"
  by (auto simp: validate_observation_def bindR_Inl_iff dest: key_in_error)

lemma assess_error: "assess_attribution p q r = Inl e \<Longrightarrow> e = TypeError"
  by (auto simp: assess_attribution_def attribution_reasons_def bindR_Inl_iff dest: key_in_error len_error)

lemma assess_attributable:
  "assess_attribution p q r = Inr (st, why) \<Longrightarrow> st = Attributable \<longleftrightarrow> why = []"
  by (auto simp: assess_attribution_def bindR_Inr_iff split: if_splits)

lemma assess_Inr_Nil: "assess_attribution p q r = Inr (Attributable, []) \<longleftrightarrow> attribution_reasons p q r = Inr []"
  by (auto simp: assess_attribution_def bindR_Inr_iff split: if_splits)

section \<open>Levels and sets\<close>

lemma first_max_rank: "f (first_max f b xs) = Max (insert (f b) (f ` set xs))"
proof (induction xs arbitrary: b)
  case (Cons x xs)
  have "Max (insert (f b) (f ` set (x # xs))) = max (f b) (Max (insert (f x) (f ` set xs)))"
    by (simp add: insert_commute)
  also have "\<dots> = max (max (f b) (f x)) (Max (insert (max (f b) (f x)) (f ` set xs)))"
    by (cases "set xs = {}") (auto simp: max.assoc)
  finally show ?case using Cons.IH [of x] Cons.IH [of b] by (cases "set xs = {}") (auto simp: max_def)
qed simp

lemma first_max_in: "first_max f b xs \<in> insert b (set xs)"
  by (induction f b xs rule: first_max.induct) auto

definition in_table :: "string \<Rightarrow> bool" where "in_table l \<longleftrightarrow> map_of levels l \<noteq> None"

lemma enforce_iff: "enforce_evidence_level a b \<longleftrightarrow> in_table a \<and> in_table b \<and> level_rank b \<le> level_rank a"
  by (auto simp: enforce_evidence_level_def in_table_def level_rank_def split: option.splits)

lemma enforce_supplied:
  assumes "rs \<noteq> []" and "\<forall>r \<in> set rs. in_table (level_of r)"
  shows "enforce_evidence_level (supplied_level rs) req \<longleftrightarrow>
    in_table req \<and> (\<exists>r \<in> set rs. level_rank req \<le> level_rank (level_of r))"
proof -
  obtain r us where rs: "rs = r # us" using assms(1) by (cases rs) auto
  let ?m = "first_max level_rank (level_of r) (map level_of us)"
  have "?m \<in> level_of ` set rs" using first_max_in [of level_rank "level_of r" "map level_of us"] rs by auto
  then have "in_table ?m" using assms(2) by auto
  moreover have "level_rank req \<le> level_rank ?m \<longleftrightarrow> (\<exists>r \<in> set rs. level_rank req \<le> level_rank (level_of r))"
    unfolding first_max_rank rs by (subst Max_ge_iff) auto
  ultimately show ?thesis by (simp add: enforce_iff supplied_level_def rs)
qed

lemma valid_level:
  assumes "validate_observation r = Inr []"
  shows "in_table (level_of r)"
proof -
  from assms have "py_key_in (oget r ''EVIDENCE_LEVEL'') (map fst levels) = Inr True"
    by (auto simp: validate_observation_def bindR_Inr_iff)
  then obtain s where "oget r ''EVIDENCE_LEVEL'' = PStr s" "s \<in> set (map fst levels)"
    by (cases "oget r ''EVIDENCE_LEVEL''") auto
  then show ?thesis by (auto simp: in_table_def level_of_def map_of_eq_None_iff)
qed

text \<open>At least two keys among the values of a field that count.\<close>

definition two_values :: "string \<Rightarrow> observation list \<Rightarrow> bool" where
  "two_values k rs \<longleftrightarrow> (\<exists>r \<in> set rs. \<exists>s \<in> set rs. truthy (oget r k) \<and> truthy (oget s k) \<and> \<not> key_eq (oget r k) (oget s k))"

definition keyable :: "string \<Rightarrow> observation list \<Rightarrow> bool" where
  "keyable k rs \<longleftrightarrow> (\<forall>r \<in> set rs. truthy (oget r k) \<longrightarrow> hashable (oget r k))"

lemma key_set_eq:
  "key_set k rs = (if keyable k rs then Inr (keys_of (filter truthy (map (\<lambda>r. oget r k) rs))) else Inl TypeError)"
  by (auto simp: key_set_def keyable_def list_all_iff Let_def guardR_def)

lemma key_set_small: "keyable k rs \<Longrightarrow> length (keys_of (filter truthy (map (\<lambda>r. oget r k) rs))) < 2 \<longleftrightarrow> \<not> two_values k rs"
  using two_keys [of "filter truthy (map (\<lambda>r. oget r k) rs)"] by (auto simp: keyable_def two_values_def not_less [symmetric])

section \<open>The verdict in terms of the set of observations\<close>

definition hash_conditions :: "observation list \<Rightarrow> bool" where
  "hash_conditions rs \<longleftrightarrow> (\<forall>r \<in> set rs. hashable (oget r ''CONDITION_ID''))"

lemma classify_usable_eq:
  assumes "rs \<noteq> []" and "\<forall>r \<in> set rs. in_table (level_of r)"
  shows "classify_usable dumps opts rs =
    (if \<not> hash_conditions rs then Inl TypeError
     else if drifting dumps rs then Inr (Obs_Invalid_Measurement, [''CONDITION_DRIFT''])
     else if \<not> (in_table (required_level opts) \<and> (\<exists>r \<in> set rs. level_rank (required_level opts) \<le> level_rank (level_of r)))
       then Inr (Obs_Inconclusive, [''INSUFFICIENT_EVIDENCE_LEVEL''])
     else if \<not> keyable ''BOOT_ID'' rs then Inl TypeError
     else if cross_boot opts \<and> \<not> two_values ''BOOT_ID'' rs then Inr (Obs_Inconclusive, [''CROSS_BOOT_REQUIRED''])
     else if cross_condition opts \<and> \<not> two_values ''CONDITION_ID'' rs
       then Inr (Obs_Inconclusive, [''CROSS_CONDITION_REQUIRED''])
     else Inr (vote_result (map record_vote rs)))"
proof (cases "hash_conditions rs")
  case True
  then have "list_all (\<lambda>r. hashable (oget r ''CONDITION_ID'')) rs" by (simp add: hash_conditions_def list_all_iff)
  then obtain gs where gs: "condition_environments dumps rs [] = Inr gs"
    using condition_environments_iff [of "[]" rs dumps] by (auto simp: well_grouped_def)
  have "keyable ''CONDITION_ID'' rs" using True by (simp add: keyable_def hash_conditions_def)
  with gs drift_iff [OF gs] True show ?thesis
    by (simp add: classify_usable_def enforce_supplied [OF assms] key_set_eq key_set_small)
next
  case False
  with condition_environments_error [of rs dumps "[]"] show ?thesis
    by (simp add: classify_usable_def hash_conditions_def list_all_iff)
qed

text \<open>The messages of all records, as sets.\<close>

lemma analyze_eq:
  assumes "rs \<noteq> []"
  shows "analyze_observations dumps opts rs =
    (if \<exists>r \<in> set rs. validate_observation r = Inl TypeError then Inl TypeError
     else if \<exists>r \<in> set rs. validate_observation r \<noteq> Inr []
       then Inr (Obs_Invalid_Measurement, sorted_list_of_set (\<Union>r \<in> set rs. set (projr (validate_observation r))))
     else let attr = assess_attribution (prerequisites opts) (p0_known opts) in
       if \<exists>r \<in> set rs. attr r = Inl TypeError then Inl TypeError
       else if \<exists>r \<in> set rs. attr r \<noteq> Inr (Attributable, [])
         then Inr (Obs_Inconclusive, sorted_list_of_set (\<Union>r \<in> set rs. set (snd (projr (attr r)))))
       else classify_usable dumps opts rs)"
proof -
  let ?v = validate_observation and ?a = "assess_attribution (prerequisites opts) (p0_known opts)"
  have ss: "sorted_set xs = sorted_list_of_set (set xs)" for xs :: "string list"
    by (simp add: sorted_set_def sorted_list_of_set_sort_remdups)
  have v: "(concat (map (projr \<circ> ?v) rs) \<noteq> []) = (\<exists>r \<in> set rs. ?v r \<noteq> Inr [])"
    if "\<forall>r \<in> set rs. ?v r \<noteq> Inl TypeError"
  proof -
    have "projr (?v r) = [] \<longleftrightarrow> ?v r = Inr []" if "r \<in> set rs" for r
      using \<open>\<forall>r \<in> set rs. ?v r \<noteq> Inl TypeError\<close> that validate_error [of r] by (cases "?v r") auto
    then show ?thesis by auto
  qed
  have a: "list_ex (\<lambda>(st, _). st \<noteq> Attributable) (map (projr \<circ> ?a) rs) = (\<exists>r \<in> set rs. ?a r \<noteq> Inr (Attributable, []))"
    if "\<forall>r \<in> set rs. ?a r \<noteq> Inl TypeError"
  proof -
    have "(case projr (?a r) of (st, _) \<Rightarrow> st \<noteq> Attributable) \<longleftrightarrow> ?a r \<noteq> Inr (Attributable, [])" if "r \<in> set rs" for r
      using \<open>\<forall>r \<in> set rs. ?a r \<noteq> Inl TypeError\<close> that assess_error [of "prerequisites opts" "p0_known opts" r]
        assess_attributable [of "prerequisites opts" "p0_known opts" r]
      by (cases "?a r") auto
    then show ?thesis by (auto simp: list_ex_iff)
  qed
  show ?thesis
    using assms v a
    by (simp add: analyze_observations_def catR_TypeError [OF validate_error] mapR_TypeError [OF assess_error] ss Let_def)
qed

definition usable :: "options \<Rightarrow> observation \<Rightarrow> bool" where
  "usable opts r \<longleftrightarrow> validate_observation r = Inr [] \<and> attribution_reasons (prerequisites opts) (p0_known opts) r = Inr []"

lemma all_votes: "(\<forall>v \<in> set vs. v = c) \<longleftrightarrow> (\<forall>d. d \<noteq> c \<longrightarrow> d \<notin> set vs)"
  by auto

lemma vote_compatible: "vs \<noteq> [] \<Longrightarrow> fst (vote_result vs) = Obs_Compatible \<longleftrightarrow> (\<forall>v \<in> set vs. v = Obs_Compatible)"
  unfolding all_votes by (auto simp: vote_result_def) (metis classification.exhaust list.set_intros(1) neq_Nil_conv)+

lemma usable_iff:
  "usable opts r \<longleftrightarrow> validate_observation r = Inr [] \<and>
     assess_attribution (prerequisites opts) (p0_known opts) r = Inr (Attributable, [])"
  by (simp add: usable_def assess_Inr_Nil)

text \<open>
  Claim C30. A group of observations is called compatible exactly when there is one, each is
  structurally valid and attributable with a compatible vote, no condition was run in two
  environments, some observation reaches the required level, and the observations span two
  boots and two conditions where the caller asks for it.
\<close>

theorem observations_compatible_iff:
  "(\<exists>why. analyze_observations dumps opts rs = Inr (Obs_Compatible, why)) \<longleftrightarrow>
     rs \<noteq> [] \<and> (\<forall>r \<in> set rs. usable opts r \<and> record_vote r = Obs_Compatible) \<and>
     hash_conditions rs \<and> \<not> drifting dumps rs \<and> keyable ''BOOT_ID'' rs \<and>
     in_table (required_level opts) \<and> (\<exists>r \<in> set rs. level_rank (required_level opts) \<le> level_rank (level_of r)) \<and>
     (cross_boot opts \<longrightarrow> two_values ''BOOT_ID'' rs) \<and> (cross_condition opts \<longrightarrow> two_values ''CONDITION_ID'' rs)"
proof (cases "rs \<noteq> [] \<and> (\<forall>r \<in> set rs. usable opts r)")
  case True
  then have ne: "rs \<noteq> []" and u: "\<forall>r \<in> set rs. usable opts r" by auto
  then have run: "analyze_observations dumps opts rs = classify_usable dumps opts rs"
    by (auto simp: analyze_eq usable_iff Let_def)
  have levels: "\<forall>r \<in> set rs. in_table (level_of r)" using u valid_level by (auto simp: usable_def)
  obtain v w where vw: "vote_result (map record_vote rs) = (v, w)" by (cases "vote_result (map record_vote rs)")
  have "(\<forall>r \<in> set rs. usable opts r \<and> record_vote r = Obs_Compatible) \<longleftrightarrow> v = Obs_Compatible"
    using vote_compatible [of "map record_vote rs"] ne u vw by auto
  then show ?thesis
    unfolding run classify_usable_eq [OF ne levels] vw using ne by simp
next
  case False
  then show ?thesis
    by (cases "rs = []") (auto simp: analyze_observations_def [of _ _ "[]"] analyze_eq usable_iff Let_def)
qed

text \<open>
  The verdict, its reasons and whether it raises depend only on which observations there are:
  their order and repetitions do not matter.
\<close>

theorem observations_order_free:
  assumes "set rs = set ss"
  shows "analyze_observations dumps opts rs = analyze_observations dumps opts ss"
proof (cases "rs = []")
  case False
  with assms have ne: "rs \<noteq> []" "ss \<noteq> []" by auto
  have votes: "vote_result (map record_vote rs) = vote_result (map record_vote ss)"
    using assms by (simp add: vote_result_def)
  show ?thesis
  proof (cases "\<forall>r \<in> set ss. validate_observation r = Inr []")
    case True
    then have levels: "\<forall>r \<in> set ss. in_table (level_of r)" using valid_level by auto
    then have "classify_usable dumps opts rs = classify_usable dumps opts ss"
      using classify_usable_eq [OF ne(1), of dumps opts] classify_usable_eq [OF ne(2) levels, of dumps opts]
      by (simp only: assms votes hash_conditions_def drifting_def keyable_def two_values_def simp_thms)
    then show ?thesis unfolding analyze_eq [OF ne(1)] analyze_eq [OF ne(2)] assms by (simp only:)
  next
    case False
    then have "\<exists>r \<in> set ss. validate_observation r \<noteq> Inr []" by blast
    then show ?thesis unfolding analyze_eq [OF ne(1)] analyze_eq [OF ne(2)] assms by simp
  qed
qed (use assms in simp)

section \<open>A pair of compatible observations\<close>

definition sample_observation :: "string \<Rightarrow> observation" where
  "sample_observation boot = map (\<lambda>f. (f, PStr ''x'')) [''SESSION_ID'', ''TRIAL_ID'', ''MEASUREMENT_ID'', ''GROUP_ID'',
       ''PARAMETER'', ''OBSERVABLE'', ''TIMESTAMP_HOST'', ''SOURCE'', ''RAW_EVIDENCE_REF'', ''EXPECTED_CRITERION'',
       ''OBSERVED_VALUE'', ''CONFIDENCE''] @
     [(''BOOT_ID'', PStr boot), (''CONDITION_ID'', PStr ''nominal''), (''ENVIRONMENT'', PDict [(''soc'', PInt 40)]),
      (''CONFOUNDERS'', PList []), (''SYNTHETIC'', PBool True), (''EVIDENCE_LEVEL'', PStr ''E2''),
      (''OBSERVABLE_AVAILABLE'', PBool True), (''COMPATIBILITY_CRITERION_MET'', PBool True)]"

definition sample_options :: options where
  "sample_options = \<lparr>required_level = ''E1'', prerequisites = True, p0_known = True, cross_boot = True, cross_condition = False\<rparr>"

theorem observations_compatible_iff_witness:
  "two_values ''BOOT_ID'' [sample_observation ''a'', sample_observation ''b''] \<and>
   record_vote (sample_observation ''a'') = Obs_Compatible"
proof -
  have "analyze_observations (\<lambda>_. []) sample_options [sample_observation ''a'', sample_observation ''b''] = Inr (Obs_Compatible, [])"
    by code_simp
  with observations_compatible_iff [of "\<lambda>_. []" sample_options "[sample_observation ''a'', sample_observation ''b'']"]
  show ?thesis by (simp add: sample_options_def)
qed

end
