(* ===== verification/Artifacts.thy ===== *)
theory Artifacts
  imports Repro_Compare Posix_Path
begin

text \<open>
  What the two audits of build artifacts read: a finite tree of directories, files and symbolic
  links, the reading of files and checksum lists, and the line formats the tools share. A \<open>world\<close>
  holds the tree in the order in which the machine lists it, the number of steps the kernel
  takes to follow a path, the paths that cannot be opened, the UTF-8 decoder, strict and with
  replacement, and SHA-256.
\<close>

record world =
  w_nodes :: "(path \<times> node) list"
  w_steps :: nat
  w_denied :: "path \<Rightarrow> bool"
  w_decode :: "byte list \<Rightarrow> string option"
  w_replace :: "byte list \<Rightarrow> string"
  w_sha :: "byte list \<Rightarrow> string"

text \<open>
  What an audit can raise; the string of a \<open>Value_Error\<close> is the text it is about. Which of these
  \<open>main\<close> reports depends on the tool; the others end the program.
\<close>

datatype audit_exc =
    Os_Error
  | Value_Error string
  | Index_Error
  | Key_Error
  | Stop_Iteration
  | Other_Error pyexc

section \<open>The tree\<close>

definition follow :: "world \<Rightarrow> path \<Rightarrow> path option" where
  "follow w p = resolve (w_steps w) (map_of (w_nodes w)) [] p"

definition node_at :: "world \<Rightarrow> path \<Rightarrow> node option" where
  "node_at w p = (case follow w p of None \<Rightarrow> None | Some q \<Rightarrow> if q = [] then Some (NDir 0) else map_of (w_nodes w) q)"

definition is_file_at :: "world \<Rightarrow> path \<Rightarrow> bool" where
  "is_file_at w p = (case node_at w p of Some (NFile bs m) \<Rightarrow> True | _ \<Rightarrow> False)"

definition is_dir_at :: "world \<Rightarrow> path \<Rightarrow> bool" where
  "is_dir_at w p = (case node_at w p of Some (NDir m) \<Rightarrow> True | _ \<Rightarrow> False)"

definition exists_at :: "world \<Rightarrow> path \<Rightarrow> bool" where
  "exists_at w p = (node_at w p \<noteq> None)"

text \<open>\<open>is_symlink\<close> does not follow the last component.\<close>

definition is_link_at :: "world \<Rightarrow> path \<Rightarrow> bool" where
  "is_link_at w p =
     (p \<noteq> [] \<and> plain_part (last p) \<and>
      (case follow w (butlast p) of None \<Rightarrow> False
       | Some d \<Rightarrow> (case map_of (w_nodes w) (d @ [last p]) of Some (NLink t) \<Rightarrow> True | _ \<Rightarrow> False)))"

definition read_bytes_at :: "world \<Rightarrow> path \<Rightarrow> (audit_exc, byte list) res" where
  "read_bytes_at w p =
     (case node_at w p of
        Some (NFile bs m) \<Rightarrow> guardR (\<not> w_denied w p) Os_Error (Inr bs)
      | _ \<Rightarrow> Inl Os_Error)"

definition sha_at :: "world \<Rightarrow> path \<Rightarrow> (audit_exc, string) res" where
  "sha_at w p = bindR (read_bytes_at w p) (\<lambda>bs. Inr (w_sha w bs))"

text \<open>A \<open>UnicodeDecodeError\<close> is a \<open>ValueError\<close>.\<close>

definition read_text_at :: "world \<Rightarrow> path \<Rightarrow> (audit_exc, string) res" where
  "read_text_at w p =
     bindR (read_bytes_at w p) (\<lambda>bs. case w_decode w bs of None \<Rightarrow> Inl (Value_Error ''utf-8'') | Some t \<Rightarrow> Inr t)"

definition lines_at :: "world \<Rightarrow> path \<Rightarrow> (audit_exc, string list) res" where
  "lines_at w p = bindR (read_text_at w p) (\<lambda>t. Inr (split_lines [] t))"

text \<open>\<open>rglob\<close> below a directory: every name below it, links not followed; nothing elsewhere.\<close>

definition below :: "world \<Rightarrow> path \<Rightarrow> path list" where
  "below w p =
     (if \<not> is_dir_at w p then []
      else case follow w p of None \<Rightarrow> []
        | Some d \<Rightarrow> map (\<lambda>(q, n). p @ drop (length d) q) (filter (\<lambda>(q, n). strict_prefix d q) (w_nodes w)))"

definition ko_files :: "world \<Rightarrow> path \<Rightarrow> path list" where
  "ko_files w p = filter (\<lambda>q. ends_with (last q) ''.ko'') (below w p)"

section \<open>Lines\<close>

text \<open>\<open>s.split()\<close>; \<open>acc\<close> is the word read so far.\<close>

fun words :: "string \<Rightarrow> string \<Rightarrow> string list" where
  "words acc [] = (if acc = [] then [] else [acc])"
| "words acc (c # cs) =
     (if py_space c then if acc = [] then words [] cs else acc # words [] cs else words (acc @ [c]) cs)"

text \<open>\<open>s.replace(old, new)\<close> for a non-empty \<open>old\<close>.\<close>

function py_replace :: "string \<Rightarrow> string \<Rightarrow> string \<Rightarrow> string" where
  "py_replace old new [] = []"
| "py_replace old new (c # cs) =
     (if old \<noteq> [] \<and> prefix old (c # cs) then new @ py_replace old new (drop (length old) (c # cs))
      else c # py_replace old new cs)"
  by pat_completeness auto
termination
  by (relation "measure (\<lambda>(old, new, s). length s)") (auto simp: Suc_le_eq)

definition py_lstrip :: "string \<Rightarrow> string" where "py_lstrip s = dropWhile py_space s"

definition content_lines :: "string list \<Rightarrow> string list" where
  "content_lines ls = map py_strip (filter (\<lambda>l. py_strip l \<noteq> [] \<and> \<not> prefix ''#'' (py_lstrip l)) ls)"

definition non_comment_lines :: "world \<Rightarrow> path \<Rightarrow> (audit_exc, string list) res" where
  "non_comment_lines w p = bindR (lines_at w p) (\<lambda>ls. Inr (content_lines ls))"

text \<open>\<open>KEY=VALUE\<close> lines; a later line wins.\<close>

definition kv_lines :: "string list \<Rightarrow> (string \<times> string) list" where
  "kv_lines ls = map metadata_pair (filter (\<lambda>l. l \<noteq> [] \<and> \<not> prefix ''#'' l \<and> CHR ''='' \<in> set l) ls)"

definition key_values :: "world \<Rightarrow> path \<Rightarrow> (audit_exc, (string \<times> string) list) res" where
  "key_values w p = bindR (lines_at w p) (\<lambda>ls. Inr (rev (kv_lines ls)))"

text \<open>\<open>f"{xs}"\<close> for a list of strings.\<close>

definition repr_list :: "string list \<Rightarrow> string" where
  "repr_list xs = ''['' @ join '', '' (map py_repr xs) @ '']''"

definition hex64 :: "string \<Rightarrow> bool" where
  "hex64 s = (length s = 64 \<and> list_all (\<lambda>c. let n = of_char c :: nat in (48 \<le> n \<and> n \<le> 57) \<or> (97 \<le> n \<and> n \<le> 102)) s)"

section \<open>Checks\<close>

datatype status = PASS | WARN | FAIL

record check =
  c_id :: string
  c_status :: status
  c_detail :: string
  c_evidence :: "string option"

definition status_text :: "status \<Rightarrow> string" where
  "status_text s = (case s of PASS \<Rightarrow> ''PASS'' | WARN \<Rightarrow> ''WARN'' | FAIL \<Rightarrow> ''FAIL'')"

definition check_row :: "check \<Rightarrow> string" where
  "check_row c = ''| '' @ tick (status_text (c_status c)) @ '' | '' @ tick (c_id c) @ '' | '' @ enc (c_detail c) @ '' |''"

definition no_failure :: "check list \<Rightarrow> bool" where
  "no_failure cs = list_all (\<lambda>c. c_status c \<noteq> FAIL) cs"

end
