(* ===== verification/U11_Modules.thy ===== *)
theory U11_Modules
  imports Artifacts
begin

text \<open>
  \<open>tools/u11_modules_audit.py\<close>: the audit of the U11 kernel modules against the stock
  \<open>vendor_boot\<close> and the initramfs profiles. A set of modules is a list without repetitions; the
  audit reads a \<open>world\<close>. The replacement character of a failed ASCII decoding is character 255.
\<close>

section \<open>Evidence and names\<close>

text \<open>The manifest of the stock evidence: names of one component only.\<close>

definition manifest_name :: "string \<Rightarrow> bool" where
  "manifest_name s = (s \<noteq> [] \<and> list_all (\<lambda>c. let n = of_char c :: nat in
     (48 \<le> n \<and> n \<le> 57) \<or> (65 \<le> n \<and> n \<le> 90) \<or> (97 \<le> n \<and> n \<le> 122) \<or> n \<in> {95, 46, 45}) s)"

definition manifest_line :: "string \<Rightarrow> (string \<times> string) option" where
  "manifest_line raw =
     (let h = take 64 raw; n = drop 66 raw
      in if hex64 h \<and> take 2 (drop 64 raw) = ''  '' \<and> manifest_name n then Some (h, n) else None)"

definition i_acute :: string where "i_acute = [CHR 0xED]"

definition check_manifest_line :: "world \<Rightarrow> path \<Rightarrow> nat \<times> string \<Rightarrow> nat \<times> string list \<Rightarrow> (audit_exc, nat \<times> string list) res" where
  "check_manifest_line w dir line st =
     (case (line, st) of ((n, raw), (checked, failures)) \<Rightarrow> case manifest_line raw of
        None \<Rightarrow> Inr (checked, failures @ [''l'' @ i_acute @ ''nea inv'' @ [CHR 0xE1] @ ''lida '' @ fmt_nat n])
      | Some (expected, name) \<Rightarrow>
          (if \<not> is_file_at w (dir @ [name]) \<or> is_link_at w (dir @ [name])
           then Inr (checked, failures @ [''falta regular '' @ name])
           else bindR (sha_at w (dir @ [name])) (\<lambda>h.
             Inr (if h \<noteq> expected then (checked, failures @ [''hash distinto '' @ name]) else (Suc checked, failures)))))"

definition verify_evidence_manifest :: "world \<Rightarrow> path \<Rightarrow> (audit_exc, nat \<times> string list) res" where
  "verify_evidence_manifest w dir =
     (if \<not> is_file_at w (dir @ [''SHA256SUMS'']) then Inr (0, [''falta SHA256SUMS''])
      else bindR (lines_at w (dir @ [''SHA256SUMS''])) (\<lambda>ls.
        foldR (check_manifest_line w dir) (enumerate 1 ls) (0, [])))"

definition module_filename :: "string \<Rightarrow> string" where
  "module_filename v = path_name (py_strip v)"

definition module_id :: "string \<Rightarrow> string" where
  "module_id v =
     (let name = module_filename v; base = (if ends_with name ''.ko'' then take (length name - 3) name else name)
      in map (\<lambda>c. if c = CHR ''-'' then CHR ''_'' else c) base)"

definition dedupe :: "string list \<Rightarrow> string list" where "dedupe vs = dedup_on [] vs"

definition common_order_equal :: "string list \<Rightarrow> string list \<Rightarrow> bool \<times> nat" where
  "common_order_equal l r =
     (let common = remdups (filter (\<lambda>x. x \<in> set r) l)
      in (filter (\<lambda>x. x \<in> set common) l = filter (\<lambda>x. x \<in> set common) r, length common))"

section \<open>Dependencies\<close>

type_synonym graph = "(string \<times> string list) list"

definition dep_line :: "string \<Rightarrow> graph \<Rightarrow> (audit_exc, graph) res" where
  "dep_line raw g =
     (if py_strip raw = [] then Inr g
      else guardR (CHR '':'' \<in> set raw) (Value_Error (''modules.dep: '' @ raw))
        (let owner = takeWhile (\<lambda>c. c \<noteq> CHR '':'') raw; deps = tl (dropWhile (\<lambda>c. c \<noteq> CHR '':'') raw);
             k = module_id owner
         in guardR (k \<notin> fst ` set g) (Value_Error (''modules.dep: '' @ k))
              (Inr (g @ [(k, dedupe (map module_id (words [] deps)))]))))"

definition parse_modules_dep :: "world \<Rightarrow> path \<Rightarrow> (audit_exc, graph) res" where
  "parse_modules_dep w p = bindR (lines_at w p) (\<lambda>ls. foldR dep_line ls [])"

text \<open>\<open>result.setdefault(owner, set()).update(dependencies)\<close>.\<close>

fun add_deps :: "string \<Rightarrow> string list \<Rightarrow> graph \<Rightarrow> graph" where
  "add_deps k ds [] = [(k, dedupe ds)]"
| "add_deps k ds ((l, es) # g) = (if l = k then (l, dedupe (es @ ds)) # g else (l, es) # add_deps k ds g)"

definition softdep_line :: "string \<Rightarrow> graph \<Rightarrow> (audit_exc, graph) res" where
  "softdep_line raw g =
     (let fs = words [] (py_replace ''post:'' '' post: '' (py_replace ''pre:'' '' pre: '' raw))
      in guardR (2 \<le> length fs \<and> hd fs = ''softdep'') (Value_Error (''modules.softdep: '' @ raw))
           (Inr (add_deps (module_id (fs ! 1))
              (map module_id (filter (\<lambda>f. f \<notin> {''pre:'', ''post:''}) (drop 2 fs))) g)))"

definition parse_softdeps :: "world \<Rightarrow> path \<Rightarrow> (audit_exc, graph) res" where
  "parse_softdeps w p = bindR (non_comment_lines w p) (\<lambda>ls. foldR softdep_line ls [])"

definition deps_of :: "graph \<Rightarrow> string \<Rightarrow> string list" where
  "deps_of g k = (case map_of g k of None \<Rightarrow> [] | Some ds \<Rightarrow> ds)"

definition missing_closure :: "string list \<Rightarrow> graph \<Rightarrow> graph \<Rightarrow> string list" where
  "missing_closure included deps softdeps =
     concat (map (\<lambda>m. map (\<lambda>d. m @ ''->'' @ d)
         (filter (\<lambda>d. d \<notin> set included) (sorted_set (deps_of deps m @ deps_of softdeps m))))
       (sorted_set included))"

section \<open>Module metadata\<close>

text \<open>\<open>re.search(rb"vermagic=([^\\0]+)", data)\<close>.\<close>

definition vermagic_tag :: "byte list" where
  "vermagic_tag = map of_char ''vermagic=''"

fun find_vermagic :: "byte list \<Rightarrow> byte list option" where
  "find_vermagic [] = None"
| "find_vermagic (b # bs) =
     (let v = takeWhile (\<lambda>x. x \<noteq> 0) (drop (length vermagic_tag) (b # bs))
      in if prefix vermagic_tag (b # bs) \<and> v \<noteq> [] then Some v else find_vermagic bs)"

definition ascii_replace :: "byte list \<Rightarrow> string" where
  "ascii_replace bs = map (\<lambda>b. if unat b < 128 then char_of (unat b) else CHR 0xFF) bs"

definition signature_magic :: "byte list" where
  "signature_magic = map of_char (''~Module signature appended~'' @ nl)"

definition module_metadata :: "world \<Rightarrow> path \<Rightarrow> string \<Rightarrow> (audit_exc, bool \<times> bool \<times> string option) res" where
  "module_metadata w p release =
     bindR (read_bytes_at w p) (\<lambda>data.
       let vermagic = (case find_vermagic data of None \<Rightarrow> None | Some v \<Rightarrow> Some (ascii_replace v))
       in Inr ((case vermagic of None \<Rightarrow> False | Some v \<Rightarrow> prefix (release @ '' '') v), suffix signature_magic data, vermagic))"

section \<open>The audit\<close>

definition u11_release :: string where "u11_release = ''5.15.180''"

definition verdict_of :: "bool \<Rightarrow> status" where "verdict_of b = (if b then PASS else FAIL)"

definition a_check :: "string \<Rightarrow> status \<Rightarrow> string \<Rightarrow> check" where
  "a_check i st d = \<lparr>c_id = i, c_status = st, c_detail = d, c_evidence = None\<rparr>"

definition py_bool :: "bool \<Rightarrow> string" where "py_bool b = (if b then ''True'' else ''False'')"

definition stock_check :: "nat \<times> string list \<Rightarrow> (string \<times> string) list \<Rightarrow> check" where
  "stock_check hashes provenance =
     (let ok = map_of provenance ''source_ap_version'' = Some ''X510XXUCEZE4'' \<and>
            map_of provenance ''source_vendor_boot_sha256'' = Some ''60e85ca061cc67cfa1f8d9fd86fc3840ccb46d87887c9b3ed20deca7c02459e8'' \<and>
            map_of provenance ''fragment_count'' = Some ''2'' \<and> map_of provenance ''fragment_1_modules'' = Some ''281'' \<and>
            fst hashes = 6 \<and> snd hashes = []
      in a_check ''stock_provenance'' (verdict_of ok)
           (if ok then ''vendor_boot EZE4 v4: generic + dlkm fragments, 281 modules; 6 verified files''
            else ''altered or incomplete stock provenance: '' @ join '', '' (snd hashes)))"

text \<open>The metadata of all modules: the names with a wrong version, the unsigned ones, the versions.\<close>

record module_facts =
  bad_vermagic :: "string list"
  unsigned_names :: "string list"
  vermagic_values :: "string list"

definition add_module :: "world \<Rightarrow> path \<Rightarrow> module_facts \<Rightarrow> (audit_exc, module_facts) res" where
  "add_module w p st =
     bindR (module_metadata w p u11_release) (\<lambda>(valid, signed, vermagic).
       Inr \<lparr>bad_vermagic = bad_vermagic st @ flag (\<not> valid) (last p),
            unsigned_names = unsigned_names st @ flag (\<not> signed) (last p),
            vermagic_values = (case vermagic of None \<Rightarrow> vermagic_values st
               | Some v \<Rightarrow> dedupe (vermagic_values st @ flag (v \<noteq> []) v))\<rparr>)"

definition all_modules :: "world \<Rightarrow> path list \<Rightarrow> (audit_exc, module_facts) res" where
  "all_modules w ps = foldR (add_module w) ps \<lparr>bad_vermagic = [], unsigned_names = [], vermagic_values = []\<rparr>"

definition metadata_check :: "path list \<Rightarrow> module_facts \<Rightarrow> check" where
  "metadata_check ps m =
     (let ok = length ps = 282 \<and> bad_vermagic m = [] \<and> unsigned_names m = [] \<and> length (vermagic_values m) = 1
      in a_check ''u11_module_metadata'' (verdict_of ok)
           (if ok then ''282/282 modules with vermagic 5.15.180 and appended signature''
            else ''modules='' @ fmt_nat (length ps) @ '', invalid vermagic='' @ fmt_nat (length (bad_vermagic m)) @
                 '', unsigned='' @ fmt_nat (length (unsigned_names m))))"

definition missing_names :: "graph \<Rightarrow> string list \<Rightarrow> string list" where
  "missing_names g names = sorted_set (filter (\<lambda>d. d \<notin> set names) (concat (map snd g)))"

definition graph_check :: "graph \<Rightarrow> string list \<Rightarrow> check" where
  "graph_check deps names =
     (let ok = length deps = 282 \<and> missing_names deps names = []
      in a_check ''u11_hard_dependency_graph'' (verdict_of ok)
           (if ok then ''282 modules.dep entries; all hard dependencies are present''
            else ''missing hard dependencies: '' @ join '', '' (missing_names deps names)))"

text \<open>\<open>line.split(maxsplit=1)[1]\<close>.\<close>

definition second_field :: "string \<Rightarrow> (audit_exc, string) res" where
  "second_field line =
     (let rest = py_lstrip (dropWhile (\<lambda>c. \<not> py_space c) (py_lstrip line))
      in guardR (rest \<noteq> []) Index_Error (Inr rest))"

definition softdep_check :: "string list \<Rightarrow> string list \<Rightarrow> check" where
  "softdep_check missing_soft stock_missing =
     a_check ''softdep_stale_names'' (if missing_soft \<noteq> [] then WARN else PASS)
       (if missing_soft \<noteq> [] then ''unresolvable references '' @ repr_list missing_soft @
          ''; matches EZE4 vendor_boot='' @ py_bool (missing_soft = stock_missing)
        else ''all softdep references resolve'')"

record load_order =
  lo_prefix :: "string list"
  lo_common :: nat
  lo_same :: bool
  lo_only_stock :: "string list"
  lo_only_u11 :: "string list"

definition order_of :: "string list \<Rightarrow> string list \<Rightarrow> string list \<Rightarrow> load_order" where
  "order_of early generated stock =
     \<lparr>lo_prefix = early, lo_common = snd (common_order_equal generated stock),
      lo_same = fst (common_order_equal generated stock),
      lo_only_stock = sorted_set (filter (\<lambda>x. x \<notin> set generated) stock),
      lo_only_u11 = sorted_set (filter (\<lambda>x. x \<notin> set stock) generated)\<rparr>"

definition order_check :: "load_order \<Rightarrow> string list \<Rightarrow> string list \<Rightarrow> check" where
  "order_check lo generated stock =
     a_check ''stock_u11_load_order''
       (verdict_of (length (lo_prefix lo) = 7 \<and> length generated = 282 \<and> length stock = 281 \<and> lo_common lo = 280 \<and>
          lo_same lo \<and> lo_only_stock lo = [''sec_debug_test.ko''] \<and> lo_only_u11 lo = [''a96t396.ko'', ''input_booster_lkm.ko'']))
       (''280 common in same order; stock only='' @ repr_list (lo_only_stock lo) @ ''; U11 only='' @ repr_list (lo_only_u11 lo))"

record profile_facts =
  pf_modules :: nat
  pf_required :: "string list"
  pf_missing :: "string list"
  pf_wrong :: "string list"

definition profiles :: "(string \<times> nat \<times> string list) list" where
  "profiles = [(''ufs'', 28, [''ufs_exynos_core'']), (''usb'', 45, [''phy_exynos_usbdrd_super'', ''dwc3_exynos_usb''])]"

definition profile_files :: "world \<Rightarrow> path \<Rightarrow> string \<Rightarrow> path list" where
  "profile_files w initramfs name = ko_files w (initramfs @ [name, ''rootfs'', ''lib'', ''modules'', u11_release])"

definition ids_of :: "path list \<Rightarrow> string list" where
  "ids_of ps = remdups (map (\<lambda>p. module_id (last p)) ps)"

definition wrong_release :: "world \<Rightarrow> path list \<Rightarrow> (audit_exc, string list) res" where
  "wrong_release w ps =
     catR (map (\<lambda>p. bindR (module_metadata w p u11_release) (\<lambda>(valid, signed, v). Inr (flag (\<not> valid) (last p)))) ps)"

definition profile_ok :: "nat \<Rightarrow> string list \<Rightarrow> path list \<Rightarrow> graph \<Rightarrow> graph \<Rightarrow> string list \<Rightarrow> bool" where
  "profile_ok expected needed ps deps softdeps wrong =
     (length ps = expected \<and> set needed \<subseteq> set (ids_of ps) \<and> missing_closure (ids_of ps) deps softdeps = [] \<and> wrong = [])"

definition audit_profile ::
  "world \<Rightarrow> path \<Rightarrow> graph \<Rightarrow> graph \<Rightarrow> string \<times> nat \<times> string list \<Rightarrow> (audit_exc, check \<times> string \<times> profile_facts) res" where
  "audit_profile w initramfs deps softdeps spec =
     (case spec of (name, expected, needed) \<Rightarrow>
        let ps = profile_files w initramfs name; missing = missing_closure (ids_of ps) deps softdeps in
        bindR (wrong_release w ps) (\<lambda>wrong.
          Inr (a_check (name @ ''_closure'') (verdict_of (profile_ok expected needed ps deps softdeps wrong))
                 (fmt_nat (length ps) @ '' U11 modules; missing dependencies='' @ fmt_nat (length missing)),
               name, \<lparr>pf_modules = length ps, pf_required = sorted_set needed, pf_missing = missing, pf_wrong = wrong\<rparr>)))"

record modules_result =
  mr_modules :: nat
  mr_vermagic :: "string list"
  mr_stock :: nat
  mr_vendor_sha :: "string option"
  mr_order :: load_order
  mr_profiles :: "(string \<times> profile_facts) list"
  mr_checks :: "check list"

definition role_check :: "string list \<Rightarrow> check" where
  "role_check usb_ids = a_check ''usb_role_scope'' WARN
     (if ''xhci_exynos'' \<notin> set usb_ids then ''profile gadget/ACM-oriented; xhci-exynos not included''
      else ''xhci-exynos included; audit host/dual-role'')"

definition standing_checks :: "check list" where
  "standing_checks =
     [a_check ''scsc_firmware'' WARN
        ''Wi-Fi/BT is not included for M2/M3; /vendor/firmware/wifi and EFS calibration still need extraction'',
      a_check ''physical_write_gate'' WARN ''NO-GO: module audit does not authorize packaging or flashing'']"

record audit_dirs =
  d_build :: path
  d_installed :: path
  d_stock :: path
  d_initramfs :: path

definition audit_dirs_of :: "path \<Rightarrow> audit_dirs" where
  "audit_dirs_of r =
     (let build = r @ [''artifacts'', ''u11'', ''x510xxsbdzb4-u11-clang21-20260823'']
      in \<lparr>d_build = build, d_installed = build @ [''modules-installed'', ''modules-root'', ''lib'', ''modules'', u11_release],
          d_stock = r @ [''artifacts'', ''stock'', ''vendor-ramdisk-audit''],
          d_initramfs = r @ [''artifacts'', ''initramfs'', ''u11'', ''x510xxsbdzb4-clang21'']\<rparr>)"

text \<open>The checks on the installed modules and their dependencies.\<close>

definition audit_installed ::
  "world \<Rightarrow> audit_dirs \<Rightarrow> (audit_exc, check list \<times> path list \<times> module_facts \<times> graph \<times> graph) res" where
  "audit_installed w d =
     (let ps = sort (ko_files w (d_installed d)) in
      bindR (all_modules w ps) (\<lambda>m.
      bindR (parse_modules_dep w (d_installed d @ [''modules.dep''])) (\<lambda>deps.
      bindR (parse_softdeps w (d_installed d @ [''modules.softdep''])) (\<lambda>softdeps.
        Inr ([metadata_check ps m, graph_check deps (ids_of ps)], ps, m, deps, softdeps)))))"

definition audit_softdeps :: "world \<Rightarrow> audit_dirs \<Rightarrow> graph \<Rightarrow> string list \<Rightarrow> (audit_exc, check) res" where
  "audit_softdeps w d softdeps names =
     bindR (parse_softdeps w (d_stock d @ [''modules.softdep''])) (\<lambda>stock_softdeps.
     bindR (non_comment_lines w (d_stock d @ [''MODULES_SHA256SUMS''])) (\<lambda>ls.
     bindR (mapR second_field ls) (\<lambda>fs.
       Inr (softdep_check (missing_names softdeps names) (missing_names stock_softdeps (map module_id fs))))))"

definition audit_order :: "world \<Rightarrow> audit_dirs \<Rightarrow> (audit_exc, check \<times> load_order \<times> string list) res" where
  "audit_order w d =
     bindR (non_comment_lines w (d_build d @ [''vendor_boot_module_order_s5e8835.cfg''])) (\<lambda>early.
     bindR (non_comment_lines w (d_build d @ [''modules.order''])) (\<lambda>built.
     bindR (non_comment_lines w (d_stock d @ [''modules.load''])) (\<lambda>stock.
       let generated = dedupe (early @ map module_filename built); lo = order_of early generated stock
       in Inr (order_check lo generated stock, lo, stock))))"

definition run_modules :: "world \<Rightarrow> path \<Rightarrow> (audit_exc, modules_result) res" where
  "run_modules w r =
     (let d = audit_dirs_of r in
      bindR (verify_evidence_manifest w (d_stock d)) (\<lambda>hashes.
      bindR (key_values w (d_stock d @ [''PROVENANCE.txt''])) (\<lambda>provenance.
      bindR (audit_installed w d) (\<lambda>(installed_checks, ps, m, deps, softdeps).
      bindR (audit_softdeps w d softdeps (ids_of ps)) (\<lambda>soft.
      bindR (audit_order w d) (\<lambda>(order_chk, lo, stock).
      bindR (mapR (audit_profile w (d_initramfs d) deps softdeps) profiles) (\<lambda>pfs.
        Inr \<lparr>mr_modules = length ps, mr_vermagic = sorted_set (vermagic_values m), mr_stock = length stock,
             mr_vendor_sha = map_of provenance ''source_vendor_boot_sha256'', mr_order = lo, mr_profiles = map snd pfs,
             mr_checks = [stock_check hashes provenance] @ installed_checks @ [soft, order_chk] @ map fst pfs @
               [role_check (ids_of (profile_files w (d_initramfs d) ''usb''))] @ standing_checks\<rparr>)))))))"

section \<open>The report\<close>

definition render_modules :: "modules_result \<Rightarrow> string" where
  "render_modules r =
     (let lo = mr_order r in join nl
       ([''# U11 Modules Audit '' @ both_ways @ '' EZE4 vendor_boot'', [], ''## Result'', [],
         ''- U11 modules: '' @ tick (fmt_nat (mr_modules r)) @ '' ('' @ tick u11_release @ '')'',
         ''- stock EZE4 modules in dlkm: '' @ tick (fmt_nat (mr_stock r)),
         ''- common modules: '' @ tick (fmt_nat (lo_common lo)) @ '', same relative order: '' @
           tick (if lo_same lo then ''true'' else ''false''),
         ''- stock only: '' @ tick (enc (join '', '' (lo_only_stock lo))),
         ''- U11 only: '' @ tick (enc (join '', '' (lo_only_u11 lo))),
         ''- physical gate: '' @ tick ''NO-GO'', [], ''## Checks'', [], ''| status | check | detail |'', ''|---|---|---|'']
        @ map check_row (mr_checks r) @
        [[], ''## Interpretation'', [],
         ''Equal relative order reduces early initialization risk, but does not prove'',
         ''U11'' @ both_ways @ ''EZE4 binary ABI. Stock modules are never loaded with the U11 kernel, nor U11'',
         ''modules with the stock kernel. UFS and USB only have static closure proven;'',
         ''DT, clocks, PHY, regulators, and Type-C still require hardware observation.'', []]))"

text \<open>
  The exit status of \<open>main\<close> when the reports could be written. An \<open>OSError\<close> or \<open>ValueError\<close> is
  reported with status 2; any other exception ends the program with status 1.
\<close>

definition audit_exit :: "('a \<Rightarrow> check list) \<Rightarrow> (audit_exc, 'a) res \<Rightarrow> nat" where
  "audit_exit checks r =
     (case r of
        Inl Os_Error \<Rightarrow> 2
      | Inl (Value_Error m) \<Rightarrow> 2
      | Inl e \<Rightarrow> 1
      | Inr x \<Rightarrow> if no_failure (checks x) then 0 else 1)"

text \<open>\<open>main\<close>: the JSON file, then the Markdown file, then the status.\<close>

definition modules_main ::
  "(modules_result \<Rightarrow> byte list) \<Rightarrow> repro_env \<Rightarrow> repro_env \<Rightarrow> path \<Rightarrow> path \<Rightarrow> (audit_exc, modules_result) res \<Rightarrow> fs \<Rightarrow> fs \<times> nat" where
  "modules_main json env1 env2 json_out md_out r f =
     (case r of
        Inl e \<Rightarrow> (f, audit_exit mr_checks r)
      | Inr x \<Rightarrow> (case repro_write env1 json_out (json x) f of
            (g, False) \<Rightarrow> (g, 1)
          | (g, True) \<Rightarrow> (case repro_write env2 md_out (map (\<lambda>c. of_char c) (render_modules x)) g of
                (h, False) \<Rightarrow> (h, 1)
              | (h, True) \<Rightarrow> (h, audit_exit mr_checks r))))"

end
