(* ===== verification/U11_Closure.thy ===== *)
theory U11_Closure
  imports U11_Modules
begin

text \<open>
  What the checks of \<open>tools/u11_modules_audit.py\<close> establish: the initramfs profiles are closed
  under dependencies of any depth, two load orders agree on their common modules, and the
  stock evidence has the recorded digests.
\<close>

section \<open>Closure under dependencies\<close>

definition depends :: "graph \<Rightarrow> graph \<Rightarrow> (string \<times> string) set" where
  "depends deps softdeps = {(m, d). d \<in> set (deps_of deps m) \<union> set (deps_of softdeps m)}"

lemma missing_closure_Nil:
  "missing_closure included deps softdeps = [] \<longleftrightarrow> depends deps softdeps `` set included \<subseteq> set included"
  by (auto simp: missing_closure_def depends_def filter_empty_conv)

lemma closed_rtrancl: "R `` A \<subseteq> A \<longleftrightarrow> R\<^sup>* `` A \<subseteq> A"
proof
  assume step: "R `` A \<subseteq> A"
  have "y \<in> A" if "(x, y) \<in> R\<^sup>*" and "x \<in> A" for x y
    using that step by (induction rule: rtrancl_induct) auto
  then show "R\<^sup>* `` A \<subseteq> A" by auto
qed auto

lemma missing_closure_iff:
  "missing_closure included deps softdeps = [] \<longleftrightarrow> (depends deps softdeps)\<^sup>* `` set included \<subseteq> set included"
  unfolding missing_closure_Nil by (rule closed_rtrancl)

lemma set_ids_of [simp]: "set (ids_of ps) = (\<lambda>p. module_id (last p)) ` set ps"
  by (simp add: ids_of_def)

text \<open>A module file of the audited release.\<close>

definition of_release :: "world \<Rightarrow> path \<Rightarrow> bool" where
  "of_release w p \<longleftrightarrow> (\<exists>data v. read_bytes_at w p = Inr data \<and> find_vermagic data = Some v \<and>
     prefix (u11_release @ '' '') (ascii_replace v))"

lemma wrong_release_Nil: "wrong_release w ps = Inr [] \<longleftrightarrow> (\<forall>p \<in> set ps. of_release w p)"
proof -
  have "bindR (module_metadata w p u11_release) (\<lambda>(valid, signed, v). Inr (flag (\<not> valid) (last p))) = Inr [] \<longleftrightarrow> of_release w p" for p
    by (cases "read_bytes_at w p"; cases "find_vermagic (projr (read_bytes_at w p))")
      (simp_all add: of_release_def module_metadata_def Let_def)
  then show ?thesis by (simp add: wrong_release_def catR_Nil_iff)
qed

text \<open>
  Claim C13. An initramfs profile passes the audit exactly when it has the expected number of
  modules, the required ones among them, each built for the audited release, and contains
  every module that one of its modules needs, through hard or soft dependencies of any depth.
\<close>

theorem profile_passes_iff:
  assumes "audit_profile w initramfs deps softdeps (name, expected, needed) = Inr (c, name', facts)"
  shows "c_status c = PASS \<longleftrightarrow>
    (let ps = profile_files w initramfs name; ids = (\<lambda>p. module_id (last p)) ` set ps in
     length ps = expected \<and> set needed \<subseteq> ids \<and> (\<forall>p \<in> set ps. of_release w p) \<and>
     (\<forall>m \<in> ids. \<forall>d. (m, d) \<in> (depends deps softdeps)\<^sup>* \<longrightarrow> d \<in> ids))"
proof -
  let ?ps = "profile_files w initramfs name"
  from assms obtain wrong where wrong: "wrong_release w ?ps = Inr wrong"
    and c: "c = a_check (name @ ''_closure'') (verdict_of (profile_ok expected needed ?ps deps softdeps wrong))
      (fmt_nat (length ?ps) @ '' U11 modules; missing dependencies='' @
       fmt_nat (length (missing_closure (ids_of ?ps) deps softdeps)))"
    by (auto simp: audit_profile_def Let_def bindR_Inr_iff)
  have "c_status c = PASS \<longleftrightarrow> profile_ok expected needed ?ps deps softdeps wrong"
    by (simp add: c a_check_def verdict_of_def)
  moreover have "wrong = [] \<longleftrightarrow> (\<forall>p \<in> set ?ps. of_release w p)" using wrong wrong_release_Nil [of w ?ps] by auto
  moreover have "R `` ids \<subseteq> ids \<longleftrightarrow> (\<forall>m \<in> ids. \<forall>d. (m, d) \<in> R \<longrightarrow> d \<in> ids)" for R :: "(string \<times> string) set" and ids
    by blast
  ultimately show ?thesis by (simp add: profile_ok_def missing_closure_iff Let_def) blast
qed

text \<open>A tree with one module of the right release.\<close>

definition module_world :: world where
  "module_world =
     (let d = [''ufs'', ''rootfs'', ''lib'', ''modules'', u11_release]
      in \<lparr>w_nodes = [(d, NDir 0), (d @ [''a-b.ko''], NFile (map of_char ''vermagic=5.15.180 SMP'' @ [0] @ signature_magic) 0)],
          w_steps = 20, w_denied = (\<lambda>p. False), w_decode = (\<lambda>bs. None), w_replace = (\<lambda>bs. []), w_sha = (\<lambda>bs. [])\<rparr>)"

theorem profile_passes_iff_witness:
  "\<exists>c facts. audit_profile module_world [] [(''a_b'', [''a_b''])] [] (''ufs'', 1, [''a_b'']) = Inr (c, ''ufs'', facts) \<and>
     (\<forall>p \<in> set (profile_files module_world [] ''ufs''). of_release module_world p)"
proof -
  have "case audit_profile module_world [] [(''a_b'', [''a_b''])] [] (''ufs'', 1, [''a_b'']) of
      Inl e \<Rightarrow> False | Inr (c, n, f) \<Rightarrow> n = ''ufs'' \<and> c_status c = PASS" by code_simp
  then obtain c f where run: "audit_profile module_world [] [(''a_b'', [''a_b''])] [] (''ufs'', 1, [''a_b'']) = Inr (c, ''ufs'', f)"
    and "c_status c = PASS" by (auto split: sum.splits prod.splits)
  with profile_passes_iff [OF run] show ?thesis by (auto simp: Let_def)
qed

section \<open>Load orders\<close>

text \<open>One element comes before another in a list without repetitions.\<close>

definition before :: "'a list \<Rightarrow> 'a \<Rightarrow> 'a \<Rightarrow> bool" where
  "before xs a b \<longleftrightarrow> (\<exists>us vs. xs = us @ vs \<and> a \<in> set us \<and> b \<in> set vs)"

lemma before_Cons: "distinct (x # xs) \<Longrightarrow> before (x # xs) a b \<longleftrightarrow> (a = x \<and> b \<in> set xs) \<or> before xs a b"
proof
  assume "before (x # xs) a b"
  then obtain us vs where "x # xs = us @ vs" "a \<in> set us" "b \<in> set vs" by (auto simp: before_def)
  then show "(a = x \<and> b \<in> set xs) \<or> before xs a b" by (cases us) (auto simp: before_def)
next
  assume "(a = x \<and> b \<in> set xs) \<or> before xs a b"
  then show "before (x # xs) a b"
    unfolding before_def by (metis Cons_eq_appendI append_Nil list.set_intros)
qed

lemma before_in: "before xs a b \<Longrightarrow> a \<in> set xs \<and> b \<in> set xs"
  by (auto simp: before_def)

lemma before_filter:
  "distinct xs \<Longrightarrow> P a \<Longrightarrow> P b \<Longrightarrow> before (filter P xs) a b \<longleftrightarrow> before xs a b"
proof (induction xs)
  case (Cons x xs)
  then show ?case
  proof (cases "P x")
    case True
    then have "before (filter P (x # xs)) a b \<longleftrightarrow> (a = x \<and> b \<in> set (filter P xs)) \<or> before (filter P xs) a b"
      using Cons.prems(1) by (simp only: filter.simps if_True) (rule before_Cons, simp)
    with Cons show ?thesis by (auto simp: before_Cons)
  next
    case False
    with Cons show ?thesis using before_in [of xs] by (auto simp: before_Cons)
  qed
qed (simp add: before_def)

lemma same_order:
  "distinct xs \<Longrightarrow> distinct ys \<Longrightarrow> set xs = set ys \<Longrightarrow> xs = ys \<longleftrightarrow> (\<forall>a b. before xs a b \<longrightarrow> before ys a b)"
proof (induction xs arbitrary: ys)
  case (Cons x xs)
  show ?case
  proof
    assume ord: "\<forall>a b. before (x # xs) a b \<longrightarrow> before ys a b"
    from Cons.prems(3) obtain y zs where ys: "ys = y # zs" by (cases ys) auto
    have "y = x"
    proof (rule ccontr)
      assume "y \<noteq> x"
      with Cons.prems(3) ys have "y \<in> set xs" by auto
      with ord Cons.prems(1) have "before ys x y" by (simp add: before_Cons)
      with ys Cons.prems(2) \<open>y \<noteq> x\<close> show False using before_in [of zs x y] by (auto simp: before_Cons)
    qed
    with Cons.prems ys have set: "set xs = set zs" "distinct xs" "distinct zs" "x \<notin> set zs" by auto
    have "before zs a b" if "before xs a b" for a b
    proof -
      from that have "a \<noteq> x" using before_in [OF that] Cons.prems(1) by auto
      from that ord Cons.prems(1) have "before ys a b" by (simp add: before_Cons)
      with ys \<open>y = x\<close> \<open>a \<noteq> x\<close> Cons.prems(2) show ?thesis by (auto simp: before_Cons)
    qed
    with Cons.IH [OF set(2,3,1)] ys \<open>y = x\<close> show "x # xs = ys" by simp
  qed simp
qed simp

text \<open>
  Two load orders are reported to agree exactly when every two modules that both contain
  come in the same order in both.
\<close>

theorem common_order_iff:
  assumes "distinct l" and "distinct r"
  shows "fst (common_order_equal l r) \<longleftrightarrow>
    (\<forall>a b. {a, b} \<subseteq> set l \<inter> set r \<longrightarrow> before l a b \<longrightarrow> before r a b)"
    and "snd (common_order_equal l r) = card (set l \<inter> set r)"
proof -
  let ?P = "\<lambda>x. x \<in> set l \<inter> set r"
  have sub: "before (filter ?P xs) a b \<longleftrightarrow> {a, b} \<subseteq> set l \<inter> set r \<and> before xs a b" if "distinct xs" for xs a b
  proof (cases "{a, b} \<subseteq> set l \<inter> set r")
    case True
    then have "?P a" "?P b" by blast+
    from before_filter [OF that this] True show ?thesis by blast
  next
    case False
    with before_in [of "filter ?P xs" a b] show ?thesis unfolding set_filter by blast
  qed
  have "fst (common_order_equal l r) \<longleftrightarrow> filter ?P l = filter ?P r"
    by (simp add: common_order_equal_def Let_def)
  also have "\<dots> \<longleftrightarrow> (\<forall>a b. before (filter ?P l) a b \<longrightarrow> before (filter ?P r) a b)"
    using assms by (intro same_order) auto
  also have "\<dots> \<longleftrightarrow> (\<forall>a b. {a, b} \<subseteq> set l \<inter> set r \<longrightarrow> before l a b \<longrightarrow> before r a b)"
    by (intro iff_allI) (simp only: sub [OF assms(1)] sub [OF assms(2)], argo)
  finally show "fst (common_order_equal l r) \<longleftrightarrow>
    (\<forall>a b. {a, b} \<subseteq> set l \<inter> set r \<longrightarrow> before l a b \<longrightarrow> before r a b)" .
  have "set (remdups (filter (\<lambda>x. x \<in> set r) l)) = set l \<inter> set r" by auto
  then show "snd (common_order_equal l r) = card (set l \<inter> set r)"
    by (metis common_order_equal_def distinct_card distinct_remdups snd_conv)
qed

section \<open>Evidence\<close>

definition evidence_ok :: "world \<Rightarrow> path \<Rightarrow> string \<Rightarrow> bool" where
  "evidence_ok w dir raw \<longleftrightarrow> (\<exists>h name. manifest_line raw = Some (h, name) \<and> is_file_at w (dir @ [name]) \<and>
     \<not> is_link_at w (dir @ [name]) \<and> sha_at w (dir @ [name]) = Inr h)"

lemma check_manifest_line_cases:
  assumes "check_manifest_line w dir (k, raw) (c, fs) = Inr st"
  shows "(evidence_ok w dir raw \<and> st = (Suc c, fs)) \<or> (\<not> evidence_ok w dir raw \<and> (\<exists>f. st = (c, fs @ [f])))"
  using assms
  by (auto simp: check_manifest_line_def evidence_ok_def bindR_Inr_iff split: option.splits if_splits)

lemma check_manifest_line_ok: "evidence_ok w dir raw \<Longrightarrow> check_manifest_line w dir (k, raw) (c, fs) = Inr (Suc c, fs)"
  by (auto simp: check_manifest_line_def evidence_ok_def)

lemma manifest_failures_stay:
  "foldR (check_manifest_line w dir) ls (c, fs) = Inr (n, gs) \<Longrightarrow> length fs \<le> length gs"
proof (induction ls arbitrary: c fs)
  case (Cons l ls)
  then obtain c' fs' where "check_manifest_line w dir l (c, fs) = Inr (c', fs')"
    and rest: "foldR (check_manifest_line w dir) ls (c', fs') = Inr (n, gs)" by (auto simp: bindR_Inr_iff)
  with check_manifest_line_cases [of w dir "fst l" "snd l" c fs] have "length fs \<le> length fs'" by auto
  with Cons.IH [OF rest] show ?case by simp
qed simp

lemma manifest_lines_iff:
  "foldR (check_manifest_line w dir) (enumerate k ls) (c, []) = Inr (n, []) \<longleftrightarrow>
     n = c + length ls \<and> list_all (evidence_ok w dir) ls"
proof (induction ls arbitrary: k c)
  case (Cons l ls)
  show ?case
  proof (cases "evidence_ok w dir l")
    case True
    with Cons check_manifest_line_ok [OF True] show ?thesis by auto
  next
    case False
    have "foldR (check_manifest_line w dir) (enumerate k (l # ls)) (c, []) \<noteq> Inr (n, [])"
    proof
      assume "foldR (check_manifest_line w dir) (enumerate k (l # ls)) (c, []) = Inr (n, [])"
      then obtain st where st: "check_manifest_line w dir (k, l) (c, []) = Inr st"
        and rest: "foldR (check_manifest_line w dir) (enumerate (Suc k) ls) st = Inr (n, [])" by (auto simp: bindR_Inr_iff)
      from check_manifest_line_cases [OF st] False obtain f where "st = (c, [f])" by auto
      with manifest_failures_stay rest show False by fastforce
    qed
    with False show ?thesis by simp
  qed
qed auto

text \<open>
  The stock evidence is accepted exactly when every line of its list names a regular file, not
  a link, with the recorded digest; the count is then the number of lines.
\<close>

theorem evidence_manifest_iff:
  "verify_evidence_manifest w dir = Inr (n, []) \<longleftrightarrow>
     (\<exists>ls. is_file_at w (dir @ [''SHA256SUMS'']) \<and> lines_at w (dir @ [''SHA256SUMS'']) = Inr ls \<and> n = length ls \<and>
        list_all (evidence_ok w dir) ls)"
  using manifest_lines_iff [of w dir 1 _ 0 n]
  by (auto simp: verify_evidence_manifest_def bindR_Inr_iff)

end
