(* ===== verification/Preflight_Parts.thy ===== *)
theory Preflight_Parts
  imports Artifacts
begin

text \<open>
  \<open>tools/u11_preflight.py\<close>, first part: the parsers of the identity, key-value and kernel
  configuration files, the verification of a checksum list and of an extracted TAR, and the
  acceptance of a reproducibility report.
\<close>

section \<open>Text files\<close>

definition env_key :: "string \<Rightarrow> bool" where
  "env_key k = (k \<noteq> [] \<and> (let n = of_char (hd k) :: nat in 65 \<le> n \<and> n \<le> 90) \<and>
     list_all (\<lambda>c. let n = of_char c :: nat in (65 \<le> n \<and> n \<le> 90) \<or> (48 \<le> n \<and> n \<le> 57) \<or> n = 95) k)"

definition shell_free :: "string \<Rightarrow> bool" where
  "shell_free v = (\<not> prefix [CHR 0x27] v \<and> \<not> prefix [CHR 0x22] v \<and> CHR ''$'' \<notin> set v \<and> CHR 0x60 \<notin> set v)"

definition env_line :: "string \<Rightarrow> (string \<times> string) list \<Rightarrow> (audit_exc, (string \<times> string) list) res" where
  "env_line raw kvs =
     (let line = py_strip raw in
      if line = [] \<or> prefix ''#'' line then Inr kvs
      else guardR (CHR ''='' \<in> set line) (Value_Error line)
        (case metadata_pair line of (k, v) \<Rightarrow>
           guardR (env_key k) (Value_Error k) (guardR (shell_free v) (Value_Error line) (Inr (dict_set k v kvs)))))"

definition parse_env :: "world \<Rightarrow> path \<Rightarrow> (audit_exc, (string \<times> string) list) res" where
  "parse_env w p = bindR (lines_at w p) (\<lambda>ls. foldR env_line ls [])"

definition config_char :: "char \<Rightarrow> bool" where
  "config_char c = (let n = of_char c :: nat in (65 \<le> n \<and> n \<le> 90) \<or> (48 \<le> n \<and> n \<le> 57) \<or> n = 95)"

text \<open>\<open># CONFIG_X is not set\<close>.\<close>

definition unset_option :: "string \<Rightarrow> string option" where
  "unset_option raw =
     (if \<not> prefix ''# CONFIG_'' raw then None
      else let body = takeWhile config_char (drop 9 raw)
           in if body \<noteq> [] \<and> drop (9 + length body) raw = '' is not set'' then Some (''CONFIG_'' @ body) else None)"

definition config_line :: "string \<Rightarrow> (string \<times> string) list \<Rightarrow> (string \<times> string) list" where
  "config_line raw cfg =
     (if prefix ''CONFIG_'' raw \<and> CHR ''='' \<in> set raw then case metadata_pair raw of (k, v) \<Rightarrow> dict_set k v cfg
      else case unset_option raw of None \<Rightarrow> cfg | Some k \<Rightarrow> dict_set k ''n'' cfg)"

definition parse_kernel_config :: "world \<Rightarrow> path \<Rightarrow> (audit_exc, (string \<times> string) list) res" where
  "parse_kernel_config w p = bindR (read_bytes_at w p) (\<lambda>bs. Inr (fold config_line (split_lines [] (w_replace w bs)) []))"

definition module_names_from_vendor_list :: "world \<Rightarrow> path \<Rightarrow> (audit_exc, string list) res" where
  "module_names_from_vendor_list w p =
     bindR (non_comment_lines w p) (\<lambda>ls. Inr (map (\<lambda>l. py_strip (last (split_char CHR ''|'' l))) ls))"

section \<open>Paths\<close>

text \<open>The parts of \<open>Path(s)\<close>.\<close>

definition path_parts :: "string \<Rightarrow> string list" where
  "path_parts s = filter (\<lambda>c. c \<noteq> [] \<and> c \<noteq> ''.'') (split_char CHR ''/'' s)"

text \<open>\<open>resolve(strict=True)\<close>: every name on the way exists.\<close>

fun strict_resolve :: "nat \<Rightarrow> fs \<Rightarrow> path \<Rightarrow> string list \<Rightarrow> path option" where
  "strict_resolve 0 f cur cs = None"
| "strict_resolve (Suc n) f cur [] = Some cur"
| "strict_resolve (Suc n) f cur (c # cs) =
     (if c = [] \<or> c = ''.'' then strict_resolve n f cur cs
      else if c = ''..'' then strict_resolve n f (butlast cur) cs
      else case f (cur @ [c]) of
             None \<Rightarrow> None
           | Some (NLink t) \<Rightarrow>
               strict_resolve n f (if prefix ''/'' t then [] else cur) (split_char CHR ''/'' t @ cs)
           | Some e \<Rightarrow> strict_resolve n f (cur @ [c]) cs)"

text \<open>\<open>str(p.relative_to(base))\<close>.\<close>

definition relative_to :: "path \<Rightarrow> path \<Rightarrow> (audit_exc, string) res" where
  "relative_to p base =
     guardR (prefix base p) (Value_Error ''relative_to'')
       (Inr (if p = base then ''.'' else join ''/'' (drop (length base) p)))"

section \<open>Checksum lists\<close>

definition checksum_line :: "string \<Rightarrow> (string \<times> string) option" where
  "checksum_line raw =
     (if hex64 (take 64 raw) \<and> take 2 (drop 64 raw) = ''  '' \<and> drop 66 raw \<noteq> [] then Some (take 64 raw, drop 66 raw) else None)"

record checksum_state =
  cs_checked :: "string list"
  cs_failures :: "string list"
  cs_seen :: "string list"

definition fail_line :: "string \<Rightarrow> checksum_state \<Rightarrow> (audit_exc, checksum_state) res" where
  "fail_line m st = Inr (st\<lparr>cs_failures := cs_failures st @ [m]\<rparr>)"

text \<open>The file a line names, when it is inside the directory.\<close>

definition inside :: "world \<Rightarrow> path \<Rightarrow> path \<Rightarrow> path option" where
  "inside w dir p =
     (case (strict_resolve (w_steps w) (map_of (w_nodes w)) [] p, follow w dir) of
        (Some q, Some r) \<Rightarrow> if prefix r q then Some q else None
      | _ \<Rightarrow> None)"

definition checksum_step :: "world \<Rightarrow> path \<Rightarrow> nat \<times> string \<Rightarrow> checksum_state \<Rightarrow> (audit_exc, checksum_state) res" where
  "checksum_step w dir line st =
     (case line of (n, raw) \<Rightarrow>
        if py_strip raw = [] then Inr st
        else case checksum_line raw of
          None \<Rightarrow> fail_line (''l'' @ [CHR 0xED] @ ''nea '' @ fmt_nat n @ '' inv'' @ [CHR 0xE1] @ ''lida'') st
        | Some (expected, rel) \<Rightarrow>
            (if rel \<in> set (cs_seen st) then fail_line (''entrada duplicada: '' @ rel) st
             else let st' = st\<lparr>cs_seen := rel # cs_seen st\<rparr>; p = path_join dir rel in
               if \<not> prefix dir p then fail_line (''ruta fuera del artefacto: '' @ rel) st'
               else if is_link_at w p then fail_line (''symlink no permitido: '' @ rel) st'
               else case inside w dir p of
                 None \<Rightarrow> fail_line (''ruta resuelta fuera o ausente: '' @ rel) st'
               | Some q \<Rightarrow>
                   (if \<not> is_file_at w q then fail_line (''falta '' @ rel) st'
                    else bindR (sha_at w q) (\<lambda>h.
                      if h \<noteq> expected then fail_line (''hash distinto: '' @ rel) st'
                      else Inr (st'\<lparr>cs_checked := cs_checked st' @ [rel]\<rparr>)))))"

definition verify_checksum_file :: "world \<Rightarrow> path \<Rightarrow> path \<Rightarrow> (audit_exc, string list \<times> string list) res" where
  "verify_checksum_file w dir manifest =
     bindR (lines_at w manifest) (\<lambda>ls.
     bindR (foldR (checksum_step w dir) (enumerate 1 ls) \<lparr>cs_checked = [], cs_failures = [], cs_seen = []\<rparr>) (\<lambda>st.
       Inr (cs_checked st, cs_failures st)))"

section \<open>Extracted archives\<close>

text \<open>A member as iterating over the archive yields it; \<open>None\<close> is a member without data.\<close>

record tar_member =
  tm_name :: string
  tm_isdir :: bool
  tm_isfile :: bool
  tm_data :: "byte list option"

record tar_state =
  ts_count :: nat
  ts_failures :: "string list"
  ts_expected :: "string list"

definition tar_fail :: "string \<Rightarrow> tar_state \<Rightarrow> tar_state" where
  "tar_fail m st = st\<lparr>ts_failures := ts_failures st @ [m]\<rparr>"

definition tar_step :: "world \<Rightarrow> path \<Rightarrow> tar_member \<Rightarrow> tar_state \<Rightarrow> (audit_exc, tar_state) res" where
  "tar_step w dest m st =
     (let n = tm_name m; p = dest @ path_parts n in
      if prefix ''/'' n \<or> ''..'' \<in> set (path_parts n) then Inr (tar_fail (''ruta insegura en tar: '' @ n) st)
      else if tm_isdir m then Inr st
      else if \<not> tm_isfile m then Inr (tar_fail (''tipo no regular en tar: '' @ n) st)
      else let st' = st\<lparr>ts_expected := n # ts_expected st\<rparr> in
        if tm_data m = None \<or> \<not> is_file_at w p \<or> is_link_at w p
        then Inr (tar_fail (''falta regular extra'' @ [CHR 0xED] @ ''do: '' @ n) st')
        else bindR (sha_at w p) (\<lambda>h.
          let st'' = (if w_sha w (the (tm_data m)) \<noteq> h then tar_fail (''contenido distinto: '' @ n) st' else st')
          in Inr (st''\<lparr>ts_count := Suc (ts_count st'')\<rparr>)))"

definition extracted_names :: "world \<Rightarrow> path \<Rightarrow> string list" where
  "extracted_names w dest =
     map (\<lambda>q. join ''/'' (drop (length dest) q)) (filter (\<lambda>q. is_file_at w q \<and> \<not> is_link_at w q) (below w dest))"

definition verify_tar_extraction ::
  "(byte list \<Rightarrow> (audit_exc, tar_member list) res) \<Rightarrow> world \<Rightarrow> path \<Rightarrow> path \<Rightarrow> (audit_exc, nat \<times> string list) res" where
  "verify_tar_extraction members w archive dest =
     bindR (read_bytes_at w archive) (\<lambda>bs.
     bindR (members bs) (\<lambda>ms.
     bindR (foldR (tar_step w dest) ms \<lparr>ts_count = 0, ts_failures = [], ts_expected = []\<rparr>) (\<lambda>st.
       Inr (ts_count st, ts_failures st @
         map (\<lambda>x. ''regular extra no presente en tar: '' @ x)
           (filter (\<lambda>x. x \<notin> set (ts_expected st)) (sorted_set (extracted_names w dest)))))))"

section \<open>Sizes and the reproducibility report\<close>

record fit =
  fit_bytes :: int
  fit_limit :: int
  fit_margin :: int
  fit_fits :: bool

definition initramfs_fit :: "int \<Rightarrow> int \<Rightarrow> fit" where
  "initramfs_fit payload limit =
     \<lparr>fit_bytes = payload, fit_limit = limit, fit_margin = limit - payload, fit_fits = (payload \<le> limit)\<rparr>"

definition vkey :: "(string \<times> pyval) list \<Rightarrow> string \<Rightarrow> pyval" where
  "vkey kvs k = (case map_of kvs k of None \<Rightarrow> PNone | Some v \<Rightarrow> v)"

definition empty_fields :: "string list" where
  "empty_fields = [''missing_in_first'', ''missing_in_second'', ''only_in_first'', ''only_in_second'', ''differing'',
     ''unsafe_in_first'', ''unsafe_in_second'', ''first_metadata_errors'', ''second_metadata_errors'']"

definition repro_report_valid :: "pyval \<Rightarrow> (pyexc, bool) res" where
  "repro_report_valid report =
     (case report of
        PDict r \<Rightarrow> Inr (py_eq (vkey r ''schema'') (PInt 1) \<and>
          vkey r ''profile'' = PStr ''SM-X510-X510XXSBDZB4-U11-fixed-offline'' \<and>
          vkey r ''reproducible'' = PBool True \<and> vkey r ''physical_write_gate'' = PStr ''NO-GO'' \<and>
          is_str (vkey r ''first_run'') \<and> is_str (vkey r ''second_run'') \<and>
          \<not> py_eq (vkey r ''first_run'') (vkey r ''second_run'') \<and>
          list_all (\<lambda>k. vkey r k = PList []) empty_fields)
      | _ \<Rightarrow> Inl AttributeError)"

end
