(* ===== verification/Preflight.thy ===== *)
theory Preflight
  imports Preflight_Parts J1_Engine
begin

text \<open>
  \<open>tools/u11_preflight.py\<close>, second part: the checks in the order of \<open>run_audit\<close>, the result with
  its gates, the Markdown report and the exit status. A \<open>preflight_env\<close> holds the tree, the
  current directory, \<open>json.loads\<close> (nothing for a \<open>JSONDecodeError\<close>), \<open>str\<close> of a JSON value, and the
  members of a TAR archive. A path with two leading slashes is read as one with one.
\<close>

record preflight_env =
  pe_world :: world
  pe_cwd :: path
  pe_loads :: "string \<Rightarrow> pyval option"
  pe_show :: "pyval \<Rightarrow> string"
  pe_tar :: "byte list \<Rightarrow> (audit_exc, tar_member list) res"

type_synonym keys = "(string \<times> string) list"

definition lift_exc :: "(pyexc, 'a) res \<Rightarrow> (audit_exc, 'a) res" where
  "lift_exc r = (case r of Inr x \<Rightarrow> Inr x | Inl ValueError \<Rightarrow> Inl (Value_Error []) | Inl KeyError \<Rightarrow> Inl Key_Error
     | Inl e \<Rightarrow> Inl (Other_Error e))"

definition need_key :: "keys \<Rightarrow> string \<Rightarrow> (audit_exc, string) res" where
  "need_key kvs k = (case map_of kvs k of None \<Rightarrow> Inl Key_Error | Some v \<Rightarrow> Inr v)"

definition json_at :: "preflight_env \<Rightarrow> path \<Rightarrow> (audit_exc, pyval) res" where
  "json_at env p = bindR (read_text_at (pe_world env) p)
     (\<lambda>t. case pe_loads env t of None \<Rightarrow> Inl (Value_Error t) | Some v \<Rightarrow> Inr v)"

text \<open>\<open>f(path) if path.is_file() else default\<close>.\<close>

definition if_file :: "world \<Rightarrow> path \<Rightarrow> 'a \<Rightarrow> (audit_exc, 'a) res \<Rightarrow> (audit_exc, 'a) res" where
  "if_file w p absent m = (if is_file_at w p then m else Inr absent)"

definition evidence_for :: "preflight_env \<Rightarrow> path \<Rightarrow> path \<Rightarrow> (audit_exc, string option) res" where
  "evidence_for env r p =
     (if exists_at (pe_world env) p then bindR (relative_to p r) (\<lambda>s. Inr (Some s)) else Inr None)"

section \<open>The collected checks\<close>

text \<open>\<open>Audit.add\<close>; empty evidence is not recorded.\<close>

definition add_check :: "string \<Rightarrow> status \<Rightarrow> string \<Rightarrow> string option \<Rightarrow> check list \<Rightarrow> check list" where
  "add_check i st d e cs =
     cs @ [\<lparr>c_id = i, c_status = st, c_detail = d, c_evidence = (if e = Some [] then None else e)\<rparr>]"

definition audit_passed :: "check list \<Rightarrow> string list \<Rightarrow> bool" where
  "audit_passed cs wanted = list_all (\<lambda>i. list_ex (\<lambda>c. c_id c = i \<and> c_status c = PASS) cs) wanted"

definition pass_if :: "bool \<Rightarrow> status" where "pass_if b = (if b then PASS else FAIL)"

section \<open>Identity and packages\<close>

definition u11_identity_ok :: "keys \<Rightarrow> keys \<Rightarrow> bool" where
  "u11_identity_ok ident target =
     (map_of ident ''U11_MODEL'' = Some ''SM-X510'' \<and> map_of ident ''U11_SOURCE_AP_VERSION'' = Some ''X510XXSBDZB4'' \<and>
      map_of ident ''U11_SOURCE_BASE_VERSION'' = Some ''X510XXU8DYJ4'' \<and> map_of ident ''U11_BOOTLOADER_REVISION'' = Some ''11'' \<and>
      map_of ident ''U11_KERNEL_RELEASE'' = Some ''5.15.180'' \<and> map_of target ''TARGET_AP_VERSION'' = Some ''X510XXUCEZE4'' \<and>
      map_of target ''TARGET_BOOTLOADER_REVISION'' = Some ''12'')"

record package =
  pk_path :: path
  pk_bytes :: "nat option"
  pk_expected :: string
  pk_actual :: "string option"

definition package_keys :: "(string \<times> string) list" where
  "package_keys = [(''U11_BASE_ZIP'', ''U11_BASE_ZIP_SHA256''), (''U11_OVERLAY_ZIP'', ''U11_OVERLAY_ZIP_SHA256''),
     (''U11_KERNEL_TARBALL'', ''U11_KERNEL_TARBALL_SHA256'')]"

definition file_size :: "world \<Rightarrow> path \<Rightarrow> nat option" where
  "file_size w p = (case node_at w p of Some (NFile bs m) \<Rightarrow> Some (length bs) | _ \<Rightarrow> None)"

definition audit_package :: "world \<Rightarrow> path \<Rightarrow> keys \<Rightarrow> string \<times> string \<Rightarrow> (audit_exc, string list \<times> package) res" where
  "audit_package w r ident ks =
     (case ks of (pk, hk) \<Rightarrow>
        bindR (need_key ident pk) (\<lambda>value.
        bindR (need_key ident hk) (\<lambda>expected.
          let p = path_join r value in
          bindR (if_file w p None (bindR (sha_at w p) (\<lambda>h. Inr (Some h)))) (\<lambda>actual.
            Inr (flag (actual \<noteq> Some expected) pk,
                 \<lparr>pk_path = p, pk_bytes = file_size w p, pk_expected = expected, pk_actual = actual\<rparr>)))))"

definition packages_detail :: "string list \<Rightarrow> string" where
  "packages_detail failures = ''OSRC base, overlay, and Kernel.tar.gz hashes '' @
     (if failures \<noteq> [] then ''do not match: '' @ join '', '' failures else ''match'')"

section \<open>The build\<close>

definition with_failures :: "string list \<Rightarrow> string" where
  "with_failures fs = (if fs = [] then [] else ''; '' @ join '', '' fs)"

definition audit_hashes :: "preflight_env \<Rightarrow> path \<Rightarrow> path \<Rightarrow> check list \<Rightarrow> (audit_exc, check list) res" where
  "audit_hashes env r build cs =
     (let w = pe_world env; manifest = build @ [''SHA256SUMS''] in
      bindR (if_file w manifest ([], [''falta SHA256SUMS'']) (verify_checksum_file w build manifest)) (\<lambda>(checked, failures).
      bindR (evidence_for env r manifest) (\<lambda>ev.
        Inr (add_check ''build_hashes'' (pass_if (failures = []))
          (fmt_nat (length checked) @ '' build artifacts verified'' @ with_failures failures) ev cs))))"

definition build_info_ok :: "keys \<Rightarrow> keys \<Rightarrow> bool" where
  "build_info_ok info ident =
     (map_of info ''source_release'' = map_of ident ''U11_SOURCE_AP_VERSION'' \<and>
      map_of info ''source_base'' = map_of ident ''U11_SOURCE_BASE_VERSION'' \<and>
      map_of info ''kernel_release'' = map_of ident ''U11_KERNEL_RELEASE'' \<and>
      map_of info ''full_build_exit_status'' = Some ''0'' \<and> map_of info ''built_modules'' = Some ''282'' \<and>
      map_of info ''installed_modules'' = Some ''282'')"

definition required_early_userspace :: "string list" where
  "required_early_userspace = [''CONFIG_BLK_DEV_INITRD'', ''CONFIG_DEVTMPFS'', ''CONFIG_DEVTMPFS_MOUNT'', ''CONFIG_FHANDLE'',
     ''CONFIG_TTY'', ''CONFIG_VT'', ''CONFIG_SERIAL_EARLYCON'', ''CONFIG_SERIAL_SAMSUNG_CONSOLE'', ''CONFIG_PROC_FS'',
     ''CONFIG_SYSFS'', ''CONFIG_TMPFS'', ''CONFIG_TMPFS_POSIX_ACL'', ''CONFIG_TMPFS_XATTR'']"

definition audit_build_info :: "world \<Rightarrow> path \<Rightarrow> keys \<Rightarrow> check list \<Rightarrow> (audit_exc, check list) res" where
  "audit_build_info w build ident cs =
     bindR (if_file w (build @ [''BUILD_INFO.txt'']) [] (key_values w (build @ [''BUILD_INFO.txt'']))) (\<lambda>info.
       let ok = build_info_ok info ident in
       Inr (add_check ''build_identity'' (pass_if ok)
         (if ok then ''BUILD_INFO links source, kernel, and 282 modules'' else ''BUILD_INFO does not match U11 identity'') None cs))"

definition audit_config :: "preflight_env \<Rightarrow> path \<Rightarrow> path \<Rightarrow> check list \<Rightarrow> (audit_exc, check list) res" where
  "audit_config env r build cs =
     (let w = pe_world env; p = build @ [''kernel.config''] in
      bindR (if_file w p [] (parse_kernel_config w p)) (\<lambda>config.
      bindR (evidence_for env r p) (\<lambda>ev.
        let missing = filter (\<lambda>k. map_of config k \<noteq> Some ''y'') required_early_userspace in
        Inr (add_check ''early_userspace_config'' (pass_if (missing = []))
          (if missing = [] then ''config prepared for initramfs and early console'' else ''missing: '' @ join '', '' missing)
          ev cs))))"

section \<open>The installed modules\<close>

definition children_dirs :: "world \<Rightarrow> path \<Rightarrow> path list" where
  "children_dirs w p = filter (\<lambda>q. length q = Suc (length p) \<and> is_dir_at w q) (below w p)"

text \<open>The directory of the release, when it is the only one and has the right name.\<close>

definition installed_release :: "world \<Rightarrow> path \<Rightarrow> keys \<Rightarrow> path option" where
  "installed_release w build ident =
     (case children_dirs w (build @ [''modules-installed'', ''modules-root'', ''lib'', ''modules'']) of
        [d] \<Rightarrow> if map_of ident ''U11_KERNEL_RELEASE'' = Some (last d) then Some d else None
      | _ \<Rightarrow> None)"

definition modules_of :: "world \<Rightarrow> path option \<Rightarrow> path list" where
  "modules_of w rel = (case rel of None \<Rightarrow> [] | Some d \<Rightarrow> ko_files w d)"

definition audit_installed_modules ::
  "preflight_env \<Rightarrow> path \<Rightarrow> keys \<Rightarrow> check list \<Rightarrow> (audit_exc, check list) res" where
  "audit_installed_modules env build ident cs =
     (let w = pe_world env; inst = build @ [''modules-installed''];
          dirs = children_dirs w (inst @ [''modules-root'', ''lib'', ''modules'']); rel = installed_release w build ident;
          mods = modules_of w rel; links = filter (is_link_at w) (below w inst); tar = build @ [''modules-root.tar.gz''] in
      bindR (if_file w tar (0, [''falta modules-root.tar.gz'']) (verify_tar_extraction (pe_tar env) w tar inst)) (\<lambda>(n, failures).
        Inr (add_check ''installed_modules''
          (pass_if (rel \<noteq> None \<and> length mods = 282 \<and> links = [] \<and> failures = []))
          (''release='' @ (case dirs of [d] \<Rightarrow> last d | _ \<Rightarrow> ''ambiguous'') @ '', modules='' @ fmt_nat (length mods) @
           '', regular files verified against tar='' @ fmt_nat n @ '', symlinks='' @ fmt_nat (length links) @ with_failures failures)
          None cs)))"

definition remove_prefix :: "string \<Rightarrow> string \<Rightarrow> string" where
  "remove_prefix p s = (if prefix p s then drop (length p) s else s)"

definition audit_module_order ::
  "preflight_env \<Rightarrow> path \<Rightarrow> keys \<Rightarrow> check list \<Rightarrow> (audit_exc, check list) res" where
  "audit_module_order env build ident cs =
     (let w = pe_world env; bp = build @ [''modules.order''];
          ip = (case installed_release w build ident of None \<Rightarrow> pe_cwd env @ [''missing''] | Some d \<Rightarrow> d @ [''modules.order'']) in
      bindR (if_file w bp [] (non_comment_lines w bp)) (\<lambda>built.
      bindR (if_file w ip [] (non_comment_lines w ip)) (\<lambda>inst.
        Inr (add_check ''module_order_consistency''
          (pass_if (length built = 282 \<and> map (remove_prefix ''kernel/'') inst = built))
          (''modules.order build/install: '' @ fmt_nat (length built) @ ''/'' @ fmt_nat (length inst)) None cs))))"

definition vendor_lists :: "string list" where
  "vendor_lists = [''vendor_module_list_s5e8835.cfg'', ''vendor_module_list_s5e8835_gts9fewifi.cfg'']"

definition audit_vendor_lists ::
  "world \<Rightarrow> path \<Rightarrow> keys \<Rightarrow> check list \<Rightarrow> (audit_exc, check list) res" where
  "audit_vendor_lists w build ident cs =
     (let available = map last (modules_of w (installed_release w build ident));
          ep = build @ [''vendor_boot_module_order_s5e8835.cfg''] in
      bindR (if_file w ep [] (non_comment_lines w ep)) (\<lambda>early.
      bindR (catR (map (\<lambda>f. if_file w (build @ [f]) [] (module_names_from_vendor_list w (build @ [f]))) vendor_lists)) (\<lambda>vendor.
        let missing = filter (\<lambda>n. n \<notin> set available) (early @ vendor) in
        Inr (add_check ''vendor_module_lists'' (pass_if (missing = [] \<and> length early = 7))
          (if missing = [] then ''7 early modules + '' @ fmt_nat (length vendor) @ '' product modules present''
           else ''missing: '' @ join '', '' missing) None cs))))"

section \<open>The JSON reports\<close>

text \<open>Iterating over a value, and \<open>v.get(k, default)\<close> with its exceptions.\<close>

fun py_iter :: "pyval \<Rightarrow> (pyexc, pyval list) res" where
  "py_iter (PList xs) = Inr xs"
| "py_iter (PDict kvs) = Inr (map (\<lambda>(k, v). PStr k) kvs)"
| "py_iter (PStr s) = Inr (map (\<lambda>c. PStr [c]) s)"
| "py_iter v = Inl TypeError"

definition jget :: "pyval \<Rightarrow> string \<Rightarrow> (audit_exc, pyval) res" where
  "jget v k = lift_exc (py_get_default v k PNone)"

definition opt_val :: "string option \<Rightarrow> pyval" where
  "opt_val v = (case v of None \<Rightarrow> PNone | Some s \<Rightarrow> PStr s)"

definition required_module_checks :: "string list" where
  "required_module_checks = [''stock_provenance'', ''u11_module_metadata'', ''u11_hard_dependency_graph'',
     ''stock_u11_load_order'', ''ufs_closure'', ''usb_closure'']"

text \<open>\<open>{item.get("id"): item.get("status") for item in checks}\<close>, latest first.\<close>

fun module_statuses :: "pyval list \<Rightarrow> (pyval \<times> pyval) list \<Rightarrow> (audit_exc, (pyval \<times> pyval) list) res" where
  "module_statuses [] acc = Inr acc"
| "module_statuses (item # items) acc =
     bindR (jget item ''id'') (\<lambda>i. bindR (jget item ''status'') (\<lambda>st.
       guardR (hashable i) (Other_Error TypeError) (module_statuses items ((i, st) # acc))))"

definition audit_module_report ::
  "preflight_env \<Rightarrow> path \<Rightarrow> keys \<Rightarrow> check list \<Rightarrow> (audit_exc, check list) res" where
  "audit_module_report env r ident cs =
     (let p = r @ [''reports'', ''generated'', ''u11-modules'', ''modules-audit.json''] in
      bindR (json_at env p) (\<lambda>report.
      bindR (lift_exc (py_get_default report ''checks'' (PList []))) (\<lambda>items.
      bindR (lift_exc (py_iter items)) (\<lambda>xs.
      bindR (module_statuses xs []) (\<lambda>statuses.
      bindR (jget report ''physical_write_gate'') (\<lambda>gate.
        let missing = filter (\<lambda>c. map_of statuses (PStr c) \<noteq> Some (PStr ''PASS'')) (sorted_set required_module_checks) in
        bindR (if missing \<noteq> [] \<or> gate \<noteq> PStr ''NO-GO'' then Inr False
               else bindR (lift_exc (py_get_default report ''u11'' (PDict []))) (\<lambda>u11.
                    bindR (jget u11 ''release'') (\<lambda>release.
                    bindR (jget u11 ''modules'') (\<lambda>mods.
                      Inr (py_eq release (opt_val (map_of ident ''U11_KERNEL_RELEASE'')) \<and> py_eq mods (PInt 282)))))) (\<lambda>ok.
          Inr (add_check ''module_vendor_boot_audit'' (pass_if ok)
            (if ok then ''metadata, dependencies, stock order, and UFS/USB closures verified''
             else ''missing/failed module checks: '' @ join '', '' missing)
            (Some (join ''/'' (drop (length r) p))) cs))))))))"

text \<open>The size of the stock ramdisk: \<open>next(...)\<close> over the boot images, \<open>int\<close> of the field.\<close>

fun find_init_boot :: "preflight_env \<Rightarrow> pyval list \<Rightarrow> (audit_exc, pyval) res" where
  "find_init_boot env [] = Inl Stop_Iteration"
| "find_init_boot env (item # items) =
     bindR (lift_exc (py_get_default item ''path'' (PStr []))) (\<lambda>v.
       if ends_with (pe_show env v) ''init_boot.img'' then Inr item else find_init_boot env items)"

definition stock_limit :: "preflight_env \<Rightarrow> path \<Rightarrow> (audit_exc, int) res" where
  "stock_limit env r =
     bindR (json_at env (r @ [''artifacts'', ''stock'', ''boot-layout.json''])) (\<lambda>layout.
     bindR (lift_exc (py_iter layout)) (\<lambda>items.
     bindR (find_init_boot env items) (\<lambda>item.
     bindR (lift_exc (py_get item ''ramdisk_size'')) (\<lambda>v. case v of
        None \<Rightarrow> Inl Key_Error
      | Some size_val \<Rightarrow> lift_exc (py_int size_val)))))"

section \<open>The initramfs\<close>

definition opt_sha :: "world \<Rightarrow> path \<Rightarrow> (audit_exc, string option) res" where
  "opt_sha w p = if_file w p None (bindR (sha_at w p) (\<lambda>h. Inr (Some h)))"

definition provenance_ok :: "keys \<Rightarrow> keys \<Rightarrow> string option \<Rightarrow> string option \<Rightarrow> bool" where
  "provenance_ok m ident manifest_sha modules_sha =
     (map_of m ''source_ap_version'' = map_of ident ''U11_SOURCE_AP_VERSION'' \<and>
      map_of m ''kernel_release'' = map_of ident ''U11_KERNEL_RELEASE'' \<and> map_of m ''module_count'' = Some ''282'' \<and>
      map_of m ''byte_reproducible'' = Some ''yes'' \<and> map_of m ''source_build_manifest_sha256'' = manifest_sha \<and>
      map_of m ''source_modules_archive_sha256'' = modules_sha \<and>
      hex64 (case map_of m ''source_modules_tree_sha256'' of None \<Rightarrow> [] | Some v \<Rightarrow> v) \<and>
      map_of m ''physical_write_gate'' = Some ''NO-GO'')"

definition audit_initramfs_source ::
  "preflight_env \<Rightarrow> path \<Rightarrow> path \<Rightarrow> path \<Rightarrow> keys \<Rightarrow> check list \<Rightarrow> (audit_exc, check list) res" where
  "audit_initramfs_source env r build ir ident cs =
     (let w = pe_world env; mp = ir @ [''BUILD-METADATA''] in
      bindR (if_file w mp [] (key_values w mp)) (\<lambda>m.
      bindR (opt_sha w (build @ [''SHA256SUMS''])) (\<lambda>manifest_sha.
      bindR (opt_sha w (build @ [''modules-root.tar.gz''])) (\<lambda>modules_sha.
      bindR (evidence_for env r mp) (\<lambda>ev.
        let ok = provenance_ok m ident manifest_sha modules_sha in
        Inr (add_check ''initramfs_source_provenance'' (pass_if ok)
          (if ok then ''initramfs linked by hash to U11 manifest, tar, and modules tree''
           else ''incomplete initramfs metadata or mismatch with U11 build'') ev cs))))))"

record initramfs_facts =
  if_modules :: nat
  if_checksums :: nat
  if_fit :: fit

definition expected_counts :: "(string \<times> nat) list" where
  "expected_counts = [(''minimal'', 0), (''ufs'', 28), (''usb'', 45)]"

definition profile_status :: "bool \<Rightarrow> fit \<Rightarrow> status" where
  "profile_status ok f = (if \<not> ok then FAIL else if fit_fits f then PASS else WARN)"

definition profile_detail :: "string \<Rightarrow> nat \<Rightarrow> fit \<Rightarrow> string" where
  "profile_detail name n f =
     fmt_nat n @ '' modules, LZ4='' @ fmt_int (fit_bytes f) @ '' B, margin='' @ fmt_int (fit_margin f) @ '' B'' @
     (if name = ''usb'' \<and> \<not> fit_fits f then ''; oversized diagnostic profile, unpackable'' else [])"

definition audit_initramfs ::
  "preflight_env \<Rightarrow> path \<Rightarrow> path \<Rightarrow> int \<Rightarrow> string \<times> nat \<Rightarrow> check list \<times> (string \<times> initramfs_facts) list \<Rightarrow>
   (audit_exc, check list \<times> (string \<times> initramfs_facts) list) res" where
  "audit_initramfs env r ir limit spec st =
     (case (spec, st) of ((name, expected), (cs, facts)) \<Rightarrow>
       let w = pe_world env; d = ir @ [name]; manifest = d @ [''SHA256SUMS''];
           mods = ko_files w (d @ [''rootfs'', ''lib'', ''modules'']) in
       bindR (if_file w manifest ([], [''falta SHA256SUMS'']) (verify_checksum_file w d manifest)) (\<lambda>(checked, failures).
       bindR (evidence_for env r manifest) (\<lambda>ev.
         let f = initramfs_fit (case file_size w (d @ [''gts9fe-initramfs.cpio.lz4'']) of Some n \<Rightarrow> int n | None \<Rightarrow> limit + 1) limit
         in Inr (add_check (''initramfs_'' @ name) (profile_status (failures = [] \<and> length mods = expected) f)
                   (profile_detail name (length mods) f) ev cs,
                 facts @ [(name, \<lparr>if_modules = length mods, if_checksums = length checked, if_fit = f\<rparr>)]))))"

section \<open>Distance and reproducibility\<close>

definition material :: "preflight_env \<Rightarrow> pyval \<Rightarrow> (audit_exc, string \<times> pyval) res" where
  "material env report =
     bindR (jget report ''material_difference_count'') (\<lambda>n.
     bindR (lift_exc (py_get_default report ''unresolved'' (PList []))) (\<lambda>u.
     bindR (lift_exc (py_len u)) (\<lambda>k. Inr (pe_show env n @ '', unresolved='' @ fmt_nat k, n))))"

definition audit_distance :: "preflight_env \<Rightarrow> path \<Rightarrow> check list \<Rightarrow> (audit_exc, check list) res" where
  "audit_distance env r cs =
     (let bp = r @ [''reports'', ''generated'', ''u11-dtb-binary'', ''semantic-base-compiled-u11-eze4.json''] in
      bindR (json_at env (r @ [''reports'', ''generated'', ''u11-osrc'', ''semantic-r04-u11-eze4.json''])) (\<lambda>r04.
      bindR (json_at env bp) (\<lambda>base.
      bindR (material env r04) (\<lambda>(text_r04, n_r04).
      bindR (material env base) (\<lambda>(text_base, n_base).
        Inr (add_check ''dt_observed_distance'' (if py_eq n_r04 (PInt 0) \<and> py_eq n_base (PInt 4) then WARN else FAIL)
          (''r04 material='' @ text_r04 @ ''; compiled base DTB material='' @ text_base @ ''. Does not prove equivalence.'')
          (Some (join ''/'' (drop (length r) bp))) cs))))))"

definition audit_reproducibility :: "preflight_env \<Rightarrow> path \<Rightarrow> check list \<Rightarrow> (audit_exc, check list) res" where
  "audit_reproducibility env r cs =
     (let p = r @ [''reports'', ''generated'', ''u11-repro'', ''reproducibility.json''] in
      bindR (if_file (pe_world env) p (PDict []) (json_at env p)) (\<lambda>report.
      bindR (lift_exc (repro_report_valid report)) (\<lambda>ok.
      bindR (evidence_for env r p) (\<lambda>ev.
        Inr (add_check ''kernel_binary_reproducibility'' (if ok then PASS else WARN)
          (if ok then ''two clean runs of fixed profile are byte-for-byte identical''
           else ''missing valid comparison of two clean runs of fixed profile'') ev cs)))))"

definition add_standing :: "check list \<Rightarrow> check list" where
  "add_standing cs =
     add_check ''physical_write_gate'' WARN ''NO-GO: this report never authorizes flashing, signing, or downgrade'' None
       (add_check ''hardware_observation'' WARN ''no console or physical testing; M2/M3 not observed'' None
         (add_check ''exact_eze4_source'' WARN ''OSRC X510XXUCEZE4 request is pending; U11 is not U12/EZE4'' None cs))"

section \<open>The audit\<close>

record preflight_result =
  pr_source :: "string option \<times> string option \<times> string option"
  pr_target :: "string option \<times> string option"
  pr_packages :: "package list"
  pr_limit :: int
  pr_profiles :: "(string \<times> initramfs_facts) list"
  pr_checks :: "check list"
  pr_offline_ready :: bool
  pr_m3_payload_ready :: bool

definition offline_ids :: "string list" where
  "offline_ids = [''identity_separation'', ''osrc_hashes'', ''build_hashes'', ''build_identity'',
     ''early_userspace_config'', ''installed_modules'', ''module_order_consistency'', ''vendor_module_lists'',
     ''module_vendor_boot_audit'', ''initramfs_source_provenance'', ''initramfs_minimal'', ''initramfs_ufs'']"

definition payload_ids :: "string list" where
  "payload_ids = [''early_userspace_config'', ''initramfs_minimal'', ''initramfs_ufs'']"

text \<open>The checks on the build, in the order of the code.\<close>

definition audit_build ::
  "preflight_env \<Rightarrow> path \<Rightarrow> path \<Rightarrow> keys \<Rightarrow> check list \<Rightarrow> (audit_exc, check list) res" where
  "audit_build env r build ident cs =
     bindR (audit_hashes env r build cs) (\<lambda>cs.
     bindR (audit_build_info (pe_world env) build ident cs) (\<lambda>cs.
     bindR (audit_config env r build cs) (\<lambda>cs.
     bindR (audit_installed_modules env build ident cs) (\<lambda>cs.
     bindR (audit_module_order env build ident cs) (\<lambda>cs.
     bindR (audit_vendor_lists (pe_world env) build ident cs) (\<lambda>cs.
       audit_module_report env r ident cs))))))"

definition audit_packages ::
  "world \<Rightarrow> path \<Rightarrow> keys \<Rightarrow> check list \<Rightarrow> (audit_exc, check list \<times> package list) res" where
  "audit_packages w r ident cs =
     bindR (mapR (audit_package w r ident) package_keys) (\<lambda>ps.
       let failures = concat (map fst ps) in
       Inr (add_check ''osrc_hashes'' (pass_if (failures = [])) (packages_detail failures) None cs, map snd ps))"

definition result_of ::
  "keys \<Rightarrow> keys \<Rightarrow> package list \<Rightarrow> int \<Rightarrow> (string \<times> initramfs_facts) list \<Rightarrow> check list \<Rightarrow> preflight_result" where
  "result_of ident target ps limit facts cs =
     \<lparr>pr_source = (map_of ident ''U11_SOURCE_AP_VERSION'', map_of ident ''U11_SOURCE_BASE_VERSION'',
                   map_of ident ''U11_KERNEL_RELEASE''),
      pr_target = (map_of target ''TARGET_AP_VERSION'', map_of target ''TARGET_FIRMWARE_SHA256''),
      pr_packages = ps, pr_limit = limit, pr_profiles = facts, pr_checks = cs,
      pr_offline_ready = audit_passed cs offline_ids, pr_m3_payload_ready = audit_passed cs payload_ids\<rparr>"

definition run_audit :: "preflight_env \<Rightarrow> path \<Rightarrow> path \<Rightarrow> (audit_exc, preflight_result) res" where
  "run_audit env r identity_path =
     (let w = pe_world env in
      bindR (parse_env w identity_path) (\<lambda>ident.
      bindR (parse_env w (r @ [''configs'', ''target-sm-x510.env''])) (\<lambda>target.
      bindR (relative_to identity_path r) (\<lambda>ev.
      bindR (audit_packages w r ident (add_check ''identity_separation'' (pass_if (u11_identity_ok ident target))
               ''U11/B11 source and EZE4/U12 target are registered as distinct identities'' (Some ev) [])) (\<lambda>(cs, ps).
      bindR (need_key ident ''U11_BUILD_ARTIFACTS'') (\<lambda>build_value.
        let build = path_join r build_value in
      bindR (audit_build env r build ident cs) (\<lambda>cs.
      bindR (stock_limit env r) (\<lambda>limit.
      bindR (need_key ident ''U11_INITRAMFS_ARTIFACTS'') (\<lambda>init_value.
        let ir = path_join r init_value in
      bindR (audit_initramfs_source env r build ir ident cs) (\<lambda>cs.
      bindR (foldR (audit_initramfs env r ir limit) expected_counts (cs, [])) (\<lambda>(cs, facts).
      bindR (audit_distance env r cs) (\<lambda>cs.
      bindR (audit_reproducibility env r cs) (\<lambda>cs.
        Inr (result_of ident target ps limit facts (add_standing cs)))))))))))))))"

section \<open>The report\<close>

definition ready :: "bool \<Rightarrow> string" where "ready b = (if b then ''READY'' else ''NOT READY'')"

definition profile_row :: "string \<times> initramfs_facts \<Rightarrow> string" where
  "profile_row nf = (case nf of (name, f) \<Rightarrow>
     ''| '' @ tick name @ '' | '' @ fmt_nat (if_modules f) @ '' | '' @ fmt_int (fit_bytes (if_fit f)) @ '' | '' @
     fmt_int (fit_margin (if_fit f)) @ '' | '' @ (if fit_fits (if_fit f) then ''yes'' else ''no'') @ '' |'')"

definition preflight_markdown :: "preflight_result \<Rightarrow> string" where
  "preflight_markdown r = join nl
     ([''# U11 Offline Preflight for M2/M3'', [],
       ''This report verifies offline consistency. **It never authorizes writing to the tablet.**'', [],
       ''## Verdict'', [],
       ''- U11 offline analysis: '' @ tick (ready (pr_offline_ready r)),
       ''- M3 payload: '' @ tick (ready (pr_m3_payload_ready r)),
       ''- M2 observed on hardware: '' @ tick ''false'',
       ''- M3 observed on hardware: '' @ tick ''false'',
       ''- physical write: '' @ tick ''NO-GO'', [],
       ''## Initramfs vs EZE4 init_boot'', [],
       ''| profile | modules | LZ4 (B) | margin (B) | fits |'', ''|---|---:|---:|---:|---|'']
      @ map profile_row (pr_profiles r) @ [[], ''## Checks'', [], ''| status | check | detail |'', ''|---|---|---|'']
      @ map check_row (pr_checks r) @
      [[], ''## How to Read the Result'', [],
       ''`READY` only means that offline inputs are consistent with each other. Incomplete'',
       ''DTS states, lack of exact EZE4 source, and the'',
       ''absence of physical observation keep the write gate at `NO-GO`.'', []])"

text \<open>
  The exit status of \<open>main\<close> when the reports could be written: \<open>OSError\<close>, \<open>ValueError\<close>, \<open>KeyError\<close>
  and \<open>StopIteration\<close> give 2; any other exception ends the program with status 1.
\<close>

definition preflight_exit :: "(audit_exc, preflight_result) res \<Rightarrow> nat" where
  "preflight_exit r =
     (case r of
        Inl (Other_Error e) \<Rightarrow> 1
      | Inl Index_Error \<Rightarrow> 1
      | Inl e \<Rightarrow> 2
      | Inr x \<Rightarrow> if no_failure (pr_checks x) then 0 else 1)"

text \<open>\<open>main\<close>: both reports are written inside the \<open>try\<close>.\<close>

definition preflight_main ::
  "(preflight_result \<Rightarrow> byte list) \<Rightarrow> repro_env \<Rightarrow> repro_env \<Rightarrow> path \<Rightarrow> path \<Rightarrow> (audit_exc, preflight_result) res \<Rightarrow> fs \<Rightarrow> fs \<times> nat" where
  "preflight_main json env1 env2 json_out md_out r f =
     (case r of
        Inl e \<Rightarrow> (f, preflight_exit r)
      | Inr x \<Rightarrow> (case repro_write env1 json_out (json x) f of
            (g, False) \<Rightarrow> (g, 2)
          | (g, True) \<Rightarrow> (case repro_write env2 md_out (map (\<lambda>c. of_char c) (preflight_markdown x)) g of
                (h, False) \<Rightarrow> (h, 2)
              | (h, True) \<Rightarrow> (h, preflight_exit r))))"

end
