(* ===== verification/Preflight_Properties.thy ===== *)
theory Preflight_Properties
  imports Preflight
begin

text \<open>
  What the checks of \<open>tools/u11_preflight.py\<close> establish: the reproducibility report it accepts is
  the one the comparer writes for identical builds, an accepted checksum list, and the gate of
  the M3 payload.
\<close>

section \<open>The reproducibility report\<close>

definition str_list :: "string list \<Rightarrow> pyval" where "str_list xs = PList (map PStr xs)"

text \<open>The report of \<open>tools/u11_repro_compare.py\<close> as \<open>json.loads\<close> reads it back.\<close>

definition repro_json :: "repro_result \<Rightarrow> pyval" where
  "repro_json r = PDict
     [(''schema'', PInt 1), (''profile'', PStr ''SM-X510-X510XXSBDZB4-U11-fixed-offline''),
      (''first_run'', PStr (first_run r)), (''second_run'', PStr (second_run r)),
      (''first_dist'', PStr (''/'' @ join ''/'' (first_dist r))), (''second_dist'', PStr (''/'' @ join ''/'' (second_dist r))),
      (''first_file_count'', PInt (int (first_file_count r))), (''second_file_count'', PInt (int (second_file_count r))),
      (''required_files'', str_list (sorted_set required)),
      (''missing_in_first'', str_list (missing_in_first r)), (''missing_in_second'', str_list (missing_in_second r)),
      (''only_in_first'', str_list (only_in_first r)), (''only_in_second'', str_list (only_in_second r)),
      (''differing'', str_list (differing_files r)),
      (''unsafe_in_first'', str_list (unsafe_in_first r)), (''unsafe_in_second'', str_list (unsafe_in_second r)),
      (''first_metadata_errors'', str_list (first_metadata_errors r)),
      (''second_metadata_errors'', str_list (second_metadata_errors r)),
      (''reproducible'', PBool (reproducible r)), (''physical_write_gate'', PStr ''NO-GO'')]"

text \<open>
  Claim C18. The two tools agree: the preflight accepts the report of a comparison exactly when
  the comparison found the builds reproducible.
\<close>

theorem repro_report_accepted:
  assumes "compare_dists sha a b = Inr r"
  shows "repro_report_valid (repro_json r) = Inr (reproducible r)"
proof -
  from assms have runs: "first_run r \<noteq> second_run r"
    and verdict: "reproducible r \<longleftrightarrow> missing_in_first r = [] \<and> missing_in_second r = [] \<and> only_in_first r = [] \<and>
      only_in_second r = [] \<and> differing_files r = [] \<and> unsafe_in_first r = [] \<and> unsafe_in_second r = [] \<and>
      first_metadata_errors r = [] \<and> second_metadata_errors r = []"
    by (auto simp: compare_dists_def res_iff split: prod.splits option.splits entry.splits)
  have str_list: "str_list xs = PList [] \<longleftrightarrow> xs = []" for xs by (simp add: str_list_def)
  have list: "list_all (\<lambda>k. vkey (case repro_json r of PDict kvs \<Rightarrow> kvs) k = PList []) empty_fields \<longleftrightarrow> reproducible r"
    unfolding verdict by (simp add: empty_fields_def repro_json_def vkey_def str_list)
  with runs show ?thesis by (cases "reproducible r") (simp_all add: repro_report_valid_def repro_json_def vkey_def)
qed

theorem repro_report_accepted_witness:
  "\<exists>res. compare_dists (\<lambda>bs. ''h'') ([''r1'', ''dist''], Some (Directory one_file)) ([''r2'', ''dist''], Some (Directory one_file))
     = Inr res \<and> repro_report_valid (repro_json res) = Inr (reproducible res)"
  using one_file_compared repro_report_accepted by blast

section \<open>Checksum lists\<close>

text \<open>A line that is accepted, and the name it gives.\<close>

definition line_ok :: "world \<Rightarrow> path \<Rightarrow> string \<Rightarrow> bool" where
  "line_ok w dir raw \<longleftrightarrow> (\<exists>h rel q. checksum_line raw = Some (h, rel) \<and> prefix dir (path_join dir rel) \<and>
     \<not> is_link_at w (path_join dir rel) \<and> inside w dir (path_join dir rel) = Some q \<and> is_file_at w q \<and> sha_at w q = Inr h)"

definition line_name :: "string \<Rightarrow> string" where
  "line_name raw = (case checksum_line raw of None \<Rightarrow> [] | Some (h, rel) \<Rightarrow> rel)"

definition entries :: "string list \<Rightarrow> string list" where
  "entries ls = filter (\<lambda>l. py_strip l \<noteq> []) ls"

lemma fail_line_failures: "fail_line m st = Inr st' \<Longrightarrow> cs_failures st' = cs_failures st @ [m]"
  by (auto simp: fail_line_def)

lemma checksum_step_grows:
  "checksum_step w dir l st = Inr st' \<Longrightarrow> \<exists>fs. cs_failures st' = cs_failures st @ fs"
  by (auto simp: checksum_step_def Let_def bindR_Inr_iff fail_line_def
      split: prod.splits if_splits option.splits)

lemma checksum_loop_grows:
  "foldR (checksum_step w dir) ls st = Inr st' \<Longrightarrow> \<exists>fs. cs_failures st' = cs_failures st @ fs"
proof (induction ls arbitrary: st)
  case (Cons l ls)
  then obtain u where u: "checksum_step w dir l st = Inr u" "foldR (checksum_step w dir) ls u = Inr st'"
    by (auto simp: bindR_Inr_iff)
  from Cons.IH [OF u(2)] checksum_step_grows [OF u(1)] show ?case by auto
qed simp

lemma checksum_step_ok:
  "py_strip raw \<noteq> [] \<Longrightarrow> line_ok w dir raw \<Longrightarrow> line_name raw \<notin> set (cs_seen st) \<Longrightarrow> checksum_step w dir (n, raw) st =
     Inr (st\<lparr>cs_seen := line_name raw # cs_seen st, cs_checked := cs_checked st @ [line_name raw]\<rparr>)"
  by (auto simp: checksum_step_def line_ok_def line_name_def Let_def)

lemma checksum_step_bad:
  assumes "py_strip raw \<noteq> []" and "checksum_step w dir (n, raw) st = Inr st'"
    and "\<not> (line_ok w dir raw \<and> line_name raw \<notin> set (cs_seen st))"
  shows "cs_failures st' \<noteq> cs_failures st"
proof (cases "checksum_line raw")
  case None
  with assms(1,2) show ?thesis by (auto simp: checksum_step_def dest: fail_line_failures)
next
  case (Some hr)
  then obtain h rel where hr: "checksum_line raw = Some (h, rel)" by (cases hr) auto
  let ?p = "path_join dir rel"
  have ok: "line_ok w dir raw \<longleftrightarrow> prefix dir ?p \<and> \<not> is_link_at w ?p \<and>
      (case inside w dir ?p of None \<Rightarrow> False | Some q \<Rightarrow> is_file_at w q \<and> sha_at w q = Inr h)"
    by (auto simp: line_ok_def hr split: option.splits)
  from assms show ?thesis
    unfolding ok by (simp add: checksum_step_def hr line_name_def Let_def fail_line_def split: if_splits option.splits)
      (auto simp: bindR_Inr_iff fail_line_def split: if_splits)
qed

lemma checksum_loop_clean:
  "foldR (checksum_step w dir) (enumerate n ls) st = Inr st' \<and> cs_failures st' = cs_failures st \<longleftrightarrow>
     list_all (line_ok w dir) (entries ls) \<and> distinct (map line_name (entries ls)) \<and>
     set (map line_name (entries ls)) \<inter> set (cs_seen st) = {} \<and>
     st' = st\<lparr>cs_seen := rev (map line_name (entries ls)) @ cs_seen st,
              cs_checked := cs_checked st @ map line_name (entries ls)\<rparr>"
proof (induction ls arbitrary: n st)
  case (Cons l ls)
  show ?case
  proof (cases "py_strip l = []")
    case True
    then show ?thesis using Cons.IH [of "Suc n" st] by (simp add: checksum_step_def entries_def)
  next
    case False
    show ?thesis
    proof (cases "line_ok w dir l \<and> line_name l \<notin> set (cs_seen st)")
      case True
      with checksum_step_ok [OF False, of w dir st n]
      have "checksum_step w dir (n, l) st =
          Inr (st\<lparr>cs_seen := line_name l # cs_seen st, cs_checked := cs_checked st @ [line_name l]\<rparr>)" by blast
      with Cons.IH [of "Suc n" "st\<lparr>cs_seen := line_name l # cs_seen st, cs_checked := cs_checked st @ [line_name l]\<rparr>"] False True
      show ?thesis by (auto simp: entries_def)
    next
      case bad: False
      have "\<not> (foldR (checksum_step w dir) (enumerate n (l # ls)) st = Inr st' \<and> cs_failures st' = cs_failures st)"
      proof
        assume run: "foldR (checksum_step w dir) (enumerate n (l # ls)) st = Inr st' \<and> cs_failures st' = cs_failures st"
        then obtain u where u: "checksum_step w dir (n, l) st = Inr u" "foldR (checksum_step w dir) (enumerate (Suc n) ls) u = Inr st'"
          by (auto simp: bindR_Inr_iff)
        from checksum_step_grows [OF u(1)] checksum_loop_grows [OF u(2)] run have "cs_failures u = cs_failures st" by auto
        with u(1) checksum_step_bad [OF False u(1)] bad show False by blast
      qed
      with bad False show ?thesis by (auto simp: entries_def)
    qed
  qed
qed (auto simp: entries_def)

text \<open>
  Claim C19. A checksum list is accepted exactly when its non-blank lines name different files
  that lie inside the directory, also after links are followed, are regular files and not
  links, and have the recorded digests; the accepted names are then those of the list.
\<close>

theorem checksum_list_accepted_iff:
  assumes "lines_at w manifest = Inr ls"
  shows "verify_checksum_file w dir manifest = Inr (checked, []) \<longleftrightarrow>
    list_all (line_ok w dir) (entries ls) \<and> distinct (map line_name (entries ls)) \<and> checked = map line_name (entries ls)"
proof -
  let ?st = "\<lparr>cs_checked = [], cs_failures = [], cs_seen = []\<rparr>"
  have "verify_checksum_file w dir manifest = Inr (checked, []) \<longleftrightarrow>
    (\<exists>st. (foldR (checksum_step w dir) (enumerate 1 ls) ?st = Inr st \<and> cs_failures st = cs_failures ?st) \<and> checked = cs_checked st)"
    by (auto simp: verify_checksum_file_def assms bindR_Inr_iff)
  then show ?thesis unfolding checksum_loop_clean by auto
qed

text \<open>A directory with one file and its checksum list.\<close>

definition listed_world :: world where
  "listed_world =
     \<lparr>w_nodes = [([''d''], NDir 0), ([''d'', ''f''], NFile [1] 0),
         ([''d'', ''SHA256SUMS''], NFile (map of_char (replicate 64 CHR ''a'' @ ''  f'')) 0)],
      w_steps = 9, w_denied = (\<lambda>p. False), w_decode = (\<lambda>bs. Some (map (\<lambda>b. char_of (unat b)) bs)),
      w_replace = (\<lambda>bs. []), w_sha = (\<lambda>bs. replicate 64 CHR ''a'')\<rparr>"

theorem checksum_list_accepted_iff_witness:
  "verify_checksum_file listed_world [''d''] [''d'', ''SHA256SUMS''] = Inr ([''f''], []) \<and>
   line_ok listed_world [''d''] (replicate 64 CHR ''a'' @ ''  f'')"
proof -
  have read: "lines_at listed_world [''d'', ''SHA256SUMS''] = Inr [replicate 64 CHR ''a'' @ ''  f'']" by code_simp
  have run: "verify_checksum_file listed_world [''d''] [''d'', ''SHA256SUMS''] = Inr ([''f''], [])" by code_simp
  have "entries [replicate 64 CHR ''a'' @ ''  f''] = [replicate 64 CHR ''a'' @ ''  f'']" by code_simp
  with checksum_list_accepted_iff [OF read, of "[''d'']" "[''f'']"] run show ?thesis by simp
qed

section \<open>The gate of the M3 payload\<close>

definition passed :: "check list \<Rightarrow> string \<Rightarrow> bool" where
  "passed cs i \<longleftrightarrow> list_ex (\<lambda>c. c_id c = i \<and> c_status c = PASS) cs"

definition adds :: "string \<Rightarrow> status \<Rightarrow> check list \<Rightarrow> check list \<Rightarrow> bool" where
  "adds i st cs cs' \<longleftrightarrow> (\<exists>d e. cs' = add_check i st d e cs)"

lemma audit_passed_eq: "audit_passed cs ks \<longleftrightarrow> list_all (passed cs) ks"
  by (simp add: audit_passed_def passed_def [abs_def])

lemma passed_add [simp]: "passed (add_check i st d e cs) k \<longleftrightarrow> passed cs k \<or> (i = k \<and> st = PASS)"
  by (auto simp: passed_def add_check_def)

lemma passed_adds: "adds i st cs cs' \<Longrightarrow> passed cs' k \<longleftrightarrow> passed cs k \<or> (i = k \<and> st = PASS)"
  by (auto simp: adds_def)

lemma passed_Nil [simp]: "\<not> passed [] k"
  by (simp add: passed_def)

lemma pass_if_PASS [simp]: "pass_if b = PASS \<longleftrightarrow> b"
  by (simp add: pass_if_def)

definition config_ready :: "world \<Rightarrow> path \<Rightarrow> bool" where
  "config_ready w build \<longleftrightarrow> is_file_at w (build @ [''kernel.config'']) \<and>
     (\<exists>cfg. parse_kernel_config w (build @ [''kernel.config'']) = Inr cfg \<and>
        (\<forall>k \<in> set required_early_userspace. map_of cfg k = Some ''y''))"

definition image_ready :: "world \<Rightarrow> path \<Rightarrow> nat \<Rightarrow> int \<Rightarrow> bool" where
  "image_ready w d n limit \<longleftrightarrow> is_file_at w (d @ [''SHA256SUMS'']) \<and>
     (\<exists>checked. verify_checksum_file w d (d @ [''SHA256SUMS'']) = Inr (checked, [])) \<and>
     length (ko_files w (d @ [''rootfs'', ''lib'', ''modules''])) = n \<and>
     (\<exists>k. file_size w (d @ [''gts9fe-initramfs.cpio.lz4'']) = Some k \<and> int k \<le> limit)"

lemma audit_hashes_adds: "audit_hashes env r build cs = Inr cs' \<Longrightarrow> \<exists>st. adds ''build_hashes'' st cs cs'"
  by (auto simp: audit_hashes_def Let_def bindR_Inr_iff adds_def)

lemma audit_build_info_adds: "audit_build_info w build ident cs = Inr cs' \<Longrightarrow> \<exists>st. adds ''build_identity'' st cs cs'"
  by (auto simp: audit_build_info_def Let_def bindR_Inr_iff adds_def)

lemma audit_config_adds:
  assumes "audit_config env r build cs = Inr cs'"
  shows "\<exists>st. adds ''early_userspace_config'' st cs cs' \<and> (st = PASS \<longleftrightarrow> config_ready (pe_world env) build)"
proof -
  let ?w = "pe_world env" and ?p = "build @ [''kernel.config'']"
  from assms obtain cfg where cfg: "if_file ?w ?p [] (parse_kernel_config ?w ?p) = Inr cfg"
    and adds: "adds ''early_userspace_config''
      (pass_if (filter (\<lambda>k. map_of cfg k \<noteq> Some ''y'') required_early_userspace = [])) cs cs'"
    unfolding audit_config_def adds_def Let_def bindR_Inr_iff by blast
  have "required_early_userspace \<noteq> []" by (simp add: required_early_userspace_def)
  with cfg have "filter (\<lambda>k. map_of cfg k \<noteq> Some ''y'') required_early_userspace = [] \<longleftrightarrow> config_ready ?w build"
    by (cases "is_file_at ?w ?p") (auto simp: if_file_def config_ready_def filter_empty_conv)
  with adds show ?thesis by (intro exI, intro conjI) auto
qed

lemma audit_installed_modules_adds:
  "audit_installed_modules env build ident cs = Inr cs' \<Longrightarrow> \<exists>st. adds ''installed_modules'' st cs cs'"
  by (auto simp: audit_installed_modules_def Let_def bindR_Inr_iff adds_def)

lemma audit_module_order_adds:
  "audit_module_order env build ident cs = Inr cs' \<Longrightarrow> \<exists>st. adds ''module_order_consistency'' st cs cs'"
  by (auto simp: audit_module_order_def Let_def bindR_Inr_iff adds_def)

lemma audit_vendor_lists_adds:
  "audit_vendor_lists w build ident cs = Inr cs' \<Longrightarrow> \<exists>st. adds ''vendor_module_lists'' st cs cs'"
  by (auto simp: audit_vendor_lists_def Let_def bindR_Inr_iff adds_def)

lemma audit_module_report_adds:
  "audit_module_report env r ident cs = Inr cs' \<Longrightarrow> \<exists>st. adds ''module_vendor_boot_audit'' st cs cs'"
  by (auto simp: audit_module_report_def Let_def bindR_Inr_iff adds_def)

lemma audit_initramfs_source_adds:
  "audit_initramfs_source env r build ir ident cs = Inr cs' \<Longrightarrow> \<exists>st. adds ''initramfs_source_provenance'' st cs cs'"
  by (auto simp: audit_initramfs_source_def Let_def bindR_Inr_iff adds_def)

lemma audit_distance_adds: "audit_distance env r cs = Inr cs' \<Longrightarrow> \<exists>st. adds ''dt_observed_distance'' st cs cs'"
  by (auto simp: audit_distance_def Let_def bindR_Inr_iff adds_def)

lemma audit_reproducibility_adds:
  "audit_reproducibility env r cs = Inr cs' \<Longrightarrow> \<exists>st. adds ''kernel_binary_reproducibility'' st cs cs'"
  by (auto simp: audit_reproducibility_def Let_def bindR_Inr_iff adds_def)

lemma audit_initramfs_adds:
  assumes "audit_initramfs env r ir limit (name, n) (cs, fs) = Inr (cs', fs')"
  shows "\<exists>st. adds (''initramfs_'' @ name) st cs cs' \<and> (st = PASS \<longleftrightarrow> image_ready (pe_world env) (ir @ [name]) n limit)"
proof -
  let ?w = "pe_world env" and ?d = "ir @ [name]"
  let ?m = "?d @ [''SHA256SUMS'']" and ?k = "file_size ?w (?d @ [''gts9fe-initramfs.cpio.lz4''])"
  let ?f = "initramfs_fit (case ?k of Some n \<Rightarrow> int n | None \<Rightarrow> limit + 1) limit"
  let ?n = "length (ko_files ?w (?d @ [''rootfs'', ''lib'', ''modules'']))"
  from assms obtain checked failures where sums: "if_file ?w ?m ([], [''falta SHA256SUMS'']) (verify_checksum_file ?w ?d ?m) = Inr (checked, failures)"
    and adds: "adds (''initramfs_'' @ name) (profile_status (failures = [] \<and> ?n = n) ?f) cs cs'"
    by (simp only: audit_initramfs_def adds_def Let_def prod.case bindR_Inr_iff split_paired_Ex sum.inject prod.inject) metis
  have "fit_fits ?f \<longleftrightarrow> (\<exists>k. ?k = Some k \<and> int k \<le> limit)" by (auto simp: initramfs_fit_def split: option.splits)
  moreover have "failures = [] \<longleftrightarrow> is_file_at ?w ?m \<and> (\<exists>checked. verify_checksum_file ?w ?d ?m = Inr (checked, []))"
    using sums by (auto simp: if_file_def split: if_splits)
  ultimately have "profile_status (failures = [] \<and> ?n = n) ?f = PASS \<longleftrightarrow> image_ready ?w ?d n limit"
    unfolding image_ready_def by (auto simp: profile_status_def)
  with adds show ?thesis by blast
qed

lemmas adds_rules = audit_hashes_adds audit_build_info_adds audit_installed_modules_adds audit_module_order_adds
  audit_vendor_lists_adds audit_module_report_adds

text \<open>The checks on the build contribute the configuration check and nothing else to the gate.\<close>

lemma audit_build_passed:
  assumes "audit_build env r build ident cs = Inr cs'"
  shows "passed cs' ''early_userspace_config'' \<longleftrightarrow> passed cs ''early_userspace_config'' \<or> config_ready (pe_world env) build"
    and "passed cs' ''initramfs_minimal'' \<longleftrightarrow> passed cs ''initramfs_minimal''"
    and "passed cs' ''initramfs_ufs'' \<longleftrightarrow> passed cs ''initramfs_ufs''"
proof -
  from assms obtain c1 c2 c3 c4 c5 c6 where steps: "audit_hashes env r build cs = Inr c1"
      "audit_build_info (pe_world env) build ident c1 = Inr c2" "audit_config env r build c2 = Inr c3"
      "audit_installed_modules env build ident c3 = Inr c4" "audit_module_order env build ident c4 = Inr c5"
      "audit_vendor_lists (pe_world env) build ident c5 = Inr c6" "audit_module_report env r ident c6 = Inr cs'"
    unfolding audit_build_def bindR_Inr_iff by blast
  from audit_config_adds [OF steps(3)] obtain st where st: "adds ''early_userspace_config'' st c2 c3"
    and ready: "st = PASS \<longleftrightarrow> config_ready (pe_world env) build" by blast
  from steps(1) [THEN adds_rules(1)] steps(2) [THEN adds_rules(2)] steps(4) [THEN adds_rules(3)]
    steps(5) [THEN adds_rules(4)] steps(6) [THEN adds_rules(5)] steps(7) [THEN adds_rules(6)]
  obtain s1 s2 s4 s5 s6 s7 where "adds ''build_hashes'' s1 cs c1" "adds ''build_identity'' s2 c1 c2"
    "adds ''installed_modules'' s4 c3 c4" "adds ''module_order_consistency'' s5 c4 c5"
    "adds ''vendor_module_lists'' s6 c5 c6" "adds ''module_vendor_boot_audit'' s7 c6 cs'" by blast
  then show "passed cs' ''early_userspace_config'' \<longleftrightarrow> passed cs ''early_userspace_config'' \<or> config_ready (pe_world env) build"
    and "passed cs' ''initramfs_minimal'' \<longleftrightarrow> passed cs ''initramfs_minimal''"
    and "passed cs' ''initramfs_ufs'' \<longleftrightarrow> passed cs ''initramfs_ufs''"
    using ready by (simp_all add: passed_adds [OF st] passed_adds)
qed

lemma audit_images_passed:
  assumes "foldR (audit_initramfs env r ir limit) expected_counts (cs, []) = Inr (cs', facts)"
  shows "passed cs' ''early_userspace_config'' \<longleftrightarrow> passed cs ''early_userspace_config''"
    and "passed cs' ''initramfs_minimal'' \<longleftrightarrow> passed cs ''initramfs_minimal'' \<or> image_ready (pe_world env) (ir @ [''minimal'']) 0 limit"
    and "passed cs' ''initramfs_ufs'' \<longleftrightarrow> passed cs ''initramfs_ufs'' \<or> image_ready (pe_world env) (ir @ [''ufs'']) 28 limit"
proof -
  from assms obtain c1 f1 c2 f2 where steps:
      "audit_initramfs env r ir limit (''minimal'', 0) (cs, []) = Inr (c1, f1)"
      "audit_initramfs env r ir limit (''ufs'', 28) (c1, f1) = Inr (c2, f2)"
      "audit_initramfs env r ir limit (''usb'', 45) (c2, f2) = Inr (cs', facts)"
    by (simp only: expected_counts_def foldR.simps bindR_Inr_iff split_paired_Ex sum.inject) blast
  from audit_initramfs_adds [OF steps(1)] audit_initramfs_adds [OF steps(2)] audit_initramfs_adds [OF steps(3)]
  show "passed cs' ''early_userspace_config'' \<longleftrightarrow> passed cs ''early_userspace_config''"
    and "passed cs' ''initramfs_minimal'' \<longleftrightarrow> passed cs ''initramfs_minimal'' \<or> image_ready (pe_world env) (ir @ [''minimal'']) 0 limit"
    and "passed cs' ''initramfs_ufs'' \<longleftrightarrow> passed cs ''initramfs_ufs'' \<or> image_ready (pe_world env) (ir @ [''ufs'']) 28 limit"
    by (auto simp: passed_adds)
qed

lemma add_standing_passed: "passed (add_standing cs) k \<longleftrightarrow> passed cs k"
  by (simp add: add_standing_def)

text \<open>
  A tree with the files the audit cannot do without; file \<open>[1]\<close> is the identity, file \<open>[2]\<close> the
  layout of the stock boot images.
\<close>

definition identity_text :: string where
  "identity_text = join nl [''U11_BASE_ZIP=a'', ''U11_BASE_ZIP_SHA256=h'', ''U11_OVERLAY_ZIP=a'', ''U11_OVERLAY_ZIP_SHA256=h'',
     ''U11_KERNEL_TARBALL=a'', ''U11_KERNEL_TARBALL_SHA256=h'', ''U11_BUILD_ARTIFACTS=b'', ''U11_INITRAMFS_ARTIFACTS=c'']"

definition audit_files :: "(path \<times> node) list" where
  "audit_files =
     [([''i''], NFile [1] 0), ([''configs'', ''target-sm-x510.env''], NFile [] 0),
      ([''reports'', ''generated'', ''u11-modules'', ''modules-audit.json''], NFile [] 0),
      ([''artifacts'', ''stock'', ''boot-layout.json''], NFile [2] 0),
      ([''reports'', ''generated'', ''u11-dtb-binary'', ''semantic-base-compiled-u11-eze4.json''], NFile [] 0),
      ([''reports'', ''generated'', ''u11-osrc'', ''semantic-r04-u11-eze4.json''], NFile [] 0)]"

definition audit_env :: preflight_env where
  "audit_env =
     \<lparr>pe_world = \<lparr>w_nodes = audit_files, w_steps = 20, w_denied = (\<lambda>p. False),
        w_decode = (\<lambda>bs. Some (if bs = [] then [] else if bs = [1] then identity_text else ''l'')),
        w_replace = (\<lambda>bs. []), w_sha = (\<lambda>bs. ''h'')\<rparr>,
      pe_cwd = [''w''],
      pe_loads = (\<lambda>t. Some (if t = [] then PDict [] else PList [PDict [(''path'', PStr ''init_boot.img''), (''ramdisk_size'', PInt 9)]])),
      pe_show = (\<lambda>v. case v of PStr s \<Rightarrow> s | _ \<Rightarrow> []), pe_tar = (\<lambda>bs. Inr [])\<rparr>"

lemma audit_runs: "case run_audit audit_env [] [''i''] of Inl e \<Rightarrow> False | Inr res \<Rightarrow> True"
  by code_simp

lemma audit_keys:
  "case parse_env (pe_world audit_env) [''i''] of Inl e \<Rightarrow> False | Inr kvs \<Rightarrow> map_of kvs ''U11_BUILD_ARTIFACTS'' = Some ''b''"
  "\<not> is_file_at (pe_world audit_env) (path_join [] ''b'' @ [''kernel.config''])"
  by code_simp+

text \<open>
  Claim C12. The preflight declares the M3 payload ready exactly when the built kernel
  configuration sets every option that the early user space needs, and the minimal and the
  UFS image have their verified checksums and expected numbers of modules and fit into the
  ramdisk of the stock boot image.
\<close>

theorem payload_ready_iff:
  assumes "run_audit env r identity_path = Inr res"
  shows "\<exists>ident b i limit. parse_env (pe_world env) identity_path = Inr ident \<and>
    map_of ident ''U11_BUILD_ARTIFACTS'' = Some b \<and> map_of ident ''U11_INITRAMFS_ARTIFACTS'' = Some i \<and>
    stock_limit env r = Inr limit \<and>
    (pr_m3_payload_ready res \<longleftrightarrow>
       config_ready (pe_world env) (path_join r b) \<and>
       image_ready (pe_world env) (path_join r i @ [''minimal'']) 0 limit \<and>
       image_ready (pe_world env) (path_join r i @ [''ufs'']) 28 limit)"
proof -
  from assms obtain ident target ev cs1 ps b cs2 limit i cs3 cs4 facts cs5 cs6 where
      ident: "parse_env (pe_world env) identity_path = Inr ident"
    and packages: "audit_packages (pe_world env) r ident (add_check ''identity_separation'' (pass_if (u11_identity_ok ident target))
               ''U11/B11 source and EZE4/U12 target are registered as distinct identities'' (Some ev) []) = Inr (cs1, ps)"
    and b: "need_key ident ''U11_BUILD_ARTIFACTS'' = Inr b"
    and build: "audit_build env r (path_join r b) ident cs1 = Inr cs2"
    and limit: "stock_limit env r = Inr limit"
    and i: "need_key ident ''U11_INITRAMFS_ARTIFACTS'' = Inr i"
    and source: "audit_initramfs_source env r (path_join r b) (path_join r i) ident cs2 = Inr cs3"
    and images: "foldR (audit_initramfs env r (path_join r i) limit) expected_counts (cs3, []) = Inr (cs4, facts)"
    and tail: "audit_distance env r cs4 = Inr cs5" "audit_reproducibility env r cs5 = Inr cs6"
    and res: "res = result_of ident target ps limit facts (add_standing cs6)"
    unfolding run_audit_def Let_def bindR_Inr_iff split_paired_Ex prod.case sum.inject by blast
  from packages obtain st where "adds ''osrc_hashes'' st (add_check ''identity_separation'' (pass_if (u11_identity_ok ident target))
      ''U11/B11 source and EZE4/U12 target are registered as distinct identities'' (Some ev) []) cs1"
    unfolding audit_packages_def bindR_Inr_iff Let_def adds_def by blast
  then have start: "\<not> passed cs1 ''early_userspace_config''" "\<not> passed cs1 ''initramfs_minimal''" "\<not> passed cs1 ''initramfs_ufs''"
    by (simp_all add: passed_adds)
  from audit_initramfs_source_adds [OF source] audit_distance_adds [OF tail(1)] audit_reproducibility_adds [OF tail(2)]
  obtain s1 s2 s3 where "adds ''initramfs_source_provenance'' s1 cs2 cs3" "adds ''dt_observed_distance'' s2 cs4 cs5"
    "adds ''kernel_binary_reproducibility'' s3 cs5 cs6" by blast
  then have "pr_m3_payload_ready res \<longleftrightarrow>
       config_ready (pe_world env) (path_join r b) \<and> image_ready (pe_world env) (path_join r i @ [''minimal'']) 0 limit \<and>
       image_ready (pe_world env) (path_join r i @ [''ufs'']) 28 limit"
    using start by (simp add: res result_of_def audit_passed_eq payload_ids_def add_standing_passed passed_adds
        audit_images_passed [OF images] audit_build_passed [OF build])
  moreover have "map_of ident ''U11_BUILD_ARTIFACTS'' = Some b" "map_of ident ''U11_INITRAMFS_ARTIFACTS'' = Some i"
    using b i by (simp_all add: need_key_def split: option.splits)
  ultimately show ?thesis using ident limit by blast
qed

theorem payload_ready_iff_witness:
  "\<exists>res. run_audit audit_env [] [''i''] = Inr res \<and> \<not> pr_m3_payload_ready res"
proof -
  obtain res where res: "run_audit audit_env [] [''i''] = Inr res" using audit_runs by (auto split: sum.splits)
  from payload_ready_iff [OF res] audit_keys res show ?thesis by (auto simp: config_ready_def)
qed

end
