(* ===== verification/Obs_Jsonl.thy ===== *)
theory Obs_Jsonl
  imports Py_Lines Py_Keys
begin

text \<open>
  What the two analysers of host recordings, \<open>tools/rmg-eze4/c2_obs_01_analyze.py\<close> and
  \<open>c3_obs_01_analyze.py\<close>, share: the required fields, the identity that the schema document fixes, the
  checks on sequence numbers, percentiles and means. A record is a dict of JSON values; \<open>loads\<close> is
  \<open>json.loads\<close> (nothing for a \<open>JSONDecodeError\<close>) and \<open>show\<close> is \<open>str\<close> of a value.
\<close>

type_synonym obs_rec = "(string \<times> pyval) list"

text \<open>
  What an analysis can raise: \<open>OSError\<close>, \<open>JSONDecodeError\<close>, or an exception of an operation
  (a file that is not UTF-8 raises a \<open>UnicodeDecodeError\<close>, a \<open>ValueError\<close>).
\<close>

datatype obs_exc = Unreadable_File | Bad_Json | Raised pyexc

definition pyE :: "(pyexc, 'a) res \<Rightarrow> (obs_exc, 'a) res" where
  "pyE r = (case r of Inl e \<Rightarrow> Inl (Raised e) | Inr x \<Rightarrow> Inr x)"

lemma pyE_simps [simp]: "pyE (Inr x) = Inr x" "pyE (Inl e) = Inl (Raised e)"
  by (simp_all add: pyE_def)

lemma pyE_Inr_iff [simp]: "pyE r = Inr x \<longleftrightarrow> r = Inr x"
  by (cases r) auto

definition obs_fields :: "string list" where
  "obs_fields = [''schema_version'', ''trial_id'', ''sequence'', ''timestamp_monotonic_ns'', ''timestamp_boottime_seconds'',
     ''timestamp_wall_utc'', ''source'', ''measurement'', ''value'', ''read_status'', ''read_duration_ns'']"

text \<open>A field of a record; \<open>r[k]\<close> for a required field, \<open>r.get(k)\<close> for any.\<close>

definition obs_get :: "obs_rec \<Rightarrow> string \<Rightarrow> pyval" where
  "obs_get r k = (case map_of r k of None \<Rightarrow> PNone | Some v \<Rightarrow> v)"

definition missing_fields :: "string list \<Rightarrow> string" where
  "missing_fields ks = join ''_'' (sorted_set ks)"

text \<open>The fields a dict lacks, and the record of a line that has them all.\<close>

definition lacking :: "obs_rec \<Rightarrow> string list" where
  "lacking r = filter (\<lambda>k. map_of r k = None) obs_fields"

definition keep_record ::
  "(pyval \<Rightarrow> string) \<Rightarrow> string \<Rightarrow> string \<Rightarrow> obs_rec \<Rightarrow> obs_rec list \<times> string list" where
  "keep_record show schema lab r =
     (if lacking r \<noteq> [] then ([], [lab @ ''_MISSING_'' @ missing_fields (lacking r)])
      else ([r], flag (obs_get r ''schema_version'' \<noteq> PStr schema)
                   (lab @ ''_UNSUPPORTED_SCHEMA_'' @ show (obs_get r ''schema_version''))))"

definition all_lines ::
  "(nat \<Rightarrow> string \<Rightarrow> obs_rec list \<times> string list) \<Rightarrow> string \<Rightarrow> obs_rec list \<times> string list" where
  "all_lines f text =
     (let xs = map (\<lambda>(n, l). f n l) (enumerate 1 (split_lines [] text)) in (concat (map fst xs), concat (map snd xs)))"

section \<open>The canonical identity\<close>

definition py_index :: "pyval \<Rightarrow> string \<Rightarrow> (pyexc, pyval) res" where
  "py_index v k = (case v of PDict kvs \<Rightarrow> (case map_of kvs k of None \<Rightarrow> Inl KeyError | Some w \<Rightarrow> Inr w) | _ \<Rightarrow> Inl TypeError)"

definition identity_fields :: "(string \<times> string) list" where
  "identity_fields = [(''model'', ''device_model''), (''device'', ''device_name''), (''build_fingerprint'', ''build_fingerprint''),
     (''build_incremental'', ''incremental_version''), (''kernel_release'', ''kernel_identity'')]"

text \<open>\<open>content\<close> is what reading the schema document gives.\<close>

definition canonical_identity ::
  "(string \<Rightarrow> pyval option) \<Rightarrow> (obs_exc, string) res \<Rightarrow> (obs_exc, (string \<times> pyval) list) res" where
  "canonical_identity loads content =
     bindR content (\<lambda>t. case loads t of None \<Rightarrow> Inl Bad_Json | Some doc \<Rightarrow>
       bindR (pyE (py_index doc ''properties'')) (\<lambda>a.
       bindR (pyE (py_index a ''artifact_identity'')) (\<lambda>b.
       bindR (pyE (py_index b ''properties'')) (\<lambda>props.
       mapR (\<lambda>(k, f). bindR (pyE (py_index props f)) (\<lambda>p. bindR (pyE (py_index p ''const'')) (\<lambda>c. Inr (k, c))))
         identity_fields))))"

section \<open>Sequences and statistics\<close>

text \<open>
  \<open>sorted(xs) != xs\<close> for hashable values: numbers compare with numbers and strings with strings,
  anything else raises; a sorted list has no descent. (With \<open>NaN\<close> among the numbers this is the
  run that the sort looks for first.)
\<close>

definition comparable :: "pyval list \<Rightarrow> bool" where
  "comparable vs = (length vs < 2 \<or> list_all (\<lambda>v. num_of v \<noteq> None) vs \<or> list_all is_str vs)"

definition unsorted :: "pyval list \<Rightarrow> (pyexc, bool) res" where
  "unsorted vs = guardR (comparable vs) TypeError
     (Inr (list_ex (\<lambda>(a, b). py_less b a = Inr True) (pairs vs)))"

definition obs_sequence_errors :: "obs_rec list \<Rightarrow> (pyexc, string list) res" where
  "obs_sequence_errors rs =
     (let vs = map (\<lambda>r. obs_get r ''sequence'') rs in
      guardR (list_all hashable vs) TypeError
        (bindR (unsorted vs) (\<lambda>u.
          Inr (flag (length vs \<noteq> length (keys_of vs)) ''DUPLICATE_SEQUENCE'' @ flag u ''SEQUENCE_REGRESSION''))))"

definition obs_trial_errors :: "obs_rec list \<Rightarrow> (pyexc, string list) res" where
  "obs_trial_errors rs =
     (let vs = map (\<lambda>r. obs_get r ''trial_id'') rs in
      guardR (list_all hashable vs) TypeError (Inr (flag (length (keys_of vs) \<noteq> 1) ''TRIAL_ID_MISMATCH'')))"

definition obs_percentile :: "int list \<Rightarrow> rat \<Rightarrow> int option" where
  "obs_percentile vs fraction =
     (if vs = [] then None else Some (sort vs ! nat (ceil_times fraction (length vs) - 1)))"

text \<open>\<open>round(sum(gaps) / len(gaps))\<close>: the quotient is rounded to a double first.\<close>

definition mean_gap :: "int list \<Rightarrow> (pyexc, int option) res" where
  "mean_gap gs =
     (if gs = [] then Inr None
      else let q = rnd (of_int (sum_list gs) / of_nat (length gs)) in
        guardR (\<bar>q\<bar> < 2 ^ 1024) OverflowError (Inr (Some (round_half_even q))))"

definition max_opt :: "int list \<Rightarrow> int option" where
  "max_opt vs = (if vs = [] then None else Some (Max (set vs)))"

definition int_stamps :: "(pyval \<Rightarrow> bool) \<Rightarrow> obs_rec list \<Rightarrow> int list" where
  "int_stamps ok rs = map int_of (filter ok (map (\<lambda>r. obs_get r ''timestamp_monotonic_ns'') rs))"

definition gaps_between :: "int list \<Rightarrow> int list" where
  "gaps_between ts = map (\<lambda>(a, b). b - a) (pairs ts)"

definition obs_max_gap :: int where "obs_max_gap = 500000000"

text \<open>Heartbeats, the gaps between their stamps, and the messages about them.\<close>

definition heartbeats :: "obs_rec list \<Rightarrow> obs_rec list" where
  "heartbeats rs = filter (\<lambda>r. obs_get r ''measurement'' = PStr ''heartbeat'') rs"

definition heartbeat_errors :: "obs_rec list \<Rightarrow> int list \<Rightarrow> string list" where
  "heartbeat_errors hs gs =
     flag (length hs < 2 \<or> gs = [] \<or> obs_max_gap < Max (set gs)) ''COVERAGE_GAP_EXCEEDS_500MS_OR_INSUFFICIENT'' @
     flag (list_ex (\<lambda>r. obs_get r ''read_status'' \<noteq> PStr ''AVAILABLE'') hs) ''HEARTBEAT_READ_FAILURE''"

lemma heartbeat_errors_Nil:
  assumes "heartbeat_errors hs (gaps_between ts) = []"
  shows "2 \<le> length hs" and "\<forall>(a, b) \<in> set (pairs ts). b - a \<le> 500000000"
    and "\<forall>r \<in> set hs. obs_get r ''read_status'' = PStr ''AVAILABLE''"
proof -
  from assms have m: "\<not> obs_max_gap < Max (set (gaps_between ts))"
    and rest: "\<not> length hs < 2" "\<not> list_ex (\<lambda>r. obs_get r ''read_status'' \<noteq> PStr ''AVAILABLE'') hs"
    by (auto simp: heartbeat_errors_def)
  from rest show "2 \<le> length hs" "\<forall>r \<in> set hs. obs_get r ''read_status'' = PStr ''AVAILABLE''"
    by (auto simp: list_ex_iff)
  have "b - a \<le> 500000000" if "(a, b) \<in> set (pairs ts)" for a b
  proof -
    from that have "b - a \<in> set (gaps_between ts)" by (force simp: gaps_between_def)
    then have "b - a \<le> Max (set (gaps_between ts))" by (intro Max_ge) simp_all
    with m show ?thesis unfolding obs_max_gap_def by linarith
  qed
  then show "\<forall>(a, b) \<in> set (pairs ts). b - a \<le> 500000000" by blast
qed

end
