(* ===== verification/C2_Obs.thy ===== *)
theory C2_Obs
  imports Obs_Jsonl C2_Clock
begin

text \<open>
  \<open>tools/rmg-eze4/c2_obs_01_analyze.py\<close>: the analysis of a host recording for freezes and power
  transitions. A recording of the device's own observer is passed on to \<open>c2_dual_clock_analyze.py\<close>
  (\<open>C2_Clock\<close>).
\<close>

definition c2_schema :: string where "c2_schema = ''c2-obs-01.v1''"

definition c2_line ::
  "(string \<Rightarrow> pyval option) \<Rightarrow> (pyval \<Rightarrow> string) \<Rightarrow> nat \<Rightarrow> string \<Rightarrow> obs_rec list \<times> string list" where
  "c2_line loads show n line =
     (case loads line of
        None \<Rightarrow> ([], [''MALFORMED_JSON_LINE_'' @ fmt_nat n])
      | Some (PDict r) \<Rightarrow> keep_record show c2_schema (''LINE_'' @ fmt_nat n) r
      | Some v \<Rightarrow> ([], [''LINE_'' @ fmt_nat n @ ''_MISSING_'' @ missing_fields obs_fields]))"

section \<open>Identity and coverage\<close>

definition vget_or :: "pyval \<Rightarrow> string \<Rightarrow> pyval \<Rightarrow> (obs_exc, pyval) res" where
  "vget_or v k d = pyE (py_get_default v k d)"

definition or_empty :: "pyval \<Rightarrow> pyval" where "or_empty v = (if truthy v then v else PDict [])"

definition c2_metadata :: "obs_rec list \<Rightarrow> pyval \<times> string list" where
  "c2_metadata rs =
     (case filter (\<lambda>r. obs_get r ''measurement'' = PStr ''metadata'') rs of
        [m] \<Rightarrow> (or_empty (obs_get m ''value''), [])
      | _ \<Rightarrow> (PDict [], [''METADATA_RECORD_COUNT_NOT_ONE'']))"

definition stamp_errors :: "obs_rec list \<Rightarrow> string list" where
  "stamp_errors rs =
     (let vs = map (\<lambda>r. obs_get r ''timestamp_monotonic_ns'') rs in
      flag (\<not> list_all is_int vs \<or> list_ex (\<lambda>(a, b). int_of b < int_of a) (pairs vs)) ''MONOTONIC_TIMESTAMP_REGRESSION'')"

definition c2_identity_errors :: "pyval \<Rightarrow> (string \<times> pyval) list \<Rightarrow> (obs_exc, string list) res" where
  "c2_identity_errors observed expected =
     catR (map (\<lambda>(k, wanted).
       bindR (vget_or observed k (PDict [])) (\<lambda>entry.
       bindR (vget_or entry ''status'' PNone) (\<lambda>st.
       bindR (if st = PStr ''AVAILABLE'' then vget_or entry ''value'' PNone else Inr PNone) (\<lambda>v.
         Inr (flag (st \<noteq> PStr ''AVAILABLE'' \<or> \<not> py_eq v wanted) (''IDENTITY_MISMATCH_OR_UNAVAILABLE_'' @ k))))))
       expected)"

definition available_rec :: "obs_rec \<Rightarrow> bool" where
  "available_rec r = (obs_get r ''read_status'' = PStr ''AVAILABLE'')"

definition from_source :: "string \<Rightarrow> obs_rec list \<Rightarrow> obs_rec list" where
  "from_source s rs = filter (\<lambda>r. obs_get r ''source'' = PStr s) rs"

definition cgroup_status_errors :: "(pyval \<Rightarrow> string) \<Rightarrow> pyval \<Rightarrow> (obs_exc, string list) res" where
  "cgroup_status_errors show interfaces =
     bindR (vget_or interfaces ''trial_cgroup_events'' (PDict [])) (\<lambda>cgroup.
     bindR (vget_or cgroup ''status'' PNone) (\<lambda>st.
     bindR (vget_or cgroup ''status'' (PStr ''MISSING'')) (\<lambda>shown.
       Inr (flag (st \<noteq> PStr ''AVAILABLE'') (''CGROUP_EVENTS_'' @ show shown)))))"

definition cgroup_coverage_errors :: "obs_rec list \<Rightarrow> string list" where
  "cgroup_coverage_errors rs =
     (let cs = from_source ''trial_cgroup_events'' rs in
      flag (length cs < length (heartbeats rs) \<or> \<not> list_all available_rec cs) ''CGROUP_EVENTS_INCOMPLETE_COVERAGE'')"

definition power_names :: "string list" where "power_names = [''suspend_success'', ''wakeup_count'']"

definition power_sources :: "pyval \<Rightarrow> (obs_exc, string list) res" where
  "power_sources interfaces =
     catR (map (\<lambda>n. bindR (vget_or interfaces n (PDict [])) (\<lambda>d. bindR (vget_or d ''status'' PNone) (\<lambda>st.
       Inr (flag (st = PStr ''AVAILABLE'') n)))) power_names)"

definition power_errors :: "obs_rec list \<Rightarrow> string list \<Rightarrow> string list" where
  "power_errors rs names =
     flag (names = [] \<or>
           list_all (\<lambda>n. length (filter available_rec (from_source n rs)) < length (heartbeats rs)) names)
       ''POWER_TRANSITION_SOURCE_INCOMPLETE_COVERAGE''"

section \<open>Signals\<close>

text \<open>A cgroup reading that shows a frozen or empty group.\<close>

definition shows_freeze :: "(pyval \<Rightarrow> string) \<Rightarrow> obs_rec \<Rightarrow> bool" where
  "shows_freeze show r =
     (obs_get r ''source'' = PStr ''trial_cgroup_events'' \<and> available_rec r \<and>
      list_ex (\<lambda>l. py_strip l \<in> {''frozen 1'', ''populated 0''})
        (split_lines [] (if truthy (obs_get r ''value'') then show (obs_get r ''value'') else [])))"

definition counter_of :: "(pyval \<Rightarrow> string) \<Rightarrow> obs_rec \<Rightarrow> int option" where
  "counter_of show r = int_of_string (py_strip (show (obs_get r ''value'')))"

definition is_counter :: "string \<Rightarrow> obs_rec \<Rightarrow> bool" where
  "is_counter n r = (obs_get r ''source'' = PStr n \<and> available_rec r)"

definition counter_errors :: "(pyval \<Rightarrow> string) \<Rightarrow> obs_rec list \<Rightarrow> string list" where
  "counter_errors show rs =
     concat (map (\<lambda>r. concat (map (\<lambda>n. flag (is_counter n r \<and> counter_of show r = None) (''NON_INTEGER_COUNTER_'' @ n))
       power_names)) rs)"

definition counter_values :: "(pyval \<Rightarrow> string) \<Rightarrow> obs_rec list \<Rightarrow> string \<Rightarrow> int list" where
  "counter_values show rs n = concat (map (\<lambda>r. case counter_of show r of None \<Rightarrow> [] | Some i \<Rightarrow> [i]) (filter (is_counter n) rs))"

definition changes :: "int list \<Rightarrow> bool" where
  "changes vs = (case vs of [] \<Rightarrow> False | x # xs \<Rightarrow> list_ex (\<lambda>v. v \<noteq> x) xs)"

text \<open>A boottime that runs ahead of the host's clock; the result says message and transition.\<close>

definition timed_step :: "obs_rec \<times> obs_rec \<Rightarrow> (pyexc, string list \<times> bool) res" where
  "timed_step ab =
     (case ab of (a, b) \<Rightarrow>
       bindR (py_minus (obs_get b ''timestamp_monotonic_ns'') (obs_get a ''timestamp_monotonic_ns'')) (\<lambda>d.
       bindR (py_div_1e9 d) (\<lambda>host.
       bindR (py_minus (obs_get b ''timestamp_boottime_seconds'') (obs_get a ''timestamp_boottime_seconds'')) (\<lambda>device.
       bindR (py_less device (PInt 0)) (\<lambda>back.
         if back then Inr ([''BOOTTIME_TIMESTAMP_REGRESSION''], False)
         else bindR (py_minus device (PFloat host)) (\<lambda>lead.
              bindR (py_less (PFloat (Fin (1 / 2))) lead) (\<lambda>ahead. Inr ([], ahead))))))))"

definition timed :: "obs_rec list \<Rightarrow> obs_rec list" where
  "timed rs = filter (\<lambda>r. num_of (obs_get r ''timestamp_boottime_seconds'') \<noteq> None) (heartbeats rs)"

section \<open>The verdict\<close>

datatype c2_status = C2_Present | C2_Unknown_Obs | C2_Absent

record c2_result =
  c2_trial :: pyval
  c2_stat :: c2_status
  c2_valid :: bool
  c2_interval :: pyval
  c2_counts :: "nat \<times> nat \<times> nat"
  c2_max_gap :: "int option"
  c2_mean :: "int option"
  c2_percentiles :: "int option \<times> int option \<times> int option"
  c2_transition :: bool
  c2_errors :: "string list"

text \<open>A recording without records.\<close>

definition c2_empty :: "string list \<Rightarrow> c2_result" where
  "c2_empty errs = \<lparr>c2_trial = PNone, c2_stat = C2_Unknown_Obs, c2_valid = False, c2_interval = PNone, c2_counts = (0, 0, 0),
     c2_max_gap = None, c2_mean = None, c2_percentiles = (None, None, None), c2_transition = False,
     c2_errors = (if errs = [] then [''NO_RECORDS''] else errs)\<rparr>"

definition c2_verdict :: "bool \<Rightarrow> bool \<Rightarrow> c2_status" where
  "c2_verdict present unknown = (if present then C2_Present else if unknown then C2_Unknown_Obs else C2_Absent)"

text \<open>The messages of the checks before the loop over the records.\<close>

definition c2_checks ::
  "(pyval \<Rightarrow> string) \<Rightarrow> (obs_exc, (string \<times> pyval) list) res \<Rightarrow> obs_rec list \<Rightarrow>
   (obs_exc, string list \<times> string list) res" where
  "c2_checks show canonical rs =
     (case c2_metadata rs of (metadata, meta_errors) \<Rightarrow>
        bindR (pyE (obs_sequence_errors rs)) (\<lambda>e1.
        bindR (pyE (obs_trial_errors rs)) (\<lambda>e2.
        bindR canonical (\<lambda>expected.
        bindR (vget_or metadata ''metadata'' (PDict [])) (\<lambda>observed.
        bindR (c2_identity_errors observed expected) (\<lambda>e3.
        bindR (vget_or metadata ''interfaces'' (PDict [])) (\<lambda>interfaces.
        bindR (cgroup_status_errors show interfaces) (\<lambda>e4.
        bindR (power_sources interfaces) (\<lambda>names.
          Inr (e1 @ e2 @ stamp_errors rs @ meta_errors @ e3 @
               heartbeat_errors (heartbeats rs) (gaps_between (int_stamps is_int (heartbeats rs))) @ e4 @
               cgroup_coverage_errors rs @ power_errors rs names, names))))))))))"

definition c2_analyze ::
  "(pyval \<Rightarrow> string) \<Rightarrow> (obs_exc, (string \<times> pyval) list) res \<Rightarrow> obs_rec list \<Rightarrow> string list \<Rightarrow> (obs_exc, c2_result) res" where
  "c2_analyze show canonical rs parse_errors =
     (if rs = [] then Inr (c2_empty parse_errors)
      else let hs = heartbeats rs; gs = gaps_between (int_stamps is_int hs) in
        bindR (c2_checks show canonical rs) (\<lambda>(before, names).
        guardR (list_all (\<lambda>r. hashable (obs_get r ''source'')) rs) (Raised TypeError)
          (bindR (pyE (mapR timed_step (pairs (timed rs)))) (\<lambda>steps.
           bindR (vget_or (fst (c2_metadata rs)) ''requested_interval_ms'' PNone) (\<lambda>interval.
           bindR (pyE (mean_gap gs)) (\<lambda>mean.
             let errs = parse_errors @ before @ counter_errors show rs @ concat (map fst steps);
                 frozen = list_ex (shows_freeze show) rs;
                 transition = (list_ex (\<lambda>n. changes (counter_values show rs n)) power_names \<or> list_ex snd steps);
                 ambiguous = list_ex (\<lambda>r. obs_get r ''read_status'' = PStr ''AMBIGUOUS'') rs
             in Inr \<lparr>c2_trial = obs_get (hd rs) ''trial_id'',
                  c2_stat = c2_verdict (frozen \<or> transition) (errs \<noteq> [] \<or> ambiguous),
                  c2_valid = (errs = []), c2_interval = interval,
                  c2_counts = (length hs, length (from_source ''trial_cgroup_events'' rs),
                    length (filter (\<lambda>r. list_ex (\<lambda>n. obs_get r ''source'' = PStr n) names) rs)),
                  c2_max_gap = max_opt gs, c2_mean = mean,
                  c2_percentiles = (obs_percentile gs (1 / 2), obs_percentile gs (95 / 100), obs_percentile gs (99 / 100)),
                  c2_transition = transition, c2_errors = errs\<rparr>))))))"

datatype c2_report = Host c2_result | Device clock_result

text \<open>The first line that is not blank decides which analysis it is.\<close>

definition from_device :: "(string \<Rightarrow> pyval option) \<Rightarrow> string \<Rightarrow> bool" where
  "from_device loads text =
     (case filter (\<lambda>l. py_strip l \<noteq> []) (split_lines [] text) of
        [] \<Rightarrow> False
      | l # ls \<Rightarrow> (case loads l of Some (PDict r) \<Rightarrow> obs_get r ''schema'' = PStr clock_schema | _ \<Rightarrow> False))"

text \<open>\<open>None\<close> is a recording that cannot be read; \<open>schema\<close> is the result of reading the schema document.\<close>

definition c2_main ::
  "(string \<Rightarrow> pyval option) \<Rightarrow> (pyval \<Rightarrow> string) \<Rightarrow> (obs_exc, string) res \<Rightarrow> string option \<Rightarrow> (obs_exc, c2_report) res" where
  "c2_main loads show schema content =
     (case content of None \<Rightarrow> Inl Unreadable_File
      | Some t \<Rightarrow>
          if from_device loads t then bindR (pyE (analyze_clock loads show [] content)) (\<lambda>r. Inr (Device r))
          else case all_lines (c2_line loads show) t of (rs, errs) \<Rightarrow>
            bindR (c2_analyze show (canonical_identity loads schema) rs errs) (\<lambda>r. Inr (Host r)))"

definition c2_exit :: "c2_report \<Rightarrow> nat" where
  "c2_exit r = (case r of Host x \<Rightarrow> if c2_valid x then 0 else 1 | Device x \<Rightarrow> if cr_coverage_valid x then 0 else 1)"

end
