(* ===== verification/C2_Obs_Properties.thy ===== *)
theory C2_Obs_Properties
  imports C2_Obs
begin

text \<open>
  What the verdict \<open>C2_ABSENT_FOR_OBSERVED_INTERVAL\<close> of \<open>tools/rmg-eze4/c2_obs_01_analyze.py\<close> means:
  exactly which recordings get it.
\<close>

section \<open>Distinct keys\<close>

lemma length_keys_of_le: "length (keys_of vs) \<le> length vs"
proof (induction vs)
  case (Cons v vs)
  then show ?case using le_trans [OF length_filter_le [of "\<lambda>w. \<not> key_eq v w" "keys_of vs"]] by simp
qed simp

lemma keys_of_all: "length (keys_of vs) = length vs \<Longrightarrow> keys_of vs = vs"
proof (induction vs)
  case (Cons v vs)
  let ?fs = "filter (\<lambda>w. \<not> key_eq v w) (keys_of vs)"
  have "length ?fs = length vs" using Cons.prems by simp
  with length_keys_of_le [of vs] length_filter_le [of "\<lambda>w. \<not> key_eq v w" "keys_of vs"]
  have l: "length (keys_of vs) = length vs" "length ?fs = length (keys_of vs)" by auto
  from l(2) have "?fs = keys_of vs" by (metis filter_True length_filter_less less_irrefl)
  with Cons.IH [OF l(1)] show ?case by simp
qed simp

lemma keys_of_id: "keys_of vs = vs \<longleftrightarrow> sorted_wrt (\<lambda>v w. \<not> key_eq v w) vs"
proof (induction vs)
  case (Cons v vs)
  show ?case
  proof
    assume eq: "keys_of (v # vs) = v # vs"
    then have "keys_of vs = vs"
      by (intro keys_of_all order_antisym length_keys_of_le) (metis keys_of.simps(2) length_filter_le list.inject)
    with eq Cons.IH show "sorted_wrt (\<lambda>v w. \<not> key_eq v w) (v # vs)" by (auto simp: filter_id_conv)
  next
    assume "sorted_wrt (\<lambda>v w. \<not> key_eq v w) (v # vs)"
    with Cons.IH show "keys_of (v # vs) = v # vs" by (auto simp: filter_id_conv)
  qed
qed simp

lemma length_keys_of_iff: "length vs = length (keys_of vs) \<longleftrightarrow> sorted_wrt (\<lambda>v w. \<not> key_eq v w) vs"
  using keys_of_all [of vs] keys_of_id [of vs] by metis

section \<open>A recording without gaps\<close>

fun at_path :: "pyval \<Rightarrow> string list \<Rightarrow> pyval option" where
  "at_path v [] = Some v"
| "at_path v (k # ks) =
     (case v of PDict kvs \<Rightarrow> (case map_of kvs k of None \<Rightarrow> None | Some w \<Rightarrow> at_path w ks) | _ \<Rightarrow> None)"

definition is_available :: "pyval \<Rightarrow> string list \<Rightarrow> bool" where
  "is_available v ks \<longleftrightarrow> at_path v (ks @ [''status'']) = Some (PStr ''AVAILABLE'')"

definition stamp :: "obs_rec \<Rightarrow> int" where "stamp r = int_of (obs_get r ''timestamp_monotonic_ns'')"

text \<open>Numbered, in order, of one trial, stamped with integers that never decrease.\<close>

definition obs_ordered :: "obs_rec list \<Rightarrow> bool" where
  "obs_ordered rs \<longleftrightarrow>
     sorted_wrt (\<lambda>r s. \<not> key_eq (obs_get r ''sequence'') (obs_get s ''sequence'')) rs \<and>
     (\<forall>(r, s) \<in> set (pairs rs). py_less (obs_get s ''sequence'') (obs_get r ''sequence'') \<noteq> Inr True) \<and>
     (\<forall>r \<in> set rs. \<forall>s \<in> set rs. key_eq (obs_get r ''trial_id'') (obs_get s ''trial_id'')) \<and>
     (\<forall>r \<in> set rs. is_int (obs_get r ''timestamp_monotonic_ns'')) \<and> sorted (map stamp rs)"

text \<open>Every identity property is available and is the constant of the schema.\<close>

definition c2_identified :: "(string \<times> pyval) list \<Rightarrow> pyval \<Rightarrow> bool" where
  "c2_identified expected m \<longleftrightarrow>
     (\<forall>(k, wanted) \<in> set expected. is_available m [''metadata'', k] \<and>
        py_eq (case at_path m [''metadata'', k, ''value''] of None \<Rightarrow> PNone | Some v \<Rightarrow> v) wanted)"

text \<open>Heartbeats at most half a second apart, each with a cgroup reading and a power reading.\<close>

definition c2_covered :: "pyval \<Rightarrow> obs_rec list \<Rightarrow> bool" where
  "c2_covered m rs \<longleftrightarrow>
     2 \<le> length (heartbeats rs) \<and> (\<forall>(a, b) \<in> set (pairs (map stamp (heartbeats rs))). b - a \<le> 500000000) \<and>
     (\<forall>r \<in> set (heartbeats rs). available_rec r) \<and>
     is_available m [''interfaces'', ''trial_cgroup_events''] \<and>
     length (heartbeats rs) \<le> length (from_source ''trial_cgroup_events'' rs) \<and>
     (\<forall>r \<in> set (from_source ''trial_cgroup_events'' rs). available_rec r) \<and>
     (\<exists>n \<in> set power_names. is_available m [''interfaces'', n] \<and>
        length (heartbeats rs) \<le> length (filter available_rec (from_source n rs)))"

text \<open>No freeze, constant counters, no ambiguous reading, no boottime ahead of the host's clock.\<close>

definition c2_quiet :: "(pyval \<Rightarrow> string) \<Rightarrow> obs_rec list \<Rightarrow> bool" where
  "c2_quiet show rs \<longleftrightarrow>
     (\<forall>r \<in> set rs. \<not> shows_freeze show r \<and> obs_get r ''read_status'' \<noteq> PStr ''AMBIGUOUS'') \<and>
     (\<forall>n \<in> set power_names. \<exists>c. \<forall>r \<in> set rs. is_counter n r \<longrightarrow> counter_of show r = Some c) \<and>
     (\<forall>ab \<in> set (pairs (timed rs)). timed_step ab = Inr ([], False))"

definition c2_clean :: "(pyval \<Rightarrow> string) \<Rightarrow> (string \<times> pyval) list \<Rightarrow> obs_rec list \<Rightarrow> bool" where
  "c2_clean show expected rs \<longleftrightarrow> rs \<noteq> [] \<and> obs_ordered rs \<and> c2_quiet show rs \<and>
     (\<exists>m. filter (\<lambda>r. obs_get r ''measurement'' = PStr ''metadata'') rs = [m] \<and>
          c2_identified expected (or_empty (obs_get m ''value'')) \<and> c2_covered (or_empty (obs_get m ''value'')) rs)"

section \<open>The checks find nothing exactly on such recordings\<close>

lemma vget_or_Inr_iff:
  "vget_or v k d = Inr w \<longleftrightarrow> (\<exists>kvs. v = PDict kvs \<and> w = (case map_of kvs k of None \<Rightarrow> d | Some x \<Rightarrow> x))"
  by (simp add: vget_or_def py_get_default_Inr_iff)

lemma ball_pairs_map: "(\<forall>(a, b) \<in> set (pairs (map f xs)). P a b) \<longleftrightarrow> (\<forall>(a, b) \<in> set (pairs xs). P (f a) (f b))"
  by (induction xs rule: induct_list012) auto

lemma order_errors_Nil:
  assumes "obs_sequence_errors rs = Inr e1" and "obs_trial_errors rs = Inr e2" and "rs \<noteq> []"
  shows "e1 = [] \<and> e2 = [] \<and> stamp_errors rs = [] \<longleftrightarrow> obs_ordered rs"
proof -
  let ?vs = "map (\<lambda>r. obs_get r ''sequence'') rs" and ?ts = "map (\<lambda>r. obs_get r ''trial_id'') rs"
  from assms(1) have e1: "e1 = [] \<longleftrightarrow> sorted_wrt (\<lambda>v w. \<not> key_eq v w) ?vs \<and>
      \<not> list_ex (\<lambda>(a, b). py_less b a = Inr True) (pairs ?vs)"
    by (auto simp: obs_sequence_errors_def Let_def guardR_Inr_iff bindR_Inr_iff unsorted_def length_keys_of_iff)
  from assms(2) have h: "\<forall>v \<in> set ?ts. hashable v" and e2: "e2 = [] \<longleftrightarrow> length (keys_of ?ts) = 1"
    by (auto simp: obs_trial_errors_def Let_def guardR_Inr_iff list_all_iff)
  have "keys_of ?ts \<noteq> []" using assms(3) by (cases rs) auto
  then have "length (keys_of ?ts) = 1 \<longleftrightarrow> \<not> 2 \<le> length (keys_of ?ts)" by (cases "keys_of ?ts") (auto simp: Suc_le_eq)
  with two_keys [OF h] e2 have "e2 = [] \<longleftrightarrow> (\<forall>v \<in> set ?ts. \<forall>w \<in> set ?ts. key_eq v w)" by blast
  then have t: "e2 = [] \<longleftrightarrow> (\<forall>r \<in> set rs. \<forall>s \<in> set rs. key_eq (obs_get r ''trial_id'') (obs_get s ''trial_id''))" by simp
  have "stamp_errors rs = [] \<longleftrightarrow> (\<forall>r \<in> set rs. is_int (obs_get r ''timestamp_monotonic_ns'')) \<and>
      (\<forall>(a, b) \<in> set (pairs (map (\<lambda>r. obs_get r ''timestamp_monotonic_ns'') rs)). int_of a \<le> int_of b)"
    by (auto simp: stamp_errors_def Let_def list_all_iff list_ex_iff not_less)
  also have "\<dots> \<longleftrightarrow> (\<forall>r \<in> set rs. is_int (obs_get r ''timestamp_monotonic_ns'')) \<and> sorted (map stamp rs)"
    unfolding pairs_sorted [symmetric] ball_pairs_map stamp_def ..
  finally have s: "stamp_errors rs = [] \<longleftrightarrow>
      (\<forall>r \<in> set rs. is_int (obs_get r ''timestamp_monotonic_ns'')) \<and> sorted (map stamp rs)" .
  have "\<not> list_ex (\<lambda>(a, b). py_less b a = Inr True) (pairs ?vs) \<longleftrightarrow>
      (\<forall>(a, b) \<in> set (pairs ?vs). py_less b a \<noteq> Inr True)"
    by (auto simp: list_ex_iff)
  then show ?thesis unfolding e1 t s obs_ordered_def ball_pairs_map sorted_wrt_map by blast
qed

lemma status_entry:
  "vget_or v k (PDict []) = Inr entry \<Longrightarrow> vget_or entry ''status'' d = Inr st \<Longrightarrow> d \<noteq> PStr ''AVAILABLE'' \<Longrightarrow>
   st = PStr ''AVAILABLE'' \<longleftrightarrow> is_available v [k]"
  by (auto simp: vget_or_Inr_iff is_available_def split: option.splits)

lemma identity_errors_Nil:
  assumes "vget_or m ''metadata'' (PDict []) = Inr observed" and "c2_identity_errors observed expected = Inr es"
  shows "es = [] \<longleftrightarrow> c2_identified expected m"
proof -
  have path: "at_path m (''metadata'' # ks) = at_path observed ks" if "ks \<noteq> []" for ks
    using assms(1) that by (cases ks) (auto simp: vget_or_Inr_iff split: option.splits)
  let ?check = "\<lambda>(k, wanted). bindR (vget_or observed k (PDict [])) (\<lambda>entry.
        bindR (vget_or entry ''status'' PNone) (\<lambda>st.
        bindR (if st = PStr ''AVAILABLE'' then vget_or entry ''value'' PNone else Inr PNone) (\<lambda>v.
          Inr (flag (st \<noteq> PStr ''AVAILABLE'' \<or> \<not> py_eq v wanted) (''IDENTITY_MISMATCH_OR_UNAVAILABLE_'' @ k)))))"
  let ?ok = "\<lambda>(k, wanted). is_available m [''metadata'', k] \<and>
      py_eq (case at_path m [''metadata'', k, ''value''] of None \<Rightarrow> PNone | Some v \<Rightarrow> v) wanted"
  have one: "xs = [] \<longleftrightarrow> ?ok kw" if run: "?check kw = Inr xs" for kw xs
  proof -
    obtain k wanted where kw: "kw = (k, wanted)" by (cases kw)
    from run obtain entry st v where e: "vget_or observed k (PDict []) = Inr entry"
      and st: "vget_or entry ''status'' PNone = Inr st"
      and v: "(if st = PStr ''AVAILABLE'' then vget_or entry ''value'' PNone else Inr PNone) = Inr v"
      and xs: "xs = flag (st \<noteq> PStr ''AVAILABLE'' \<or> \<not> py_eq v wanted) (''IDENTITY_MISMATCH_OR_UNAVAILABLE_'' @ k)"
      by (auto simp: kw bindR_Inr_iff)
    from status_entry [OF e st] have a: "st = PStr ''AVAILABLE'' \<longleftrightarrow> is_available m [''metadata'', k]"
      using path [of "[k, ''status'']"] by (simp add: is_available_def del: at_path.simps)
    have "at_path m [''metadata'', k, ''value''] = at_path observed [k, ''value'']" by (rule path) simp
    moreover have "st = PStr ''AVAILABLE'' \<Longrightarrow> (case at_path observed [k, ''value''] of None \<Rightarrow> PNone | Some v \<Rightarrow> v) = v"
      using e st v by (auto simp: vget_or_Inr_iff split: option.splits)
    ultimately show ?thesis using a by (auto simp: xs kw)
  qed
  show ?thesis
    using assms(2) unfolding c2_identity_errors_def
  proof (induction expected arbitrary: es)
    case (Cons p ps)
    from Cons.prems obtain xs ys where x: "es = xs @ ys" "?check p = Inr xs" and y: "catR (map ?check ps) = Inr ys"
      by (auto simp: bindR_Inr_iff)
    from one [OF x(2)] Cons.IH [OF y] x(1) show ?case by (auto simp: c2_identified_def)
  qed (simp add: c2_identified_def)
qed

lemma power_sources_eq:
  assumes "power_sources interfaces = Inr names"
  shows "names = filter (\<lambda>n. is_available interfaces [n]) power_names"
proof -
  let ?read = "\<lambda>n. bindR (vget_or interfaces n (PDict [])) (\<lambda>d. bindR (vget_or d ''status'' PNone) (\<lambda>st.
       Inr (flag (st = PStr ''AVAILABLE'') n)))"
  have one: "xs = filter (\<lambda>n. is_available interfaces [n]) [n]" if "?read n = Inr xs" for n xs
    using that by (auto simp: bindR_Inr_iff status_entry flag_def)
  have "catR (map ?read ks) = Inr names \<Longrightarrow> names = filter (\<lambda>n. is_available interfaces [n]) ks" for ks
  proof (induction ks arbitrary: names)
    case (Cons k ks)
    then obtain xs ys where "names = xs @ ys" and x: "?read k = Inr xs" and y: "catR (map ?read ks) = Inr ys"
      by (auto simp: bindR_Inr_iff)
    with one [OF x] Cons.IH [OF y] show ?case by auto
  qed simp
  with assms show ?thesis unfolding power_sources_def by blast
qed

lemma heartbeats_clean:
  assumes "\<forall>r \<in> set rs. ok (obs_get r ''timestamp_monotonic_ns'')"
  shows "heartbeat_errors (heartbeats rs) (gaps_between (int_stamps ok (heartbeats rs))) = [] \<longleftrightarrow>
    2 \<le> length (heartbeats rs) \<and> (\<forall>(a, b) \<in> set (pairs (map stamp (heartbeats rs))). b - a \<le> 500000000) \<and>
    (\<forall>r \<in> set (heartbeats rs). available_rec r)"
proof -
  have "int_stamps ok (heartbeats rs) = map stamp (heartbeats rs)"
    using assms by (induction rs) (auto simp: int_stamps_def heartbeats_def stamp_def)
  moreover have "gaps_between ts \<noteq> [] \<longleftrightarrow> 2 \<le> length ts" for ts :: "int list"
    by (cases ts; cases "tl ts") (auto simp: gaps_between_def)
  moreover have "ts \<noteq> [] \<Longrightarrow> 500000000 < Max (set ts) \<longleftrightarrow> \<not> (\<forall>g \<in> set ts. g \<le> 500000000)" for ts :: "int list"
    by (auto simp: Max_gr_iff not_le)
  ultimately show ?thesis
    by (auto simp: heartbeat_errors_def obs_max_gap_def gaps_between_def list_ex_iff available_rec_def not_less)
qed

lemma c2_checks_Nil:
  assumes run: "c2_checks show canonical rs = Inr (before, names)" and ne: "rs \<noteq> []"
  shows "before = [] \<longleftrightarrow> (\<exists>expected m. canonical = Inr expected \<and> obs_ordered rs \<and>
    filter (\<lambda>r. obs_get r ''measurement'' = PStr ''metadata'') rs = [m] \<and>
    c2_identified expected (or_empty (obs_get m ''value'')) \<and> c2_covered (or_empty (obs_get m ''value'')) rs)"
proof -
  obtain meta e0 where meta: "c2_metadata rs = (meta, e0)" by (cases "c2_metadata rs")
  from run [unfolded c2_checks_def meta] obtain e1 e2 expected observed e3 interfaces e4
    where e: "obs_sequence_errors rs = Inr e1" "obs_trial_errors rs = Inr e2"
      and canon: "canonical = Inr expected" and obs: "vget_or meta ''metadata'' (PDict []) = Inr observed"
      and e3: "c2_identity_errors observed expected = Inr e3"
      and ifs: "vget_or meta ''interfaces'' (PDict []) = Inr interfaces"
      and e4: "cgroup_status_errors show interfaces = Inr e4" and names: "power_sources interfaces = Inr names"
      and before: "before = e1 @ e2 @ stamp_errors rs @ e0 @ e3 @
         heartbeat_errors (heartbeats rs) (gaps_between (int_stamps is_int (heartbeats rs))) @ e4 @
         cgroup_coverage_errors rs @ power_errors rs names"
    by (auto simp: bindR_Inr_iff)
  have path: "is_available meta (''interfaces'' # ks) \<longleftrightarrow> is_available interfaces ks" for ks
    using ifs by (cases ks) (auto simp: vget_or_Inr_iff is_available_def split: option.splits)
  have m: "e0 = [] \<longleftrightarrow> (\<exists>m. filter (\<lambda>r. obs_get r ''measurement'' = PStr ''metadata'') rs = [m] \<and> meta = or_empty (obs_get m ''value''))"
    using meta by (auto simp: c2_metadata_def split: list.splits)
  have g: "e4 = [] \<longleftrightarrow> is_available meta [''interfaces'', ''trial_cgroup_events'']"
    using e4 by (auto simp: cgroup_status_errors_def bindR_Inr_iff path status_entry)
  have c: "cgroup_coverage_errors rs = [] \<longleftrightarrow> length (heartbeats rs) \<le> length (from_source ''trial_cgroup_events'' rs) \<and>
      (\<forall>r \<in> set (from_source ''trial_cgroup_events'' rs). available_rec r)"
    by (auto simp: cgroup_coverage_errors_def Let_def list_all_iff not_less)
  have w: "power_errors rs names = [] \<longleftrightarrow> (\<exists>n \<in> set power_names. is_available meta [''interfaces'', n] \<and>
      length (heartbeats rs) \<le> length (filter available_rec (from_source n rs)))"
    by (auto simp: power_errors_def power_sources_eq [OF names] path list_all_iff not_less filter_empty_conv)
  have o: "obs_ordered rs \<Longrightarrow> \<forall>r \<in> set rs. is_int (obs_get r ''timestamp_monotonic_ns'')" by (simp add: obs_ordered_def)
  have cov: "obs_ordered rs \<Longrightarrow>
      heartbeat_errors (heartbeats rs) (gaps_between (int_stamps is_int (heartbeats rs))) = [] \<and> e4 = [] \<and>
      cgroup_coverage_errors rs = [] \<and> power_errors rs names = [] \<longleftrightarrow> c2_covered meta rs"
    unfolding c2_covered_def g c w using heartbeats_clean [of rs is_int] o by blast
  have "before = [] \<longleftrightarrow> obs_ordered rs \<and> e0 = [] \<and> c2_identified expected meta \<and> c2_covered meta rs"
    unfolding before append_is_Nil_conv using order_errors_Nil [OF e ne] cov identity_errors_Nil [OF obs e3] by blast
  also have "\<dots> \<longleftrightarrow> (\<exists>x m. canonical = Inr x \<and> obs_ordered rs \<and>
      filter (\<lambda>r. obs_get r ''measurement'' = PStr ''metadata'') rs = [m] \<and>
      c2_identified x (or_empty (obs_get m ''value'')) \<and> c2_covered (or_empty (obs_get m ''value'')) rs)"
    using meta unfolding canon m by (auto simp: c2_metadata_def)
  finally show ?thesis .
qed

section \<open>Signals\<close>

lemma counters_quiet:
  "counter_errors show rs = [] \<and> \<not> list_ex (\<lambda>n. changes (counter_values show rs n)) power_names \<longleftrightarrow>
   (\<forall>n \<in> set power_names. \<exists>c. \<forall>r \<in> set rs. is_counter n r \<longrightarrow> counter_of show r = Some c)"
proof -
  have e: "counter_errors show rs = [] \<longleftrightarrow> (\<forall>n \<in> set power_names. \<forall>r \<in> set rs. is_counter n r \<longrightarrow> counter_of show r \<noteq> None)"
    by (auto simp: counter_errors_def)
  have vals: "set (counter_values show rs n) = {c. \<exists>r \<in> set rs. is_counter n r \<and> counter_of show r = Some c}" for n
    by (force simp: counter_values_def split: option.splits)
  have ch: "\<not> changes vs \<longleftrightarrow> (\<exists>c. \<forall>v \<in> set vs. v = c)" for vs :: "int list"
    by (cases vs) (auto simp: changes_def list_ex_iff)
  have one: "(\<forall>r \<in> set rs. is_counter n r \<longrightarrow> counter_of show r \<noteq> None) \<and> \<not> changes (counter_values show rs n) \<longleftrightarrow>
      (\<exists>c. \<forall>r \<in> set rs. is_counter n r \<longrightarrow> counter_of show r = Some c)" for n
    unfolding ch vals by (auto dest: bspec)
  show ?thesis unfolding e using one by (simp add: list_ex_iff) blast
qed

lemma steps_quiet:
  assumes "mapR timed_step qs = Inr steps"
  shows "concat (map fst steps) = [] \<and> \<not> list_ex snd steps \<longleftrightarrow> (\<forall>ab \<in> set qs. timed_step ab = Inr ([], False))"
  using assms
proof (induction qs arbitrary: steps)
  case (Cons ab qs)
  then obtain x xs where "timed_step ab = Inr x" "mapR timed_step qs = Inr xs" "steps = x # xs"
    by (auto simp: bindR_Inr_iff)
  with Cons.IH [of xs] show ?case by (cases x) auto
qed simp

section \<open>An example\<close>

definition c2_point :: "int \<Rightarrow> int \<Rightarrow> string \<Rightarrow> string \<Rightarrow> pyval \<Rightarrow> pyval" where
  "c2_point n t s m v = PDict [(''schema_version'', PStr c2_schema), (''trial_id'', PStr ''T1''), (''sequence'', PInt n),
     (''timestamp_monotonic_ns'', PInt t), (''timestamp_boottime_seconds'', PNone), (''timestamp_wall_utc'', PNone),
     (''source'', PStr s), (''measurement'', PStr m), (''value'', v), (''read_status'', PStr ''AVAILABLE''),
     (''read_duration_ns'', PInt 1000)]"

definition entry_of :: "string \<Rightarrow> pyval" where
  "entry_of v = PDict [(''status'', PStr ''AVAILABLE''), (''value'', PStr v)]"

definition c2_meta_value :: pyval where
  "c2_meta_value = PDict [
     (''metadata'', PDict (map (\<lambda>(k, f). (k, entry_of f)) identity_fields)),
     (''interfaces'', PDict [(''trial_cgroup_events'', entry_of ''populated 1''), (''wakeup_count'', entry_of ''17'')])]"

definition c2_example_line :: "string \<Rightarrow> pyval option" where
  "c2_example_line l =
     (if l = ''m'' then Some (c2_point 0 0 ''metadata'' ''metadata'' c2_meta_value)
      else if l = ''a'' then Some (c2_point 1 100 ''heartbeat'' ''heartbeat'' PNone)
      else if l = ''b'' then Some (c2_point 2 200 ''trial_cgroup_events'' ''raw_read'' (PStr ''frozen 0''))
      else if l = ''c'' then Some (c2_point 3 300 ''wakeup_count'' ''raw_read'' (PStr ''17''))
      else if l = ''d'' then Some (c2_point 4 200000100 ''heartbeat'' ''heartbeat'' PNone)
      else if l = ''e'' then Some (c2_point 5 200000200 ''trial_cgroup_events'' ''raw_read'' (PStr ''frozen 0''))
      else if l = ''f'' then Some (c2_point 6 200000300 ''wakeup_count'' ''raw_read'' (PStr ''17''))
      else if l = ''schema'' then Some (PDict [(''properties'', PDict [(''artifact_identity'', PDict [(''properties'',
        PDict (map (\<lambda>(k, f). (f, PDict [(''const'', PStr f)])) identity_fields))])])])
      else None)"

definition c2_example_text :: string where
  "c2_example_text = concat (map (\<lambda>c. [c, CHR 0x0A]) ''mabcdef'')"

definition c2_show :: "pyval \<Rightarrow> string" where "c2_show v = (case v of PStr s \<Rightarrow> s | _ \<Rightarrow> [])"

definition c2_example_recs :: "obs_rec list" where
  "c2_example_recs = map (\<lambda>l. case c2_example_line [l] of Some (PDict r) \<Rightarrow> r | _ \<Rightarrow> []) ''mabcdef''"

definition c2_expected :: "(string \<times> pyval) list" where
  "c2_expected = map (\<lambda>(k, f). (k, PStr f)) identity_fields"

lemma c2_example:
  "from_device c2_example_line c2_example_text = False"
  "all_lines (c2_line c2_example_line c2_show) c2_example_text = (c2_example_recs, [])"
  "canonical_identity c2_example_line (Inr ''schema'') = Inr c2_expected"
  by code_simp+

lemma c2_example2:
  "c2_checks c2_show (Inr c2_expected) c2_example_recs = Inr ([], [''wakeup_count''])"
  by code_simp+

lemma c2_example3:
  "counter_errors c2_show c2_example_recs = []"
  "list_ex (shows_freeze c2_show) c2_example_recs = False"
  "list_ex (\<lambda>n. changes (counter_values c2_show c2_example_recs n)) power_names = False"
  "list_ex (\<lambda>r. obs_get r ''read_status'' = PStr ''AMBIGUOUS'') c2_example_recs = False"
  "timed c2_example_recs = []" "gaps_between (int_stamps is_int (heartbeats c2_example_recs)) = [200000000]"
  "list_all (\<lambda>r. hashable (obs_get r ''source'')) c2_example_recs = True"
  "vget_or (fst (c2_metadata c2_example_recs)) ''requested_interval_ms'' PNone = Inr PNone"
  by code_simp+

section \<open>The verdict\<close>

lemma c2_absent_records:
  assumes "c2_analyze show canonical rs errs = Inr r"
  shows "c2_stat r = C2_Absent \<longleftrightarrow> errs = [] \<and> (\<exists>expected. canonical = Inr expected \<and> c2_clean show expected rs)"
proof (cases "rs = []")
  case True
  with assms show ?thesis by (auto simp: c2_analyze_def c2_empty_def c2_clean_def)
next
  case False
  from assms False obtain before names steps where checks: "c2_checks show canonical rs = Inr (before, names)"
    and steps: "mapR timed_step (pairs (timed rs)) = Inr steps"
    and st: "c2_stat r = c2_verdict (list_ex (shows_freeze show) rs \<or>
        list_ex (\<lambda>n. changes (counter_values show rs n)) power_names \<or> list_ex snd steps)
      (errs @ before @ counter_errors show rs @ concat (map fst steps) \<noteq> [] \<or>
       list_ex (\<lambda>r. obs_get r ''read_status'' = PStr ''AMBIGUOUS'') rs)"
    by (auto simp: c2_analyze_def Let_def bindR_Inr_iff guardR_Inr_iff simp del: append_is_Nil_conv concat_eq_Nil_conv)
  have "c2_stat r = C2_Absent \<longleftrightarrow> errs = [] \<and> before = [] \<and>
      (\<not> list_ex (shows_freeze show) rs \<and> \<not> list_ex (\<lambda>r. obs_get r ''read_status'' = PStr ''AMBIGUOUS'') rs) \<and>
      (counter_errors show rs = [] \<and> \<not> list_ex (\<lambda>n. changes (counter_values show rs n)) power_names) \<and>
      (concat (map fst steps) = [] \<and> \<not> list_ex snd steps)"
    unfolding st c2_verdict_def by auto
  also have "\<dots> \<longleftrightarrow> errs = [] \<and> before = [] \<and> c2_quiet show rs"
    unfolding counters_quiet steps_quiet [OF steps] c2_quiet_def by (auto simp: list_ex_iff)
  finally show ?thesis
    unfolding c2_checks_Nil [OF checks False] c2_clean_def using False by auto
qed

lemma c2_example_runs:
  "\<exists>r. c2_main c2_example_line c2_show (Inr ''schema'') (Some c2_example_text) = Inr (Host r)"
proof -
  have "rnd 200000000 = 200000000" using rnd_of_int [of 200000000] by simp
  then have mean: "mean_gap [200000000] = Inr (Some (round_half_even 200000000))" by (simp add: mean_gap_def)
  have "c2_example_recs \<noteq> []" by (simp add: c2_example_recs_def)
  then show ?thesis
    by (simp add: c2_main_def c2_example c2_analyze_def c2_example2 c2_example3 Let_def mean)
qed

text \<open>
  Claim C7. The analysis of a host recording answers that there was no freeze and no power
  transition exactly when every line is a complete record, the records are numbered and in
  order, of one trial and of the device that the schema document fixes, the heartbeats are at
  most half a second apart and each has its cgroup and power readings, no cgroup was frozen or
  empty, no counter moved, no reading is ambiguous and the device's clock never ran ahead.
\<close>

theorem c2_absent_iff:
  assumes "c2_main loads show schema content = Inr (Host r)"
  shows "c2_stat r = C2_Absent \<longleftrightarrow> (\<exists>t rs expected. content = Some t \<and> all_lines (c2_line loads show) t = (rs, []) \<and>
    canonical_identity loads schema = Inr expected \<and> c2_clean show expected rs)"
proof -
  from assms obtain t where t: "content = Some t" "\<not> from_device loads t"
    and run: "c2_analyze show (canonical_identity loads schema) (fst (all_lines (c2_line loads show) t))
      (snd (all_lines (c2_line loads show) t)) = Inr r"
    by (auto simp: c2_main_def bindR_Inr_iff split: option.splits if_splits prod.splits)
  show ?thesis unfolding c2_absent_records [OF run] t(1) by (auto simp: prod_eq_iff)
qed

theorem c2_absent_iff_witness:
  "\<exists>r. c2_main c2_example_line c2_show (Inr ''schema'') (Some c2_example_text) = Inr (Host r) \<and> c2_stat r = C2_Absent \<and>
     c2_clean c2_show c2_expected c2_example_recs"
proof -
  obtain r where run: "c2_main c2_example_line c2_show (Inr ''schema'') (Some c2_example_text) = Inr (Host r)"
    using c2_example_runs by blast
  from c2_checks_Nil [OF c2_example2] have "c2_clean c2_show c2_expected c2_example_recs"
    using counters_quiet [of c2_show c2_example_recs] c2_example3
    by (simp add: c2_clean_def c2_quiet_def list_ex_iff c2_example_recs_def)
  with c2_absent_iff [OF run] run c2_example show ?thesis by auto
qed

end
