(* ===== verification/C3_Parse.thy ===== *)
theory C3_Parse
  imports Obs_Jsonl Artifacts "HOL-Library.AList"
begin

text \<open>
  \<open>tools/rmg-eze4/c3_obs_01_analyze.py\<close>, the readings: temperatures, frequencies, CPU lists and the
  processor field of \<open>/proc/<pid>/stat\<close>. Each function takes \<open>str(value)\<close>. \<open>int()\<close> of more than
  4300 digits raises a \<open>ValueError\<close>, which nothing catches.
\<close>

section \<open>Decimal numbers\<close>

text \<open>
  \<open>(?:[0-9]+(?:\.[0-9]*)?|\.[0-9]+)\<close> at the start of a string: integer digits, digits after the
  point, and the rest. The classes are disjoint, so that there is one way to match.
\<close>

definition decimal :: "string \<Rightarrow> (string \<times> string \<times> string) option" where
  "decimal s =
     (let ds = takeWhile is_digit_char s; r = dropWhile is_digit_char s in
      if r \<noteq> [] \<and> hd r = CHR ''.''
      then let fs = takeWhile is_digit_char (tl r) in
           if ds = [] \<and> fs = [] then None else Some (ds, fs, dropWhile is_digit_char (tl r))
      else if ds = [] then None else Some (ds, [], r))"

text \<open>\<open>float()\<close> of the digits.\<close>

definition decimal_value :: "string \<Rightarrow> string \<Rightarrow> rat" where
  "decimal_value ds fs = of_nat (digits_value 10 (ds @ fs)) / 10 ^ length fs"

text \<open>An optional sign out of \<open>signs\<close>; whether it is a minus.\<close>

definition strip_sign :: "string \<Rightarrow> string \<Rightarrow> bool \<times> string" where
  "strip_sign signs s = (if s \<noteq> [] \<and> hd s \<in> set signs then (hd s = CHR ''-'', tl s) else (False, s))"

section \<open>Temperature and frequency\<close>

text \<open>A frequency has no minus sign, so the code's test for a negative number never applies.\<close>

definition parse_temperature :: "string \<Rightarrow> pyfloat option" where
  "parse_temperature v =
     (case strip_sign ''+-'' (py_strip v) of (neg, body) \<Rightarrow>
        (case decimal body of None \<Rightarrow> None | Some (ds, fs, rest) \<Rightarrow>
           let x = decimal_value ds fs; f = float_of_rat (if neg then - x else x);
               u = py_lower (dropWhile py_space rest)
           in if u = ''c'' then Some f
              else if u = [] \<or> u = ''mc'' then Some (f_div_pos f 1000) else None))"

definition hz_factor :: "string \<Rightarrow> rat option" where
  "hz_factor u = map_of [(''hz'', 1), (''khz'', 1000), (''mhz'', 1000000), (''ghz'', 1000000000)] u"

text \<open>\<open>number * multiplier\<close>, and \<open>int(result) if result.is_integer() else None\<close>.\<close>

definition f_times :: "pyfloat \<Rightarrow> rat \<Rightarrow> pyfloat" where
  "f_times x k = (case x of Fin a \<Rightarrow> float_of_rat (a * k) | _ \<Rightarrow> x)"

definition whole :: "pyfloat \<Rightarrow> int option" where
  "whole x = (case x of Fin a \<Rightarrow> if of_int \<lfloor>a\<rfloor> = a then Some \<lfloor>a\<rfloor> else None | _ \<Rightarrow> None)"

definition parse_frequency :: "string \<Rightarrow> string \<Rightarrow> int option" where
  "parse_frequency v default_unit =
     (case strip_sign ''+'' (filter (\<lambda>c. c \<noteq> CHR '' '') (py_lower (py_strip v))) of (_, body) \<Rightarrow>
        (case decimal body of None \<Rightarrow> None | Some (ds, fs, rest) \<Rightarrow>
           if rest \<noteq> [] \<and> hz_factor rest = None then None
           else (case hz_factor (if rest = [] then py_lower default_unit else rest) of
                   None \<Rightarrow> None
                 | Some k \<Rightarrow> whole (f_times (float_of_rat (decimal_value ds fs)) k))))"

section \<open>CPU lists\<close>

definition all_digits :: "string \<Rightarrow> bool" where "all_digits s = (s \<noteq> [] \<and> list_all is_digit_char s)"

definition py_int_digits :: "string \<Rightarrow> (pyexc, int) res" where
  "py_int_digits s = (case int_of_string s of None \<Rightarrow> Inl ValueError | Some i \<Rightarrow> Inr i)"

text \<open>One part: \<open>None\<close> is a part that makes the whole list malformed.\<close>

definition parse_cpu_part :: "string \<Rightarrow> (pyexc, int list option) res" where
  "parse_cpu_part p =
     (let s = py_strip p; a = takeWhile (\<lambda>c. c \<noteq> CHR ''-'') s; r = dropWhile (\<lambda>c. c \<noteq> CHR ''-'') s in
      if \<not> all_digits a \<or> (r \<noteq> [] \<and> \<not> all_digits (tl r)) then Inr None
      else bindR (py_int_digits a) (\<lambda>first.
           if r = [] then Inr (Some [first])
           else bindR (py_int_digits (tl r)) (\<lambda>end_cpu. Inr (if end_cpu < first then None else Some [first..end_cpu]))))"

fun parse_cpu_parts :: "string list \<Rightarrow> (pyexc, int list option) res" where
  "parse_cpu_parts [] = Inr (Some [])"
| "parse_cpu_parts (p # ps) = bindR (parse_cpu_part p) (\<lambda>x. case x of None \<Rightarrow> Inr None
     | Some is \<Rightarrow> bindR (parse_cpu_parts ps) (\<lambda>y. Inr (case y of None \<Rightarrow> None | Some js \<Rightarrow> Some (is @ js))))"

text \<open>The members of the set that the code builds; only membership is used.\<close>

definition parse_cpu_list :: "string \<Rightarrow> (pyexc, int list option) res" where
  "parse_cpu_list v =
     (let s = py_strip v in
      if s = [] then Inr None else if py_lower s = ''none'' then Inr (Some [])
      else parse_cpu_parts (split_char (CHR '','') s))"

section \<open>The processor of a process\<close>

text \<open>Field 39 of the line; the command in parentheses may hold spaces and parentheses.\<close>

definition parse_processor :: "string \<Rightarrow> (pyexc, int option) res" where
  "parse_processor v =
     (let s = py_strip v in
      if CHR '')'' \<notin> set s then Inr None
      else let fields = words [] (rev (takeWhile (\<lambda>c. c \<noteq> CHR '')'') (rev s))) in
           if length fields \<le> 36 \<or> \<not> all_digits (fields ! 36) then Inr None
           else bindR (py_int_digits (fields ! 36)) (\<lambda>i. Inr (Some i)))"

end
