(* ===== verification/C3_Obs.thy ===== *)
theory C3_Obs
  imports C3_Parse
begin

text \<open>
  \<open>tools/rmg-eze4/c3_obs_01_analyze.py\<close>: the analysis of a host recording of thermal zones,
  frequencies and the CPU of the trial. The sources of a recording are bound by its metadata
  record; a descriptor is a dict. The stamps that the code keeps beside each reading are never
  used, so a reading is its value. The parameter \<open>kind\<close> is the class name of the \<open>OSError\<close> of
  a schema document that cannot be read.
\<close>

definition c3_schema :: string where "c3_schema = ''c3-obs-01.v1''"

definition c3_line ::
  "(string \<Rightarrow> pyval option) \<Rightarrow> (pyval \<Rightarrow> string) \<Rightarrow> nat \<Rightarrow> string \<Rightarrow> obs_rec list \<times> string list" where
  "c3_line loads show n line =
     (case loads line of
        None \<Rightarrow> ([], [''MALFORMED_JSON_LINE_'' @ fmt_nat n])
      | Some (PDict r) \<Rightarrow> keep_record show c3_schema (''LINE_'' @ fmt_nat n) r
      | Some v \<Rightarrow> ([], [''LINE_'' @ fmt_nat n @ ''_NOT_OBJECT'']))"

section \<open>Metadata\<close>

definition dict_at :: "obs_rec \<Rightarrow> string \<Rightarrow> obs_rec option" where
  "dict_at d k = (case map_of d k of Some (PDict e) \<Rightarrow> Some e | _ \<Rightarrow> None)"

definition sub_dict :: "obs_rec \<Rightarrow> string \<Rightarrow> obs_rec" where
  "sub_dict d k = (case dict_at d k of None \<Rightarrow> [] | Some e \<Rightarrow> e)"

definition metadata_parts :: "obs_rec \<Rightarrow> obs_rec \<times> obs_rec" where
  "metadata_parts r =
     (let value = sub_dict r ''value''; metadata = sub_dict value ''metadata'' in
      (metadata @ filter (\<lambda>(k, v). k \<notin> {''metadata'', ''interfaces''} \<and> map_of metadata k = None) value,
       case dict_at metadata ''interfaces'' of Some i \<Rightarrow> i | None \<Rightarrow> sub_dict value ''interfaces''))"

definition meta_records :: "obs_rec list \<Rightarrow> obs_rec list" where
  "meta_records rs = filter (\<lambda>r. obs_get r ''measurement'' = PStr ''metadata'') rs"

definition c3_meta :: "obs_rec list \<Rightarrow> obs_rec \<times> obs_rec" where
  "c3_meta rs = (case meta_records rs of [m] \<Rightarrow> metadata_parts m | _ \<Rightarrow> ([], []))"

definition unit_of :: "obs_rec \<Rightarrow> string \<Rightarrow> string" where
  "unit_of d default_unit = (case map_of d ''unit'' of Some (PStr s) \<Rightarrow> if s = [] then default_unit else s | _ \<Rightarrow> default_unit)"

section \<open>Sources\<close>

type_synonym sources = "(string \<times> obs_rec) list"

definition dict_items :: "obs_rec \<Rightarrow> (string \<times> obs_rec) list" where
  "dict_items d = concat (map (\<lambda>(k, v). case v of PDict e \<Rightarrow> [(k, e)] | _ \<Rightarrow> []) d)"

definition thermal_sources :: "obs_rec \<Rightarrow> sources" where
  "thermal_sources interfaces =
     concat (map (\<lambda>(name, zone). case dict_at zone ''temperature'' of None \<Rightarrow> []
         | Some d \<Rightarrow> [(''thermal:'' @ name @ '':temperature'', d)])
       (dict_items (sub_dict interfaces ''thermal_zones'')))"

definition frequency_sources :: "obs_rec \<Rightarrow> sources" where
  "frequency_sources interfaces =
     concat (map (\<lambda>(name, policy). concat (map (\<lambda>k. case dict_at policy k of None \<Rightarrow> []
         | Some d \<Rightarrow> [(''cpufreq:'' @ name @ '':'' @ k, d)]) [''effective_freq'', ''max_freq'']))
       (dict_items (sub_dict interfaces ''cpufreq_policies'')))"

definition put_all :: "(string \<times> 'a) list \<Rightarrow> (string \<times> 'a) list \<Rightarrow> (string \<times> 'a) list" where
  "put_all xs d = fold (\<lambda>(k, v). AList.update k v) xs d"

definition static_sources :: "obs_rec \<Rightarrow> sources" where
  "static_sources interfaces =
     (let st = dict_items (sub_dict interfaces ''static_sources'') in
      case dict_at interfaces ''trial_cpu'' of None \<Rightarrow> st | Some d \<Rightarrow> AList.update ''trial_cpu'' d st)"

text \<open>The sources to sample, and the ones that the metadata's list selects among them.\<close>

definition bound_sources :: "obs_rec \<Rightarrow> sources" where
  "bound_sources i =
     filter (\<lambda>(k, d). truthy (obs_get d ''sample'') \<and> truthy (obs_get d ''path''))
       (put_all (frequency_sources i @ static_sources i) (thermal_sources i))"

definition declared_sources :: "obs_rec \<Rightarrow> pyval list" where
  "declared_sources metadata = (case map_of metadata ''sample_sources'' of Some (PList vs) \<Rightarrow> vs | _ \<Rightarrow> [])"

definition is_bound :: "sources \<Rightarrow> pyval \<Rightarrow> bool" where
  "is_bound bs v = (case v of PStr s \<Rightarrow> map_of bs s \<noteq> None | _ \<Rightarrow> False)"

definition selection_errors :: "(pyval \<Rightarrow> string) \<Rightarrow> sources \<Rightarrow> pyval list \<Rightarrow> (pyexc, string list) res" where
  "selection_errors show bs vs =
     catR (map (\<lambda>v. guardR (hashable v) TypeError (Inr (flag (\<not> is_bound bs v) (''SAMPLE_SOURCE_NOT_BOUND_'' @ show v)))) vs)"

definition selected :: "sources \<Rightarrow> pyval list \<Rightarrow> sources" where
  "selected bs vs =
     (if vs = [] then bs
      else map (\<lambda>s. (s, the (map_of bs s)))
        (dedup_on [] (concat (map (\<lambda>v. case v of PStr s \<Rightarrow> flag (map_of bs s \<noteq> None) s | _ \<Rightarrow> []) vs))))"

section \<open>Readings\<close>

datatype reading = Temp string pyfloat | Freq string int | Cpu int

text \<open>Whether a value could be parsed, and the readings that are kept of it.\<close>

definition read_value ::
  "(pyval \<Rightarrow> string) \<Rightarrow> string \<Rightarrow> obs_rec \<Rightarrow> obs_rec \<Rightarrow> (pyexc, bool \<times> reading list) res" where
  "read_value show src d r =
     (let v = show (obs_get r ''value''); keep = is_int (obs_get r ''timestamp_monotonic_ns'') in
      if prefix ''thermal:'' src then
        Inr (case parse_temperature v of None \<Rightarrow> (False, []) | Some f \<Rightarrow> (True, flag keep (Temp src f)))
      else if prefix ''cpufreq:'' src then
        Inr (case parse_frequency v (unit_of d ''khz'') of None \<Rightarrow> (False, []) | Some f \<Rightarrow> (True, flag keep (Freq src f)))
      else if src = ''trial_cpu'' then
        bindR (parse_processor v) (\<lambda>p. Inr (case p of None \<Rightarrow> (False, []) | Some c \<Rightarrow> (True, flag keep (Cpu c))))
      else if src = ''cpu_online'' \<or> src = ''cpu_present'' then
        bindR (parse_cpu_list v) (\<lambda>cs. Inr (cs \<noteq> None, []))
      else Inr (False, []))"

definition read_record ::
  "(pyval \<Rightarrow> string) \<Rightarrow> string \<Rightarrow> obs_rec \<Rightarrow> obs_rec \<Rightarrow> (pyexc, string list \<times> reading list) res" where
  "read_record show src d r =
     (if obs_get r ''read_status'' \<noteq> PStr ''AVAILABLE''
      then Inr ((''SOURCE_READ_'' @ show (obs_get r ''read_status'') @ ''_'' @ src) #
                flag (prefix ''thermal:'' src) (''THERMAL_SENSOR_DISAPPEARED_'' @ src), [])
      else bindR (read_value show src d r) (\<lambda>(ok, xs). Inr (flag (\<not> ok) (''MALFORMED_READING_'' @ src), xs)))"

definition raw_reads :: "(pyval \<Rightarrow> string) \<Rightarrow> string \<Rightarrow> obs_rec list \<Rightarrow> obs_rec list" where
  "raw_reads show src rs =
     filter (\<lambda>r. obs_get r ''measurement'' = PStr ''raw_read'' \<and> show (obs_get r ''source'') = src) rs"

definition read_source ::
  "(pyval \<Rightarrow> string) \<Rightarrow> obs_rec list \<Rightarrow> string \<times> obs_rec \<Rightarrow> (pyexc, string list \<times> reading list) res" where
  "read_source show rs sd =
     (case sd of (src, d) \<Rightarrow>
        bindR (mapR (read_record show src d) (raw_reads show src rs)) (\<lambda>xs.
          Inr (flag (length (raw_reads show src rs) < length (heartbeats rs)) (''SOURCE_INCOMPLETE_COVERAGE_'' @ src) @
               concat (map fst xs), concat (map snd xs))))"

definition temps_of :: "reading list \<Rightarrow> (string \<times> pyfloat) list" where
  "temps_of xs = concat (map (\<lambda>x. case x of Temp s f \<Rightarrow> [(s, f)] | _ \<Rightarrow> []) xs)"

definition freqs_of :: "reading list \<Rightarrow> (string \<times> int) list" where
  "freqs_of xs = concat (map (\<lambda>x. case x of Freq s f \<Rightarrow> [(s, f)] | _ \<Rightarrow> []) xs)"

definition cpus_of :: "reading list \<Rightarrow> int list" where
  "cpus_of xs = concat (map (\<lambda>x. case x of Cpu c \<Rightarrow> [c] | _ \<Rightarrow> []) xs)"

section \<open>Excursions, clamps and migrations\<close>

text \<open>A critical trip point; a type that is not a dict has no \<open>get\<close>.\<close>

definition trip_threshold ::
  "(pyval \<Rightarrow> string) \<Rightarrow> string \<Rightarrow> string \<times> obs_rec \<Rightarrow> (pyexc, (string \<times> pyfloat) list) res" where
  "trip_threshold show zone it =
     (case it of (i, trip) \<Rightarrow>
        (let desc = (\<lambda>k. case map_of trip k of None \<Rightarrow> PDict [] | Some v \<Rightarrow> v) in
         bindR (py_get_default (desc ''type'') ''initial_value'' PNone) (\<lambda>ty.
           if \<not> contains_sub ''critical'' (py_lower (if truthy ty then show ty else [])) then Inr []
           else bindR (py_get_default (desc ''temp'') ''initial_value'' PNone) (\<lambda>v.
             Inr (case parse_temperature (show v) of None \<Rightarrow> [] | Some f \<Rightarrow> [(zone @ '':'' @ i, f)])))))"

definition critical_thresholds :: "(pyval \<Rightarrow> string) \<Rightarrow> obs_rec \<Rightarrow> (pyexc, (string \<times> pyfloat) list) res" where
  "critical_thresholds show zones =
     bindR (catR (concat (map (\<lambda>(name, zone). map (trip_threshold show name) (dict_items (sub_dict zone ''trip_points'')))
       (dict_items zones)))) (\<lambda>xs. Inr (put_all xs []))"

definition zone_of :: "string \<Rightarrow> string" where "zone_of src = split_char CHR '':'' src ! 1"

definition excursions :: "(string \<times> pyfloat) list \<Rightarrow> (string \<times> pyfloat) list \<Rightarrow> nat" where
  "excursions thresholds temps =
     length (filter (\<lambda>(src, t). list_ex (\<lambda>(k, limit). prefix (zone_of src @ '':'') k \<and> f_le limit t) thresholds) temps)"

definition initial_max :: "(pyval \<Rightarrow> string) \<Rightarrow> obs_rec \<Rightarrow> (string \<times> int) list" where
  "initial_max show policies =
     concat (map (\<lambda>(name, policy). case map_of policy ''max_freq'' of
         Some (PDict d) \<Rightarrow> (case parse_frequency (show (obs_get d ''initial_value'')) (unit_of d ''khz'') of
           None \<Rightarrow> [] | Some f \<Rightarrow> [(name, f)])
       | Some v \<Rightarrow> []
       | None \<Rightarrow> (case parse_frequency (show PNone) ''khz'' of None \<Rightarrow> [] | Some f \<Rightarrow> [(name, f)]))
       (dict_items policies))"

definition clamps :: "(string \<times> int) list \<Rightarrow> (string \<times> int) list \<Rightarrow> nat" where
  "clamps baseline freqs =
     length (filter (\<lambda>(src, f). let ps = split_char CHR '':'' src in
       3 \<le> length ps \<and> ps ! 2 = ''max_freq'' \<and> (case map_of baseline (ps ! 1) of None \<Rightarrow> False | Some b \<Rightarrow> f < b)) freqs)"

definition migrations :: "int list \<Rightarrow> nat" where
  "migrations cs = length (filter (\<lambda>(a, b). a \<noteq> b) (pairs cs))"

text \<open>The CPUs the trial was declared to run on, and the message about them.\<close>

definition declared_cpus :: "obs_rec \<Rightarrow> (pyexc, pyval list option \<times> string list) res" where
  "declared_cpus metadata =
     (case obs_get metadata ''declared_cpus'' of
        PNone \<Rightarrow> Inr (None, [])
      | PStr s \<Rightarrow> bindR (parse_cpu_list s) (\<lambda>cs.
          Inr (map_option (map PInt) cs, flag (cs = None) ''MALFORMED_DECLARED_CPU_STRATUM''))
      | PList vs \<Rightarrow> guardR (list_all hashable vs) TypeError (Inr (Some vs, []))
      | _ \<Rightarrow> Inr (None, [''MALFORMED_DECLARED_CPU_STRATUM'']))"

definition outside :: "pyval list option \<Rightarrow> int list \<Rightarrow> nat" where
  "outside declared cs =
     (case declared of None \<Rightarrow> 0 | Some vs \<Rightarrow> length (filter (\<lambda>c. \<not> list_ex (\<lambda>v. py_eq v (PInt c)) vs) cs))"

section \<open>Checks of the records\<close>

definition c3_stamp_errors :: "obs_rec list \<Rightarrow> string list" where
  "c3_stamp_errors rs =
     (let vs = map (\<lambda>r. obs_get r ''timestamp_monotonic_ns'') rs in
      if \<not> list_all is_int_strict vs then [''NON_INTEGER_MONOTONIC_TIMESTAMP'']
      else flag (list_ex (\<lambda>(a, b). int_of b < int_of a) (pairs vs)) ''MONOTONIC_TIMESTAMP_REGRESSION'')"

text \<open>The expected identity and the message when it cannot be read; other exceptions go through.\<close>

definition c3_expected ::
  "string \<Rightarrow> (obs_exc, (string \<times> pyval) list) res \<Rightarrow> (obs_exc, (string \<times> pyval) list \<times> string list) res" where
  "c3_expected kind canon =
     (let lab = ''CANONICAL_IDENTITY_UNAVAILABLE_'' in
      case canon of
        Inr ids \<Rightarrow> Inr (ids, [])
      | Inl Unreadable_File \<Rightarrow> Inr ([], [lab @ kind])
      | Inl Bad_Json \<Rightarrow> Inr ([], [lab @ ''JSONDecodeError''])
      | Inl (Raised KeyError) \<Rightarrow> Inr ([], [lab @ ''KeyError''])
      | Inl e \<Rightarrow> Inl e)"

definition entry_ok :: "obs_rec \<Rightarrow> string \<times> pyval \<Rightarrow> bool" where
  "entry_ok observed kw =
     (case kw of (k, wanted) \<Rightarrow> (case map_of observed k of
        Some (PDict e) \<Rightarrow> obs_get e ''status'' = PStr ''AVAILABLE'' \<and> py_eq (obs_get e ''value'') wanted
      | _ \<Rightarrow> False))"

definition c3_identity_errors :: "obs_rec \<Rightarrow> (string \<times> pyval) list \<Rightarrow> string list" where
  "c3_identity_errors metadata expected =
     (let observed = (case dict_at metadata ''metadata'' of None \<Rightarrow> metadata | Some m \<Rightarrow> m) in
      concat (map (\<lambda>kw. flag (\<not> entry_ok observed kw) (''IDENTITY_MISMATCH_OR_UNAVAILABLE_'' @ fst kw)) expected))"

definition c3_checks ::
  "(pyval \<Rightarrow> string) \<Rightarrow> string \<Rightarrow> (obs_exc, (string \<times> pyval) list) res \<Rightarrow> obs_rec list \<Rightarrow> (obs_exc, string list) res" where
  "c3_checks show kind canon rs =
     (case c3_meta rs of (metadata, interfaces) \<Rightarrow>
        bindR (pyE (obs_sequence_errors rs)) (\<lambda>e1.
        bindR (pyE (obs_trial_errors rs)) (\<lambda>e2.
        bindR (c3_expected kind canon) (\<lambda>(expected, e3).
        bindR (pyE (selection_errors show (bound_sources interfaces) (declared_sources metadata))) (\<lambda>e4.
          Inr (e1 @ e2 @ c3_stamp_errors rs @
               flag (length (meta_records rs) \<noteq> 1) ''METADATA_RECORD_COUNT_NOT_ONE'' @ e3 @
               c3_identity_errors metadata expected @
               heartbeat_errors (heartbeats rs) (gaps_between (int_stamps is_int_strict (heartbeats rs))) @ e4 @
               flag (thermal_sources interfaces = []) ''THERMAL_ZONE_SOURCE_MISSING'' @
               flag (frequency_sources interfaces = []) ''CPUFREQ_SOURCE_MISSING''))))))"

section \<open>What was bound\<close>

definition status_ok :: "obs_rec \<Rightarrow> bool" where "status_ok d = (obs_get d ''status'' = PStr ''AVAILABLE'')"

definition zone_ok :: "pyval \<Rightarrow> bool" where
  "zone_ok v = (case v of
     PDict z \<Rightarrow> (case (dict_at z ''type'', dict_at z ''temperature'') of
         (Some ty, Some t) \<Rightarrow> status_ok ty \<and> status_ok t \<and> truthy (obs_get z ''trip_points'')
       | _ \<Rightarrow> False)
   | _ \<Rightarrow> False)"

definition thermal_bound :: "obs_rec \<Rightarrow> bool" where
  "thermal_bound i =
     (let zones = sub_dict i ''thermal_zones'' in zones \<noteq> [] \<and> thermal_sources i \<noteq> [] \<and> list_all (\<lambda>(k, v). zone_ok v) zones)"

definition frequency_bound :: "obs_rec \<Rightarrow> bool" where
  "frequency_bound i = list_ex (\<lambda>(k, d). ends_with k '':effective_freq'' \<and> status_ok d) (frequency_sources i)"

definition cpu_bound :: "obs_rec \<Rightarrow> bool" where
  "cpu_bound i = (case map_of (static_sources i) ''trial_cpu'' of None \<Rightarrow> False | Some d \<Rightarrow> status_ok d)"

text \<open>The zones whose temperature could be read; a temperature that is not a dict has no \<open>get\<close>.\<close>

definition mapped_zones :: "obs_rec \<Rightarrow> (pyexc, nat) res" where
  "mapped_zones zones =
     bindR (mapR (\<lambda>(k, z). py_get_default (case map_of z ''temperature'' of None \<Rightarrow> PDict [] | Some v \<Rightarrow> v) ''status'' PNone)
       (dict_items zones)) (\<lambda>vs. Inr (length (filter (\<lambda>v. v = PStr ''AVAILABLE'') vs)))"

section \<open>The verdict\<close>

datatype c3_stat = C3_Blocked | C3_Observable | C3_Partial
datatype c3_class = C3_Present | C3_Absent | C3_Unknown

record c3_result =
  c3_trial :: pyval
  c3_status :: c3_stat
  c3_classification :: c3_class
  c3_valid :: bool
  c3_interval :: pyval
  c3_samples :: "nat \<times> nat \<times> nat \<times> nat"
  c3_zone_counts :: "nat \<times> nat \<times> nat"
  c3_max_gap :: "int option"
  c3_mean :: "int option"
  c3_percentiles :: "int option \<times> int option \<times> int option"
  c3_excursions :: nat
  c3_clamps :: nat
  c3_migrations :: "nat \<times> nat"
  c3_sources :: "string list \<times> string list"
  c3_cpu_source :: bool
  c3_errors :: "string list"

text \<open>A recording without records has none of the fields but these.\<close>

definition c3_empty :: "string list \<Rightarrow> c3_result" where
  "c3_empty errs = \<lparr>c3_trial = PNone, c3_status = C3_Blocked, c3_classification = C3_Unknown, c3_valid = False,
     c3_interval = PNone, c3_samples = (0, 0, 0, 0), c3_zone_counts = (0, 0, 0), c3_max_gap = None, c3_mean = None,
     c3_percentiles = (None, None, None), c3_excursions = 0, c3_clamps = 0, c3_migrations = (0, 0),
     c3_sources = ([], []), c3_cpu_source = False, c3_errors = (if errs = [] then [''NO_RECORDS''] else errs)\<rparr>"

definition complete_reading :: "obs_rec list \<Rightarrow> obs_rec \<Rightarrow> reading list \<Rightarrow> bool" where
  "complete_reading hs i xs =
     (thermal_bound i \<and> frequency_bound i \<and> cpu_bound i \<and> temps_of xs \<noteq> [] \<and> freqs_of xs \<noteq> [] \<and>
      length hs \<le> length (cpus_of xs))"

definition status_of :: "obs_rec \<Rightarrow> string list \<Rightarrow> bool \<Rightarrow> c3_stat" where
  "status_of i errs full =
     (if list_ex (\<lambda>e. prefix ''IDENTITY_'' e) errs \<or> (thermal_sources i = [] \<and> frequency_sources i = []) then C3_Blocked
      else if full then C3_Observable else C3_Partial)"

definition classify :: "bool \<Rightarrow> bool \<Rightarrow> bool \<Rightarrow> c3_class" where
  "classify clean positive full =
     (if clean \<and> positive then C3_Present else if full then C3_Absent else C3_Unknown)"

definition c3_judge ::
  "obs_rec list \<Rightarrow> string list \<Rightarrow> reading list \<Rightarrow> nat \<times> nat \<times> nat \<Rightarrow> int option \<Rightarrow> nat \<Rightarrow> c3_result" where
  "c3_judge rs errs xs counts mean mapped =
     (case (c3_meta rs, counts) of ((metadata, i), (exc, cl, out)) \<Rightarrow>
        let hs = heartbeats rs; stamps = int_stamps is_int_strict hs; gs = gaps_between stamps;
            full = (errs = [] \<and> complete_reading hs i xs)
        in \<lparr>c3_trial = (if length (keys_of (map (\<lambda>r. obs_get r ''trial_id'') rs)) = 1 then obs_get (hd rs) ''trial_id'' else PNone),
            c3_status = status_of i errs full,
            c3_classification = classify (errs = [] \<and> stamps \<noteq> []) (0 < exc \<or> 0 < cl \<or> 0 < out) full,
            c3_valid = (errs = []), c3_interval = obs_get metadata ''requested_interval_ms'',
            c3_samples = (length hs, length (temps_of xs), length (freqs_of xs), length (cpus_of xs)),
            c3_zone_counts = (length (sub_dict i ''thermal_zones''), mapped, length (sub_dict i ''cpufreq_policies'')),
            c3_max_gap = max_opt gs, c3_mean = mean,
            c3_percentiles = (obs_percentile gs (1 / 2), obs_percentile gs (95 / 100), obs_percentile gs (99 / 100)),
            c3_excursions = exc, c3_clamps = cl, c3_migrations = (migrations (cpus_of xs), out),
            c3_sources = (sort (map fst (thermal_sources i)), sort (map fst (frequency_sources i))),
            c3_cpu_source = cpu_bound i, c3_errors = errs\<rparr>)"

definition c3_analyze ::
  "(pyval \<Rightarrow> string) \<Rightarrow> string \<Rightarrow> (obs_exc, (string \<times> pyval) list) res \<Rightarrow> obs_rec list \<Rightarrow> string list \<Rightarrow>
   (obs_exc, c3_result) res" where
  "c3_analyze show kind canon rs parse_errors =
     (if rs = [] then Inr (c3_empty parse_errors)
      else case c3_meta rs of (metadata, i) \<Rightarrow>
        bindR (c3_checks show kind canon rs) (\<lambda>before.
        bindR (pyE (mapR (read_source show rs) (selected (bound_sources i) (declared_sources metadata)))) (\<lambda>parts.
        bindR (pyE (critical_thresholds show (sub_dict i ''thermal_zones''))) (\<lambda>thresholds.
        bindR (pyE (declared_cpus metadata)) (\<lambda>(declared, e5).
          let xs = concat (map snd parts); out = outside declared (cpus_of xs);
              errs = parse_errors @ before @ concat (map fst parts) @ e5 @ flag (0 < out) ''CPU_MIGRATION_OUTSIDE_DECLARED_STRATUM'';
              counts = (excursions thresholds (temps_of xs),
                        clamps (initial_max show (sub_dict i ''cpufreq_policies'')) (freqs_of xs), out)
          in bindR (pyE (mapped_zones (sub_dict i ''thermal_zones''))) (\<lambda>mapped.
             bindR (pyE (mean_gap (gaps_between (int_stamps is_int_strict (heartbeats rs))))) (\<lambda>mean.
               Inr (c3_judge rs errs xs counts mean mapped))))))))"

text \<open>\<open>schema\<close> is the result of reading the schema document; \<open>None\<close> a recording that cannot be read.\<close>

definition c3_main ::
  "(string \<Rightarrow> pyval option) \<Rightarrow> (pyval \<Rightarrow> string) \<Rightarrow> string \<Rightarrow> (obs_exc, string) res \<Rightarrow> string option \<Rightarrow> (obs_exc, c3_result) res" where
  "c3_main loads show kind schema content =
     (case content of None \<Rightarrow> Inl Unreadable_File
      | Some t \<Rightarrow> (case all_lines (c3_line loads show) t of (rs, errs) \<Rightarrow>
          c3_analyze show kind (canonical_identity loads schema) rs errs))"

definition c3_exit :: "c3_result \<Rightarrow> nat" where
  "c3_exit r = (if c3_valid r \<and> c3_status r \<noteq> C3_Blocked then 0 else 1)"

end
