(* ===== verification/C3_Obs_Properties.thy ===== *)
theory C3_Obs_Properties
  imports C3_Obs C2_Obs_Properties
begin

text \<open>
  What the verdicts of \<open>tools/rmg-eze4/c3_obs_01_analyze.py\<close> mean: which recordings have valid
  coverage, and what decides between presence and absence of a thermal or frequency event.
\<close>

section \<open>A recording without gaps\<close>

definition c3_observed :: "obs_rec \<Rightarrow> obs_rec" where
  "c3_observed metadata = (case dict_at metadata ''metadata'' of None \<Rightarrow> metadata | Some m \<Rightarrow> m)"

definition c3_selected :: "obs_rec list \<Rightarrow> sources" where
  "c3_selected rs = selected (bound_sources (snd (c3_meta rs))) (declared_sources (fst (c3_meta rs)))"

text \<open>A source with at least as many reads as there are heartbeats, all available and well formed.
  The count is over the whole recording: the analysis does not ask when a source was read.\<close>

definition c3_source_ok :: "(pyval \<Rightarrow> string) \<Rightarrow> obs_rec list \<Rightarrow> string \<times> obs_rec \<Rightarrow> bool" where
  "c3_source_ok show rs sd \<longleftrightarrow> (case sd of (src, d) \<Rightarrow>
     length (heartbeats rs) \<le> length (raw_reads show src rs) \<and>
     (\<forall>r \<in> set (raw_reads show src rs). available_rec r \<and> (\<exists>xs. read_value show src d r = Inr (True, xs))))"

definition c3_reading :: "(pyval \<Rightarrow> string) \<Rightarrow> obs_rec list \<Rightarrow> reading \<Rightarrow> bool" where
  "c3_reading show rs x \<longleftrightarrow> (\<exists>(src, d) \<in> set (c3_selected rs). \<exists>r \<in> set (raw_reads show src rs). \<exists>xs.
     read_value show src d r = Inr (True, xs) \<and> x \<in> set xs)"

text \<open>The declared CPUs are well formed, and the trial ran on no other.\<close>

definition c3_in_stratum :: "(pyval \<Rightarrow> string) \<Rightarrow> obs_rec list \<Rightarrow> bool" where
  "c3_in_stratum show rs \<longleftrightarrow> (\<exists>declared. declared_cpus (fst (c3_meta rs)) = Inr (declared, []) \<and>
     (\<forall>vs c. declared = Some vs \<longrightarrow> c3_reading show rs (Cpu c) \<longrightarrow> (\<exists>v \<in> set vs. py_eq v (PInt c))))"

definition c3_beating :: "obs_rec list \<Rightarrow> bool" where
  "c3_beating rs \<longleftrightarrow>
     2 \<le> length (heartbeats rs) \<and> (\<forall>(a, b) \<in> set (pairs (map stamp (heartbeats rs))). b - a \<le> 500000000) \<and>
     (\<forall>r \<in> set (heartbeats rs). available_rec r)"

definition c3_bound :: "obs_rec list \<Rightarrow> bool" where
  "c3_bound rs \<longleftrightarrow> (case c3_meta rs of (metadata, i) \<Rightarrow>
     (\<forall>v \<in> set (declared_sources metadata). is_bound (bound_sources i) v) \<and>
     thermal_sources i \<noteq> [] \<and> frequency_sources i \<noteq> [])"

definition c3_clean :: "(pyval \<Rightarrow> string) \<Rightarrow> (string \<times> pyval) list \<Rightarrow> obs_rec list \<Rightarrow> bool" where
  "c3_clean show expected rs \<longleftrightarrow> rs \<noteq> [] \<and> obs_ordered rs \<and>
     (\<forall>r \<in> set rs. is_int_strict (obs_get r ''timestamp_monotonic_ns'')) \<and> length (meta_records rs) = 1 \<and>
     (\<forall>kw \<in> set expected. entry_ok (c3_observed (fst (c3_meta rs))) kw) \<and> c3_beating rs \<and> c3_bound rs \<and>
     (\<forall>sd \<in> set (c3_selected rs). c3_source_ok show rs sd) \<and> c3_in_stratum show rs"

section \<open>The checks find nothing exactly on such recordings\<close>

lemma is_int_strict_int: "is_int_strict v \<Longrightarrow> is_int v"
  by (cases v) simp_all

lemma c3_stamp_errors_Nil:
  "c3_stamp_errors rs = [] \<longleftrightarrow> (\<forall>r \<in> set rs. is_int_strict (obs_get r ''timestamp_monotonic_ns'')) \<and> stamp_errors rs = []"
  by (auto simp: c3_stamp_errors_def stamp_errors_def Let_def list_all_iff is_int_strict_int)

lemma c3_expected_Nil: "c3_expected kind canon = Inr (expected, []) \<longleftrightarrow> canon = Inr expected"
  by (auto simp: c3_expected_def Let_def split: sum.splits obs_exc.splits pyexc.splits)

lemma selection_errors_Nil: "selection_errors show bs vs = Inr [] \<Longrightarrow> \<forall>v \<in> set vs. is_bound bs v"
  by (auto simp: selection_errors_def catR_Nil_iff guardR_Inr_iff)

lemma selection_errors_eq: "selection_errors show bs vs = Inr es \<Longrightarrow> es = [] \<longleftrightarrow> (\<forall>v \<in> set vs. is_bound bs v)"
  unfolding selection_errors_def by (induction vs arbitrary: es) (auto simp: bindR_Inr_iff guardR_Inr_iff)

lemma c3_checks_Nil:
  assumes run: "c3_checks show kind canon rs = Inr before" and ne: "rs \<noteq> []"
  shows "before = [] \<longleftrightarrow> (\<exists>expected. canon = Inr expected \<and> obs_ordered rs \<and>
     (\<forall>r \<in> set rs. is_int_strict (obs_get r ''timestamp_monotonic_ns'')) \<and> length (meta_records rs) = 1 \<and>
     (\<forall>kw \<in> set expected. entry_ok (c3_observed (fst (c3_meta rs))) kw) \<and> c3_beating rs \<and> c3_bound rs)"
proof -
  obtain metadata i where meta: "c3_meta rs = (metadata, i)" by (cases "c3_meta rs")
  from run [unfolded c3_checks_def meta] obtain e1 e2 expected e3 e4
    where e: "obs_sequence_errors rs = Inr e1" "obs_trial_errors rs = Inr e2"
      and ex: "c3_expected kind canon = Inr (expected, e3)"
      and sel: "selection_errors show (bound_sources i) (declared_sources metadata) = Inr e4"
      and before: "before = e1 @ e2 @ c3_stamp_errors rs @
         flag (length (meta_records rs) \<noteq> 1) ''METADATA_RECORD_COUNT_NOT_ONE'' @ e3 @
         c3_identity_errors metadata expected @
         heartbeat_errors (heartbeats rs) (gaps_between (int_stamps is_int_strict (heartbeats rs))) @ e4 @
         flag (thermal_sources i = []) ''THERMAL_ZONE_SOURCE_MISSING'' @
         flag (frequency_sources i = []) ''CPUFREQ_SOURCE_MISSING''"
    by (auto simp: bindR_Inr_iff)
  have e3: "e3 = [] \<longleftrightarrow> canon = Inr expected" using ex c3_expected_Nil [of kind canon expected] by auto
  have id: "c3_identity_errors metadata expected = [] \<longleftrightarrow> (\<forall>kw \<in> set expected. entry_ok (c3_observed metadata) kw)"
    by (auto simp: c3_identity_errors_def c3_observed_def Let_def)
  have beat: "\<forall>r \<in> set rs. is_int_strict (obs_get r ''timestamp_monotonic_ns'') \<Longrightarrow>
      heartbeat_errors (heartbeats rs) (gaps_between (int_stamps is_int_strict (heartbeats rs))) = [] \<longleftrightarrow> c3_beating rs"
    unfolding c3_beating_def by (rule heartbeats_clean)
  have bound: "e4 = [] \<and> thermal_sources i \<noteq> [] \<and> frequency_sources i \<noteq> [] \<longleftrightarrow> c3_bound rs"
    by (simp add: c3_bound_def meta selection_errors_eq [OF sel])
  have "before = [] \<longleftrightarrow> canon = Inr expected \<and> obs_ordered rs \<and>
     (\<forall>r \<in> set rs. is_int_strict (obs_get r ''timestamp_monotonic_ns'')) \<and> length (meta_records rs) = 1 \<and>
     (\<forall>kw \<in> set expected. entry_ok (c3_observed metadata) kw) \<and> c3_beating rs \<and> c3_bound rs"
    unfolding before append_is_Nil_conv flag_Nil_iff c3_stamp_errors_Nil id not_not
    using order_errors_Nil [OF e ne] e3 beat bound by blast
  also have "\<dots> \<longleftrightarrow> (\<exists>x. canon = Inr x \<and> obs_ordered rs \<and>
     (\<forall>r \<in> set rs. is_int_strict (obs_get r ''timestamp_monotonic_ns'')) \<and> length (meta_records rs) = 1 \<and>
     (\<forall>kw \<in> set x. entry_ok (c3_observed metadata) kw) \<and> c3_beating rs \<and> c3_bound rs)"
    using ex by (auto simp: c3_expected_def split: sum.splits)
  finally show ?thesis by (simp add: meta)
qed

section \<open>Readings\<close>

lemma read_record_Nil:
  "read_record show src d r = Inr ([], xs) \<longleftrightarrow> available_rec r \<and> read_value show src d r = Inr (True, xs)"
  by (auto simp: read_record_def available_rec_def bindR_Inr_iff)

lemma read_records_Nil:
  assumes "mapR (read_record show src d) rs = Inr ps"
  shows "concat (map fst ps) = [] \<longleftrightarrow> (\<forall>r \<in> set rs. available_rec r \<and> (\<exists>xs. read_value show src d r = Inr (True, xs)))"
    and "concat (map fst ps) = [] \<Longrightarrow> x \<in> set (concat (map snd ps)) \<longleftrightarrow>
      (\<exists>r \<in> set rs. \<exists>xs. read_value show src d r = Inr (True, xs) \<and> x \<in> set xs)"
proof -
  have "(concat (map fst ps) = [] \<longleftrightarrow> (\<forall>r \<in> set rs. available_rec r \<and> (\<exists>xs. read_value show src d r = Inr (True, xs)))) \<and>
    (concat (map fst ps) = [] \<longrightarrow> (x \<in> set (concat (map snd ps)) \<longleftrightarrow>
      (\<exists>r \<in> set rs. \<exists>xs. read_value show src d r = Inr (True, xs) \<and> x \<in> set xs)))"
    using assms
  proof (induction rs arbitrary: ps)
    case (Cons r rs)
    then obtain es xs qs where r: "read_record show src d r = Inr (es, xs)" and rest: "mapR (read_record show src d) rs = Inr qs"
      and ps: "ps = (es, xs) # qs" by (auto simp: bindR_Inr_iff)
    have "es = [] \<longleftrightarrow> available_rec r \<and> (\<exists>xs. read_value show src d r = Inr (True, xs))"
      using r by (auto simp: read_record_def available_rec_def bindR_Inr_iff split: if_splits)
    moreover have "es = [] \<Longrightarrow> read_value show src d r = Inr (True, xs)" using r read_record_Nil by blast
    ultimately show ?case using Cons.IH [OF rest] unfolding ps by auto
  qed simp
  then show "concat (map fst ps) = [] \<longleftrightarrow> (\<forall>r \<in> set rs. available_rec r \<and> (\<exists>xs. read_value show src d r = Inr (True, xs)))"
    and "concat (map fst ps) = [] \<Longrightarrow> x \<in> set (concat (map snd ps)) \<longleftrightarrow>
      (\<exists>r \<in> set rs. \<exists>xs. read_value show src d r = Inr (True, xs) \<and> x \<in> set xs)" by blast+
qed

lemma read_source_Nil:
  assumes "read_source show rs (src, d) = Inr (es, xs)"
  shows "es = [] \<longleftrightarrow> c3_source_ok show rs (src, d)"
    and "es = [] \<Longrightarrow> x \<in> set xs \<longleftrightarrow> (\<exists>r \<in> set (raw_reads show src rs). \<exists>ys. read_value show src d r = Inr (True, ys) \<and> x \<in> set ys)"
proof -
  from assms obtain ps where ps: "mapR (read_record show src d) (raw_reads show src rs) = Inr ps"
    and es: "es = flag (length (raw_reads show src rs) < length (heartbeats rs)) (''SOURCE_INCOMPLETE_COVERAGE_'' @ src) @ concat (map fst ps)"
    and xs: "xs = concat (map snd ps)" by (auto simp: read_source_def bindR_Inr_iff)
  show "es = [] \<longleftrightarrow> c3_source_ok show rs (src, d)"
    unfolding es c3_source_ok_def append_is_Nil_conv flag_Nil_iff read_records_Nil(1) [OF ps] by auto
  show "es = [] \<Longrightarrow> x \<in> set xs \<longleftrightarrow> (\<exists>r \<in> set (raw_reads show src rs). \<exists>ys. read_value show src d r = Inr (True, ys) \<and> x \<in> set ys)"
    using read_records_Nil(2) [OF ps, of x] unfolding es xs append_is_Nil_conv by blast
qed

lemma read_sources_Nil:
  assumes "mapR (read_source show rs) sds = Inr ps"
  shows "(concat (map fst ps) = [] \<longleftrightarrow> (\<forall>sd \<in> set sds. c3_source_ok show rs sd)) \<and>
    (concat (map fst ps) = [] \<longrightarrow> (\<forall>x. x \<in> set (concat (map snd ps)) \<longleftrightarrow>
      (\<exists>(src, d) \<in> set sds. \<exists>r \<in> set (raw_reads show src rs). \<exists>ys. read_value show src d r = Inr (True, ys) \<and> x \<in> set ys)))"
  using assms
proof (induction sds arbitrary: ps)
  case (Cons sd sds)
  obtain src d where sd: "sd = (src, d)" by (cases sd)
  from Cons.prems obtain es xs qs where r: "read_source show rs (src, d) = Inr (es, xs)"
    and rest: "mapR (read_source show rs) sds = Inr qs" and ps: "ps = (es, xs) # qs"
    by (auto simp: bindR_Inr_iff sd)
  show ?case using Cons.IH [OF rest] read_source_Nil [OF r] unfolding ps sd by auto
qed simp

lemma cpus_of_set: "c \<in> set (cpus_of xs) \<longleftrightarrow> Cpu c \<in> set xs"
proof
  show "c \<in> set (cpus_of xs) \<Longrightarrow> Cpu c \<in> set xs" by (auto simp: cpus_of_def split: reading.splits)
  show "Cpu c \<in> set xs \<Longrightarrow> c \<in> set (cpus_of xs)" by (force simp: cpus_of_def)
qed

lemma outside_0: "outside declared cs = 0 \<longleftrightarrow> (\<forall>vs. declared = Some vs \<longrightarrow> (\<forall>c \<in> set cs. \<exists>v \<in> set vs. py_eq v (PInt c)))"
  by (cases declared) (auto simp: outside_def filter_empty_conv list_ex_iff)

section \<open>The verdicts\<close>

text \<open>What a run on a recording with records computes.\<close>

lemma c3_analyze_cases:
  assumes "c3_analyze show kind canon rs errs = Inr r" and "rs \<noteq> []"
  obtains before parts thresholds declared e5 mapped mean xs out es where
    "c3_checks show kind canon rs = Inr before" "mapR (read_source show rs) (c3_selected rs) = Inr parts"
    "declared_cpus (fst (c3_meta rs)) = Inr (declared, e5)" "xs = concat (map snd parts)"
    "out = outside declared (cpus_of xs)"
    "es = errs @ before @ concat (map fst parts) @ e5 @ flag (0 < out) ''CPU_MIGRATION_OUTSIDE_DECLARED_STRATUM''"
    "r = c3_judge rs es xs (excursions thresholds (temps_of xs),
       clamps (initial_max show (sub_dict (snd (c3_meta rs)) ''cpufreq_policies'')) (freqs_of xs), out) mean mapped"
    "critical_thresholds show (sub_dict (snd (c3_meta rs)) ''thermal_zones'') = Inr thresholds"
proof -
  obtain metadata i where meta: "c3_meta rs = (metadata, i)" by (cases "c3_meta rs")
  show thesis
    using assms that
    by (auto simp: c3_analyze_def c3_selected_def meta Let_def bindR_Inr_iff split_def
        simp del: append_is_Nil_conv concat_eq_Nil_conv)
qed

lemma c3_valid_records:
  assumes run: "c3_analyze show kind canon rs errs = Inr r"
  shows "c3_valid r \<longleftrightarrow> errs = [] \<and> (\<exists>expected. canon = Inr expected \<and> c3_clean show expected rs)"
proof (cases "rs = []")
  case True
  with run show ?thesis by (auto simp: c3_analyze_def c3_empty_def c3_clean_def)
next
  case False
  from c3_analyze_cases [OF run False] obtain before parts thresholds declared e5 mapped mean xs out es where
    checks: "c3_checks show kind canon rs = Inr before" and parts: "mapR (read_source show rs) (c3_selected rs) = Inr parts"
    and dec: "declared_cpus (fst (c3_meta rs)) = Inr (declared, e5)" and xs: "xs = concat (map snd parts)"
    and out: "out = outside declared (cpus_of xs)"
    and es: "es = errs @ before @ concat (map fst parts) @ e5 @ flag (0 < out) ''CPU_MIGRATION_OUTSIDE_DECLARED_STRATUM''"
    and r: "r = c3_judge rs es xs (excursions thresholds (temps_of xs),
       clamps (initial_max show (sub_dict (snd (c3_meta rs)) ''cpufreq_policies'')) (freqs_of xs), out) mean mapped"
    by metis
  have v: "c3_valid r \<longleftrightarrow> es = []" unfolding r by (simp add: c3_judge_def Let_def split_def)
  have stratum: "concat (map fst parts) = [] \<Longrightarrow> e5 = [] \<and> out = 0 \<longleftrightarrow> c3_in_stratum show rs"
  proof -
    assume ok: "concat (map fst parts) = []"
    have "Cpu c \<in> set xs \<longleftrightarrow> c3_reading show rs (Cpu c)" for c
      using read_sources_Nil [OF parts] ok unfolding c3_reading_def xs by blast
    then show "e5 = [] \<and> out = 0 \<longleftrightarrow> c3_in_stratum show rs"
      using dec by (auto simp: c3_in_stratum_def out outside_0 cpus_of_set)
  qed
  show ?thesis
    unfolding v es append_is_Nil_conv flag_Nil_iff c3_checks_Nil [OF checks False] c3_clean_def
    using stratum read_sources_Nil [OF parts] False by auto
qed

text \<open>A temperature at or above a critical trip point of its zone, or a lowered frequency limit.\<close>

definition c3_event :: "(pyval \<Rightarrow> string) \<Rightarrow> obs_rec list \<Rightarrow> bool" where
  "c3_event show rs \<longleftrightarrow> (let i = snd (c3_meta rs) in
     (\<exists>thresholds src t k limit. critical_thresholds show (sub_dict i ''thermal_zones'') = Inr thresholds \<and>
        c3_reading show rs (Temp src t) \<and> (k, limit) \<in> set thresholds \<and> prefix (zone_of src @ '':'') k \<and> f_le limit t) \<or>
     (\<exists>src f policy rest b. c3_reading show rs (Freq src f) \<and>
        (\<exists>p. split_char CHR '':'' src = p # policy # ''max_freq'' # rest) \<and>
        map_of (initial_max show (sub_dict i ''cpufreq_policies'')) policy = Some b \<and> f < b))"

lemma temps_of_set: "(s, t) \<in> set (temps_of xs) \<longleftrightarrow> Temp s t \<in> set xs"
proof
  show "(s, t) \<in> set (temps_of xs) \<Longrightarrow> Temp s t \<in> set xs" by (auto simp: temps_of_def split: reading.splits)
  show "Temp s t \<in> set xs \<Longrightarrow> (s, t) \<in> set (temps_of xs)" by (force simp: temps_of_def)
qed

lemma freqs_of_set: "(s, f) \<in> set (freqs_of xs) \<longleftrightarrow> Freq s f \<in> set xs"
proof
  show "(s, f) \<in> set (freqs_of xs) \<Longrightarrow> Freq s f \<in> set xs" by (auto simp: freqs_of_def split: reading.splits)
  show "Freq s f \<in> set xs \<Longrightarrow> (s, f) \<in> set (freqs_of xs)" by (force simp: freqs_of_def)
qed

lemma excursions_pos: "0 < excursions ths ts \<longleftrightarrow>
    (\<exists>(src, t) \<in> set ts. \<exists>(k, limit) \<in> set ths. prefix (zone_of src @ '':'') k \<and> f_le limit t)"
  by (auto simp: excursions_def filter_empty_conv list_ex_iff)

lemma third_part: "3 \<le> length ps \<and> ps ! 2 = x \<and> P (ps ! 1) \<longleftrightarrow> (\<exists>p q rest. ps = p # q # x # rest \<and> P q)"
  by (cases ps; cases "tl ps"; cases "tl (tl ps)") (auto simp: numeral_3_eq_3 numeral_2_eq_2)

lemma clamps_pos: "0 < clamps base fs \<longleftrightarrow>
    (\<exists>(src, f) \<in> set fs. \<exists>p policy rest b. split_char CHR '':'' src = p # policy # ''max_freq'' # rest \<and> map_of base policy = Some b \<and> f < b)"
proof -
  have one: "(3 \<le> length ps \<and> ps ! 2 = ''max_freq'' \<and> (case map_of base (ps ! 1) of None \<Rightarrow> False | Some b \<Rightarrow> f < b)) \<longleftrightarrow>
      (\<exists>p policy rest b. ps = p # policy # ''max_freq'' # rest \<and> map_of base policy = Some b \<and> f < b)" for ps f
    using third_part [of ps "''max_freq''" "\<lambda>q. case map_of base q of None \<Rightarrow> False | Some b \<Rightarrow> f < b"]
    by (auto split: option.splits)
  show ?thesis unfolding clamps_def Let_def one by (auto simp: filter_empty_conv split_def)
qed

lemma c3_classes:
  assumes run: "c3_analyze show kind canon rs errs = Inr r"
  shows "(c3_classification r = C3_Present \<longleftrightarrow> c3_valid r \<and> c3_event show rs) \<and>
    (c3_classification r = C3_Absent \<longleftrightarrow> c3_status r = C3_Observable \<and> \<not> c3_event show rs) \<and>
    (0 < snd (c3_migrations r) \<longrightarrow> c3_classification r = C3_Unknown \<and> c3_exit r = 1)"
proof (cases "rs = []")
  case True
  with run show ?thesis by (auto simp: c3_analyze_def c3_empty_def)
next
  case False
  from c3_analyze_cases [OF run False] obtain before parts thresholds declared e5 mapped mean xs out es where
    checks: "c3_checks show kind canon rs = Inr before" and parts: "mapR (read_source show rs) (c3_selected rs) = Inr parts"
    and xs: "xs = concat (map snd parts)"
    and es: "es = errs @ before @ concat (map fst parts) @ e5 @ flag (0 < out) ''CPU_MIGRATION_OUTSIDE_DECLARED_STRATUM''"
    and r: "r = c3_judge rs es xs (excursions thresholds (temps_of xs),
       clamps (initial_max show (sub_dict (snd (c3_meta rs)) ''cpufreq_policies'')) (freqs_of xs), out) mean mapped"
    and th: "critical_thresholds show (sub_dict (snd (c3_meta rs)) ''thermal_zones'') = Inr thresholds"
    by metis
  let ?exc = "excursions thresholds (temps_of xs)"
  let ?cl = "clamps (initial_max show (sub_dict (snd (c3_meta rs)) ''cpufreq_policies'')) (freqs_of xs)"
  have event: "0 < ?exc \<or> 0 < ?cl \<longleftrightarrow> c3_event show rs" if "es = []"
  proof -
    from that have "concat (map fst parts) = []" by (simp add: es)
    with read_sources_Nil [OF parts] have "x \<in> set xs \<longleftrightarrow> c3_reading show rs x" for x
      unfolding c3_reading_def xs by blast
    then show ?thesis
      unfolding c3_event_def Let_def excursions_pos clamps_pos th by (fastforce simp: temps_of_set freqs_of_set)
  qed
  have stamps: "int_stamps is_int_strict (heartbeats rs) \<noteq> []" and out: "out = 0" if "es = []"
  proof -
    from that have "before = []" and out0: "out = 0" by (simp_all add: es)
    with c3_checks_Nil [OF checks False] have "c3_beating rs" "\<forall>r \<in> set rs. is_int_strict (obs_get r ''timestamp_monotonic_ns'')" by auto
    then obtain h where h: "h \<in> set (heartbeats rs)" by (cases "heartbeats rs") (auto simp: c3_beating_def)
    then have "h \<in> set rs" by (simp add: heartbeats_def)
    with h \<open>\<forall>r \<in> set rs. _ r\<close> have "stamp h \<in> set (int_stamps is_int_strict (heartbeats rs))"
      by (auto simp: int_stamps_def stamp_def)
    then show "int_stamps is_int_strict (heartbeats rs) \<noteq> []" by auto
    show "out = 0" by (rule out0)
  qed
  let ?full = "es = [] \<and> complete_reading (heartbeats rs) (snd (c3_meta rs)) xs"
  have fields: "c3_classification r = classify (es = [] \<and> int_stamps is_int_strict (heartbeats rs) \<noteq> []) (0 < ?exc \<or> 0 < ?cl \<or> 0 < out) ?full"
    "c3_status r = status_of (snd (c3_meta rs)) es ?full" "c3_valid r \<longleftrightarrow> es = []" "snd (c3_migrations r) = out"
    unfolding r by (simp_all add: c3_judge_def Let_def split_def)
  have obs: "c3_status r = C3_Observable \<longleftrightarrow> ?full"
    unfolding fields status_of_def by (auto simp: complete_reading_def thermal_bound_def Let_def)
  show ?thesis
  proof (cases "es = []")
    case True
    show ?thesis
      unfolding fields(1,3,4) obs classify_def using event [OF True] stamps [OF True] out [OF True] True by auto
  next
    case F: False
    then show ?thesis unfolding obs c3_exit_def unfolding fields(1,3,4) classify_def by simp
  qed
qed

section \<open>An example\<close>

definition c3_point :: "int \<Rightarrow> int \<Rightarrow> string \<Rightarrow> string \<Rightarrow> pyval \<Rightarrow> obs_rec" where
  "c3_point n t s m v = [(''schema_version'', PStr c3_schema), (''trial_id'', PStr ''T1''), (''sequence'', PInt n),
     (''timestamp_monotonic_ns'', PInt t), (''timestamp_boottime_seconds'', PNone), (''timestamp_wall_utc'', PNone),
     (''source'', PStr s), (''measurement'', PStr m), (''value'', v), (''read_status'', PStr ''AVAILABLE''),
     (''read_duration_ns'', PInt 1000)]"

definition c3_descriptor :: obs_rec where
  "c3_descriptor = [(''status'', PStr ''AVAILABLE''), (''path'', PStr ''/sys''), (''sample'', PBool True)]"

definition c3_meta_value :: "string \<Rightarrow> pyval" where
  "c3_meta_value declared = PDict [
     (''metadata'', PDict (map (\<lambda>(k, f). (k, entry_of f)) identity_fields)),
     (''declared_cpus'', PStr declared),
     (''interfaces'', PDict [
       (''thermal_zones'', PDict [(''zone0'', PDict [(''type'', PDict c3_descriptor), (''temperature'', PDict c3_descriptor),
          (''trip_points'', PDict [(''0'', PDict [(''type'', PDict [(''initial_value'', PStr ''passive'')])])])])]),
       (''cpufreq_policies'', PDict [(''policy0'', PDict [(''effective_freq'', PDict c3_descriptor)])]),
       (''trial_cpu'', PDict c3_descriptor)])]"

definition c3_stat_line :: string where
  "c3_stat_line = ''77 (a b) S 1 2 3 4 5 6 7 8 9 10 11 12 13 14 15 16 17 18 19 20 21 22 23 24 25 26 27 28 29 30 31 32 33 34 35 2 0 0''"

definition c3_example_recs :: "string \<Rightarrow> obs_rec list" where
  "c3_example_recs declared =
     [c3_point 0 0 ''metadata'' ''metadata'' (c3_meta_value declared),
      c3_point 1 100 ''heartbeat'' ''heartbeat'' PNone,
      c3_point 2 200 ''thermal:zone0:temperature'' ''raw_read'' (PStr ''42000''),
      c3_point 3 300 ''cpufreq:policy0:effective_freq'' ''raw_read'' (PStr ''2 GHz''),
      c3_point 4 400 ''trial_cpu'' ''raw_read'' (PStr c3_stat_line),
      c3_point 5 200000100 ''heartbeat'' ''heartbeat'' PNone,
      c3_point 6 200000200 ''thermal:zone0:temperature'' ''raw_read'' (PStr ''42000''),
      c3_point 7 200000300 ''cpufreq:policy0:effective_freq'' ''raw_read'' (PStr ''2 GHz''),
      c3_point 8 200000400 ''trial_cpu'' ''raw_read'' (PStr c3_stat_line)]"

text \<open>Lines are named by letters; the schema document by its own name.\<close>

definition c3_example_line :: "string \<Rightarrow> string \<Rightarrow> pyval option" where
  "c3_example_line declared l =
     (if l = ''schema'' then Some (PDict [(''properties'', PDict [(''artifact_identity'', PDict [(''properties'',
        PDict (map (\<lambda>(k, f). (f, PDict [(''const'', PStr f)])) identity_fields))])])])
      else map_option PDict (map_of (zip (map (\<lambda>c. [c]) ''mabcdefgh'') (c3_example_recs declared)) l))"

definition c3_example_text :: string where
  "c3_example_text = concat (map (\<lambda>c. [c, CHR 0x0A]) ''mabcdefgh'')"

definition c3_sources_ex :: sources where
  "c3_sources_ex = [(''thermal:zone0:temperature'', c3_descriptor), (''cpufreq:policy0:effective_freq'', c3_descriptor),
     (''trial_cpu'', c3_descriptor)]"

lemma c3_example:
  assumes "d = ''0-3'' \<or> d = ''0-1''"
  shows "all_lines (c3_line (c3_example_line d) c2_show) c3_example_text = (c3_example_recs d, [])"
    and "canonical_identity (c3_example_line d) (Inr ''schema'') = Inr c2_expected"
    and "c3_checks c2_show k (Inr c2_expected) (c3_example_recs d) = Inr []"
    and "selected (bound_sources (snd (c3_meta (c3_example_recs d)))) (declared_sources (fst (c3_meta (c3_example_recs d)))) = c3_sources_ex"
    and "critical_thresholds c2_show (sub_dict (snd (c3_meta (c3_example_recs d))) ''thermal_zones'') = Inr []"
    and "mapped_zones (sub_dict (snd (c3_meta (c3_example_recs d))) ''thermal_zones'') = Inr 1"
    and "gaps_between (int_stamps is_int_strict (heartbeats (c3_example_recs d))) = [200000000]"
    and "thermal_bound (snd (c3_meta (c3_example_recs d))) \<and> frequency_bound (snd (c3_meta (c3_example_recs d))) \<and>
      cpu_bound (snd (c3_meta (c3_example_recs d)))"
    and "initial_max c2_show (sub_dict (snd (c3_meta (c3_example_recs d))) ''cpufreq_policies'') = []"
  using assms by (elim disjE; simp only:; code_simp)+

lemma c3_point_get:
  "obs_get (c3_point n t s m v) ''measurement'' = PStr m" "obs_get (c3_point n t s m v) ''source'' = PStr s"
  by (simp_all add: c3_point_def obs_get_def)

lemma c2_show_PStr: "c2_show (PStr s) = s"
  by (simp add: c2_show_def)

lemma c3_example_reads:
  "raw_reads c2_show ''thermal:zone0:temperature'' (c3_example_recs d) =
      [c3_point 2 200 ''thermal:zone0:temperature'' ''raw_read'' (PStr ''42000''),
       c3_point 6 200000200 ''thermal:zone0:temperature'' ''raw_read'' (PStr ''42000'')]"
  "raw_reads c2_show ''cpufreq:policy0:effective_freq'' (c3_example_recs d) =
      [c3_point 3 300 ''cpufreq:policy0:effective_freq'' ''raw_read'' (PStr ''2 GHz''),
       c3_point 7 200000300 ''cpufreq:policy0:effective_freq'' ''raw_read'' (PStr ''2 GHz'')]"
  "raw_reads c2_show ''trial_cpu'' (c3_example_recs d) =
      [c3_point 4 400 ''trial_cpu'' ''raw_read'' (PStr c3_stat_line),
       c3_point 8 200000400 ''trial_cpu'' ''raw_read'' (PStr c3_stat_line)]"
  "length (heartbeats (c3_example_recs d)) = 2"
  by (simp_all add: raw_reads_def heartbeats_def c3_example_recs_def c3_point_get c2_show_PStr)

lemma c3_example_decimal:
  "strip_sign ''+-'' (py_strip ''42000'') = (False, ''42000'')" "decimal ''42000'' = Some (''42000'', [], [])"
  "strip_sign ''+'' (filter (\<lambda>c. c \<noteq> CHR '' '') (py_lower (py_strip ''2 GHz''))) = (False, ''2ghz'')"
  "decimal ''2ghz'' = Some (''2'', [], ''ghz'')" "digits_value 10 ''2'' = 2"
  "hz_factor ''ghz'' = Some 1000000000" "unit_of c3_descriptor ''khz'' = ''khz''"
  by code_simp+

definition c3_temp :: pyfloat where "c3_temp = the (parse_temperature ''42000'')"

lemma c3_example_values:
  "parse_temperature ''42000'' = Some c3_temp" "parse_frequency ''2 GHz'' ''khz'' = Some 2000000000"
  "parse_processor c3_stat_line = Inr (Some 2)"
proof -
  have lower: "py_lower [] = []" by (simp add: py_lower_def)
  show "parse_temperature ''42000'' = Some c3_temp"
    unfolding c3_temp_def by (simp add: parse_temperature_def c3_example_decimal Let_def lower)
  have "float_of_rat 2 = Fin 2" "float_of_rat 2000000000 = Fin 2000000000"
    using rnd_of_int [of 2] rnd_of_int [of 2000000000]
    by (simp_all add: float_of_rat_def)
  moreover have "\<lfloor>2000000000 :: rat\<rfloor> = 2000000000" by simp
  ultimately show "parse_frequency ''2 GHz'' ''khz'' = Some 2000000000"
    by (simp add: parse_frequency_def c3_example_decimal decimal_value_def f_times_def whole_def)
  show "parse_processor c3_stat_line = Inr (Some 2)" by code_simp
qed

lemma c3_example_record:
  "read_record c2_show ''thermal:zone0:temperature'' c3_descriptor (c3_point n t ''thermal:zone0:temperature'' ''raw_read'' (PStr ''42000'')) =
     Inr ([], [Temp ''thermal:zone0:temperature'' c3_temp])"
  "read_record c2_show ''cpufreq:policy0:effective_freq'' c3_descriptor (c3_point n t ''cpufreq:policy0:effective_freq'' ''raw_read'' (PStr ''2 GHz'')) =
     Inr ([], [Freq ''cpufreq:policy0:effective_freq'' 2000000000])"
  "read_record c2_show ''trial_cpu'' c3_descriptor (c3_point n t ''trial_cpu'' ''raw_read'' (PStr c3_stat_line)) = Inr ([], [Cpu 2])"
  by (simp_all add: read_record_def read_value_def c3_point_def obs_get_def c2_show_def c3_example_values c3_example_decimal)

lemma c3_example_cpus:
  "declared_cpus (fst (c3_meta (c3_example_recs ''0-3''))) = Inr (Some (map PInt [0, 1, 2, 3]), [])"
  "declared_cpus (fst (c3_meta (c3_example_recs ''0-1''))) = Inr (Some (map PInt [0, 1]), [])"
  "outside (Some (map PInt [0, 1, 2, 3])) [2, 2] = 0" "outside (Some (map PInt [0, 1])) [2, 2] = 2"
  by code_simp+

lemma c3_example_run:
  assumes d: "d = ''0-3'' \<or> d = ''0-1''"
  shows "\<exists>r. c3_main (c3_example_line d) c2_show k (Inr ''schema'') (Some c3_example_text) = Inr r \<and>
    (c3_valid r \<longleftrightarrow> d = ''0-3'') \<and> snd (c3_migrations r) = (if d = ''0-3'' then 0 else 2) \<and>
    (c3_status r = C3_Observable \<longleftrightarrow> d = ''0-3'')"
proof -
  have "rnd 200000000 = 200000000" using rnd_of_int [of 200000000] by simp
  then have mean: "mean_gap [200000000] = Inr (Some (round_half_even 200000000))" by (simp add: mean_gap_def)
  have ne: "c3_example_recs d \<noteq> []" by (simp add: c3_example_recs_def)
  obtain metadata i where meta: "c3_meta (c3_example_recs d) = (metadata, i)" by (cases "c3_meta (c3_example_recs d)")
  note ex = c3_example [OF d, unfolded meta fst_conv snd_conv]
  have parts: "mapR (read_source c2_show (c3_example_recs d)) c3_sources_ex =
     Inr [([], [Temp ''thermal:zone0:temperature'' c3_temp, Temp ''thermal:zone0:temperature'' c3_temp]),
          ([], [Freq ''cpufreq:policy0:effective_freq'' 2000000000, Freq ''cpufreq:policy0:effective_freq'' 2000000000]),
          ([], [Cpu 2, Cpu 2])]"
    by (simp add: c3_sources_ex_def read_source_def c3_example_reads c3_example_record)
  have thermal: "thermal_sources i \<noteq> []" using ex(8) by (auto simp: thermal_bound_def Let_def)
  have run: "\<exists>r. c3_main (c3_example_line d) c2_show k (Inr ''schema'') (Some c3_example_text) = Inr r \<and>
    (c3_valid r \<longleftrightarrow> outside (Some vs) [2, 2] = 0) \<and> snd (c3_migrations r) = outside (Some vs) [2, 2] \<and>
    (c3_status r = C3_Observable \<longleftrightarrow> outside (Some vs) [2, 2] = 0)"
    if "declared_cpus metadata = Inr (Some vs, [])" for vs
    using that ex(8) thermal
    by (simp add: c3_main_def ex(1-7) c3_analyze_def ne meta parts mean c3_judge_def Let_def cpus_of_def temps_of_def freqs_of_def
        complete_reading_def status_of_def c3_example_reads)
  from d show ?thesis
  proof
    assume d: "d = ''0-3''"
    with c3_example_cpus meta have "declared_cpus metadata = Inr (Some (map PInt [0, 1, 2, 3]), [])" by simp
    from run [OF this] c3_example_cpus show ?thesis by (simp add: d)
  next
    assume d: "d = ''0-1''"
    with c3_example_cpus meta have "declared_cpus metadata = Inr (Some (map PInt [0, 1]), [])" by simp
    from run [OF this] c3_example_cpus show ?thesis by (simp add: d)
  qed
qed

text \<open>
  Claim C14. The analysis of thermal and frequency recordings calls the coverage valid exactly when
  every line is a complete record, the records are numbered, in order, of one trial, with
  integer stamps, and of the device of the schema document, the heartbeats are at most half a
  second apart, the thermal and frequency sources are bound, for every selected
  source there are at least as many reads in the recording as heartbeats (whenever they were
  made) and all have well-formed values, and the trial kept to its declared CPUs.
\<close>

theorem c3_valid_iff:
  assumes "c3_main loads show kind schema content = Inr r"
  shows "c3_valid r \<longleftrightarrow> (\<exists>t rs expected. content = Some t \<and> all_lines (c3_line loads show) t = (rs, []) \<and>
    canonical_identity loads schema = Inr expected \<and> c3_clean show expected rs)"
proof -
  from assms obtain t where t: "content = Some t"
    and run: "c3_analyze show kind (canonical_identity loads schema) (fst (all_lines (c3_line loads show) t))
      (snd (all_lines (c3_line loads show) t)) = Inr r"
    by (auto simp: c3_main_def split: option.splits prod.splits)
  show ?thesis unfolding c3_valid_records [OF run] t by (auto simp: prod_eq_iff)
qed

theorem c3_valid_iff_witness:
  "\<exists>r. c3_main (c3_example_line ''0-3'') c2_show ''OSError'' (Inr ''schema'') (Some c3_example_text) = Inr r \<and> c3_valid r \<and>
     c3_clean c2_show c2_expected (c3_example_recs ''0-3'')"
proof -
  from c3_example_run [of "''0-3''" "''OSError''"] obtain r where
    run: "c3_main (c3_example_line ''0-3'') c2_show ''OSError'' (Inr ''schema'') (Some c3_example_text) = Inr r" and v: "c3_valid r"
    by auto
  from c3_valid_iff [OF run] v c3_example(1,2) [of "''0-3''"] show ?thesis using run by auto
qed

text \<open>
  Claim C15. The classification is present exactly when the coverage is valid and some reading is
  at a critical trip point of its zone or below the initial frequency limit of its policy, and
  absent exactly when everything was observable and no reading is; a migration off the declared
  CPUs never makes it present, although the code counts it: it is then unknown and the status 1.
\<close>

theorem c3_classification_exact:
  assumes "c3_main loads show kind schema (Some t) = Inr r" and "all_lines (c3_line loads show) t = (rs, errs)"
  shows "(c3_classification r = C3_Present \<longleftrightarrow> c3_valid r \<and> c3_event show rs) \<and>
    (c3_classification r = C3_Absent \<longleftrightarrow> c3_status r = C3_Observable \<and> \<not> c3_event show rs) \<and>
    (0 < snd (c3_migrations r) \<longrightarrow> c3_classification r = C3_Unknown \<and> c3_exit r = 1)"
  using assms by (intro c3_classes) (simp add: c3_main_def)

theorem c3_classification_exact_witness:
  "(\<exists>r. c3_main (c3_example_line ''0-1'') c2_show ''OSError'' (Inr ''schema'') (Some c3_example_text) = Inr r \<and>
     snd (c3_migrations r) = 2 \<and> c3_classification r = C3_Unknown \<and> c3_exit r = 1) \<and>
   (\<exists>r. c3_main (c3_example_line ''0-3'') c2_show ''OSError'' (Inr ''schema'') (Some c3_example_text) = Inr r \<and>
     c3_classification r = C3_Absent)"
proof
  from c3_example_run [of "''0-1''" "''OSError''"] obtain r where
    run: "c3_main (c3_example_line ''0-1'') c2_show ''OSError'' (Inr ''schema'') (Some c3_example_text) = Inr r"
    and out: "snd (c3_migrations r) = 2" by auto
  from c3_classification_exact [OF run c3_example(1)] run out
  show "\<exists>r. c3_main (c3_example_line ''0-1'') c2_show ''OSError'' (Inr ''schema'') (Some c3_example_text) = Inr r \<and>
     snd (c3_migrations r) = 2 \<and> c3_classification r = C3_Unknown \<and> c3_exit r = 1" by auto
next
  from c3_example_run [of "''0-3''" "''OSError''"] obtain r where
    run: "c3_main (c3_example_line ''0-3'') c2_show ''OSError'' (Inr ''schema'') (Some c3_example_text) = Inr r"
    and st: "c3_status r = C3_Observable" by auto
  have "\<not> c3_event c2_show (c3_example_recs ''0-3'')" by (simp add: c3_event_def Let_def c3_example)
  with c3_classification_exact [OF run c3_example(1)] run st
  show "\<exists>r. c3_main (c3_example_line ''0-3'') c2_show ''OSError'' (Inr ''schema'') (Some c3_example_text) = Inr r \<and>
     c3_classification r = C3_Absent" by auto
qed

end
