(* ===== verification/Abi_Check.thy ===== *)
theory Abi_Check
  imports Repro_Compare Py_Float
begin

text \<open>
  \<open>scripts/verify-eze4-abi.py\<close>: the checksums that the stock modules expect of the kernel's
  exported symbols against the \<open>Module.symvers\<close> of a build. What \<open>llvm-objcopy\<close> extracts from a
  module and what \<open>modinfo\<close> prints are observations; \<open>None\<close> is a failure of the program. The
  parameter \<open>order\<close> is the iteration order of a set of strings. The console summary repeats the
  numbers of the report and is left out.
\<close>

section \<open>Module.symvers\<close>

record export =
  ex_crc :: string
  ex_location :: string
  ex_type :: string

text \<open>Hexadecimal digits with single underscores between them.\<close>

fun hex_run :: "nat \<Rightarrow> string \<Rightarrow> nat option" where
  "hex_run acc [] = None"
| "hex_run acc [c] = (if is_hex c then Some (acc * 16 + hex_digit c) else None)"
| "hex_run acc (c # d # cs) =
     (if \<not> is_hex c then None
      else if d = CHR ''_'' then hex_run (acc * 16 + hex_digit c) cs
      else hex_run (acc * 16 + hex_digit c) (d # cs))"

text \<open>\<open>int(s, 16)\<close> of a stripped, lower-case string: sign, prefix, an underscore after the prefix.\<close>

definition int_base16 :: "string \<Rightarrow> int option" where
  "int_base16 s =
     (let neg = (s \<noteq> [] \<and> hd s = CHR ''-'');
          body = (if s \<noteq> [] \<and> (hd s = CHR ''-'' \<or> hd s = CHR ''+'') then tl s else s);
          digits = (if \<not> prefix ''0x'' body then body
                    else if prefix ''0x_'' body then drop 3 body else drop 2 body)
      in map_option (\<lambda>n. if neg then - int n else int n) (hex_run 0 digits))"

definition crc_text :: "int \<Rightarrow> string" where "crc_text v = ''0x'' @ fmt_hex_int 8 v"

definition part :: "string list \<Rightarrow> nat \<Rightarrow> string" where
  "part ps i = (if i < length ps then py_strip (ps ! i) else [])"

text \<open>A line of the file: nothing, or a symbol; a checksum that is not a number ends the run.\<close>

definition symvers_line :: "string \<Rightarrow> (string \<times> export) option option" where
  "symvers_line line =
     (let ps = split_char (CHR 0x09) (py_strip line) in
      if length ps < 2 then Some None
      else (case int_base16 (py_lower (part ps 0)) of
              None \<Rightarrow> None
            | Some v \<Rightarrow> Some (Some (part ps 1, \<lparr>ex_crc = crc_text v, ex_location = part ps 2, ex_type = part ps 3\<rparr>))))"

definition symvers_step ::
  "string \<Rightarrow> (string \<times> export) list \<Rightarrow> (unit, (string \<times> export) list) res" where
  "symvers_step line syms =
     (case symvers_line line of None \<Rightarrow> Inl () | Some None \<Rightarrow> Inr syms | Some (Some (s, e)) \<Rightarrow> Inr (dict_set s e syms))"

definition parse_module_symvers :: "string \<Rightarrow> (unit, (string \<times> export) list) res" where
  "parse_module_symvers t = foldR symvers_step (text_lines t) []"

section \<open>The expectations of a module\<close>

text \<open>Entries of 64 bytes; a short rest is dropped.\<close>

definition version_entries :: "byte list \<Rightarrow> byte list list" where
  "version_entries data = map (\<lambda>i. take 64 (drop (64 * i) data)) [0..<length data div 64]"

definition entry_crc :: "byte list \<Rightarrow> string" where
  "entry_crc e = ''0x'' @ fmt_hex 8 (le_nat (take 8 e) mod 2 ^ 32)"

definition entry_name :: "byte list \<Rightarrow> string" where
  "entry_name e = map (\<lambda>b. char_of (unat b)) (filter (\<lambda>b. unat b < 128) (takeWhile (\<lambda>b. b \<noteq> 0) (drop 8 e)))"

definition put_entry :: "byte list \<Rightarrow> (string \<times> string) list \<Rightarrow> (string \<times> string) list" where
  "put_entry e syms = (if entry_name e = [] then syms else dict_set (entry_name e) (entry_crc e) syms)"

definition extract_modversions :: "byte list option \<Rightarrow> (string \<times> string) list" where
  "extract_modversions dump = (case dump of None \<Rightarrow> [] | Some data \<Rightarrow> fold put_entry (version_entries data) [])"

definition modinfo_line :: "string \<Rightarrow> (string \<times> string) list \<Rightarrow> (string \<times> string) list" where
  "modinfo_line l info =
     (if CHR '':'' \<notin> set l then info
      else dict_set (py_strip (takeWhile (\<lambda>c. c \<noteq> CHR '':'') l)) (py_strip (tl (dropWhile (\<lambda>c. c \<noteq> CHR '':'') l))) info)"

definition extract_modinfo :: "string option \<Rightarrow> (string \<times> string) list" where
  "extract_modinfo out = (case out of None \<Rightarrow> [] | Some t \<Rightarrow> fold modinfo_line (split_lines [] t) [])"

section \<open>One module\<close>

record mod_stats =
  ms_vermagic :: string
  ms_needed :: nat
  ms_matched :: nat
  ms_mismatched :: "(string \<times> string \<times> string \<times> string) list"
  ms_missing :: "(string \<times> string) list"

definition compare_symbol :: "(string \<times> export) list \<Rightarrow> string \<times> string \<Rightarrow> mod_stats \<Rightarrow> mod_stats" where
  "compare_symbol built sc st =
     (case sc of (s, stock) \<Rightarrow>
        (case map_of built s of
           None \<Rightarrow> st\<lparr>ms_missing := ms_missing st @ [(s, stock)]\<rparr>
         | Some e \<Rightarrow>
             if py_lower stock = py_lower (ex_crc e) then st\<lparr>ms_matched := Suc (ms_matched st)\<rparr>
             else st\<lparr>ms_mismatched := ms_mismatched st @ [(s, stock, ex_crc e, ex_location e)]\<rparr>))"

text \<open>A stock module: its base name, the output of \<open>modinfo\<close> and the dump of \<open>__versions\<close>.\<close>

type_synonym stock = "string \<times> string option \<times> byte list option"

definition module_stats :: "(string \<times> export) list \<Rightarrow> stock \<Rightarrow> mod_stats" where
  "module_stats built m =
     (case m of (name, info, dump) \<Rightarrow>
        let needed = extract_modversions dump in
        fold (compare_symbol built) needed
          \<lparr>ms_vermagic = (case map_of (extract_modinfo info) ''vermagic'' of None \<Rightarrow> ''UNKNOWN'' | Some v \<Rightarrow> v),
           ms_needed = length needed, ms_matched = 0, ms_mismatched = [], ms_missing = []\<rparr>)"

definition perfect :: "mod_stats \<Rightarrow> bool" where
  "perfect st = (ms_mismatched st = [] \<and> ms_missing st = [])"

section \<open>The summary\<close>

record abi_summary =
  ab_modules :: nat
  ab_perfect :: nat
  ab_crc_modules :: nat
  ab_missing_modules :: nat
  ab_referenced :: nat
  ab_matched :: nat
  ab_mismatched :: nat
  ab_missing :: nat

record abi_results =
  ab_summary :: abi_summary
  ab_early :: "(string \<times> mod_stats) list"
  ab_mismatch_freq :: "(string \<times> nat) list"
  ab_missing_freq :: "(string \<times> nat) list"
  ab_per_module :: "(string \<times> mod_stats) list"
  ab_vermagic :: "string list"

definition early_targets :: "string list" where
  "early_targets = [''exynos-chipid_v2.ko'', ''clk_exynos.ko'', ''exynos_mct_v3.ko'', ''ufs-exynos.ko'', ''dwc3-exynos-usb.ko'',
     ''sec_debug.ko'', ''s2mpu15_mfd.ko'', ''s2mpu16_mfd.ko'', ''ems.ko'', ''zram.ko'', ''mali_kbase.ko'']"

definition count_up :: "string \<Rightarrow> (string \<times> nat) list \<Rightarrow> (string \<times> nat) list" where
  "count_up s d = dict_set s (case map_of d s of None \<Rightarrow> 1 | Some n \<Rightarrow> Suc n) d"

definition add_stats :: "mod_stats \<Rightarrow> abi_summary \<Rightarrow> abi_summary" where
  "add_stats st a = a\<lparr>
     ab_perfect := ab_perfect a + (if perfect st then 1 else 0),
     ab_crc_modules := ab_crc_modules a + (if ms_mismatched st \<noteq> [] then 1 else 0),
     ab_missing_modules := ab_missing_modules a + (if ms_missing st \<noteq> [] then 1 else 0),
     ab_referenced := ab_referenced a + ms_needed st,
     ab_matched := ab_matched a + ms_matched st,
     ab_mismatched := ab_mismatched a + length (ms_mismatched st),
     ab_missing := ab_missing a + length (ms_missing st)\<rparr>"

definition audit_module :: "(string \<times> export) list \<Rightarrow> stock \<Rightarrow> abi_results \<Rightarrow> abi_results" where
  "audit_module built m r =
     (let st = module_stats built m in r\<lparr>
        ab_summary := add_stats st (ab_summary r),
        ab_early := (if list_ex (\<lambda>t. contains_sub t (fst m)) early_targets then dict_set (fst m) st (ab_early r) else ab_early r),
        ab_mismatch_freq := fold (\<lambda>x. count_up (fst x)) (ms_mismatched st) (ab_mismatch_freq r),
        ab_missing_freq := fold (\<lambda>x. count_up (fst x)) (ms_missing st) (ab_missing_freq r),
        ab_per_module := dict_set (fst m) st (ab_per_module r),
        ab_vermagic := ab_vermagic r @ [ms_vermagic st]\<rparr>)"

definition no_results :: "nat \<Rightarrow> abi_results" where
  "no_results n = \<lparr>ab_summary = \<lparr>ab_modules = n, ab_perfect = 0, ab_crc_modules = 0, ab_missing_modules = 0,
     ab_referenced = 0, ab_matched = 0, ab_mismatched = 0, ab_missing = 0\<rparr>,
     ab_early = [], ab_mismatch_freq = [], ab_missing_freq = [], ab_per_module = [], ab_vermagic = []\<rparr>"

text \<open>\<open>sorted(..., key=count, reverse=True)\<close> keeps the order of equal counts.\<close>

definition by_count :: "(string \<times> nat) list \<Rightarrow> (string \<times> nat) list" where
  "by_count d = sort_key (\<lambda>(s, n). - int n) d"

definition audit_abi :: "(string list \<Rightarrow> string list) \<Rightarrow> (string \<times> export) list \<Rightarrow> stock list \<Rightarrow> abi_results" where
  "audit_abi order built ms =
     (let r = fold (audit_module built) ms (no_results (length ms)) in
      r\<lparr>ab_mismatch_freq := by_count (ab_mismatch_freq r), ab_missing_freq := by_count (ab_missing_freq r),
        ab_vermagic := order (dedup_on [] (ab_vermagic r))\<rparr>)"

section \<open>The reports\<close>

text \<open>\<open>matched / total * 100.0\<close>, and a number with two decimals.\<close>

definition percent :: "nat \<Rightarrow> nat \<Rightarrow> rat" where
  "percent m t = (if t = 0 then 0 else rnd (rnd (of_nat m / of_nat t) * 100))"

definition fmt_2f :: "rat \<Rightarrow> string" where
  "fmt_2f x = (let n = nat (round_half_even (x * 100)) in fmt_nat (n div 100) @ ''.'' @ fmt_dec 2 (n mod 100))"

text \<open>The first mismatch of a symbol among the modules kept in the report.\<close>

definition sample_of :: "abi_results \<Rightarrow> string \<Rightarrow> string \<times> string" where
  "sample_of r s =
     (case filter (\<lambda>x. fst x = s) (concat (map (\<lambda>m. ms_mismatched (snd m)) (ab_per_module r))) of
        [] \<Rightarrow> (''N/A'', ''N/A'') | (_, stock, crc, _) # _ \<Rightarrow> (stock, crc))"

definition code_cell :: "string \<Rightarrow> string" where "code_cell s = ''`'' @ s @ ''`''"

definition table_row :: "string list \<Rightarrow> string" where
  "table_row cells = ''| '' @ join '' | '' cells @ '' |'' @ nl"

definition early_row :: "string \<times> mod_stats \<Rightarrow> string" where
  "early_row e =
     (case e of (name, st) \<Rightarrow> table_row [code_cell name, fmt_nat (ms_needed st), fmt_nat (ms_matched st),
        fmt_nat (length (ms_mismatched st)), fmt_nat (length (ms_missing st)),
        code_cell (if perfect st then ''PERFECT_MATCH'' else ''MISMATCH'')])"

definition mismatch_rows :: "abi_results \<Rightarrow> string" where
  "mismatch_rows r =
     concat (map (\<lambda>(s, n). case sample_of r s of (stock, crc) \<Rightarrow>
       table_row [code_cell s, fmt_nat n, code_cell stock, code_cell crc]) (take 20 (ab_mismatch_freq r)))"

definition abi_markdown :: "abi_results \<Rightarrow> string" where
  "abi_markdown r =
     (let a = ab_summary r; item = (\<lambda>label v. ''- **'' @ label @ ''**: '' @ v @ nl) in
      ''# CONFIG_MODVERSIONS CRC Parity Audit Report'' @ nl @ nl @ ''## Executive Summary'' @ nl @ nl @
      item ''Total Stock Modules Audited'' (fmt_nat (ab_modules a)) @
      item ''Stock Vermagic'' (code_cell (join '', '' (ab_vermagic r))) @
      item ''Modules with 100% Symbol Match'' (fmt_nat (ab_perfect a) @ '' / '' @ fmt_nat (ab_modules a)) @
      item ''Total Symbol References'' (fmt_nat (ab_referenced a)) @
      item ''Total Matched CRCs''
        (fmt_nat (ab_matched a) @ '' ('' @ fmt_2f (percent (ab_matched a) (ab_referenced a)) @ ''%)'') @
      item ''Total Mismatched CRCs'' (fmt_nat (ab_mismatched a)) @
      item ''Total Missing Symbols'' (fmt_nat (ab_missing a)) @ nl @
      ''## Early-Boot Critical Drivers Parity'' @ nl @ nl @
      table_row [''Module Name'', ''Total Symbols'', ''Matched'', ''Mismatched'', ''Missing'', ''Parity Status''] @
      table_row ('':---'' # replicate 5 '':---:'') @
      concat (map early_row (sort_key fst (ab_early r))) @ nl @
      (if ab_mismatch_freq r = [] then []
       else ''## Most Frequent CRC Mismatches'' @ nl @ nl @
         table_row [''Symbol Name'', ''Referenced Count'', ''Sample Stock CRC'', ''Sample Built CRC''] @
         table_row ('':---'' # replicate 3 '':---:'') @ mismatch_rows r))"

definition stats_json :: "mod_stats \<Rightarrow> pyval" where
  "stats_json st = PDict [(''vermagic'', PStr (ms_vermagic st)), (''total_needed'', PInt (int (ms_needed st))),
     (''matched'', PInt (int (ms_matched st))),
     (''mismatched'', PList (map (\<lambda>(s, stock, crc, loc). PDict [(''symbol'', PStr s), (''stock_crc'', PStr stock),
        (''built_crc'', PStr crc), (''location'', PStr loc)]) (ms_mismatched st))),
     (''missing'', PList (map (\<lambda>(s, stock). PDict [(''symbol'', PStr s), (''stock_crc'', PStr stock)]) (ms_missing st)))]"

definition abi_json :: "abi_results \<Rightarrow> pyval" where
  "abi_json r =
     (let a = ab_summary r; counts = (\<lambda>d. PDict (map (\<lambda>(s, n). (s, PInt (int n))) d));
          stats = (\<lambda>d. PDict (map (\<lambda>(k, st). (k, stats_json st)) d)) in
      PDict [(''summary'', counts [(''total_stock_modules'', ab_modules a), (''modules_perfect_match'', ab_perfect a),
               (''modules_with_crc_mismatches'', ab_crc_modules a), (''modules_with_missing_symbols'', ab_missing_modules a),
               (''total_symbols_referenced'', ab_referenced a), (''total_symbols_matched'', ab_matched a),
               (''total_symbols_mismatched'', ab_mismatched a), (''total_symbols_missing'', ab_missing a)]),
             (''early_boot'', stats (ab_early r)),
             (''mismatched_symbols_frequency'', counts (ab_mismatch_freq r)),
             (''missing_symbols_frequency'', counts (ab_missing_freq r)),
             (''per_module'', stats (ab_per_module r)), (''vermagic_distinct'', PList (map PStr (ab_vermagic r)))])"

text \<open>
  How the run ends: no \<open>Module.symvers\<close> (\<open>FileNotFoundError\<close>), a checksum in it that is not a number
  (\<open>ValueError\<close>), no stock module (status 1), or the results, whatever they are, with status 0.
\<close>

datatype abi_outcome = No_Symvers | Bad_Symvers | No_Stock_Modules | Audited abi_results

definition abi_main :: "(string list \<Rightarrow> string list) \<Rightarrow> string option \<Rightarrow> stock list \<Rightarrow> abi_outcome" where
  "abi_main order symvers ms =
     (case symvers of None \<Rightarrow> No_Symvers
      | Some t \<Rightarrow> (case parse_module_symvers t of Inl _ \<Rightarrow> Bad_Symvers
          | Inr built \<Rightarrow> if ms = [] then No_Stock_Modules else Audited (audit_abi order built ms)))"

definition abi_exit :: "abi_outcome \<Rightarrow> nat" where
  "abi_exit out = (case out of Audited r \<Rightarrow> 0 | _ \<Rightarrow> 1)"

end
