(* ===== verification/Abi_Properties.thy ===== *)
theory Abi_Properties
  imports Abi_Check Osrc_Walk P0_Header Posix_Path
begin

text \<open>
  What \<open>scripts/verify-eze4-abi.py\<close> decides: on a \<open>Module.symvers\<close> and a \<open>__versions\<close> section as a
  kernel build writes them, a module matches exactly when every symbol it expects is exported with
  the checksum it expects; and what the numbers of the summary count.
\<close>

section \<open>What a kernel build writes\<close>








section \<open>Reading it back\<close>













section \<open>The versions section\<close>






section \<open>Comparing a module\<close>









section \<open>The numbers of the summary\<close>


















end
