(* ===== verification/Spec2Isabelle.thy ===== *)
theory Spec2Isabelle
  imports Py_Prelude Py_Bytes Py_Format Py_Float Py_Value
    Bootimg Dtbo Dtbo_Roundtrip Fdt_Scan P0_Fingerprint P0_Header
    J2_Validator J2_Records J2_Aggregator J2_Campaign
    Py_Text Dts_Lexer Dts_Parser Dts_Tree Dts_Compare
    File_System Zip_Ingest Zip_Checks Zip_Extract Zip_Publish Zip_Live Zip_Properties
    Posix_Path Release_Names Release_Extract Release_Safety Release_Tree Release_Unpack Release_Properties Tar_Extract
    Py_Regex Osrc_Inventory Osrc_Dts Osrc_Report Osrc_Walk Osrc_Properties Osrc_Json Osrc_Subsystems
    Keyed_Diff Repro_Compare
    Py_Lines C2_Clock C2_Properties Py_Keys J1_Engine J1_Properties
    Artifacts U11_Modules U11_Closure Preflight_Parts Preflight Preflight_Properties
    Obs_Jsonl C2_Obs C2_Obs_Properties C3_Parse C3_Obs C3_Obs_Properties
    Abi_Check Abi_Properties
begin

text \<open>
  Verification of the Python tools of the SM-X510 Linux bring-up repository.

  The repository prepares a Linux kernel for one tablet. Its own logic is a set of offline Python
  tools, which take untrusted or irreplaceable inputs (vendor archives, boot images, device
  trees, records of experiments on the device) and give a verdict, a report or an extracted tree.
  Nothing is shared at run time: a tool reads files, writes files and ends with a status, and
  another tool reads what it wrote. The development has one group of theories per tool; where a
  tool reads the output of another, a theorem relates the two.

  \<^bold>\<open>Library.\<close> \<open>Py_Prelude\<close>: results that may raise (\<open>bindR\<close>, \<open>guardR\<close>, \<open>mapR\<close>, \<open>foldR\<close>, \<open>catR\<close>),
  slices, \<open>sorted(set(...))\<close>. \<open>Py_Bytes\<close>: bytes and \<open>struct\<close>. \<open>Py_Float\<close>: doubles as exact rationals
  with correct rounding. \<open>Py_Value\<close>: the values of \<open>json.loads\<close> with Python's equality, order and
  conversions. \<open>Py_Keys\<close>: such values as keys of sets and dicts. \<open>Py_Format\<close>, \<open>Py_Text\<close>, \<open>Py_Lines\<close>:
  formatting, string methods, lines. \<open>Py_Regex\<close>: a backtracking matcher, proved to find exactly the
  declarative matches. \<open>File_System\<close>, \<open>Posix_Path\<close>: paths, nodes, system calls, \<open>normpath\<close>, resolution.
\<open>Keyed_Diff\<close>: the contract of a comparison of two dicts as a locale. \<open>Py_Bytes\<close> has one for
  fixed-width integer codecs, \<open>J2_Aggregator\<close> one for the validator it calls. Each locale is
  interpreted on the model's own definitions, in the theory of the component that provides them.

  \<^bold>\<open>Images and containers.\<close> \<open>Bootimg\<close> (\<open>tools/bootimg_info.py\<close>): headers of boot and vendor_boot images
  and the AVB footer; the parsed sections lie inside the file. \<open>Dtbo\<close>, \<open>Dtbo_Roundtrip\<close>
  (\<open>tools/dtbo_pack.py\<close>, \<open>tools/dtbo_extract.py\<close>): packing and extracting are inverse. \<open>Fdt_Scan\<close>
  (\<open>tools/fdt_scan.py\<close>): the scanner finds the trees of a greedy specification.
  \<open>P0_Fingerprint\<close>, \<open>P0_Header\<close> (\<open>tools/rmg-eze4/generate_p0_fingerprint.py\<close>): the generated C header
  contains exactly the extracted words.

  \<^bold>\<open>Archives.\<close> \<open>Zip_Ingest\<close>, \<open>Zip_Checks\<close>, \<open>Zip_Extract\<close>, \<open>Zip_Publish\<close>, \<open>Zip_Live\<close>, \<open>Zip_Properties\<close>
  (\<open>tools/safe_zip_ingest.py\<close>): names and sizes that pass the checks, all-or-nothing extraction,
  and that a complete archive is extracted. \<open>Release_Names\<close>, \<open>Release_Extract\<close>, \<open>Release_Safety\<close>,
  \<open>Release_Tree\<close>, \<open>Release_Unpack\<close>, \<open>Release_Properties\<close> (\<open>tools/safe_release_extract.py\<close>): nothing is
  written outside the output directory, also through symbolic links, and the unpacking of a
  release tree reaches every archive and loses nothing. \<open>Tar_Extract\<close> (\<open>tools/safe_tar_extract.py\<close>).

  \<^bold>\<open>Device trees and source trees.\<close> \<open>Dts_Lexer\<close>, \<open>Dts_Parser\<close>, \<open>Dts_Tree\<close>, \<open>Dts_Compare\<close>
  (\<open>tools/dts_semantic_diff.py\<close>): scanner, parser, tree, comparison and verdict. \<open>Osrc_Inventory\<close>,
  \<open>Osrc_Dts\<close>, \<open>Osrc_Report\<close>, \<open>Osrc_Json\<close>, \<open>Osrc_Walk\<close>, \<open>Osrc_Properties\<close> (\<open>tools/osrc_tree_compare.py\<close>):
  inventories and their comparison, the choice of a device-tree source, the transactional
  publication; it calls the device-tree parser of the group before. \<open>Osrc_Subsystems\<close>
  (\<open>tools/osrc_subsystem_summary.py\<close>) reads the report of that comparison; \<open>summary_of_comparison\<close>
  composes the two.

  \<^bold>\<open>Experiments.\<close> \<open>J2_Validator\<close>, \<open>J2_Records\<close> (\<open>analysis/validator.py\<close>), \<open>J2_Aggregator\<close>,
  \<open>J2_Campaign\<close> (\<open>analysis/aggregator.py\<close>): what a valid record and a campaign verdict mean; the
  aggregation is proved against the contract of its validator, and then with the real one.
  \<open>J1_Engine\<close>, \<open>J1_Properties\<close> (\<open>analysis/engine.py\<close>): the earlier classifier. \<open>C2_Clock\<close>,
  \<open>C2_Properties\<close> (\<open>c2_dual_clock_analyze.py\<close>): an affirmative verdict on a recording of two clocks
  is given only for a complete timeline. (All under \<open>tools/rmg-eze4/\<close>.)
  \<open>Obs_Jsonl\<close>, \<open>C2_Obs\<close>, \<open>C2_Obs_Properties\<close> (\<open>c2_obs_01_analyze.py\<close>) and \<open>C3_Parse\<close>, \<open>C3_Obs\<close>,
  \<open>C3_Obs_Properties\<close> (\<open>c3_obs_01_analyze.py\<close>): which host recordings are complete, and what presence
  and absence mean on them; a device recording given to the former goes to \<open>C2_Clock\<close>.

  \<^bold>\<open>Builds.\<close> \<open>Repro_Compare\<close> (\<open>tools/u11_repro_compare.py\<close>, \<open>tools/repro_compare.py\<close>,
  \<open>scripts/compare-build-runs.py\<close>): two builds are reproducible exactly when they have the same files.
  \<open>Artifacts\<close> holds what the audits read. \<open>U11_Modules\<close>, \<open>U11_Closure\<close> (\<open>tools/u11_modules_audit.py\<close>):
  initramfs profiles closed under dependencies of any depth, load orders, evidence lists.
  \<open>Preflight_Parts\<close>, \<open>Preflight\<close>, \<open>Preflight_Properties\<close> (\<open>tools/u11_preflight.py\<close>): checksum lists, the
  gate of the M3 payload, and that the report of the build comparison is accepted exactly when the
  builds were reproducible. \<open>Abi_Check\<close>, \<open>Abi_Properties\<close> (\<open>scripts/verify-eze4-abi.py\<close>): the checksums
  a stock module expects against those a kernel build exports.

  \<^bold>\<open>State.\<close> A tool that changes the file system is a state-passing computation over \<open>fs\<close>; one that only
  reads gets its observations as arguments. Exceptions are the left side of a sum, one datatype per
  tool, so that each raise, early return and exit status is a branch of the model.

  \<^bold>\<open>Bounds.\<close> Loops recurse on their data or a measure. The mutual recursion of the parser of
  \<open>dts_semantic_diff.py\<close> is a \<open>partial_function\<close>, and \<open>parse_dts_total\<close> shows that it always returns. Its
  parameter \<open>room\<close> is the number of nested blocks the interpreter's stack has room for (two frames
  each, about 500 under the default limit); one more raises \<open>RecursionError\<close>. The frames of the
  helpers that the innermost block calls are not counted apart. Path
  resolution has a step count, as the kernel has a limit; running out is the failure the code
  sees for a loop of links. Integers of the file formats keep their width (\<open>w word\<close>, or the explicit
  modulus); Python's own are \<open>int\<close> and \<open>nat\<close>.

  \<^bold>\<open>Parameters.\<close> Code that is not in the repository is an argument: SHA-256, \<open>zipfile\<close> and \<open>tarfile\<close>
  (the entries and reads they yield), \<open>json.loads\<close> and \<open>json.dumps\<close>, \<open>str\<close> of a JSON value, the UTF-8
  decoder, the output of \<open>git\<close>, the names \<open>tempfile\<close> picks, the order of a directory listing, the
  iteration order of a set, and whether a system call fails. Strings have code points below 256;
  a \<open>unicode_escape\<close> result beyond that is an outcome of its own. Markdown with other characters is
  given as UTF-8 bytes. Pure paths follow Python 3.12.

  \<^bold>\<open>Not modelled.\<close> Argument parsers, usage messages and the text printed on failure. The collectors
  under \<open>tools/rmg-eze4/\<close> and the C observer talk to a device through \<open>adb\<close>, \<open>/proc\<close> and \<open>/sys\<close>;
  what they decide (which sensors \<open>c3_obs_01_collect.py\<close> finds and in which order it samples them)
  depends on the device's directories. \<open>check_consistency.py\<close>, \<open>verify_j2_closure.py\<close> and
  \<open>verify_exploit_feasibility.py\<close> search fixed phrases in fixed documents.
  \<open>compatible_report.py\<close> prints a table of the drivers that mention a compatible string. The Markdown and
  JSON renderers of \<open>dts_semantic_diff.py\<close> print the result that \<open>Dts_Compare\<close> defines. Shell scripts,
  tests, kernel patches, configuration, initramfs, documentation and generated reports are not
  Python code of the program.
\<close>

end
